(* ===== verification/Inbox_Prelude.thy ===== *)
theory Inbox_Prelude
  imports Main "HOL-Library.AList"
begin

text \<open>
  Vocabulary shared by the component theories.

  Instants are integers counting milliseconds since the Unix epoch. The code keeps an
  instant either as a \<open>Date\<close> or as the string \<open>toISOString\<close> prints for it; both views
  carry the same number, and SQL compares the strings in the order of the numbers (for
  the four-digit years the program runs in), so one type serves for both.

  A string is a list of characters (code units below 256). A SQL table is a list of row
  records in insertion order; the statements the code sends are the \<open>tab_\<close> operators
  below. A promise that rejects is the left side of a sum.
\<close>

type_synonym instant = int

named_theorems guards \<open>unfolding rules for the guards of the handlers\<close>
named_theorems row_simps \<open>how the writes of the code act on the key of a row\<close>

section \<open>Numbers and strings\<close>

text \<open>\<open>Math.ceil(a / b)\<close> and \<open>Math.floor(a / b)\<close> on integers with positive \<open>b\<close>.\<close>

definition ceil_div :: "int \<Rightarrow> int \<Rightarrow> int" where
  "ceil_div a b = - ((- a) div b)"

lemma ceil_div_bounds:
  assumes "0 < b"
  shows "a \<le> b * ceil_div a b" and "b * ceil_div a b < a + b"
proof -
  define q where "q = (- a) div b"
  have e: "b * q + (- a) mod b = - a" by (simp add: q_def)
  have l: "0 \<le> (- a) mod b" and u: "(- a) mod b < b" using assms by simp_all
  have c: "b * ceil_div a b = - (b * q)" by (simp add: ceil_div_def q_def)
  show "a \<le> b * ceil_div a b" using e l c by linarith
  show "b * ceil_div a b < a + b" using e u c by linarith
qed

text \<open>\<open>s.slice(0, n)\<close>.\<close>

definition js_slice :: "nat \<Rightarrow> 'a list \<Rightarrow> 'a list" where
  "js_slice n s = take n s"

lemma length_js_slice [simp]: "length (js_slice n s) \<le> n"
  by (simp add: js_slice_def)

text \<open>\<open>xs.join(sep)\<close>.\<close>

fun js_join :: "string \<Rightarrow> string list \<Rightarrow> string" where
  "js_join sep [] = []"
| "js_join sep [x] = x"
| "js_join sep (x # xs) = x @ sep @ js_join sep xs"

text \<open>\<open>value ?? fallback\<close> on a nullable value.\<close>

definition nullish :: "'a option \<Rightarrow> 'a \<Rightarrow> 'a" where
  "nullish v d = (case v of None \<Rightarrow> d | Some x \<Rightarrow> x)"

lemma nullish_simps [simp]: "nullish None d = d" "nullish (Some x) d = x"
  by (simp_all add: nullish_def)

section \<open>Tables\<close>

text \<open>\<open>SELECT ... WHERE p\<close>, its first row, and the number of rows a write touches.\<close>

definition tab_first :: "('r \<Rightarrow> bool) \<Rightarrow> 'r list \<Rightarrow> 'r option" where
  "tab_first p rows = find p rows"

definition tab_changes :: "('r \<Rightarrow> bool) \<Rightarrow> 'r list \<Rightarrow> nat" where
  "tab_changes p rows = length (filter p rows)"

text \<open>\<open>UPDATE ... SET f WHERE p\<close> and \<open>DELETE ... WHERE p\<close>.\<close>

definition tab_update :: "('r \<Rightarrow> bool) \<Rightarrow> ('r \<Rightarrow> 'r) \<Rightarrow> 'r list \<Rightarrow> 'r list" where
  "tab_update p f rows = map (\<lambda>r. if p r then f r else r) rows"

definition tab_delete :: "('r \<Rightarrow> bool) \<Rightarrow> 'r list \<Rightarrow> 'r list" where
  "tab_delete p rows = filter (\<lambda>r. \<not> p r) rows"

text \<open>
  \<open>INSERT\<close> in its three forms: failing on a duplicate key (\<open>None\<close>), ignoring it
  (\<open>INSERT OR IGNORE\<close>, \<open>ON CONFLICT DO NOTHING\<close>), or merging into the row that is
  there (\<open>ON CONFLICT DO UPDATE\<close>; the merge takes the old row and the excluded one).
\<close>

definition tab_insert :: "('r \<Rightarrow> 'k) \<Rightarrow> 'r \<Rightarrow> 'r list \<Rightarrow> 'r list option" where
  "tab_insert key r rows = (if key r \<in> key ` set rows then None else Some (rows @ [r]))"

definition tab_insert_ignore :: "('r \<Rightarrow> 'k) \<Rightarrow> 'r \<Rightarrow> 'r list \<Rightarrow> 'r list" where
  "tab_insert_ignore key r rows = (if key r \<in> key ` set rows then rows else rows @ [r])"

definition tab_upsert ::
  "('r \<Rightarrow> 'k) \<Rightarrow> ('r \<Rightarrow> 'r \<Rightarrow> 'r) \<Rightarrow> 'r \<Rightarrow> 'r list \<Rightarrow> 'r list" where
  "tab_upsert key merge r rows =
     (if key r \<in> key ` set rows
      then tab_update (\<lambda>old. key old = key r) (\<lambda>old. merge old r) rows
      else rows @ [r])"

definition tab_keyed :: "('r \<Rightarrow> 'k) \<Rightarrow> 'r list \<Rightarrow> bool" where
  "tab_keyed key rows = distinct (map key rows)"

lemma tab_first_None: "tab_first p rows = None \<longleftrightarrow> (\<forall>r\<in>set rows. \<not> p r)"
  by (auto simp: tab_first_def find_None_iff)

lemma tab_first_SomeD: "tab_first p rows = Some r \<Longrightarrow> r \<in> set rows \<and> p r"
  by (auto simp: tab_first_def find_Some_iff)

lemma tab_first_Nil [simp]: "tab_first p [] = None"
  by (simp add: tab_first_def)

lemma tab_first_Cons [simp]:
  "tab_first p (r # rows) = (if p r then Some r else tab_first p rows)"
  by (simp add: tab_first_def)

lemma tab_first_filter:
  "tab_first p rows = (case filter p rows of [] \<Rightarrow> None | r # _ \<Rightarrow> Some r)"
  by (induction rows) auto

lemma tab_first_append:
  "tab_first p (xs @ ys) = (case tab_first p xs of None \<Rightarrow> tab_first p ys | Some r \<Rightarrow> Some r)"
  by (induction xs) (auto simp: tab_first_def)

lemma tab_first_keyed:
  assumes "tab_keyed key rows" and "r \<in> set rows" and "key r = k"
  shows "tab_first (\<lambda>r. key r = k) rows = Some r"
  using assms by (induction rows) (auto simp: tab_keyed_def image_iff)

lemma tab_keyed_unique:
  "tab_keyed key rows \<Longrightarrow> r \<in> set rows \<Longrightarrow> r' \<in> set rows \<Longrightarrow> key r = key r' \<Longrightarrow> r = r'"
  by (auto simp: tab_keyed_def distinct_map inj_on_def)

lemma length_tab_update [simp]: "length (tab_update p f rows) = length rows"
  by (simp add: tab_update_def)

lemma tab_update_Nil [simp]: "tab_update p f [] = []"
  by (simp add: tab_update_def)

lemma tab_update_Cons [simp]:
  "tab_update p f (r # rows) = (if p r then f r else r) # tab_update p f rows"
  by (simp add: tab_update_def)

lemma set_tab_update:
  "set (tab_update p f rows) = (\<lambda>r. if p r then f r else r) ` set rows"
  by (simp add: tab_update_def)

lemma tab_update_none: "(\<And>r. r \<in> set rows \<Longrightarrow> \<not> p r) \<Longrightarrow> tab_update p f rows = rows"
  by (induction rows) auto

lemma set_tab_delete [simp]: "set (tab_delete p rows) = {r \<in> set rows. \<not> p r}"
  by (auto simp: tab_delete_def)

lemma tab_delete_simps [simp]:
  "tab_delete p [] = []"
  "tab_delete p (r # rows) = (if p r then tab_delete p rows else r # tab_delete p rows)"
  by (simp_all add: tab_delete_def)

lemma tab_keyed_delete [intro]: "tab_keyed key rows \<Longrightarrow> tab_keyed key (tab_delete p rows)"
  by (auto simp: tab_keyed_def tab_delete_def distinct_map intro: inj_on_subset)

lemma tab_keyed_insert_ignore [intro]:
  "tab_keyed key rows \<Longrightarrow> tab_keyed key (tab_insert_ignore key r rows)"
  by (auto simp: tab_keyed_def tab_insert_ignore_def)

lemma tab_keyed_insert:
  "tab_keyed key rows \<Longrightarrow> tab_insert key r rows = Some rows' \<Longrightarrow> tab_keyed key rows'"
  by (auto simp: tab_keyed_def tab_insert_def split: if_splits)

lemma tab_insert_SomeD:
  "tab_insert key r rows = Some rows' \<Longrightarrow> rows' = rows @ [r] \<and> key r \<notin> key ` set rows"
  by (auto simp: tab_insert_def split: if_splits)

lemma set_tab_insert_ignore:
  "set (tab_insert_ignore key r rows)
     = (if key r \<in> key ` set rows then set rows else insert r (set rows))"
  by (auto simp: tab_insert_ignore_def)

subsection \<open>Writes that keep the key of the row\<close>

text \<open>
  Nearly every \<open>UPDATE\<close> of the program leaves the columns of the primary key alone. What
  follows from that is proved once, for any such write \<open>f\<close> and key \<open>key\<close>.
\<close>

locale row_write =
  fixes key :: "'r \<Rightarrow> 'k" and f :: "'r \<Rightarrow> 'r"
  assumes key_write: "key (f r) = key r"
begin

lemma map_key_update: "map key (tab_update p f rows) = map key rows"
  by (simp add: tab_update_def key_write)

lemma keyed_update: "tab_keyed key (tab_update p f rows) = tab_keyed key rows"
  by (simp add: tab_keyed_def map_key_update)

lemma keys_update: "key ` set (tab_update p f rows) = key ` set rows"
  using map_key_update [of p rows] by (metis image_set)

lemma first_update_key:
  "tab_first (\<lambda>r. key r = k) (tab_update p f rows)
     = map_option (\<lambda>r. if p r then f r else r) (tab_first (\<lambda>r. key r = k) rows)"
  by (induction rows) (auto simp: key_write)

lemma first_update_same:
  "tab_first (\<lambda>r. key r = k) (tab_update (\<lambda>r. key r = k) f rows)
     = map_option f (tab_first (\<lambda>r. key r = k) rows)"
  by (induction rows) (auto simp: key_write)

lemma first_update_other:
  "k' \<noteq> k \<Longrightarrow>
   tab_first (\<lambda>r. key r = k') (tab_update (\<lambda>r. key r = k) f rows)
     = tab_first (\<lambda>r. key r = k') rows"
  by (induction rows) (auto simp: key_write)

end

text \<open>The same facts for a single write, without an interpretation.\<close>

lemma tab_keyed_update:
  "(\<And>r. key (f r) = key r) \<Longrightarrow> tab_keyed key (tab_update p f rows) = tab_keyed key rows"
  by (rule row_write.keyed_update [OF row_write.intro])

lemma tab_keyed_upsert:
  assumes "tab_keyed key rows" and "\<And>old. key (merge old r) = key old"
  shows "tab_keyed key (tab_upsert key merge r rows)"
  using assms tab_keyed_update [of key "\<lambda>old. merge old r"]
  by (auto simp: tab_upsert_def tab_keyed_def [of key "rows @ [r]"])
    (auto simp: tab_keyed_def)

lemma tab_upsert_mem:
  "d \<in> set rows \<Longrightarrow> key d \<noteq> key r \<Longrightarrow> d \<in> set (tab_upsert key merge r rows)"
  by (auto simp: tab_upsert_def set_tab_update image_iff)

lemma tab_upsert_has:
  assumes "\<And>old. key (merge old r) = key old" and "\<And>old. P (merge old r)" and "P r"
  shows "\<exists>d\<in>set (tab_upsert key merge r rows). key d = key r \<and> P d"
proof (cases "key r \<in> key ` set rows")
  case True
  then obtain d where "d \<in> set rows" "key d = key r" by auto
  then have "merge d r \<in> set (tab_upsert key merge r rows)"
    using True by (auto simp: tab_upsert_def set_tab_update image_iff)
  then show ?thesis using assms(1,2) \<open>key d = key r\<close> by metis
next
  case False
  then show ?thesis using assms(3) by (auto simp: tab_upsert_def)
qed

lemma tab_keyed_snoc:
  "tab_keyed key (rows @ [r]) = (tab_keyed key rows \<and> key r \<notin> key ` set rows)"
  by (auto simp: tab_keyed_def)

lemma tab_first_mapped:
  assumes "\<And>r. key (f r) = key r"
  shows "tab_first (\<lambda>r. key r = k) (tab_update (\<lambda>r. key r = k) f rows)
    = map_option f (tab_first (\<lambda>r. key r = k) rows)"
  by (rule row_write.first_update_same [OF row_write.intro]) (rule assms)

end
