(* ===== verification/Retry_Policy.thy ===== *)
theory Retry_Policy
  imports Inbox_Prelude
begin

text \<open>
  The pure decisions of \<open>apps/api/src/job-retry-policy.ts\<close>: the delay of a retry, the
  transition of a job, and the batch decision over rate-limit buckets. The counterpart on
  the worker's side, \<open>decideJobSettlement\<close> of \<open>packages/domain/src/job-failure.ts\<close>, is
  here as well, so that the two can be compared.
\<close>

section \<open>Definitions\<close>

datatype error_class = Permanent | Retryable

datatype job_status = Processing | Deferred | Failed | Dead | Done | Uncertain

record job_state =
  js_failure_attempts :: nat
  js_status :: job_status

datatype job_outcome = Outcome_Deferred | Outcome_Failed error_class | Outcome_Done | Outcome_Uncertain

definition calculate_retry_delay_seconds :: "instant \<Rightarrow> instant \<Rightarrow> int \<Rightarrow> int" where
  "calculate_retry_delay_seconds retryAt now maximumSeconds =
     (let remaining = ceil_div (retryAt - now) 1000
      in max 1 (min maximumSeconds remaining))"

fun decide_job_transition :: "job_state \<Rightarrow> job_outcome \<Rightarrow> job_state" where
  "decide_job_transition current Outcome_Deferred =
     \<lparr>js_failure_attempts = js_failure_attempts current, js_status = Deferred\<rparr>"
| "decide_job_transition current Outcome_Done =
     \<lparr>js_failure_attempts = js_failure_attempts current, js_status = Done\<rparr>"
| "decide_job_transition current Outcome_Uncertain =
     \<lparr>js_failure_attempts = js_failure_attempts current, js_status = Uncertain\<rparr>"
| "decide_job_transition current (Outcome_Failed errorClass) =
     (let failureAttempts = js_failure_attempts current + 1
      in \<lparr>js_failure_attempts = failureAttempts,
          js_status = (if errorClass = Permanent \<or> failureAttempts \<ge> 3 then Dead else Failed)\<rparr>)"

datatype settlement_choice = Dead_Letter | Retry

record job_failure =
  jf_attempts :: nat
  jf_error_class :: error_class

definition decide_job_settlement :: "job_failure \<Rightarrow> nat \<Rightarrow> settlement_choice" where
  "decide_job_settlement failure maximumAttempts =
     (if jf_error_class failure = Retryable \<and> jf_attempts failure < maximumAttempts
      then Retry else Dead_Letter)"

record rate_input =
  ri_bucket :: string
  ri_limit :: nat
  ri_scope :: string
  ri_window :: int

record rate_state =
  rs_bucket :: string
  rs_count :: nat
  rs_expires :: instant
  rs_scope :: string

datatype batch_decision =
    Batch_Denied "(string \<times> nat) list" "rate_state list" instant
  | Batch_Allowed "(string \<times> nat) list" "rate_state list"

text \<open>The key of the map: scope and bucket separated by a NUL character.\<close>

definition rate_key :: "string \<Rightarrow> string \<Rightarrow> string" where
  "rate_key scope bucket = scope @ CHR 0x00 # bucket"

definition current_by_key :: "rate_state list \<Rightarrow> string \<rightharpoonup> rate_state" where
  "current_by_key states =
     map_of (rev (map (\<lambda>s. (rate_key (rs_scope s) (rs_bucket s), s)) states))"

definition rate_active :: "instant \<Rightarrow> rate_state option \<Rightarrow> bool" where
  "rate_active now existing =
     (case existing of None \<Rightarrow> False | Some e \<Rightarrow> now < rs_expires e)"

definition rate_count :: "instant \<Rightarrow> rate_state option \<Rightarrow> nat" where
  "rate_count now existing =
     (case existing of Some e \<Rightarrow> if rate_active now existing then rs_count e else 0 | None \<Rightarrow> 0)"

definition rate_next :: "instant \<Rightarrow> rate_input \<Rightarrow> rate_state option \<Rightarrow> rate_state" where
  "rate_next now input existing =
     \<lparr>rs_bucket = ri_bucket input,
      rs_count = rate_count now existing + 1,
      rs_expires = (case existing of
          Some e \<Rightarrow> if rate_active now existing then rs_expires e
                    else now + ri_window input * 1000
        | None \<Rightarrow> now + ri_window input * 1000),
      rs_scope = ri_scope input\<rparr>"

definition rate_rejected :: "instant \<Rightarrow> rate_input \<Rightarrow> rate_state option \<Rightarrow> instant list" where
  "rate_rejected now input existing =
     (case existing of
        Some e \<Rightarrow> if rate_count now existing \<ge> ri_limit input then [rs_expires e] else []
      | None \<Rightarrow> [])"

text \<open>One turn of the loop: the next states, the counts and the rejections so far.\<close>

fun rate_step ::
  "instant \<Rightarrow> (string \<rightharpoonup> rate_state) \<Rightarrow> rate_input
   \<Rightarrow> rate_state list \<times> (string \<times> nat) list \<times> instant list
   \<Rightarrow> rate_state list \<times> (string \<times> nat) list \<times> instant list" where
  "rate_step now current input (nextStates, counts, rejectedUntil) =
     (let existing = current (rate_key (ri_scope input) (ri_bucket input))
      in (nextStates @ [rate_next now input existing],
          AList.update (ri_scope input) (rate_count now existing) counts,
          rejectedUntil @ rate_rejected now input existing))"

definition from_entries :: "('k \<times> 'v) list \<Rightarrow> ('k \<times> 'v) list" where
  "from_entries entries = fold (\<lambda>(k, v). AList.update k v) entries []"

definition decide_rate_limit_batch ::
  "rate_input list \<Rightarrow> rate_state list \<Rightarrow> instant \<Rightarrow> batch_decision" where
  "decide_rate_limit_batch inputs currentStates now =
     (case fold (rate_step now (current_by_key currentStates)) inputs ([], [], []) of
        (nextStates, counts, rejectedUntil) \<Rightarrow>
          if rejectedUntil \<noteq> []
          then Batch_Denied counts currentStates (hd (sort_key uminus rejectedUntil))
          else Batch_Allowed
                 (from_entries (map (\<lambda>s. (rs_scope s, rs_count s)) nextStates)) nextStates)"

section \<open>Lemmas\<close>

lemma calculate_retry_delay_upper: "1 \<le> m \<Longrightarrow> calculate_retry_delay_seconds r n m \<le> m"
  by (simp add: calculate_retry_delay_seconds_def Let_def)

lemma calculate_retry_delay_lower: "1 \<le> calculate_retry_delay_seconds r n m"
  by (simp add: calculate_retry_delay_seconds_def Let_def)

lemma fold_rate_step:
  "fold (rate_step now current) inputs (ns, cs, rs) =
     (ns @ map (\<lambda>i. rate_next now i (current (rate_key (ri_scope i) (ri_bucket i)))) inputs,
      fold (\<lambda>i. AList.update (ri_scope i)
                  (rate_count now (current (rate_key (ri_scope i) (ri_bucket i))))) inputs cs,
      rs @ concat (map (\<lambda>i. rate_rejected now i
                         (current (rate_key (ri_scope i) (ri_bucket i)))) inputs))"
  by (induction inputs arbitrary: ns cs rs) (simp_all add: Let_def)

definition batch_rejections :: "rate_input list \<Rightarrow> rate_state list \<Rightarrow> instant \<Rightarrow> instant list" where
  "batch_rejections inputs states now =
     concat (map (\<lambda>i. rate_rejected now i
       (current_by_key states (rate_key (ri_scope i) (ri_bucket i)))) inputs)"

lemma decide_rate_limit_batch_alt:
  "decide_rate_limit_batch inputs states now =
     (let rejected = batch_rejections inputs states now;
          nxt = map (\<lambda>i. rate_next now i
                   (current_by_key states (rate_key (ri_scope i) (ri_bucket i)))) inputs
      in if rejected \<noteq> []
         then Batch_Denied
                (fold (\<lambda>i. AList.update (ri_scope i) (rate_count now
                   (current_by_key states (rate_key (ri_scope i) (ri_bucket i))))) inputs [])
                states (hd (sort_key uminus rejected))
         else Batch_Allowed (from_entries (map (\<lambda>s. (rs_scope s, rs_count s)) nxt)) nxt)"
  by (simp add: decide_rate_limit_batch_def fold_rate_step batch_rejections_def Let_def)

lemma hd_sort_key_uminus:
  fixes ts :: "int list"
  assumes "ts \<noteq> []"
  shows "hd (sort_key uminus ts) \<in> set ts" and "t \<in> set ts \<Longrightarrow> t \<le> hd (sort_key uminus ts)"
proof -
  have ne: "sort_key uminus ts \<noteq> []"
    using assms by (metis length_0_conv length_sort)
  have mem: "hd (sort_key uminus ts) \<in> set (sort_key uminus ts)"
    using ne by (rule hd_in_set)
  then show "hd (sort_key uminus ts) \<in> set ts" by simp
  assume "t \<in> set ts"
  then have tin: "t \<in> set (sort_key uminus ts)" by simp
  have srt: "sorted (map uminus (sort_key uminus ts))" by simp
  show "t \<le> hd (sort_key uminus ts)"
  proof (cases "sort_key uminus ts")
    case Nil
    with ne show ?thesis by simp
  next
    case (Cons x xs)
    with srt tin show ?thesis by (auto simp: image_iff)
  qed
qed

lemma rate_count_le:
  assumes "rate_rejected now i e = []" and "1 \<le> ri_limit i"
  shows "rs_count (rate_next now i e) \<le> ri_limit i"
  using assms by (auto simp: rate_rejected_def rate_next_def rate_count_def split: option.splits if_splits)

section \<open>Properties\<close>

text \<open>A batch of rate limits that is allowed charges every bucket exactly once and
  leaves every bucket within its limit.\<close>

lemma batch_allowed_within_limits:
  assumes "decide_rate_limit_batch inputs states now = Batch_Allowed counts nxt"
    and "\<forall>i\<in>set inputs. 1 \<le> ri_limit i"
  shows "list_all2 (\<lambda>i s. rs_scope s = ri_scope i \<and> rs_bucket s = ri_bucket i
           \<and> 1 \<le> rs_count s \<and> rs_count s \<le> ri_limit i) inputs nxt"
proof -
  let ?e = "\<lambda>i. current_by_key states (rate_key (ri_scope i) (ri_bucket i))"
  have nx: "nxt = map (\<lambda>i. rate_next now i (?e i)) inputs" and
    rj: "batch_rejections inputs states now = []"
    using assms(1) by (auto simp: decide_rate_limit_batch_alt Let_def split: if_splits)
  have "rate_rejected now i (?e i) = []" if "i \<in> set inputs" for i
    using rj that by (simp add: batch_rejections_def)
  with assms(2) show ?thesis
    by (auto simp: nx list_all2_map2 rate_count_le list_all2_same)
       (simp_all add: rate_next_def)
qed

text \<open>A batch that is denied consumes nothing: the states come back as they were, and
  the retry instant is the latest expiry among the exhausted buckets.\<close>

lemma batch_denied_consumes_nothing:
  assumes "decide_rate_limit_batch inputs states now = Batch_Denied counts nxt retryAt"
  shows "nxt = states \<and> retryAt \<in> set (batch_rejections inputs states now)
    \<and> (\<forall>t\<in>set (batch_rejections inputs states now). t \<le> retryAt)"
proof -
  let ?r = "batch_rejections inputs states now"
  have ne: "?r \<noteq> []" and nx: "nxt = states" and at: "retryAt = hd (sort_key uminus ?r)"
    using assms by (auto simp: decide_rate_limit_batch_alt Let_def split: if_splits)
  show ?thesis using hd_sort_key_uminus [OF ne] by (simp add: nx at)
qed

text \<open>The API and the worker agree on when a failed job is given up: the transition
  keeps a job with \<open>n\<close> earlier failures alive exactly when the settlement of its
  \<open>n + 1\<close>st failure is a retry.\<close>

lemma transition_agrees_with_settlement:
  "js_status (decide_job_transition s (Outcome_Failed c)) = Failed
     \<longleftrightarrow> decide_job_settlement
           \<lparr>jf_attempts = js_failure_attempts s + 1, jf_error_class = c\<rparr> 3 = Retry"
  by (cases c) (auto simp: decide_job_settlement_def Let_def)

end
