(* ===== verification/Job_Failure.thy ===== *)
theory Job_Failure
  imports Retry_Policy
begin

text \<open>
  \<open>classifyJobFailure\<close> and \<open>redactErrorMessage\<close> of
  \<open>packages/domain/src/job-failure.ts\<close>. The two regular expressions are written out as
  matchers: \<open>RETRYABLE_MESSAGE\<close> as a search for a word between two word boundaries,
  \<open>SECRET_VALUE\<close> as a match at a position followed by a left-to-right replacement.
  Both expressions ignore case.
\<close>

section \<open>Characters\<close>

definition is_upper :: "char \<Rightarrow> bool" where
  "is_upper c = (65 \<le> (of_char c :: nat) \<and> (of_char c :: nat) \<le> 90)"

definition ascii_lower :: "char \<Rightarrow> char" where
  "ascii_lower c = (if is_upper c then char_of ((of_char c :: nat) + 32) else c)"

definition is_digit :: "char \<Rightarrow> bool" where
  "is_digit c = (48 \<le> (of_char c :: nat) \<and> (of_char c :: nat) \<le> 57)"

text \<open>\<open>\w\<close> and \<open>\s\<close>.\<close>

definition is_word :: "char \<Rightarrow> bool" where
  "is_word c = (is_digit c \<or> is_upper c \<or> c = CHR ''_''
     \<or> (97 \<le> (of_char c :: nat) \<and> (of_char c :: nat) \<le> 122))"

definition is_space :: "char \<Rightarrow> bool" where
  "is_space c = (let n = (of_char c :: nat) in (9 \<le> n \<and> n \<le> 13) \<or> n = 32 \<or> n = 160)"

text \<open>A literal of the expression, in lower case, at the head of the input.\<close>

fun strip_ci :: "string \<Rightarrow> string \<Rightarrow> string option" where
  "strip_ci [] s = Some s"
| "strip_ci (p # ps) [] = None"
| "strip_ci (p # ps) (c # cs) = (if ascii_lower c = p then strip_ci ps cs else None)"

section \<open>Classification\<close>

definition retryable_words :: "string list" where
  "retryable_words = [''408'', ''409'', ''425'', ''429'', ''fetch'', ''network'', ''timeout'',
     ''temporar'', ''unavailable'', ''connection'', ''socket'']"

fun five_hundreds :: "string \<Rightarrow> string option" where
  "five_hundreds (c # d # e # s) =
     (if c = CHR ''5'' \<and> is_digit d \<and> is_digit e then Some s else None)"
| "five_hundreds s = None"

text \<open>\<open>\b\<close> between the character before and the rest of the input.\<close>

definition word_boundary :: "char option \<Rightarrow> string \<Rightarrow> bool" where
  "word_boundary prev s =
     ((case prev of None \<Rightarrow> False | Some c \<Rightarrow> is_word c)
      \<noteq> (case s of [] \<Rightarrow> False | c # _ \<Rightarrow> is_word c))"

text \<open>
  Every alternative ends in a word character, so the closing boundary asks that the
  rest of the input does not go on with one.
\<close>

definition ends_word :: "string option \<Rightarrow> bool" where
  "ends_word r = (case r of None \<Rightarrow> False | Some s \<Rightarrow> (case s of [] \<Rightarrow> True | c # _ \<Rightarrow> \<not> is_word c))"

definition retryable_here :: "char option \<Rightarrow> string \<Rightarrow> bool" where
  "retryable_here prev s =
     (word_boundary prev s
      \<and> (list_ex (\<lambda>w. ends_word (strip_ci w s)) retryable_words \<or> ends_word (five_hundreds s)))"

fun retryable_search :: "char option \<Rightarrow> string \<Rightarrow> bool" where
  "retryable_search prev [] = retryable_here prev []"
| "retryable_search prev (c # cs) =
     (retryable_here prev (c # cs) \<or> retryable_search (Some c) cs)"

definition retryable_message :: "string \<Rightarrow> bool" where
  "retryable_message s = retryable_search None s"

section \<open>Redaction\<close>

definition secret_words :: "string list" where
  "secret_words = [''authorization'', ''cookie'', ''password'', ''secret'', ''token'']"

text \<open>\<open>api[_-]?key\<close>, then the plain words: the input after the first alternative that matches.\<close>

definition strip_api_key :: "string \<Rightarrow> string option" where
  "strip_api_key s =
     (case strip_ci ''api'' s of
        None \<Rightarrow> None
      | Some (c # r) \<Rightarrow> if c = CHR ''_'' \<or> c = CHR ''-'' then strip_ci ''key'' r
                        else strip_ci ''key'' (c # r)
      | Some [] \<Rightarrow> None)"

definition strip_secret_word :: "string \<Rightarrow> string option" where
  "strip_secret_word s =
     (case strip_api_key s of
        Some r \<Rightarrow> Some r
      | None \<Rightarrow> (case List.map_filter (\<lambda>w. strip_ci w s) secret_words of [] \<Rightarrow> None | r # _ \<Rightarrow> Some r))"

definition value_char :: "char \<Rightarrow> bool" where
  "value_char c = (\<not> is_space c \<and> c \<noteq> CHR '','' \<and> c \<noteq> CHR '';'')"

text \<open>
  A match of \<open>SECRET_VALUE\<close> at the head of the input: the rest after the word, the
  separator and the blanks around it, and the rest after the value. The runs of blanks
  are maximal: a shorter run would put a blank where the separator or the value starts.
\<close>

definition secret_here :: "string \<Rightarrow> (string \<times> string) option" where
  "secret_here s =
     (case strip_secret_word s of
        None \<Rightarrow> None
      | Some r \<Rightarrow>
          (case dropWhile is_space r of
             c # r' \<Rightarrow>
               if c = CHR ''='' \<or> c = CHR '':''
               then (let v = dropWhile is_space r'
                     in if takeWhile value_char v = [] then None
                        else Some (v, dropWhile value_char v))
               else None
           | [] \<Rightarrow> None))"

lemma length_strip_ci: "strip_ci p s = Some r \<Longrightarrow> length s = length p + length r"
  by (induction p s rule: strip_ci.induct) (auto split: if_splits)

lemma length_strip_api_key: "strip_api_key s = Some r \<Longrightarrow> length r < length s"
  by (auto simp: strip_api_key_def split: option.splits list.splits if_splits dest!: length_strip_ci)

lemma length_strip_secret_word: "strip_secret_word s = Some r \<Longrightarrow> length r < length s"
  by (auto simp: strip_secret_word_def secret_words_def List.map_filter_def
           split: option.splits list.splits if_splits
           dest!: length_strip_ci length_strip_api_key)

lemma secret_here_shorter: "secret_here s = Some (v, r) \<Longrightarrow> length r < length s \<and> length v \<le> length s"
proof -
  assume h: "secret_here s = Some (v, r)"
  then obtain w c r' where w: "strip_secret_word s = Some w"
    and d: "dropWhile is_space w = c # r'"
    and v: "v = dropWhile is_space r'" and r: "r = dropWhile value_char v"
    by (auto simp: secret_here_def Let_def split: option.splits list.splits if_splits)
  have a: "length w < length s" using w by (rule length_strip_secret_word)
  have b: "length (c # r') \<le> length w" using d by (metis length_dropWhile_le)
  have e: "length v \<le> length r'" using v by (simp add: length_dropWhile_le)
  have f: "length r \<le> length v" using r by (simp add: length_dropWhile_le)
  show ?thesis using a b e f by simp
qed

text \<open>\<open>message.replace(SECRET_VALUE, "$1[redacted]")\<close>.\<close>

function redact_secrets :: "string \<Rightarrow> string" where
  "redact_secrets s =
     (case secret_here s of
        Some (v, r) \<Rightarrow> take (length s - length v) s @ ''[redacted]'' @ redact_secrets r
      | None \<Rightarrow> (case s of [] \<Rightarrow> [] | c # cs \<Rightarrow> c # redact_secrets cs))"
  by pat_completeness auto
termination
  by (relation "measure length") (auto dest: secret_here_shorter)

declare redact_secrets.simps [simp del]

definition redact_error_message :: "string \<Rightarrow> string" where
  "redact_error_message message = js_slice 500 (redact_secrets message)"

text \<open>What a \<open>catch\<close> can bind: a \<open>TypeError\<close>, another \<open>Error\<close>, or any other value.\<close>

datatype thrown = Thrown_TypeError string | Thrown_Error string | Thrown_Other

record classified_failure =
  cf_error_class :: error_class
  cf_safe_message :: string

fun thrown_message :: "thrown \<Rightarrow> string" where
  "thrown_message (Thrown_TypeError m) = m"
| "thrown_message (Thrown_Error m) = m"
| "thrown_message Thrown_Other = ''unknown worker error''"

fun is_type_error :: "thrown \<Rightarrow> bool" where
  "is_type_error (Thrown_TypeError m) = True"
| "is_type_error _ = False"

definition classify_job_failure :: "thrown \<Rightarrow> classified_failure" where
  "classify_job_failure e =
     (let message = thrown_message e;
          retryable = is_type_error e \<or> retryable_message message
      in \<lparr>cf_error_class = (if retryable then Retryable else Permanent),
          cf_safe_message = redact_error_message message\<rparr>)"

section \<open>Lemmas\<close>

lemmas regex_simps = ascii_lower_def is_upper_def is_digit_def is_word_def is_space_def
  value_char_def word_boundary_def ends_word_def

lemma length_redact_error_message: "length (redact_error_message m) \<le> 500"
  by (simp add: redact_error_message_def)

lemma dropWhile_value: "\<forall>c\<in>set v. value_char c \<Longrightarrow> dropWhile value_char (v @ r) = dropWhile value_char r"
  by (induction v) auto

lemma secret_here_assignment:
  assumes "v \<noteq> []" and "\<forall>c\<in>set v. value_char c" and "r = [] \<or> \<not> value_char (hd r)"
  shows "secret_here (''token='' @ v @ r) = Some (v @ r, r)"
proof -
  obtain c cs where v: "v = c # cs" using assms(1) by (cases v) auto
  have c: "value_char c" "\<not> is_space c" using assms(2) by (auto simp: v value_char_def)
  have w: "strip_secret_word (''token='' @ v @ r) = Some (''='' @ v @ r)"
    by (simp add: strip_secret_word_def strip_api_key_def secret_words_def List.map_filter_def
          regex_simps)
  have eq: "\<not> is_space CHR ''=''" by (simp add: is_space_def)
  have d: "dropWhile value_char (v @ r) = r"
    using assms(2,3) by (cases r) (auto simp: dropWhile_value)
  show ?thesis
    unfolding secret_here_def w using c d eq by (simp add: v Let_def)
qed

section \<open>Properties\<close>

text \<open>A value assigned to a secret word is cut out of the message whatever it is made
  of, up to the first blank, comma or semicolon; what follows is redacted in turn.\<close>

lemma redaction_drops_the_value:
  assumes "v \<noteq> []" and "\<forall>c\<in>set v. value_char c" and "r = [] \<or> \<not> value_char (hd r)"
  shows "redact_secrets (''token='' @ v @ r) = ''token=[redacted]'' @ redact_secrets r"
  by (subst redact_secrets.simps) (simp add: secret_here_assignment [OF assms, simplified])

text \<open>The bearer scheme defeats the redaction: the value the expression cuts out of an
  authorization header is the word Bearer, and the credential after it stays.\<close>

lemma redaction_keeps_a_bearer_credential:
  "redact_error_message ''authorization: Bearer s3cr3t''
     = ''authorization: [redacted] s3cr3t''"
  by code_simp

text \<open>The alternative \<open>temporar\<close> stands between two word boundaries, so it matches
  neither of the words it abbreviates: such a message is classified as permanent.\<close>

lemma temporary_failures_are_permanent:
  "cf_error_class (classify_job_failure (Thrown_Error ''service temporarily down'')) = Permanent
   \<and> cf_error_class (classify_job_failure (Thrown_Error ''temporary failure'')) = Permanent
   \<and> cf_error_class (classify_job_failure (Thrown_Error ''service unavailable'')) = Retryable"
  by (intro conjI; code_simp)

end
