(* ===== verification/Json.thy ===== *)
theory Json
  imports Complex_Main Inbox_Prelude
begin

text \<open>
  JSON values, as \<open>JSON.parse\<close> returns them and \<open>JSON.stringify\<close> takes them. A number
  is the rational its decimal literal denotes. An object is the list of its entries in
  the order of \<open>Object.entries\<close>; the keys of the program are no array indices, so that is
  the order of insertion.
\<close>

datatype json =
    JNull
  | JBool bool
  | JNum rat
  | JStr string
  | JArr "json list"
  | JObj "(string \<times> json) list"

type_synonym json_record = "(string \<times> json) list"

text \<open>\<open>isRecord\<close> of \<open>apps/api/src/operations.ts\<close> and \<open>control-plane.ts\<close>.\<close>

fun is_record :: "json \<Rightarrow> bool" where
  "is_record (JObj es) = True"
| "is_record v = False"

fun record_of :: "json \<Rightarrow> json_record" where
  "record_of (JObj es) = es"
| "record_of v = []"

text \<open>\<open>value[key]\<close>; \<open>None\<close> is \<open>undefined\<close>.\<close>

definition json_get :: "json_record \<Rightarrow> string \<Rightarrow> json option" where
  "json_get es k = map_of es k"

text \<open>\<open>Object.keys\<close> and the spread \<open>{ ...es, [k]: v }\<close>.\<close>

definition json_keys :: "json_record \<Rightarrow> string list" where
  "json_keys es = map fst es"

definition json_put :: "string \<Rightarrow> json \<Rightarrow> json_record \<Rightarrow> json_record" where
  "json_put k v es = AList.update k v es"

definition json_well_keyed :: "json_record \<Rightarrow> bool" where
  "json_well_keyed es = distinct (map fst es)"

text \<open>Number tests of JavaScript: \<open>Number.isInteger\<close>.\<close>

definition is_integer :: "rat \<Rightarrow> bool" where
  "is_integer x = (of_int \<lfloor>x\<rfloor> = x)"

lemma is_integer_of_int [simp]: "is_integer (of_int n)"
  by (simp add: is_integer_def)

lemma json_get_put [simp]:
  "json_get (json_put k v es) k' = (if k' = k then Some v else json_get es k')"
  by (simp add: json_get_def json_put_def update_conv')

lemma json_well_keyed_put: "json_well_keyed es \<Longrightarrow> json_well_keyed (json_put k v es)"
  by (simp add: json_well_keyed_def json_put_def distinct_update)

lemma set_json_keys_put: "set (json_keys (json_put k v es)) = insert k (set (json_keys es))"
  by (simp add: json_keys_def json_put_def dom_update)

section \<open>Checked values\<close>

definition json_int :: "json_record \<Rightarrow> string \<Rightarrow> int \<Rightarrow> int \<Rightarrow> int option" where
  "json_int es k lowest highest =
     (case json_get es k of
        Some (JNum x) \<Rightarrow> if is_integer x \<and> lowest \<le> \<lfloor>x\<rfloor> \<and> \<lfloor>x\<rfloor> \<le> highest then Some \<lfloor>x\<rfloor> else None
      | _ \<Rightarrow> None)"

text \<open>\<open>z.object\<close>, which passes over keys it does not know, and a list of checked values.\<close>

definition json_object :: "json \<Rightarrow> json_record option" where
  "json_object v = (case v of JObj es \<Rightarrow> Some es | _ \<Rightarrow> None)"

definition json_list :: "json option \<Rightarrow> json list option" where
  "json_list v = (case v of Some (JArr vs) \<Rightarrow> Some vs | _ \<Rightarrow> None)"

fun check_each :: "('a \<Rightarrow> 'b option) \<Rightarrow> 'a list \<Rightarrow> 'b list option" where
  "check_each f [] = Some []"
| "check_each f (v # vs) =
     (case (f v, check_each f vs) of (Some x, Some xs) \<Rightarrow> Some (x # xs) | _ \<Rightarrow> None)"

definition max_safe_integer :: int where
  "max_safe_integer = 9007199254740991"

end
