(* ===== verification/Queue_Job.thy ===== *)
theory Queue_Job
  imports Json "HOL-Library.Monad_Syntax"
begin

text \<open>
  The queue envelope of \<open>packages/domain/src/queue-job.ts\<close>: the items and jobs that pass
  through the queue, the schema an untrusted message has to meet, and the deduplication
  key of an item. The string formats zod checks (\<open>url\<close>, \<open>datetime\<close>, \<open>uuid\<close>) and the
  SHA-256 fingerprint are arguments; the shape of the objects is written out from the
  schema: strict objects, literals, enumerations, optional fields and the refinement of
  the file item.
\<close>

section \<open>Items and jobs\<close>

datatype source_name =
    Telegram | Dida | Github_Stars | Zhihu | Bilibili | Bilibili_Toview | Inoreader
  | Youtube | X_Bookmarks | X_Likes

definition source_names :: "(string \<times> source_name) list" where
  "source_names =
    [(''telegram'', Telegram), (''dida'', Dida), (''github_stars'', Github_Stars),
     (''zhihu'', Zhihu), (''bilibili'', Bilibili), (''bilibili_toview'', Bilibili_Toview),
     (''inoreader'', Inoreader), (''youtube'', Youtube), (''x_bookmarks'', X_Bookmarks),
     (''x_likes'', X_Likes)]"

fun source_string :: "source_name \<Rightarrow> string" where
  "source_string Telegram = ''telegram''"
| "source_string Dida = ''dida''"
| "source_string Github_Stars = ''github_stars''"
| "source_string Zhihu = ''zhihu''"
| "source_string Bilibili = ''bilibili''"
| "source_string Bilibili_Toview = ''bilibili_toview''"
| "source_string Inoreader = ''inoreader''"
| "source_string Youtube = ''youtube''"
| "source_string X_Bookmarks = ''x_bookmarks''"
| "source_string X_Likes = ''x_likes''"

datatype triggered_by = Trigger_Schedule | Trigger_Manual | Trigger_Shadow

definition trigger_names :: "(string \<times> triggered_by) list" where
  "trigger_names = [(''schedule'', Trigger_Schedule), (''manual'', Trigger_Manual),
     (''shadow'', Trigger_Shadow)]"

fun trigger_string :: "triggered_by \<Rightarrow> string" where
  "trigger_string Trigger_Schedule = ''schedule''"
| "trigger_string Trigger_Manual = ''manual''"
| "trigger_string Trigger_Shadow = ''shadow''"

datatype item_kind = Link | Text | File | Article

fun item_kind_string :: "item_kind \<Rightarrow> string" where
  "item_kind_string Link = ''link''"
| "item_kind_string Text = ''text''"
| "item_kind_string File = ''file''"
| "item_kind_string Article = ''article''"

record link_item =
  link_tags :: "string list option"
  link_title :: "string option"
  link_url :: string

record text_item =
  text_content :: string
  text_tags :: "string list option"

record file_item =
  file_local_path :: "string option"
  file_object_key :: "string option"
  file_remote_name :: string

record article_item =
  article_requested_at :: string
  article_tags :: "string list option"
  article_title :: "string option"
  article_url :: string

datatype dispatch_item =
    Link_Item link_item
  | Text_Item text_item
  | File_Item file_item
  | Article_Item article_item

fun kind_of_item :: "dispatch_item \<Rightarrow> item_kind" where
  "kind_of_item (Link_Item _) = Link"
| "kind_of_item (Text_Item _) = Text"
| "kind_of_item (File_Item _) = File"
| "kind_of_item (Article_Item _) = Article"

record collect_payload =
  cp_shadow :: bool
  cp_source :: source_name
  cp_triggered_by :: triggered_by

datatype job_payload = Collect_Source collect_payload | Dispatch_Item dispatch_item

text \<open>The schema version is the literal 1, so it is not a field of the record.\<close>

record queue_job =
  qj_created_at :: string
  qj_dedupe_key :: string
  qj_job_id :: string
  qj_payload :: job_payload

fun job_kind_string :: "job_payload \<Rightarrow> string" where
  "job_kind_string (Collect_Source _) = ''collect-source''"
| "job_kind_string (Dispatch_Item _) = ''dispatch-item''"

section \<open>The schema\<close>

record formats =
  fmt_url :: "string \<Rightarrow> bool"
  fmt_datetime :: "string \<Rightarrow> bool"
  fmt_uuid :: "string \<Rightarrow> bool"

text \<open>\<open>z.object({...}).strict()\<close>: an object whose keys are all declared.\<close>

definition strict_object :: "string list \<Rightarrow> json \<Rightarrow> json_record option" where
  "strict_object allowed v =
     (case v of JObj es \<Rightarrow> if list_all (\<lambda>k. k \<in> set allowed) (json_keys es) then Some es else None
      | _ \<Rightarrow> None)"

text \<open>A required string with a check, an optional one, and the tags.\<close>

definition field_string :: "json_record \<Rightarrow> string \<Rightarrow> (string \<Rightarrow> bool) \<Rightarrow> string option" where
  "field_string es k ok =
     (case json_get es k of Some (JStr s) \<Rightarrow> if ok s then Some s else None | _ \<Rightarrow> None)"

definition field_optional_string ::
  "json_record \<Rightarrow> string \<Rightarrow> (string \<Rightarrow> bool) \<Rightarrow> string option option" where
  "field_optional_string es k ok =
     (case json_get es k of
        None \<Rightarrow> Some None
      | Some (JStr s) \<Rightarrow> if ok s then Some (Some s) else None
      | Some _ \<Rightarrow> None)"

fun tag_list :: "json list \<Rightarrow> string list option" where
  "tag_list [] = Some []"
| "tag_list (JStr s # vs) =
     (if s = [] then None else map_option (Cons s) (tag_list vs))"
| "tag_list (_ # vs) = None"

definition field_tags :: "json_record \<Rightarrow> string list option option" where
  "field_tags es =
     (case json_get es ''tags'' of
        None \<Rightarrow> Some None
      | Some (JArr vs) \<Rightarrow> map_option Some (tag_list vs)
      | Some _ \<Rightarrow> None)"

abbreviation non_empty :: "string \<Rightarrow> bool" where
  "non_empty s \<equiv> s \<noteq> []"

abbreviation any_string :: "string \<Rightarrow> bool" where
  "any_string s \<equiv> True"

definition parse_link :: "formats \<Rightarrow> json \<Rightarrow> link_item option" where
  "parse_link fmt v =
     do {
       es \<leftarrow> strict_object [''itemKind'', ''tags'', ''title'', ''url''] v;
       tags \<leftarrow> field_tags es;
       title \<leftarrow> field_optional_string es ''title'' any_string;
       url \<leftarrow> field_string es ''url'' (fmt_url fmt);
       Some \<lparr>link_tags = tags, link_title = title, link_url = url\<rparr>
     }"

definition parse_text :: "json \<Rightarrow> text_item option" where
  "parse_text v =
     do {
       es \<leftarrow> strict_object [''content'', ''itemKind'', ''tags''] v;
       content \<leftarrow> field_string es ''content'' non_empty;
       tags \<leftarrow> field_tags es;
       Some \<lparr>text_content = content, text_tags = tags\<rparr>
     }"

definition parse_file :: "json \<Rightarrow> file_item option" where
  "parse_file v =
     do {
       es \<leftarrow> strict_object [''itemKind'', ''localPath'', ''objectKey'', ''remoteName''] v;
       localPath \<leftarrow> field_optional_string es ''localPath'' non_empty;
       objectKey \<leftarrow> field_optional_string es ''objectKey'' non_empty;
       remoteName \<leftarrow> field_string es ''remoteName'' non_empty;
       if (localPath \<noteq> None) \<noteq> (objectKey \<noteq> None)
       then Some \<lparr>file_local_path = localPath, file_object_key = objectKey,
                   file_remote_name = remoteName\<rparr>
       else None
     }"

definition parse_article :: "formats \<Rightarrow> json \<Rightarrow> article_item option" where
  "parse_article fmt v =
     do {
       es \<leftarrow> strict_object [''itemKind'', ''requestedAt'', ''tags'', ''title'', ''url''] v;
       requestedAt \<leftarrow> field_string es ''requestedAt'' (fmt_datetime fmt);
       tags \<leftarrow> field_tags es;
       title \<leftarrow> field_optional_string es ''title'' any_string;
       url \<leftarrow> field_string es ''url'' (fmt_url fmt);
       Some \<lparr>article_requested_at = requestedAt, article_tags = tags,
             article_title = title, article_url = url\<rparr>
     }"

text \<open>\<open>dispatchItemSchema\<close>, discriminated by \<open>itemKind\<close>.\<close>

definition parse_dispatch_item :: "formats \<Rightarrow> json \<Rightarrow> dispatch_item option" where
  "parse_dispatch_item fmt v =
     do {
       kind \<leftarrow> field_string (record_of v) ''itemKind'' any_string;
       if kind = ''link'' then map_option Link_Item (parse_link fmt v)
       else if kind = ''text'' then map_option Text_Item (parse_text v)
       else if kind = ''file'' then map_option File_Item (parse_file v)
       else if kind = ''article'' then map_option Article_Item (parse_article fmt v)
       else None
     }"

definition parse_collect_payload :: "json \<Rightarrow> collect_payload option" where
  "parse_collect_payload v =
     do {
       es \<leftarrow> strict_object [''shadow'', ''source'', ''triggeredBy''] v;
       shadow \<leftarrow> (case json_get es ''shadow'' of Some (JBool b) \<Rightarrow> Some b | _ \<Rightarrow> None);
       source \<leftarrow> field_string es ''source'' any_string;
       source_name \<leftarrow> map_of source_names source;
       trigger \<leftarrow> field_string es ''triggeredBy'' any_string;
       triggered_by \<leftarrow> map_of trigger_names trigger;
       Some \<lparr>cp_shadow = shadow, cp_source = source_name, cp_triggered_by = triggered_by\<rparr>
     }"

text \<open>\<open>queueJobSchema.parse\<close>, discriminated by \<open>kind\<close>; \<open>None\<close> is the \<open>ZodError\<close>.\<close>

definition parse_queue_job :: "formats \<Rightarrow> json \<Rightarrow> queue_job option" where
  "parse_queue_job fmt v =
     do {
       es \<leftarrow> strict_object
         [''createdAt'', ''dedupeKey'', ''jobId'', ''schemaVersion'', ''kind'', ''payload''] v;
       createdAt \<leftarrow> field_string es ''createdAt'' (fmt_datetime fmt);
       dedupeKey \<leftarrow> field_string es ''dedupeKey'' non_empty;
       jobId \<leftarrow> field_string es ''jobId'' (fmt_uuid fmt);
       version \<leftarrow> json_get es ''schemaVersion'';
       kind \<leftarrow> field_string es ''kind'' any_string;
       payload \<leftarrow> json_get es ''payload'';
       if version \<noteq> JNum 1 then None
       else if kind = ''collect-source''
       then map_option (\<lambda>p. \<lparr>qj_created_at = createdAt, qj_dedupe_key = dedupeKey,
               qj_job_id = jobId, qj_payload = Collect_Source p\<rparr>) (parse_collect_payload payload)
       else if kind = ''dispatch-item''
       then map_option (\<lambda>p. \<lparr>qj_created_at = createdAt, qj_dedupe_key = dedupeKey,
               qj_job_id = jobId, qj_payload = Dispatch_Item p\<rparr>) (parse_dispatch_item fmt payload)
       else None
     }"

section \<open>The value of a job\<close>

text \<open>The object a job is on the wire, its fields in the order of the schema.\<close>

definition opt_entry :: "string \<Rightarrow> ('a \<Rightarrow> json) \<Rightarrow> 'a option \<Rightarrow> json_record" where
  "opt_entry k f v = (case v of None \<Rightarrow> [] | Some x \<Rightarrow> [(k, f x)])"

definition json_tags :: "string list \<Rightarrow> json" where
  "json_tags ts = JArr (map JStr ts)"

fun json_of_item :: "dispatch_item \<Rightarrow> json" where
  "json_of_item (Link_Item i) = JObj
     ((''itemKind'', JStr ''link'') # opt_entry ''tags'' json_tags (link_tags i)
      @ opt_entry ''title'' JStr (link_title i) @ [(''url'', JStr (link_url i))])"
| "json_of_item (Text_Item i) = JObj
     ((''content'', JStr (text_content i)) # (''itemKind'', JStr ''text'')
      # opt_entry ''tags'' json_tags (text_tags i))"
| "json_of_item (File_Item i) = JObj
     ((''itemKind'', JStr ''file'') # opt_entry ''localPath'' JStr (file_local_path i)
      @ opt_entry ''objectKey'' JStr (file_object_key i)
      @ [(''remoteName'', JStr (file_remote_name i))])"
| "json_of_item (Article_Item i) = JObj
     ((''itemKind'', JStr ''article'') # (''requestedAt'', JStr (article_requested_at i))
      # opt_entry ''tags'' json_tags (article_tags i)
      @ opt_entry ''title'' JStr (article_title i) @ [(''url'', JStr (article_url i))])"

definition json_of_collect :: "collect_payload \<Rightarrow> json" where
  "json_of_collect p = JObj [(''shadow'', JBool (cp_shadow p)),
     (''source'', JStr (source_string (cp_source p))),
     (''triggeredBy'', JStr (trigger_string (cp_triggered_by p)))]"

fun json_of_payload :: "job_payload \<Rightarrow> json" where
  "json_of_payload (Collect_Source p) = json_of_collect p"
| "json_of_payload (Dispatch_Item i) = json_of_item i"

definition json_of_job :: "queue_job \<Rightarrow> json" where
  "json_of_job j = JObj
     [(''createdAt'', JStr (qj_created_at j)), (''dedupeKey'', JStr (qj_dedupe_key j)),
      (''jobId'', JStr (qj_job_id j)), (''schemaVersion'', JNum 1),
      (''kind'', JStr (job_kind_string (qj_payload j))),
      (''payload'', json_of_payload (qj_payload j))]"

text \<open>What the schema promises of a parsed job.\<close>

definition tags_ok :: "string list option \<Rightarrow> bool" where
  "tags_ok ts = (case ts of None \<Rightarrow> True | Some xs \<Rightarrow> list_all non_empty xs)"

definition opt_ok :: "('a \<Rightarrow> bool) \<Rightarrow> 'a option \<Rightarrow> bool" where
  "opt_ok p v = (case v of None \<Rightarrow> True | Some x \<Rightarrow> p x)"

fun item_ok :: "formats \<Rightarrow> dispatch_item \<Rightarrow> bool" where
  "item_ok fmt (Link_Item i) = (fmt_url fmt (link_url i) \<and> tags_ok (link_tags i))"
| "item_ok fmt (Text_Item i) = (text_content i \<noteq> [] \<and> tags_ok (text_tags i))"
| "item_ok fmt (File_Item i) =
     (file_remote_name i \<noteq> [] \<and> opt_ok non_empty (file_local_path i)
      \<and> opt_ok non_empty (file_object_key i)
      \<and> (file_local_path i = None) \<noteq> (file_object_key i = None))"
| "item_ok fmt (Article_Item i) =
     (fmt_url fmt (article_url i) \<and> fmt_datetime fmt (article_requested_at i)
      \<and> tags_ok (article_tags i))"

fun payload_ok :: "formats \<Rightarrow> job_payload \<Rightarrow> bool" where
  "payload_ok fmt (Collect_Source p) = True"
| "payload_ok fmt (Dispatch_Item i) = item_ok fmt i"

definition job_ok :: "formats \<Rightarrow> queue_job \<Rightarrow> bool" where
  "job_ok fmt j =
     (fmt_datetime fmt (qj_created_at j) \<and> qj_dedupe_key j \<noteq> [] \<and> fmt_uuid fmt (qj_job_id j)
      \<and> payload_ok fmt (qj_payload j))"

section \<open>The deduplication key\<close>

fun item_identity :: "dispatch_item \<Rightarrow> string" where
  "item_identity (Link_Item i) = link_url i"
| "item_identity (Article_Item i) = article_url i"
| "item_identity (Text_Item i) = text_content i"
| "item_identity (File_Item i) = file_remote_name i"

definition create_item_dedupe_key :: "(string \<Rightarrow> string) \<Rightarrow> dispatch_item \<Rightarrow> string" where
  "create_item_dedupe_key sha256_hex item =
     ''dispatch:'' @ item_kind_string (kind_of_item item) @ '':''
       @ sha256_hex (item_identity item)"


section \<open>Lemmas\<close>

lemma tag_list_json: "list_all non_empty ts \<Longrightarrow> tag_list (map JStr ts) = Some ts"
  by (induction ts) auto

lemma tag_list_ok: "tag_list vs = Some ts \<Longrightarrow> list_all non_empty ts"
  by (induction vs arbitrary: ts rule: tag_list.induct) (auto split: if_splits)

lemma field_tags_ok: "field_tags es = Some ts \<Longrightarrow> tags_ok ts"
  by (auto simp: field_tags_def tags_ok_def tag_list_ok split: option.splits json.splits)

lemma field_string_ok: "field_string es k p = Some s \<Longrightarrow> p s"
  by (auto simp: field_string_def split: option.splits json.splits if_splits)

lemma field_optional_string_ok: "field_optional_string es k p = Some s \<Longrightarrow> opt_ok p s"
  by (auto simp: field_optional_string_def opt_ok_def split: option.splits json.splits if_splits)

lemma source_names_string [simp]: "map_of source_names (source_string n) = Some n"
  by (cases n) (simp_all add: source_names_def)

lemma trigger_names_string [simp]: "map_of trigger_names (trigger_string t) = Some t"
  by (cases t) (simp_all add: trigger_names_def)

lemmas field_simps_json = strict_object_def field_string_def field_optional_string_def
  field_tags_def json_get_def json_keys_def opt_entry_def json_tags_def tags_ok_def opt_ok_def

lemma parse_link_json:
  "item_ok fmt (Link_Item i) \<Longrightarrow> parse_link fmt (json_of_item (Link_Item i)) = Some i"
  by (cases i) (auto simp: parse_link_def field_simps_json tag_list_json split: option.splits)

lemma parse_text_json:
  "item_ok fmt (Text_Item i) \<Longrightarrow> parse_text (json_of_item (Text_Item i)) = Some i"
  by (cases i) (auto simp: parse_text_def field_simps_json tag_list_json split: option.splits)

lemma parse_file_json:
  "item_ok fmt (File_Item i) \<Longrightarrow> parse_file (json_of_item (File_Item i)) = Some i"
  by (cases i) (auto simp: parse_file_def field_simps_json split: option.splits)

lemma parse_article_json:
  "item_ok fmt (Article_Item i) \<Longrightarrow> parse_article fmt (json_of_item (Article_Item i)) = Some i"
  by (cases i) (auto simp: parse_article_def field_simps_json tag_list_json split: option.splits)

lemma item_kind_field:
  "field_string (record_of (json_of_item i)) ''itemKind'' any_string
     = Some (item_kind_string (kind_of_item i))"
  by (cases i) (auto simp: field_string_def json_get_def)

lemma parse_item_json: "item_ok fmt i \<Longrightarrow> parse_dispatch_item fmt (json_of_item i) = Some i"
  unfolding parse_dispatch_item_def item_kind_field
  by (cases i) (simp_all add: parse_link_json parse_text_json parse_file_json parse_article_json
                  del: json_of_item.simps item_ok.simps)

lemma parse_collect_json: "parse_collect_payload (json_of_collect p) = Some p"
  by (cases p) (simp add: parse_collect_payload_def json_of_collect_def field_simps_json)

lemma parse_link_ok: "parse_link fmt v = Some i \<Longrightarrow> item_ok fmt (Link_Item i)"
  by (auto simp: parse_link_def bind_eq_Some_conv dest: field_tags_ok field_string_ok)

lemma parse_text_ok: "parse_text v = Some i \<Longrightarrow> item_ok fmt (Text_Item i)"
  by (auto simp: parse_text_def bind_eq_Some_conv dest: field_tags_ok field_string_ok)

lemma parse_file_ok: "parse_file v = Some i \<Longrightarrow> item_ok fmt (File_Item i)"
  by (auto simp: parse_file_def bind_eq_Some_conv split: if_splits
        dest: field_optional_string_ok field_string_ok)

lemma parse_article_ok: "parse_article fmt v = Some i \<Longrightarrow> item_ok fmt (Article_Item i)"
  by (auto simp: parse_article_def bind_eq_Some_conv dest: field_tags_ok field_string_ok)

lemma parse_item_ok: "parse_dispatch_item fmt v = Some i \<Longrightarrow> item_ok fmt i"
  by (auto simp: parse_dispatch_item_def bind_eq_Some_conv
        intro: parse_link_ok parse_text_ok parse_file_ok parse_article_ok
        simp del: item_ok.simps split: if_splits)

lemma parse_json_of_job:
  assumes "job_ok fmt j"
  shows "parse_queue_job fmt (json_of_job j) = Some j"
proof (cases "qj_payload j")
  case (Collect_Source p)
  with assms show ?thesis
    by (cases j) (simp add: parse_queue_job_def json_of_job_def job_ok_def field_simps_json
                    parse_collect_json)
next
  case (Dispatch_Item i)
  with assms have "parse_dispatch_item fmt (json_of_item i) = Some i"
    by (simp add: job_ok_def parse_item_json)
  with assms Dispatch_Item show ?thesis
    by (cases j) (simp add: parse_queue_job_def json_of_job_def job_ok_def field_simps_json)
qed

lemma parsed_job_ok: "parse_queue_job fmt v = Some j \<Longrightarrow> job_ok fmt j"
  by (auto simp: parse_queue_job_def job_ok_def bind_eq_Some_conv split: if_splits
        dest: field_string_ok parse_item_ok)

section \<open>Properties\<close>

text \<open>C40: Every valid job survives the wire: parsing the object it is sent as gives it back.\<close>

theorem queue_job_round_trip:
  assumes "job_ok fmt j"
  shows "parse_queue_job fmt (json_of_job j) = Some j"
  by (rule parse_json_of_job [OF assms])

definition sample_formats :: formats where
  "sample_formats = \<lparr>fmt_url = (\<lambda>s. take 4 s = ''http''), fmt_datetime = non_empty,
     fmt_uuid = non_empty\<rparr>"

definition sample_job :: queue_job where
  "sample_job = \<lparr>qj_created_at = ''2026-01-01T00:00:00Z'', qj_dedupe_key = ''k'',
     qj_job_id = ''j'', qj_payload = Dispatch_Item (Link_Item
       \<lparr>link_tags = Some [''a''], link_title = None, link_url = ''https://x''\<rparr>)\<rparr>"

theorem queue_job_round_trip_witness:
  "parse_queue_job sample_formats (json_of_job sample_job) = Some sample_job"
  by (rule queue_job_round_trip) (simp add: job_ok_def sample_job_def sample_formats_def tags_ok_def)

text \<open>Whatever the parser accepts meets the schema: formats, non-empty fields, non-empty
  tags, and a file item with exactly one storage locator.\<close>

lemma parsed_job_is_valid:
  assumes "parse_queue_job fmt v = Some j"
  shows "job_ok fmt j"
  by (rule parsed_job_ok [OF assms])

text \<open>Items of different kinds never share a deduplication key, whatever the hash does,
  and the key of a link ignores its title and its tags.\<close>

lemma dedupe_key_separates_kinds:
  "(kind_of_item a \<noteq> kind_of_item b
      \<longrightarrow> create_item_dedupe_key sha a \<noteq> create_item_dedupe_key sha b)
   \<and> create_item_dedupe_key sha (Link_Item \<lparr>link_tags = t, link_title = n, link_url = u\<rparr>)
     = create_item_dedupe_key sha (Link_Item \<lparr>link_tags = t', link_title = n', link_url = u\<rparr>)"
  by (cases "kind_of_item a"; cases "kind_of_item b") (simp_all add: create_item_dedupe_key_def)

end
