(* ===== verification/Queue_Producer.thy ===== *)
theory Queue_Producer
  imports Queue_Job
begin

text \<open>
  The publisher of \<open>apps/api/src/queue-producer.ts\<close>: the whole input is parsed and
  measured before the first message is sent, and the messages go out in batches that
  respect the limits of the platform. The size of a message (the UTF-8 length of its JSON
  text) and the platform's answer to a batch are arguments.
\<close>

section \<open>Definitions\<close>

datatype producer_error = Invalid_Job | Message_Too_Large | Send_Failed

text \<open>The first pass: parse and measure, stopping at the first message that is refused.\<close>

fun measure_messages ::
  "formats \<Rightarrow> (queue_job \<Rightarrow> nat) \<Rightarrow> json list \<Rightarrow> producer_error + (queue_job \<times> nat) list" where
  "measure_messages fmt byteLength [] = Inr []"
| "measure_messages fmt byteLength (input # inputs) =
     (case parse_queue_job fmt input of
        None \<Rightarrow> Inl Invalid_Job
      | Some body \<Rightarrow>
          (let bytes = byteLength body + 100
           in if bytes > 128000 then Inl Message_Too_Large
              else (case measure_messages fmt byteLength inputs of
                      Inl e \<Rightarrow> Inl e
                    | Inr ms \<Rightarrow> Inr ((body, bytes) # ms))))"

text \<open>The second pass: the batches, given the open batch and its size.\<close>

fun cut_batches :: "('m \<times> nat) list \<Rightarrow> 'm list \<Rightarrow> nat \<Rightarrow> 'm list list" where
  "cut_batches [] batch batchBytes = (if batch \<noteq> [] then [batch] else [])"
| "cut_batches ((body, bytes) # ms) batch batchBytes =
     (if length batch = 100 \<or> batchBytes + bytes > 256000
      then batch # cut_batches ms [body] bytes
      else cut_batches ms (batch @ [body]) (batchBytes + bytes))"

text \<open>The batches are sent one after the other; a rejected one ends the call.\<close>

fun send_batches :: "('m list \<Rightarrow> bool) \<Rightarrow> 'm list list \<Rightarrow> 'm list list \<times> producer_error option" where
  "send_batches accepts [] = ([], None)"
| "send_batches accepts (b # bs) =
     (if accepts b
      then (case send_batches accepts bs of (sent, e) \<Rightarrow> (b # sent, e))
      else ([], Some Send_Failed))"

definition send_batch ::
  "formats \<Rightarrow> (queue_job \<Rightarrow> nat) \<Rightarrow> (queue_job list \<Rightarrow> bool) \<Rightarrow> json list
   \<Rightarrow> queue_job list list \<times> producer_error option" where
  "send_batch fmt byteLength accepts inputs =
     (case measure_messages fmt byteLength inputs of
        Inl e \<Rightarrow> ([], Some e)
      | Inr ms \<Rightarrow> send_batches accepts (cut_batches ms [] 0))"

section \<open>Lemmas\<close>

lemma measure_messages_jobs:
  "measure_messages fmt len inputs = Inr ms
     \<Longrightarrow> map (parse_queue_job fmt) inputs = map (Some \<circ> fst) ms
         \<and> (\<forall>(b, k)\<in>set ms. k = len b + 100 \<and> k \<le> 128000)"
  by (induction inputs arbitrary: ms) (auto simp: Let_def split: option.splits sum.splits if_splits)

lemma concat_cut_batches: "concat (cut_batches ms batch n) = batch @ map fst ms"
  by (induction ms batch n rule: cut_batches.induct) auto

lemma cut_batches_size:
  assumes "\<forall>(b, k)\<in>set ms. k = len b \<and> k \<le> 256000"
    and "length batch \<le> 100" and "n = sum_list (map len batch)" and "n \<le> 256000"
  shows "\<forall>b\<in>set (cut_batches ms batch n). length b \<le> 100 \<and> sum_list (map len b) \<le> 256000"
  using assms
proof (induction ms batch n rule: cut_batches.induct)
  case (2 body bytes ms batch n)
  show ?case
  proof (cases "length batch = 100 \<or> n + bytes > 256000")
    case True
    with 2 show ?thesis by auto
  next
    case False
    with 2 show ?thesis by (auto simp del: sum_list_append simp: sum_list_append)
  qed
qed auto

lemma cut_batches_nonempty:
  assumes "\<forall>(b, k)\<in>set ms. k \<le> 256000" and "batch = [] \<longrightarrow> n = 0"
  shows "[] \<notin> set (cut_batches ms batch n)"
  using assms by (induction ms batch n rule: cut_batches.induct) auto

lemma send_batches_all: "(\<forall>b\<in>set bs. accepts b) \<Longrightarrow> send_batches accepts bs = (bs, None)"
  by (induction bs) auto

lemma send_batches_prefix:
  "send_batches accepts bs = (sent, e) \<Longrightarrow> \<exists>rest. bs = sent @ rest \<and> (e = None \<longrightarrow> rest = [])"
  by (induction bs arbitrary: sent) (auto split: if_splits prod.splits)

section \<open>Properties\<close>

text \<open>Whatever the platform answers, every batch that went out holds between 1 and 100
  messages and at most 256,000 bytes, metadata included, and the batches together are a
  prefix of the parsed input in its order.\<close>

lemma sent_batches_respect_limits:
  assumes "send_batch fmt len accepts inputs = (sent, e)"
  shows "(\<forall>b\<in>set sent. b \<noteq> [] \<and> length b \<le> 100
            \<and> sum_list (map (\<lambda>j. len j + 100) b) \<le> 256000)
         \<and> (\<exists>rest. map (parse_queue_job fmt) inputs = map Some (concat sent) @ rest) "
proof (cases "measure_messages fmt len inputs")
  case (Inl err)
  with assms show ?thesis by (simp add: send_batch_def)
next
  case (Inr ms)
  note m = measure_messages_jobs [OF Inr]
  let ?bs = "cut_batches ms [] 0"
  from assms Inr obtain rest where bs: "?bs = sent @ rest"
    by (auto simp: send_batch_def dest: send_batches_prefix)
  have size: "\<forall>b\<in>set ?bs. length b \<le> 100 \<and> sum_list (map (\<lambda>j. len j + 100) b) \<le> 256000"
    using m by (intro cut_batches_size) fastforce+
  have ne: "[] \<notin> set ?bs"
    using m by (intro cut_batches_nonempty) fastforce+
  have "map fst ms = concat sent @ concat rest"
    using concat_cut_batches [of ms "[]" 0] by (simp add: bs)
  then have "map (parse_queue_job fmt) inputs = map Some (concat sent) @ map Some (concat rest)"
    using m by (metis map_append map_map)
  with size ne bs show ?thesis by auto
qed

text \<open>One invalid or oversized message anywhere in the input stops the whole call
  before anything is sent.\<close>

lemma invalid_input_sends_nothing:
  assumes "\<exists>v\<in>set inputs. parse_queue_job fmt v = None
             \<or> (\<exists>j. parse_queue_job fmt v = Some j \<and> len j + 100 > 128000)"
  shows "\<exists>e. send_batch fmt len accepts inputs = ([], Some e)"
proof (cases "measure_messages fmt len inputs")
  case (Inl err)
  then show ?thesis by (simp add: send_batch_def)
next
  case (Inr ms)
  note m = measure_messages_jobs [OF Inr]
  from assms obtain v where v: "v \<in> set inputs"
    and bad: "parse_queue_job fmt v = None
      \<or> (\<exists>j. parse_queue_job fmt v = Some j \<and> len j + 100 > 128000)" by blast
  from v m have "parse_queue_job fmt v \<in> set (map (Some \<circ> fst) ms)"
    by (metis image_eqI list.set_map)
  with m bad show ?thesis by fastforce
qed

end
