(* ===== verification/Operations.thy ===== *)
theory Operations
  imports Queue_Producer
begin

text \<open>
  The operations service of \<open>apps/api/src/operations.ts\<close>: the progress of a collection run
  (\<open>advanceSyncJob\<close>), the request of a run, and the overview the console shows. A run's
  \<open>stats\<close> is the JSON object stored with it; the other rows are records.
\<close>

section \<open>The progress of a run\<close>

datatype terminal_status = Sync_Done | Sync_Failed

datatype run_status = Run_Done | Run_Failed | Run_Running

record sync_update =
  su_error_message :: "string option"
  su_finished_at :: instant
  su_source :: string
  su_status :: terminal_status
  su_summary :: "json_record option"

record sync_advance =
  sa_error :: "string option"
  sa_finished_at :: "instant option"
  sa_stats :: json_record
  sa_status :: run_status

definition nonnegative_number :: "json option \<Rightarrow> rat" where
  "nonnegative_number v = (case v of Some (JNum x) \<Rightarrow> if x \<ge> 0 then x else 0 | _ \<Rightarrow> 0)"

definition has_status :: "json option \<Rightarrow> string \<Rightarrow> bool" where
  "has_status v s =
     (case v of Some (JObj es) \<Rightarrow> json_get es ''status'' = Some (JStr s) | _ \<Rightarrow> False)"

definition is_terminal_source_result :: "json option \<Rightarrow> bool" where
  "is_terminal_source_result v = (has_status v ''done'' \<or> has_status v ''failed'')"

definition summary_get :: "json_record option \<Rightarrow> string \<Rightarrow> json option" where
  "summary_get summary k = (case summary of None \<Rightarrow> None | Some es \<Rightarrow> json_get es k)"

definition source_result :: "sync_update \<Rightarrow> json" where
  "source_result u =
     (case su_status u of
        Sync_Done \<Rightarrow>
          (let collected = nonnegative_number (summary_get (su_summary u) ''collected'');
               published = nonnegative_number (summary_get (su_summary u) ''published'')
           in JObj [(''collected'', JNum collected),
                    (''enqueued'', JObj [(''total'', JNum published)]),
                    (''published'', JNum published), (''status'', JStr ''done'')])
      | Sync_Failed \<Rightarrow>
          JObj [(''enqueued'', JObj []),
                (''error'', JStr (nullish (su_error_message u) ''collection failed'')),
                (''status'', JStr ''failed'')])"

definition queued_sources :: "json_record \<Rightarrow> string list" where
  "queued_sources stats =
     (case json_get stats ''queued'' of Some (JObj q) \<Rightarrow> json_keys q | _ \<Rightarrow> [])"

definition failed_error :: "json option \<Rightarrow> string option" where
  "failed_error v =
     (case v of
        Some (JObj es) \<Rightarrow>
          (case json_get es ''error'' of Some (JStr e) \<Rightarrow> Some e | _ \<Rightarrow> None)
      | _ \<Rightarrow> None)"

definition advance_sync_job :: "json_record \<Rightarrow> sync_update \<Rightarrow> sync_advance" where
  "advance_sync_job currentStats update =
     (let queuedSources = queued_sources currentStats
      in if su_source update \<notin> set queuedSources
         then \<lparr>sa_error = None, sa_finished_at = None, sa_stats = currentStats,
               sa_status = Run_Running\<rparr>
         else
           (let stats = json_put (su_source update) (source_result update) currentStats;
                allFinished = list_all (\<lambda>s. is_terminal_source_result (json_get stats s)) queuedSources
            in if \<not> allFinished
               then \<lparr>sa_error = None, sa_finished_at = None, sa_stats = stats,
                     sa_status = Run_Running\<rparr>
               else
                 (let failed = find (\<lambda>e. has_status e ''failed'') (map (json_get stats) queuedSources);
                      err = (case failed of None \<Rightarrow> None | Some e \<Rightarrow> failed_error e)
                  in \<lparr>sa_error = err, sa_finished_at = Some (su_finished_at update),
                      sa_stats = stats,
                      sa_status = (if err = None then Run_Done else Run_Failed)\<rparr>)))"

section \<open>The request of a run\<close>

definition build_collection_jobs ::
  "formats \<Rightarrow> string \<Rightarrow> (nat \<Rightarrow> string) \<Rightarrow> string \<Rightarrow> bool \<Rightarrow> source_name list \<Rightarrow> triggered_by
   \<Rightarrow> queue_job option list" where
  "build_collection_jobs fmt createdAt randomUuid runId shadow sources triggeredBy =
     map (\<lambda>(i, source). parse_queue_job fmt (json_of_job
            \<lparr>qj_created_at = createdAt,
             qj_dedupe_key = ''collect:'' @ source_string source @ '':'' @ runId,
             qj_job_id = randomUuid i,
             qj_payload = Collect_Source
               \<lparr>cp_shadow = shadow, cp_source = source, cp_triggered_by = triggeredBy\<rparr>\<rparr>))
         (enumerate 0 sources)"

record sync_row =
  sy_error :: "string option"
  sy_finished_at :: "instant option"
  sy_id :: string
  sy_started_at :: instant
  sy_stats :: json_record
  sy_status :: string
  sy_triggered_by :: string

record channel_summary =
  cs_credential_name :: "string option"
  cs_enabled :: bool
  cs_item_kind :: "string option"
  cs_kind :: "string option"

record queue_stats =
  qs_dlq :: nat
  qs_done :: nat
  qs_pending :: nat

record article_event =
  ae_filename :: "string option"
  ae_id :: int
  ae_occurred_at :: instant
  ae_reason :: "string option"
  ae_source_url :: string
  ae_status :: string
  ae_title :: string
  ae_url_fingerprint :: string

record scheduler_view =
  sv_enabled :: bool
  sv_interval_seconds :: int
  sv_next_run_at :: "instant option"

record worker_view =
  wv_last_heartbeat_at :: "instant option"
  wv_online :: bool

record overview =
  ov_article_events :: "article_event list"
  ov_destinations :: "(string \<times> channel_summary) list"
  ov_sources :: "(string \<times> channel_summary) list"
  ov_generated_at :: instant
  ov_queues :: "item_kind \<Rightarrow> queue_stats"
  ov_scheduler :: scheduler_view
  ov_server_online :: bool
  ov_sync_jobs :: "sync_row list"
  ov_worker :: worker_view

record operations_db =
  op_snapshot :: "(overview \<times> instant) option"
  op_sync_jobs :: "sync_row list"
  op_heartbeats :: "instant list"

definition scheduler_interval_seconds :: int where
  "scheduler_interval_seconds = 3600"

section \<open>The overview\<close>

definition worker_online :: "worker_view \<Rightarrow> instant \<Rightarrow> bool" where
  "worker_online w now =
     (case wv_last_heartbeat_at w of
        None \<Rightarrow> False
      | Some t \<Rightarrow> wv_online w \<and> now - t \<ge> -30000 \<and> now - t \<le> 90000)"

definition next_run_at :: "instant \<Rightarrow> instant" where
  "next_run_at now =
     (let intervalMs = scheduler_interval_seconds * 1000 in (now div intervalMs + 1) * intervalMs)"

definition normalize_overview_status :: "overview \<Rightarrow> instant \<Rightarrow> bool \<Rightarrow> overview" where
  "normalize_overview_status overview now schedulerEnabled =
     overview
       \<lparr>ov_generated_at := now,
        ov_scheduler := (ov_scheduler overview)
          \<lparr>sv_enabled := schedulerEnabled,
           sv_interval_seconds := scheduler_interval_seconds,
           sv_next_run_at := (if schedulerEnabled then Some (next_run_at now) else None)\<rparr>,
        ov_worker := (ov_worker overview)
          \<lparr>wv_online := worker_online (ov_worker overview) now\<rparr>\<rparr>"

definition resolve_worker_heartbeat :: "worker_view \<Rightarrow> instant option \<Rightarrow> worker_view" where
  "resolve_worker_heartbeat snapshot lastHeartbeatAt =
     (case lastHeartbeatAt of
        None \<Rightarrow> snapshot
      | Some t \<Rightarrow> \<lparr>wv_last_heartbeat_at = Some t, wv_online = True\<rparr>)"

definition empty_overview :: "instant \<Rightarrow> bool \<Rightarrow> overview" where
  "empty_overview now schedulerEnabled =
     \<lparr>ov_article_events = [], ov_destinations = [], ov_sources = [], ov_generated_at = now,
      ov_queues = (\<lambda>_. \<lparr>qs_dlq = 0, qs_done = 0, qs_pending = 0\<rparr>),
      ov_scheduler = \<lparr>sv_enabled = schedulerEnabled,
        sv_interval_seconds = scheduler_interval_seconds, sv_next_run_at = None\<rparr>,
      ov_server_online = True, ov_sync_jobs = [],
      ov_worker = \<lparr>wv_last_heartbeat_at = None, wv_online = False\<rparr>\<rparr>"

definition list_sync_jobs :: "operations_db \<Rightarrow> nat \<Rightarrow> sync_row list" where
  "list_sync_jobs db limit = take limit (sort_key (\<lambda>r. - sy_started_at r) (op_sync_jobs db))"

fun find_index :: "('a \<Rightarrow> bool) \<Rightarrow> 'a list \<Rightarrow> nat" where
  "find_index p [] = 0"
| "find_index p (x # xs) = (if p x then 0 else Suc (find_index p xs))"

definition merge_sync_jobs :: "sync_row list \<Rightarrow> sync_row list" where
  "merge_sync_jobs jobs =
     map snd (filter (\<lambda>(i, job). find_index (\<lambda>j. sy_id j = sy_id job) jobs = i) (enumerate 0 jobs))"

definition latest_instant :: "instant list \<Rightarrow> instant option" where
  "latest_instant ts = (case sort_key uminus ts of [] \<Rightarrow> None | t # _ \<Rightarrow> Some t)"

definition get_overview :: "operations_db \<Rightarrow> instant \<Rightarrow> bool \<Rightarrow> overview" where
  "get_overview db now schedulerEnabled =
     (let snapshot = (case op_snapshot db of
              Some (payload, _) \<Rightarrow> payload | None \<Rightarrow> empty_overview now schedulerEnabled);
          currentJobs = list_sync_jobs db 10;
          mergedJobs = take 10 (merge_sync_jobs (currentJobs @ ov_sync_jobs snapshot));
          heartbeat = latest_instant (op_heartbeats db)
      in normalize_overview_status
           (snapshot\<lparr>ov_sync_jobs := mergedJobs,
                     ov_worker := resolve_worker_heartbeat (ov_worker snapshot) heartbeat\<rparr>)
           now schedulerEnabled)"

definition list_article_events :: "operations_db \<Rightarrow> instant \<Rightarrow> bool \<Rightarrow> nat \<Rightarrow> article_event list" where
  "list_article_events db now schedulerEnabled limit =
     take limit (ov_article_events (get_overview db now schedulerEnabled))"

definition replace_snapshot :: "overview \<Rightarrow> instant \<Rightarrow> operations_db \<Rightarrow> operations_db" where
  "replace_snapshot snapshot now db = db\<lparr>op_snapshot := Some (snapshot, now)\<rparr>"

definition resolve_collection_shadow_mode :: "string option \<Rightarrow> bool" where
  "resolve_collection_shadow_mode syncPublishEnabled = (syncPublishEnabled \<noteq> Some ''true'')"

section \<open>Requesting a synchronisation\<close>

record sync_env =
  se_formats :: formats
  se_iso :: "instant \<Rightarrow> string"
  se_uuid :: "nat \<Rightarrow> string"
  se_byte_length :: "queue_job \<Rightarrow> nat"
  se_accepts :: "queue_job list \<Rightarrow> bool"
  se_scheduler_enabled :: bool
  se_shadow_mode :: bool

datatype sync_error = Sync_Job_Invalid | Sync_Publish_Failed producer_error

definition all_sources :: "source_name list" where
  "all_sources = map snd source_names"

definition enabled_sources :: "overview \<Rightarrow> source_name list" where
  "enabled_sources overview =
     filter (\<lambda>s. case map_of (ov_sources overview) (source_string s) of
                   Some c \<Rightarrow> cs_enabled c | None \<Rightarrow> False) all_sources"

fun sequence_options :: "'a option list \<Rightarrow> 'a list option" where
  "sequence_options [] = Some []"
| "sequence_options (x # xs) =
     (case x of None \<Rightarrow> None | Some y \<Rightarrow> map_option (Cons y) (sequence_options xs))"

definition request_sync ::
  "sync_env \<Rightarrow> triggered_by \<Rightarrow> instant \<Rightarrow> (producer_error \<Rightarrow> string) \<Rightarrow> operations_db
   \<Rightarrow> operations_db \<times> queue_job list list \<times> (sync_error + source_name list)" where
  "request_sync env triggeredBy now message db =
     (let overview = get_overview db now (se_scheduler_enabled env);
          sources = enabled_sources overview;
          syncJobId = se_uuid env 0
      in case sequence_options (build_collection_jobs (se_formats env) (se_iso env now)
                (\<lambda>i. se_uuid env (i + 1)) syncJobId (se_shadow_mode env) sources triggeredBy) of
           None \<Rightarrow> (db, [], Inl Sync_Job_Invalid)
         | Some jobs \<Rightarrow>
             (let queued = [(''queued'', JObj (map (\<lambda>s. (source_string s, JNum 1)) sources))];
                  row = \<lparr>sy_error = None,
                         sy_finished_at = (if jobs = [] then Some now else None),
                         sy_id = syncJobId, sy_started_at = now, sy_stats = queued,
                         sy_status = (if jobs = [] then ''done'' else ''running''),
                         sy_triggered_by = (if triggeredBy = Trigger_Schedule
                                            then ''scheduler'' else ''manual'')\<rparr>;
                  db' = db\<lparr>op_sync_jobs := op_sync_jobs db @ [row]\<rparr>
              in case send_batch (se_formats env) (se_byte_length env) (se_accepts env)
                        (map json_of_job jobs) of
                   (sent, None) \<Rightarrow> (db', sent, Inr sources)
                 | (sent, Some e) \<Rightarrow>
                     (db'\<lparr>op_sync_jobs := tab_update (\<lambda>r. sy_id r = syncJobId)
                            (\<lambda>r. r\<lparr>sy_error := Some (message e), sy_finished_at := Some now,
                                   sy_status := ''failed''\<rparr>) (op_sync_jobs db')\<rparr>,
                      sent, Inl (Sync_Publish_Failed e))))"

section \<open>Lemmas\<close>

definition initial_stats :: "string list \<Rightarrow> json_record" where
  "initial_stats sources = [(''queued'', JObj (map (\<lambda>s. (s, JNum 1)) sources))]"

definition run_stats :: "json_record \<Rightarrow> sync_update list \<Rightarrow> json_record" where
  "run_stats stats us = foldl (\<lambda>s u. sa_stats (advance_sync_job s u)) stats us"

text \<open>The last report of a source.\<close>

definition last_report :: "string \<Rightarrow> sync_update list \<Rightarrow> sync_update option" where
  "last_report s us = tab_first (\<lambda>u. su_source u = s) (rev us)"

lemma last_report_simps [simp]:
  "last_report s [] = None"
  "last_report s (us @ [u]) = (if su_source u = s then Some u else last_report s us)"
  by (simp_all add: last_report_def)

lemma last_report_None: "last_report s us = None \<longleftrightarrow> s \<notin> su_source ` set us"
  by (auto simp: last_report_def tab_first_None)

lemma run_stats_simps [simp]:
  "run_stats stats [] = stats"
  "run_stats stats (us @ [u]) = sa_stats (advance_sync_job (run_stats stats us) u)"
  by (simp_all add: run_stats_def)

lemma queued_sources_initial [simp]: "queued_sources (initial_stats q) = q"
  by (simp add: queued_sources_def initial_stats_def json_get_def json_keys_def comp_def)

lemma queued_sources_put [simp]:
  "k \<noteq> ''queued'' \<Longrightarrow> queued_sources (json_put k v stats) = queued_sources stats"
  by (simp add: queued_sources_def)

lemma advance_stats:
  "sa_stats (advance_sync_job stats u) =
     (if su_source u \<in> set (queued_sources stats)
      then json_put (su_source u) (source_result u) stats else stats)"
  by (simp add: advance_sync_job_def Let_def)

lemma source_result_status [simp]:
  "has_status (Some (source_result u)) ''done'' = (su_status u = Sync_Done)"
  "has_status (Some (source_result u)) ''failed'' = (su_status u = Sync_Failed)"
  by (cases "su_status u"; simp add: source_result_def Let_def has_status_def json_get_def)+

lemma source_result_terminal [simp]: "is_terminal_source_result (Some (source_result u))"
  by (cases "su_status u") (simp_all add: is_terminal_source_result_def)

lemma no_result [simp]: "\<not> is_terminal_source_result None" "\<not> has_status None s"
  by (simp_all add: is_terminal_source_result_def has_status_def)

lemma failed_error_result:
  "su_status u = Sync_Failed \<Longrightarrow> failed_error (Some (source_result u)) \<noteq> None"
  by (simp add: failed_error_def source_result_def json_get_def)

lemma run_stats_initial:
  assumes "''queued'' \<notin> set q"
  shows "queued_sources (run_stats (initial_stats q) us) = q"
    and "s \<in> set q \<Longrightarrow> json_get (run_stats (initial_stats q) us) s
           = map_option source_result (last_report s us)"
proof -
  have "queued_sources (run_stats (initial_stats q) us) = q \<and> (\<forall>s\<in>set q.
      json_get (run_stats (initial_stats q) us) s = map_option source_result (last_report s us))"
  proof (induction us rule: rev_induct)
    case Nil
    have "json_get (initial_stats q) s = None" if "s \<in> set q" for s
      using assms that by (auto simp: initial_stats_def json_get_def)
    then show ?case by simp
  next
    case (snoc u us)
    show ?case
    proof (cases "su_source u \<in> set q")
      case True
      then have "su_source u \<noteq> ''queued''" using assms by metis
      with True snoc show ?thesis by (simp add: advance_stats)
    next
      case False
      with snoc show ?thesis by (auto simp: advance_stats)
    qed
  qed
  then show "queued_sources (run_stats (initial_stats q) us) = q"
    and "s \<in> set q \<Longrightarrow> json_get (run_stats (initial_stats q) us) s
           = map_option source_result (last_report s us)" by auto
qed

lemma advance_status:
  assumes "''queued'' \<notin> set q" and "su_source u \<in> set q"
  shows "sa_status (advance_sync_job (run_stats (initial_stats q) us) u) =
     (if \<not> set q \<subseteq> su_source ` set (us @ [u]) then Run_Running
      else if \<exists>s\<in>set q. \<exists>v. last_report s (us @ [u]) = Some v \<and> su_status v = Sync_Failed
      then Run_Failed else Run_Done)"
proof -
  let ?stats = "run_stats (initial_stats q) us"
  let ?new = "run_stats (initial_stats q) (us @ [u])"
  note new = run_stats_initial [OF assms(1), where us = "us @ [u]"]
  have eq: "json_put (su_source u) (source_result u) ?stats = ?new"
    using assms by (simp add: advance_stats run_stats_initial)
  have fin: "list_all (\<lambda>s. is_terminal_source_result (json_get ?new s)) q
      = (set q \<subseteq> su_source ` set (us @ [u]))"
  proof -
    have "is_terminal_source_result (json_get ?new s) = (s \<in> su_source ` set (us @ [u]))"
      if "s \<in> set q" for s
      using new(2) [OF that] last_report_None [of s "us @ [u]"]
      by (cases "last_report s (us @ [u])") (auto simp del: run_stats_simps last_report_simps)
    then show ?thesis by (auto simp: list_all_iff simp del: run_stats_simps)
  qed
  define es where "es = map (json_get ?new) q"
  have fl: "(\<exists>e\<in>set es. has_status e ''failed'')
      = (\<exists>s\<in>set q. \<exists>v. last_report s (us @ [u]) = Some v \<and> su_status v = Sync_Failed)"
  proof -
    have "has_status (map_option source_result r) ''failed''
        = (\<exists>v. r = Some v \<and> su_status v = Sync_Failed)" for r
      by (cases r) simp_all
    then have "has_status (json_get ?new s) ''failed''
        = (\<exists>v. last_report s (us @ [u]) = Some v \<and> su_status v = Sync_Failed)" if "s \<in> set q" for s
      using new(2) [OF that] by metis
    then show ?thesis by (simp add: es_def del: run_stats_simps last_report_simps)
  qed
  have err: "failed_error e \<noteq> None" if "find (\<lambda>e. has_status e ''failed'') es = Some e" for e
  proof -
    from that have "e \<in> set es \<and> has_status e ''failed''"
      by (metis find_Some_iff nth_mem)
    then obtain s where s: "s \<in> set q" "e = json_get ?new s" "has_status e ''failed''"
      unfolding es_def set_map by blast
    have e: "e = map_option source_result (last_report s (us @ [u]))"
      using s(2) new(2) [OF s(1)] by metis
    show ?thesis
    proof (cases "last_report s (us @ [u])")
      case None
      then have "e = None" unfolding e by (simp only: option.map)
      then show ?thesis using s(3) by (metis no_result(2))
    next
      case (Some v)
      then have "e = Some (source_result v)" unfolding e by (simp only: option.map)
      with s(3) show ?thesis using failed_error_result by simp
    qed
  qed
  have fnd: "find (\<lambda>e. has_status e ''failed'') es = None \<longleftrightarrow> \<not> (\<exists>e\<in>set es. has_status e ''failed'')"
    by (auto simp: find_None_iff)
  show ?thesis
    unfolding advance_sync_job_def Let_def run_stats_initial(1) [OF assms(1)] eq fin
    using assms(2) fl fnd err
    by (auto simp: es_def [symmetric] simp del: run_stats_simps last_report_simps split: option.splits)
qed

lemma find_index_first:
  "i < length xs \<Longrightarrow> p (xs ! i) \<Longrightarrow> find_index p xs \<le> i"
  by (induction xs arbitrary: i) (auto simp: nth_Cons split: nat.splits)

lemma merge_sync_jobs_entry:
  "e \<in> set (filter (\<lambda>(i, job). find_index (\<lambda>j. sy_id j = sy_id job) jobs = i) (enumerate 0 jobs))
   \<Longrightarrow> fst e = find_index (\<lambda>j. sy_id j = sy_id (snd e)) jobs \<and> fst e < length jobs
       \<and> snd e = jobs ! fst e"
  by (cases e) (clarsimp simp: in_set_enumerate_eq)

lemma merge_sync_jobs_distinct: "distinct (map sy_id (merge_sync_jobs jobs))"
proof -
  define xs where "xs = filter (\<lambda>(i, job). find_index (\<lambda>j. sy_id j = sy_id job) jobs = i)
    (enumerate 0 jobs)"
  note entry = merge_sync_jobs_entry [of _ jobs, folded xs_def]
  have "distinct xs" by (simp add: xs_def)
  moreover have "inj_on (sy_id \<circ> snd) (set xs)"
  proof (rule inj_onI)
    fix x y
    assume x: "x \<in> set xs" and y: "y \<in> set xs" and eq: "(sy_id \<circ> snd) x = (sy_id \<circ> snd) y"
    have "fst x = fst y" using entry [OF x] entry [OF y] eq by (metis comp_apply)
    then show "x = y" using entry [OF x] entry [OF y] by (metis prod_eqI)
  qed
  ultimately show ?thesis
    unfolding merge_sync_jobs_def xs_def [symmetric] map_map by (simp add: distinct_map)
qed

lemma merge_sync_jobs_subset: "set (merge_sync_jobs jobs) \<subseteq> set jobs"
proof
  fix j assume "j \<in> set (merge_sync_jobs jobs)"
  then obtain e where "e \<in> set (filter (\<lambda>(i, job). find_index (\<lambda>j. sy_id j = sy_id job) jobs = i)
      (enumerate 0 jobs))" and "j = snd e"
    unfolding merge_sync_jobs_def set_map by blast
  with merge_sync_jobs_entry [OF this(1)] show "j \<in> set jobs" by (metis nth_mem)
qed

lemma next_run_at_bounds: "now < next_run_at now \<and> next_run_at now \<le> now + 3600000"
proof -
  define q where "q = now div 3600000"
  have "3600000 * q + now mod 3600000 = now" by (simp add: q_def)
  moreover have "0 \<le> now mod 3600000 \<and> now mod 3600000 < 3600000" by simp
  moreover have "next_run_at now = 3600000 * q + 3600000"
    by (simp add: next_run_at_def scheduler_interval_seconds_def q_def)
  ultimately show ?thesis by linarith
qed

lemma sequence_options_Some:
  "sequence_options xs = Some ys \<longleftrightarrow> xs = map Some ys"
  by (induction xs arbitrary: ys) (auto split: option.splits)

lemma length_build:
  "length (build_collection_jobs fmt t uuid i shadow srcs trig) = length srcs"
  by (simp add: build_collection_jobs_def)

lemma request_sync_sent:
  assumes "sequence_options (build_collection_jobs (se_formats env) (se_iso env now)
      (\<lambda>i. se_uuid env (i + 1)) (se_uuid env 0) (se_shadow_mode env)
      (enabled_sources (get_overview db now (se_scheduler_enabled env))) trig) = Some jobs"
    and "send_batch (se_formats env) (se_byte_length env) (se_accepts env) (map json_of_job jobs)
      = (sent, e)"
  obtains row where "sy_id row = se_uuid env 0"
    and "sy_stats row = initial_stats (map source_string
           (enabled_sources (get_overview db now (se_scheduler_enabled env))))"
    and "sy_status row = (if jobs = [] then ''done'' else ''running'')"
    and "e = None \<Longrightarrow> request_sync env trig now message db
           = (db\<lparr>op_sync_jobs := op_sync_jobs db @ [row]\<rparr>, sent,
              Inr (enabled_sources (get_overview db now (se_scheduler_enabled env))))"
    and "\<And>err. e = Some err \<Longrightarrow> request_sync env trig now message db
           = (db\<lparr>op_sync_jobs := tab_update (\<lambda>r. sy_id r = se_uuid env 0)
                (\<lambda>r. r\<lparr>sy_error := Some (message err), sy_finished_at := Some now,
                       sy_status := ''failed''\<rparr>) (op_sync_jobs db @ [row])\<rparr>,
              sent, Inl (Sync_Publish_Failed err))"
proof -
  let ?row = "\<lparr>sy_error = None,
      sy_finished_at = (if jobs = [] then Some now else None),
      sy_id = se_uuid env 0, sy_started_at = now,
      sy_stats = initial_stats (map source_string
        (enabled_sources (get_overview db now (se_scheduler_enabled env)))),
      sy_status = (if jobs = [] then ''done'' else ''running''),
      sy_triggered_by = (if trig = Trigger_Schedule then ''scheduler'' else ''manual'')\<rparr>"
  show ?thesis
  proof (rule that [of ?row])
    show "sy_id ?row = se_uuid env 0" by simp
    show "sy_stats ?row = initial_stats (map source_string
        (enabled_sources (get_overview db now (se_scheduler_enabled env))))" by simp
    show "sy_status ?row = (if jobs = [] then ''done'' else ''running'')" by simp
    show "request_sync env trig now message db
        = (db\<lparr>op_sync_jobs := op_sync_jobs db @ [?row]\<rparr>, sent,
           Inr (enabled_sources (get_overview db now (se_scheduler_enabled env))))" if "e = None"
      using assms that
      by (simp only: request_sync_def Let_def option.case prod.case initial_stats_def map_map
          comp_def)
    show "request_sync env trig now message db
        = (db\<lparr>op_sync_jobs := tab_update (\<lambda>r. sy_id r = se_uuid env 0)
             (\<lambda>r. r\<lparr>sy_error := Some (message err), sy_finished_at := Some now,
                    sy_status := ''failed''\<rparr>) (op_sync_jobs db @ [?row])\<rparr>,
           sent, Inl (Sync_Publish_Failed err))" if "e = Some err" for err
      using assms that
      by (simp only: request_sync_def Let_def option.case prod.case initial_stats_def map_map
          comp_def, simp add: comp_def)
  qed
qed

lemma request_sync_invalid:
  "sequence_options (build_collection_jobs (se_formats env) (se_iso env now)
      (\<lambda>i. se_uuid env (i + 1)) (se_uuid env 0) (se_shadow_mode env)
      (enabled_sources (get_overview db now (se_scheduler_enabled env))) trig) = None
   \<Longrightarrow> request_sync env trig now message db = (db, [], Inl Sync_Job_Invalid)"
  by (simp add: request_sync_def Let_def)

section \<open>Properties\<close>

text \<open>A run is over exactly when every queued source has reported, in whatever order and
  however often; it has failed exactly when the last report of some queued source is a
  failure. Reports of sources that were not queued leave it running.\<close>

lemma sync_run_completes:
  assumes "''queued'' \<notin> set q"
  shows "sa_status (advance_sync_job (run_stats (initial_stats q) us) u) =
     (if su_source u \<notin> set q \<or> \<not> set q \<subseteq> su_source ` set (us @ [u]) then Run_Running
      else if \<exists>s\<in>set q. \<exists>v. last_report s (us @ [u]) = Some v \<and> su_status v = Sync_Failed
      then Run_Failed else Run_Done)"
proof (cases "su_source u \<in> set q")
  case True
  with advance_status [OF assms True] show ?thesis by simp
next
  case False
  then show ?thesis by (simp add: advance_sync_job_def Let_def run_stats_initial(1) [OF assms])
qed

text \<open>The overview lists at most ten runs, none of them twice, and every one of them is
  stored or in the snapshot; the next scheduled run lies in the hour to come, on the hour.\<close>

lemma overview_is_consistent:
  "length (ov_sync_jobs (get_overview db now sched)) \<le> 10
   \<and> distinct (map sy_id (ov_sync_jobs (get_overview db now sched)))
   \<and> set (ov_sync_jobs (get_overview db now sched)) \<subseteq> set (op_sync_jobs db)
        \<union> (case op_snapshot db of None \<Rightarrow> {} | Some (snap, _) \<Rightarrow> set (ov_sync_jobs snap))
   \<and> (case sv_next_run_at (ov_scheduler (get_overview db now sched)) of
        None \<Rightarrow> \<not> sched
      | Some t \<Rightarrow> sched \<and> now < t \<and> t \<le> now + 3600000 \<and> t mod 3600000 = 0)"
proof -
  define old where
    "old = (case op_snapshot db of None \<Rightarrow> [] | Some (snap, _) \<Rightarrow> ov_sync_jobs snap)"
  define jobs where "jobs = merge_sync_jobs (list_sync_jobs db 10 @ old)"
  have eq: "ov_sync_jobs (get_overview db now sched) = take 10 jobs"
    by (simp add: get_overview_def normalize_overview_status_def Let_def jobs_def old_def
        empty_overview_def split: option.split prod.split)
  have sched: "sv_next_run_at (ov_scheduler (get_overview db now sched))
      = (if sched then Some (next_run_at now) else None)"
    by (simp add: get_overview_def normalize_overview_status_def Let_def)
  have "distinct (map sy_id (take 10 jobs))"
    using merge_sync_jobs_distinct by (metis distinct_take take_map jobs_def)
  moreover have "set (take 10 jobs) \<subseteq> set (op_sync_jobs db) \<union> set old"
  proof -
    have "set (list_sync_jobs db 10) \<subseteq> set (op_sync_jobs db)"
      unfolding list_sync_jobs_def by (metis set_sort set_take_subset)
    then show ?thesis
      using merge_sync_jobs_subset [of "list_sync_jobs db 10 @ old"] set_take_subset [of 10 jobs]
      unfolding jobs_def by fastforce
  qed
  moreover have "set old
      = (case op_snapshot db of None \<Rightarrow> {} | Some (snap, _) \<Rightarrow> set (ov_sync_jobs snap))"
    by (simp add: old_def split: option.split prod.split)
  moreover have "next_run_at now mod 3600000 = 0"
    by (simp add: next_run_at_def scheduler_interval_seconds_def Let_def)
  ultimately show ?thesis
    using next_run_at_bounds [of now] unfolding eq sched by simp
qed

text \<open>The worker is shown online exactly when its latest heartbeat is at most 90 seconds
  old and at most 30 seconds ahead of the clock.\<close>

lemma worker_online_iff_fresh_heartbeat:
  "wv_online (ov_worker (normalize_overview_status
      (ov\<lparr>ov_worker := resolve_worker_heartbeat w (Some t)\<rparr>) now sched))
   = (t - 30000 \<le> now \<and> now \<le> t + 90000)"
  by (auto simp: normalize_overview_status_def resolve_worker_heartbeat_def worker_online_def)

text \<open>A requested run is never lost sight of: an invalid job stops the request before
  anything is stored or sent; otherwise one row is added under the run's id, which ends
  as failed when the publication failed and is left running (or done, with no source
  enabled) when it succeeded.\<close>

lemma request_sync_outcome:
  "case request_sync env trig now message db of
     (db', sent, Inl Sync_Job_Invalid) \<Rightarrow> db' = db \<and> sent = []
   | (db', sent, Inl (Sync_Publish_Failed e)) \<Rightarrow>
       map sy_id (op_sync_jobs db') = map sy_id (op_sync_jobs db) @ [se_uuid env 0]
       \<and> sy_status (last (op_sync_jobs db')) = ''failed''
   | (db', sent, Inr sources) \<Rightarrow>
       \<exists>row. op_sync_jobs db' = op_sync_jobs db @ [row] \<and> sy_id row = se_uuid env 0
         \<and> sy_stats row = initial_stats (map source_string sources)
         \<and> (sy_status row = ''done'' \<longleftrightarrow> sources = [])
         \<and> (sy_status row = ''running'' \<longleftrightarrow> sources \<noteq> [])"
proof -
  define srcs where "srcs = enabled_sources (get_overview db now (se_scheduler_enabled env))"
  define jobs where "jobs = build_collection_jobs (se_formats env) (se_iso env now)
    (\<lambda>i. se_uuid env (i + 1)) (se_uuid env 0) (se_shadow_mode env) srcs trig"
  show ?thesis
  proof (cases "sequence_options jobs")
    case None
    then show ?thesis by (simp add: request_sync_invalid jobs_def srcs_def)
  next
    case (Some js)
    then have "jobs = map Some js" by (simp only: sequence_options_Some)
    then have "length js = length srcs" using length_build [of _ _ _ _ _ srcs] jobs_def
      by (metis length_map)
    then have empty: "(js = []) = (srcs = [])" by auto
    obtain sent e where sb: "send_batch (se_formats env) (se_byte_length env) (se_accepts env)
        (map json_of_job js) = (sent, e)" by force
    note Some [unfolded jobs_def srcs_def]
    from request_sync_sent [OF this sb, where message = message, folded srcs_def]
    obtain row where row: "sy_id row = se_uuid env 0"
        "sy_stats row = initial_stats (map source_string srcs)"
        "sy_status row = (if js = [] then ''done'' else ''running'')"
      and ok: "e = None \<Longrightarrow> request_sync env trig now message db
        = (db\<lparr>op_sync_jobs := op_sync_jobs db @ [row]\<rparr>, sent, Inr srcs)"
      and bad: "\<And>err. e = Some err \<Longrightarrow> request_sync env trig now message db
        = (db\<lparr>op_sync_jobs := tab_update (\<lambda>r. sy_id r = se_uuid env 0)
                (\<lambda>r. r\<lparr>sy_error := Some (message err), sy_finished_at := Some now,
                       sy_status := ''failed''\<rparr>) (op_sync_jobs db @ [row])\<rparr>,
           sent, Inl (Sync_Publish_Failed err))"
      by blast
    show ?thesis
    proof (cases e)
      case None
      have "(sy_status row = ''done'') = (srcs = []) \<and> (sy_status row = ''running'') = (srcs \<noteq> [])"
        unfolding row(3) empty by simp
      then show ?thesis using row(1,2) by (simp add: ok [OF None])
    next
      case (Some err)
      define f :: "sync_row \<Rightarrow> sync_row" where "f = (\<lambda>r. r\<lparr>sy_error := Some (message err), sy_finished_at := Some now,
        sy_status := ''failed''\<rparr>)"
      have "op_sync_jobs (fst (request_sync env trig now message db))
          = tab_update (\<lambda>r. sy_id r = se_uuid env 0) f (op_sync_jobs db @ [row])"
        unfolding bad [OF Some] f_def by simp
      moreover have "map sy_id (tab_update p f (xs @ [row])) = map sy_id xs @ [se_uuid env 0]"
        for p xs by (simp add: tab_update_def f_def row(1))
      moreover have "sy_status (last (tab_update (\<lambda>r. sy_id r = se_uuid env 0) f (xs @ [row])))
          = ''failed''" for xs
        by (simp add: tab_update_def f_def row(1))
      ultimately show ?thesis unfolding bad [OF Some] by simp
    qed
  qed
qed

end
