(* ===== verification/Credential_Crypto.thy ===== *)
theory Credential_Crypto
  imports Json "HOL-Library.Word"
begin

text \<open>
  The envelope of \<open>apps/api/src/credential-crypto.ts\<close>: one version byte, the
  initialisation vector and the AES-GCM ciphertext of the JSON text. Base64 decoding, the
  cipher, the random source and the JSON text (\<open>JSON.stringify\<close> with \<open>TextEncoder\<close>, and
  back) belong to the platform: they are the fields of the record \<open>vault\<close> below.
\<close>

section \<open>Definitions\<close>

type_synonym bytes = "8 word list"

record vault =
  va_atob :: "string \<Rightarrow> bytes option"
  va_random_iv :: bytes
  va_seal :: "bytes \<Rightarrow> bytes \<Rightarrow> bytes \<Rightarrow> bytes"
  va_open :: "bytes \<Rightarrow> bytes \<Rightarrow> bytes \<Rightarrow> bytes option"
  va_print :: "json \<Rightarrow> bytes"
  va_parse :: "bytes \<Rightarrow> json option"

datatype crypto_error = Key_Invalid | Envelope_Invalid | Decryption_Failed

definition envelope_version :: "8 word" where "envelope_version = 1"

definition iv_length :: nat where "iv_length = 12"

definition key_length :: nat where "key_length = 32"

definition is_js_space :: "char \<Rightarrow> bool" where
  "is_js_space c = (c \<in> {CHR 0x09, CHR 0x0A, CHR 0x0B, CHR 0x0C, CHR 0x0D, CHR 0x20, CHR 0xA0})"

definition js_trim :: "string \<Rightarrow> string" where
  "js_trim s = rev (dropWhile is_js_space (rev (dropWhile is_js_space s)))"

definition import_key :: "vault \<Rightarrow> string \<Rightarrow> crypto_error + bytes" where
  "import_key va encodedKey =
     (case va_atob va (js_trim encodedKey) of
        None \<Rightarrow> Inl Key_Invalid
      | Some raw \<Rightarrow> if length raw \<noteq> key_length then Inl Key_Invalid else Inr raw)"

definition encrypt_json :: "vault \<Rightarrow> json \<Rightarrow> string \<Rightarrow> crypto_error + bytes" where
  "encrypt_json va value encodedKey =
     (case import_key va encodedKey of
        Inl e \<Rightarrow> Inl e
      | Inr key \<Rightarrow>
          (let iv = va_random_iv va; ciphertext = va_seal va key iv (va_print va value)
           in Inr (envelope_version # iv @ ciphertext)))"

definition decrypt_json :: "vault \<Rightarrow> bytes \<Rightarrow> string \<Rightarrow> crypto_error + json" where
  "decrypt_json va envelope encodedKey =
     (if length envelope \<le> 1 + iv_length \<or> hd envelope \<noteq> envelope_version
      then Inl Envelope_Invalid
      else case import_key va encodedKey of
          Inl e \<Rightarrow> Inl e
        | Inr key \<Rightarrow>
            (case va_open va key (take iv_length (drop 1 envelope)) (drop (1 + iv_length) envelope) of
               None \<Rightarrow> Inl Decryption_Failed
             | Some plaintext \<Rightarrow>
                 (case va_parse va plaintext of
                    None \<Rightarrow> Inl Decryption_Failed | Some v \<Rightarrow> Inr v)))"

section \<open>Lemmas\<close>

text \<open>
  What the platform promises for a value: the cipher opens what it sealed and adds its tag,
  and the JSON text reads back as the value it was printed from.
\<close>

definition vault_ok :: "vault \<Rightarrow> json \<Rightarrow> bool" where
  "vault_ok va v =
     (length (va_random_iv va) = iv_length
      \<and> (\<forall>k. va_open va k (va_random_iv va)
               (va_seal va k (va_random_iv va) (va_print va v)) = Some (va_print va v)
             \<and> va_seal va k (va_random_iv va) (va_print va v) \<noteq> [])
      \<and> va_parse va (va_print va v) = Some v)"

lemma decrypt_encrypt:
  assumes "vault_ok va v" and "encrypt_json va v key = Inr envelope"
  shows "decrypt_json va envelope key = Inr v"
  using assms
  by (auto simp: encrypt_json_def decrypt_json_def vault_ok_def Let_def split: sum.splits)

lemma encrypt_json_error:
  "encrypt_json va v key = Inl e \<Longrightarrow> e = Key_Invalid"
  by (auto simp: encrypt_json_def import_key_def Let_def split: option.splits sum.splits if_splits)

section \<open>Properties\<close>

text \<open>What is stored encrypted reads back as the value that was stored, under the same key
  written with any blanks around it, and the envelope is refused once its version byte
  has changed.\<close>

lemma credential_round_trip:
  assumes "vault_ok va v" and "encrypt_json va v key = Inr envelope"
    and "js_trim key' = js_trim key"
  shows "decrypt_json va envelope key' = Inr v
    \<and> (b \<noteq> envelope_version \<longrightarrow> decrypt_json va (b # tl envelope) key' = Inl Envelope_Invalid)"
proof -
  have "decrypt_json va envelope key' = decrypt_json va envelope key"
    using assms(3) by (simp add: decrypt_json_def import_key_def)
  then show ?thesis
    using decrypt_encrypt [OF assms(1,2)] by (simp add: decrypt_json_def)
qed

text \<open>A platform for one value: a cipher that adds a byte, a text of one byte.\<close>

definition sample_vault :: "json \<Rightarrow> vault" where
  "sample_vault v =
     \<lparr>va_atob = (\<lambda>s. if s = ''key'' then Some (replicate 32 7) else None),
      va_random_iv = replicate 12 9, va_seal = (\<lambda>k iv m. hd k # m),
      va_open = (\<lambda>k iv c. if c \<noteq> [] \<and> hd c = hd k then Some (tl c) else None),
      va_print = (\<lambda>_. [42]), va_parse = (\<lambda>_. Some v)\<rparr>"

lemma sample_vault_ok: "vault_ok (sample_vault v) v"
  by (simp add: vault_ok_def sample_vault_def iv_length_def)

lemma sample_encrypt:
  "encrypt_json (sample_vault v) v '' key'' = Inr (1 # replicate 12 9 @ [7, 42])"
  by (simp add: encrypt_json_def import_key_def sample_vault_def key_length_def js_trim_def
      is_js_space_def envelope_version_def)

end
