(* ===== verification/Job_Ledger.thy ===== *)
theory Job_Ledger
  imports Retry_Policy Credential_Crypto Operations
begin

text \<open>
  The ledger of worker jobs: \<open>claimJob\<close> and \<open>finishJob\<close> of
  \<open>apps/api/src/control-plane.ts\<close> (D1) and of \<open>control-plane-postgres.ts\<close>. A job has a row
  per deduplication key; an article has an encrypted envelope beside it; a job that fails
  for good leaves a dead letter. The extensions of the record \<open>ledger\<close> are the tables of
  the other parts of the control plane, which these operations leave alone. The clock is
  read once per operation.
\<close>

section \<open>Tables\<close>

record worker_job =
  wj_dedupe_key :: string
  wj_job_id :: string
  wj_kind :: string
  wj_item_kind :: "item_kind option"
  wj_status :: job_status
  wj_attempts :: nat
  wj_failure_attempts :: nat
  wj_deferral_count :: nat
  wj_deferred_until :: "instant option"
  wj_deferred_reason :: "string option"
  wj_summary :: "json_record option"
  wj_error_class :: "error_class option"
  wj_error_message :: "string option"
  wj_created_at :: string
  wj_updated_at :: instant
  wj_finished_at :: "instant option"

datatype envelope_status = Env_Active | Env_Dead | Env_Uncertain

record job_envelope =
  je_job_id :: string
  je_dedupe_key :: string
  je_schema_version :: nat
  je_payload_digest :: string
  je_ciphertext :: bytes
  je_status :: envelope_status
  je_created_at :: instant
  je_updated_at :: instant

record dead_letter =
  dl_job_id :: string
  dl_dedupe_key :: string
  dl_kind :: string
  dl_item_kind :: "item_kind option"
  dl_attempts :: nat
  dl_error_class :: error_class
  dl_error_message :: string
  dl_payload_digest :: string
  dl_envelope_job_id :: "string option"
  dl_created_at :: instant

record ledger =
  lg_jobs :: "worker_job list"
  lg_envelopes :: "job_envelope list"
  lg_dead_letters :: "dead_letter list"
  lg_sync_jobs :: "sync_row list"

record ledger_env =
  le_formats :: formats
  le_vault :: vault
  le_key :: string
  le_digest :: "json \<Rightarrow> string"

datatype ledger_error =
    Job_Invalid
  | Sealing_Failed crypto_error
  | Constraint_Violated
  | Claim_Not_Found
  | Digest_Required
  | Integer_Unsafe

section \<open>Claiming a job\<close>

datatype job_claim =
    Job_Claimed nat
  | Job_Duplicate
  | Job_Deferred string instant
  | Job_Busy

definition is_stale :: "instant \<Rightarrow> instant \<Rightarrow> bool" where
  "is_stale updatedAt current = (current - updatedAt > 10 * 60 * 1000)"

definition terminal_status :: "job_status \<Rightarrow> bool" where
  "terminal_status s = (s = Done \<or> s = Dead \<or> s = Uncertain)"

text \<open>The early returns of a claim on a row that is there; \<open>None\<close> goes on to claim it.\<close>

definition claim_refusal :: "instant \<Rightarrow> worker_job \<Rightarrow> job_claim option" where
  "claim_refusal now row =
     (if terminal_status (wj_status row) then Some Job_Duplicate
      else if wj_status row = Deferred
              \<and> (case wj_deferred_until row of None \<Rightarrow> False | Some t \<Rightarrow> t > now)
      then Some (Job_Deferred (nullish (wj_deferred_reason row) ''deferred'')
                  (the (wj_deferred_until row)))
      else if wj_status row = Processing \<and> \<not> is_stale (wj_updated_at row) now
      then Some Job_Busy
      else None)"

definition job_item_kind :: "queue_job \<Rightarrow> item_kind option" where
  "job_item_kind job =
     (case qj_payload job of Collect_Source _ \<Rightarrow> None | Dispatch_Item i \<Rightarrow> Some (kind_of_item i))"

text \<open>\<open>INSERT INTO worker_jobs\<close> with the defaults of the columns it does not name.\<close>

definition new_worker_job :: "queue_job \<Rightarrow> instant \<Rightarrow> worker_job" where
  "new_worker_job job timestamp =
     \<lparr>wj_dedupe_key = qj_dedupe_key job, wj_job_id = qj_job_id job,
      wj_kind = job_kind_string (qj_payload job), wj_item_kind = job_item_kind job,
      wj_status = Processing, wj_attempts = 1, wj_failure_attempts = 0, wj_deferral_count = 0,
      wj_deferred_until = None, wj_deferred_reason = None, wj_summary = None,
      wj_error_class = None, wj_error_message = None, wj_created_at = qj_created_at job,
      wj_updated_at = timestamp, wj_finished_at = None\<rparr>"

definition reclaimed_job :: "string \<Rightarrow> instant \<Rightarrow> worker_job \<Rightarrow> worker_job" where
  "reclaimed_job jobId timestamp row =
     row\<lparr>wj_attempts := wj_attempts row + 1, wj_job_id := jobId, wj_status := Processing,
         wj_updated_at := timestamp, wj_deferred_until := None, wj_deferred_reason := None,
         wj_error_class := None, wj_error_message := None, wj_finished_at := None\<rparr>"

definition prepare_article_envelope ::
  "ledger_env \<Rightarrow> queue_job \<Rightarrow> instant \<Rightarrow> crypto_error + job_envelope option" where
  "prepare_article_envelope env job timestamp =
     (if job_item_kind job \<noteq> Some Article then Inr None
      else case encrypt_json (le_vault env) (json_of_job job) (le_key env) of
          Inl e \<Rightarrow> Inl e
        | Inr ciphertext \<Rightarrow> Inr (Some
            \<lparr>je_job_id = qj_job_id job, je_dedupe_key = qj_dedupe_key job, je_schema_version = 1,
             je_payload_digest = le_digest env (json_of_job job), je_ciphertext = ciphertext,
             je_status = Env_Active, je_created_at = timestamp, je_updated_at = timestamp\<rparr>))"

text \<open>
  Writes under the unique columns: \<open>job_id\<close> beside the key of \<open>worker_jobs\<close>,
  \<open>dedupe_key\<close> beside the key of \<open>worker_job_envelopes\<close> (where a row of the same
  \<open>job_id\<close> is left as it is). \<open>None\<close> is the violated constraint.
\<close>

definition insert_worker_job :: "worker_job \<Rightarrow> worker_job list \<Rightarrow> worker_job list option" where
  "insert_worker_job r jobs =
     (if wj_dedupe_key r \<in> wj_dedupe_key ` set jobs \<or> wj_job_id r \<in> wj_job_id ` set jobs
      then None else Some (jobs @ [r]))"

definition insert_envelope :: "job_envelope \<Rightarrow> job_envelope list \<Rightarrow> job_envelope list option" where
  "insert_envelope e envelopes =
     (if je_job_id e \<in> je_job_id ` set envelopes then Some envelopes
      else if je_dedupe_key e \<in> je_dedupe_key ` set envelopes then None
      else Some (envelopes @ [e]))"

definition reclaim_worker_job ::
  "string \<Rightarrow> string \<Rightarrow> instant \<Rightarrow> worker_job list \<Rightarrow> worker_job list option" where
  "reclaim_worker_job dedupeKey jobId timestamp jobs =
     (if \<exists>r\<in>set jobs. wj_dedupe_key r \<noteq> dedupeKey \<and> wj_job_id r = jobId then None
      else Some (tab_update (\<lambda>r. wj_dedupe_key r = dedupeKey) (reclaimed_job jobId timestamp) jobs))"

definition insert_claim ::
  "ledger_env \<Rightarrow> queue_job \<Rightarrow> instant \<Rightarrow> 'a ledger_scheme \<Rightarrow> ledger_error + 'a ledger_scheme" where
  "insert_claim env job timestamp db =
     (case prepare_article_envelope env job timestamp of
        Inl e \<Rightarrow> Inl (Sealing_Failed e)
      | Inr envelopeInsert \<Rightarrow>
          (case insert_worker_job (new_worker_job job timestamp) (lg_jobs db) of
             None \<Rightarrow> Inl Constraint_Violated
           | Some jobs \<Rightarrow>
               (case envelopeInsert of
                  None \<Rightarrow> Inr (db\<lparr>lg_jobs := jobs\<rparr>)
                | Some e \<Rightarrow>
                    (case insert_envelope e (lg_envelopes db) of
                       None \<Rightarrow> Inl Constraint_Violated
                     | Some envelopes \<Rightarrow> Inr (db\<lparr>lg_jobs := jobs, lg_envelopes := envelopes\<rparr>)))))"

text \<open>\<open>claimJob\<close> over D1: read the row of the key, then write.\<close>

definition claim_job ::
  "ledger_env \<Rightarrow> json \<Rightarrow> instant \<Rightarrow> 'a ledger_scheme
   \<Rightarrow> 'a ledger_scheme \<times> (ledger_error + job_claim)" where
  "claim_job env input now db =
     (case parse_queue_job (le_formats env) input of
        None \<Rightarrow> (db, Inl Job_Invalid)
      | Some job \<Rightarrow>
          (case tab_first (\<lambda>r. wj_dedupe_key r = qj_dedupe_key job) (lg_jobs db) of
             Some row \<Rightarrow>
               (case claim_refusal now row of
                  Some c \<Rightarrow> (db, Inr c)
                | None \<Rightarrow>
                    (case reclaim_worker_job (qj_dedupe_key job) (qj_job_id job) now (lg_jobs db) of
                       None \<Rightarrow> (db, Inl Constraint_Violated)
                     | Some jobs \<Rightarrow> (db\<lparr>lg_jobs := jobs\<rparr>, Inr (Job_Claimed (wj_attempts row + 1)))))
           | None \<Rightarrow>
               (case insert_claim env job now db of
                  Inl e \<Rightarrow> (db, Inl e)
                | Inr db' \<Rightarrow> (db', Inr (Job_Claimed 1)))))"

text \<open>
  \<open>claimJob\<close> over PostgreSQL: insert first, and read the row only after a conflict; an
  error rolls the transaction back.
\<close>

definition safe_integer :: "nat \<Rightarrow> bool" where
  "safe_integer n = (n \<le> 9007199254740991)"

definition claim_job_pg ::
  "ledger_env \<Rightarrow> json \<Rightarrow> instant \<Rightarrow> 'a ledger_scheme
   \<Rightarrow> 'a ledger_scheme \<times> (ledger_error + job_claim)" where
  "claim_job_pg env input now db =
     (case parse_queue_job (le_formats env) input of
        None \<Rightarrow> (db, Inl Job_Invalid)
      | Some job \<Rightarrow>
          (case insert_worker_job (new_worker_job job now) (lg_jobs db) of
             Some jobs \<Rightarrow>
               (case prepare_article_envelope env job now of
                  Inl e \<Rightarrow> (db, Inl (Sealing_Failed e))
                | Inr None \<Rightarrow> (db\<lparr>lg_jobs := jobs\<rparr>, Inr (Job_Claimed 1))
                | Inr (Some e) \<Rightarrow>
                    (case insert_envelope e (lg_envelopes db) of
                       None \<Rightarrow> (db, Inl Constraint_Violated)
                     | Some envelopes \<Rightarrow>
                         (db\<lparr>lg_jobs := jobs, lg_envelopes := envelopes\<rparr>, Inr (Job_Claimed 1))))
           | None \<Rightarrow>
               (case tab_first (\<lambda>r. wj_dedupe_key r = qj_dedupe_key job) (lg_jobs db) of
                  None \<Rightarrow> (db, Inl Claim_Not_Found)
                | Some row \<Rightarrow>
                    (case claim_refusal now row of
                       Some c \<Rightarrow> (db, Inr c)
                     | None \<Rightarrow>
                         (case reclaim_worker_job (qj_dedupe_key job) (qj_job_id job) now
                                 (lg_jobs db) of
                            None \<Rightarrow> (db, Inl Constraint_Violated)
                          | Some jobs \<Rightarrow>
                              if safe_integer (wj_attempts row + 1)
                              then (db\<lparr>lg_jobs := jobs\<rparr>, Inr (Job_Claimed (wj_attempts row + 1)))
                              else (db, Inl Integer_Unsafe))))))"

section \<open>Finishing a job\<close>

datatype job_result =
    Result_Done "json_record option"
  | Result_Failed "error_class option" "string option" "string option"
  | Result_Deferred string instant
  | Result_Uncertain string

datatype job_settlement = Settle_Ack | Settle_Retry int

text \<open>\<open>/^collect:([^:]+):(.+)$/\<close>: the source and the run of a collection job's key.\<close>

definition parse_collect_key :: "string \<Rightarrow> (string \<times> string) option" where
  "parse_collect_key k =
     (if take 8 k \<noteq> ''collect:'' then None
      else let source = takeWhile (\<lambda>c. c \<noteq> CHR '':'') (drop 8 k);
               rest = dropWhile (\<lambda>c. c \<noteq> CHR '':'') (drop 8 k)
           in if source = [] \<or> rest = [] then None
              else let run = tl rest
                   in if run = [] \<or> CHR 0x0A \<in> set run \<or> CHR 0x0D \<in> set run then None
                      else Some (source, run))"

fun run_status_string :: "run_status \<Rightarrow> string" where
  "run_status_string Run_Done = ''done''"
| "run_status_string Run_Failed = ''failed''"
| "run_status_string Run_Running = ''running''"

definition complete_sync_row ::
  "string \<Rightarrow> string option \<Rightarrow> json_record option \<Rightarrow> terminal_status \<Rightarrow> instant
   \<Rightarrow> sync_row \<Rightarrow> sync_row" where
  "complete_sync_row source errorMessage summary status timestamp row =
     (let advanced = advance_sync_job (sy_stats row)
            \<lparr>su_error_message = (case errorMessage of
                 None \<Rightarrow> None | Some m \<Rightarrow> if m = [] then None else Some (js_slice 500 m)),
             su_finished_at = timestamp, su_source = source, su_status = status,
             su_summary = summary\<rparr>
      in row\<lparr>sy_stats := sa_stats advanced, sy_status := run_status_string (sa_status advanced),
             sy_error := sa_error advanced, sy_finished_at := sa_finished_at advanced\<rparr>)"

definition sync_job_completion ::
  "worker_job \<Rightarrow> string option \<Rightarrow> json_record option \<Rightarrow> terminal_status \<Rightarrow> instant
   \<Rightarrow> sync_row list \<Rightarrow> sync_row list" where
  "sync_job_completion row errorMessage summary status timestamp syncJobs =
     (if wj_kind row \<noteq> ''collect-source'' then syncJobs
      else case parse_collect_key (wj_dedupe_key row) of
          None \<Rightarrow> syncJobs
        | Some (source, runId) \<Rightarrow>
            (case tab_first (\<lambda>s. sy_id s = runId) syncJobs of
               None \<Rightarrow> syncJobs
             | Some syncJob \<Rightarrow>
                 tab_update (\<lambda>s. sy_id s = runId)
                   (\<lambda>s. (complete_sync_row source errorMessage summary status timestamp syncJob)
                      \<lparr>sy_id := sy_id s, sy_started_at := sy_started_at s,
                       sy_triggered_by := sy_triggered_by s\<rparr>) syncJobs))"

text \<open>The updates of the row, one per outcome.\<close>

definition deferred_job :: "string \<Rightarrow> instant \<Rightarrow> instant \<Rightarrow> worker_job \<Rightarrow> worker_job" where
  "deferred_job reason retryAt timestamp row =
     row\<lparr>wj_status := Deferred, wj_deferral_count := wj_deferral_count row + 1,
         wj_deferred_until := Some retryAt, wj_deferred_reason := Some reason,
         wj_updated_at := timestamp, wj_error_class := None, wj_error_message := None\<rparr>"

definition uncertain_job :: "string \<Rightarrow> instant \<Rightarrow> worker_job \<Rightarrow> worker_job" where
  "uncertain_job reason timestamp row =
     row\<lparr>wj_status := Uncertain, wj_error_message := Some (js_slice 500 reason),
         wj_updated_at := timestamp, wj_finished_at := Some timestamp\<rparr>"

definition done_job :: "json_record option \<Rightarrow> instant \<Rightarrow> worker_job \<Rightarrow> worker_job" where
  "done_job summary timestamp row =
     row\<lparr>wj_status := Done, wj_summary := Some (nullish summary []), wj_updated_at := timestamp,
         wj_finished_at := Some timestamp, wj_deferred_until := None, wj_deferred_reason := None,
         wj_error_class := None, wj_error_message := None\<rparr>"

definition failed_job ::
  "nat \<Rightarrow> error_class \<Rightarrow> string \<Rightarrow> instant \<Rightarrow> worker_job \<Rightarrow> worker_job" where
  "failed_job failureAttempts errorClass errorMessage timestamp row =
     row\<lparr>wj_status := Failed, wj_failure_attempts := failureAttempts,
         wj_error_class := Some errorClass, wj_error_message := Some errorMessage,
         wj_updated_at := timestamp, wj_deferred_until := None, wj_deferred_reason := None\<rparr>"

definition dead_job ::
  "nat \<Rightarrow> error_class \<Rightarrow> string \<Rightarrow> instant \<Rightarrow> worker_job \<Rightarrow> worker_job" where
  "dead_job failureAttempts errorClass errorMessage timestamp row =
     row\<lparr>wj_status := Dead, wj_failure_attempts := failureAttempts,
         wj_error_class := Some errorClass, wj_error_message := Some errorMessage,
         wj_updated_at := timestamp, wj_finished_at := Some timestamp,
         wj_deferred_until := None, wj_deferred_reason := None\<rparr>"

definition retry_backoff_seconds :: "nat \<Rightarrow> int" where
  "retry_backoff_seconds failureAttempts = min 300 (30 * 2 ^ (failureAttempts - 1))"

definition mark_envelope :: "envelope_status \<Rightarrow> instant \<Rightarrow> job_envelope \<Rightarrow> job_envelope" where
  "mark_envelope status timestamp e = e\<lparr>je_status := status, je_updated_at := timestamp\<rparr>"

definition merge_dead_letter :: "dead_letter \<Rightarrow> dead_letter \<Rightarrow> dead_letter" where
  "merge_dead_letter old new =
     old\<lparr>dl_attempts := dl_attempts new, dl_error_class := dl_error_class new,
         dl_error_message := dl_error_message new, dl_payload_digest := dl_payload_digest new,
         dl_envelope_job_id := dl_envelope_job_id new, dl_created_at := dl_created_at new\<rparr>"

text \<open>\<open>envelope?.payload_digest ?? input.payloadDigest\<close>, and the test that it is not falsy.\<close>

definition dead_letter_digest :: "job_envelope option \<Rightarrow> string option \<Rightarrow> string option" where
  "dead_letter_digest envelope payloadDigest =
     (case (case envelope of Some e \<Rightarrow> Some (je_payload_digest e) | None \<Rightarrow> payloadDigest) of
        None \<Rightarrow> None | Some d \<Rightarrow> if d = [] then None else Some d)"

definition new_dead_letter ::
  "string \<Rightarrow> worker_job \<Rightarrow> nat \<Rightarrow> error_class \<Rightarrow> string \<Rightarrow> string \<Rightarrow> job_envelope option
   \<Rightarrow> instant \<Rightarrow> dead_letter" where
  "new_dead_letter jobId row failureAttempts errorClass errorMessage digest envelope timestamp =
     \<lparr>dl_job_id = jobId, dl_dedupe_key = wj_dedupe_key row, dl_kind = wj_kind row,
      dl_item_kind = wj_item_kind row, dl_attempts = failureAttempts,
      dl_error_class = errorClass, dl_error_message = errorMessage,
      dl_payload_digest = digest,
      dl_envelope_job_id = (if envelope = None then None else Some jobId),
      dl_created_at = timestamp\<rparr>"

definition fail_job ::
  "string \<Rightarrow> worker_job \<Rightarrow> error_class option \<Rightarrow> string option \<Rightarrow> string option \<Rightarrow> instant
   \<Rightarrow> 'a ledger_scheme \<Rightarrow> 'a ledger_scheme \<times> (ledger_error + job_settlement)" where
  "fail_job jobId row errorClassInput errorMessageInput payloadDigest now db =
     (let errorClass = nullish errorClassInput Permanent;
          errorMessage = js_slice 500 (nullish errorMessageInput ''worker job failed'');
          transition = decide_job_transition
            \<lparr>js_failure_attempts = wj_failure_attempts row, js_status = wj_status row\<rparr>
            (Outcome_Failed errorClass);
          failureAttempts = js_failure_attempts transition
      in if js_status transition = Failed
         then (db\<lparr>lg_jobs := tab_update (\<lambda>r. wj_job_id r = jobId)
                       (failed_job failureAttempts errorClass errorMessage now) (lg_jobs db)\<rparr>,
               Inr (Settle_Retry (retry_backoff_seconds failureAttempts)))
         else
           (let envelope = tab_first (\<lambda>e. je_job_id e = jobId) (lg_envelopes db)
            in case dead_letter_digest envelope payloadDigest of
                 None \<Rightarrow> (db, Inl Digest_Required)
               | Some digest \<Rightarrow>
                   (db\<lparr>lg_jobs := tab_update (\<lambda>r. wj_job_id r = jobId)
                         (dead_job failureAttempts errorClass errorMessage now) (lg_jobs db),
                       lg_dead_letters := tab_upsert dl_job_id merge_dead_letter
                         (new_dead_letter jobId row failureAttempts errorClass errorMessage
                            digest envelope now) (lg_dead_letters db),
                       lg_envelopes := tab_update (\<lambda>e. je_job_id e = jobId)
                         (mark_envelope Env_Dead now) (lg_envelopes db),
                       lg_sync_jobs := sync_job_completion row (Some errorMessage) None
                         Sync_Failed now (lg_sync_jobs db)\<rparr>,
                    Inr Settle_Ack)))"

definition finish_job ::
  "string \<Rightarrow> job_result \<Rightarrow> instant \<Rightarrow> 'a ledger_scheme
   \<Rightarrow> 'a ledger_scheme \<times> (ledger_error + job_settlement)" where
  "finish_job jobId input now db =
     (case tab_first (\<lambda>r. wj_job_id r = jobId) (lg_jobs db) of
        None \<Rightarrow> (db, Inl Claim_Not_Found)
      | Some row \<Rightarrow>
          if terminal_status (wj_status row) then (db, Inr Settle_Ack)
          else case input of
              Result_Deferred reason retryAt \<Rightarrow>
                (db\<lparr>lg_jobs := tab_update (\<lambda>r. wj_job_id r = jobId)
                      (deferred_job reason retryAt now) (lg_jobs db)\<rparr>,
                 Inr (Settle_Retry (calculate_retry_delay_seconds retryAt now 300)))
            | Result_Uncertain reason \<Rightarrow>
                (db\<lparr>lg_jobs := tab_update (\<lambda>r. wj_job_id r = jobId)
                      (uncertain_job reason now) (lg_jobs db),
                    lg_envelopes := tab_update (\<lambda>e. je_job_id e = jobId)
                      (mark_envelope Env_Uncertain now) (lg_envelopes db)\<rparr>,
                 Inr Settle_Ack)
            | Result_Done summary \<Rightarrow>
                (db\<lparr>lg_jobs := tab_update (\<lambda>r. wj_job_id r = jobId)
                      (done_job summary now) (lg_jobs db),
                    lg_envelopes := tab_delete (\<lambda>e. je_job_id e = jobId) (lg_envelopes db),
                    lg_sync_jobs := sync_job_completion row None summary Sync_Done now
                      (lg_sync_jobs db)\<rparr>,
                 Inr Settle_Ack)
            | Result_Failed errorClass errorMessage payloadDigest \<Rightarrow>
                fail_job jobId row errorClass errorMessage payloadDigest now db)"

text \<open>
  \<open>finishJob\<close> over PostgreSQL: the statements run one by one in a transaction; an error
  rolls them back.
\<close>

definition finish_job_pg ::
  "string \<Rightarrow> job_result \<Rightarrow> instant \<Rightarrow> 'a ledger_scheme
   \<Rightarrow> 'a ledger_scheme \<times> (ledger_error + job_settlement)" where
  "finish_job_pg jobId input now db =
     (case tab_first (\<lambda>r. wj_job_id r = jobId) (lg_jobs db) of
        None \<Rightarrow> (db, Inl Claim_Not_Found)
      | Some row \<Rightarrow>
          if terminal_status (wj_status row) then (db, Inr Settle_Ack)
          else
            (let write_job = (\<lambda>f (d :: 'a ledger_scheme).
                   d\<lparr>lg_jobs := tab_update (\<lambda>r. wj_job_id r = jobId) f (lg_jobs d)\<rparr>);
                 write_envelope = (\<lambda>status (d :: 'a ledger_scheme).
                   d\<lparr>lg_envelopes := tab_update (\<lambda>e. je_job_id e = jobId)
                       (mark_envelope status now) (lg_envelopes d)\<rparr>);
                 write_sync = (\<lambda>message summary status (d :: 'a ledger_scheme).
                   d\<lparr>lg_sync_jobs := sync_job_completion row message summary status now
                       (lg_sync_jobs d)\<rparr>)
             in case input of
                  Result_Deferred reason retryAt \<Rightarrow>
                    (write_job (deferred_job reason retryAt now) db,
                     Inr (Settle_Retry (calculate_retry_delay_seconds retryAt now 300)))
                | Result_Uncertain reason \<Rightarrow>
                    (write_envelope Env_Uncertain (write_job (uncertain_job reason now) db),
                     Inr Settle_Ack)
                | Result_Done summary \<Rightarrow>
                    (let db1 = write_job (done_job summary now) db;
                         db2 = db1\<lparr>lg_envelopes :=
                           tab_delete (\<lambda>e. je_job_id e = jobId) (lg_envelopes db1)\<rparr>
                     in (write_sync None summary Sync_Done db2, Inr Settle_Ack))
                | Result_Failed errorClassInput errorMessageInput payloadDigest \<Rightarrow>
                    if \<not> safe_integer (wj_failure_attempts row) then (db, Inl Integer_Unsafe)
                    else
                      (let errorClass = nullish errorClassInput Permanent;
                           errorMessage =
                             js_slice 500 (nullish errorMessageInput ''worker job failed'');
                           transition = decide_job_transition
                             \<lparr>js_failure_attempts = wj_failure_attempts row,
                              js_status = wj_status row\<rparr> (Outcome_Failed errorClass);
                           failureAttempts = js_failure_attempts transition
                       in if js_status transition = Failed
                          then (write_job (failed_job failureAttempts errorClass errorMessage now) db,
                                Inr (Settle_Retry (retry_backoff_seconds failureAttempts)))
                          else
                            (let envelope = tab_first (\<lambda>e. je_job_id e = jobId) (lg_envelopes db)
                             in case dead_letter_digest envelope payloadDigest of
                                  None \<Rightarrow> (db, Inl Digest_Required)
                                | Some digest \<Rightarrow>
                                    (let db1 = write_job (dead_job failureAttempts errorClass
                                           errorMessage now) db;
                                         db2 = db1\<lparr>lg_dead_letters :=
                                           tab_upsert dl_job_id merge_dead_letter
                                             (new_dead_letter jobId row failureAttempts errorClass
                                                errorMessage digest envelope now)
                                             (lg_dead_letters db1)\<rparr>;
                                         db3 = write_envelope Env_Dead db2
                                     in (write_sync (Some errorMessage) None Sync_Failed db3,
                                         Inr Settle_Ack))))))"

section \<open>The invariant\<close>

text \<open>What holds of a row, whatever was done to it.\<close>

definition row_ok :: "worker_job \<Rightarrow> bool" where
  "row_ok r =
     (1 \<le> wj_attempts r
      \<and> wj_failure_attempts r \<le> (if wj_status r = Dead then 3 else 2)
      \<and> (terminal_status (wj_status r) = (wj_finished_at r \<noteq> None))
      \<and> (wj_status r = Deferred \<longrightarrow> wj_deferred_until r \<noteq> None)
      \<and> (wj_status r = Done \<longrightarrow> wj_summary r \<noteq> None \<and> wj_error_class r = None))"

text \<open>The state of the envelope of a job follows the state of the job.\<close>

definition envelope_agrees :: "worker_job \<Rightarrow> job_envelope \<Rightarrow> bool" where
  "envelope_agrees r e =
     (wj_status r \<noteq> Done
      \<and> je_status e = (case wj_status r of
           Dead \<Rightarrow> Env_Dead | Uncertain \<Rightarrow> Env_Uncertain | _ \<Rightarrow> Env_Active))"

definition envelopes_ok :: "worker_job list \<Rightarrow> job_envelope list \<Rightarrow> bool" where
  "envelopes_ok jobs envelopes =
     ((\<forall>r\<in>set jobs. \<forall>e\<in>set envelopes. je_job_id e = wj_job_id r \<longrightarrow> envelope_agrees r e)
      \<and> (\<forall>e\<in>set envelopes. je_job_id e \<notin> wj_job_id ` set jobs \<longrightarrow> je_status e = Env_Active))"

definition dead_letters_ok :: "worker_job list \<Rightarrow> dead_letter list \<Rightarrow> bool" where
  "dead_letters_ok jobs dead =
     (\<forall>r\<in>set jobs. wj_status r = Dead \<longrightarrow>
        (\<exists>d\<in>set dead. dl_job_id d = wj_job_id r \<and> dl_attempts d = wj_failure_attempts r))"

definition ledger_inv :: "'a ledger_scheme \<Rightarrow> bool" where
  "ledger_inv db =
     (tab_keyed wj_dedupe_key (lg_jobs db) \<and> tab_keyed wj_job_id (lg_jobs db)
      \<and> tab_keyed je_job_id (lg_envelopes db) \<and> tab_keyed je_dedupe_key (lg_envelopes db)
      \<and> tab_keyed dl_job_id (lg_dead_letters db)
      \<and> (\<forall>r\<in>set (lg_jobs db). row_ok r)
      \<and> envelopes_ok (lg_jobs db) (lg_envelopes db)
      \<and> dead_letters_ok (lg_jobs db) (lg_dead_letters db))"

text \<open>No write of a job or an envelope touches the columns that identify its row.\<close>

lemma job_writes_keep_keys [row_simps]:
  "wj_job_id (deferred_job a t u r) = wj_job_id r"
  "wj_job_id (uncertain_job a u r) = wj_job_id r"
  "wj_job_id (done_job m u r) = wj_job_id r"
  "wj_job_id (failed_job n c x u r) = wj_job_id r"
  "wj_job_id (dead_job n c x u r) = wj_job_id r"
  "wj_dedupe_key (deferred_job a t u r) = wj_dedupe_key r"
  "wj_dedupe_key (uncertain_job a u r) = wj_dedupe_key r"
  "wj_dedupe_key (done_job m u r) = wj_dedupe_key r"
  "wj_dedupe_key (failed_job n c x u r) = wj_dedupe_key r"
  "wj_dedupe_key (dead_job n c x u r) = wj_dedupe_key r"
  "wj_dedupe_key (reclaimed_job j u r) = wj_dedupe_key r"
  by (simp_all add: deferred_job_def uncertain_job_def done_job_def failed_job_def dead_job_def
      reclaimed_job_def)

lemma envelope_writes_keep_keys [row_simps]:
  "je_job_id (mark_envelope s t e) = je_job_id e"
  "je_dedupe_key (mark_envelope s t e) = je_dedupe_key e"
  by (simp_all add: mark_envelope_def)

lemma dead_letter_merge_keeps_key [row_simps]: "dl_job_id (merge_dead_letter d d') = dl_job_id d"
  by (simp add: merge_dead_letter_def)

lemma envelope_agrees_nonterminal:
  "\<not> terminal_status (wj_status r) \<Longrightarrow> envelope_agrees r e = (je_status e = Env_Active)"
  by (cases "wj_status r") (simp_all add: envelope_agrees_def terminal_status_def)

lemma ledger_invD:
  assumes "ledger_inv db"
  shows "tab_keyed wj_dedupe_key (lg_jobs db)" and "tab_keyed wj_job_id (lg_jobs db)"
    and "tab_keyed je_job_id (lg_envelopes db)" and "tab_keyed je_dedupe_key (lg_envelopes db)"
    and "tab_keyed dl_job_id (lg_dead_letters db)"
    and "r \<in> set (lg_jobs db) \<Longrightarrow> row_ok r"
    and "r \<in> set (lg_jobs db) \<Longrightarrow> e \<in> set (lg_envelopes db) \<Longrightarrow> je_job_id e = wj_job_id r
      \<Longrightarrow> envelope_agrees r e"
    and "e \<in> set (lg_envelopes db) \<Longrightarrow> je_job_id e \<notin> wj_job_id ` set (lg_jobs db)
      \<Longrightarrow> je_status e = Env_Active"
    and "r \<in> set (lg_jobs db) \<Longrightarrow> wj_status r = Dead \<Longrightarrow>
      \<exists>d\<in>set (lg_dead_letters db).
         dl_job_id d = wj_job_id r \<and> dl_attempts d = wj_failure_attempts r"
  using assms by (simp_all add: ledger_inv_def envelopes_ok_def dead_letters_ok_def)

lemma ledger_inv_write:
  assumes inv: "ledger_inv db"
    and row: "tab_first (\<lambda>r. wj_job_id r = jobId) (lg_jobs db) = Some row"
    and f: "\<And>r. wj_job_id (f r) = wj_job_id r" "\<And>r. wj_dedupe_key (f r) = wj_dedupe_key r"
    and ok: "row_ok (f row)"
    and envs: "tab_keyed je_job_id envs" "tab_keyed je_dedupe_key envs"
      "\<And>e. e \<in> set envs \<Longrightarrow> je_job_id e = jobId \<Longrightarrow> envelope_agrees (f row) e"
      "\<And>e. e \<in> set envs \<Longrightarrow> je_job_id e \<noteq> jobId \<Longrightarrow> e \<in> set (lg_envelopes db)"
    and dead: "tab_keyed dl_job_id dls"
      "\<And>d. d \<in> set (lg_dead_letters db) \<Longrightarrow> dl_job_id d \<noteq> jobId \<Longrightarrow> d \<in> set dls"
      "wj_status (f row) = Dead \<Longrightarrow>
        \<exists>d\<in>set dls. dl_job_id d = jobId \<and> dl_attempts d = wj_failure_attempts (f row)"
  shows "ledger_inv (db\<lparr>lg_jobs := tab_update (\<lambda>r. wj_job_id r = jobId) f (lg_jobs db),
    lg_dead_letters := dls, lg_envelopes := envs, lg_sync_jobs := syncs\<rparr>)"
proof -
  let ?jobs = "lg_jobs db"
  let ?jobs' = "tab_update (\<lambda>r. wj_job_id r = jobId) f ?jobs"
  have keyed: "tab_keyed wj_job_id ?jobs" using inv by (simp add: ledger_inv_def)
  have rid: "wj_job_id row = jobId" "row \<in> set ?jobs" using tab_first_SomeD [OF row] by auto
  have mem: "r' = f row \<and> wj_job_id r' = jobId \<or> r' \<in> set ?jobs \<and> wj_job_id r' \<noteq> jobId"
    if "r' \<in> set ?jobs'" for r'
  proof -
    from that obtain r where r: "r \<in> set ?jobs" "r' = (if wj_job_id r = jobId then f r else r)"
      by (auto simp: set_tab_update)
    then have "wj_job_id r = jobId \<Longrightarrow> r = row"
      using tab_keyed_unique [OF keyed] rid by metis
    with r f(1) rid show ?thesis by metis
  qed
  have ids: "wj_job_id ` set ?jobs' = wj_job_id ` set ?jobs"
    by (rule row_write.keys_update [OF row_write.intro]) (rule f(1))
  have "envelopes_ok ?jobs' envs"
    unfolding envelopes_ok_def
  proof (intro conjI ballI impI)
    fix r e assume r: "r \<in> set ?jobs'" and e: "e \<in> set envs" and id: "je_job_id e = wj_job_id r"
    have old: "\<And>r e. r \<in> set ?jobs \<Longrightarrow> e \<in> set (lg_envelopes db) \<Longrightarrow> je_job_id e = wj_job_id r
        \<Longrightarrow> envelope_agrees r e"
      using inv by (simp add: ledger_inv_def envelopes_ok_def)
    show "envelope_agrees r e"
    proof (cases "wj_job_id r = jobId")
      case True
      with mem [OF r] have "r = f row" by blast
      with envs(3) [OF e] id True show ?thesis by simp
    next
      case False
      with mem [OF r] have "r \<in> set ?jobs" by blast
      moreover have "e \<in> set (lg_envelopes db)" using envs(4) [OF e] id False by simp
      ultimately show ?thesis using old id by blast
    qed
  next
    fix e assume e: "e \<in> set envs" and new: "je_job_id e \<notin> wj_job_id ` set ?jobs'"
    have out: "je_job_id e \<notin> wj_job_id ` set ?jobs" using new unfolding ids .
    moreover have "jobId \<in> wj_job_id ` set ?jobs" using rid by blast
    ultimately have "je_job_id e \<noteq> jobId" by metis
    then have "e \<in> set (lg_envelopes db)" by (rule envs(4) [OF e])
    moreover have "\<forall>e\<in>set (lg_envelopes db). je_job_id e \<notin> wj_job_id ` set ?jobs
        \<longrightarrow> je_status e = Env_Active"
      using inv by (simp add: ledger_inv_def envelopes_ok_def)
    ultimately show "je_status e = Env_Active" using out by blast
  qed
  moreover have "dead_letters_ok ?jobs' dls"
    unfolding dead_letters_ok_def
  proof (intro ballI impI)
    fix r assume r: "r \<in> set ?jobs'" and d: "wj_status r = Dead"
    have old: "\<exists>d\<in>set (lg_dead_letters db). dl_job_id d = wj_job_id r
        \<and> dl_attempts d = wj_failure_attempts r" if "r \<in> set ?jobs"
      using inv d that by (simp add: ledger_inv_def dead_letters_ok_def)
    show "\<exists>d\<in>set dls. dl_job_id d = wj_job_id r \<and> dl_attempts d = wj_failure_attempts r"
      using mem [OF r] old dead(2,3) d by metis
  qed
  moreover have "\<forall>r\<in>set ?jobs. row_ok r" using inv by (simp add: ledger_inv_def)
  then have "\<forall>r\<in>set ?jobs'. row_ok r" using mem ok by metis
  moreover have "tab_keyed wj_dedupe_key ?jobs'" "tab_keyed wj_job_id ?jobs'"
    using inv by (simp_all add: ledger_inv_def tab_keyed_update f)
  ultimately show ?thesis using envs(1,2) dead(1) by (simp add: ledger_inv_def)
qed

lemma ledger_inv_jobs_write:
  assumes inv: "ledger_inv db"
    and row: "tab_first (\<lambda>r. wj_job_id r = jobId) (lg_jobs db) = Some row"
    and f: "\<And>r. wj_job_id (f r) = wj_job_id r" "\<And>r. wj_dedupe_key (f r) = wj_dedupe_key r"
    and ok: "row_ok (f row)" "\<not> terminal_status (wj_status row)"
      "\<not> terminal_status (wj_status (f row))"
  shows "ledger_inv (db\<lparr>lg_jobs := tab_update (\<lambda>r. wj_job_id r = jobId) f (lg_jobs db)\<rparr>)"
proof -
  have rid: "wj_job_id row = jobId" "row \<in> set (lg_jobs db)" using tab_first_SomeD [OF row] by auto
  have agrees: "envelope_agrees (f row) e" if "e \<in> set (lg_envelopes db)" "je_job_id e = jobId" for e
    using ledger_invD(7) [OF inv rid(2) that(1)] that(2) rid(1) ok(2,3)
    by (simp add: envelope_agrees_nonterminal)
  have live: "wj_status (f row) \<noteq> Dead" using ok(3) by (auto simp: terminal_status_def)
  have "ledger_inv (db\<lparr>lg_jobs := tab_update (\<lambda>r. wj_job_id r = jobId) f (lg_jobs db),
      lg_dead_letters := lg_dead_letters db, lg_envelopes := lg_envelopes db,
      lg_sync_jobs := lg_sync_jobs db\<rparr>)"
    by (rule ledger_inv_write [OF inv row f ok(1)])
      (simp_all add: ledger_invD [OF inv] agrees live)
  then show ?thesis by simp
qed

lemma row_ok_writes:
  assumes "row_ok r" and "\<not> terminal_status (wj_status r)"
  shows "row_ok (deferred_job a t u r)" and "row_ok (uncertain_job a u r)"
    and "row_ok (done_job m u r)" and "n \<le> 2 \<Longrightarrow> row_ok (failed_job n c x u r)"
    and "n \<le> 3 \<Longrightarrow> row_ok (dead_job n c x u r)" and "row_ok (reclaimed_job j u r)"
  using assms
  by (auto simp: row_ok_def deferred_job_def uncertain_job_def done_job_def failed_job_def
      dead_job_def reclaimed_job_def terminal_status_def split: if_splits)

lemma marked_envelopes:
  assumes "tab_keyed je_job_id es" and "tab_keyed je_dedupe_key es"
  shows "tab_keyed je_job_id (tab_update p (mark_envelope s t) es)"
    and "tab_keyed je_dedupe_key (tab_update p (mark_envelope s t) es)"
  using assms by (simp_all add: tab_keyed_update row_simps)

lemma marked_envelope_cases:
  assumes "e \<in> set (tab_update (\<lambda>e. je_job_id e = jobId) (mark_envelope s t) es)"
  shows "je_job_id e = jobId \<Longrightarrow> je_status e = s" and "je_job_id e \<noteq> jobId \<Longrightarrow> e \<in> set es"
proof -
  from assms obtain e0 where e0: "e0 \<in> set es"
      "e = (if je_job_id e0 = jobId then mark_envelope s t e0 else e0)"
    unfolding set_tab_update by blast
  then have "je_job_id e = je_job_id e0" by (simp add: mark_envelope_def)
  with e0 show "je_job_id e = jobId \<Longrightarrow> je_status e = s" and "je_job_id e \<noteq> jobId \<Longrightarrow> e \<in> set es"
    by (simp_all add: mark_envelope_def)
qed

lemma fail_job_inv:
  assumes inv: "ledger_inv db"
    and row: "tab_first (\<lambda>r. wj_job_id r = jobId) (lg_jobs db) = Some row"
    and live: "\<not> terminal_status (wj_status row)"
  shows "ledger_inv (fst (fail_job jobId row c m d now db))"
proof -
  have rid: "row \<in> set (lg_jobs db)" using tab_first_SomeD [OF row] by auto
  note ok = row_ok_writes [OF ledger_invD(6) [OF inv rid] live]
  have fa: "wj_failure_attempts row \<le> 2"
    using ledger_invD(6) [OF inv rid] live by (auto simp: row_ok_def terminal_status_def)
  define n where "n = wj_failure_attempts row + 1"
  define cls where "cls = nullish c Permanent"
  define msg where "msg = js_slice 500 (nullish m ''worker job failed'')"
  show ?thesis
  proof (cases "cls = Permanent \<or> n \<ge> 3")
    case False
    have "ledger_inv (db\<lparr>lg_jobs := tab_update (\<lambda>r. wj_job_id r = jobId)
        (failed_job n cls msg now) (lg_jobs db)\<rparr>)"
      using False live
      by (intro ledger_inv_jobs_write [OF inv row])
        (simp_all add: row_simps ok(4), simp add: failed_job_def terminal_status_def)
    then show ?thesis using False
      by (simp add: fail_job_def Let_def n_def cls_def msg_def)
  next
    case True
    define env where "env = tab_first (\<lambda>e. je_job_id e = jobId) (lg_envelopes db)"
    show ?thesis
    proof (cases "dead_letter_digest env d")
      case None
      then show ?thesis using inv True
        by (simp add: fail_job_def Let_def n_def cls_def env_def)
    next
      case (Some digest)
      define dl where "dl = new_dead_letter jobId row n cls msg digest env now"
      have dl: "dl_job_id dl = jobId" "dl_attempts dl = n" by (simp_all add: dl_def new_dead_letter_def)
      have "ledger_inv (db\<lparr>lg_jobs := tab_update (\<lambda>r. wj_job_id r = jobId)
             (dead_job n cls msg now) (lg_jobs db),
           lg_dead_letters := tab_upsert dl_job_id merge_dead_letter dl (lg_dead_letters db),
           lg_envelopes := tab_update (\<lambda>e. je_job_id e = jobId) (mark_envelope Env_Dead now)
             (lg_envelopes db),
           lg_sync_jobs := sync_job_completion row (Some msg) None Sync_Failed now
             (lg_sync_jobs db)\<rparr>)"
      proof (rule ledger_inv_write [OF inv row])
        show "row_ok (dead_job n cls msg now row)" using fa by (intro ok(5)) (simp add: n_def)
        show "tab_keyed dl_job_id (tab_upsert dl_job_id merge_dead_letter dl (lg_dead_letters db))"
          by (rule tab_keyed_upsert) (simp_all add: ledger_invD(5) [OF inv] row_simps)
        show "envelope_agrees (dead_job n cls msg now row) e"
          if "e \<in> set (tab_update (\<lambda>e. je_job_id e = jobId) (mark_envelope Env_Dead now)
                (lg_envelopes db))" and "je_job_id e = jobId" for e
          using marked_envelope_cases(1) [OF that] by (simp add: envelope_agrees_def dead_job_def)
        show "e \<in> set (lg_envelopes db)"
          if "e \<in> set (tab_update (\<lambda>e. je_job_id e = jobId) (mark_envelope Env_Dead now)
                (lg_envelopes db))" and "je_job_id e \<noteq> jobId" for e
          by (rule marked_envelope_cases(2) [OF that])
        show "d \<in> set (tab_upsert dl_job_id merge_dead_letter dl (lg_dead_letters db))"
          if "d \<in> set (lg_dead_letters db)" and "dl_job_id d \<noteq> jobId" for d
          by (rule tab_upsert_mem [OF that(1)]) (simp add: that(2) dl(1))
        show "\<exists>d\<in>set (tab_upsert dl_job_id merge_dead_letter dl (lg_dead_letters db)).
            dl_job_id d = jobId
            \<and> dl_attempts d = wj_failure_attempts (dead_job n cls msg now row)"
          using tab_upsert_has [where key = dl_job_id and merge = merge_dead_letter and r = dl
              and P = "\<lambda>d. dl_attempts d = n" and rows = "lg_dead_letters db"]
          by (simp add: dl dead_job_def merge_dead_letter_def)
      qed (simp_all add: row_simps marked_envelopes ledger_invD(3,4) [OF inv])
      then show ?thesis using True Some
        by (simp add: fail_job_def Let_def n_def cls_def msg_def env_def dl_def)
    qed
  qed
qed

lemma finish_job_inv:
  assumes inv: "ledger_inv db"
  shows "ledger_inv (fst (finish_job jobId input now db))"
proof (cases "tab_first (\<lambda>r. wj_job_id r = jobId) (lg_jobs db)")
  case None
  then show ?thesis using inv by (simp add: finish_job_def)
next
  case row: (Some row)
  have rid: "row \<in> set (lg_jobs db)" using tab_first_SomeD [OF row] by auto
  show ?thesis
  proof (cases "terminal_status (wj_status row)")
    case True
    then show ?thesis using inv row by (simp add: finish_job_def)
  next
    case live: False
    note ok = row_ok_writes [OF ledger_invD(6) [OF inv rid] live]
    note keyed = ledger_invD(3,4,5) [OF inv]
    show ?thesis
    proof (cases input)
      case (Result_Deferred reason retryAt)
      have "ledger_inv (db\<lparr>lg_jobs := tab_update (\<lambda>r. wj_job_id r = jobId)
          (deferred_job reason retryAt now) (lg_jobs db)\<rparr>)"
        by (intro ledger_inv_jobs_write [OF inv row])
          (simp_all add: row_simps ok live, simp add: deferred_job_def terminal_status_def)
      then show ?thesis using row live by (simp add: finish_job_def Result_Deferred)
    next
      case (Result_Uncertain reason)
      have "ledger_inv (db\<lparr>lg_jobs := tab_update (\<lambda>r. wj_job_id r = jobId)
             (uncertain_job reason now) (lg_jobs db), lg_dead_letters := lg_dead_letters db,
           lg_envelopes := tab_update (\<lambda>e. je_job_id e = jobId) (mark_envelope Env_Uncertain now)
             (lg_envelopes db), lg_sync_jobs := lg_sync_jobs db\<rparr>)"
      proof (rule ledger_inv_write [OF inv row])
        fix e assume e: "e \<in> set (tab_update (\<lambda>e. je_job_id e = jobId)
          (mark_envelope Env_Uncertain now) (lg_envelopes db))"
        show "je_job_id e = jobId \<Longrightarrow> envelope_agrees (uncertain_job reason now row) e"
          using marked_envelope_cases(1) [OF e] by (simp add: envelope_agrees_def uncertain_job_def)
        show "je_job_id e \<noteq> jobId \<Longrightarrow> e \<in> set (lg_envelopes db)"
          by (rule marked_envelope_cases(2) [OF e])
      qed (simp_all add: row_simps ok keyed marked_envelopes, simp add: uncertain_job_def)
      then show ?thesis using row live by (simp add: finish_job_def Result_Uncertain)
    next
      case (Result_Done summary)
      have "ledger_inv (db\<lparr>lg_jobs := tab_update (\<lambda>r. wj_job_id r = jobId)
             (done_job summary now) (lg_jobs db), lg_dead_letters := lg_dead_letters db,
           lg_envelopes := tab_delete (\<lambda>e. je_job_id e = jobId) (lg_envelopes db),
           lg_sync_jobs := sync_job_completion row None summary Sync_Done now (lg_sync_jobs db)\<rparr>)"
        by (rule ledger_inv_write [OF inv row])
          (simp_all add: row_simps ok keyed tab_keyed_delete, simp add: done_job_def)
      then show ?thesis using row live by (simp add: finish_job_def Result_Done)
    next
      case (Result_Failed c m d)
      then show ?thesis using fail_job_inv [OF inv row live] row live
        by (simp add: finish_job_def)
    qed
  qed
qed

lemma insert_worker_job_SomeD:
  "insert_worker_job r jobs = Some jobs' \<Longrightarrow> jobs' = jobs @ [r]
     \<and> wj_dedupe_key r \<notin> wj_dedupe_key ` set jobs \<and> wj_job_id r \<notin> wj_job_id ` set jobs"
  by (auto simp: insert_worker_job_def split: if_splits)

lemma insert_envelope_SomeD:
  "insert_envelope e es = Some es' \<Longrightarrow> es' = es \<or> es' = es @ [e]
     \<and> je_job_id e \<notin> je_job_id ` set es \<and> je_dedupe_key e \<notin> je_dedupe_key ` set es"
  by (auto simp: insert_envelope_def split: if_splits)

lemma new_worker_job_fields [simp]:
  "wj_job_id (new_worker_job job t) = qj_job_id job"
  "wj_dedupe_key (new_worker_job job t) = qj_dedupe_key job"
  "wj_status (new_worker_job job t) = Processing"
  "wj_updated_at (new_worker_job job t) = t"
  by (simp_all add: new_worker_job_def)

lemma insert_job_inv:
  assumes inv: "ledger_inv db"
    and jobs: "insert_worker_job (new_worker_job job now) (lg_jobs db) = Some jobs"
    and envs: "envs = lg_envelopes db \<or> envs = lg_envelopes db @ [e]
        \<and> je_job_id e \<notin> je_job_id ` set (lg_envelopes db)
        \<and> je_dedupe_key e \<notin> je_dedupe_key ` set (lg_envelopes db)"
    and e: "je_job_id e = qj_job_id job" "je_status e = Env_Active"
  shows "ledger_inv (db\<lparr>lg_jobs := jobs, lg_envelopes := envs\<rparr>)"
proof -
  let ?new = "new_worker_job job now"
  have j: "jobs = lg_jobs db @ [?new]" "qj_dedupe_key job \<notin> wj_dedupe_key ` set (lg_jobs db)"
    "qj_job_id job \<notin> wj_job_id ` set (lg_jobs db)"
    using insert_worker_job_SomeD [OF jobs] by simp_all
  have sub: "e' \<in> set (lg_envelopes db) \<or> e' = e" if "e' \<in> set envs" for e'
    using envs that by auto
  have active: "je_status e' = Env_Active" if "e' \<in> set envs" "je_job_id e' = qj_job_id job" for e'
    using sub [OF that(1)] ledger_invD(8) [OF inv, of e'] j(3) e(2) that(2) by auto
  have "envelopes_ok jobs envs"
    unfolding envelopes_ok_def
  proof (intro conjI ballI impI)
    fix r e' assume r: "r \<in> set jobs" and e': "e' \<in> set envs" and id: "je_job_id e' = wj_job_id r"
    show "envelope_agrees r e'"
    proof (cases "r \<in> set (lg_jobs db)")
      case True
      then have "wj_job_id r \<in> wj_job_id ` set (lg_jobs db)" by (rule imageI)
      then have "e' \<noteq> e" using id e(1) j(3) by metis
      then show ?thesis using sub [OF e'] ledger_invD(7) [OF inv True _ id] by blast
    next
      case False
      then have "r = ?new" using r j(1) by simp
      then show ?thesis using active [OF e'] id by (simp add: envelope_agrees_def)
    qed
  next
    fix e' assume e': "e' \<in> set envs" and out: "je_job_id e' \<notin> wj_job_id ` set jobs"
    then show "je_status e' = Env_Active"
      using sub [OF e'] ledger_invD(8) [OF inv, of e'] e(2) j(1) by auto
  qed
  moreover have "dead_letters_ok jobs (lg_dead_letters db)"
    using ledger_invD(9) [OF inv] j(1) by (auto simp: dead_letters_ok_def)
  moreover have "row_ok ?new" by (simp add: row_ok_def new_worker_job_def terminal_status_def)
  ultimately show ?thesis
    using envs j ledger_invD [OF inv]
    by (auto simp: ledger_inv_def tab_keyed_snoc)
qed

lemma reclaim_mem:
  assumes inv: "ledger_inv db"
    and row: "tab_first (\<lambda>r. wj_dedupe_key r = k) (lg_jobs db) = Some row"
    and jobs: "reclaim_worker_job k jobId now (lg_jobs db) = Some jobs"
  shows "set jobs = insert (reclaimed_job jobId now row)
           {r \<in> set (lg_jobs db). wj_dedupe_key r \<noteq> k}"
    and "r \<in> set (lg_jobs db) \<Longrightarrow> wj_dedupe_key r \<noteq> k \<Longrightarrow> wj_job_id r \<noteq> jobId"
    and "tab_keyed wj_job_id jobs"
proof -
  have rid: "row \<in> set (lg_jobs db)" "wj_dedupe_key row = k" using tab_first_SomeD [OF row] by auto
  have uniq: "r = row" if "r \<in> set (lg_jobs db)" "wj_dedupe_key r = k" for r
    using tab_keyed_unique [OF ledger_invD(1) [OF inv] that(1) rid(1)] that(2) rid(2) by simp
  have none: "\<And>r. r \<in> set (lg_jobs db) \<Longrightarrow> wj_dedupe_key r \<noteq> k \<Longrightarrow> wj_job_id r \<noteq> jobId"
    and eq: "jobs = tab_update (\<lambda>r. wj_dedupe_key r = k) (reclaimed_job jobId now) (lg_jobs db)"
    using jobs by (auto simp: reclaim_worker_job_def split: if_splits)
  show "r \<in> set (lg_jobs db) \<Longrightarrow> wj_dedupe_key r \<noteq> k \<Longrightarrow> wj_job_id r \<noteq> jobId" by (rule none)
  show "set jobs = insert (reclaimed_job jobId now row)
      {r \<in> set (lg_jobs db). wj_dedupe_key r \<noteq> k}"
    unfolding eq set_tab_update using uniq rid by fastforce
  have "inj_on (\<lambda>r. wj_job_id (if wj_dedupe_key r = k then reclaimed_job jobId now r else r))
      (set (lg_jobs db))"
  proof (rule inj_onI)
    fix x y assume x: "x \<in> set (lg_jobs db)" and y: "y \<in> set (lg_jobs db)"
      and e: "wj_job_id (if wj_dedupe_key x = k then reclaimed_job jobId now x else x)
        = wj_job_id (if wj_dedupe_key y = k then reclaimed_job jobId now y else y)"
    have new: "wj_job_id (reclaimed_job jobId now r) = jobId" for r
      by (simp add: reclaimed_job_def)
    show "x = y"
      using e none [OF x] none [OF y] uniq [OF x] uniq [OF y] new
        tab_keyed_unique [OF ledger_invD(2) [OF inv] x y]
      by (cases "wj_dedupe_key x = k"; cases "wj_dedupe_key y = k") simp_all
  qed
  then show "tab_keyed wj_job_id jobs"
    using ledger_invD(2) [OF inv]
    by (simp add: eq tab_keyed_def tab_update_def distinct_map comp_def)
qed

lemma reclaim_inv:
  assumes inv: "ledger_inv db"
    and row: "tab_first (\<lambda>r. wj_dedupe_key r = k) (lg_jobs db) = Some row"
    and live: "\<not> terminal_status (wj_status row)"
    and jobs: "reclaim_worker_job k jobId now (lg_jobs db) = Some jobs"
  shows "ledger_inv (db\<lparr>lg_jobs := jobs\<rparr>)"
proof -
  let ?new = "reclaimed_job jobId now row"
  note mem = reclaim_mem [OF inv row jobs]
  have rid: "row \<in> set (lg_jobs db)" "wj_dedupe_key row = k" using tab_first_SomeD [OF row] by auto
  have uniq: "r = row" if "r \<in> set (lg_jobs db)" "wj_dedupe_key r = k" for r
    using tab_keyed_unique [OF ledger_invD(1) [OF inv] that(1) rid(1)] that(2) rid(2) by simp
  have new: "wj_job_id ?new = jobId" "wj_status ?new = Processing"
    by (simp_all add: reclaimed_job_def)
  have active: "je_status e = Env_Active"
    if e: "e \<in> set (lg_envelopes db)"
      and "je_job_id e = jobId \<or> je_job_id e \<notin> wj_job_id ` set jobs" for e
  proof (cases "je_job_id e = wj_job_id row")
    case True
    then show ?thesis
      using ledger_invD(7) [OF inv rid(1) e] live by (simp add: envelope_agrees_nonterminal)
  next
    case False
    have "je_job_id e \<notin> wj_job_id ` set (lg_jobs db)"
    proof
      assume "je_job_id e \<in> wj_job_id ` set (lg_jobs db)"
      then obtain r where r: "r \<in> set (lg_jobs db)" "je_job_id e = wj_job_id r" by auto
      then have "wj_dedupe_key r \<noteq> k" using False uniq by metis
      then have "wj_job_id r \<noteq> jobId" and "r \<in> set jobs" using mem(1,2) r(1) by simp_all
      then show False using that(2) r(2) by auto
    qed
    then show ?thesis by (rule ledger_invD(8) [OF inv e])
  qed
  have "envelopes_ok jobs (lg_envelopes db)"
    unfolding envelopes_ok_def
  proof (intro conjI ballI impI)
    fix r e assume r: "r \<in> set jobs" and e: "e \<in> set (lg_envelopes db)"
      and id: "je_job_id e = wj_job_id r"
    show "envelope_agrees r e"
    proof (cases "r = ?new")
      case True
      then show ?thesis using active [OF e] id new
        by (simp add: envelope_agrees_nonterminal terminal_status_def)
    next
      case False
      then have "r \<in> set (lg_jobs db)" using r mem(1) by simp
      then show ?thesis by (rule ledger_invD(7) [OF inv _ e id])
    qed
  next
    fix e assume "e \<in> set (lg_envelopes db)" and "je_job_id e \<notin> wj_job_id ` set jobs"
    then show "je_status e = Env_Active" using active by blast
  qed
  moreover have "dead_letters_ok jobs (lg_dead_letters db)"
    using ledger_invD(9) [OF inv] mem(1) new(2) by (auto simp: dead_letters_ok_def)
  moreover have "\<forall>r\<in>set jobs. row_ok r"
    using ledger_invD(6) [OF inv] row_ok_writes(6) [OF ledger_invD(6) [OF inv rid(1)] live] mem(1)
    by auto
  moreover have "tab_keyed wj_dedupe_key jobs"
    using jobs ledger_invD(1) [OF inv]
    by (auto simp: reclaim_worker_job_def tab_keyed_update row_simps split: if_splits)
  ultimately show ?thesis using mem(3) ledger_invD [OF inv] by (simp add: ledger_inv_def)
qed

lemma prepare_article_envelope_fields:
  "prepare_article_envelope env job t = Inr (Some e)
   \<Longrightarrow> je_job_id e = qj_job_id job \<and> je_dedupe_key e = qj_dedupe_key job
       \<and> je_status e = Env_Active \<and> je_payload_digest e = le_digest env (json_of_job job)
       \<and> encrypt_json (le_vault env) (json_of_job job) (le_key env) = Inr (je_ciphertext e)
       \<and> je_schema_version e = 1"
  by (auto simp: prepare_article_envelope_def split: if_splits sum.splits)

text \<open>The case rules of the two claims.\<close>

lemma insert_claim_InrE:
  assumes "insert_claim env job t db = Inr db'"
  obtains jobs envs e where "db' = db\<lparr>lg_jobs := jobs, lg_envelopes := envs\<rparr>"
    and "insert_worker_job (new_worker_job job t) (lg_jobs db) = Some jobs"
    and "envs = lg_envelopes db \<or> envs = lg_envelopes db @ [e]
        \<and> je_job_id e \<notin> je_job_id ` set (lg_envelopes db)
        \<and> je_dedupe_key e \<notin> je_dedupe_key ` set (lg_envelopes db)"
    and "je_job_id e = qj_job_id job" and "je_status e = Env_Active"
proof -
  obtain envI where prep: "prepare_article_envelope env job t = Inr envI"
    using assms by (auto simp: insert_claim_def split: sum.splits)
  obtain jobs where jobs: "insert_worker_job (new_worker_job job t) (lg_jobs db) = Some jobs"
    using assms prep by (auto simp: insert_claim_def split: option.splits)
  show ?thesis
  proof (cases envI)
    case None
    then have "db' = db\<lparr>lg_jobs := jobs\<rparr>"
      using assms prep jobs by (auto simp: insert_claim_def)
    then have "db' = db\<lparr>lg_jobs := jobs, lg_envelopes := lg_envelopes db\<rparr>" by simp
    moreover obtain e :: job_envelope where "je_job_id e = qj_job_id job" "je_status e = Env_Active"
      by (metis job_envelope.select_convs(1,6))
    ultimately show ?thesis using that jobs by blast
  next
    case (Some e)
    obtain envs where envs: "insert_envelope e (lg_envelopes db) = Some envs"
      using assms prep jobs Some by (auto simp: insert_claim_def split: option.splits)
    then have "db' = db\<lparr>lg_jobs := jobs, lg_envelopes := envs\<rparr>"
      using assms prep jobs Some by (simp add: insert_claim_def)
    then show ?thesis
      using that jobs insert_envelope_SomeD [OF envs]
        prepare_article_envelope_fields [OF prep [unfolded Some]] by blast
  qed
qed

lemma claim_job_inv:
  assumes inv: "ledger_inv db"
  shows "ledger_inv (fst (claim_job env input now db))"
proof (cases "parse_queue_job (le_formats env) input")
  case None
  then show ?thesis using inv by (simp add: claim_job_def)
next
  case job: (Some job)
  show ?thesis
  proof (cases "tab_first (\<lambda>r. wj_dedupe_key r = qj_dedupe_key job) (lg_jobs db)")
    case row: (Some row)
    show ?thesis
    proof (cases "claim_refusal now row")
      case None
      then have "\<not> terminal_status (wj_status row)" by (auto simp: claim_refusal_def)
      then show ?thesis using inv row job None reclaim_inv [OF inv row]
        by (simp add: claim_job_def split: option.split)
    qed (use inv row job in \<open>simp add: claim_job_def\<close>)
  next
    case None
    show ?thesis
    proof (cases "insert_claim env job now db")
      case (Inr db')
      then have "ledger_inv db'" by (elim insert_claim_InrE) (metis insert_job_inv inv)
      then show ?thesis using None job Inr by (simp add: claim_job_def)
    qed (use inv None job in \<open>simp add: claim_job_def\<close>)
  qed
qed

lemma ledger_inv_empty:
  "lg_jobs db = [] \<Longrightarrow> lg_envelopes db = [] \<Longrightarrow> lg_dead_letters db = [] \<Longrightarrow> ledger_inv db"
  by (simp add: ledger_inv_def tab_keyed_def envelopes_ok_def dead_letters_ok_def)

section \<open>The two backends\<close>

definition claim_granted :: "(ledger_error + job_claim) \<Rightarrow> job_claim option" where
  "claim_granted r = (case r of Inl e \<Rightarrow> None | Inr c \<Rightarrow> Some c)"

lemma insert_worker_job_conflict:
  "tab_first (\<lambda>r. wj_dedupe_key r = wj_dedupe_key n) jobs = Some row \<Longrightarrow>
   insert_worker_job n jobs = None"
  by (drule tab_first_SomeD) (metis imageI insert_worker_job_def)

lemma claim_job_agrees:
  assumes "\<forall>r\<in>set (lg_jobs db). safe_integer (wj_attempts r + 1)"
  shows "fst (claim_job_pg env input now db) = fst (claim_job env input now db)
    \<and> claim_granted (snd (claim_job_pg env input now db))
        = claim_granted (snd (claim_job env input now db))"
proof (cases "parse_queue_job (le_formats env) input")
  case None
  then show ?thesis by (simp add: claim_job_def claim_job_pg_def)
next
  case job: (Some job)
  show ?thesis
  proof (cases "tab_first (\<lambda>r. wj_dedupe_key r = qj_dedupe_key job) (lg_jobs db)")
    case row: (Some row)
    have "safe_integer (wj_attempts row + 1)" using assms tab_first_SomeD [OF row] by simp
    moreover have "insert_worker_job (new_worker_job job now) (lg_jobs db) = None"
      using insert_worker_job_conflict [of "new_worker_job job now"] row by simp
    ultimately show ?thesis using job row
      by (simp add: claim_job_def claim_job_pg_def split: option.split)
  next
    case None
    then show ?thesis using job
      by (simp add: claim_job_def claim_job_pg_def insert_claim_def claim_granted_def
          split: option.split sum.split)
  qed
qed

lemma finish_job_agrees:
  assumes "\<forall>r\<in>set (lg_jobs db). wj_failure_attempts r \<le> 3"
  shows "finish_job_pg jobId input now db = finish_job jobId input now db"
proof (cases "tab_first (\<lambda>r. wj_job_id r = jobId) (lg_jobs db)")
  case None
  then show ?thesis by (simp add: finish_job_def finish_job_pg_def)
next
  case (Some row)
  then have "safe_integer (wj_failure_attempts row)"
    using assms tab_first_SomeD [OF Some] by (force simp: safe_integer_def)
  then show ?thesis using Some
    by (cases input)
      (simp_all add: finish_job_def finish_job_pg_def fail_job_def Let_def split: option.split)
qed

section \<open>The interface of a ledger of claims\<close>

text \<open>
  What a worker relies on when it claims: a granted claim is held from that moment, a
  second claim within ten minutes is refused, and a claim leaves other keys alone. The
  client lemma is proved for any such ledger.
\<close>

text \<open>The instants at which a series of claims was granted the key \<open>k\<close>.\<close>

fun claim_grants ::
  "(json \<Rightarrow> instant \<Rightarrow> 's \<Rightarrow> 's \<times> (ledger_error + job_claim)) \<Rightarrow> (json \<Rightarrow> string option)
   \<Rightarrow> string \<Rightarrow> (json \<times> instant) list \<Rightarrow> 's \<Rightarrow> instant list" where
  "claim_grants claim key_of k [] s = []"
| "claim_grants claim key_of k ((j, t) # cs) s =
     (case snd (claim j t s) of
        Inr (Job_Claimed n) \<Rightarrow> if key_of j = Some k then [t] else []
      | _ \<Rightarrow> []) @ claim_grants claim key_of k cs (fst (claim j t s))"

locale job_claims =
  fixes claim :: "json \<Rightarrow> instant \<Rightarrow> 's \<Rightarrow> 's \<times> (ledger_error + job_claim)"
    and holder :: "'s \<Rightarrow> string \<Rightarrow> (job_status \<times> instant) option"
    and key_of :: "json \<Rightarrow> string option"
    and inv :: "'s \<Rightarrow> bool"
  assumes claim_keeps: "inv s \<Longrightarrow> inv (fst (claim j t s))"
    and claim_granted_holds: "inv s \<Longrightarrow> claim j t s = (s', Inr (Job_Claimed n))
      \<Longrightarrow> key_of j = Some k \<Longrightarrow> holder s' k = Some (Processing, t)"
    and claim_busy: "inv s \<Longrightarrow> key_of j = Some k \<Longrightarrow> holder s k = Some (Processing, u)
      \<Longrightarrow> t - u \<le> 600000 \<Longrightarrow> claim j t s = (s, Inr Job_Busy)"
    and claim_other: "inv s \<Longrightarrow> key_of j \<noteq> Some k \<Longrightarrow> holder (fst (claim j t s)) k = holder s k"
    and claim_refused: "inv s \<Longrightarrow> (\<And>n. snd (claim j t s) \<noteq> Inr (Job_Claimed n))
      \<Longrightarrow> fst (claim j t s) = s"
begin

abbreviation "grants \<equiv> claim_grants claim key_of"

lemma grants_after:
  assumes "inv s" and "holder s k = Some (Processing, u)" and "sorted_wrt (\<le>) (map snd cs)"
  shows "sorted_wrt (\<lambda>a b. b - a > 600000) (u # grants k cs s)"
  using assms
proof (induction cs arbitrary: s u)
  case (Cons c cs)
  obtain j t where c: "c = (j, t)" by force
  obtain s' r where step: "claim j t s = (s', r)" by force
  have inv': "inv s'" using claim_keeps [OF Cons.prems(1), of j t] step by simp
  have rest: "sorted_wrt (\<le>) (map snd cs)" using Cons.prems(3) by simp
  show ?case
  proof (cases "key_of j = Some k")
    case False
    have "holder s' k = Some (Processing, u)"
      using claim_other [OF Cons.prems(1) False, of t] step Cons.prems(2) by simp
    from Cons.IH [OF inv' this rest] show ?thesis
      using False by (simp add: c step split: sum.split job_claim.split)
  next
    case key: True
    show ?thesis
    proof (cases "\<exists>n. r = Inr (Job_Claimed n)")
      case False
      then have "s' = s" using claim_refused [OF Cons.prems(1), of j t] step by auto
      with Cons.IH [OF Cons.prems(1,2) rest] False show ?thesis
        by (auto simp: c step split: sum.split job_claim.split)
    next
      case True
      then obtain n where n: "r = Inr (Job_Claimed n)" by blast
      have "\<not> t - u \<le> 600000"
        using claim_busy [OF Cons.prems(1) key Cons.prems(2), of t] step n by auto
      then have gap: "t - u > 600000" by simp
      have "holder s' k = Some (Processing, t)"
        using claim_granted_holds [OF Cons.prems(1) _ key] step n by blast
      from Cons.IH [OF inv' this rest] gap show ?thesis
        by (auto simp: c step n key)
    qed
  qed
qed simp

lemma grants_spaced:
  assumes "inv s" and "sorted_wrt (\<le>) (map snd cs)"
  shows "sorted_wrt (\<lambda>a b. b - a > 600000) (grants k cs s)"
  using assms
proof (induction cs arbitrary: s)
  case (Cons c cs)
  obtain j t where c: "c = (j, t)" by force
  obtain s' r where step: "claim j t s = (s', r)" by force
  have inv': "inv s'" using claim_keeps [OF Cons.prems(1), of j t] step by simp
  have rest: "sorted_wrt (\<le>) (map snd cs)" using Cons.prems(2) by simp
  show ?case
  proof (cases "key_of j = Some k \<and> (\<exists>n. r = Inr (Job_Claimed n))")
    case True
    then obtain n where n: "r = Inr (Job_Claimed n)" and key: "key_of j = Some k" by blast
    have "holder s' k = Some (Processing, t)"
      using claim_granted_holds [OF Cons.prems(1) _ key] step n by blast
    from grants_after [OF inv' this rest] show ?thesis by (simp add: c step n key)
  next
    case False
    with Cons.IH [OF inv' rest] show ?thesis
      by (auto simp: c step split: sum.split job_claim.split)
  qed
qed simp

end

definition job_holder :: "'a ledger_scheme \<Rightarrow> string \<Rightarrow> (job_status \<times> instant) option" where
  "job_holder db k = map_option (\<lambda>r. (wj_status r, wj_updated_at r))
     (tab_first (\<lambda>r. wj_dedupe_key r = k) (lg_jobs db))"

definition job_key :: "ledger_env \<Rightarrow> json \<Rightarrow> string option" where
  "job_key env input = map_option qj_dedupe_key (parse_queue_job (le_formats env) input)"

interpretation reclaiming: row_write wj_dedupe_key "reclaimed_job j t" for j t
  by unfold_locales (simp add: row_simps)

lemma claim_job_granted:
  assumes "claim_job env input t db = (db', Inr (Job_Claimed n))"
  obtains job where "parse_queue_job (le_formats env) input = Some job"
    and "job_holder db' (qj_dedupe_key job) = Some (Processing, t)"
    and "\<And>k. k \<noteq> qj_dedupe_key job \<Longrightarrow> job_holder db' k = job_holder db k"
proof -
  obtain job where job: "parse_queue_job (le_formats env) input = Some job"
    using assms by (auto simp: claim_job_def split: option.splits)
  let ?k = "qj_dedupe_key job"
  show ?thesis
  proof (cases "tab_first (\<lambda>r. wj_dedupe_key r = ?k) (lg_jobs db)")
    case row: (Some row)
    then have "claim_refusal t row = None"
      using assms job by (auto simp: claim_job_def claim_refusal_def split: option.splits if_splits)
    then obtain jobs where "reclaim_worker_job ?k (qj_job_id job) t (lg_jobs db) = Some jobs"
        and "db' = db\<lparr>lg_jobs := jobs\<rparr>"
      using assms job row by (auto simp: claim_job_def split: option.splits)
    then have "lg_jobs db' = tab_update (\<lambda>r. wj_dedupe_key r = ?k)
        (reclaimed_job (qj_job_id job) t) (lg_jobs db)"
      by (auto simp: reclaim_worker_job_def split: if_splits)
    then show ?thesis using that [OF job] row
      by (simp add: job_holder_def reclaiming.first_update_same reclaiming.first_update_other)
        (simp add: reclaimed_job_def)
  next
    case None
    then obtain db'' where ins: "insert_claim env job t db = Inr db''" "db' = db''"
      using assms job by (auto simp: claim_job_def split: sum.splits)
    from ins(1) obtain jobs where
        "insert_worker_job (new_worker_job job t) (lg_jobs db) = Some jobs" and "lg_jobs db' = jobs"
      by (rule insert_claim_InrE) (simp add: ins(2))
    then have "lg_jobs db' = lg_jobs db @ [new_worker_job job t]"
      using insert_worker_job_SomeD by blast
    then show ?thesis using that [OF job] None
      by (simp add: job_holder_def tab_first_append split: option.split)
  qed
qed

lemma claim_job_refused:
  "(\<And>n. snd (claim_job env input t db) \<noteq> Inr (Job_Claimed n)) \<Longrightarrow>
   fst (claim_job env input t db) = db"
proof -
  have "fst (claim_job env input t db) = db
      \<or> (\<exists>n. snd (claim_job env input t db) = Inr (Job_Claimed n))"
    by (simp add: claim_job_def split: option.split sum.split)
  then show "(\<And>n. snd (claim_job env input t db) \<noteq> Inr (Job_Claimed n)) \<Longrightarrow>
      fst (claim_job env input t db) = db" by blast
qed

lemma claim_job_busy:
  assumes "job_key env input = Some k" and "job_holder db k = Some (Processing, u)"
    and "t - u \<le> 600000"
  shows "claim_job env input t db = (db, Inr Job_Busy)"
    and "claim_job_pg env input t db = (db, Inr Job_Busy)"
proof -
  obtain job row where job: "parse_queue_job (le_formats env) input = Some job"
      "qj_dedupe_key job = k"
    and row: "tab_first (\<lambda>r. wj_dedupe_key r = k) (lg_jobs db) = Some row"
      "wj_status row = Processing" "wj_updated_at row = u"
    using assms(1,2) by (auto simp: job_key_def job_holder_def)
  have ref: "claim_refusal t row = Some Job_Busy"
    using row assms(3) by (simp add: claim_refusal_def terminal_status_def is_stale_def)
  have "insert_worker_job (new_worker_job job t) (lg_jobs db) = None"
    using insert_worker_job_conflict [of "new_worker_job job t"] row(1) job(2) by simp
  then show "claim_job env input t db = (db, Inr Job_Busy)"
    and "claim_job_pg env input t db = (db, Inr Job_Busy)"
    using job row ref by (simp_all add: claim_job_def claim_job_pg_def)
qed

lemma claim_job_pg_cases:
  "claim_job_pg env input t db = claim_job env input t db
   \<or> (\<exists>e. claim_job_pg env input t db = (db, Inl e))"
proof (cases "parse_queue_job (le_formats env) input")
  case None
  then show ?thesis by (simp add: claim_job_def claim_job_pg_def)
next
  case job: (Some job)
  show ?thesis
  proof (cases "tab_first (\<lambda>r. wj_dedupe_key r = qj_dedupe_key job) (lg_jobs db)")
    case row: (Some row)
    have "insert_worker_job (new_worker_job job t) (lg_jobs db) = None"
      using insert_worker_job_conflict [of "new_worker_job job t"] row by simp
    then show ?thesis using job row
      by (simp add: claim_job_def claim_job_pg_def split: option.split)
  next
    case None
    then show ?thesis using job
      by (simp add: claim_job_def claim_job_pg_def insert_claim_def split: option.split sum.split)
  qed
qed

lemma claim_job_other:
  assumes "job_key env j \<noteq> Some k"
  shows "job_holder (fst (claim_job env j t db)) k = job_holder db k"
proof (cases "\<exists>n. snd (claim_job env j t db) = Inr (Job_Claimed n)")
  case True
  then obtain n where "claim_job env j t db = (fst (claim_job env j t db), Inr (Job_Claimed n))"
    by (metis prod.collapse)
  from this show ?thesis
    by (rule claim_job_granted) (metis assms job_key_def option.map(2))
next
  case False
  then have "fst (claim_job env j t db) = db" by (intro claim_job_refused) blast
  then show ?thesis by simp
qed

interpretation d1_claims: job_claims "claim_job env" "job_holder :: ledger \<Rightarrow> _" "job_key env"
    ledger_inv for env
proof
  fix s s' :: ledger and j t n k u
  show "ledger_inv s \<Longrightarrow> ledger_inv (fst (claim_job env j t s))" by (rule claim_job_inv)
  show "claim_job env j t s = (s', Inr (Job_Claimed n)) \<Longrightarrow> job_key env j = Some k \<Longrightarrow>
      job_holder s' k = Some (Processing, t)"
    by (erule claim_job_granted) (simp add: job_key_def)
  show "job_key env j \<noteq> Some k \<Longrightarrow> job_holder (fst (claim_job env j t s)) k = job_holder s k"
    by (rule claim_job_other)
  show "(\<And>n. snd (claim_job env j t s) \<noteq> Inr (Job_Claimed n)) \<Longrightarrow>
      fst (claim_job env j t s) = s"
    by (rule claim_job_refused)
qed (rule claim_job_busy(1))

interpretation pg_claims: job_claims "claim_job_pg env" "job_holder :: ledger \<Rightarrow> _" "job_key env"
    ledger_inv for env
proof
  fix s s' :: ledger and j t n k u
  note cases = claim_job_pg_cases [of env j t s]
  show "ledger_inv s \<Longrightarrow> ledger_inv (fst (claim_job_pg env j t s))"
    using cases claim_job_inv [of s env j t] by force
  show "job_holder s' k = Some (Processing, t)"
    if "claim_job_pg env j t s = (s', Inr (Job_Claimed n))" "job_key env j = Some k"
  proof -
    have "claim_job env j t s = (s', Inr (Job_Claimed n))" using cases that by force
    then show ?thesis using that(2) by (elim claim_job_granted) (simp add: job_key_def)
  qed
  show "job_key env j \<noteq> Some k \<Longrightarrow> job_holder (fst (claim_job_pg env j t s)) k = job_holder s k"
    using cases claim_job_other [of env j k t s] by force
  show "fst (claim_job_pg env j t s) = s"
    if "\<And>n. snd (claim_job_pg env j t s) \<noteq> Inr (Job_Claimed n)"
    using cases claim_job_refused [of env j t s] that by force
qed (rule claim_job_busy(2))

section \<open>Lemmas on the outcome\<close>

lemma fail_job_cases:
  fixes row cls
  defines "n \<equiv> wj_failure_attempts row + 1" and "c \<equiv> nullish cls Permanent"
  shows "c = Retryable \<and> n \<le> 2
      \<and> snd (fail_job jobId row cls m d now db) = Inr (Settle_Retry (retry_backoff_seconds n))
      \<and> lg_jobs (fst (fail_job jobId row cls m d now db)) = tab_update (\<lambda>r. wj_job_id r = jobId)
          (failed_job n c (js_slice 500 (nullish m ''worker job failed'')) now) (lg_jobs db)
      \<and> lg_dead_letters (fst (fail_job jobId row cls m d now db)) = lg_dead_letters db
    \<or> (c = Permanent \<or> n \<ge> 3) \<and> fail_job jobId row cls m d now db = (db, Inl Digest_Required)
      \<and> dead_letter_digest (tab_first (\<lambda>e. je_job_id e = jobId) (lg_envelopes db)) d = None
    \<or> (c = Permanent \<or> n \<ge> 3) \<and> snd (fail_job jobId row cls m d now db) = Inr Settle_Ack
      \<and> lg_jobs (fst (fail_job jobId row cls m d now db)) = tab_update (\<lambda>r. wj_job_id r = jobId)
          (dead_job n c (js_slice 500 (nullish m ''worker job failed'')) now) (lg_jobs db)
      \<and> (\<exists>dl\<in>set (lg_dead_letters (fst (fail_job jobId row cls m d now db))).
            dl_job_id dl = jobId \<and> dl_attempts dl = n \<and> dl_error_class dl = c
            \<and> Some (dl_payload_digest dl)
                = dead_letter_digest (tab_first (\<lambda>e. je_job_id e = jobId) (lg_envelopes db)) d)"
proof (cases "c = Permanent \<or> n \<ge> 3")
  case False
  then have "c = Retryable" by (cases c) simp_all
  with False show ?thesis by (simp add: fail_job_def Let_def n_def c_def)
next
  case True
  define env where "env = tab_first (\<lambda>e. je_job_id e = jobId) (lg_envelopes db)"
  show ?thesis
  proof (cases "dead_letter_digest env d")
    case None
    with True show ?thesis by (simp add: fail_job_def Let_def n_def c_def env_def)
  next
    case (Some digest)
    define dl where "dl = new_dead_letter jobId row n c
      (js_slice 500 (nullish m ''worker job failed'')) digest env now"
    have "\<exists>x\<in>set (tab_upsert dl_job_id merge_dead_letter dl (lg_dead_letters db)).
        dl_job_id x = dl_job_id dl
        \<and> (dl_attempts x = n \<and> dl_error_class x = c \<and> dl_payload_digest x = digest)"
      by (rule tab_upsert_has) (simp_all add: dl_def new_dead_letter_def merge_dead_letter_def)
    moreover have "dl_job_id dl = jobId" by (simp add: dl_def new_dead_letter_def)
    moreover have "fst (fail_job jobId row cls m d now db) = db
        \<lparr>lg_jobs := tab_update (\<lambda>r. wj_job_id r = jobId)
           (dead_job n c (js_slice 500 (nullish m ''worker job failed'')) now) (lg_jobs db),
         lg_dead_letters := tab_upsert dl_job_id merge_dead_letter dl (lg_dead_letters db),
         lg_envelopes := tab_update (\<lambda>e. je_job_id e = jobId) (mark_envelope Env_Dead now)
           (lg_envelopes db),
         lg_sync_jobs := sync_job_completion row
           (Some (js_slice 500 (nullish m ''worker job failed''))) None Sync_Failed now
           (lg_sync_jobs db)\<rparr>"
      and "snd (fail_job jobId row cls m d now db) = Inr Settle_Ack"
      using True Some unfolding dl_def n_def c_def env_def by (simp_all add: fail_job_def Let_def)
    ultimately show ?thesis using True Some by (auto simp: env_def)
  qed
qed

lemma retry_backoff_first:
  "retry_backoff_seconds 1 = 30" "retry_backoff_seconds 2 = 30 * 2"
  by (simp_all add: retry_backoff_seconds_def)

lemma parse_collect_key_build:
  assumes "source \<noteq> []" and "CHR '':'' \<notin> set source" and "run \<noteq> []"
    and "CHR 0x0A \<notin> set run" and "CHR 0x0D \<notin> set run"
  shows "parse_collect_key (''collect:'' @ source @ '':'' @ run) = Some (source, run)"
proof -
  have "takeWhile (\<lambda>c. c \<noteq> CHR '':'') (source @ CHR '':'' # run) = source"
    and "dropWhile (\<lambda>c. c \<noteq> CHR '':'') (source @ CHR '':'' # run) = CHR '':'' # run"
    using assms(2) by (simp_all add: takeWhile_append dropWhile_append)
  then show ?thesis using assms by (simp add: parse_collect_key_def)
qed

lemma source_string_plain: "source_string s \<noteq> [] \<and> CHR '':'' \<notin> set (source_string s)"
  by (cases s) simp_all

section \<open>Properties\<close>


definition sample_ledger_env :: "json \<Rightarrow> ledger_env" where
  "sample_ledger_env v = \<lparr>le_formats = sample_formats, le_vault = sample_vault v, le_key = ''key'',
     le_digest = (\<lambda>_. ''digest'')\<rparr>"

definition empty_ledger :: ledger where
  "empty_ledger = \<lparr>lg_jobs = [], lg_envelopes = [], lg_dead_letters = [], lg_sync_jobs = []\<rparr>"

definition sample_article_job :: "string \<Rightarrow> queue_job" where
  "sample_article_job jobId =
     \<lparr>qj_created_at = ''2026-01-01T00:00:00Z'', qj_dedupe_key = ''article'', qj_job_id = jobId,
      qj_payload = Dispatch_Item (Article_Item \<lparr>article_requested_at = ''2026-01-01T00:00:00Z'',
        article_tags = None, article_title = None, article_url = ''https://x''\<rparr>)\<rparr>"

lemma sample_article_ok:
  "jobId \<noteq> [] \<Longrightarrow>
   parse_queue_job sample_formats (json_of_job (sample_article_job jobId))
     = Some (sample_article_job jobId)"
  by (rule parse_json_of_job)
    (simp add: job_ok_def sample_article_job_def sample_formats_def tags_ok_def)



definition sample_row :: "nat \<Rightarrow> worker_job" where
  "sample_row failures = (new_worker_job (sample_article_job ''a'') 0)
     \<lparr>wj_failure_attempts := failures\<rparr>"

lemma sample_row_inv: "failures \<le> 2 \<Longrightarrow> ledger_inv (empty_ledger\<lparr>lg_jobs := [sample_row failures]\<rparr>)"
  by (simp add: ledger_inv_def tab_keyed_def envelopes_ok_def dead_letters_ok_def empty_ledger_def
      sample_row_def row_ok_def new_worker_job_def terminal_status_def)


text \<open>The end of a collection job reaches its run: finishing the job that was built for
  a source of a run advances that run, and only that run, by the report of the source.\<close>

lemma collection_reports_to_its_run:
  assumes "tab_first (\<lambda>r. wj_job_id r = jobId) (lg_jobs db) = Some row"
    and "\<not> terminal_status (wj_status row)" and "wj_kind row = ''collect-source''"
    and "wj_dedupe_key row = ''collect:'' @ source_string source @ '':'' @ run"
    and "run \<noteq> []" and "CHR 0x0A \<notin> set run" and "CHR 0x0D \<notin> set run"
    and "tab_keyed sy_id (lg_sync_jobs db)" and "s \<in> set (lg_sync_jobs db)"
  shows "\<exists>s'. tab_first (\<lambda>x. sy_id x = sy_id s)
        (lg_sync_jobs (fst (finish_job jobId (Result_Done summary) now db))) = Some s'
    \<and> (sy_id s \<noteq> run \<longrightarrow> s' = s)
    \<and> (sy_id s = run \<longrightarrow>
        (let adv = advance_sync_job (sy_stats s) \<lparr>su_error_message = None, su_finished_at = now,
               su_source = source_string source, su_status = Sync_Done, su_summary = summary\<rparr>
         in sy_stats s' = sa_stats adv \<and> sy_status s' = run_status_string (sa_status adv)
            \<and> sy_finished_at s' = sa_finished_at adv))"
proof -
  have key: "parse_collect_key (wj_dedupe_key row) = Some (source_string source, run)"
    using source_string_plain [of source] assms(5-7)
    by (simp only: assms(4)) (rule parse_collect_key_build, simp_all)
  have first: "tab_first (\<lambda>x. sy_id x = sy_id s) (lg_sync_jobs db) = Some s"
    by (rule tab_first_keyed [OF assms(8,9)]) simp
  let ?f = "\<lambda>old x. (complete_sync_row (source_string source) None summary Sync_Done now old)
      \<lparr>sy_id := sy_id x, sy_started_at := sy_started_at x, sy_triggered_by := sy_triggered_by x\<rparr>"
  have fin: "lg_sync_jobs (fst (finish_job jobId (Result_Done summary) now db))
      = (case tab_first (\<lambda>x. sy_id x = run) (lg_sync_jobs db) of
           None \<Rightarrow> lg_sync_jobs db
         | Some old \<Rightarrow> tab_update (\<lambda>x. sy_id x = run) (?f old) (lg_sync_jobs db))"
    using assms(1,2,3) key by (simp add: finish_job_def sync_job_completion_def)
  show ?thesis
  proof (cases "sy_id s = run")
    case True
    have "tab_first (\<lambda>x. sy_id x = run) (tab_update (\<lambda>x. sy_id x = run) (?f s) (lg_sync_jobs db))
        = Some (?f s s)"
      using tab_first_mapped [of sy_id "?f s" run "lg_sync_jobs db"] first True by simp
    then show ?thesis using first True
      by (simp add: fin complete_sync_row_def Let_def)
  next
    case False
    have "tab_first (\<lambda>x. sy_id x = sy_id s)
        (tab_update (\<lambda>x. sy_id x = run) (?f old) (lg_sync_jobs db)) = Some s" for old
      using row_write.first_update_other [OF row_write.intro, of sy_id "?f old" "sy_id s" run
          "lg_sync_jobs db"] first False by simp
    then show ?thesis using False first by (simp add: fin split: option.split)
  qed
qed

end
