(* ===== verification/Effect_Ledger.thy ===== *)
theory Effect_Ledger
  imports Job_Ledger
begin

text \<open>
  The ledger of external effects: \<open>claimEffect\<close> and \<open>finishEffect\<close> of
  \<open>apps/api/src/control-plane.ts\<close> (D1) and of \<open>control-plane-postgres-effects.ts\<close>. An
  effect key names one delivery to one destination; a worker claims it before it delivers
  and reports the outcome after. The clock is read once per operation.
\<close>

section \<open>Definitions\<close>

datatype effect_status = Effect_Processing | Effect_Done | Effect_Failed | Effect_Uncertain

record effect_row =
  er_effect_key :: string
  er_job_id :: string
  er_destination :: string
  er_status :: effect_status
  er_attempts :: nat
  er_error_class :: "error_class option"
  er_error_message :: "string option"
  er_updated_at :: instant
  er_finished_at :: "instant option"

record effect_claim_input =
  ec_destination :: string
  ec_effect_key :: string
  ec_job_id :: string

datatype effect_claim =
    Claim_Granted nat
  | Claim_Busy instant
  | Claim_Done
  | Claim_Uncertain

datatype effect_outcome = Outcome_Effect_Done | Outcome_Effect_Failed | Outcome_Effect_Uncertain

record effect_report =
  ef_error_class :: "error_class option"
  ef_error_message :: "string option"
  ef_status :: effect_outcome

definition effect_refusal :: "instant \<Rightarrow> effect_row \<Rightarrow> effect_claim option" where
  "effect_refusal now existing =
     (if er_status existing = Effect_Done then Some Claim_Done
      else if er_status existing = Effect_Uncertain then Some Claim_Uncertain
      else if er_status existing = Effect_Processing \<and> \<not> is_stale (er_updated_at existing) now
      then Some (Claim_Busy (er_updated_at existing + 10 * 60000))
      else None)"

definition reclaimed_effect :: "nat \<Rightarrow> instant \<Rightarrow> effect_row \<Rightarrow> effect_row" where
  "reclaimed_effect attempts timestamp r =
     r\<lparr>er_attempts := attempts, er_status := Effect_Processing, er_error_class := None,
       er_error_message := None, er_updated_at := timestamp, er_finished_at := None\<rparr>"

definition new_effect :: "effect_claim_input \<Rightarrow> instant \<Rightarrow> effect_row" where
  "new_effect input timestamp =
     \<lparr>er_effect_key = ec_effect_key input, er_job_id = ec_job_id input,
      er_destination = ec_destination input, er_status = Effect_Processing, er_attempts = 1,
      er_error_class = None, er_error_message = None, er_updated_at = timestamp,
      er_finished_at = None\<rparr>"

text \<open>Over D1: select, then update or insert.\<close>

definition claim_effect ::
  "effect_claim_input \<Rightarrow> instant \<Rightarrow> effect_row list \<Rightarrow> effect_row list \<times> effect_claim" where
  "claim_effect input now effects =
     (case tab_first (\<lambda>r. er_effect_key r = ec_effect_key input) effects of
        Some existing \<Rightarrow>
          (case effect_refusal now existing of
             Some c \<Rightarrow> (effects, c)
           | None \<Rightarrow>
               (let attempts = er_attempts existing + 1
                in (tab_update (\<lambda>r. er_effect_key r = ec_effect_key input)
                      (reclaimed_effect attempts now) effects,
                    Claim_Granted attempts)))
      | None \<Rightarrow> (effects @ [new_effect input now], Claim_Granted 1))"

text \<open>
  Over PostgreSQL: insert unless the key is there, and only then read the row. \<open>None\<close> is the
  error of a row that disappeared under the lock.
\<close>

definition claim_effect_pg ::
  "effect_claim_input \<Rightarrow> instant \<Rightarrow> effect_row list \<Rightarrow> (effect_row list \<times> effect_claim) option" where
  "claim_effect_pg input now effects =
     (let inserted = tab_insert_ignore er_effect_key (new_effect input now) effects
      in if length inserted \<noteq> length effects then Some (inserted, Claim_Granted 1)
         else case tab_first (\<lambda>r. er_effect_key r = ec_effect_key input) inserted of
             None \<Rightarrow> None
           | Some existing \<Rightarrow>
               (case effect_refusal now existing of
                  Some c \<Rightarrow> Some (inserted, c)
                | None \<Rightarrow>
                    (let updated = tab_update (\<lambda>r. er_effect_key r = ec_effect_key input)
                           (\<lambda>r. reclaimed_effect (er_attempts r + 1) now r) inserted
                     in case tab_first (\<lambda>r. er_effect_key r = ec_effect_key input) updated of
                          None \<Rightarrow> None
                        | Some row \<Rightarrow> Some (updated, Claim_Granted (er_attempts row)))))"

fun outcome_status :: "effect_outcome \<Rightarrow> effect_status" where
  "outcome_status Outcome_Effect_Done = Effect_Done"
| "outcome_status Outcome_Effect_Failed = Effect_Failed"
| "outcome_status Outcome_Effect_Uncertain = Effect_Uncertain"

definition finished_effect :: "effect_report \<Rightarrow> instant \<Rightarrow> effect_row \<Rightarrow> effect_row" where
  "finished_effect input now r =
     r\<lparr>er_status := outcome_status (ef_status input), er_error_class := ef_error_class input,
       er_error_message := map_option (js_slice 500) (ef_error_message input),
       er_updated_at := now,
       er_finished_at := (if ef_status input = Outcome_Effect_Failed then None else Some now)\<rparr>"

definition finish_effect ::
  "string \<Rightarrow> effect_report \<Rightarrow> instant \<Rightarrow> effect_row list \<Rightarrow> effect_row list" where
  "finish_effect effectKey input now effects =
     tab_update (\<lambda>r. er_effect_key r = effectKey) (finished_effect input now) effects"

section \<open>Lemmas\<close>

lemma effect_writes_keep_key [row_simps]:
  "er_effect_key (reclaimed_effect n t r) = er_effect_key r"
  "er_effect_key (finished_effect i t r) = er_effect_key r"
  "er_job_id (reclaimed_effect n t r) = er_job_id r"
  "er_job_id (finished_effect i t r) = er_job_id r"
  by (simp_all add: reclaimed_effect_def finished_effect_def)

interpretation effect_reclaim: row_write er_effect_key "reclaimed_effect n t" for n t
  by unfold_locales (simp add: row_simps)

interpretation effect_finish: row_write er_effect_key "finished_effect i t" for i t
  by unfold_locales (simp add: row_simps)

definition effect_state :: "effect_row list \<Rightarrow> string \<Rightarrow> (effect_status \<times> instant) option" where
  "effect_state effects k = map_option (\<lambda>r. (er_status r, er_updated_at r))
     (tab_first (\<lambda>r. er_effect_key r = k) effects)"

definition effect_inv :: "effect_row list \<Rightarrow> bool" where
  "effect_inv effects =
     (tab_keyed er_effect_key effects
      \<and> (\<forall>r\<in>set effects. 1 \<le> er_attempts r
           \<and> (er_finished_at r \<noteq> None \<longleftrightarrow> er_status r \<in> {Effect_Done, Effect_Uncertain})))"

lemma claim_effect_agrees:
  assumes "tab_keyed er_effect_key effects"
  shows "claim_effect_pg input now effects = Some (claim_effect input now effects)"
proof (cases "tab_first (\<lambda>r. er_effect_key r = ec_effect_key input) effects")
  case None
  then have "ec_effect_key input \<notin> er_effect_key ` set effects" by (auto simp: tab_first_None)
  with None show ?thesis
    by (simp add: claim_effect_pg_def claim_effect_def tab_insert_ignore_def new_effect_def)
next
  case (Some existing)
  then have mem: "existing \<in> set effects" "er_effect_key existing = ec_effect_key input"
    using tab_first_SomeD [OF Some] by auto
  then have "ec_effect_key input \<in> er_effect_key ` set effects" by force
  then have ins: "tab_insert_ignore er_effect_key (new_effect input now) effects = effects"
    by (simp add: tab_insert_ignore_def new_effect_def)
  have same: "tab_update (\<lambda>r. er_effect_key r = ec_effect_key input)
        (\<lambda>r. reclaimed_effect (er_attempts r + 1) now r) effects
      = tab_update (\<lambda>r. er_effect_key r = ec_effect_key input)
        (reclaimed_effect (er_attempts existing + 1) now) effects"
    unfolding tab_update_def
    using tab_keyed_unique [OF assms _ mem(1)] mem(2) by (intro map_cong) auto
  show ?thesis
    unfolding claim_effect_pg_def claim_effect_def ins same Let_def Some
    by (simp add: effect_reclaim.first_update_same Some split: option.split)
      (simp add: reclaimed_effect_def)
qed

lemma claim_effect_state:
  "effect_state (fst (claim_effect input now effects)) k =
     (if k = ec_effect_key input \<and> (\<exists>n. snd (claim_effect input now effects) = Claim_Granted n)
      then Some (Effect_Processing, now) else effect_state effects k)"
proof (cases "tab_first (\<lambda>r. er_effect_key r = ec_effect_key input) effects")
  case None
  then show ?thesis
    by (auto simp: claim_effect_def effect_state_def tab_first_append new_effect_def
        split: option.split)
next
  case (Some existing)
  show ?thesis
  proof (cases "effect_refusal now existing")
    case None
    with Some show ?thesis
      by (cases "k = ec_effect_key input")
        (simp_all add: claim_effect_def effect_state_def Let_def effect_reclaim.first_update_same
          effect_reclaim.first_update_other, simp add: reclaimed_effect_def)
  next
    case (Some c)
    then have "c \<noteq> Claim_Granted n" for n by (auto simp: effect_refusal_def split: if_splits)
    with Some \<open>tab_first _ _ = Some existing\<close> show ?thesis by (simp add: claim_effect_def)
  qed
qed

lemma finish_effect_state:
  "effect_state (finish_effect key input now effects) k =
     (if k = key \<and> effect_state effects k \<noteq> None
      then Some (outcome_status (ef_status input), now) else effect_state effects k)"
  by (cases "k = key")
    (simp_all add: finish_effect_def effect_state_def effect_finish.first_update_same
      effect_finish.first_update_other option.map_comp comp_def, simp add: finished_effect_def
      split: option.split)

section \<open>The interface of an effect store\<close>

datatype effect_event =
    Ev_Claim effect_claim_input instant
  | Ev_Report string effect_report instant

text \<open>What a history shows of one key: when it was granted, and what was reported of it.\<close>

datatype effect_trace = Tr_Granted instant | Tr_Reported effect_outcome

fun effect_history ::
  "(effect_claim_input \<Rightarrow> instant \<Rightarrow> 's \<Rightarrow> ('s \<times> effect_claim) option)
   \<Rightarrow> (string \<Rightarrow> effect_report \<Rightarrow> instant \<Rightarrow> 's \<Rightarrow> 's)
   \<Rightarrow> string \<Rightarrow> effect_event list \<Rightarrow> 's \<Rightarrow> effect_trace list" where
  "effect_history claim finish k [] s = []"
| "effect_history claim finish k (Ev_Claim i t # es) s =
     (case claim i t s of
        None \<Rightarrow> effect_history claim finish k es s
      | Some (s', Claim_Granted n) \<Rightarrow>
          (if ec_effect_key i = k then [Tr_Granted t] else [])
            @ effect_history claim finish k es s'
      | Some (s', _) \<Rightarrow> effect_history claim finish k es s')"
| "effect_history claim finish k (Ev_Report key r t # es) s =
     (if key = k then [Tr_Reported (ef_status r)] else [])
       @ effect_history claim finish k es (finish key r t s)"

text \<open>
  A grant is justified when the key was never granted before, when a failure has been
  reported since the prev grant, or when that grant is more than ten minutes old.
\<close>

fun grants_justified :: "(instant \<times> bool) option \<Rightarrow> effect_trace list \<Rightarrow> bool" where
  "grants_justified prev [] = True"
| "grants_justified prev (Tr_Granted t # es) =
     ((case prev of None \<Rightarrow> True | Some (u, failed) \<Rightarrow> failed \<or> t - u > 600000)
      \<and> grants_justified (Some (t, False)) es)"
| "grants_justified prev (Tr_Reported o' # es) =
     grants_justified (case prev of
         Some (u, failed) \<Rightarrow> Some (u, failed \<or> o' = Outcome_Effect_Failed)
       | None \<Rightarrow> None) es"

locale effect_store =
  fixes claim :: "effect_claim_input \<Rightarrow> instant \<Rightarrow> 's \<Rightarrow> ('s \<times> effect_claim) option"
    and finish :: "string \<Rightarrow> effect_report \<Rightarrow> instant \<Rightarrow> 's \<Rightarrow> 's"
    and state :: "'s \<Rightarrow> string \<Rightarrow> (effect_status \<times> instant) option"
    and inv :: "'s \<Rightarrow> bool"
  assumes claim_total: "inv s \<Longrightarrow> \<exists>s' c. claim i t s = Some (s', c) \<and> inv s'"
    and claim_state: "inv s \<Longrightarrow> claim i t s = Some (s', c) \<Longrightarrow> state s' k =
      (if k = ec_effect_key i \<and> (\<exists>n. c = Claim_Granted n) then Some (Effect_Processing, t)
       else state s k)"
    and claim_held: "inv s \<Longrightarrow> claim i t s = Some (s', Claim_Granted n) \<Longrightarrow>
      (case state s (ec_effect_key i) of
         None \<Rightarrow> True
       | Some (Effect_Processing, u) \<Rightarrow> t - u > 600000
       | Some (st, u) \<Rightarrow> st = Effect_Failed)"
    and finish_inv: "inv s \<Longrightarrow> inv (finish key r t s)"
    and finish_state: "inv s \<Longrightarrow> state (finish key r t s) k =
      (if k = key \<and> state s k \<noteq> None then Some (outcome_status (ef_status r), t) else state s k)"
begin

text \<open>What the store knows of a key agrees with what the history has shown so far.\<close>

definition known :: "(instant \<times> bool) option \<Rightarrow> (effect_status \<times> instant) option \<Rightarrow> bool" where
  "known prev st =
     (case prev of
        None \<Rightarrow> True
      | Some (u, failed) \<Rightarrow>
          (case st of
             None \<Rightarrow> False
           | Some (Effect_Processing, v) \<Rightarrow> v = u
           | Some (Effect_Failed, v) \<Rightarrow> failed
           | Some (_, v) \<Rightarrow> True))"

lemma history_justified:
  assumes "inv s" and "known prev (state s k)"
  shows "grants_justified prev (effect_history claim finish k es s)"
  using assms
proof (induction es arbitrary: s prev)
  case (Cons e es)
  show ?case
  proof (cases e)
    case (Ev_Claim i t)
    obtain s' c where step: "claim i t s = Some (s', c)" and inv': "inv s'"
      using claim_total [OF Cons.prems(1), of i t] by blast
    note st = claim_state [OF Cons.prems(1) step]
    show ?thesis
    proof (cases "ec_effect_key i = k \<and> (\<exists>n. c = Claim_Granted n)")
      case True
      then obtain n where n: "c = Claim_Granted n" and key: "ec_effect_key i = k" by blast
      have "known (Some (t, False)) (state s' k)" using st [of k] n key by (simp add: known_def)
      moreover have "case prev of None \<Rightarrow> True | Some (u, failed) \<Rightarrow> failed \<or> t - u > 600000"
        using claim_held [OF Cons.prems(1) step [unfolded n]] Cons.prems(2) key
        by (auto simp: known_def split: option.splits prod.splits effect_status.splits)
      ultimately show ?thesis using Cons.IH [OF inv'] key by (simp add: Ev_Claim step n)
    next
      case False
      then have "state s' k = state s k" using st [of k] by auto
      then show ?thesis using Cons.IH [OF inv'] Cons.prems(2) False
        by (auto simp: Ev_Claim step split: effect_claim.split)
    qed
  next
    case (Ev_Report key r t)
    note inv' = finish_inv [OF Cons.prems(1), of key r t]
    note st = finish_state [OF Cons.prems(1), of key r t k]
    show ?thesis
    proof (cases "key = k")
      case True
      have "known (case prev of
          Some (u, failed) \<Rightarrow> Some (u, failed \<or> ef_status r = Outcome_Effect_Failed)
        | None \<Rightarrow> None) (state (finish key r t s) k)"
        using st Cons.prems(2) True
        by (cases "ef_status r") (auto simp: known_def split: option.splits prod.splits)
      then show ?thesis using Cons.IH [OF inv'] True by (simp add: Ev_Report)
    next
      case False
      then show ?thesis using Cons.IH [OF inv'] st Cons.prems(2) by (simp add: Ev_Report)
    qed
  qed
qed simp

end

lemma claim_effect_held:
  assumes "claim_effect i t s = (s', Claim_Granted n)"
  shows "case effect_state s (ec_effect_key i) of
      None \<Rightarrow> True
    | Some (Effect_Processing, u) \<Rightarrow> t - u > 600000
    | Some (st, u) \<Rightarrow> st = Effect_Failed"
  using assms
  by (auto simp: claim_effect_def effect_state_def effect_refusal_def is_stale_def Let_def
      split: option.splits if_splits effect_status.splits)

lemma claim_effect_inv:
  assumes "effect_inv s"
  shows "effect_inv (fst (claim_effect i t s))"
proof (cases "tab_first (\<lambda>r. er_effect_key r = ec_effect_key i) s")
  case None
  then have "ec_effect_key i \<notin> er_effect_key ` set s" by (auto simp: tab_first_None)
  moreover have "fst (claim_effect i t s) = s @ [new_effect i t]"
    using None by (simp add: claim_effect_def)
  ultimately show ?thesis using assms
    by (simp add: effect_inv_def tab_keyed_snoc) (simp add: new_effect_def)
next
  case (Some r)
  have "effect_inv (tab_update p (reclaimed_effect n t) s)" if "1 \<le> n" for p n
    using assms that
    by (auto simp: effect_inv_def effect_reclaim.keyed_update set_tab_update reclaimed_effect_def)
  then show ?thesis using assms Some by (simp add: claim_effect_def Let_def split: option.split)
qed

lemma finish_effect_inv: "effect_inv s \<Longrightarrow> effect_inv (finish_effect key r t s)"
  by (cases "ef_status r")
    (auto simp: effect_inv_def finish_effect_def effect_finish.keyed_update set_tab_update
      finished_effect_def)

interpretation d1_effects: effect_store "\<lambda>i t s. Some (claim_effect i t s)" finish_effect
    effect_state effect_inv
proof
  fix s s' i t c k n key r
  show "effect_inv s \<Longrightarrow> \<exists>s' c. Some (claim_effect i t s) = Some (s', c) \<and> effect_inv s'"
    using claim_effect_inv [of s i t] by (metis prod.collapse)
  show "Some (claim_effect i t s) = Some (s', c) \<Longrightarrow> effect_state s' k =
      (if k = ec_effect_key i \<and> (\<exists>n. c = Claim_Granted n) then Some (Effect_Processing, t)
       else effect_state s k)"
    using claim_effect_state [of i t s k] by simp
  show "Some (claim_effect i t s) = Some (s', Claim_Granted n) \<Longrightarrow>
      (case effect_state s (ec_effect_key i) of
         None \<Rightarrow> True
       | Some (Effect_Processing, u) \<Rightarrow> t - u > 600000
       | Some (st, u) \<Rightarrow> st = Effect_Failed)"
    using claim_effect_held [of i t s s' n] by simp
  show "effect_inv s \<Longrightarrow> effect_inv (finish_effect key r t s)" by (rule finish_effect_inv)
  show "effect_state (finish_effect key r t s) k =
      (if k = key \<and> effect_state s k \<noteq> None then Some (outcome_status (ef_status r), t)
       else effect_state s k)"
    by (rule finish_effect_state)
qed

lemma claim_effect_pg_eq:
  "effect_inv s \<Longrightarrow> claim_effect_pg i t s = Some (claim_effect i t s)"
  by (rule claim_effect_agrees) (simp add: effect_inv_def)

interpretation pg_effects: effect_store claim_effect_pg finish_effect effect_state effect_inv
proof
  fix s s' i t c k n key r
  assume inv: "effect_inv s"
  note eq = claim_effect_pg_eq [OF inv, of i t]
  show "\<exists>s' c. claim_effect_pg i t s = Some (s', c) \<and> effect_inv s'"
    using d1_effects.claim_total [OF inv, of i t] eq by simp
  show "claim_effect_pg i t s = Some (s', c) \<Longrightarrow> effect_state s' k =
      (if k = ec_effect_key i \<and> (\<exists>n. c = Claim_Granted n) then Some (Effect_Processing, t)
       else effect_state s k)"
    using d1_effects.claim_state [OF inv, of i t s' c k] eq by simp
  show "claim_effect_pg i t s = Some (s', Claim_Granted n) \<Longrightarrow>
      (case effect_state s (ec_effect_key i) of
         None \<Rightarrow> True
       | Some (Effect_Processing, u) \<Rightarrow> t - u > 600000
       | Some (st, u) \<Rightarrow> st = Effect_Failed)"
    using d1_effects.claim_held [OF inv, of i t s' n] eq by simp
qed (simp_all add: finish_effect_inv finish_effect_state)

section \<open>Properties\<close>


definition stalled_history :: "effect_claim_input \<Rightarrow> instant \<Rightarrow> effect_event list" where
  "stalled_history i t =
     [Ev_Claim i 0, Ev_Claim i t,
      Ev_Report (ec_effect_key i)
        \<lparr>ef_error_class = None, ef_error_message = None, ef_status = Outcome_Effect_Done\<rparr> (t + 1),
      Ev_Report (ec_effect_key i)
        \<lparr>ef_error_class = Some Retryable, ef_error_message = None,
         ef_status = Outcome_Effect_Failed\<rparr> (t + 2),
      Ev_Claim i (t + 3)]"

text \<open>A report is written whoever sends it: after a worker stalled for more than ten minutes
  and the effect was handed on and delivered, the stalled worker's late failure turns the
  delivered effect into a failed one, and the next claim delivers it a second time.\<close>

lemma late_failure_redelivers_effect:
  assumes "t > 600000"
  shows "effect_history (\<lambda>i t s. Some (claim_effect i t s)) finish_effect (ec_effect_key i)
      (stalled_history i t) []
    = [Tr_Granted 0, Tr_Granted t, Tr_Reported Outcome_Effect_Done,
       Tr_Reported Outcome_Effect_Failed, Tr_Granted (t + 3)]"
  using assms
  by (simp add: stalled_history_def claim_effect_def new_effect_def effect_refusal_def is_stale_def
      reclaimed_effect_def finish_effect_def finished_effect_def Let_def)

end
