(* ===== verification/Queue_Inbox.thy ===== *)
theory Queue_Inbox
  imports Json "HOL-Library.List_Lexorder" "HOL-Library.Product_Lexorder" "HOL-Library.Char_ord"
begin

text \<open>
  The message inbox: \<open>pull\<close>, \<open>settle\<close> and \<open>stage\<close> over the table \<open>worker_inbox\<close>, in the
  two backends \<open>apps/api/src/queue-inbox.ts\<close> (D1) and \<open>queue-inbox-postgres.ts\<close>. The
  contract both promise to the queue processor is the locale \<open>lease_store\<close>.

  Arguments of the model: the clock reading, and \<open>randomUuid\<close> as the sequence of values it
  returns. Messages other PostgreSQL transactions hold locked, which \<open>SKIP LOCKED\<close> leaves
  out, are the argument \<open>locked\<close>.
\<close>

section \<open>State\<close>

datatype inbox_status = Queued | Leased

record inbox_row =
  ir_message_id :: string
  ir_body :: json
  ir_status :: inbox_status
  ir_attempts :: nat
  ir_lease_id :: "string option"
  ir_lease_until :: "instant option"
  ir_available_at :: instant
  ir_timestamp_ms :: int
  ir_created_at :: instant
  ir_updated_at :: instant

record inbox_lease =
  il_attempts :: nat
  il_body :: json
  il_id :: string
  il_lease_id :: string
  il_timestamp_ms :: int

record inbox_batch =
  ib_backlog_count :: nat
  ib_messages :: "inbox_lease list"

record lease_retry =
  lr_delay_seconds :: "nat option"
  lr_lease_id :: string

record settlement =
  st_acks :: "string list"
  st_retries :: "lease_retry list"

record staged_message =
  sm_body :: json
  sm_id :: string
  sm_timestamp_ms :: int

record pull_input =
  pi_now :: instant
  pi_batch_size :: nat
  pi_visibility_ms :: int
  pi_uuid :: "nat \<Rightarrow> string"
  pi_locked :: "string set"

datatype inbox_error = Lease_Acked_And_Retried

section \<open>Pull\<close>

text \<open>Leases that have run out go back to the queue.\<close>

definition expired_lease :: "instant \<Rightarrow> inbox_row \<Rightarrow> bool" where
  "expired_lease now r =
     (ir_status r = Leased \<and> (case ir_lease_until r of None \<Rightarrow> False | Some t \<Rightarrow> t \<le> now))"

definition requeue_row :: "instant \<Rightarrow> instant \<Rightarrow> inbox_row \<Rightarrow> inbox_row" where
  "requeue_row availableAt now r =
     r\<lparr>ir_status := Queued, ir_lease_id := None, ir_lease_until := None,
       ir_available_at := availableAt, ir_updated_at := now\<rparr>"

definition requeue_expired :: "instant \<Rightarrow> inbox_row list \<Rightarrow> inbox_row list" where
  "requeue_expired now rows = tab_update (expired_lease now) (requeue_row now now) rows"

text \<open>The candidates, oldest first.\<close>

definition available_row :: "instant \<Rightarrow> inbox_row \<Rightarrow> bool" where
  "available_row now r = (ir_status r = Queued \<and> ir_available_at r \<le> now)"

definition pull_order :: "inbox_row \<Rightarrow> instant \<times> string" where
  "pull_order r = (ir_created_at r, ir_message_id r)"

definition pull_candidates :: "instant \<Rightarrow> nat \<Rightarrow> inbox_row list \<Rightarrow> inbox_row list" where
  "pull_candidates now batchSize rows =
     take batchSize (sort_key pull_order (filter (available_row now) rows))"

definition claimable :: "string \<Rightarrow> inbox_row \<Rightarrow> bool" where
  "claimable messageId r = (ir_message_id r = messageId \<and> ir_status r = Queued)"

definition lease_row :: "instant \<Rightarrow> instant \<Rightarrow> string \<Rightarrow> inbox_row \<Rightarrow> inbox_row" where
  "lease_row now leaseUntil leaseId r =
     r\<lparr>ir_status := Leased, ir_attempts := ir_attempts r + 1, ir_lease_id := Some leaseId,
       ir_lease_until := Some leaseUntil, ir_updated_at := now\<rparr>"

text \<open>The D1 loop: an update per candidate, whose count of changes decides whether the
  lease was won; the message is built from the row that was selected before.\<close>

fun pull_loop_d1 ::
  "pull_input \<Rightarrow> nat \<Rightarrow> inbox_row list \<Rightarrow> inbox_row list \<Rightarrow> inbox_row list \<times> inbox_lease list" where
  "pull_loop_d1 p k [] rows = (rows, [])"
| "pull_loop_d1 p k (row # cands) rows =
     (let leaseId = pi_uuid p k;
          leaseUntil = pi_now p + pi_visibility_ms p;
          rows' = tab_update (claimable (ir_message_id row)) (lease_row (pi_now p) leaseUntil leaseId) rows
      in if tab_changes (claimable (ir_message_id row)) rows \<noteq> 1
         then pull_loop_d1 p (k + 1) cands rows'
         else (case pull_loop_d1 p (k + 1) cands rows' of (rows'', ms) \<Rightarrow>
           (rows'',
            \<lparr>il_attempts = ir_attempts row + 1, il_body = ir_body row,
             il_id = ir_message_id row, il_lease_id = leaseId,
             il_timestamp_ms = ir_timestamp_ms row\<rparr> # ms)))"

definition pull_d1 :: "pull_input \<Rightarrow> inbox_row list \<Rightarrow> inbox_row list \<times> inbox_batch" where
  "pull_d1 p rows =
     (let rows1 = requeue_expired (pi_now p) rows
      in case pull_loop_d1 p 0 (pull_candidates (pi_now p) (pi_batch_size p) rows1) rows1 of
           (rows2, ms) \<Rightarrow> (rows2, \<lparr>ib_backlog_count = length rows2, ib_messages = ms\<rparr>))"

text \<open>The PostgreSQL loop: the update returns the row it wrote.\<close>

fun pull_loop_pg ::
  "pull_input \<Rightarrow> nat \<Rightarrow> inbox_row list \<Rightarrow> inbox_row list \<Rightarrow> inbox_row list \<times> inbox_lease list" where
  "pull_loop_pg p k [] rows = (rows, [])"
| "pull_loop_pg p k (candidate # cands) rows =
     (let leaseId = pi_uuid p k;
          leaseUntil = pi_now p + pi_visibility_ms p;
          write = lease_row (pi_now p) leaseUntil leaseId;
          rows' = tab_update (claimable (ir_message_id candidate)) write rows
      in case tab_first (claimable (ir_message_id candidate)) rows of
           None \<Rightarrow> pull_loop_pg p (k + 1) cands rows'
         | Some old \<Rightarrow>
             (case pull_loop_pg p (k + 1) cands rows' of (rows'', ms) \<Rightarrow>
               (let row = write old
                in (rows'',
                    \<lparr>il_attempts = ir_attempts row, il_body = ir_body row,
                     il_id = ir_message_id row, il_lease_id = leaseId,
                     il_timestamp_ms = ir_timestamp_ms row\<rparr> # ms))))"

definition pull_candidates_pg ::
  "instant \<Rightarrow> nat \<Rightarrow> string set \<Rightarrow> inbox_row list \<Rightarrow> inbox_row list" where
  "pull_candidates_pg now batchSize locked rows =
     take batchSize
       (filter (\<lambda>r. ir_message_id r \<notin> locked)
         (sort_key pull_order (filter (available_row now) rows)))"

definition pull_pg :: "pull_input \<Rightarrow> inbox_row list \<Rightarrow> inbox_row list \<times> inbox_batch" where
  "pull_pg p rows =
     (let rows1 = requeue_expired (pi_now p) rows
      in case pull_loop_pg p 0
                (pull_candidates_pg (pi_now p) (pi_batch_size p) (pi_locked p) rows1) rows1 of
           (rows2, ms) \<Rightarrow> (rows2, \<lparr>ib_backlog_count = length rows2, ib_messages = ms\<rparr>))"

section \<open>Settle and stage\<close>

definition assert_distinct_leases :: "settlement \<Rightarrow> bool" where
  "assert_distinct_leases s =
     list_all (\<lambda>r. lr_lease_id r \<notin> set (st_acks s)) (st_retries s)"

definition holds_lease :: "string \<Rightarrow> inbox_row \<Rightarrow> bool" where
  "holds_lease leaseId r = (ir_lease_id r = Some leaseId \<and> ir_status r = Leased)"

definition ack_lease :: "string \<Rightarrow> inbox_row list \<Rightarrow> inbox_row list" where
  "ack_lease leaseId rows = tab_delete (holds_lease leaseId) rows"

definition retry_lease :: "instant \<Rightarrow> lease_retry \<Rightarrow> inbox_row list \<Rightarrow> inbox_row list" where
  "retry_lease now retry rows =
     tab_update (holds_lease (lr_lease_id retry))
       (requeue_row (now + int (nullish (lr_delay_seconds retry) 0) * 1000) now) rows"

definition settle :: "instant \<Rightarrow> settlement \<Rightarrow> inbox_row list \<Rightarrow> inbox_error + inbox_row list" where
  "settle now s rows =
     (if assert_distinct_leases s
      then Inr (fold (retry_lease now) (st_retries s) (fold ack_lease (st_acks s) rows))
      else Inl Lease_Acked_And_Retried)"

text \<open>The PostgreSQL backend returns early on an empty settlement and runs the same
  statements in a transaction.\<close>

definition settle_pg :: "instant \<Rightarrow> settlement \<Rightarrow> inbox_row list \<Rightarrow> inbox_error + inbox_row list" where
  "settle_pg now s rows =
     (if \<not> assert_distinct_leases s then Inl Lease_Acked_And_Retried
      else if st_acks s = [] \<and> st_retries s = [] then Inr rows
      else Inr (fold (retry_lease now) (st_retries s) (fold ack_lease (st_acks s) rows)))"

definition staged_row :: "instant \<Rightarrow> staged_message \<Rightarrow> inbox_row" where
  "staged_row now m =
     \<lparr>ir_message_id = sm_id m, ir_body = sm_body m, ir_status = Queued, ir_attempts = 0,
      ir_lease_id = None, ir_lease_until = None, ir_available_at = now,
      ir_timestamp_ms = sm_timestamp_ms m, ir_created_at = now, ir_updated_at = now\<rparr>"

definition stage :: "instant \<Rightarrow> staged_message list \<Rightarrow> inbox_row list \<Rightarrow> inbox_row list" where
  "stage now messages rows =
     fold (\<lambda>m. tab_insert_ignore ir_message_id (staged_row now m)) messages rows"

section \<open>The invariant\<close>

text \<open>Message ids are unique, a row carries a lease exactly when it is leased, and no two
  rows carry the same lease.\<close>

definition lease_of :: "inbox_row list \<Rightarrow> string \<rightharpoonup> string" where
  "lease_of rows m = Option.bind (tab_first (\<lambda>r. ir_message_id r = m) rows) ir_lease_id"

definition message_ids :: "inbox_row list \<Rightarrow> string set" where
  "message_ids rows = ir_message_id ` set rows"

definition live_leases :: "inbox_row list \<Rightarrow> string set" where
  "live_leases rows = {l. \<exists>r\<in>set rows. ir_lease_id r = Some l}"

definition lease_consistent :: "inbox_row \<Rightarrow> bool" where
  "lease_consistent r =
     ((ir_status r = Leased) = (ir_lease_id r \<noteq> None)
      \<and> (ir_status r = Leased) = (ir_lease_until r \<noteq> None))"

definition leases_unique :: "inbox_row list \<Rightarrow> bool" where
  "leases_unique rows =
     (\<forall>r\<in>set rows. \<forall>r'\<in>set rows. \<forall>l.
        ir_lease_id r = Some l \<longrightarrow> ir_lease_id r' = Some l \<longrightarrow> ir_message_id r = ir_message_id r')"

definition inbox_inv :: "inbox_row list \<Rightarrow> bool" where
  "inbox_inv rows =
     (tab_keyed ir_message_id rows \<and> list_all lease_consistent rows \<and> leases_unique rows)"

section \<open>Lemmas\<close>

subsection \<open>The writes\<close>

lemma requeue_row_simps [simp, row_simps]:
  "ir_message_id (requeue_row a t r) = ir_message_id r"
  "ir_status (requeue_row a t r) = Queued"
  "ir_lease_id (requeue_row a t r) = None"
  "ir_lease_until (requeue_row a t r) = None"
  "ir_available_at (requeue_row a t r) = a"
  by (simp_all add: requeue_row_def)

lemma lease_row_simps [simp, row_simps]:
  "ir_message_id (lease_row t u l r) = ir_message_id r"
  "ir_status (lease_row t u l r) = Leased"
  "ir_lease_id (lease_row t u l r) = Some l"
  "ir_lease_until (lease_row t u l r) = Some u"
  by (simp_all add: lease_row_def)

interpretation requeue: row_write ir_message_id "requeue_row a t" for a t
  by unfold_locales simp

interpretation leasing: row_write ir_message_id "lease_row t u l" for t u l
  by unfold_locales simp

lemma inbox_inv_keyed: "inbox_inv rows \<Longrightarrow> tab_keyed ir_message_id rows"
  by (simp add: inbox_inv_def)

lemma leases_uniqueI:
  "(\<And>r r' l. r \<in> set rows \<Longrightarrow> r' \<in> set rows \<Longrightarrow> ir_lease_id r = Some l \<Longrightarrow> ir_lease_id r' = Some l
      \<Longrightarrow> ir_message_id r = ir_message_id r') \<Longrightarrow> leases_unique rows"
  unfolding leases_unique_def by blast

lemma leases_uniqueD:
  "leases_unique rows \<Longrightarrow> r \<in> set rows \<Longrightarrow> r' \<in> set rows \<Longrightarrow> ir_lease_id r = Some l
     \<Longrightarrow> ir_lease_id r' = Some l \<Longrightarrow> ir_message_id r = ir_message_id r'"
  unfolding leases_unique_def by blast

lemma requeue_row_mem:
  "x \<in> set (tab_update p (requeue_row a t) rows) \<Longrightarrow> ir_lease_id x = Some l \<Longrightarrow> x \<in> set rows"
  by (auto simp: set_tab_update split: if_splits)

lemma lease_row_mem:
  "x \<in> set (tab_update (claimable m) (lease_row t u l) rows) \<Longrightarrow> ir_lease_id x = Some l'
     \<Longrightarrow> x \<in> set rows \<or> l' = l \<and> ir_message_id x = m"
  by (auto simp: set_tab_update claimable_def split: if_splits)

lemma requeue_inv:
  assumes "inbox_inv rows"
  shows "inbox_inv (tab_update p (requeue_row a t) rows)"
proof -
  have "list_all lease_consistent (tab_update p (requeue_row a t) rows)"
    using assms by (auto simp: inbox_inv_def list_all_iff set_tab_update lease_consistent_def)
  moreover have "leases_unique (tab_update p (requeue_row a t) rows)"
    using assms unfolding inbox_inv_def
    by (intro leases_uniqueI) (blast dest: requeue_row_mem leases_uniqueD)
  ultimately show ?thesis using assms by (simp add: inbox_inv_def requeue.keyed_update)
qed

lemma lease_inv:
  assumes "inbox_inv rows" and "l \<notin> live_leases rows"
  shows "inbox_inv (tab_update (claimable m) (lease_row t u l) rows)"
proof -
  have "list_all lease_consistent (tab_update (claimable m) (lease_row t u l) rows)"
    using assms by (auto simp: inbox_inv_def list_all_iff set_tab_update lease_consistent_def)
  moreover have "leases_unique (tab_update (claimable m) (lease_row t u l) rows)"
  proof (rule leases_uniqueI)
    fix r r' l'
    assume r: "r \<in> set (tab_update (claimable m) (lease_row t u l) rows)" "ir_lease_id r = Some l'"
      and r': "r' \<in> set (tab_update (claimable m) (lease_row t u l) rows)" "ir_lease_id r' = Some l'"
    have no: "x \<notin> set rows" if "ir_lease_id x = Some l" for x
      using assms(2) that by (auto simp: live_leases_def)
    show "ir_message_id r = ir_message_id r'"
      using lease_row_mem [OF r] lease_row_mem [OF r'] no r(2) r'(2) assms(1)
      unfolding inbox_inv_def by (metis leases_uniqueD)
  qed
  ultimately show ?thesis using assms by (simp add: inbox_inv_def leasing.keyed_update)
qed

lemma live_leases_lease:
  "live_leases (tab_update (claimable m) (lease_row t u l) rows) \<subseteq> insert l (live_leases rows)"
  by (auto simp: live_leases_def set_tab_update split: if_splits)

lemma live_leases_requeue:
  "live_leases (tab_update p (requeue_row a t) rows) \<subseteq> live_leases rows"
  by (auto simp: live_leases_def set_tab_update split: if_splits)

lemma delete_inv: "inbox_inv rows \<Longrightarrow> inbox_inv (tab_delete p rows)"
  unfolding inbox_inv_def
  by (auto simp: list_all_iff intro!: leases_uniqueI dest: leases_uniqueD)

lemma filter_claimable:
  assumes "tab_keyed ir_message_id rows" and "r \<in> set rows"
  shows "filter (claimable (ir_message_id r)) rows = (if ir_status r = Queued then [r] else [])"
  using assms
proof (induction rows)
  case (Cons x xs)
  show ?case
  proof (cases "x = r")
    case True
    have "\<not> claimable (ir_message_id r) y" if "y \<in> set xs" for y
      using Cons.prems True that by (auto simp: tab_keyed_def claimable_def image_iff)
    then have "filter (claimable (ir_message_id r)) xs = []" by (simp add: filter_empty_conv)
    moreover have "claimable (ir_message_id r) r = (ir_status r = Queued)" by (simp add: claimable_def)
    ultimately show ?thesis using True by simp
  next
    case False
    then have r: "r \<in> set xs" and "ir_message_id x \<noteq> ir_message_id r"
      using Cons.prems by (auto simp: tab_keyed_def image_iff)
    then have "\<not> claimable (ir_message_id r) x" by (simp add: claimable_def)
    moreover have "tab_keyed ir_message_id xs" using Cons.prems by (simp add: tab_keyed_def)
    ultimately show ?thesis using Cons.IH r by simp
  qed
qed simp

lemma claimable_other [simp]:
  "ir_message_id r \<noteq> m \<Longrightarrow> \<not> claimable m r"
  "ir_status r = Leased \<Longrightarrow> \<not> claimable m r"
  by (auto simp: claimable_def)

lemma update_claimable_mem:
  assumes "c \<in> set rows" and "ir_message_id c \<noteq> m"
  shows "c \<in> set (tab_update (claimable m) f rows)"
  using assms by (force simp: set_tab_update)

lemma first_claimable_eq:
  assumes "tab_keyed ir_message_id rows"
  shows "tab_first (claimable m) rows
     = (case tab_first (\<lambda>r. ir_message_id r = m) rows of
          None \<Rightarrow> None | Some r \<Rightarrow> if ir_status r = Queued then Some r else None)"
  using assms
proof (induction rows)
  case (Cons x xs)
  then have k: "tab_keyed ir_message_id xs" by (simp add: tab_keyed_def)
  show ?case
  proof (cases "ir_message_id x = m")
    case True
    then have "tab_first (\<lambda>r. ir_message_id r = m) xs = None"
      using Cons.prems by (auto simp: tab_first_None tab_keyed_def image_iff)
    with Cons.IH [OF k] True show ?thesis by (auto simp: claimable_def)
  next
    case False
    with Cons.IH [OF k] show ?thesis by simp
  qed
qed simp

subsection \<open>The loop of a pull\<close>

definition pull_write :: "pull_input \<Rightarrow> nat \<Rightarrow> inbox_row \<Rightarrow> inbox_row" where
  "pull_write p k = lease_row (pi_now p) (pi_now p + pi_visibility_ms p) (pi_uuid p k)"

definition pull_step :: "pull_input \<Rightarrow> nat \<Rightarrow> inbox_row \<Rightarrow> inbox_row list \<Rightarrow> inbox_row list" where
  "pull_step p k c rows = tab_update (claimable (ir_message_id c)) (pull_write p k) rows"

definition pull_message :: "pull_input \<Rightarrow> nat \<Rightarrow> inbox_row \<Rightarrow> inbox_lease" where
  "pull_message p k r =
     \<lparr>il_attempts = ir_attempts r + 1, il_body = ir_body r, il_id = ir_message_id r,
      il_lease_id = pi_uuid p k, il_timestamp_ms = ir_timestamp_ms r\<rparr>"

lemma pull_message_simps [simp]:
  "il_id (pull_message p k r) = ir_message_id r"
  "il_lease_id (pull_message p k r) = pi_uuid p k"
  by (simp_all add: pull_message_def)

lemma pull_step_locked [simp]:
  "pull_step (p\<lparr>pi_locked := L\<rparr>) k c rows = pull_step p k c rows"
  "pull_message (p\<lparr>pi_locked := L\<rparr>) k c = pull_message p k c"
  by (simp_all add: pull_step_def pull_write_def pull_message_def)

lemma pull_loop_pg_Cons:
  "pull_loop_pg p k (c # cands) rows =
     (let rest = pull_loop_pg p (k + 1) cands (pull_step p k c rows)
      in case tab_first (claimable (ir_message_id c)) rows of
           None \<Rightarrow> rest
         | Some old \<Rightarrow> (fst rest, pull_message p k old # snd rest))"
  by (simp add: Let_def pull_step_def pull_write_def pull_message_def lease_row_def
        split: option.splits prod.splits)

lemma pull_loop_d1_Cons:
  "pull_loop_d1 p k (c # cands) rows =
     (let rest = pull_loop_d1 p (k + 1) cands (pull_step p k c rows)
      in if tab_changes (claimable (ir_message_id c)) rows \<noteq> 1 then rest
         else (fst rest, pull_message p k c # snd rest))"
  by (simp add: Let_def pull_step_def pull_write_def pull_message_def split: prod.splits)

declare pull_loop_pg.simps(2) [simp del] pull_loop_d1.simps(2) [simp del]

lemma pull_loop_cases [consumes 1, case_names lost won]:
  assumes "pull_loop_pg p k (c # cands) rows = (rows', ms)"
  obtains "tab_first (claimable (ir_message_id c)) rows = None"
      and "pull_loop_pg p (k + 1) cands (pull_step p k c rows) = (rows', ms)"
    | old ms' where "tab_first (claimable (ir_message_id c)) rows = Some old"
      and "pull_loop_pg p (k + 1) cands (pull_step p k c rows) = (rows', ms')"
      and "ms = pull_message p k old # ms'"
  using assms by (auto simp: pull_loop_pg_Cons Let_def prod_eq_iff split: option.splits)

lemma pull_step_ids: "map ir_message_id (pull_step p k c rows) = map ir_message_id rows"
  by (simp add: pull_step_def pull_write_def leasing.map_key_update)

lemma pull_step_keyed: "tab_keyed ir_message_id (pull_step p k c rows) = tab_keyed ir_message_id rows"
  by (simp add: tab_keyed_def pull_step_ids)

lemma pull_loop_ids:
  "pull_loop_pg p k cands rows = (rows', ms) \<Longrightarrow> map ir_message_id rows' = map ir_message_id rows"
proof (induction cands arbitrary: k rows rows' ms)
  case (Cons c cands)
  from Cons.prems show ?case
    by (cases rule: pull_loop_cases) (auto dest: Cons.IH simp: pull_step_ids)
qed simp

lemma pull_loop_inv:
  assumes "pull_loop_pg p k cands rows = (rows', ms)" and "inbox_inv rows"
    and "inj (pi_uuid p)" and "\<forall>i\<ge>k. pi_uuid p i \<notin> live_leases rows"
  shows "inbox_inv rows'"
  using assms
proof (induction cands arbitrary: k rows rows' ms)
  case (Cons c cands)
  have inv: "inbox_inv (pull_step p k c rows)"
    unfolding pull_step_def pull_write_def using Cons.prems by (intro lease_inv) auto
  have fresh: "\<forall>i\<ge>k + 1. pi_uuid p i \<notin> live_leases (pull_step p k c rows)"
  proof (intro allI impI)
    fix i assume i: "k + 1 \<le> i"
    then have "pi_uuid p i \<noteq> pi_uuid p k" using Cons.prems(3) by (auto dest: injD)
    moreover have "pi_uuid p i \<notin> live_leases rows" using i Cons.prems(4) by auto
    ultimately show "pi_uuid p i \<notin> live_leases (pull_step p k c rows)"
      unfolding pull_step_def pull_write_def using live_leases_lease by fast
  qed
  from Cons.prems(1) show ?case
    by (cases rule: pull_loop_cases) (use Cons.IH inv Cons.prems(3) fresh in auto)
qed simp

text \<open>A row that is leased is left alone by the loop.\<close>

lemma pull_step_leased:
  assumes "tab_first (\<lambda>r. ir_message_id r = m) rows = Some r" and "ir_status r = Leased"
  shows "tab_first (\<lambda>r. ir_message_id r = m) (pull_step p k c rows) = Some r"
  using assms by (simp add: pull_step_def pull_write_def leasing.first_update_key)

lemma pull_loop_leased:
  assumes "pull_loop_pg p k cands rows = (rows', ms)"
    and "tab_first (\<lambda>r. ir_message_id r = m) rows = Some r" and "ir_status r = Leased"
  shows "tab_first (\<lambda>r. ir_message_id r = m) rows' = Some r"
  using assms
proof (induction cands arbitrary: k rows rows' ms)
  case (Cons c cands)
  note step = pull_step_leased [OF Cons.prems(2,3), of p k c]
  from Cons.prems(1) show ?case
    by (cases rule: pull_loop_cases) (use Cons.IH step Cons.prems(3) in auto)
qed simp

definition leased_as :: "pull_input \<Rightarrow> inbox_lease \<Rightarrow> inbox_row \<Rightarrow> bool" where
  "leased_as p m r = (ir_status r = Leased \<and> ir_lease_id r = Some (il_lease_id m)
     \<and> ir_lease_until r = Some (pi_now p + pi_visibility_ms p))"

lemma pull_loop_message:
  assumes "pull_loop_pg p k cands rows = (rows', ms)" and "tab_keyed ir_message_id rows"
    and "m \<in> set ms"
  shows "\<exists>r. tab_first (\<lambda>r. ir_message_id r = il_id m) rows' = Some r \<and> leased_as p m r"
    and "il_id m \<in> ir_message_id ` set cands"
  using assms
proof (induction cands arbitrary: k rows rows' ms)
  case (Cons c cands)
  {
    case 1
    note keyed = pull_step_keyed [of p k c rows]
    from 1(1) show ?case
    proof (cases rule: pull_loop_cases)
      case lost
      with Cons.IH(1) 1 keyed show ?thesis by blast
    next
      case (won old ms')
      show ?thesis
      proof (cases "m \<in> set ms'")
        case True
        with Cons.IH(1) won 1(2) keyed show ?thesis by blast
      next
        case False
        with won 1(3) have m: "m = pull_message p k old" by simp
        have old: "tab_first (\<lambda>r. ir_message_id r = ir_message_id c) rows = Some old"
          and q: "ir_status old = Queued" and id: "ir_message_id old = ir_message_id c"
          using won(1) first_claimable_eq [OF 1(2), of "ir_message_id c"] tab_first_SomeD [OF won(1)]
          by (auto simp: claimable_def split: option.splits if_splits)
        have "tab_first (\<lambda>r. ir_message_id r = ir_message_id c) (pull_step p k c rows)
            = Some (pull_write p k old)"
          using old q id by (simp add: pull_step_def pull_write_def leasing.first_update_key claimable_def)
        from pull_loop_leased [OF won(2) this] id show ?thesis
          by (simp add: m pull_write_def leased_as_def)
      qed
    qed
  next
    case 2
    note keyed = pull_step_keyed [of p k c rows]
    from 2(1) show ?case
    proof (cases rule: pull_loop_cases)
      case lost
      with Cons.IH(2) 2 keyed show ?thesis by auto
    next
      case (won old ms')
      then have "ir_message_id old = ir_message_id c"
        by (auto dest!: tab_first_SomeD simp: claimable_def)
      with won 2 Cons.IH(2) keyed show ?thesis by auto
    qed
  }
qed simp_all

lemma pull_loop_lease_ids:
  assumes "pull_loop_pg p k cands rows = (rows', ms)"
  shows "\<forall>m\<in>set ms. \<exists>i\<ge>k. il_lease_id m = pi_uuid p i"
  using assms
proof (induction cands arbitrary: k rows rows' ms)
  case (Cons c cands)
  from Cons.prems show ?case
  proof (cases rule: pull_loop_cases)
    case lost
    from Cons.IH [OF lost(2)] show ?thesis using add_leD1 by blast
  next
    case (won old ms')
    from Cons.IH [OF won(2)] show ?thesis
      by (auto simp: won(3)) (meson Suc_leD)
  qed
qed simp

lemma pull_loop_distinct:
  assumes "pull_loop_pg p k cands rows = (rows', ms)" and "inj (pi_uuid p)"
  shows "distinct (map il_lease_id ms)"
  using assms
proof (induction cands arbitrary: k rows rows' ms)
  case (Cons c cands)
  from Cons.prems(1) show ?case
  proof (cases rule: pull_loop_cases)
    case lost
    with Cons show ?thesis by blast
  next
    case (won old ms')
    have "pi_uuid p k \<notin> il_lease_id ` set ms'"
    proof
      assume "pi_uuid p k \<in> il_lease_id ` set ms'"
      then obtain i where "k + 1 \<le> i" "pi_uuid p k = pi_uuid p i"
        using pull_loop_lease_ids [OF won(2)] by auto
      with Cons.prems(2) show False by (auto dest: injD)
    qed
    with Cons won show ?thesis by auto
  qed
qed simp

text \<open>Where the candidates are queued rows of the table, the two backends do the same and
  win every candidate.\<close>

lemma pull_loops_agree:
  assumes "tab_keyed ir_message_id rows" and "distinct (map ir_message_id cands)"
    and "\<forall>c\<in>set cands. c \<in> set rows \<and> ir_status c = Queued"
  shows "pull_loop_d1 p k cands rows = pull_loop_pg p k cands rows
     \<and> map il_id (snd (pull_loop_pg p k cands rows)) = map ir_message_id cands"
  using assms
proof (induction cands arbitrary: k rows)
  case (Cons c cands)
  have c: "filter (claimable (ir_message_id c)) rows = [c]"
    using Cons.prems filter_claimable [of rows c] by auto
  have won: "tab_first (claimable (ir_message_id c)) rows = Some c"
    by (simp add: tab_first_filter c)
  have changes: "tab_changes (claimable (ir_message_id c)) rows = 1"
    by (simp add: tab_changes_def c)
  have "\<forall>d\<in>set cands. d \<in> set (pull_step p k c rows) \<and> ir_status d = Queued"
    unfolding pull_step_def using Cons.prems by (auto intro!: update_claimable_mem simp: image_iff)
  with Cons pull_step_keyed [of p k c rows]
  have "pull_loop_d1 p (k + 1) cands (pull_step p k c rows)
      = pull_loop_pg p (k + 1) cands (pull_step p k c rows)
    \<and> map il_id (snd (pull_loop_pg p (k + 1) cands (pull_step p k c rows)))
      = map ir_message_id cands"
    by simp
  then show ?case
    by (simp add: pull_loop_pg_Cons pull_loop_d1_Cons Let_def won changes)
qed simp

subsection \<open>A pull\<close>

lemma requeue_expired_keyed:
  "tab_keyed ir_message_id (requeue_expired now rows) = tab_keyed ir_message_id rows"
  by (simp add: requeue_expired_def requeue.keyed_update)

lemma requeue_expired_ids:
  "map ir_message_id (requeue_expired now rows) = map ir_message_id rows"
  by (simp add: requeue_expired_def requeue.map_key_update)

lemma requeue_expired_live: "live_leases (requeue_expired now rows) \<subseteq> live_leases rows"
  by (simp add: requeue_expired_def live_leases_requeue)

lemma requeue_expired_keeps:
  assumes "tab_first (\<lambda>r. ir_message_id r = m) rows = Some r"
    and "ir_lease_until r = Some t" and "now < t"
  shows "tab_first (\<lambda>r. ir_message_id r = m) (requeue_expired now rows) = Some r"
  using assms by (simp add: requeue_expired_def requeue.first_update_key expired_lease_def)

lemma candidates_mem:
  "c \<in> set (pull_candidates_pg now n locked rows) \<Longrightarrow> c \<in> set rows \<and> available_row now c"
  by (auto simp: pull_candidates_pg_def dest!: in_set_takeD)

lemma candidates_distinct:
  assumes "tab_keyed ir_message_id rows"
  shows "distinct (map ir_message_id (pull_candidates_pg now n locked rows))"
proof -
  have inj: "inj_on ir_message_id (set rows)" and d: "distinct rows"
    using assms by (auto simp: tab_keyed_def distinct_map)
  have "distinct (pull_candidates_pg now n locked rows)"
    using d by (simp add: pull_candidates_pg_def distinct_take)
  moreover have "set (pull_candidates_pg now n locked rows) \<subseteq> set rows"
    using candidates_mem by blast
  ultimately show ?thesis by (simp add: distinct_map inj_on_subset [OF inj])
qed

lemma candidates_unlocked: "pull_candidates now n rows = pull_candidates_pg now n {} rows"
  by (simp add: pull_candidates_def pull_candidates_pg_def)

lemma pull_pg_loop:
  assumes "pull_pg p rows = (rows', b)"
  shows "pull_loop_pg p 0 (pull_candidates_pg (pi_now p) (pi_batch_size p) (pi_locked p)
           (requeue_expired (pi_now p) rows)) (requeue_expired (pi_now p) rows)
         = (rows', ib_messages b)"
  using assms by (auto simp: pull_pg_def Let_def split: prod.splits)

definition fresh_uuids :: "pull_input \<Rightarrow> inbox_row list \<Rightarrow> bool" where
  "fresh_uuids p rows = (inj (pi_uuid p) \<and> (\<forall>i. pi_uuid p i \<notin> live_leases rows))"

lemma pull_pg_inv:
  assumes "pull_pg p rows = (rows', b)" and "inbox_inv rows" and "fresh_uuids p rows"
  shows "inbox_inv rows'"
  using pull_loop_inv [OF pull_pg_loop [OF assms(1)]] assms(2,3) requeue_expired_live
  by (auto simp: fresh_uuids_def requeue_expired_def requeue_inv)

lemma pull_pg_ids:
  "pull_pg p rows = (rows', b) \<Longrightarrow> map ir_message_id rows' = map ir_message_id rows"
  by (auto dest!: pull_pg_loop pull_loop_ids simp: requeue_expired_ids)

lemma pull_pg_messages:
  assumes "pull_pg p rows = (rows', b)" and "tab_keyed ir_message_id rows"
  shows "map il_id (ib_messages b) = map ir_message_id (pull_candidates_pg (pi_now p)
           (pi_batch_size p) (pi_locked p) (requeue_expired (pi_now p) rows))"
proof -
  let ?r = "requeue_expired (pi_now p) rows"
  have k: "tab_keyed ir_message_id ?r" using assms(2) by (simp add: requeue_expired_keyed)
  have "map il_id (snd (pull_loop_pg p 0 (pull_candidates_pg (pi_now p) (pi_batch_size p)
           (pi_locked p) ?r) ?r))
     = map ir_message_id (pull_candidates_pg (pi_now p) (pi_batch_size p) (pi_locked p) ?r)"
    using pull_loops_agree [OF k candidates_distinct [OF k]] candidates_mem
    by (fastforce simp: available_row_def)
  then show ?thesis by (simp add: pull_pg_loop [OF assms(1)])
qed

lemma pull_backends_agree:
  assumes "tab_keyed ir_message_id rows"
  shows "pull_d1 p rows = pull_pg (p\<lparr>pi_locked := {}\<rparr>) rows"
proof -
  let ?r = "requeue_expired (pi_now p) rows"
  have k: "tab_keyed ir_message_id ?r" using assms by (simp add: requeue_expired_keyed)
  have "pull_loop_d1 p 0 (pull_candidates_pg (pi_now p) (pi_batch_size p) {} ?r) ?r
     = pull_loop_pg p 0 (pull_candidates_pg (pi_now p) (pi_batch_size p) {} ?r) ?r"
    using pull_loops_agree [OF k candidates_distinct [OF k]] candidates_mem
    by (fastforce simp: available_row_def)
  moreover have "pull_loop_pg (p\<lparr>pi_locked := {}\<rparr>) k cands rows = pull_loop_pg p k cands rows"
    for k cands and rows :: "inbox_row list"
    by (induction cands arbitrary: k rows)
       (simp_all add: pull_loop_pg_Cons Let_def split: option.split)
  ultimately show ?thesis by (simp add: pull_d1_def pull_pg_def Let_def candidates_unlocked)
qed

subsection \<open>A settlement\<close>

text \<open>What a settlement does to one row, and that this is all it does.\<close>

definition acked_row :: "string list \<Rightarrow> inbox_row \<Rightarrow> bool" where
  "acked_row acks r = list_ex (\<lambda>l. holds_lease l r) acks"

definition settle_row :: "instant \<Rightarrow> lease_retry list \<Rightarrow> inbox_row \<Rightarrow> inbox_row" where
  "settle_row now retries r =
     (case tab_first (\<lambda>x. holds_lease (lr_lease_id x) r) retries of
        None \<Rightarrow> r
      | Some x \<Rightarrow> requeue_row (now + int (nullish (lr_delay_seconds x) 0) * 1000) now r)"

lemma fold_ack_lease: "fold ack_lease acks rows = filter (\<lambda>r. \<not> acked_row acks r) rows"
  by (induction acks arbitrary: rows)
     (simp_all add: ack_lease_def tab_delete_def acked_row_def conj_commute)

lemma requeued_holds_nothing [simp]: "\<not> holds_lease l (requeue_row a t r)"
  by (simp add: holds_lease_def)

lemma settle_row_requeued [simp]: "settle_row now retries (requeue_row a t r) = requeue_row a t r"
  by (simp add: settle_row_def tab_first_def find_None_iff [THEN iffD2])

lemma fold_retry_lease: "fold (retry_lease now) retries rows = map (settle_row now retries) rows"
proof (induction retries arbitrary: rows)
  case Nil
  show ?case by (simp add: settle_row_def)
next
  case (Cons x xs)
  have "settle_row now xs (if holds_lease (lr_lease_id x) r
          then requeue_row (now + int (nullish (lr_delay_seconds x) 0) * 1000) now r else r)
       = settle_row now (x # xs) r" for r
    by (simp add: settle_row_def [of now "x # xs"]) (simp add: settle_row_def)
  with Cons show ?case by (simp add: retry_lease_def tab_update_def)
qed

lemma settle_eq:
  "settle now s rows =
     (if assert_distinct_leases s
      then Inr (map (settle_row now (st_retries s)) (filter (\<lambda>r. \<not> acked_row (st_acks s) r) rows))
      else Inl Lease_Acked_And_Retried)"
  by (simp add: settle_def fold_ack_lease fold_retry_lease)

lemma settle_row_id [simp]: "ir_message_id (settle_row now retries r) = ir_message_id r"
  by (simp add: settle_row_def split: option.splits)

lemma settle_row_consistent: "lease_consistent r \<Longrightarrow> lease_consistent (settle_row now retries r)"
  by (auto simp: settle_row_def lease_consistent_def split: option.splits)

lemma settle_row_lease:
  "ir_lease_id (settle_row now retries r) = Some l \<Longrightarrow> settle_row now retries r = r"
  by (auto simp: settle_row_def split: option.splits)

lemma settle_inv:
  assumes "settle now s rows = Inr rows'" and "inbox_inv rows"
  shows "inbox_inv rows'"
proof -
  have r': "rows' = map (settle_row now (st_retries s)) (filter (\<lambda>r. \<not> acked_row (st_acks s) r) rows)"
    using assms(1) by (auto simp: settle_eq split: if_splits)
  have "tab_keyed ir_message_id rows'"
    using assms(2) by (auto simp: inbox_inv_def tab_keyed_def r' comp_def distinct_map inj_on_def)
  moreover have "list_all lease_consistent rows'"
    using assms(2) by (auto simp: inbox_inv_def list_all_iff r' settle_row_consistent)
  moreover have "leases_unique rows'"
  proof (rule leases_uniqueI)
    fix x y l
    assume h: "x \<in> set rows'" "y \<in> set rows'" "ir_lease_id x = Some l" "ir_lease_id y = Some l"
    have "z \<in> set rows" if "z \<in> set rows'" "ir_lease_id z = Some l" for z
      using that settle_row_lease by (fastforce simp: r')
    with h assms(2) show "ir_message_id x = ir_message_id y"
      unfolding inbox_inv_def by (blast dest: leases_uniqueD)
  qed
  ultimately show ?thesis by (simp add: inbox_inv_def)
qed

lemma settle_pg_eq: "settle_pg now s rows = settle now s rows"
  by (simp add: settle_pg_def settle_def)

lemma stage_mem:
  "message_ids (stage now ms rows) = message_ids rows \<union> sm_id ` set ms"
proof (induction ms arbitrary: rows)
  case (Cons m ms)
  then show ?case
    by (auto simp: stage_def message_ids_def set_tab_insert_ignore staged_row_def image_iff)
qed (simp add: stage_def)

lemma stage_known:
  "sm_id ` set ms \<subseteq> message_ids rows \<Longrightarrow> stage now ms rows = rows"
  by (induction ms arbitrary: rows)
     (auto simp: stage_def tab_insert_ignore_def message_ids_def staged_row_def image_iff)

lemma stage_inv: "inbox_inv rows \<Longrightarrow> inbox_inv (stage now ms rows)"
proof (induction ms arbitrary: rows)
  case (Cons m ms)
  have "inbox_inv (tab_insert_ignore ir_message_id (staged_row now m) rows)"
    using Cons.prems unfolding inbox_inv_def
    by (auto simp: tab_keyed_insert_ignore list_all_iff set_tab_insert_ignore staged_row_def
          lease_consistent_def intro!: leases_uniqueI dest: leases_uniqueD split: if_splits)
  with Cons.IH show ?case by (simp add: stage_def)
qed (simp add: stage_def)

lemma settle_lease_of:
  assumes "settle now s rows = Inr rows'" and "inbox_inv rows"
  shows "message_ids rows' = {m \<in> message_ids rows. \<not> (\<exists>l\<in>set (st_acks s). lease_of rows m = Some l)}"
    and "m \<in> message_ids rows' \<Longrightarrow> lease_of rows' m
      = (case lease_of rows m of None \<Rightarrow> None
         | Some l \<Rightarrow> if l \<in> lr_lease_id ` set (st_retries s) then None else Some l)"
proof -
  have keyed: "tab_keyed ir_message_id rows" using assms(2) by (simp add: inbox_inv_def)
  have r': "rows' = map (settle_row now (st_retries s)) (filter (\<lambda>r. \<not> acked_row (st_acks s) r) rows)"
    using assms(1) by (auto simp: settle_eq split: if_splits)
  have keyed': "tab_keyed ir_message_id rows'"
    using settle_inv [OF assms] by (simp add: inbox_inv_def)
  have lease: "lease_of rows (ir_message_id r) = ir_lease_id r" if "r \<in> set rows" for r
    using tab_first_keyed [OF keyed that refl] by (simp add: lease_of_def)
  have lease': "lease_of rows' (ir_message_id r) = ir_lease_id r" if "r \<in> set rows'" for r
    using tab_first_keyed [OF keyed' that refl] by (simp add: lease_of_def)
  have status: "ir_status r = Leased" if "r \<in> set rows" "ir_lease_id r = Some l" for r l
    using assms(2) that by (auto simp: inbox_inv_def list_all_iff lease_consistent_def)
  have acked: "acked_row (st_acks s) r = (\<exists>l\<in>set (st_acks s). ir_lease_id r = Some l)"
    if "r \<in> set rows" for r
    using status that by (auto simp: acked_row_def list_ex_iff holds_lease_def)
  show "message_ids rows' = {m \<in> message_ids rows. \<not> (\<exists>l\<in>set (st_acks s). lease_of rows m = Some l)}"
    using lease acked by (auto simp: message_ids_def r' image_iff) (use acked in blast)
  assume "m \<in> message_ids rows'"
  then obtain r where r: "r \<in> set rows" "m = ir_message_id r"
    and in': "settle_row now (st_retries s) r \<in> set rows'"
    by (auto simp: message_ids_def r')
  have retried: "ir_lease_id (settle_row now (st_retries s) r)
      = (case ir_lease_id r of None \<Rightarrow> None
         | Some l \<Rightarrow> if l \<in> lr_lease_id ` set (st_retries s) then None else Some l)"
    using status [OF r(1)]
    by (auto simp: settle_row_def holds_lease_def tab_first_None image_iff
          split: option.splits dest!: tab_first_SomeD)
  from lease' [OF in'] lease [OF r(1)] retried show "lease_of rows' m
      = (case lease_of rows m of None \<Rightarrow> None
         | Some l \<Rightarrow> if l \<in> lr_lease_id ` set (st_retries s) then None else Some l)"
    by (simp add: r(2))
qed

section \<open>The contract of a lease store\<close>

text \<open>What the queue processor relies on: a pull hands out each message of the batch under a
  lease of its own and keeps every message; a settlement removes the acknowledged
  messages, releases the retried ones and touches nothing else.\<close>

definition covers :: "settlement \<Rightarrow> inbox_batch \<Rightarrow> bool" where
  "covers st b =
     list_all (\<lambda>m. il_lease_id m \<in> set (st_acks st) \<union> lr_lease_id ` set (st_retries st)) (ib_messages b)"

locale lease_store =
  fixes pull :: "pull_input \<Rightarrow> 's \<Rightarrow> 's \<times> inbox_batch"
    and settle :: "instant \<Rightarrow> settlement \<Rightarrow> 's \<Rightarrow> inbox_error + 's"
    and stored :: "'s \<Rightarrow> string set"
    and lease :: "'s \<Rightarrow> string \<rightharpoonup> string"
    and ok :: "'s \<Rightarrow> bool"
    and fresh :: "pull_input \<Rightarrow> 's \<Rightarrow> bool"
  assumes pull_ok: "pull p s = (s', b) \<Longrightarrow> ok s \<Longrightarrow> fresh p s \<Longrightarrow> ok s'"
    and pull_stored: "pull p s = (s', b) \<Longrightarrow> ok s \<Longrightarrow> stored s' = stored s"
    and pull_leases: "pull p s = (s', b) \<Longrightarrow> ok s \<Longrightarrow> msg \<in> set (ib_messages b)
      \<Longrightarrow> lease s' (il_id msg) = Some (il_lease_id msg)"
    and lease_stored: "lease s m = Some l \<Longrightarrow> m \<in> stored s"
    and lease_unique: "ok s \<Longrightarrow> lease s m = Some l \<Longrightarrow> lease s m' = Some l \<Longrightarrow> m = m'"
    and settle_accepts: "assert_distinct_leases st \<Longrightarrow> \<exists>s'. settle now st s = Inr s'"
    and settle_rejects: "\<not> assert_distinct_leases st \<Longrightarrow> settle now st s = Inl Lease_Acked_And_Retried"
    and settle_ok: "settle now st s = Inr s' \<Longrightarrow> ok s \<Longrightarrow> ok s'"
    and settle_stored: "settle now st s = Inr s' \<Longrightarrow> ok s
      \<Longrightarrow> stored s' = {m \<in> stored s. \<not> (\<exists>l\<in>set (st_acks st). lease s m = Some l)}"
    and settle_lease: "settle now st s = Inr s' \<Longrightarrow> ok s \<Longrightarrow> m \<in> stored s'
      \<Longrightarrow> lease s' m = (case lease s m of None \<Rightarrow> None
           | Some l \<Rightarrow> if l \<in> lr_lease_id ` set (st_retries st) then None else Some l)"
begin

text \<open>A settlement that covers a batch leaves no message of the batch behind a lease: the
  acknowledged ones are gone, the others are stored and free.\<close>

lemma batch_released:
  assumes pull: "pull p s = (s1, b)" and ok: "ok s" "fresh p s"
    and settle: "settle now st s1 = Inr s2" and cov: "covers st b" and m: "m \<in> set (ib_messages b)"
  shows "if il_lease_id m \<in> set (st_acks st) then il_id m \<notin> stored s2
         else il_id m \<in> stored s2 \<and> lease s2 (il_id m) = None"
proof -
  have l: "lease s1 (il_id m) = Some (il_lease_id m)" using pull_leases [OF pull ok(1) m] .
  have ok1: "ok s1" using pull_ok [OF pull ok] .
  have st: "il_id m \<in> stored s1" using lease_stored [OF l] .
  have c: "il_lease_id m \<in> set (st_acks st) \<union> lr_lease_id ` set (st_retries st)"
    using cov m by (simp add: covers_def list_all_iff)
  note stored = settle_stored [OF settle ok1]
  show ?thesis
  proof (cases "il_lease_id m \<in> set (st_acks st)")
    case True
    then show ?thesis using l by (auto simp: stored)
  next
    case False
    then have "il_id m \<in> stored s2" using l st by (auto simp: stored)
    with settle_lease [OF settle ok1 this] l c False show ?thesis by simp
  qed
qed

text \<open>A message whose lease is not in the settlement keeps its place and its lease.\<close>

lemma others_kept:
  assumes "settle now st s = Inr s'" and "ok s" and "m \<in> stored s"
    and "\<forall>l. lease s m = Some l \<longrightarrow> l \<notin> set (st_acks st) \<union> lr_lease_id ` set (st_retries st)"
  shows "m \<in> stored s' \<and> lease s' m = lease s m"
proof -
  have "m \<in> stored s'" using assms by (auto simp: settle_stored)
  with settle_lease [OF assms(1,2) this] assms(4) show ?thesis by (auto split: option.splits)
qed

end

lemma lease_of_SomeD:
  "lease_of rows m = Some l \<Longrightarrow> \<exists>r\<in>set rows. ir_message_id r = m \<and> ir_lease_id r = Some l"
  by (auto simp: lease_of_def bind_eq_Some_conv dest!: tab_first_SomeD)

lemma pull_pg_leases:
  assumes "pull_pg p rows = (rows', b)" and "inbox_inv rows" and "m \<in> set (ib_messages b)"
  shows "\<exists>r. tab_first (\<lambda>r. ir_message_id r = il_id m) rows' = Some r \<and> leased_as p m r"
  using pull_loop_message(1) [OF pull_pg_loop [OF assms(1)] _ assms(3)] assms(2)
  by (simp add: requeue_expired_keyed inbox_inv_def)

interpretation pg: lease_store pull_pg settle_pg message_ids lease_of inbox_inv fresh_uuids
proof (unfold_locales, goal_cases)
  case (2 p s s' b)
  then show ?case by (auto simp: message_ids_def dest!: pull_pg_ids) (metis image_iff list.set_map)+
next
  case (3 p s s' b m)
  then show ?case by (auto simp: lease_of_def leased_as_def dest: pull_pg_leases)
next
  case (5 s m l m')
  then show ?case by (auto simp: inbox_inv_def dest!: lease_of_SomeD dest: leases_uniqueD)
next
  case (9 now st s s')
  then show ?case by (simp add: settle_pg_eq settle_lease_of)
next
  case (10 now st s s' m)
  then show ?case by (simp add: settle_pg_eq settle_lease_of)
qed (auto simp: settle_pg_eq settle_def message_ids_def intro: pull_pg_inv settle_inv
       dest: lease_of_SomeD)

lemma pull_d1_pg:
  assumes "inbox_inv rows" and "pull_d1 p rows = (rows', b)"
  shows "pull_pg (p\<lparr>pi_locked := {}\<rparr>) rows = (rows', b)"
  using pull_backends_agree [OF inbox_inv_keyed [OF assms(1)]] assms(2) by simp

lemma fresh_uuids_locked [simp]: "fresh_uuids (p\<lparr>pi_locked := L\<rparr>) rows = fresh_uuids p rows"
  by (simp add: fresh_uuids_def)

interpretation d1: lease_store pull_d1 settle message_ids lease_of inbox_inv fresh_uuids
proof (unfold_locales, goal_cases)
  case (1 p s s' b)
  then show ?case using pg.pull_ok [OF pull_d1_pg] by simp
next
  case (2 p s s' b)
  then show ?case using pg.pull_stored [OF pull_d1_pg] by blast
next
  case (3 p s s' b m)
  then show ?case using pg.pull_leases [OF pull_d1_pg] by blast
next
  case (4 s m l)
  then show ?case by (rule pg.lease_stored)
next
  case (5 s m l m')
  then show ?case by (rule pg.lease_unique)
next
  case (9 now st s s')
  then show ?case by (simp add: settle_lease_of)
next
  case (10 now st s s' m)
  then show ?case by (simp add: settle_lease_of)
qed (auto simp: settle_def intro: settle_inv)

lemma row_by_id:
  assumes "inbox_inv rows" and "r \<in> set rows"
  shows "tab_first (\<lambda>x. ir_message_id x = ir_message_id r) rows = Some r"
  using tab_first_keyed [OF inbox_inv_keyed [OF assms(1)] assms(2) refl] .

lemma take_all: "length xs \<le> n \<Longrightarrow> take n xs = xs"
  by simp

section \<open>Properties\<close>

text \<open>The table and the arguments the witnesses of this theory evaluate.\<close>

definition sample_rows :: "inbox_row list" where
  "sample_rows = stage 0 [\<lparr>sm_body = JNull, sm_id = ''a'', sm_timestamp_ms = 0\<rparr>,
     \<lparr>sm_body = JNull, sm_id = ''b'', sm_timestamp_ms = 0\<rparr>] []"

definition sample_uuid :: "char \<Rightarrow> nat \<Rightarrow> string" where
  "sample_uuid c k = replicate k CHR ''u'' @ [c]"

definition sample_pull :: "char \<Rightarrow> instant \<Rightarrow> nat \<Rightarrow> pull_input" where
  "sample_pull c now n = \<lparr>pi_now = now, pi_batch_size = n, pi_visibility_ms = 1000,
     pi_uuid = sample_uuid c, pi_locked = {}\<rparr>"

lemma sample_uuid_inj: "inj (sample_uuid c)"
  by (rule injI) (metis length_append_singleton length_replicate nat.inject sample_uuid_def)

lemma sample_rows_inv: "inbox_inv sample_rows"
  unfolding sample_rows_def by (rule stage_inv) (simp add: inbox_inv_def tab_keyed_def leases_unique_def)

lemma sample_fresh: "fresh_uuids (sample_pull c now n) sample_rows"
  by (simp add: fresh_uuids_def sample_pull_def sample_uuid_inj live_leases_def sample_rows_def
        stage_def tab_insert_ignore_def staged_row_def)



text \<open>No message is lost: a message whose lease has run out, or that waits in the queue
  with its time come, is handed out by the next pull that has room for the table.\<close>

lemma due_message_is_pulled:
  assumes "inbox_inv rows" and "r \<in> set rows" and "length rows \<le> pi_batch_size p"
    and "pi_locked p = {}" and "pull_pg p rows = (rows', b)"
    and "expired_lease (pi_now p) r \<or> available_row (pi_now p) r"
  shows "ir_message_id r \<in> il_id ` set (ib_messages b)"
proof -
  let ?r = "requeue_expired (pi_now p) rows"
  let ?x = "if expired_lease (pi_now p) r then requeue_row (pi_now p) (pi_now p) r else r"
  have x: "?x \<in> set ?r" using assms(2) by (auto simp: requeue_expired_def set_tab_update)
  have av: "available_row (pi_now p) ?x" using assms(6) by (auto simp: available_row_def)
  have "length (filter (available_row (pi_now p)) ?r) \<le> pi_batch_size p"
    using assms(3) length_filter_le [of "available_row (pi_now p)" ?r]
    by (simp add: requeue_expired_def)
  then have "set (pull_candidates_pg (pi_now p) (pi_batch_size p) (pi_locked p) ?r)
      = set (filter (available_row (pi_now p)) ?r)"
    using assms(4) by (simp add: pull_candidates_pg_def)
  with x av have "?x \<in> set (pull_candidates_pg (pi_now p) (pi_batch_size p) (pi_locked p) ?r)"
    by simp
  then have "ir_message_id ?x \<in> set (map il_id (ib_messages b))"
    unfolding pull_pg_messages [OF assms(5) inbox_inv_keyed [OF assms(1)]] set_map by (rule imageI)
  moreover have "ir_message_id ?x = ir_message_id r" by simp
  ultimately show ?thesis by simp
qed

text \<open>Settling a batch releases it: with every lease of the batch acknowledged or
  retried, the acknowledged messages are gone and the retried ones wait unleased; the
  messages of other batches keep their place and their lease.\<close>

lemma settled_batch_is_released:
  assumes "inbox_inv rows" and "fresh_uuids p rows" and "pull_d1 p rows = (rows1, b)"
    and "covers st b" and "settle now st rows1 = Inr rows2" and "m \<in> set (ib_messages b)"
  shows "if il_lease_id m \<in> set (st_acks st) then il_id m \<notin> message_ids rows2
         else il_id m \<in> message_ids rows2 \<and> lease_of rows2 (il_id m) = None"
  by (rule d1.batch_released [OF assms(3,1,2,5,4,6)])

text \<open>The two backends are interchangeable: on a table with unique message ids the D1
  pull is the PostgreSQL pull of an uncontended table, and the settlements are the same.\<close>

lemma inbox_backends_agree:
  assumes "tab_keyed ir_message_id rows"
  shows "pull_d1 p rows = pull_pg (p\<lparr>pi_locked := {}\<rparr>) rows \<and> settle_pg now st rows = settle now st rows"
  using pull_backends_agree [OF assms] settle_pg_eq by blast

text \<open>Staging is idempotent: a message whose id is stored already is ignored, so a batch
  that is delivered twice leaves the table of its first delivery.\<close>

lemma stage_is_idempotent:
  "stage now' ms (stage now ms rows) = stage now ms rows
   \<and> message_ids (stage now ms rows) = message_ids rows \<union> sm_id ` set ms"
  by (simp add: stage_mem stage_known)

end
