(* ===== verification/Replay.thy ===== *)
theory Replay
  imports Effect_Ledger Queue_Inbox
begin

text \<open>
  The replay of dead letters: \<open>replayDeadLetter\<close> and \<open>rejectInvalidJob\<close> of
  \<open>apps/api/src/control-plane.ts\<close> (D1) and of \<open>control-plane-postgres-replay.ts\<close>. A replay
  reads the job, its effects, the operations done so far, the dead letter and its envelope,
  decrypts the job, and in one batch records the operation, stages the message and revives
  the job. Over D1 other requests may act between the reads and the batch: they are the
  argument \<open>others\<close>. SHA-256 is the field \<open>rc_sha256_hex\<close>.
\<close>

section \<open>Definitions\<close>

datatype replay_state = Replay_Published | Replay_Rejected

record replay_row =
  rp_idempotency_key :: string
  rp_job_id :: string
  rp_message_id :: string
  rp_status :: replay_state
  rp_reason :: string
  rp_created_at :: instant
  rp_updated_at :: instant

record control_db = ledger +
  cd_effects :: "effect_row list"
  cd_replays :: "replay_row list"
  cd_inbox :: "inbox_row list"

datatype replay_status = Status_Published | Status_Rejected | Status_Validated

record replay_result =
  rt_published :: bool
  rt_reason :: string
  rt_replayable :: bool
  rt_status :: replay_status

record replay_context =
  rc_env :: ledger_env
  rc_sha256_hex :: "string \<Rightarrow> string"

record replay_input =
  rq_dry_run :: bool
  rq_idempotency_key :: string

definition rejected_replay :: "string \<Rightarrow> replay_result" where
  "rejected_replay reason =
     \<lparr>rt_published = False, rt_reason = reason, rt_replayable = False, rt_status = Status_Rejected\<rparr>"

definition published_replay :: replay_result where
  "published_replay =
     \<lparr>rt_published = True, rt_reason = ''published'', rt_replayable = True,
      rt_status = Status_Published\<rparr>"

definition validated_replay :: replay_result where
  "validated_replay =
     \<lparr>rt_published = False, rt_reason = ''replayable'', rt_replayable = True,
      rt_status = Status_Validated\<rparr>"

definition repeated_replay :: "replay_row \<Rightarrow> replay_result" where
  "repeated_replay op =
     \<lparr>rt_published = (rp_status op = Replay_Published), rt_reason = rp_reason op,
      rt_replayable = (rp_status op = Replay_Published),
      rt_status = (if rp_status op = Replay_Published then Status_Published else Status_Rejected)\<rparr>"

text \<open>The effects of a job that cannot be repeated, and the reason they give.\<close>

definition terminal_effect :: "string \<Rightarrow> effect_row list \<Rightarrow> effect_row option" where
  "terminal_effect jobId effects =
     tab_first (\<lambda>r. er_job_id r = jobId \<and> er_status r \<in> {Effect_Done, Effect_Uncertain}) effects"

definition job_terminal_reason :: "job_status \<Rightarrow> string option" where
  "job_terminal_reason s =
     (if s = Done then Some ''done_terminal''
      else if s = Uncertain then Some ''uncertain_terminal'' else None)"

definition effect_terminal_reason :: "effect_status \<Rightarrow> string" where
  "effect_terminal_reason s = (if s = Effect_Done then ''done_terminal'' else ''uncertain_terminal'')"

text \<open>
  The checks before anything is written: the early return (\<open>Inl\<close>) or the job to replay
  with the id of its envelope (\<open>Inr\<close>).
\<close>

definition open_envelope ::
  "ledger_env \<Rightarrow> string \<Rightarrow> job_envelope \<Rightarrow> string + queue_job" where
  "open_envelope env jobId envelope =
     (case decrypt_json (le_vault env) (je_ciphertext envelope) (le_key env) of
        Inl _ \<Rightarrow> Inl ''envelope_invalid''
      | Inr v \<Rightarrow>
          (case parse_queue_job (le_formats env) v of
             None \<Rightarrow> Inl ''envelope_invalid''
           | Some job \<Rightarrow>
               if qj_job_id job \<noteq> jobId \<or> 1 \<noteq> je_schema_version envelope
                  \<or> le_digest env (json_of_job job) \<noteq> je_payload_digest envelope
               then Inl ''envelope_mismatch'' else Inr job))"

definition check_replay ::
  "replay_context \<Rightarrow> string \<Rightarrow> replay_input \<Rightarrow> 'a control_db_scheme
   \<Rightarrow> replay_result + queue_job \<times> string" where
  "check_replay ctx jobId input db =
     (case Option.bind (tab_first (\<lambda>r. wj_job_id r = jobId) (lg_jobs db))
              (\<lambda>r. job_terminal_reason (wj_status r)) of
        Some reason \<Rightarrow> Inl (rejected_replay reason)
      | None \<Rightarrow>
     (case terminal_effect jobId (cd_effects db) of
        Some effect \<Rightarrow> Inl (rejected_replay (effect_terminal_reason (er_status effect)))
      | None \<Rightarrow>
     (case tab_first (\<lambda>o'. rp_idempotency_key o' = rq_idempotency_key input) (cd_replays db) of
        Some op \<Rightarrow>
          if rp_job_id op \<noteq> jobId then Inl (rejected_replay ''idempotency_conflict'')
          else Inl (repeated_replay op)
      | None \<Rightarrow>
     (case Option.bind (tab_first (\<lambda>d. dl_job_id d = jobId) (lg_dead_letters db))
              dl_envelope_job_id of
        None \<Rightarrow> Inl (rejected_replay ''historical_unrecoverable'')
      | Some envelopeId \<Rightarrow>
          if envelopeId = [] then Inl (rejected_replay ''historical_unrecoverable'')
          else
     (case tab_first (\<lambda>e. je_job_id e = envelopeId) (lg_envelopes db) of
        None \<Rightarrow> Inl (rejected_replay ''envelope_unavailable'')
      | Some envelope \<Rightarrow>
          if je_status envelope \<noteq> Env_Dead then Inl (rejected_replay ''envelope_unavailable'')
          else (case open_envelope (rc_env ctx) jobId envelope of
              Inl reason \<Rightarrow> Inl (rejected_replay reason)
            | Inr job \<Rightarrow> Inr (job, envelopeId)))))))"

definition replay_message_id :: "replay_context \<Rightarrow> string \<Rightarrow> string \<Rightarrow> string" where
  "replay_message_id ctx jobId key = ''replay-'' @ rc_sha256_hex ctx (jobId @ CHR 0x00 # key)"

definition replay_operation :: "string \<Rightarrow> string \<Rightarrow> string \<Rightarrow> instant \<Rightarrow> replay_row" where
  "replay_operation key jobId messageId timestamp =
     \<lparr>rp_idempotency_key = key, rp_job_id = jobId, rp_message_id = messageId,
      rp_status = Replay_Published, rp_reason = ''published'', rp_created_at = timestamp,
      rp_updated_at = timestamp\<rparr>"

definition replay_message :: "string \<Rightarrow> queue_job \<Rightarrow> instant \<Rightarrow> inbox_row" where
  "replay_message messageId job timestamp =
     \<lparr>ir_message_id = messageId, ir_body = json_of_job job, ir_status = Queued, ir_attempts = 0,
      ir_lease_id = None, ir_lease_until = None, ir_available_at = timestamp,
      ir_timestamp_ms = timestamp, ir_created_at = timestamp, ir_updated_at = timestamp\<rparr>"

definition revived_job :: "instant \<Rightarrow> worker_job \<Rightarrow> worker_job" where
  "revived_job timestamp r =
     r\<lparr>wj_status := Failed, wj_failure_attempts := 0, wj_error_class := None,
       wj_error_message := None, wj_finished_at := None, wj_updated_at := timestamp\<rparr>"

definition revive_jobs :: "string \<Rightarrow> instant \<Rightarrow> worker_job list \<Rightarrow> worker_job list" where
  "revive_jobs jobId timestamp jobs =
     tab_update (\<lambda>r. wj_job_id r = jobId \<and> wj_status r = Dead) (revived_job timestamp) jobs"

definition revive_envelopes :: "string \<Rightarrow> instant \<Rightarrow> job_envelope list \<Rightarrow> job_envelope list" where
  "revive_envelopes jobId timestamp envelopes =
     tab_update (\<lambda>e. je_job_id e = jobId \<and> je_status e = Env_Dead)
       (mark_envelope Env_Active timestamp) envelopes"

text \<open>
  The batch over D1; \<open>None\<close> when the operation violates one of its unique columns, the
  idempotency key and the message id.
\<close>

definition replay_batch ::
  "replay_context \<Rightarrow> string \<Rightarrow> string \<Rightarrow> queue_job \<Rightarrow> instant \<Rightarrow> 'a control_db_scheme
   \<Rightarrow> 'a control_db_scheme option" where
  "replay_batch ctx jobId key job timestamp db =
     (let messageId = replay_message_id ctx jobId key
      in if key \<in> rp_idempotency_key ` set (cd_replays db)
            \<or> messageId \<in> rp_message_id ` set (cd_replays db)
         then None
         else Some (db
           \<lparr>lg_jobs := revive_jobs jobId timestamp (lg_jobs db),
            lg_envelopes := revive_envelopes jobId timestamp (lg_envelopes db),
            cd_replays := cd_replays db @ [replay_operation key jobId messageId timestamp],
            cd_inbox := tab_insert_ignore ir_message_id (replay_message messageId job timestamp)
              (cd_inbox db)\<rparr>))"

text \<open>\<open>replayDeadLetter\<close> over D1; \<open>None\<close> is the error of a batch that failed for good.\<close>

definition replay_dead_letter ::
  "replay_context \<Rightarrow> string \<Rightarrow> replay_input \<Rightarrow> instant
   \<Rightarrow> ('a control_db_scheme \<Rightarrow> 'a control_db_scheme) \<Rightarrow> 'a control_db_scheme
   \<Rightarrow> 'a control_db_scheme \<times> replay_result option" where
  "replay_dead_letter ctx jobId input now others db =
     (case check_replay ctx jobId input db of
        Inl r \<Rightarrow> (db, Some r)
      | Inr (job, envelopeId) \<Rightarrow>
          if rq_dry_run input then (db, Some validated_replay)
          else
            (case replay_batch ctx jobId (rq_idempotency_key input) job now (others db) of
               Some db' \<Rightarrow> (db', Some published_replay)
             | None \<Rightarrow>
                 (case tab_first (\<lambda>o'. rp_idempotency_key o' = rq_idempotency_key input)
                         (cd_replays (others db)) of
                    Some op \<Rightarrow>
                      if rp_job_id op = jobId \<and> rp_status op = Replay_Published
                      then (others db, Some published_replay) else (others db, None)
                  | None \<Rightarrow> (others db, None))))"

text \<open>
  Over PostgreSQL: one transaction under an advisory lock on the key. A clash of the
  message id alone raises an error and is rolled back.
\<close>

definition replay_dead_letter_pg ::
  "replay_context \<Rightarrow> string \<Rightarrow> replay_input \<Rightarrow> instant \<Rightarrow> 'a control_db_scheme
   \<Rightarrow> 'a control_db_scheme \<times> replay_result option" where
  "replay_dead_letter_pg ctx jobId input now db =
     (case check_replay ctx jobId input db of
        Inl r \<Rightarrow> (db, Some r)
      | Inr (job, envelopeId) \<Rightarrow>
          if rq_dry_run input then (db, Some validated_replay)
          else
            (let key = rq_idempotency_key input; messageId = replay_message_id ctx jobId key
             in if key \<in> rp_idempotency_key ` set (cd_replays db)
                then (case tab_first (\<lambda>o'. rp_idempotency_key o' = key) (cd_replays db) of
                        None \<Rightarrow> (db, Some (rejected_replay ''idempotency_conflict''))
                      | Some op \<Rightarrow>
                          if rp_job_id op \<noteq> jobId
                          then (db, Some (rejected_replay ''idempotency_conflict''))
                          else (db, Some (repeated_replay op)))
                else if messageId \<in> rp_message_id ` set (cd_replays db) then (db, None)
                else
                  (let db1 = db\<lparr>cd_replays := cd_replays db
                         @ [replay_operation key jobId messageId now]\<rparr>;
                       db2 = db1\<lparr>cd_inbox := tab_insert_ignore ir_message_id
                         (replay_message messageId job now) (cd_inbox db1)\<rparr>;
                       db3 = db2\<lparr>lg_jobs := revive_jobs jobId now (lg_jobs db2)\<rparr>;
                       db4 = db3\<lparr>lg_envelopes := revive_envelopes envelopeId now
                         (lg_envelopes db3)\<rparr>
                   in (db4, Some published_replay))))"

text \<open>\<open>rejectInvalidJob\<close>: a message that is no job becomes a dead letter of its own.\<close>

record invalid_job =
  iv_attempts :: nat
  iv_message_id :: string
  iv_payload_digest :: string
  iv_reason :: string

definition reject_invalid_job ::
  "invalid_job \<Rightarrow> instant \<Rightarrow> 'a ledger_scheme \<Rightarrow> 'a ledger_scheme" where
  "reject_invalid_job input now db =
     db\<lparr>lg_dead_letters := tab_insert_ignore dl_job_id
         \<lparr>dl_job_id = iv_message_id input, dl_dedupe_key = ''invalid:'' @ iv_message_id input,
          dl_kind = ''invalid'', dl_item_kind = None, dl_attempts = iv_attempts input,
          dl_error_class = Permanent, dl_error_message = js_slice 500 (iv_reason input),
          dl_payload_digest = iv_payload_digest input, dl_envelope_job_id = None,
          dl_created_at = now\<rparr> (lg_dead_letters db)\<rparr>"

section \<open>Lemmas\<close>

lemma revived_job_keeps_keys [row_simps]:
  "wj_job_id (revived_job t r) = wj_job_id r"
  "wj_dedupe_key (revived_job t r) = wj_dedupe_key r"
  by (simp_all add: revived_job_def)

lemma revive_jobs_mem:
  assumes "r' \<in> set (revive_jobs jobId t jobs)"
  obtains r where "r \<in> set jobs"
    and "r' = (if wj_job_id r = jobId \<and> wj_status r = Dead then revived_job t r else r)"
    and "wj_job_id r' = wj_job_id r"
  using assms unfolding revive_jobs_def set_tab_update by (auto simp: row_simps)

lemma revive_envelopes_mem:
  assumes "e' \<in> set (revive_envelopes jobId t envelopes)"
  obtains e where "e \<in> set envelopes"
    and "e' = (if je_job_id e = jobId \<and> je_status e = Env_Dead then mark_envelope Env_Active t e
               else e)"
    and "je_job_id e' = je_job_id e"
  using assms unfolding revive_envelopes_def set_tab_update by (auto simp: row_simps)

lemma revive_ids:
  "wj_job_id ` set (revive_jobs jobId t jobs) = wj_job_id ` set jobs"
  unfolding revive_jobs_def
  by (rule row_write.keys_update [OF row_write.intro]) (simp add: row_simps)

lemma revive_inv:
  assumes inv: "ledger_inv db"
    and jobs: "lg_jobs db' = revive_jobs jobId t (lg_jobs db)"
    and envs: "lg_envelopes db' = revive_envelopes jobId t (lg_envelopes db)"
    and dead: "lg_dead_letters db' = lg_dead_letters db"
  shows "ledger_inv db'"
proof -
  have agrees: "envelope_agrees r' e'"
    if "r' \<in> set (revive_jobs jobId t (lg_jobs db))"
      and "e' \<in> set (revive_envelopes jobId t (lg_envelopes db))"
      and id: "je_job_id e' = wj_job_id r'" for r' e'
  proof -
    from that(1) obtain r where r: "r \<in> set (lg_jobs db)" "wj_job_id r' = wj_job_id r"
      "r' = (if wj_job_id r = jobId \<and> wj_status r = Dead then revived_job t r else r)"
      by (rule revive_jobs_mem)
    from that(2) obtain e where e: "e \<in> set (lg_envelopes db)" "je_job_id e' = je_job_id e"
      "e' = (if je_job_id e = jobId \<and> je_status e = Env_Dead then mark_envelope Env_Active t e else e)"
      by (rule revive_envelopes_mem)
    have old: "envelope_agrees r e"
      using ledger_invD(7) [OF inv r(1) e(1)] id r(2) e(2) by simp
    then have "je_status e = Env_Dead \<longleftrightarrow> wj_status r = Dead"
      by (cases "wj_status r") (simp_all add: envelope_agrees_def)
    then show ?thesis using old r(2,3) e(2,3) id
      by (simp add: envelope_agrees_def revived_job_def mark_envelope_def split: if_splits)
  qed
  have active: "je_status e' = Env_Active"
    if "e' \<in> set (revive_envelopes jobId t (lg_envelopes db))"
      and out: "je_job_id e' \<notin> wj_job_id ` set (lg_jobs db)" for e'
  proof -
    from that(1) obtain e where e: "e \<in> set (lg_envelopes db)" "je_job_id e' = je_job_id e"
      "e' = (if je_job_id e = jobId \<and> je_status e = Env_Dead then mark_envelope Env_Active t e else e)"
      by (rule revive_envelopes_mem)
    then have "je_status e = Env_Active" using ledger_invD(8) [OF inv e(1)] out by simp
    then show ?thesis using e(3) by (simp add: mark_envelope_def)
  qed
  have "envelopes_ok (lg_jobs db') (lg_envelopes db')"
    unfolding envelopes_ok_def jobs envs revive_ids using agrees active by blast
  moreover have "dead_letters_ok (lg_jobs db') (lg_dead_letters db')"
    unfolding dead_letters_ok_def jobs dead
  proof (intro ballI impI)
    fix r' assume r': "r' \<in> set (revive_jobs jobId t (lg_jobs db))" and d: "wj_status r' = Dead"
    from r' obtain r where r: "r \<in> set (lg_jobs db)" "wj_job_id r' = wj_job_id r"
      "r' = (if wj_job_id r = jobId \<and> wj_status r = Dead then revived_job t r else r)"
      by (rule revive_jobs_mem)
    have "r' = r" using r(3) d by (auto simp: revived_job_def split: if_splits)
    then show "\<exists>x\<in>set (lg_dead_letters db). dl_job_id x = wj_job_id r'
        \<and> dl_attempts x = wj_failure_attempts r'"
      using ledger_invD(9) [OF inv r(1)] d by simp
  qed
  moreover have "row_ok r'" if "r' \<in> set (lg_jobs db')" for r'
  proof -
    from that [unfolded jobs] obtain r where r: "r \<in> set (lg_jobs db)"
      "r' = (if wj_job_id r = jobId \<and> wj_status r = Dead then revived_job t r else r)"
      by (rule revive_jobs_mem)
    then show ?thesis using ledger_invD(6) [OF inv r(1)]
      by (auto simp: row_ok_def revived_job_def terminal_status_def)
  qed
  moreover have "tab_keyed wj_dedupe_key (lg_jobs db')" "tab_keyed wj_job_id (lg_jobs db')"
    "tab_keyed je_job_id (lg_envelopes db')" "tab_keyed je_dedupe_key (lg_envelopes db')"
    unfolding jobs envs revive_jobs_def revive_envelopes_def
    using ledger_invD(1-4) [OF inv] by (simp_all add: tab_keyed_update row_simps)
  ultimately show ?thesis using ledger_invD(5) [OF inv] by (simp add: ledger_inv_def dead)
qed

lemma replay_batch_SomeD:
  "replay_batch ctx jobId key job t db = Some db' \<Longrightarrow>
     lg_jobs db' = revive_jobs jobId t (lg_jobs db)
     \<and> lg_envelopes db' = revive_envelopes jobId t (lg_envelopes db)
     \<and> lg_dead_letters db' = lg_dead_letters db \<and> lg_sync_jobs db' = lg_sync_jobs db
     \<and> cd_effects db' = cd_effects db
     \<and> cd_replays db' = cd_replays db
          @ [replay_operation key jobId (replay_message_id ctx jobId key) t]
     \<and> cd_inbox db' = tab_insert_ignore ir_message_id
          (replay_message (replay_message_id ctx jobId key) job t) (cd_inbox db)
     \<and> key \<notin> rp_idempotency_key ` set (cd_replays db)
     \<and> replay_message_id ctx jobId key \<notin> rp_message_id ` set (cd_replays db)"
  by (auto simp: replay_batch_def Let_def split: if_splits)

lemma check_replay_InlD:
  "check_replay ctx jobId input db = Inl r \<Longrightarrow> rt_status r = Status_Published \<Longrightarrow>
   \<exists>op\<in>set (cd_replays db). rp_idempotency_key op = rq_idempotency_key input
     \<and> rp_job_id op = jobId \<and> rp_status op = Replay_Published"
  by (auto simp: check_replay_def rejected_replay_def repeated_replay_def
      dest!: tab_first_SomeD split: option.splits if_splits sum.splits)

text \<open>A replay that goes through passed every check.\<close>

lemma check_replay_InrD:
  assumes "check_replay ctx jobId input db = Inr (job, envelopeId)"
  shows "\<And>r. tab_first (\<lambda>r. wj_job_id r = jobId) (lg_jobs db) = Some r
      \<Longrightarrow> wj_status r \<noteq> Done \<and> wj_status r \<noteq> Uncertain"
    and "terminal_effect jobId (cd_effects db) = None"
    and "rq_idempotency_key input \<notin> rp_idempotency_key ` set (cd_replays db)"
    and "\<exists>d\<in>set (lg_dead_letters db). dl_job_id d = jobId \<and> dl_envelope_job_id d = Some envelopeId"
    and "\<exists>e\<in>set (lg_envelopes db). je_job_id e = envelopeId \<and> je_status e = Env_Dead
      \<and> open_envelope (rc_env ctx) jobId e = Inr job"
proof -
  obtain e d where e: "tab_first (\<lambda>e. je_job_id e = envelopeId) (lg_envelopes db) = Some e"
      "je_status e = Env_Dead" "open_envelope (rc_env ctx) jobId e = Inr job"
    and d: "tab_first (\<lambda>d. dl_job_id d = jobId) (lg_dead_letters db) = Some d"
      "dl_envelope_job_id d = Some envelopeId"
    and k: "tab_first (\<lambda>o'. rp_idempotency_key o' = rq_idempotency_key input) (cd_replays db) = None"
    and t: "terminal_effect jobId (cd_effects db) = None"
    and j: "Option.bind (tab_first (\<lambda>r. wj_job_id r = jobId) (lg_jobs db))
        (\<lambda>r. job_terminal_reason (wj_status r)) = None"
    using assms
    by (auto simp: check_replay_def bind_eq_Some_conv split: option.splits if_splits sum.splits)
  show "terminal_effect jobId (cd_effects db) = None" by (rule t)
  show "\<exists>e\<in>set (lg_envelopes db). je_job_id e = envelopeId \<and> je_status e = Env_Dead
      \<and> open_envelope (rc_env ctx) jobId e = Inr job"
    using tab_first_SomeD [OF e(1)] e(2,3) by blast
  show "\<exists>d\<in>set (lg_dead_letters db). dl_job_id d = jobId \<and> dl_envelope_job_id d = Some envelopeId"
    using tab_first_SomeD [OF d(1)] d(2) by blast
  show "rq_idempotency_key input \<notin> rp_idempotency_key ` set (cd_replays db)"
    using k by (auto simp: tab_first_None)
  show "wj_status r \<noteq> Done \<and> wj_status r \<noteq> Uncertain"
    if "tab_first (\<lambda>r. wj_job_id r = jobId) (lg_jobs db) = Some r" for r
    using j that by (auto simp: job_terminal_reason_def split: if_splits)
qed

text \<open>The states an article passes through on its way to the dead letters.\<close>

lemma claim_article:
  assumes "job_ok (le_formats env) job" and "job_item_kind job = Some Article"
    and "encrypt_json (le_vault env) (json_of_job job) (le_key env) = Inr cipher"
    and "qj_dedupe_key job \<notin> wj_dedupe_key ` set (lg_jobs db)"
    and "qj_job_id job \<notin> wj_job_id ` set (lg_jobs db)"
    and "qj_job_id job \<notin> je_job_id ` set (lg_envelopes db)"
    and "qj_dedupe_key job \<notin> je_dedupe_key ` set (lg_envelopes db)"
  shows "claim_job env (json_of_job job) t db =
    (db\<lparr>lg_jobs := lg_jobs db @ [new_worker_job job t],
        lg_envelopes := lg_envelopes db @
          [\<lparr>je_job_id = qj_job_id job, je_dedupe_key = qj_dedupe_key job, je_schema_version = 1,
            je_payload_digest = le_digest env (json_of_job job), je_ciphertext = cipher,
            je_status = Env_Active, je_created_at = t, je_updated_at = t\<rparr>]\<rparr>,
     Inr (Job_Claimed 1))"
proof -
  have "tab_first (\<lambda>r. wj_dedupe_key r = qj_dedupe_key job) (lg_jobs db) = None"
    unfolding tab_first_None using assms(4) by (metis imageI)
  then show ?thesis
    using assms
    by (simp add: claim_job_def parse_json_of_job insert_claim_def prepare_article_envelope_def
        insert_worker_job_def insert_envelope_def)
qed

lemma first_of_snoc:
  "key r = k \<Longrightarrow> k \<notin> key ` set rows \<Longrightarrow> tab_first (\<lambda>r. key r = k) (rows @ [r]) = Some r"
proof -
  assume k: "key r = k" and out: "k \<notin> key ` set rows"
  have "tab_first (\<lambda>r. key r = k) rows = None" unfolding tab_first_None using out by (metis imageI)
  then show ?thesis using k by (simp add: tab_first_append)
qed

lemma update_of_snoc:
  "key r = k \<Longrightarrow> k \<notin> key ` set rows \<Longrightarrow>
   tab_update (\<lambda>r. key r = k) f (rows @ [r]) = rows @ [f r]"
proof -
  assume k: "key r = k" and out: "k \<notin> key ` set rows"
  have "tab_update (\<lambda>r. key r = k) f rows = rows"
    by (rule tab_update_none) (metis out imageI)
  then show ?thesis using k by (simp add: tab_update_def)
qed

lemma dead_letter_has_envelope:
  assumes "dl_job_id d = jobId"
  shows "\<exists>x. tab_first (\<lambda>x. dl_job_id x = jobId)
      (tab_upsert dl_job_id merge_dead_letter d rows) = Some x
    \<and> dl_envelope_job_id x = dl_envelope_job_id d"
proof (cases "jobId \<in> dl_job_id ` set rows")
  case True
  then have "tab_first (\<lambda>x. dl_job_id x = jobId) rows \<noteq> None" by (auto simp: tab_first_None)
  then show ?thesis
    using True tab_first_mapped [of dl_job_id "\<lambda>old. merge_dead_letter old d" jobId rows] assms
    by (auto simp: tab_upsert_def row_simps) (simp add: merge_dead_letter_def)
next
  case False
  then show ?thesis using first_of_snoc [of dl_job_id d jobId rows] assms
    by (simp add: tab_upsert_def)
qed

text \<open>A dead article: the row, its envelope and its letter agree, and the envelope opens.\<close>

definition buried :: "ledger_env \<Rightarrow> queue_job \<Rightarrow> 'a ledger_scheme \<Rightarrow> bool" where
  "buried env job db =
     (\<exists>row e d. tab_first (\<lambda>r. wj_job_id r = qj_job_id job) (lg_jobs db) = Some row
        \<and> wj_status row = Dead
        \<and> tab_first (\<lambda>x. je_job_id x = qj_job_id job) (lg_envelopes db) = Some e
        \<and> je_status e = Env_Dead \<and> open_envelope env (qj_job_id job) e = Inr job
        \<and> tab_first (\<lambda>x. dl_job_id x = qj_job_id job) (lg_dead_letters db) = Some d
        \<and> dl_envelope_job_id d = Some (qj_job_id job))"

definition sealed_envelope ::
  "ledger_env \<Rightarrow> queue_job \<Rightarrow> bytes \<Rightarrow> instant \<Rightarrow> job_envelope" where
  "sealed_envelope env job cipher t =
     \<lparr>je_job_id = qj_job_id job, je_dedupe_key = qj_dedupe_key job, je_schema_version = 1,
      je_payload_digest = le_digest env (json_of_job job), je_ciphertext = cipher,
      je_status = Env_Active, je_created_at = t, je_updated_at = t\<rparr>"

lemma sealed_envelope_opens:
  assumes "job_ok (le_formats env) job" and "vault_ok (le_vault env) (json_of_job job)"
    and "encrypt_json (le_vault env) (json_of_job job) (le_key env) = Inr cipher"
  shows "open_envelope env (qj_job_id job) (mark_envelope s u (sealed_envelope env job cipher t))
    = Inr job"
  using decrypt_encrypt [OF assms(2,3)] parse_json_of_job [OF assms(1)]
  by (simp add: open_envelope_def sealed_envelope_def mark_envelope_def)

lemma failed_article_is_buried:
  fixes db :: "'a control_db_scheme"
  assumes job: "job_ok (le_formats env) job"
    and env: "vault_ok (le_vault env) (json_of_job job)"
      "encrypt_json (le_vault env) (json_of_job job) (le_key env) = Inr cipher"
      "le_digest env (json_of_job job) \<noteq> []"
    and new: "qj_job_id job \<notin> wj_job_id ` set (lg_jobs db)"
      "qj_job_id job \<notin> je_job_id ` set (lg_envelopes db)"
    and fail: "finish_job (qj_job_id job) (Result_Failed (Some Permanent) msg dig) t2
      (db\<lparr>lg_jobs := lg_jobs db @ [new_worker_job job t1],
          lg_envelopes := lg_envelopes db @ [sealed_envelope env job cipher t1]\<rparr>) = (db2, r)"
  shows "buried env job db2 \<and> cd_effects db2 = cd_effects db \<and> cd_replays db2 = cd_replays db
    \<and> cd_inbox db2 = cd_inbox db"
proof -
  let ?id = "qj_job_id job" and ?w = "new_worker_job job t1"
  let ?e = "sealed_envelope env job cipher t1"
  define m where "m = js_slice 500 (nullish msg ''worker job failed'')"
  define w2 where "w2 = dead_job 1 Permanent m t2 ?w"
  define d where "d = new_dead_letter ?id ?w 1 Permanent m (le_digest env (json_of_job job)) (Some ?e) t2"
  define e2 where "e2 = mark_envelope Env_Dead t2 ?e"
  have id: "je_job_id ?e = ?id" by (simp add: sealed_envelope_def)
  have digest: "dead_letter_digest (Some ?e) dig = Some (le_digest env (json_of_job job))"
    using env(3) by (simp add: dead_letter_digest_def sealed_envelope_def)
  have first: "tab_first (\<lambda>r. wj_job_id r = ?id) (lg_jobs db @ [?w]) = Some ?w"
    "tab_first (\<lambda>x. je_job_id x = ?id) (lg_envelopes db @ [?e]) = Some ?e"
    using first_of_snoc [of wj_job_id ?w ?id] first_of_snoc [of je_job_id ?e ?id] new id by simp_all
  have db2: "lg_jobs db2 = lg_jobs db @ [w2]" "lg_envelopes db2 = lg_envelopes db @ [e2]"
    "lg_dead_letters db2 = tab_upsert dl_job_id merge_dead_letter d (lg_dead_letters db)"
    "cd_effects db2 = cd_effects db" "cd_replays db2 = cd_replays db" "cd_inbox db2 = cd_inbox db"
    using fail first digest new id
      update_of_snoc [of wj_job_id ?w ?id "lg_jobs db" "dead_job 1 Permanent m t2"]
      update_of_snoc [of je_job_id ?e ?id "lg_envelopes db" "mark_envelope Env_Dead t2"]
    by (auto simp: finish_job_def fail_job_def Let_def m_def w2_def d_def e2_def terminal_status_def
        new_worker_job_def)
  have "tab_first (\<lambda>r. wj_job_id r = ?id) (lg_jobs db2) = Some w2" "wj_status w2 = Dead"
    unfolding db2 using first_of_snoc [of wj_job_id w2 ?id "lg_jobs db"] new(1)
    by (simp_all add: w2_def row_simps) (simp add: dead_job_def)
  moreover have "tab_first (\<lambda>x. je_job_id x = ?id) (lg_envelopes db2) = Some e2"
    "je_status e2 = Env_Dead"
    unfolding db2 using first_of_snoc [of je_job_id e2 ?id "lg_envelopes db"] new(2) id
    by (simp_all add: e2_def row_simps) (simp add: mark_envelope_def)
  moreover have "open_envelope env ?id e2 = Inr job"
    unfolding e2_def by (rule sealed_envelope_opens [OF job env(1,2)])
  moreover have "\<exists>x. tab_first (\<lambda>x. dl_job_id x = ?id) (lg_dead_letters db2) = Some x
      \<and> dl_envelope_job_id x = Some ?id"
    unfolding db2 using dead_letter_has_envelope [of d ?id "lg_dead_letters db"]
    by (simp add: d_def new_dead_letter_def)
  ultimately show ?thesis unfolding buried_def using db2(4-6) by blast
qed

lemma check_buried:
  assumes "buried (rc_env ctx) job db" and "qj_job_id job \<noteq> []"
    and "terminal_effect (qj_job_id job) (cd_effects db) = None"
    and "rq_idempotency_key input \<notin> rp_idempotency_key ` set (cd_replays db)"
  shows "check_replay ctx (qj_job_id job) input db = Inr (job, qj_job_id job)"
proof -
  have "tab_first (\<lambda>o'. rp_idempotency_key o' = rq_idempotency_key input) (cd_replays db) = None"
    unfolding tab_first_None using assms(4) by (metis imageI)
  then show ?thesis using assms(1-3)
    by (auto simp: buried_def check_replay_def job_terminal_reason_def)
qed

lemma first_revived:
  assumes "tab_first (\<lambda>r. wj_job_id r = jobId) jobs = Some row" and "wj_status row = Dead"
  shows "tab_first (\<lambda>r. wj_job_id r = jobId) (revive_jobs jobId t jobs) = Some (revived_job t row)"
  using row_write.first_update_key [OF row_write.intro, of wj_job_id "revived_job t" jobId
      "\<lambda>r. wj_job_id r = jobId \<and> wj_status r = Dead" jobs] assms tab_first_SomeD [OF assms(1)]
  by (simp add: revive_jobs_def row_simps)

lemma replay_recorded:
  assumes "replay_dead_letter ctx jobId input t others db = (db', Some r)"
    and "rt_status r = Status_Published"
  obtains op where "tab_first (\<lambda>o'. rp_idempotency_key o' = rq_idempotency_key input)
      (cd_replays db') = Some op"
    and "rp_job_id op = jobId" and "rp_status op = Replay_Published"
proof (cases "check_replay ctx jobId input db")
  case (Inl a)
  then have "db' = db" "a = r" using assms(1) by (simp_all add: replay_dead_letter_def)
  with Inl assms(2) that show ?thesis
    by (auto simp: check_replay_def rejected_replay_def repeated_replay_def
        split: option.splits if_splits sum.splits)
next
  case (Inr jobEnv)
  obtain job envelopeId where je: "jobEnv = (job, envelopeId)" by force
  have wet: "\<not> rq_dry_run input"
    using assms Inr je by (auto simp: replay_dead_letter_def validated_replay_def)
  show ?thesis
  proof (cases "replay_batch ctx jobId (rq_idempotency_key input) job t (others db)")
    case None
    then show ?thesis using assms(1) Inr je wet that
      by (auto simp: replay_dead_letter_def split: option.splits if_splits)
  next
    case (Some db1)
    let ?op = "replay_operation (rq_idempotency_key input) jobId
      (replay_message_id ctx jobId (rq_idempotency_key input)) t"
    have "db' = db1" using assms(1) Inr je wet Some by (simp add: replay_dead_letter_def)
    then have "tab_first (\<lambda>o'. rp_idempotency_key o' = rq_idempotency_key input) (cd_replays db')
        = Some ?op"
      using replay_batch_SomeD [OF Some] first_of_snoc [of rp_idempotency_key ?op]
      by (simp add: replay_operation_def)
    then show ?thesis by (rule that) (simp_all add: replay_operation_def)
  qed
qed

lemma replay_recorded_again:
  assumes "tab_first (\<lambda>o'. rp_idempotency_key o' = rq_idempotency_key input) (cd_replays db) = Some op"
  shows "fst (replay_dead_letter ctx jobId input t others db) = db"
  using assms by (auto simp: replay_dead_letter_def check_replay_def split: option.splits)

lemma replay_backends_agree:
  assumes "\<forall>d\<in>set (lg_dead_letters db). dl_envelope_job_id d \<in> {None, Some (dl_job_id d)}"
  shows "replay_dead_letter_pg ctx jobId input t db = replay_dead_letter ctx jobId input t (\<lambda>d. d) db"
proof (cases "check_replay ctx jobId input db")
  case (Inl a)
  then show ?thesis by (simp add: replay_dead_letter_def replay_dead_letter_pg_def)
next
  case (Inr jobEnv)
  obtain job envelopeId where je: "jobEnv = (job, envelopeId)" by force
  note chk = check_replay_InrD [OF Inr [unfolded je]]
  obtain d where d: "d \<in> set (lg_dead_letters db)" "dl_job_id d = jobId"
      "dl_envelope_job_id d = Some envelopeId" using chk(4) by blast
  then have id: "envelopeId = jobId" using assms by fastforce
  have nokey: "tab_first (\<lambda>o'. rp_idempotency_key o' = rq_idempotency_key input) (cd_replays db) = None"
    unfolding tab_first_None using chk(3) by (metis imageI)
  show ?thesis using Inr je id nokey chk(3)
    by (simp add: replay_dead_letter_def replay_dead_letter_pg_def replay_batch_def Let_def)
qed

section \<open>Properties\<close>

text \<open>C6: An article that was claimed and then failed for good is not lost: its replay is
  published, the message it stages carries exactly the job that was claimed, through
  encryption, storage and parsing, and the row of the job is open again with no failure
  counted.\<close>

theorem dead_article_is_replayed:
  fixes db :: control_db
  assumes job: "job_ok (le_formats (rc_env ctx)) job" "job_item_kind job = Some Article"
      "qj_job_id job \<noteq> []"
    and env: "vault_ok (le_vault (rc_env ctx)) (json_of_job job)"
      "encrypt_json (le_vault (rc_env ctx)) (json_of_job job) (le_key (rc_env ctx)) = Inr cipher"
      "le_digest (rc_env ctx) (json_of_job job) \<noteq> []"
    and new: "qj_dedupe_key job \<notin> wj_dedupe_key ` set (lg_jobs db)"
      "qj_job_id job \<notin> wj_job_id ` set (lg_jobs db)"
      "qj_job_id job \<notin> je_job_id ` set (lg_envelopes db)"
      "qj_dedupe_key job \<notin> je_dedupe_key ` set (lg_envelopes db)"
    and op: "terminal_effect (qj_job_id job) (cd_effects db) = None"
      "key \<notin> rp_idempotency_key ` set (cd_replays db)"
      "replay_message_id ctx (qj_job_id job) key \<notin> rp_message_id ` set (cd_replays db)"
      "replay_message_id ctx (qj_job_id job) key \<notin> ir_message_id ` set (cd_inbox db)"
    and claim: "claim_job (rc_env ctx) (json_of_job job) t1 db = (db1, c)"
    and fail: "finish_job (qj_job_id job) (Result_Failed (Some Permanent) msg dig) t2 db1 = (db2, r)"
    and replay: "replay_dead_letter ctx (qj_job_id job)
        \<lparr>rq_dry_run = False, rq_idempotency_key = key\<rparr> t3 (\<lambda>d. d) db2 = (db3, out)"
  shows "out = Some published_replay
    \<and> (\<exists>m\<in>set (cd_inbox db3). ir_status m = Queued
         \<and> parse_queue_job (le_formats (rc_env ctx)) (ir_body m) = Some job)
    \<and> (\<exists>row. tab_first (\<lambda>r. wj_job_id r = qj_job_id job) (lg_jobs db3) = Some row
         \<and> wj_status row = Failed \<and> wj_failure_attempts row = 0)"
proof -
  let ?id = "qj_job_id job"
  have "db1 = db\<lparr>lg_jobs := lg_jobs db @ [new_worker_job job t1],
      lg_envelopes := lg_envelopes db @ [sealed_envelope (rc_env ctx) job cipher t1]\<rparr>"
    using claim claim_article [OF job(1,2) env(2) new(1,2,3,4), of t1]
    by (simp add: sealed_envelope_def)
  from failed_article_is_buried [OF job(1) env new(2,3) fail [unfolded this]]
  have db2: "buried (rc_env ctx) job db2" "cd_effects db2 = cd_effects db"
    "cd_replays db2 = cd_replays db" "cd_inbox db2 = cd_inbox db" by blast+
  have chk: "check_replay ctx ?id \<lparr>rq_dry_run = False, rq_idempotency_key = key\<rparr> db2
      = Inr (job, ?id)"
    by (rule check_buried [OF db2(1) job(3)]) (simp_all add: db2 op)
  obtain db3' where batch: "replay_batch ctx ?id key job t3 db2 = Some db3'"
    using op(2,3) by (simp add: replay_batch_def Let_def db2(3))
  have out: "out = Some published_replay" "db3 = db3'"
    using replay chk batch by (simp_all add: replay_dead_letter_def)
  note after = replay_batch_SomeD [OF batch, folded out(2)]
  have "replay_message (replay_message_id ctx ?id key) job t3 \<in> set (cd_inbox db3)"
    using after op(4) by (simp add: set_tab_insert_ignore replay_message_def db2(4))
  moreover have "parse_queue_job (le_formats (rc_env ctx))
      (ir_body (replay_message (replay_message_id ctx ?id key) job t3)) = Some job"
    and "ir_status (replay_message (replay_message_id ctx ?id key) job t3) = Queued"
    by (simp_all add: replay_message_def parse_json_of_job [OF job(1)])
  moreover obtain row where "tab_first (\<lambda>r. wj_job_id r = ?id) (lg_jobs db2) = Some row"
      "wj_status row = Dead"
    using db2(1) unfolding buried_def by blast
  then have "tab_first (\<lambda>r. wj_job_id r = ?id) (lg_jobs db3) = Some (revived_job t3 row)"
    using after first_revived by simp
  ultimately show ?thesis using out(1) by (auto simp: revived_job_def)
qed

definition sample_context :: "queue_job \<Rightarrow> replay_context" where
  "sample_context job = \<lparr>rc_env = sample_ledger_env (json_of_job job)\<lparr>le_key := '' key''\<rparr>,
     rc_sha256_hex = (\<lambda>s. s)\<rparr>"

definition empty_control :: control_db where
  "empty_control = \<lparr>lg_jobs = [], lg_envelopes = [], lg_dead_letters = [], lg_sync_jobs = [],
     cd_effects = [], cd_replays = [], cd_inbox = []\<rparr>"

definition sample_burial :: "instant \<Rightarrow> instant \<Rightarrow> control_db" where
  "sample_burial t1 t2 = (let env = rc_env (sample_context (sample_article_job ''a''))
     in fst (finish_job ''a'' (Result_Failed (Some Permanent) None None) t2
          (fst (claim_job env (json_of_job (sample_article_job ''a'')) t1 empty_control))))"

theorem dead_article_is_replayed_witness:
  "snd (replay_dead_letter (sample_context (sample_article_job ''a'')) ''a''
      \<lparr>rq_dry_run = False, rq_idempotency_key = ''k''\<rparr> 9 (\<lambda>d. d) (sample_burial 0 5))
    = Some published_replay"
proof -
  let ?job = "sample_article_job ''a''"
  let ?ctx = "sample_context ?job"
  obtain db1 c where claim: "claim_job (rc_env ?ctx) (json_of_job ?job) 0 empty_control = (db1, c)"
    by force
  obtain db2 r where fail: "finish_job (qj_job_id ?job) (Result_Failed (Some Permanent) None None) 5 db1
      = (db2, r)" by force
  obtain db3 out where replay: "replay_dead_letter ?ctx (qj_job_id ?job)
      \<lparr>rq_dry_run = False, rq_idempotency_key = ''k''\<rparr> 9 (\<lambda>d. d) db2 = (db3, out)" by force
  have id: "qj_job_id ?job = ''a''" by (simp add: sample_article_job_def)
  have env: "rc_env ?ctx = (sample_ledger_env (json_of_job ?job))\<lparr>le_key := '' key''\<rparr>"
    by (simp add: sample_context_def)
  have "out = Some published_replay"
  proof (rule dead_article_is_replayed [THEN conjunct1, OF _ _ _ _ _ _ _ _ _ _ _ _ _ _ claim fail replay])
    show "encrypt_json (le_vault (rc_env ?ctx)) (json_of_job ?job) (le_key (rc_env ?ctx))
        = Inr (1 # replicate 12 9 @ [7, 42])"
      unfolding env using sample_encrypt by (simp add: sample_ledger_env_def)
    show "vault_ok (le_vault (rc_env ?ctx)) (json_of_job ?job)"
      unfolding env using sample_vault_ok by (simp add: sample_ledger_env_def)
    show "job_ok (le_formats (rc_env ?ctx)) ?job"
      unfolding env by (simp add: sample_ledger_env_def job_ok_def sample_article_job_def
          sample_formats_def tags_ok_def)
    show "job_item_kind ?job = Some Article"
      by (simp add: job_item_kind_def sample_article_job_def)
    show "le_digest (rc_env ?ctx) (json_of_job ?job) \<noteq> []"
      unfolding env by (simp add: sample_ledger_env_def)
  qed (simp_all add: empty_control_def terminal_effect_def id)
  moreover have "db2 = sample_burial 0 5"
    using claim fail id by (simp add: sample_burial_def Let_def)
  ultimately show ?thesis using replay id by simp
qed

definition sample_takeover :: "instant \<Rightarrow> instant \<Rightarrow> control_db" where
  "sample_takeover t1 t2 = (let env = rc_env (sample_context (sample_article_job ''a''))
     in fst (finish_job ''b'' (Result_Failed (Some Permanent) None (Some ''d'')) (t2 + 1)
          (fst (claim_job env (json_of_job (sample_article_job ''b'')) t2
            (fst (claim_job env (json_of_job (sample_article_job ''a'')) t1 empty_control))))))"





end
