(* ===== verification/Rate_Limits.thy ===== *)
theory Rate_Limits
  imports Retry_Policy "HOL-Library.List_Lexorder" "HOL-Library.Char_ord"
begin

text \<open>
  The rate limits of the control plane: \<open>consumeRateLimit\<close> and \<open>consumeRateLimits\<close> of
  \<open>apps/api/src/control-plane.ts\<close> (D1) and of \<open>control-plane-postgres-effects.ts\<close>. The
  batch operation over D1 is an optimistic loop: it reads the state with its version,
  decides, and writes under the condition that the version is still the one it read. Other
  writers act between these steps; they are the argument \<open>others\<close>, which maps the number
  of a step to what they do to the table there.
\<close>

section \<open>Single buckets\<close>

record rate_row =
  rr_scope :: string
  rr_bucket :: string
  rr_count :: nat
  rr_expires :: instant
  rr_updated :: instant

datatype rate_answer = Rate_Allowed nat | Rate_Denied nat instant

abbreviation rate_row_key :: "rate_row \<Rightarrow> string \<times> string" where
  "rate_row_key r \<equiv> (rr_scope r, rr_bucket r)"

abbreviation rate_input_key :: "rate_input \<Rightarrow> string \<times> string" where
  "rate_input_key i \<equiv> (ri_scope i, ri_bucket i)"

definition fresh_rate_row :: "rate_input \<Rightarrow> instant \<Rightarrow> rate_row" where
  "fresh_rate_row input now =
     \<lparr>rr_scope = ri_scope input, rr_bucket = ri_bucket input, rr_count = 1,
      rr_expires = now + ri_window input * 1000, rr_updated = now\<rparr>"

definition restart_rate_row :: "rate_row \<Rightarrow> rate_row \<Rightarrow> rate_row" where
  "restart_rate_row old new =
     old\<lparr>rr_count := 1, rr_expires := rr_expires new, rr_updated := rr_updated new\<rparr>"

definition count_rate_row :: "nat \<Rightarrow> instant \<Rightarrow> rate_row \<Rightarrow> rate_row" where
  "count_rate_row count now r = r\<lparr>rr_count := count, rr_updated := now\<rparr>"

definition consume_rate_limit ::
  "rate_input \<Rightarrow> instant \<Rightarrow> rate_row list \<Rightarrow> rate_row list \<times> rate_answer" where
  "consume_rate_limit input now rows =
     (let current = tab_first (\<lambda>r. rate_row_key r = rate_input_key input) rows;
          restart = (tab_upsert rate_row_key restart_rate_row (fresh_rate_row input now) rows,
                     Rate_Allowed 1)
      in case current of
           None \<Rightarrow> restart
         | Some c \<Rightarrow>
             if rr_expires c \<le> now then restart
             else if rr_count c \<ge> ri_limit input
             then (rows, Rate_Denied (rr_count c) (rr_expires c))
             else (tab_update (\<lambda>r. rate_row_key r = rate_input_key input)
                     (count_rate_row (rr_count c + 1) now) rows,
                   Rate_Allowed (rr_count c + 1)))"

text \<open>Over PostgreSQL; \<open>None\<close> is the error of a row that disappeared.\<close>

definition consume_rate_limit_pg ::
  "rate_input \<Rightarrow> instant \<Rightarrow> rate_row list \<Rightarrow> (rate_row list \<times> rate_answer) option" where
  "consume_rate_limit_pg input now rows =
     (let inserted = tab_insert_ignore rate_row_key (fresh_rate_row input now) rows
      in if length inserted \<noteq> length rows then Some (inserted, Rate_Allowed 1)
         else case tab_first (\<lambda>r. rate_row_key r = rate_input_key input) inserted of
             None \<Rightarrow> None
           | Some c \<Rightarrow>
               if rr_expires c \<le> now
               then Some (tab_update (\<lambda>r. rate_row_key r = rate_input_key input)
                       (\<lambda>r. r\<lparr>rr_count := 1, rr_expires := now + ri_window input * 1000,
                              rr_updated := now\<rparr>) inserted, Rate_Allowed 1)
               else if rr_count c \<ge> ri_limit input
               then Some (inserted, Rate_Denied (rr_count c) (rr_expires c))
               else Some (tab_update (\<lambda>r. rate_row_key r = rate_input_key input)
                       (\<lambda>r. r\<lparr>rr_count := rr_count r + 1, rr_updated := now\<rparr>) inserted,
                     Rate_Allowed (rr_count c + 1)))"

section \<open>Batches\<close>

record rate_batch =
  rb_scope :: string
  rb_state :: "rate_state list"
  rb_version :: nat
  rb_updated :: instant

datatype batch_answer =
    Limits_Allowed "(string \<times> nat) list"
  | Limits_Denied "(string \<times> nat) list" instant

definition batch_scope :: "rate_input list \<Rightarrow> string" where
  "batch_scope inputs = js_join ''|'' (sort (remdups (map ri_scope inputs)))"

definition batch_row :: "string \<Rightarrow> rate_batch list \<Rightarrow> rate_batch option" where
  "batch_row scope rows = tab_first (\<lambda>r. rb_scope r = scope) rows"

definition row_states :: "rate_batch option \<Rightarrow> rate_state list" where
  "row_states row = (case row of None \<Rightarrow> [] | Some r \<Rightarrow> rb_state r)"

definition write_batch :: "rate_state list \<Rightarrow> nat \<Rightarrow> instant \<Rightarrow> rate_batch \<Rightarrow> rate_batch" where
  "write_batch states version now r =
     r\<lparr>rb_state := states, rb_version := version, rb_updated := now\<rparr>"

definition new_batch :: "string \<Rightarrow> rate_state list \<Rightarrow> instant \<Rightarrow> rate_batch" where
  "new_batch scope states now =
     \<lparr>rb_scope = scope, rb_state = states, rb_version = 1, rb_updated = now\<rparr>"

text \<open>The conditional write: the new table and whether a row changed.\<close>

definition swap_batch ::
  "string \<Rightarrow> rate_batch option \<Rightarrow> rate_state list \<Rightarrow> instant \<Rightarrow> rate_batch list
   \<Rightarrow> rate_batch list \<times> bool" where
  "swap_batch scope row nextStates now rows =
     (case row of
        Some r \<Rightarrow>
          (let p = (\<lambda>x. rb_scope x = scope \<and> rb_version x = rb_version r)
           in (tab_update p (write_batch nextStates (rb_version r + 1) now) rows,
               tab_changes p rows > 0))
      | None \<Rightarrow>
          (let rows' = tab_insert_ignore rb_scope (new_batch scope nextStates now) rows
           in (rows', length rows' > length rows)))"

text \<open>
  The loop. Attempt \<open>a\<close> reads the table after the others' step \<open>2 a\<close> and writes after
  their step \<open>2 a + 1\<close>; \<open>None\<close> is the error \<open>rate limit batch contention\<close>.
\<close>

fun limits_loop ::
  "nat \<Rightarrow> nat \<Rightarrow> rate_input list \<Rightarrow> (nat \<Rightarrow> instant) \<Rightarrow> (nat \<Rightarrow> rate_batch list \<Rightarrow> rate_batch list)
   \<Rightarrow> rate_batch list \<Rightarrow> rate_batch list \<times> batch_answer option" where
  "limits_loop 0 a inputs clock others rows = (rows, None)"
| "limits_loop (Suc fuel) a inputs clock others rows =
     (let seen = others (2 * a) rows;
          row = batch_row (batch_scope inputs) seen
      in case decide_rate_limit_batch inputs (row_states row) (clock a) of
           Batch_Denied counts states retryAt \<Rightarrow> (seen, Some (Limits_Denied counts retryAt))
         | Batch_Allowed counts nextStates \<Rightarrow>
             (case swap_batch (batch_scope inputs) row nextStates (clock a)
                     (others (2 * a + 1) seen) of
                (rows', True) \<Rightarrow> (rows', Some (Limits_Allowed counts))
              | (rows', False) \<Rightarrow> limits_loop fuel (a + 1) inputs clock others rows'))"

definition consume_rate_limits ::
  "rate_input list \<Rightarrow> (nat \<Rightarrow> instant) \<Rightarrow> (nat \<Rightarrow> rate_batch list \<Rightarrow> rate_batch list)
   \<Rightarrow> rate_batch list \<Rightarrow> rate_batch list \<times> batch_answer option" where
  "consume_rate_limits inputs clock others rows =
     (if inputs = [] then (rows, Some (Limits_Allowed []))
      else limits_loop 5 0 inputs clock others rows)"

text \<open>Over PostgreSQL: one transaction under an advisory lock.\<close>

definition consume_rate_limits_pg ::
  "rate_input list \<Rightarrow> instant \<Rightarrow> rate_batch list \<Rightarrow> rate_batch list \<times> batch_answer option" where
  "consume_rate_limits_pg inputs now rows =
     (if inputs = [] then (rows, Some (Limits_Allowed []))
      else
        (let row = batch_row (batch_scope inputs) rows
         in case decide_rate_limit_batch inputs (row_states row) now of
              Batch_Denied counts states retryAt \<Rightarrow> (rows, Some (Limits_Denied counts retryAt))
            | Batch_Allowed counts nextStates \<Rightarrow>
                (case row of
                   Some r \<Rightarrow>
                     (let p = (\<lambda>x. rb_scope x = batch_scope inputs \<and> rb_version x = rb_version r)
                      in if tab_changes p rows = 0 then (rows, None)
                         else (tab_update p
                                 (\<lambda>x. write_batch nextStates (rb_version x + 1) now x) rows,
                               Some (Limits_Allowed counts)))
                 | None \<Rightarrow>
                     (let rows' = tab_insert_ignore rb_scope
                            (new_batch (batch_scope inputs) nextStates now) rows
                      in if length rows' = length rows then (rows, None)
                         else (rows', Some (Limits_Allowed counts))))))"

section \<open>Lemmas on single buckets\<close>

interpretation counting: row_write rate_row_key "count_rate_row n t" for n t
  by unfold_locales (simp add: count_rate_row_def)

interpretation restarting: row_write rate_row_key "\<lambda>old. restart_rate_row old new" for new
  by unfold_locales (simp add: restart_rate_row_def)

lemma fresh_rate_row_key [simp]: "rate_row_key (fresh_rate_row i t) = rate_input_key i"
  by (simp add: fresh_rate_row_def)

definition bucket :: "string \<times> string \<Rightarrow> rate_row list \<Rightarrow> rate_row option" where
  "bucket k rows = tab_first (\<lambda>r. rate_row_key r = k) rows"

lemma bucket_None: "bucket k rows = None \<longleftrightarrow> k \<notin> rate_row_key ` set rows"
  by (auto simp: bucket_def tab_first_None)

lemma bucket_restart:
  "bucket k (tab_upsert rate_row_key restart_rate_row (fresh_rate_row i t) rows) =
     (if k = rate_input_key i
      then Some (case bucket k rows of None \<Rightarrow> fresh_rate_row i t
                  | Some old \<Rightarrow> restart_rate_row old (fresh_rate_row i t))
      else bucket k rows)"
proof (cases "bucket (rate_input_key i) rows")
  case None
  then have "rate_input_key i \<notin> rate_row_key ` set rows" by (simp only: bucket_None not_False_eq_True)
  then show ?thesis using None
    by (auto simp: tab_upsert_def bucket_def tab_first_append simp del: prod.inject
        split: option.split)
next
  case (Some old)
  then have "rate_input_key i \<in> rate_row_key ` set rows"
    using bucket_None [of "rate_input_key i" rows] by simp
  then have up: "tab_upsert rate_row_key restart_rate_row (fresh_rate_row i t) rows
      = tab_update (\<lambda>r. rate_row_key r = rate_input_key i)
          (\<lambda>old. restart_rate_row old (fresh_rate_row i t)) rows"
    by (simp add: tab_upsert_def del: prod.inject)
  show ?thesis
  proof (cases "k = rate_input_key i")
    case True
    then show ?thesis unfolding up bucket_def
      using restarting.first_update_same [of k "fresh_rate_row i t" rows] Some
      by (simp add: bucket_def del: prod.inject)
  next
    case False
    then show ?thesis unfolding up bucket_def
      using restarting.first_update_other [OF False] by simp
  qed
qed

text \<open>What one call does to the bucket of a key, and what it answers.\<close>

lemma consume_bucket:
  fixes i t rows
  defines "k \<equiv> rate_input_key i"
  shows "snd (consume_rate_limit i t rows) =
      (case bucket k rows of
         Some c \<Rightarrow> if rr_expires c \<le> t then Rate_Allowed 1
           else if rr_count c \<ge> ri_limit i then Rate_Denied (rr_count c) (rr_expires c)
           else Rate_Allowed (rr_count c + 1)
       | None \<Rightarrow> Rate_Allowed 1)"
    and "k' \<noteq> k \<Longrightarrow> bucket k' (fst (consume_rate_limit i t rows)) = bucket k' rows"
    and "bucket k (fst (consume_rate_limit i t rows)) =
      (case bucket k rows of
         Some c \<Rightarrow> if rr_expires c \<le> t then Some (restart_rate_row c (fresh_rate_row i t))
           else if rr_count c \<ge> ri_limit i then Some c
           else Some (count_rate_row (rr_count c + 1) t c)
       | None \<Rightarrow> Some (fresh_rate_row i t))"
proof -
  have c: "consume_rate_limit i t rows =
     (case bucket k rows of
        Some c \<Rightarrow> if rr_expires c \<le> t
          then (tab_upsert rate_row_key restart_rate_row (fresh_rate_row i t) rows, Rate_Allowed 1)
          else if rr_count c \<ge> ri_limit i then (rows, Rate_Denied (rr_count c) (rr_expires c))
          else (tab_update (\<lambda>r. rate_row_key r = k) (count_rate_row (rr_count c + 1) t) rows,
                Rate_Allowed (rr_count c + 1))
      | None \<Rightarrow> (tab_upsert rate_row_key restart_rate_row (fresh_rate_row i t) rows, Rate_Allowed 1))"
    by (simp only: consume_rate_limit_def Let_def bucket_def k_def split: option.split)
  show "snd (consume_rate_limit i t rows) = (case bucket k rows of
         Some c \<Rightarrow> if rr_expires c \<le> t then Rate_Allowed 1
           else if rr_count c \<ge> ri_limit i then Rate_Denied (rr_count c) (rr_expires c)
           else Rate_Allowed (rr_count c + 1)
       | None \<Rightarrow> Rate_Allowed 1)"
    unfolding c by (simp split: option.split)
  show "bucket k (fst (consume_rate_limit i t rows)) =
      (case bucket k rows of
         Some c \<Rightarrow> if rr_expires c \<le> t then Some (restart_rate_row c (fresh_rate_row i t))
           else if rr_count c \<ge> ri_limit i then Some c
           else Some (count_rate_row (rr_count c + 1) t c)
       | None \<Rightarrow> Some (fresh_rate_row i t))"
    unfolding c
    using counting.first_update_same [of k] bucket_restart [of k i t rows, folded k_def]
    by (simp add: bucket_def [symmetric] del: prod.inject split: option.split)
  show "k' \<noteq> k \<Longrightarrow> bucket k' (fst (consume_rate_limit i t rows)) = bucket k' rows"
    unfolding c
    using counting.first_update_other [of k' k] bucket_restart [of k' i t rows, folded k_def]
    by (simp add: bucket_def [symmetric] del: prod.inject split: option.split)
qed

fun allowed_calls :: "string \<times> string \<Rightarrow> (rate_input \<times> instant) list \<Rightarrow> rate_row list \<Rightarrow> nat" where
  "allowed_calls k [] rows = 0"
| "allowed_calls k ((i, t) # calls) rows =
     (case snd (consume_rate_limit i t rows) of
        Rate_Allowed n \<Rightarrow> if rate_input_key i = k then 1 else 0
      | Rate_Denied n u \<Rightarrow> 0) + allowed_calls k calls (fst (consume_rate_limit i t rows))"

lemma allowed_within_window:
  assumes "bucket k rows = Some c"
    and "\<forall>(i, t)\<in>set calls. rate_input_key i = k \<longrightarrow> t < rr_expires c \<and> ri_limit i \<le> L"
  shows "allowed_calls k calls rows \<le> L - rr_count c"
  using assms
proof (induction calls arbitrary: rows c)
  case (Cons call calls)
  obtain i t where call: "call = (i, t)" by force
  let ?rows = "fst (consume_rate_limit i t rows)"
  show ?case
  proof (cases "rate_input_key i = k")
    case False
    then have "bucket k ?rows = Some c" using consume_bucket(2) [of k i] Cons.prems(1) by metis
    from Cons.IH [OF this] Cons.prems(2) False show ?thesis
      by (simp add: call del: prod.inject split: rate_answer.split)
  next
    case True
    then have lt: "t < rr_expires c" and le: "ri_limit i \<le> L" using Cons.prems(2) call by auto
    show ?thesis
    proof (cases "rr_count c \<ge> ri_limit i")
      case full: True
      then have b: "bucket k ?rows = Some c"
        and a: "snd (consume_rate_limit i t rows) = Rate_Denied (rr_count c) (rr_expires c)"
        using consume_bucket(1,3) [of i t rows, unfolded True] full lt Cons.prems(1) by simp_all
      have "allowed_calls k calls ?rows \<le> L - rr_count c"
        using Cons.IH [OF b] Cons.prems(2) by simp
      then show ?thesis by (simp add: call a)
    next
      case False
      let ?c = "count_rate_row (rr_count c + 1) t c"
      have b: "bucket k ?rows = Some ?c" and a: "snd (consume_rate_limit i t rows) = Rate_Allowed (rr_count c + 1)"
        using consume_bucket(1,3) [of i t rows, unfolded True] False lt Cons.prems(1) by simp_all
      have "\<forall>(i, t)\<in>set calls. rate_input_key i = k \<longrightarrow> t < rr_expires ?c \<and> ri_limit i \<le> L"
        using Cons.prems(2) by (simp add: count_rate_row_def)
      from Cons.IH [OF b this] have "allowed_calls k calls ?rows \<le> L - (rr_count c + 1)"
        by (simp add: count_rate_row_def)
      then show ?thesis using False le by (simp add: call a True)
    qed
  qed
qed simp

lemma consume_rate_limit_agrees:
  assumes "tab_keyed rate_row_key rows"
  shows "consume_rate_limit_pg input now rows = Some (consume_rate_limit input now rows)"
proof (cases "bucket (rate_input_key input) rows")
  case None
  then have "rate_input_key input \<notin> rate_row_key ` set rows"
    by (simp only: bucket_None not_False_eq_True)
  then show ?thesis using None
    by (simp add: consume_rate_limit_pg_def consume_rate_limit_def tab_insert_ignore_def
        tab_upsert_def bucket_def del: prod.inject)
next
  case (Some c)
  have mem: "c \<in> set rows" "rate_row_key c = rate_input_key input"
    using tab_first_SomeD [OF Some [unfolded bucket_def]] by auto
  have present: "rate_input_key input \<in> rate_row_key ` set rows"
    unfolding mem(2) [symmetric] using mem(1) by (rule imageI)
  have same: "tab_update (\<lambda>r. rate_row_key r = rate_input_key input)
        (\<lambda>r. r\<lparr>rr_count := rr_count r + 1, rr_updated := now\<rparr>) rows
      = tab_update (\<lambda>r. rate_row_key r = rate_input_key input)
        (count_rate_row (rr_count c + 1) now) rows"
    unfolding tab_update_def count_rate_row_def
    using tab_keyed_unique [OF assms _ mem(1)] mem(2) by (intro map_cong) auto
  show ?thesis
    unfolding consume_rate_limit_pg_def consume_rate_limit_def Let_def
    using present Some [unfolded bucket_def] same
    by (simp add: tab_insert_ignore_def tab_upsert_def restart_rate_row_def fresh_rate_row_def
        del: prod.inject)
qed

section \<open>Lemmas on the batch loop\<close>

text \<open>
  The other writers are clients of the same table: they delete no row, and whoever writes
  the state of a scope raises its version.
\<close>

definition honest_writer :: "(rate_batch list \<Rightarrow> rate_batch list) \<Rightarrow> bool" where
  "honest_writer f =
     (\<forall>rows. tab_keyed rb_scope rows \<longrightarrow>
        tab_keyed rb_scope (f rows)
        \<and> (\<forall>r\<in>set rows. \<exists>r'\<in>set (f rows). rb_scope r' = rb_scope r
             \<and> (rb_version r' = rb_version r \<longrightarrow> rb_state r' = rb_state r)))"

lemma tab_changes_pos: "0 < tab_changes p rows \<longleftrightarrow> (\<exists>r\<in>set rows. p r)"
  by (simp add: tab_changes_def filter_empty_conv)

lemma swap_batch_fails:
  "swap_batch scope row states t rows = (rows', False) \<Longrightarrow> rows' = rows"
  by (auto simp: swap_batch_def Let_def tab_changes_pos tab_insert_ignore_def tab_update_none
      split: option.splits if_splits)

lemma swap_batch_is_atomic:
  assumes keyed: "tab_keyed rb_scope seen" and f: "honest_writer f"
    and dec: "decide_rate_limit_batch inputs (row_states (batch_row (batch_scope inputs) seen)) t
      = Batch_Allowed counts states"
    and swap: "swap_batch (batch_scope inputs) (batch_row (batch_scope inputs) seen) states t (f seen)
      = (rows', True)"
    and "inputs \<noteq> []"
  shows "consume_rate_limits_pg inputs t (f seen) = (rows', Some (Limits_Allowed counts))"
proof -
  let ?s = "batch_scope inputs"
  have keyed': "tab_keyed rb_scope (f seen)"
    and kept: "\<And>r. r \<in> set seen \<Longrightarrow> \<exists>r'\<in>set (f seen). rb_scope r' = rb_scope r
             \<and> (rb_version r' = rb_version r \<longrightarrow> rb_state r' = rb_state r)"
    using f keyed by (auto simp: honest_writer_def)
  show ?thesis
  proof (cases "batch_row ?s seen")
    case None
    then have new: "?s \<notin> rb_scope ` set (f seen)"
      and rows': "rows' = f seen @ [new_batch ?s states t]"
      using swap by (auto simp: swap_batch_def Let_def tab_insert_ignore_def new_batch_def split: if_splits)
    then have "batch_row ?s (f seen) = None"
      unfolding batch_row_def tab_first_None by (metis imageI)
    then show ?thesis using assms(5) dec None new rows'
      by (simp add: consume_rate_limits_pg_def Let_def tab_insert_ignore_def new_batch_def)
  next
    case (Some r)
    have r: "r \<in> set seen" "rb_scope r = ?s"
      using tab_first_SomeD [OF Some [unfolded batch_row_def]] by auto
    let ?p = "\<lambda>x. rb_scope x = ?s \<and> rb_version x = rb_version r"
    have ch: "0 < tab_changes ?p (f seen)"
      and rows': "rows' = tab_update ?p (write_batch states (rb_version r + 1) t) (f seen)"
      using swap Some by (simp_all add: swap_batch_def Let_def)
    from ch obtain x where x: "x \<in> set (f seen)" "rb_scope x = ?s" "rb_version x = rb_version r"
      by (auto simp: tab_changes_pos)
    obtain r' where r': "r' \<in> set (f seen)" "rb_scope r' = rb_scope r"
        "rb_version r' = rb_version r \<Longrightarrow> rb_state r' = rb_state r"
      using kept [OF r(1)] by blast
    have "r' = x" using tab_keyed_unique [OF keyed' r'(1) x(1)] r'(2) r(2) x(2) by simp
    then have st: "rb_state x = rb_state r" using r'(3) x(3) by simp
    have now: "batch_row ?s (f seen) = Some x"
      unfolding batch_row_def by (rule tab_first_keyed [OF keyed' x(1,2)])
    have "tab_update ?p (\<lambda>x. write_batch states (rb_version x + 1) t x) (f seen)
        = tab_update ?p (write_batch states (rb_version r + 1) t) (f seen)"
      by (auto simp: tab_update_def)
    then show ?thesis
      using assms(5) dec Some now st x(3) ch rows'
      by (simp add: consume_rate_limits_pg_def row_states_def Let_def)
  qed
qed

lemma limits_loop_is_atomic:
  assumes "inputs \<noteq> []" and "\<And>n. honest_writer (others n)" and "tab_keyed rb_scope rows"
    and "limits_loop fuel a inputs clock others rows = (rows', answer)"
  shows "(case answer of
      None \<Rightarrow> rows' = fold others [2 * a..<2 * (a + fuel)] rows
    | Some ans \<Rightarrow> \<exists>m t. 2 * a < m \<and> m \<le> 2 * (a + fuel) \<and> a \<le> t \<and> t < a + fuel
        \<and> consume_rate_limits_pg inputs (clock t) (fold others [2 * a..<m] rows)
            = (rows', Some ans))"
  using assms(3,4)
proof (induction fuel arbitrary: a rows)
  case (Suc fuel)
  let ?s = "batch_scope inputs"
  define seen where "seen = others (2 * a) rows"
  define row where "row = batch_row ?s seen"
  have keyed: "tab_keyed rb_scope seen"
    using assms(2) [of "2 * a"] Suc.prems(1) by (simp add: honest_writer_def seen_def)
  have keyed': "tab_keyed rb_scope (others (2 * a + 1) seen)"
    using assms(2) [of "2 * a + 1"] keyed by (simp add: honest_writer_def)
  have one: "fold others [2 * a..<2 * a + 1] rows = seen" by (simp add: seen_def)
  have two: "fold others [2 * a..<2 * a + 2] rows = others (2 * a + 1) seen"
    by (simp add: seen_def upt_rec)
  show ?case
  proof (cases "decide_rate_limit_batch inputs (row_states row) (clock a)")
    case (Batch_Denied counts states retryAt)
    then have out: "rows' = seen" "answer = Some (Limits_Denied counts retryAt)"
      using Suc.prems(2) by (simp_all add: row_def seen_def)
    have "consume_rate_limits_pg inputs (clock a) seen = (seen, answer)"
      using assms(1) Batch_Denied out by (simp add: consume_rate_limits_pg_def row_def Let_def)
    then have "2 * a < 2 * a + 1 \<and> 2 * a + 1 \<le> 2 * (a + Suc fuel) \<and> a \<le> a \<and> a < a + Suc fuel
        \<and> consume_rate_limits_pg inputs (clock a) (fold others [2 * a..<2 * a + 1] rows)
          = (rows', answer)"
      unfolding one using out by simp
    then show ?thesis unfolding out(2) option.case by blast
  next
    case (Batch_Allowed counts states)
    show ?thesis
    proof (cases "swap_batch ?s row states (clock a) (others (2 * a + 1) seen)")
      case (Pair rows2 ok)
      show ?thesis
      proof (cases ok)
        case True
        then have ok: "ok = True" by simp
        then have out: "rows' = rows2" "answer = Some (Limits_Allowed counts)"
          using Suc.prems(2) Batch_Allowed Pair by (simp_all add: row_def seen_def)
        have "consume_rate_limits_pg inputs (clock a) (others (2 * a + 1) seen) = (rows', answer)"
          using swap_batch_is_atomic [OF keyed assms(2) Batch_Allowed [unfolded row_def]
              Pair [unfolded row_def ok] assms(1)] out by simp
        then have "2 * a < 2 * a + 2 \<and> 2 * a + 2 \<le> 2 * (a + Suc fuel) \<and> a \<le> a \<and> a < a + Suc fuel
            \<and> consume_rate_limits_pg inputs (clock a) (fold others [2 * a..<2 * a + 2] rows)
              = (rows', answer)"
          unfolding two by simp
        then show ?thesis unfolding out(2) option.case by blast
      next
        case False
        then have same: "rows2 = others (2 * a + 1) seen"
          using swap_batch_fails Pair by simp
        have loop: "limits_loop fuel (a + 1) inputs clock others (others (2 * a + 1) seen)
            = (rows', answer)"
          using Suc.prems(2) Batch_Allowed Pair False same by (simp add: row_def seen_def)
        have split: "fold others [2 * a..<m] rows
            = fold others [2 * (a + 1)..<m] (others (2 * a + 1) seen)" if le: "2 * a + 2 \<le> m" for m
        proof -
          obtain n where m: "m = 2 * a + 2 + n" using le_Suc_ex [OF le] by blast
          have "[2 * a..<2 * a + 2 + n] = [2 * a..<2 * a + 2] @ [2 * a + 2..<2 * a + 2 + n]"
            by (rule upt_add_eq_append) simp
          then have "fold others [2 * a..<m] rows
              = fold others [2 * a + 2..<m] (fold others [2 * a..<2 * a + 2] rows)"
            unfolding m by (simp only: fold_append comp_apply)
          then show ?thesis unfolding two by simp
        qed
        from Suc.IH [OF keyed' loop] show ?thesis
        proof (cases answer)
          case None
          with Suc.IH [OF keyed' loop]
          have "rows' = fold others [2 * (a + 1)..<2 * (a + 1 + fuel)] (others (2 * a + 1) seen)"
            by (simp only: option.case)
          also have "\<dots> = fold others [2 * a..<2 * (a + 1 + fuel)] rows"
            by (rule split [symmetric]) simp
          also have "a + 1 + fuel = a + Suc fuel" by simp
          finally show ?thesis unfolding None option.case .
        next
          case (Some ans)
          with Suc.IH [OF keyed' loop] obtain m t where
            "2 * (a + 1) < m" "m \<le> 2 * (a + 1 + fuel)" "a + 1 \<le> t" "t < a + 1 + fuel"
            "consume_rate_limits_pg inputs (clock t)
               (fold others [2 * (a + 1)..<m] (others (2 * a + 1) seen)) = (rows', Some ans)"
            by auto
          then have "2 * a < m \<and> m \<le> 2 * (a + Suc fuel) \<and> a \<le> t \<and> t < a + Suc fuel
              \<and> consume_rate_limits_pg inputs (clock t) (fold others [2 * a..<m] rows)
                = (rows', Some ans)"
            using split [of m] by simp
          then show ?thesis unfolding Some option.case by blast
        qed
      qed
    qed
  qed
qed simp

section \<open>Properties\<close>


definition sample_input :: rate_input where
  "sample_input = \<lparr>ri_bucket = ''b'', ri_limit = 2, ri_scope = ''s'', ri_window = 60\<rparr>"


text \<open>C13: The optimistic loop is atomic: with other writers, who delete no row and change a state
  only along with its version, at work before and between its steps, an answer of the loop is the answer one
  transaction gives at one of those moments, at one of the clock readings, and the table
  it leaves is the table that transaction leaves. After five lost races it writes nothing.\<close>

theorem limits_loop_refines_transaction:
  assumes "inputs \<noteq> []" and "\<And>n. honest_writer (others n)" and "tab_keyed rb_scope rows"
  shows "case consume_rate_limits inputs clock others rows of
      (rows', None) \<Rightarrow> rows' = fold others [0..<10] rows
    | (rows', Some ans) \<Rightarrow> \<exists>m t. m \<le> 10 \<and> t < 5
        \<and> consume_rate_limits_pg inputs (clock t) (fold others [0..<m] rows) = (rows', Some ans)"
proof -
  obtain rows' answer where loop: "limits_loop 5 0 inputs clock others rows = (rows', answer)"
    by force
  from limits_loop_is_atomic [OF assms loop] assms(1) loop show ?thesis
    by (cases answer) (auto simp: consume_rate_limits_def)
qed

theorem limits_loop_refines_transaction_witness:
  "\<exists>m t. m \<le> 10 \<and> t < 5 \<and> consume_rate_limits_pg [sample_input] (int t) (fold (\<lambda>_ r. r) [0..<m] [])
      = consume_rate_limits [sample_input] int (\<lambda>_ r. r) []"
proof -
  obtain rows' where res: "consume_rate_limits [sample_input] int (\<lambda>_ r. r) []
      = (rows', Some (Limits_Allowed [(''s'', 1)]))"
    by (simp add: consume_rate_limits_def eval_nat_numeral decide_rate_limit_batch_def batch_row_def
        row_states_def swap_batch_def tab_insert_ignore_def current_by_key_def sample_input_def
        rate_next_def rate_count_def rate_rejected_def from_entries_def Let_def)
  have "honest_writer (\<lambda>r. r)" by (auto simp: honest_writer_def)
  from limits_loop_refines_transaction [of "[sample_input]" "\<lambda>_ r. r" "[]" int, OF _ this]
  show ?thesis by (simp add: res tab_keyed_def)
qed

end
