(* ===== verification/Control_Plane.thy ===== *)
theory Control_Plane
  imports Replay Rate_Limits
begin

text \<open>
  The control plane as a state machine. A request to it is one step: claiming and finishing
  a job, claiming and finishing an effect, replaying a dead letter, rejecting an invalid
  message, requesting a run, and staging, pulling and settling messages. The steps are the
  operations of the component theories over the one record of tables; what holds in every
  reachable state is proved by induction over the steps.
\<close>

section \<open>Steps\<close>

inductive control_step :: "replay_context \<Rightarrow> control_db \<Rightarrow> control_db \<Rightarrow> bool" for ctx where
  Step_Claim: "control_step ctx db (fst (claim_job (rc_env ctx) input t db))"
| Step_Finish: "control_step ctx db (fst (finish_job jobId outcome t db))"
| Step_Reject: "control_step ctx db (reject_invalid_job invalid t db)"
| Step_Replay: "control_step ctx db (fst (replay_dead_letter ctx jobId request t (\<lambda>d. d) db))"
| Step_Claim_Effect: "control_step ctx db (db\<lparr>cd_effects := fst (claim_effect claim t (cd_effects db))\<rparr>)"
| Step_Finish_Effect: "control_step ctx db (db\<lparr>cd_effects := finish_effect key report t (cd_effects db)\<rparr>)"
| Step_Stage: "control_step ctx db (db\<lparr>cd_inbox := stage t messages (cd_inbox db)\<rparr>)"
| Step_Pull: "control_step ctx db (db\<lparr>cd_inbox := fst (pull_d1 pull (cd_inbox db))\<rparr>)"
| Step_Settle: "settle t settlement (cd_inbox db) = Inr rows
    \<Longrightarrow> control_step ctx db (db\<lparr>cd_inbox := rows\<rparr>)"
| Step_Request: "control_step ctx db (db\<lparr>lg_sync_jobs := lg_sync_jobs db @ [run]\<rparr>)"

inductive_cases control_stepE: "control_step ctx db db'"

text \<open>Dead letters name their own envelope or none.\<close>

definition letters_ok :: "'a ledger_scheme \<Rightarrow> bool" where
  "letters_ok db = (\<forall>d\<in>set (lg_dead_letters db). dl_envelope_job_id d \<in> {None, Some (dl_job_id d)})"

definition control_inv :: "control_db \<Rightarrow> bool" where
  "control_inv db =
     (ledger_inv db \<and> letters_ok db \<and> effect_inv (cd_effects db)
      \<and> tab_keyed rp_idempotency_key (cd_replays db) \<and> tab_keyed rp_message_id (cd_replays db))"

section \<open>Preservation\<close>

lemma ledger_inv_cong:
  "lg_jobs db' = lg_jobs db \<Longrightarrow> lg_envelopes db' = lg_envelopes db
   \<Longrightarrow> lg_dead_letters db' = lg_dead_letters db \<Longrightarrow> ledger_inv db' = ledger_inv db"
  by (simp add: ledger_inv_def)

lemma claim_job_frame:
  fixes db :: control_db
  shows "lg_dead_letters (fst (claim_job env input t db)) = lg_dead_letters db
    \<and> lg_sync_jobs (fst (claim_job env input t db)) = lg_sync_jobs db
    \<and> cd_effects (fst (claim_job env input t db)) = cd_effects db
    \<and> cd_replays (fst (claim_job env input t db)) = cd_replays db
    \<and> cd_inbox (fst (claim_job env input t db)) = cd_inbox db"
proof (cases "parse_queue_job (le_formats env) input")
  case job: (Some job)
  show ?thesis
  proof (cases "insert_claim env job t db")
    case (Inr db')
    then have "lg_dead_letters db' = lg_dead_letters db \<and> lg_sync_jobs db' = lg_sync_jobs db
        \<and> cd_effects db' = cd_effects db \<and> cd_replays db' = cd_replays db \<and> cd_inbox db' = cd_inbox db"
      by (elim insert_claim_InrE) simp
    with job Inr show ?thesis by (simp add: claim_job_def split: option.split)
  qed (use job in \<open>simp add: claim_job_def split: option.split\<close>)
qed (simp add: claim_job_def)

lemma finish_job_frame:
  fixes db :: control_db
  shows "cd_effects (fst (finish_job jobId outcome t db)) = cd_effects db
    \<and> cd_replays (fst (finish_job jobId outcome t db)) = cd_replays db
    \<and> cd_inbox (fst (finish_job jobId outcome t db)) = cd_inbox db"
  by (simp add: finish_job_def fail_job_def Let_def split: option.split job_result.split)

definition letter_ok :: "dead_letter \<Rightarrow> bool" where
  "letter_ok d = (dl_envelope_job_id d \<in> {None, Some (dl_job_id d)})"

lemma letters_ok_alt: "letters_ok db = (\<forall>d\<in>set (lg_dead_letters db). letter_ok d)"
  by (simp add: letters_ok_def letter_ok_def)

lemma letters_upsert:
  assumes "\<forall>d\<in>set rows. letter_ok d" and "letter_ok new"
  shows "\<forall>d\<in>set (tab_upsert dl_job_id merge_dead_letter new rows). letter_ok d"
  using assms by (auto simp: tab_upsert_def set_tab_update merge_dead_letter_def letter_ok_def)

lemma new_dead_letter_ok: "letter_ok (new_dead_letter j row n c m dig e t)"
  by (simp add: letter_ok_def new_dead_letter_def)

lemma finish_job_letters:
  fixes db :: control_db
  assumes "letters_ok db"
  shows "letters_ok (fst (finish_job jobId outcome t db))"
  using assms letters_upsert [OF _ new_dead_letter_ok]
  by (simp add: letters_ok_alt finish_job_def fail_job_def Let_def
      split: option.split job_result.split)

lemma reject_invalid_job_inv:
  assumes "ledger_inv db" and "letters_ok db"
  shows "ledger_inv (reject_invalid_job v t db) \<and> letters_ok (reject_invalid_job v t db)"
proof -
  have "dead_letters_ok (lg_jobs db) (tab_insert_ignore dl_job_id d (lg_dead_letters db))" for d
    using ledger_invD(9) [OF assms(1)]
    unfolding dead_letters_ok_def set_tab_insert_ignore by (simp split: if_split)
  then show ?thesis using assms
    by (auto simp: ledger_inv_def reject_invalid_job_def letters_ok_def set_tab_insert_ignore)
qed

lemma replay_inv:
  fixes db :: control_db
  assumes "control_inv db"
  shows "control_inv (fst (replay_dead_letter ctx jobId request t (\<lambda>d. d) db))"
proof (cases "check_replay ctx jobId request db")
  case (Inl r)
  then show ?thesis using assms by (simp add: replay_dead_letter_def)
next
  case (Inr jobEnv)
  obtain job envelopeId where je: "jobEnv = (job, envelopeId)" by force
  have "control_inv db'" if b: "replay_batch ctx jobId key job t db = Some db'" for key db'
  proof -
    note after = replay_batch_SomeD [OF b]
    have "ledger_inv db'" using revive_inv [of db db' jobId t] after assms by (simp add: control_inv_def)
    moreover have "letters_ok db'" using after assms by (simp add: control_inv_def letters_ok_def)
    ultimately show ?thesis using after assms
      by (simp add: control_inv_def tab_keyed_snoc) (simp add: replay_operation_def)
  qed
  then show ?thesis using assms Inr je
    by (simp add: replay_dead_letter_def split: option.split)
qed

lemma control_inv_inbox: "control_inv (db\<lparr>cd_inbox := rows\<rparr>) = control_inv db"
  by (simp add: control_inv_def letters_ok_def ledger_inv_def)

lemma control_step_inv:
  assumes "control_step ctx db db'" and "control_inv db"
  shows "control_inv db'"
  using assms
proof (cases rule: control_step.cases)
  case (Step_Claim input t)
  then show ?thesis using assms(2) claim_job_inv [of db "rc_env ctx" input t]
      claim_job_frame [of "rc_env ctx" input t db]
    by (simp add: control_inv_def letters_ok_def)
next
  case (Step_Finish jobId outcome t)
  then show ?thesis using assms(2) finish_job_inv [of db jobId outcome t]
      finish_job_frame [of jobId outcome t db] finish_job_letters [of db jobId outcome t]
    by (simp add: control_inv_def)
next
  case (Step_Reject invalid t)
  then show ?thesis using assms(2) reject_invalid_job_inv [of db invalid t]
    by (simp add: control_inv_def) (simp add: reject_invalid_job_def)
next
  case (Step_Replay jobId request t)
  then show ?thesis using replay_inv [OF assms(2)] by simp
next
  case (Step_Claim_Effect claim t)
  then show ?thesis using assms(2) claim_effect_inv
    by (simp add: control_inv_def letters_ok_def ledger_inv_def)
next
  case (Step_Finish_Effect key report t)
  then show ?thesis using assms(2) finish_effect_inv
    by (simp add: control_inv_def letters_ok_def ledger_inv_def)
next
  case (Step_Request run)
  then show ?thesis using assms(2) by (simp add: control_inv_def letters_ok_def ledger_inv_def)
qed (use assms(2) in \<open>simp_all add: control_inv_inbox\<close>)

lemma control_steps_inv:
  "(control_step ctx)\<^sup>*\<^sup>* db db' \<Longrightarrow> control_inv db \<Longrightarrow> control_inv db'"
  by (induction rule: rtranclp_induct) (auto intro: control_step_inv)

lemma control_inv_empty: "control_inv empty_control"
  by (simp add: control_inv_def ledger_inv_empty empty_control_def letters_ok_def effect_inv_def
      tab_keyed_def)

text \<open>A job that is done, or may have been, keeps its row.\<close>

lemma settled_row_claim:
  assumes inv: "ledger_inv db" and r: "r \<in> set (lg_jobs db)" "terminal_status (wj_status r)"
  shows "r \<in> set (lg_jobs (fst (claim_job env input t db)))"
proof (cases "parse_queue_job (le_formats env) input")
  case job: (Some job)
  show ?thesis
  proof (cases "tab_first (\<lambda>r. wj_dedupe_key r = qj_dedupe_key job) (lg_jobs db)")
    case row: (Some row)
    show ?thesis
    proof (cases "claim_refusal t row")
      case None
      then have live: "\<not> terminal_status (wj_status row)" by (auto simp: claim_refusal_def)
      have "wj_dedupe_key r \<noteq> qj_dedupe_key job"
        using tab_keyed_unique [OF ledger_invD(1) [OF inv] r(1)] tab_first_SomeD [OF row] r(2) live
        by metis
      then show ?thesis using job row None r(1) reclaim_mem(1) [OF inv row]
        by (simp add: claim_job_def split: option.split)
    qed (use job row r in \<open>simp add: claim_job_def\<close>)
  next
    case None
    show ?thesis
    proof (cases "insert_claim env job t db")
      case (Inr db')
      then have "r \<in> set (lg_jobs db')"
        using r(1) by (elim insert_claim_InrE) (auto dest: insert_worker_job_SomeD)
      then show ?thesis using job None Inr by (simp add: claim_job_def)
    qed (use job None r in \<open>simp add: claim_job_def\<close>)
  qed
qed (use r in \<open>simp add: claim_job_def\<close>)

lemma settled_row_finish:
  assumes inv: "ledger_inv db" and r: "r \<in> set (lg_jobs db)" "terminal_status (wj_status r)"
  shows "r \<in> set (lg_jobs (fst (finish_job jobId outcome t db)))"
proof (cases "tab_first (\<lambda>r. wj_job_id r = jobId) (lg_jobs db)")
  case row: (Some row)
  have kept: "r \<in> set (tab_update (\<lambda>r. wj_job_id r = jobId) f (lg_jobs db))"
    if "\<not> terminal_status (wj_status row)" for f
  proof -
    have "wj_job_id r \<noteq> jobId"
      using tab_keyed_unique [OF ledger_invD(2) [OF inv] r(1)] tab_first_SomeD [OF row] r(2) that
      by metis
    then show ?thesis using r(1) by (force simp: set_tab_update)
  qed
  show ?thesis
  proof (cases "terminal_status (wj_status row)")
    case False
    then show ?thesis using row kept [OF False] r(1)
      by (simp add: finish_job_def fail_job_def Let_def split: option.split job_result.split)
  qed (use row r in \<open>simp add: finish_job_def\<close>)
qed (use r in \<open>simp add: finish_job_def\<close>)

lemma settled_row_replay:
  fixes db :: control_db
  assumes r: "r \<in> set (lg_jobs db)" "wj_status r \<noteq> Dead"
  shows "r \<in> set (lg_jobs (fst (replay_dead_letter ctx jobId request t (\<lambda>d. d) db)))"
proof -
  have "r \<in> set (revive_jobs jobId t (lg_jobs db))"
    using r by (force simp: revive_jobs_def set_tab_update)
  then have "r \<in> set (lg_jobs db')" if "replay_batch ctx jobId k job t db = Some db'" for k job db'
    using replay_batch_SomeD [OF that] by simp
  then show ?thesis using r(1)
    by (simp add: replay_dead_letter_def split: sum.split option.split prod.split)
qed

lemma settled_row_step:
  assumes "control_step ctx db db'" and "ledger_inv db"
    and "r \<in> set (lg_jobs db)" and "wj_status r \<in> {Done, Uncertain}"
  shows "r \<in> set (lg_jobs db')"
  using assms(1)
proof (rule control_stepE)
  have st: "terminal_status (wj_status r)" using assms(4) by (auto simp: terminal_status_def)
  show "db' = fst (claim_job (rc_env ctx) input t db) \<Longrightarrow> r \<in> set (lg_jobs db')" for input t
    using settled_row_claim [OF assms(2,3) st] by simp
  show "db' = fst (finish_job jobId outcome t db) \<Longrightarrow> r \<in> set (lg_jobs db')" for jobId outcome t
    using settled_row_finish [OF assms(2,3) st] by simp
  show "db' = fst (replay_dead_letter ctx jobId request t (\<lambda>d. d) db) \<Longrightarrow> r \<in> set (lg_jobs db')"
    for jobId request t
    using settled_row_replay [OF assms(3)] assms(4) by auto
qed (use assms(3) in \<open>simp_all add: reject_invalid_job_def\<close>)

section \<open>Properties\<close>




definition settled_db :: control_db where
  "settled_db = empty_control\<lparr>lg_jobs := [done_job None 5 (sample_row 0)]\<rparr>"

lemma settled_db_inv: "control_inv settled_db"
  using control_inv_empty
  by (simp add: control_inv_def ledger_inv_def settled_db_def letters_ok_def row_ok_def
      envelopes_ok_def dead_letters_ok_def tab_keyed_def done_job_def sample_row_def
      new_worker_job_def terminal_status_def empty_control_def)


text \<open>C3: D1 and PostgreSQL are two implementations of one control plane: in every state its
  requests can reach, claiming and finishing a job, claiming an effect and replaying a dead
  letter leave the same tables in both and give the same answer, apart from the error a
  refused insertion is reported as.\<close>

theorem control_backends_agree:
  assumes "(control_step ctx)\<^sup>*\<^sup>* empty_control db"
    and "\<forall>r\<in>set (lg_jobs db). safe_integer (wj_attempts r + 1)"
  shows "fst (claim_job_pg (rc_env ctx) input now db) = fst (claim_job (rc_env ctx) input now db)
    \<and> claim_granted (snd (claim_job_pg (rc_env ctx) input now db))
        = claim_granted (snd (claim_job (rc_env ctx) input now db))
    \<and> finish_job_pg jobId outcome now db = finish_job jobId outcome now db
    \<and> claim_effect_pg claim now (cd_effects db) = Some (claim_effect claim now (cd_effects db))
    \<and> replay_dead_letter_pg ctx jobId request now db
        = replay_dead_letter ctx jobId request now (\<lambda>d. d) db"
proof -
  have inv: "control_inv db" by (rule control_steps_inv [OF assms(1) control_inv_empty])
  then have lg: "ledger_inv db" and ef: "effect_inv (cd_effects db)" and lt: "letters_ok db"
    by (simp_all add: control_inv_def)
  have "\<forall>r\<in>set (lg_jobs db). wj_failure_attempts r \<le> 3"
    using ledger_invD(6) [OF lg] by (fastforce simp: row_ok_def split: if_splits)
  moreover have "\<forall>d\<in>set (lg_dead_letters db). dl_envelope_job_id d \<in> {None, Some (dl_job_id d)}"
    using lt by (simp add: letters_ok_def)
  ultimately show ?thesis
    using claim_job_agrees [OF assms(2)] finish_job_agrees claim_effect_pg_eq [OF ef]
      replay_backends_agree by blast
qed

theorem control_backends_agree_witness:
  "finish_job_pg ''a'' (Result_Uncertain ''x'') 9 empty_control
     = finish_job ''a'' (Result_Uncertain ''x'') 9 empty_control"
proof -
  have "\<forall>r\<in>set (lg_jobs empty_control). safe_integer (wj_attempts r + 1)"
    by (simp add: empty_control_def)
  from control_backends_agree [where ctx = "sample_context (sample_article_job ''a'')",
      OF rtranclp.rtrancl_refl this]
  show ?thesis by blast
qed

end
