(* ===== verification/Control_Data.thy ===== *)
theory Control_Data
  imports Job_Ledger
begin

text \<open>
  The data operations of the control plane: \<open>apps/api/src/control-plane.ts\<close> (D1) from
  \<open>getChannels\<close> on, and \<open>control-plane-postgres-data.ts\<close>, whose statements are the same:
  the state store, the credential vault, login sessions, article events, the queue views
  and the publication of jobs. Heartbeats are in the theory \<open>Heartbeats\<close>.
\<close>

section \<open>Tables\<close>

record state_row =
  sr_key :: string
  sr_value :: json
  sr_updated_at :: instant

record credential_row =
  cr_name :: string
  cr_platform :: string
  cr_kind :: string
  cr_payload_encrypted :: bytes
  cr_created_at :: instant
  cr_updated_at :: instant

record login_row =
  lo_platform :: string
  lo_state_encrypted :: bytes
  lo_status :: string
  lo_expires_at :: string
  lo_last_used_at :: instant
  lo_last_error :: "string option"
  lo_created_at :: instant
  lo_updated_at :: instant

record event_input =
  ei_filename :: "string option"
  ei_reason :: "string option"
  ei_source_url :: string
  ei_status :: string
  ei_title :: string
  ei_url_fingerprint :: string

record data_db =
  dd_states :: "state_row list"
  dd_credentials :: "credential_row list"
  dd_logins :: "login_row list"
  dd_events :: "(event_input \<times> instant) list"

section \<open>The state store\<close>

definition get_state :: "string \<Rightarrow> data_db \<Rightarrow> json option" where
  "get_state key db = map_option sr_value (tab_first (\<lambda>r. sr_key r = key) (dd_states db))"

definition put_state :: "string \<Rightarrow> json \<Rightarrow> instant \<Rightarrow> data_db \<Rightarrow> data_db" where
  "put_state key value now db =
     db\<lparr>dd_states := tab_upsert sr_key
         (\<lambda>old new. old\<lparr>sr_value := sr_value new, sr_updated_at := sr_updated_at new\<rparr>)
         \<lparr>sr_key = key, sr_value = value, sr_updated_at = now\<rparr> (dd_states db)\<rparr>"

text \<open>\<open>getChannels\<close>: the two records of the state \<open>channels:safe\<close>, empty when missing.\<close>

definition record_field :: "json option \<Rightarrow> string \<Rightarrow> json_record" where
  "record_field v k =
     (case v of
        Some (JObj es) \<Rightarrow> (case json_get es k of Some (JObj fs) \<Rightarrow> fs | _ \<Rightarrow> [])
      | _ \<Rightarrow> [])"

definition get_channels :: "data_db \<Rightarrow> json_record \<times> json_record" where
  "get_channels db =
     (let channels = get_state ''channels:safe'' db
      in (record_field channels ''destinations'', record_field channels ''sources''))"

section \<open>Credentials and sessions\<close>

datatype vault_error =
    Vault_Crypto crypto_error
  | Unsupported_Cookie_Platform string
  | Missing_Cookie_Field string
  | Postgres_Required

definition get_credential ::
  "vault \<Rightarrow> string \<Rightarrow> string \<Rightarrow> data_db \<Rightarrow> vault_error + json option" where
  "get_credential va encryptionKey name db =
     (case tab_first (\<lambda>r. cr_name r = name) (dd_credentials db) of
        None \<Rightarrow> Inr None
      | Some row \<Rightarrow>
          (case decrypt_json va (cr_payload_encrypted row) encryptionKey of
             Inl e \<Rightarrow> Inl (Vault_Crypto e) | Inr v \<Rightarrow> Inr (Some v)))"

definition merge_credential :: "credential_row \<Rightarrow> credential_row \<Rightarrow> credential_row" where
  "merge_credential old new =
     old\<lparr>cr_payload_encrypted := cr_payload_encrypted new, cr_platform := cr_platform new,
         cr_kind := cr_kind new, cr_updated_at := cr_updated_at new\<rparr>"

definition put_credential ::
  "string \<Rightarrow> string \<Rightarrow> string \<Rightarrow> bytes \<Rightarrow> instant \<Rightarrow> data_db \<Rightarrow> data_db" where
  "put_credential name platform kind encrypted timestamp db =
     db\<lparr>dd_credentials := tab_upsert cr_name merge_credential
         \<lparr>cr_name = name, cr_platform = platform, cr_kind = kind,
          cr_payload_encrypted = encrypted, cr_created_at = timestamp, cr_updated_at = timestamp\<rparr>
         (dd_credentials db)\<rparr>"

definition cookie_fields :: "(string \<times> string) list" where
  "cookie_fields = [(''bilibili'', ''sessdata''), (''zhihu'', ''z_c0'')]"

text \<open>\<open>writeCookie\<close> returns the name the credential is stored under.\<close>

definition write_cookie ::
  "vault \<Rightarrow> string \<Rightarrow> string \<Rightarrow> json_record \<Rightarrow> instant \<Rightarrow> data_db \<Rightarrow> data_db \<times> (vault_error + string)" where
  "write_cookie va encryptionKey platform payload now db =
     (case map_of cookie_fields platform of
        None \<Rightarrow> (db, Inl (Unsupported_Cookie_Platform platform))
      | Some field \<Rightarrow>
          (case json_get payload field of
             Some (JStr value) \<Rightarrow>
               if value = [] then (db, Inl (Missing_Cookie_Field field))
               else (case encrypt_json va (JObj [(field, JStr value)]) encryptionKey of
                   Inl e \<Rightarrow> (db, Inl (Vault_Crypto e))
                 | Inr encrypted \<Rightarrow>
                     (let name = platform @ ''_creds''
                      in (put_credential name platform ''cookie'' encrypted now db, Inr name)))
           | _ \<Rightarrow> (db, Inl (Missing_Cookie_Field field))))"

text \<open>Over D1 the session of Inoreader cannot be stored.\<close>

definition save_inoreader_session_credential ::
  "json_record \<Rightarrow> data_db \<Rightarrow> data_db \<times> (vault_error + unit)" where
  "save_inoreader_session_credential state db = (db, Inl Postgres_Required)"

definition save_inoreader_session_credential_pg ::
  "vault \<Rightarrow> string \<Rightarrow> json_record \<Rightarrow> instant \<Rightarrow> data_db \<Rightarrow> data_db \<times> (vault_error + unit)" where
  "save_inoreader_session_credential_pg va encryptionKey state now db =
     (case encrypt_json va (JObj state) encryptionKey of
        Inl e \<Rightarrow> (db, Inl (Vault_Crypto e))
      | Inr encrypted \<Rightarrow>
          (put_credential ''inoreader_creds'' ''inoreader'' ''session'' encrypted now db, Inr ()))"

record login_input =
  li_expires_at :: string
  li_last_error :: "string option"
  li_state :: json
  li_status :: string

definition put_login_session ::
  "vault \<Rightarrow> string \<Rightarrow> string \<Rightarrow> login_input \<Rightarrow> instant \<Rightarrow> data_db \<Rightarrow> data_db \<times> (vault_error + unit)" where
  "put_login_session va encryptionKey platform input now db =
     (case encrypt_json va (li_state input) encryptionKey of
        Inl e \<Rightarrow> (db, Inl (Vault_Crypto e))
      | Inr encrypted \<Rightarrow>
          (db\<lparr>dd_logins := tab_upsert lo_platform
               (\<lambda>old new. old\<lparr>lo_state_encrypted := lo_state_encrypted new,
                  lo_status := lo_status new, lo_expires_at := lo_expires_at new,
                  lo_last_used_at := lo_last_used_at new, lo_last_error := lo_last_error new,
                  lo_updated_at := lo_updated_at new\<rparr>)
               \<lparr>lo_platform = platform, lo_state_encrypted = encrypted, lo_status = li_status input,
                lo_expires_at = li_expires_at input, lo_last_used_at = now,
                lo_last_error = li_last_error input, lo_created_at = now, lo_updated_at = now\<rparr>
               (dd_logins db)\<rparr>, Inr ()))"

record login_view =
  lv_expires_at :: "string option"
  lv_last_error :: "string option"
  lv_last_used_at :: "instant option"
  lv_platform :: string
  lv_session_status :: string

definition get_login_status :: "string \<Rightarrow> data_db \<Rightarrow> login_view" where
  "get_login_status platform db =
     (case tab_first (\<lambda>r. lo_platform r = platform) (dd_logins db) of
        Some row \<Rightarrow>
          \<lparr>lv_expires_at = Some (lo_expires_at row), lv_last_error = lo_last_error row,
           lv_last_used_at = Some (lo_last_used_at row), lv_platform = platform,
           lv_session_status = lo_status row\<rparr>
      | None \<Rightarrow>
          \<lparr>lv_expires_at = None, lv_last_error = None, lv_last_used_at = None,
           lv_platform = platform, lv_session_status = ''none''\<rparr>)"

definition record_article_event :: "event_input \<Rightarrow> instant \<Rightarrow> data_db \<Rightarrow> data_db" where
  "record_article_event event now db = db\<lparr>dd_events := dd_events db @ [(event, now)]\<rparr>"

section \<open>The queue views\<close>

text \<open>The dead letters by kind of item, the newest hundred of all.\<close>

fun push_dead_letter ::
  "dead_letter \<Rightarrow> (item_kind \<Rightarrow> dead_letter list) \<Rightarrow> item_kind \<Rightarrow> dead_letter list" where
  "push_dead_letter row dlq =
     (case dl_item_kind row of None \<Rightarrow> dlq | Some kind \<Rightarrow> dlq(kind := dlq kind @ [row]))"

definition newest_dead_letters :: "dead_letter list \<Rightarrow> dead_letter list" where
  "newest_dead_letters rows = take 100 (sort_key (\<lambda>r. - dl_created_at r) rows)"

definition get_queue_dlq ::
  "'a ledger_scheme \<Rightarrow> (item_kind \<Rightarrow> nat) \<times> (item_kind \<Rightarrow> dead_letter list)" where
  "get_queue_dlq db =
     (let dlq = fold push_dead_letter (newest_dead_letters (lg_dead_letters db)) (\<lambda>_. [])
      in (\<lambda>kind. length (dlq kind), dlq))"

text \<open>\<open>SELECT key, COUNT(*) ... WHERE key IS NOT NULL GROUP BY key\<close>.\<close>

definition group_counts :: "('r \<Rightarrow> 'k option) \<Rightarrow> 'r list \<Rightarrow> ('k \<times> nat) list" where
  "group_counts key rows =
     map (\<lambda>k. (k, length (filter (\<lambda>r. key r = Some k) rows)))
       (remdups (map the (filter (\<lambda>v. v \<noteq> None) (map key rows))))"

definition job_group :: "worker_job \<Rightarrow> (item_kind \<times> job_status) option" where
  "job_group r = map_option (\<lambda>k. (k, wj_status r)) (wj_item_kind r)"

fun add_job_group ::
  "(item_kind \<times> job_status) \<times> nat \<Rightarrow> (item_kind \<Rightarrow> queue_stats) \<Rightarrow> item_kind \<Rightarrow> queue_stats" where
  "add_job_group ((kind, status), count) queues =
     (if status = Done then queues(kind := (queues kind)\<lparr>qs_done := count\<rparr>)
      else if status = Processing \<or> status = Deferred \<or> status = Failed
      then queues(kind := (queues kind)\<lparr>qs_pending := qs_pending (queues kind) + count\<rparr>)
      else queues)"

fun add_dead_group ::
  "item_kind \<times> nat \<Rightarrow> (item_kind \<Rightarrow> queue_stats) \<Rightarrow> item_kind \<Rightarrow> queue_stats" where
  "add_dead_group (kind, count) queues = queues(kind := (queues kind)\<lparr>qs_dlq := count\<rparr>)"

definition empty_queue_summary :: "item_kind \<Rightarrow> queue_stats" where
  "empty_queue_summary = (\<lambda>_. \<lparr>qs_dlq = 0, qs_done = 0, qs_pending = 0\<rparr>)"

definition get_queue_summary :: "'a ledger_scheme \<Rightarrow> item_kind \<Rightarrow> queue_stats" where
  "get_queue_summary db =
     (let jobs = group_counts job_group (lg_jobs db);
          dead = group_counts dl_item_kind (lg_dead_letters db)
      in fold add_dead_group dead (fold add_job_group jobs empty_queue_summary))"

section \<open>Publication\<close>

definition publish_jobs ::
  "formats \<Rightarrow> (queue_job \<Rightarrow> nat) \<Rightarrow> (queue_job list \<Rightarrow> bool) \<Rightarrow> json list
   \<Rightarrow> queue_job list list \<times> (sync_error + nat)" where
  "publish_jobs fmt byteLength accepts inputs =
     (case sequence_options (map (parse_queue_job fmt) inputs) of
        None \<Rightarrow> ([], Inl Sync_Job_Invalid)
      | Some jobs \<Rightarrow>
          (case send_batch fmt byteLength accepts (map json_of_job jobs) of
             (sent, None) \<Rightarrow> (sent, Inr (length jobs))
           | (sent, Some e) \<Rightarrow> (sent, Inl (Sync_Publish_Failed e))))"

section \<open>Lemmas\<close>

lemma group_counts_keys:
  "map fst (group_counts key rows) = remdups (map the (filter (\<lambda>v. v \<noteq> None) (map key rows)))"
  by (simp add: group_counts_def comp_def)

lemma group_counts_distinct: "distinct (map fst (group_counts key rows))"
  by (simp add: group_counts_keys)

lemma group_count:
  "(case map_of (group_counts key rows) k of None \<Rightarrow> 0 | Some n \<Rightarrow> n)
     = length (filter (\<lambda>r. key r = Some k) rows)"
proof (cases "Some k \<in> key ` set rows")
  case True
  then have "Some k \<in> set (filter (\<lambda>v. v \<noteq> None) (map key rows))" by simp
  then have "the (Some k) \<in> the ` set (filter (\<lambda>v. v \<noteq> None) (map key rows))" by (rule imageI)
  then have "k \<in> set (remdups (map the (filter (\<lambda>v. v \<noteq> None) (map key rows))))"
    unfolding set_remdups set_map by (simp only: option.sel)
  then have "(k, length (filter (\<lambda>r. key r = Some k) rows)) \<in> set (group_counts key rows)"
    unfolding group_counts_def set_map by (rule imageI)
  then have "map_of (group_counts key rows) k = Some (length (filter (\<lambda>r. key r = Some k) rows))"
    by (rule map_of_is_SomeI [OF group_counts_distinct])
  then show ?thesis by simp
next
  case False
  then have "k \<notin> fst ` set (group_counts key rows)"
    unfolding set_map [symmetric] group_counts_keys by (force simp: image_iff)
  then have "map_of (group_counts key rows) k = None" by (simp add: map_of_eq_None_iff)
  moreover have "filter (\<lambda>r. key r = Some k) rows = []"
    using False by (auto simp: filter_empty_conv image_iff)
  ultimately show ?thesis by simp
qed

abbreviation group_size :: "('k \<times> nat) list \<Rightarrow> 'k \<Rightarrow> nat" where
  "group_size gs k \<equiv> (case map_of gs k of None \<Rightarrow> 0 | Some n \<Rightarrow> n)"

lemma fold_job_groups:
  "distinct (map fst gs) \<Longrightarrow>
   qs_done (fold add_job_group gs q k)
      = (case map_of gs (k, Done) of None \<Rightarrow> qs_done (q k) | Some n \<Rightarrow> n)
   \<and> qs_pending (fold add_job_group gs q k) = qs_pending (q k) + group_size gs (k, Processing)
      + group_size gs (k, Deferred) + group_size gs (k, Failed)
   \<and> qs_dlq (fold add_job_group gs q k) = qs_dlq (q k)"
proof (induction gs arbitrary: q)
  case (Cons g gs)
  obtain kind status count where g: "g = ((kind, status), count)" by (metis prod.collapse)
  have fresh: "map_of gs (kind, status) = None"
    using Cons.prems g by (simp add: map_of_eq_None_iff)
  have "distinct (map fst gs)" using Cons.prems by simp
  define q' where "q' = add_job_group g q"
  note IH = Cons.IH [OF \<open>distinct (map fst gs)\<close>, of q']
  have step: "fold add_job_group (g # gs) q = fold add_job_group gs q'" by (simp add: q'_def)
  have at: "q' k =
      (if kind \<noteq> k then q k
       else if status = Done then (q k)\<lparr>qs_done := count\<rparr>
       else if status = Processing \<or> status = Deferred \<or> status = Failed
       then (q k)\<lparr>qs_pending := qs_pending (q k) + count\<rparr> else q k)"
    by (simp add: q'_def g)
  show ?case unfolding step using IH fresh at
    by (cases status; cases "kind = k") (simp_all add: g split: option.split)
qed simp

lemma fold_dead_groups:
  assumes "distinct (map fst gs)"
  shows "fold add_dead_group gs q k
      = (case map_of gs k of None \<Rightarrow> q k | Some n \<Rightarrow> (q k)\<lparr>qs_dlq := n\<rparr>)"
  using assms
proof (induction gs arbitrary: q)
  case (Cons g gs)
  obtain kind count where g: "g = (kind, count)" by force
  have "map_of gs kind = None" using Cons.prems g by (simp add: map_of_eq_None_iff)
  define q' where "q' = add_dead_group g q"
  have step: "fold add_dead_group (g # gs) q = fold add_dead_group gs q'" by (simp add: q'_def)
  have at: "q' k = (if kind = k then (q k)\<lparr>qs_dlq := count\<rparr> else q k)"
    by (simp add: q'_def g)
  show ?case unfolding step using Cons.IH [of q'] Cons.prems at \<open>map_of gs kind = None\<close>
    by (cases "kind = k") (simp_all add: g split: option.split)
qed simp

lemma fold_push_dead_letter:
  "fold push_dead_letter rows dlq k
     = dlq k @ filter (\<lambda>r. dl_item_kind r = Some k) rows"
  by (induction rows arbitrary: dlq) (auto split: option.split)

definition jobs_with :: "item_kind \<Rightarrow> job_status set \<Rightarrow> 'a ledger_scheme \<Rightarrow> nat" where
  "jobs_with k S db =
     length (filter (\<lambda>r. wj_item_kind r = Some k \<and> wj_status r \<in> S) (lg_jobs db))"

lemma jobs_with_insert:
  "s \<notin> S \<Longrightarrow> jobs_with k (insert s S) db
     = length (filter (\<lambda>r. job_group r = Some (k, s)) (lg_jobs db)) + jobs_with k S db"
proof -
  assume s: "s \<notin> S"
  have "length (filter (\<lambda>r. wj_item_kind r = Some k \<and> wj_status r \<in> insert s S) jobs)
      = length (filter (\<lambda>r. job_group r = Some (k, s)) jobs)
        + length (filter (\<lambda>r. wj_item_kind r = Some k \<and> wj_status r \<in> S) jobs)" for jobs
    using s by (induction jobs) (auto simp: job_group_def)
  then show ?thesis by (simp add: jobs_with_def)
qed

lemma jobs_with_empty [simp]: "jobs_with k {} db = 0"
  by (simp add: jobs_with_def)

lemma queue_summary_counts:
  "get_queue_summary db k =
     \<lparr>qs_dlq = length (filter (\<lambda>d. dl_item_kind d = Some k) (lg_dead_letters db)),
      qs_done = jobs_with k {Done} db, qs_pending = jobs_with k {Processing, Deferred, Failed} db\<rparr>"
proof -
  let ?jobs = "group_counts job_group (lg_jobs db)"
  let ?dead = "group_counts dl_item_kind (lg_dead_letters db)"
  let ?q = "fold add_job_group ?jobs empty_queue_summary"
  have size: "group_size ?jobs (k, s) = length (filter (\<lambda>r. job_group r = Some (k, s)) (lg_jobs db))"
    for s by (rule group_count)
  have dn: "qs_done (?q k) = group_size ?jobs (k, Done)"
    by (simp add: fold_job_groups [OF group_counts_distinct] empty_queue_summary_def
        split: option.split)
  have pending: "qs_pending (?q k) = group_size ?jobs (k, Processing)
      + group_size ?jobs (k, Deferred) + group_size ?jobs (k, Failed)"
    by (simp add: fold_job_groups [OF group_counts_distinct] empty_queue_summary_def)
  have dlq: "qs_dlq (?q k) = 0"
    by (simp add: fold_job_groups [OF group_counts_distinct] empty_queue_summary_def)
  have "jobs_with k {Done} db = qs_done (?q k)"
    and "jobs_with k {Processing, Deferred, Failed} db = qs_pending (?q k)"
    unfolding dn pending size by (simp_all add: jobs_with_insert)
  moreover have "get_queue_summary db k
      = (case map_of ?dead k of None \<Rightarrow> ?q k | Some n \<Rightarrow> (?q k)\<lparr>qs_dlq := n\<rparr>)"
    by (simp add: get_queue_summary_def Let_def fold_dead_groups [OF group_counts_distinct])
  ultimately show ?thesis
    using group_count [of dl_item_kind "lg_dead_letters db" k] dlq
    by (cases "?q k") (auto split: option.splits)
qed

section \<open>Properties\<close>

text \<open>A cookie that was accepted is the credential that is read back, under the name the
  answer gave and whatever was stored under it before; a platform without a cookie field, or
  a payload without it, changes nothing.\<close>

lemma cookie_is_read_back:
  assumes "write_cookie va key platform payload now db = (db', answer)"
  shows "case answer of
      Inr name \<Rightarrow> \<exists>field value. map_of cookie_fields platform = Some field
        \<and> json_get payload field = Some (JStr value) \<and> value \<noteq> []
        \<and> (vault_ok va (JObj [(field, JStr value)]) \<longrightarrow>
             get_credential va key name db' = Inr (Some (JObj [(field, JStr value)])))
    | Inl e \<Rightarrow> db' = db"
proof (cases answer)
  case (Inl e)
  then show ?thesis using assms
    by (auto simp: write_cookie_def Let_def split: option.splits json.splits if_splits sum.splits)
next
  case (Inr name)
  then obtain field "value" encrypted where w: "map_of cookie_fields platform = Some field"
      "json_get payload field = Some (JStr value)" "value \<noteq> []"
      "encrypt_json va (JObj [(field, JStr value)]) key = Inr encrypted"
      "db' = put_credential name platform ''cookie'' encrypted now db"
    using assms
    by (auto simp: write_cookie_def Let_def split: option.splits json.splits if_splits sum.splits)
  let ?new = "\<lparr>cr_name = name, cr_platform = platform, cr_kind = ''cookie'',
    cr_payload_encrypted = encrypted, cr_created_at = now, cr_updated_at = now\<rparr>"
  have merge: "cr_name (merge_credential old new) = cr_name old" for old new
    by (simp add: merge_credential_def)
  obtain row where "tab_first (\<lambda>r. cr_name r = name) (dd_credentials db') = Some row"
      "cr_payload_encrypted row = encrypted"
  proof (cases "tab_first (\<lambda>r. cr_name r = name) (dd_credentials db)")
    case None
    then have "name \<notin> cr_name ` set (dd_credentials db)" by (auto simp: tab_first_None)
    then show ?thesis using None that [of ?new] w(5)
      by (simp add: put_credential_def tab_upsert_def tab_first_append)
  next
    case (Some old)
    then have "name \<in> cr_name ` set (dd_credentials db)" using tab_first_SomeD by fastforce
    then show ?thesis
      using Some that [of "merge_credential old ?new"] w(5)
        tab_first_mapped [of cr_name "\<lambda>old. merge_credential old ?new" name "dd_credentials db", OF merge]
      by (simp add: put_credential_def tab_upsert_def) (simp add: merge_credential_def)
  qed
  moreover have "vault_ok va (JObj [(field, JStr value)]) \<Longrightarrow>
      decrypt_json va encrypted key = Inr (JObj [(field, JStr value)])"
    by (rule decrypt_encrypt [OF _ w(4)])
  ultimately show ?thesis using w Inr by (auto simp: get_credential_def)
qed

text \<open>The queue views count what the tables hold: per kind of item the summary shows the
  jobs that are done, those still to be finished, and the dead letters, each row once; the
  list of dead letters shows of the newest hundred those of the kind, in their order, and
  counts them.\<close>

lemma queue_views_count_the_tables:
  "get_queue_summary db k =
     \<lparr>qs_dlq = length (filter (\<lambda>d. dl_item_kind d = Some k) (lg_dead_letters db)),
      qs_done = jobs_with k {Done} db, qs_pending = jobs_with k {Processing, Deferred, Failed} db\<rparr>
   \<and> snd (get_queue_dlq db) k
       = filter (\<lambda>d. dl_item_kind d = Some k) (newest_dead_letters (lg_dead_letters db))
   \<and> fst (get_queue_dlq db) k = length (snd (get_queue_dlq db) k)"
  by (simp add: queue_summary_counts get_queue_dlq_def Let_def fold_push_dead_letter)

end
