(* ===== verification/Heartbeats.thy ===== *)
theory Heartbeats
  imports Inbox_Prelude "HOL-Library.List_Lexorder" "HOL-Library.Product_Lexorder"
    "HOL-Library.Char_ord"
begin

text \<open>
  Worker heartbeats: \<open>recordHeartbeat\<close> of \<open>apps/api/src/control-plane.ts\<close> (D1) and of
  \<open>control-plane-postgres-data.ts\<close>, and \<open>heartbeat-cache.ts\<close>, the cache of the latest
  heartbeat in a key of an Upstash Redis.

  A heartbeat in the table was written by \<open>nowIso\<close>, so its time is an instant; the time of a
  cached one is what \<open>Date.parse\<close> reads from the text, which may be nothing. The server runs
  the script \<open>SET_IF_NEWER_SCRIPT\<close> atomically and forgets the key 90 seconds after it was
  set. Every command may fail on the way there (nothing happens) or on the way back
  (it happened); the code cannot tell the two apart and treats both as \<open>null\<close>.
\<close>

section \<open>Data\<close>

record heartbeat =
  hb_worker :: string
  hb_seen :: instant
  hb_details :: string

record cached_heartbeat =
  ch_worker :: string
  ch_seen :: "instant option"
  ch_details :: string

text \<open>The text under the key: one that is no heartbeat, or a heartbeat with the number
  \<open>timestamp_ms\<close>.\<close>

datatype cache_value = Foreign | Cached cached_heartbeat int

record cache_entry =
  ce_value :: cache_value
  ce_expires :: instant

type_synonym redis = "cache_entry option"

datatype delivery = Delivered | Lost_Request | Lost_Answer

definition heartbeat_ttl_seconds :: int where "heartbeat_ttl_seconds = 90"
definition max_future_skew_ms :: int where "max_future_skew_ms = 30000"
definition max_heartbeat_age_ms :: int where "max_heartbeat_age_ms = heartbeat_ttl_seconds * 1000"

section \<open>The cache\<close>

text \<open>What the server holds under the key at its own time.\<close>

definition redis_read :: "instant \<Rightarrow> redis \<Rightarrow> cache_value option" where
  "redis_read clock r =
     (case r of None \<Rightarrow> None | Some e \<Rightarrow> if clock < ce_expires e then Some (ce_value e) else None)"

definition set_if_newer_script ::
  "instant \<Rightarrow> cached_heartbeat \<Rightarrow> int \<Rightarrow> redis \<Rightarrow> redis" where
  "set_if_newer_script clock incoming timestamp r =
     (let written = Some \<lparr>ce_value = Cached incoming timestamp,
                          ce_expires = clock + heartbeat_ttl_seconds * 1000\<rparr>
      in case redis_read clock r of
           Some (Cached current currentTimestamp) \<Rightarrow>
             if currentTimestamp > timestamp
                \<or> currentTimestamp = timestamp \<and> ch_worker current > ch_worker incoming
             then r else written
         | _ \<Rightarrow> written)"

definition cache_get :: "delivery \<Rightarrow> instant \<Rightarrow> redis \<Rightarrow> cached_heartbeat option" where
  "cache_get d clock r =
     (if d \<noteq> Delivered then None
      else case redis_read clock r of Some (Cached h _) \<Rightarrow> Some h | _ \<Rightarrow> None)"

definition cache_set_if_newer :: "delivery \<Rightarrow> instant \<Rightarrow> cached_heartbeat \<Rightarrow> redis \<Rightarrow> redis" where
  "cache_set_if_newer d clock h r =
     (case ch_seen h of
        None \<Rightarrow> r
      | Some timestamp \<Rightarrow> if d = Lost_Request then r else set_if_newer_script clock h timestamp r)"

definition is_fresh_heartbeat :: "cached_heartbeat \<Rightarrow> instant \<Rightarrow> bool" where
  "is_fresh_heartbeat h now =
     (case ch_seen h of
        None \<Rightarrow> False
      | Some timestamp \<Rightarrow>
          ch_worker h \<noteq> [] \<and> - max_future_skew_ms \<le> now - timestamp
          \<and> now - timestamp \<le> max_heartbeat_age_ms)"

definition as_cached :: "heartbeat \<Rightarrow> cached_heartbeat" where
  "as_cached h = \<lparr>ch_worker = hb_worker h, ch_seen = Some (hb_seen h), ch_details = hb_details h\<rparr>"

definition cache_fresh_heartbeat ::
  "delivery \<Rightarrow> instant \<Rightarrow> heartbeat option \<Rightarrow> instant \<Rightarrow> redis \<Rightarrow> redis" where
  "cache_fresh_heartbeat d clock h now r =
     (case h of
        None \<Rightarrow> r
      | Some hb \<Rightarrow>
          if is_fresh_heartbeat (as_cached hb) now
          then cache_set_if_newer d clock (as_cached hb) r else r)"

section \<open>The table\<close>

text \<open>Over D1 a heartbeat replaces the one of its worker; over PostgreSQL only one that is not
  older does.\<close>

definition replace_heartbeat :: "heartbeat \<Rightarrow> heartbeat \<Rightarrow> heartbeat" where
  "replace_heartbeat old new = old\<lparr>hb_seen := hb_seen new, hb_details := hb_details new\<rparr>"

definition record_heartbeat :: "string \<Rightarrow> string \<Rightarrow> instant \<Rightarrow> heartbeat list \<Rightarrow> heartbeat list" where
  "record_heartbeat workerId details now rows =
     tab_upsert hb_worker replace_heartbeat
       \<lparr>hb_worker = workerId, hb_seen = now, hb_details = details\<rparr> rows"

definition replace_older_heartbeat :: "heartbeat \<Rightarrow> heartbeat \<Rightarrow> heartbeat" where
  "replace_older_heartbeat old new =
     (if hb_seen old \<le> hb_seen new then replace_heartbeat old new else old)"

text \<open>\<open>ORDER BY last_seen_at DESC, worker_id DESC LIMIT 1\<close>, the identifiers by their
  characters.\<close>

definition heartbeat_rank :: "heartbeat \<Rightarrow> instant \<times> string" where
  "heartbeat_rank h = (hb_seen h, hb_worker h)"

fun latest_heartbeat :: "heartbeat list \<Rightarrow> heartbeat option" where
  "latest_heartbeat [] = None"
| "latest_heartbeat (h # rows) =
     (case latest_heartbeat rows of
        None \<Rightarrow> Some h
      | Some best \<Rightarrow> if heartbeat_rank best < heartbeat_rank h then Some h else Some best)"

definition record_heartbeat_pg ::
  "string \<Rightarrow> string \<Rightarrow> instant \<Rightarrow> instant \<Rightarrow> delivery \<Rightarrow> instant
   \<Rightarrow> heartbeat list \<times> redis \<Rightarrow> heartbeat list \<times> redis" where
  "record_heartbeat_pg workerId details timestamp now d clock s =
     (let rows = tab_upsert hb_worker replace_older_heartbeat
            \<lparr>hb_worker = workerId, hb_seen = timestamp, hb_details = details\<rparr> (fst s)
      in (rows, cache_fresh_heartbeat d clock (latest_heartbeat rows) now (snd s)))"

definition read_latest_worker_heartbeat ::
  "instant \<Rightarrow> delivery \<Rightarrow> delivery \<Rightarrow> instant \<Rightarrow> heartbeat list \<times> redis
   \<Rightarrow> (heartbeat list \<times> redis) \<times> cached_heartbeat option" where
  "read_latest_worker_heartbeat now d d' clock s =
     (case cache_get d clock (snd s) of
        Some h \<Rightarrow>
          if is_fresh_heartbeat h now then (s, Some h)
          else (let heartbeat = latest_heartbeat (fst s)
                in ((fst s, cache_fresh_heartbeat d' clock heartbeat now (snd s)),
                    map_option as_cached heartbeat))
      | None \<Rightarrow>
          (let heartbeat = latest_heartbeat (fst s)
           in ((fst s, cache_fresh_heartbeat d' clock heartbeat now (snd s)),
               map_option as_cached heartbeat)))"

section \<open>Runs\<close>

text \<open>Heartbeats and reads in any order, with any faults, and clocks that need not agree nor
  go forward.\<close>

inductive heartbeat_step ::
  "heartbeat list \<times> redis \<Rightarrow> heartbeat list \<times> redis \<Rightarrow> bool" where
  report: "heartbeat_step s (record_heartbeat_pg workerId details timestamp now d clock s)"
| read: "heartbeat_step s (fst (read_latest_worker_heartbeat now d d' clock s))"
| expire: "heartbeat_step (rows, r) (rows, None)"

inductive_cases heartbeat_stepE: "heartbeat_step s s'"

text \<open>The cached heartbeat carries its own time and never runs ahead of the table.\<close>

definition cache_behind :: "heartbeat list \<times> redis \<Rightarrow> bool" where
  "cache_behind s =
     (case snd s of
        Some e \<Rightarrow>
          (case ce_value e of
             Cached h t \<Rightarrow> ch_seen h = Some t
               \<and> (\<exists>l. latest_heartbeat (fst s) = Some l \<and> (t, ch_worker h) \<le> heartbeat_rank l)
           | Foreign \<Rightarrow> True)
      | None \<Rightarrow> True)"

section \<open>Lemmas\<close>

lemma latest_heartbeat_None [simp]: "latest_heartbeat rows = None \<longleftrightarrow> rows = []"
  by (cases rows) (auto split: option.splits)

lemma latest_heartbeat_is_a_row: "latest_heartbeat rows = Some l \<Longrightarrow> l \<in> set rows"
  by (induction rows arbitrary: l) (auto split: option.splits if_splits)

lemma latest_heartbeat_ge:
  "latest_heartbeat rows = Some l \<Longrightarrow> h \<in> set rows \<Longrightarrow> heartbeat_rank h \<le> heartbeat_rank l"
proof (induction rows arbitrary: l)
  case (Cons a rows)
  show ?case
  proof (cases "latest_heartbeat rows")
    case None
    then show ?thesis using Cons.prems by simp
  next
    case (Some best)
    have "heartbeat_rank h \<le> heartbeat_rank best" if "h \<in> set rows"
      using Cons.IH [OF Some that] .
    then show ?thesis using Cons.prems Some by (auto split: if_splits)
  qed
qed simp

lemma latest_heartbeat_mono:
  assumes "\<And>h. h \<in> set rows \<Longrightarrow> \<exists>h'\<in>set rows'. heartbeat_rank h \<le> heartbeat_rank h'"
    and "latest_heartbeat rows = Some l"
  obtains l' where "latest_heartbeat rows' = Some l'" "heartbeat_rank l \<le> heartbeat_rank l'"
proof -
  obtain h' where h': "h' \<in> set rows'" "heartbeat_rank l \<le> heartbeat_rank h'"
    using assms latest_heartbeat_is_a_row by blast
  then obtain l' where "latest_heartbeat rows' = Some l'"
    by (cases "latest_heartbeat rows'") auto
  then show thesis using that h' latest_heartbeat_ge order_trans by blast
qed

lemma replace_older_rank: "hb_worker old = hb_worker new \<Longrightarrow>
  heartbeat_rank old \<le> heartbeat_rank (replace_older_heartbeat old new)"
  by (simp add: heartbeat_rank_def replace_older_heartbeat_def replace_heartbeat_def)

lemma upsert_heartbeat_mono:
  assumes "h \<in> set rows"
  shows "\<exists>h'\<in>set (tab_upsert hb_worker replace_older_heartbeat new rows).
    hb_worker h' = hb_worker h \<and> hb_seen h \<le> hb_seen h'"
proof (cases "hb_worker h = hb_worker new")
  case True
  then have "hb_worker new \<in> hb_worker ` set rows" using assms by (metis imageI)
  then have "replace_older_heartbeat h new \<in> set (tab_upsert hb_worker replace_older_heartbeat new rows)"
    using assms True by (auto simp: tab_upsert_def set_tab_update)
  moreover have "hb_worker (replace_older_heartbeat h new) = hb_worker h"
      "hb_seen h \<le> hb_seen (replace_older_heartbeat h new)"
    by (simp_all add: replace_older_heartbeat_def replace_heartbeat_def)
  ultimately show ?thesis by blast
next
  case False
  then show ?thesis using assms
    by (auto simp: tab_upsert_def set_tab_update image_iff intro!: bexI [of _ h])
qed

lemma upsert_rank_mono:
  assumes "h \<in> set rows"
  shows "\<exists>h'\<in>set (tab_upsert hb_worker replace_older_heartbeat new rows).
    heartbeat_rank h \<le> heartbeat_rank h'"
  using upsert_heartbeat_mono [OF assms, of new] by (force simp: heartbeat_rank_def)

lemma cache_behind_written:
  assumes "cache_behind (rows, r)" "latest_heartbeat rows = h"
  shows "cache_behind (rows, cache_fresh_heartbeat d clock h now r)"
  using assms
  by (auto simp: cache_behind_def cache_fresh_heartbeat_def cache_set_if_newer_def as_cached_def
      set_if_newer_script_def heartbeat_rank_def Let_def
      split: option.splits cache_value.splits)

lemma cache_behind_more_rows:
  assumes "cache_behind (rows, r)"
    and "\<And>h. h \<in> set rows \<Longrightarrow> \<exists>h'\<in>set rows'. heartbeat_rank h \<le> heartbeat_rank h'"
  shows "cache_behind (rows', r)"
proof (cases r)
  case (Some e)
  show ?thesis
  proof (cases "ce_value e")
    case (Cached h t)
    then obtain l where "ch_seen h = Some t" "latest_heartbeat rows = Some l"
        "(t, ch_worker h) \<le> heartbeat_rank l"
      using assms Some by (auto simp: cache_behind_def)
    moreover obtain l' where "latest_heartbeat rows' = Some l'" "heartbeat_rank l \<le> heartbeat_rank l'"
      using latest_heartbeat_mono [OF assms(2) calculation(2)] .
    ultimately show ?thesis using Some Cached order_trans by (auto simp: cache_behind_def)
  qed (simp add: Some cache_behind_def)
qed (simp add: cache_behind_def)

lemma cache_behind_step:
  assumes "heartbeat_step s s'" "cache_behind s"
  shows "cache_behind s'"
  using assms
proof (cases rule: heartbeat_step.cases)
  case (report workerId details timestamp now d clock)
  let ?new = "\<lparr>hb_worker = workerId, hb_seen = timestamp, hb_details = details\<rparr>"
  have "cache_behind (tab_upsert hb_worker replace_older_heartbeat ?new (fst s), snd s)"
    by (rule cache_behind_more_rows [of "fst s"]) (use assms upsert_rank_mono in auto)
  then show ?thesis using report cache_behind_written
    by (simp add: record_heartbeat_pg_def Let_def)
next
  case (read now d d' clock)
  then show ?thesis using assms cache_behind_written [of "fst s" "snd s"]
    by (auto simp: read_latest_worker_heartbeat_def Let_def split: option.split)
next
  case (expire rows r)
  then show ?thesis by (simp add: cache_behind_def)
qed

lemma cache_behind_run:
  assumes "heartbeat_step\<^sup>*\<^sup>* s s'" "cache_behind s"
  shows "cache_behind s'"
  using assms by (induction rule: rtranclp_induct) (auto intro: cache_behind_step)

lemma heartbeat_step_mono:
  assumes "heartbeat_step s s'" "h \<in> set (fst s)"
  shows "\<exists>h'\<in>set (fst s'). hb_worker h' = hb_worker h \<and> hb_seen h \<le> hb_seen h'"
  using assms
proof (cases rule: heartbeat_step.cases)
  case report
  then show ?thesis using assms upsert_heartbeat_mono
    by (simp add: record_heartbeat_pg_def Let_def)
next
  case (read now d d' clock)
  then have "fst s' = fst s"
    by (simp add: read_latest_worker_heartbeat_def Let_def split: option.split)
  then show ?thesis using assms by auto
next
  case expire
  then show ?thesis using assms by auto
qed

lemma heartbeat_run_mono:
  assumes "heartbeat_step\<^sup>*\<^sup>* s s'" "h \<in> set (fst s)"
  shows "\<exists>h'\<in>set (fst s'). hb_worker h' = hb_worker h \<and> hb_seen h \<le> hb_seen h'"
  using assms
proof (induction rule: rtranclp_induct)
  case (step t u)
  then obtain h' where "h' \<in> set (fst t)" "hb_worker h' = hb_worker h" "hb_seen h \<le> hb_seen h'"
    by blast
  then show ?case using heartbeat_step_mono [OF step.hyps(2)] by (metis order_trans)
qed auto

section \<open>Properties\<close>

text \<open>After any run of heartbeats and reads over PostgreSQL, with requests and answers of
  the cache lost at will and clocks that disagree or go back, no worker's heartbeat has moved
  back, and what a reader is answered is sound: nothing only when no worker ever reported;
  otherwise the latest heartbeat of the table, or a cached one that is fresh by the reader's
  clock and not ahead of the latest of the table.\<close>

lemma served_heartbeat_is_sound:
  assumes "heartbeat_step\<^sup>*\<^sup>* (rows, None) (rows', r)"
  shows "(\<forall>h\<in>set rows. \<exists>h'\<in>set rows'. hb_worker h' = hb_worker h \<and> hb_seen h \<le> hb_seen h')
    \<and> (case snd (read_latest_worker_heartbeat now d d' clock (rows', r)) of
         None \<Rightarrow> rows' = []
       | Some h \<Rightarrow> (\<exists>l. latest_heartbeat rows' = Some l
           \<and> (h = as_cached l
              \<or> is_fresh_heartbeat h now \<and> (the (ch_seen h), ch_worker h) \<le> heartbeat_rank l)))"
proof -
  have behind: "cache_behind (rows', r)"
    using cache_behind_run [OF assms] by (simp add: cache_behind_def)
  have cached: "\<exists>l. latest_heartbeat rows' = Some l \<and> (the (ch_seen h), ch_worker h) \<le> heartbeat_rank l"
    if "cache_get d clock r = Some h" for h
    using behind that
    by (auto simp: cache_behind_def cache_get_def redis_read_def
        split: option.splits cache_value.splits if_splits)
  have "case snd (read_latest_worker_heartbeat now d d' clock (rows', r)) of
         None \<Rightarrow> rows' = []
       | Some h \<Rightarrow> (\<exists>l. latest_heartbeat rows' = Some l
           \<and> (h = as_cached l
              \<or> is_fresh_heartbeat h now \<and> (the (ch_seen h), ch_worker h) \<le> heartbeat_rank l))"
    using cached
    by (auto simp: read_latest_worker_heartbeat_def Let_def split: option.split)
  then show ?thesis using heartbeat_run_mono [OF assms] by auto
qed

end
