(* ===== verification/Worker_Health.thy ===== *)
theory Worker_Health
  imports Queue_Job
begin

text \<open>
  The health of a worker: \<open>apps/worker/src/health.ts\<close>, the reducer over component events,
  the probes and the decision whether a job may be taken; and \<open>health-server.ts\<close>, the
  routes of the probes and the webhook that drains the queue. Writing the response to the
  socket and the log lines are left out.
\<close>

section \<open>Component states\<close>

datatype component = Browser | Mihomo | Warp

datatype phase = Starting | Ready | Degraded | Stopping | Failing

record component_state =
  co_can_accept_work :: bool
  co_observed_at :: instant
  co_reason_code :: string
  co_required :: bool
  co_state :: phase

record health_state =
  hs_accepting_jobs :: bool
  hs_browser_ready :: bool
  hs_components :: "component \<Rightarrow> component_state"
  hs_last_loop_at :: instant
  hs_phase :: phase
  hs_started_at :: instant

datatype health_event =
    Browser_Ready instant
  | Component_State instant component string phase
  | Loop_Error instant
  | Loop_Progress instant
  | Shutdown_Started instant

definition all_components :: "component list" where
  "all_components = [Browser, Mihomo, Warp]"

definition starting_component :: "instant \<Rightarrow> bool \<Rightarrow> component_state" where
  "starting_component observedAt required =
     (if required
      then \<lparr>co_can_accept_work = False, co_observed_at = observedAt,
            co_reason_code = ''startup_pending'', co_required = required, co_state = Starting\<rparr>
      else \<lparr>co_can_accept_work = True, co_observed_at = observedAt,
            co_reason_code = ''not_configured'', co_required = required, co_state = Ready\<rparr>)"

definition derive_phase :: "(component \<Rightarrow> component_state) \<Rightarrow> phase" where
  "derive_phase components =
     (let required = filter co_required (map components all_components)
      in if list_ex (\<lambda>c. co_state c = Failing) required then Failing
         else if list_ex (\<lambda>c. co_state c = Degraded) required then Degraded
         else if list_ex (\<lambda>c. co_state c \<noteq> Ready) required then Starting
         else Ready)"

definition derive_state :: "health_state \<Rightarrow> health_state" where
  "derive_state state =
     (if \<not> hs_accepting_jobs state \<or> hs_phase state = Stopping
      then state\<lparr>hs_phase := Stopping\<rparr>
      else state\<lparr>hs_phase := derive_phase (hs_components state)\<rparr>)"

definition create_worker_health_state :: "instant \<Rightarrow> bool \<Rightarrow> bool \<Rightarrow> health_state" where
  "create_worker_health_state startedAt mihomoRequired warpRequired =
     derive_state
       \<lparr>hs_accepting_jobs = True, hs_browser_ready = False,
        hs_components = (\<lambda>c. case c of
            Browser \<Rightarrow> starting_component startedAt True
          | Mihomo \<Rightarrow> starting_component startedAt mihomoRequired
          | Warp \<Rightarrow> starting_component startedAt warpRequired),
        hs_last_loop_at = startedAt, hs_phase = Starting, hs_started_at = startedAt\<rparr>"

definition update_component ::
  "health_state \<Rightarrow> component \<Rightarrow> phase \<Rightarrow> string \<Rightarrow> instant \<Rightarrow> health_state" where
  "update_component state c phase reasonCode observedAt =
     (let components = (hs_components state)(c := (hs_components state c)
            \<lparr>co_can_accept_work := (phase = Ready), co_observed_at := observedAt,
             co_reason_code := reasonCode, co_state := phase\<rparr>)
      in derive_state (state\<lparr>hs_browser_ready := (co_state (components Browser) = Ready),
           hs_components := components, hs_last_loop_at := observedAt\<rparr>))"

definition stopping_component :: "instant \<Rightarrow> component_state \<Rightarrow> component_state" where
  "stopping_component time c =
     c\<lparr>co_can_accept_work := False, co_observed_at := time,
       co_reason_code := ''shutdown_requested'', co_state := Stopping\<rparr>"

fun reduce_worker_health_state :: "health_state \<Rightarrow> health_event \<Rightarrow> health_state" where
  "reduce_worker_health_state state (Browser_Ready time) =
     update_component state Browser Ready ''browser_connected'' time"
| "reduce_worker_health_state state (Component_State time c reasonCode phase) =
     update_component state c phase reasonCode time"
| "reduce_worker_health_state state (Loop_Error time) = derive_state (state\<lparr>hs_last_loop_at := time\<rparr>)"
| "reduce_worker_health_state state (Loop_Progress time) = derive_state (state\<lparr>hs_last_loop_at := time\<rparr>)"
| "reduce_worker_health_state state (Shutdown_Started time) =
     state\<lparr>hs_accepting_jobs := False,
       hs_components := (\<lambda>c. stopping_component time (hs_components state c)),
       hs_last_loop_at := time, hs_phase := Stopping\<rparr>"

section \<open>Probes\<close>

record health_snapshot =
  sn_can_accept_work :: bool
  sn_components :: "component \<Rightarrow> component_state"
  sn_phase :: phase

definition health_snapshot_of :: "health_state \<Rightarrow> health_snapshot" where
  "health_snapshot_of state =
     \<lparr>sn_can_accept_work = hs_accepting_jobs state
        \<and> list_all (\<lambda>c. \<not> co_required c \<or> co_can_accept_work c)
            (map (hs_components state) all_components),
      sn_components = hs_components state, sn_phase = hs_phase state\<rparr>"

text \<open>A probe answers a snapshot with a word and a status code.\<close>

datatype probe_word = Word_Ok | Word_Ready | Word_Phase phase

datatype probe_result = Probe_Result health_snapshot probe_word nat

definition evaluate_liveness :: "health_state \<Rightarrow> instant \<Rightarrow> int \<Rightarrow> probe_result" where
  "evaluate_liveness state now staleAfterMs =
     Probe_Result (health_snapshot_of state) Word_Ok 200"

definition evaluate_readiness :: "health_state \<Rightarrow> probe_result" where
  "evaluate_readiness state =
     (let snapshot = health_snapshot_of state
      in if hs_phase state = Ready \<and> sn_can_accept_work snapshot
         then Probe_Result snapshot Word_Ready 200
         else Probe_Result snapshot
           (Word_Phase (if hs_phase state = Ready then Degraded else hs_phase state)) 503)"

fun probe_status :: "probe_result \<Rightarrow> nat" where
  "probe_status (Probe_Result _ _ s) = s"

section \<open>Taking a job\<close>

datatype job_acceptance = Accept | Defer string int

definition deferred :: "string \<Rightarrow> job_acceptance" where
  "deferred reasonCode = Defer reasonCode 30"

definition job_requires_browser :: "queue_job \<Rightarrow> bool" where
  "job_requires_browser job =
     (case qj_payload job of
        Collect_Source _ \<Rightarrow> True | Dispatch_Item i \<Rightarrow> kind_of_item i = Article)"

definition dependency_unready :: "component_state \<Rightarrow> bool" where
  "dependency_unready c = (co_required c \<and> co_state c \<noteq> Ready)"

definition decide_job_acceptance :: "health_state \<Rightarrow> queue_job \<Rightarrow> job_acceptance" where
  "decide_job_acceptance state job =
     (if \<not> hs_accepting_jobs state \<or> hs_phase state = Stopping then deferred ''worker_stopping''
      else if dependency_unready (hs_components state Warp) then deferred ''warp_unready''
      else if dependency_unready (hs_components state Mihomo) then deferred ''mihomo_unready''
      else if job_requires_browser job \<and> co_state (hs_components state Browser) \<noteq> Ready
      then deferred ''browser_unready''
      else Accept)"

section \<open>The webhook\<close>

datatype availability = Not_Ready | Available | Going_Down

text \<open>A round of the drain: the time since the start when the budget is checked, the number
  \<open>processBatch\<close> returned (\<open>None\<close> when it threw), and the availability read afterwards.\<close>

record drain_round =
  dr_elapsed :: int
  dr_batch :: "nat option"
  dr_availability :: availability

definition webhook_drain_budget_ms :: int where "webhook_drain_budget_ms = 720000"

datatype webhook_response =
    Method_Not_Allowed | Unauthorized | Unavailable | Drained

fun response_status :: "webhook_response \<Rightarrow> nat" where
  "response_status Method_Not_Allowed = 405"
| "response_status Unauthorized = 401"
| "response_status Unavailable = 503"
| "response_status Drained = 200"

text \<open>The loop over the rounds that come: the response and the number of batches it asked for;
  \<open>None\<close> when the rounds do not suffice to end it.\<close>

fun drain_loop :: "drain_round list \<Rightarrow> nat \<Rightarrow> (webhook_response \<times> nat) option" where
  "drain_loop [] n = None"
| "drain_loop (r # rs) n =
     (if dr_elapsed r \<ge> webhook_drain_budget_ms then Some (Unavailable, n)
      else case dr_batch r of
             None \<Rightarrow> Some (Unavailable, n + 1)
           | Some k \<Rightarrow>
               if k = 0 then Some (Drained, n + 1)
               else if dr_availability r \<noteq> Available then Some (Unavailable, n + 1)
               else drain_loop rs (n + 1))"

definition has_valid_bearer_token ::
  "(string \<Rightarrow> 'h) \<Rightarrow> string option \<Rightarrow> string \<Rightarrow> bool" where
  "has_valid_bearer_token digest authorization token =
     (case authorization of
        None \<Rightarrow> False
      | Some a \<Rightarrow> take 7 a = ''Bearer '' \<and> digest (drop 7 a) = digest token)"

record webhook_request =
  wh_method :: "string option"
  wh_authorization :: "string option"

text \<open>What the handler does before the drain: a response, or \<open>None\<close> to go on to it.\<close>

definition webhook_gate ::
  "(string \<Rightarrow> 'h) \<Rightarrow> string \<Rightarrow> availability \<Rightarrow> bool \<Rightarrow> webhook_request \<Rightarrow> webhook_response option" where
  "webhook_gate digest token avail busy req =
     (if wh_method req \<noteq> Some ''POST'' then Some Method_Not_Allowed
      else if \<not> has_valid_bearer_token digest (wh_authorization req) token then Some Unauthorized
      else if busy \<or> avail \<noteq> Available then Some Unavailable
      else None)"

text \<open>The handler shared by concurrent requests: the flag \<open>busy\<close>, and the requests that are
  in their drain with the rounds they have had so far.\<close>

record webhook_state =
  ws_busy :: bool
  ws_draining :: "(nat \<times> drain_round list) list"
  ws_answers :: "(nat \<times> webhook_response) list"

fun webhook_request_step ::
  "(string \<Rightarrow> 'h) \<Rightarrow> string \<Rightarrow> availability \<Rightarrow> nat \<Rightarrow> webhook_request \<Rightarrow> webhook_state \<Rightarrow> webhook_state" where
  "webhook_request_step digest token avail i req s =
     (case webhook_gate digest token avail (ws_busy s) req of
        Some r \<Rightarrow> s\<lparr>ws_answers := ws_answers s @ [(i, r)]\<rparr>
      | None \<Rightarrow> s\<lparr>ws_busy := True, ws_draining := ws_draining s @ [(i, [])]\<rparr>)"

fun webhook_drain_step :: "nat \<Rightarrow> drain_round \<Rightarrow> webhook_state \<Rightarrow> webhook_state" where
  "webhook_drain_step i r s =
     (case map_of (ws_draining s) i of
        None \<Rightarrow> s
      | Some rounds \<Rightarrow>
          (case drain_loop (rounds @ [r]) 0 of
             None \<Rightarrow> s\<lparr>ws_draining := AList.update i (rounds @ [r]) (ws_draining s)\<rparr>
           | Some (resp, _) \<Rightarrow>
               s\<lparr>ws_busy := False, ws_draining := AList.delete i (ws_draining s),
                 ws_answers := ws_answers s @ [(i, resp)]\<rparr>))"

inductive webhook_step ::
  "(string \<Rightarrow> 'h) \<Rightarrow> string \<Rightarrow> webhook_state \<Rightarrow> webhook_state \<Rightarrow> bool"
  for digest token where
  request: "webhook_step digest token s (webhook_request_step digest token avail i req s)"
| drain: "webhook_step digest token s (webhook_drain_step i r s)"

section \<open>Routes\<close>

datatype health_response =
    Probe probe_result | Webhook_Handled | Not_Found | Route_Method_Not_Allowed

definition handle_health_request ::
  "health_state \<Rightarrow> instant \<Rightarrow> int \<Rightarrow> bool \<Rightarrow> string option \<Rightarrow> string option \<Rightarrow> health_response" where
  "handle_health_request state now staleAfterMs hasWebhook url method =
     (if url = Some ''/webhooks/worker'' then (if hasWebhook then Webhook_Handled else Not_Found)
      else if url = Some ''/healthz''
      then (if method \<noteq> Some ''GET'' then Route_Method_Not_Allowed
            else Probe (evaluate_liveness state now staleAfterMs))
      else if url = Some ''/readyz''
      then (if method \<noteq> Some ''GET'' then Route_Method_Not_Allowed
            else Probe (evaluate_readiness state))
      else Not_Found)"

section \<open>Lemmas\<close>

definition health_run :: "instant \<Rightarrow> bool \<Rightarrow> bool \<Rightarrow> health_event list \<Rightarrow> health_state" where
  "health_run startedAt mihomo warp events =
     fold (\<lambda>e s. reduce_worker_health_state s e) events
       (create_worker_health_state startedAt mihomo warp)"

text \<open>The invariant of the reducer: the browser is required, a component accepts work exactly
  when it is ready, and the phase is derived from the components unless the worker stops.\<close>

definition health_inv :: "health_state \<Rightarrow> bool" where
  "health_inv s =
     (co_required (hs_components s Browser)
      \<and> (\<forall>c. co_can_accept_work (hs_components s c) = (co_state (hs_components s c) = Ready))
      \<and> hs_phase s = (if hs_accepting_jobs s then derive_phase (hs_components s) else Stopping))"

lemma derive_phase_never_stopping [simp]: "derive_phase cs \<noteq> Stopping"
  by (simp add: derive_phase_def Let_def)

lemma derive_phase_ready:
  "derive_phase cs = Ready \<longleftrightarrow> (\<forall>c. co_required (cs c) \<longrightarrow> co_state (cs c) = Ready)"
proof -
  have "(\<forall>c. P c) \<longleftrightarrow> P Browser \<and> P Mihomo \<and> P Warp" for P by (metis component.exhaust)
  then show ?thesis by (auto simp: derive_phase_def all_components_def Let_def)
qed

lemma health_inv_init: "health_inv (create_worker_health_state t m w)"
  by (simp add: health_inv_def create_worker_health_state_def derive_state_def starting_component_def
      split: component.split)

lemma health_inv_step:
  assumes "health_inv s" shows "health_inv (reduce_worker_health_state s e)"
  using assms
  by (cases e) (auto simp: health_inv_def update_component_def derive_state_def
      stopping_component_def Let_def split: if_splits)

lemma health_inv_run: "health_inv (health_run t m w events)"
proof -
  have "health_inv s \<Longrightarrow> health_inv (fold (\<lambda>e s. reduce_worker_health_state s e) events s)" for s
    by (induction events arbitrary: s) (auto simp: health_inv_step)
  then show ?thesis by (simp add: health_run_def health_inv_init)
qed

lemma stopped_stays_stopped:
  "\<not> hs_accepting_jobs s \<Longrightarrow>
     \<not> hs_accepting_jobs (fold (\<lambda>e s. reduce_worker_health_state s e) events s)"
proof (induction events arbitrary: s)
  case (Cons e events)
  have "\<not> hs_accepting_jobs (reduce_worker_health_state s e)"
    using Cons.prems by (cases e) (auto simp: update_component_def derive_state_def Let_def)
  then show ?case using Cons.IH by simp
qed simp

definition sample_collection_job :: queue_job where
  "sample_collection_job =
     \<lparr>qj_created_at = '''', qj_dedupe_key = '''', qj_job_id = '''', qj_payload = Collect_Source
       \<lparr>cp_shadow = False, cp_source = Dida, cp_triggered_by = Trigger_Manual\<rparr>\<rparr>"

lemma ready_accepts_all:
  assumes "health_inv s"
  shows "probe_status (evaluate_readiness s) = 200 \<longleftrightarrow> (\<forall>job. decide_job_acceptance s job = Accept)"
proof -
  have three: "(\<forall>c. P c) \<longleftrightarrow> P Browser \<and> P Mihomo \<and> P Warp" for P by (metis component.exhaust)
  have browser: "job_requires_browser sample_collection_job"
    by (simp add: job_requires_browser_def sample_collection_job_def)
  have all: "(\<forall>job. decide_job_acceptance s job = Accept) \<longleftrightarrow>
      hs_accepting_jobs s \<and> hs_phase s \<noteq> Stopping
      \<and> \<not> dependency_unready (hs_components s Warp) \<and> \<not> dependency_unready (hs_components s Mihomo)
      \<and> co_state (hs_components s Browser) = Ready"
    using browser by (auto simp: decide_job_acceptance_def deferred_def)
  have probe: "probe_status (evaluate_readiness s) = 200 \<longleftrightarrow>
      hs_phase s = Ready \<and> hs_accepting_jobs s
      \<and> (\<forall>c. co_required (hs_components s c) \<longrightarrow> co_can_accept_work (hs_components s c))"
    by (auto simp: evaluate_readiness_def health_snapshot_of_def Let_def all_components_def three)
  show ?thesis unfolding all probe using assms
    by (auto simp: health_inv_def dependency_unready_def derive_phase_ready three)
qed

section \<open>Drain\<close>

lemma drain_loop_count:
  "drain_loop rs n = Some (resp, m) \<Longrightarrow>
     n \<le> m \<and> m \<le> n + length rs
     \<and> (resp = Drained \<longrightarrow> n < m \<and> dr_batch (rs ! (m - 1 - n)) = Some 0)
     \<and> (\<forall>i<m - n. dr_elapsed (rs ! i) < webhook_drain_budget_ms)
     \<and> (\<forall>i. i + 1 < m - n \<longrightarrow> dr_availability (rs ! i) = Available)
     \<and> resp \<in> {Drained, Unavailable}"
proof (induction rs n rule: drain_loop.induct)
  case (2 r rs n)
  show ?case
  proof (cases "dr_elapsed r < webhook_drain_budget_ms \<and> (\<exists>k. dr_batch r = Some k \<and> k > 0)
      \<and> dr_availability r = Available")
    case True
    then have step: "drain_loop (r # rs) n = drain_loop rs (n + 1)" by auto
    then have IH: "n + 1 \<le> m \<and> m \<le> n + 1 + length rs
       \<and> (resp = Drained \<longrightarrow> n + 1 < m \<and> dr_batch (rs ! (m - 1 - (n + 1))) = Some 0)
       \<and> (\<forall>i<m - (n + 1). dr_elapsed (rs ! i) < webhook_drain_budget_ms)
       \<and> (\<forall>i. i + 1 < m - (n + 1) \<longrightarrow> dr_availability (rs ! i) = Available)
       \<and> resp \<in> {Drained, Unavailable}"
      using 2 True by auto
    have nth: "P ((r # rs) ! i)" if "P r" "\<forall>j<k - 1. P (rs ! j)" "i < k" for P i and k :: nat
      using that by (cases i) auto
    have elapsed: "\<forall>i<m - n. dr_elapsed ((r # rs) ! i) < webhook_drain_budget_ms"
      using IH True nth [of "\<lambda>x. dr_elapsed x < webhook_drain_budget_ms" "m - n"] by auto
    have avail: "\<forall>i. i + 1 < m - n \<longrightarrow> dr_availability ((r # rs) ! i) = Available"
    proof (intro allI impI)
      fix i assume "i + 1 < m - n"
      then show "dr_availability ((r # rs) ! i) = Available" using IH True by (cases i) auto
    qed
    have last: "resp = Drained \<longrightarrow> n < m \<and> dr_batch ((r # rs) ! (m - 1 - n)) = Some 0"
    proof
      assume "resp = Drained"
      then have l: "n + 1 < m" "dr_batch (rs ! (m - 1 - (n + 1))) = Some 0" using IH by auto
      have "m - 1 - n = Suc (m - 1 - (n + 1))" using l(1) by arith
      then show "n < m \<and> dr_batch ((r # rs) ! (m - 1 - n)) = Some 0" using l by simp
    qed
    show ?thesis using IH elapsed avail last by auto
  next
    case False
    then show ?thesis using 2(2) by (auto split: if_splits option.splits)
  qed
qed simp

lemma drain_loop_ends:
  "r \<in> set rs \<Longrightarrow> dr_elapsed r \<ge> webhook_drain_budget_ms \<Longrightarrow> drain_loop rs n \<noteq> None"
  by (induction rs n rule: drain_loop.induct) (auto split: option.splits)

definition one_drain :: "webhook_state \<Rightarrow> bool" where
  "one_drain s = (if ws_busy s then length (ws_draining s) = 1 else ws_draining s = [])"

lemma one_drain_step:
  assumes "webhook_step digest token s s'" "one_drain s"
  shows "one_drain s'"
  using assms
proof (cases rule: webhook_step.cases)
  case (request avail i req)
  then show ?thesis using assms(2)
    by (auto simp: one_drain_def webhook_gate_def split: option.splits if_splits)
next
  case (drain i r)
  have "\<exists>x. ws_draining s = [x]" if "map_of (ws_draining s) i = Some rounds" for rounds
    using assms(2) that by (auto simp: one_drain_def length_Suc_conv split: if_splits)
  then show ?thesis using assms(2) drain
    by (auto simp: one_drain_def split: option.splits if_splits)
qed

lemma one_drain_run:
  assumes "(webhook_step digest token)\<^sup>*\<^sup>* s s'" "one_drain s"
  shows "one_drain s'"
  using assms by (induction rule: rtranclp_induct) (auto intro: one_drain_step)

section \<open>Properties\<close>

text \<open>Whatever has been reported, the readiness probe answers 200 exactly when the worker
  would take every job; and once a shutdown has started, whatever is reported later, it
  answers 503 and every job is put off because the worker is stopping.\<close>

lemma readiness_matches_acceptance:
  "(probe_status (evaluate_readiness (health_run t m w events)) = 200)
     = (\<forall>job. decide_job_acceptance (health_run t m w events) job = Accept)
   \<and> probe_status (evaluate_readiness (health_run t m w (events @ Shutdown_Started time # later))) = 503
   \<and> decide_job_acceptance (health_run t m w (events @ Shutdown_Started time # later)) job
       = Defer ''worker_stopping'' 30"
proof -
  let ?s = "health_run t m w (events @ Shutdown_Started time # later)"
  have "\<not> hs_accepting_jobs ?s"
    unfolding health_run_def fold_append comp_def fold.simps by (rule stopped_stays_stopped) simp
  then have "probe_status (evaluate_readiness ?s) = 503
      \<and> decide_job_acceptance ?s job = Defer ''worker_stopping'' 30"
    by (simp add: evaluate_readiness_def health_snapshot_of_def decide_job_acceptance_def
        deferred_def Let_def)
  then show ?thesis using ready_accepts_all [OF health_inv_run] by auto
qed

text \<open>C23: However requests to the webhook interleave, at most one is draining the queue; it
  answers 200 only after a batch that was empty, asks for no batch once the budget of
  twelve minutes is spent or the worker is no longer available, and it ends at the latest
  when the budget is spent.\<close>

theorem webhook_drains_one_at_a_time:
  assumes "(webhook_step digest token)\<^sup>*\<^sup>* \<lparr>ws_busy = False, ws_draining = [], ws_answers = []\<rparr> s"
    and "drain_loop rs 0 = Some (resp, n)"
  shows "length (ws_draining s) \<le> 1
    \<and> (resp = Drained \<longrightarrow> 0 < n \<and> dr_batch (rs ! (n - 1)) = Some 0)
    \<and> (\<forall>i<n. dr_elapsed (rs ! i) < webhook_drain_budget_ms)
    \<and> (\<forall>i. i + 1 < n \<longrightarrow> dr_availability (rs ! i) = Available)
    \<and> (\<forall>r rs'. dr_elapsed r \<ge> webhook_drain_budget_ms \<longrightarrow> drain_loop (rs' @ [r]) 0 \<noteq> None)"
proof -
  have "one_drain s" by (rule one_drain_run [OF assms(1)]) (simp add: one_drain_def)
  then have "length (ws_draining s) \<le> 1" by (auto simp: one_drain_def split: if_splits)
  moreover have "\<forall>r rs'. dr_elapsed r \<ge> webhook_drain_budget_ms \<longrightarrow> drain_loop (rs' @ [r]) 0 \<noteq> None"
  proof (intro allI impI)
    fix r :: drain_round and rs' assume "dr_elapsed r \<ge> webhook_drain_budget_ms"
    then show "drain_loop (rs' @ [r]) 0 \<noteq> None" by (intro drain_loop_ends [of r]) simp_all
  qed
  ultimately show ?thesis using drain_loop_count [OF assms(2)] by simp
qed

theorem webhook_drains_one_at_a_time_witness:
  "length (ws_draining (webhook_request_step id ''k'' Available 1
      \<lparr>wh_method = Some ''POST'', wh_authorization = Some ''Bearer k''\<rparr>
      \<lparr>ws_busy = False, ws_draining = [], ws_answers = []\<rparr>)) \<le> 1"
  using webhook_drains_one_at_a_time
    [of id "''k''" "webhook_request_step id ''k'' Available 1
        \<lparr>wh_method = Some ''POST'', wh_authorization = Some ''Bearer k''\<rparr>
        \<lparr>ws_busy = False, ws_draining = [], ws_answers = []\<rparr>"
      "[\<lparr>dr_elapsed = 0, dr_batch = Some 0, dr_availability = Available\<rparr>]" Drained 1]
    webhook_step.request [of id "''k''" "\<lparr>ws_busy = False, ws_draining = [], ws_answers = []\<rparr>"]
  by (auto simp: webhook_drain_budget_ms_def)

end
