(* ===== verification/Queue_Processor.thy ===== *)
theory Queue_Processor
  imports Replay Worker_Health Job_Failure "HOL-Library.Multiset"
begin

text \<open>
  The batch loop of a worker, \<open>apps/worker/src/queue-processor.ts\<close>, and the client it settles
  with, \<open>settle\<close> of \<open>cloudflare-queue-client.ts\<close>. The control plane, the handler of a job and
  the request that settles are operations on a state that the loop threads; each may throw.
  The log lines and the progress callback are left out. The loop is proved against any control
  plane that keeps two promises, and the job ledgers of the API, D1 and PostgreSQL, keep them
  behind a network that loses requests and answers.
\<close>

section \<open>The control plane of a worker\<close>

record 's job_control =
  jc_reject :: "invalid_job \<Rightarrow> 's \<Rightarrow> 's \<times> (thrown + unit)"
  jc_claim :: "queue_job \<Rightarrow> 's \<Rightarrow> 's \<times> (thrown + job_claim)"
  jc_finish :: "string \<Rightarrow> job_result \<Rightarrow> 's \<Rightarrow> 's \<times> (thrown + job_settlement)"

datatype handler_result =
    Handled_Completed json_record
  | Handled_Deferred string instant
  | Handled_Uncertain string

text \<open>The message of a schema error and the SHA-256 of a payload are arguments, as is the
  clock of the worker.\<close>

record 's processor =
  pr_formats :: formats
  pr_schema_error :: "json \<Rightarrow> string"
  pr_digest :: "json \<Rightarrow> string"
  pr_accept :: "'s \<Rightarrow> queue_job \<Rightarrow> job_acceptance"
  pr_handle :: "queue_job \<Rightarrow> 's \<Rightarrow> 's \<times> (thrown + handler_result)"
  pr_control :: "'s job_control"
  pr_clock :: "'s \<Rightarrow> instant"

section \<open>One lease\<close>

datatype lease_outcome = Ack_Lease string | Retry_Lease string int

definition retry_delay_seconds :: "instant \<Rightarrow> instant \<Rightarrow> int" where
  "retry_delay_seconds retryAt current = max 1 (min 300 (ceil_div (retryAt - current) 1000))"

fun append_settlement :: "string \<Rightarrow> thrown + job_settlement \<Rightarrow> thrown + lease_outcome" where
  "append_settlement leaseId (Inl e) = Inl e"
| "append_settlement leaseId (Inr Settle_Ack) = Inr (Ack_Lease leaseId)"
| "append_settlement leaseId (Inr (Settle_Retry d)) = Inr (Retry_Lease leaseId d)"

definition result_of :: "handler_result \<Rightarrow> job_result" where
  "result_of r =
     (case r of
        Handled_Completed summary \<Rightarrow> Result_Done (Some summary)
      | Handled_Deferred reason retryAt \<Rightarrow> Result_Deferred reason retryAt
      | Handled_Uncertain reason \<Rightarrow> Result_Uncertain reason)"

text \<open>The handler and the report of its result stand in one \<open>try\<close>: what either throws is
  reported as the failure of the job.\<close>

definition run_job ::
  "'s processor \<Rightarrow> inbox_lease \<Rightarrow> queue_job \<Rightarrow> 's \<Rightarrow> 's \<times> (thrown + job_settlement)" where
  "run_job p lease job s =
     (let jobId = qj_job_id job;
          (s1, handled) = pr_handle p job s;
          (s2, reported) = (case handled of
              Inl e \<Rightarrow> (s1, Inl e)
            | Inr r \<Rightarrow> jc_finish (pr_control p) jobId (result_of r) s1)
      in case reported of
           Inr settlement \<Rightarrow> (s2, Inr settlement)
         | Inl e \<Rightarrow>
             (let failure = classify_job_failure e
              in jc_finish (pr_control p) jobId
                   (Result_Failed (Some (cf_error_class failure)) (Some (cf_safe_message failure))
                      (Some (pr_digest p (il_body lease)))) s2))"

definition process_lease ::
  "'s processor \<Rightarrow> inbox_lease \<Rightarrow> 's \<Rightarrow> 's \<times> (thrown + lease_outcome)" where
  "process_lease p lease s =
     (let leaseId = il_lease_id lease
      in case parse_queue_job (pr_formats p) (il_body lease) of
           None \<Rightarrow>
             (let failure = classify_job_failure (Thrown_Error (pr_schema_error p (il_body lease)));
                  (s1, rejected) = jc_reject (pr_control p)
                    \<lparr>iv_attempts = il_attempts lease, iv_message_id = il_id lease,
                     iv_payload_digest = pr_digest p (il_body lease),
                     iv_reason = cf_safe_message failure\<rparr> s
              in (s1, case rejected of Inl e \<Rightarrow> Inl e | Inr _ \<Rightarrow> Inr (Ack_Lease leaseId)))
         | Some job \<Rightarrow>
             (case pr_accept p s job of
                Defer reasonCode retryAfterSeconds \<Rightarrow> (s, Inr (Retry_Lease leaseId retryAfterSeconds))
              | Accept \<Rightarrow>
                  (case jc_claim (pr_control p) job s of
                     (s1, Inl e) \<Rightarrow> (s1, Inl e)
                   | (s1, Inr Job_Duplicate) \<Rightarrow> (s1, Inr (Ack_Lease leaseId))
                   | (s1, Inr Job_Busy) \<Rightarrow> (s1, Inr (Retry_Lease leaseId 30))
                   | (s1, Inr (Job_Deferred reason retryAt)) \<Rightarrow>
                       (s1, Inr (Retry_Lease leaseId (retry_delay_seconds retryAt (pr_clock p s1))))
                   | (s1, Inr (Job_Claimed attempts)) \<Rightarrow>
                       (case run_job p lease job s1 of
                          (s2, settled) \<Rightarrow> (s2, append_settlement leaseId settled)))))"

section \<open>A batch\<close>

fun collect_outcome :: "lease_outcome \<Rightarrow> settlement \<Rightarrow> settlement" where
  "collect_outcome (Ack_Lease l) st = st\<lparr>st_acks := st_acks st @ [l]\<rparr>"
| "collect_outcome (Retry_Lease l d) st =
     st\<lparr>st_retries := st_retries st @ [\<lparr>lr_delay_seconds = Some (nat d), lr_lease_id = l\<rparr>]\<rparr>"

fun process_leases ::
  "'s processor \<Rightarrow> inbox_lease list \<Rightarrow> settlement \<Rightarrow> 's \<Rightarrow> 's \<times> (thrown + settlement)" where
  "process_leases p [] st s = (s, Inr st)"
| "process_leases p (lease # leases) st s =
     (case process_lease p lease s of
        (s1, Inl e) \<Rightarrow> (s1, Inl e)
      | (s1, Inr r) \<Rightarrow> process_leases p leases (collect_outcome r st) s1)"

text \<open>\<open>settle\<close> of the client: refuse a lease that is acknowledged and retried, send nothing for
  nothing.\<close>

definition client_settle ::
  "(settlement \<Rightarrow> 's \<Rightarrow> 's \<times> (thrown + unit)) \<Rightarrow> settlement \<Rightarrow> 's \<Rightarrow> 's \<times> (thrown + unit)" where
  "client_settle request st s =
     (if \<not> assert_distinct_leases st
      then (s, Inl (Thrown_Error ''lease cannot be acknowledged and retried''))
      else if st_acks st = [] \<and> st_retries st = [] then (s, Inr ())
      else request st s)"

definition empty_settlement :: settlement where
  "empty_settlement = \<lparr>st_acks = [], st_retries = []\<rparr>"

definition process_queue_batch ::
  "'s processor \<Rightarrow> (settlement \<Rightarrow> 's \<Rightarrow> 's \<times> (thrown + unit)) \<Rightarrow> inbox_batch \<Rightarrow> 's
   \<Rightarrow> 's \<times> (thrown + unit)" where
  "process_queue_batch p request batch s =
     (case process_leases p (ib_messages batch) empty_settlement s of
        (s1, Inl e) \<Rightarrow> (s1, Inl e)
      | (s1, Inr st) \<Rightarrow> client_settle request st s1)"

section \<open>What the loop relies on\<close>

text \<open>A control plane that answers duplicate or acknowledges a result only for a job that is
  settled, and accepts a rejection only by burying the message.\<close>

locale settling_control =
  fixes control :: "'s job_control"
    and valid :: "queue_job \<Rightarrow> bool"
    and settled :: "queue_job \<Rightarrow> 's \<Rightarrow> bool"
    and buried :: "string \<Rightarrow> 's \<Rightarrow> bool"
  assumes duplicate_is_settled:
      "valid job \<Longrightarrow> jc_claim control job s = (s', Inr Job_Duplicate) \<Longrightarrow> settled job s'"
    and ack_is_settled:
      "jc_finish control (qj_job_id job) r s = (s', Inr Settle_Ack) \<Longrightarrow> settled job s'"
    and reject_buries: "jc_reject control iv s = (s', Inr ()) \<Longrightarrow> buried (iv_message_id iv) s'"
begin

lemma run_job_settles:
  assumes "pr_control p = control" "run_job p lease job s = (s', Inr Settle_Ack)"
  shows "settled job s'"
  using assms ack_is_settled
  by (auto simp: run_job_def Let_def split: prod.splits sum.splits)

lemma acked_lease:
  assumes "pr_control p = control" "\<And>v job. parse_queue_job (pr_formats p) v = Some job \<Longrightarrow> valid job"
    and "process_lease p lease s = (s', Inr (Ack_Lease l))"
  shows "l = il_lease_id lease
    \<and> (case parse_queue_job (pr_formats p) (il_body lease) of
         None \<Rightarrow> buried (il_id lease) s' | Some job \<Rightarrow> settled job s')"
proof (cases "parse_queue_job (pr_formats p) (il_body lease)")
  case None
  then show ?thesis using assms(1,3) reject_buries
    by (force simp: process_lease_def Let_def split: prod.splits sum.splits)
next
  case (Some job)
  have "append_settlement lid x = Inr (Ack_Lease l) \<Longrightarrow> x = Inr Settle_Ack \<and> l = lid" for lid x
    by (cases "(lid, x)" rule: append_settlement.cases) auto
  then show ?thesis using assms Some duplicate_is_settled [OF assms(2) [OF Some]] run_job_settles
    by (auto simp: process_lease_def Let_def split: prod.splits sum.splits job_claim.splits
        job_acceptance.splits)
qed

end

section \<open>The ledgers behind the network\<close>

text \<open>Every request meets the next fate of the wire and the server's clock; when they are used
  up the server is out of reach. A claim that fails on the server is answered 400, any other
  failure 500, and the client throws the status.\<close>

datatype wire_fate = Wire_Ok | Wire_Lost_Request thrown | Wire_Lost_Answer thrown

record wired =
  wi_db :: ledger
  wi_fates :: "(wire_fate \<times> instant) list"

definition unreachable :: thrown where
  "unreachable = Thrown_TypeError ''fetch failed''"

definition wire ::
  "(instant \<Rightarrow> ledger \<Rightarrow> ledger \<times> (thrown + 'r)) \<Rightarrow> wired \<Rightarrow> wired \<times> (thrown + 'r)" where
  "wire operation s =
     (case wi_fates s of
        [] \<Rightarrow> (s, Inl unreachable)
      | (fate, now) # fates \<Rightarrow>
          (case fate of
             Wire_Lost_Request e \<Rightarrow> (s\<lparr>wi_fates := fates\<rparr>, Inl e)
           | Wire_Ok \<Rightarrow>
               (case operation now (wi_db s) of
                  (db, r) \<Rightarrow> (s\<lparr>wi_db := db, wi_fates := fates\<rparr>, r))
           | Wire_Lost_Answer e \<Rightarrow>
               (case operation now (wi_db s) of
                  (db, r) \<Rightarrow> (s\<lparr>wi_db := db, wi_fates := fates\<rparr>, Inl e))))"

definition server_error :: "string \<Rightarrow> (ledger_error + 'r) \<Rightarrow> thrown + 'r" where
  "server_error status r =
     (case r of Inl _ \<Rightarrow> Inl (Thrown_Error (''control plane request failed: '' @ status))
      | Inr x \<Rightarrow> Inr x)"

definition control_d1 :: "ledger_env \<Rightarrow> wired job_control" where
  "control_d1 env =
     \<lparr>jc_reject = (\<lambda>iv. wire (\<lambda>now db. (reject_invalid_job iv now db, Inr ()))),
      jc_claim = (\<lambda>job. wire (\<lambda>now db.
          apsnd (server_error ''400'') (claim_job env (json_of_job job) now db))),
      jc_finish = (\<lambda>jobId r. wire (\<lambda>now db.
          apsnd (server_error ''500'') (finish_job jobId r now db)))\<rparr>"

definition control_pg :: "ledger_env \<Rightarrow> wired job_control" where
  "control_pg env =
     \<lparr>jc_reject = (\<lambda>iv. wire (\<lambda>now db. (reject_invalid_job iv now db, Inr ()))),
      jc_claim = (\<lambda>job. wire (\<lambda>now db.
          apsnd (server_error ''400'') (claim_job_pg env (json_of_job job) now db))),
      jc_finish = (\<lambda>jobId r. wire (\<lambda>now db.
          apsnd (server_error ''500'') (finish_job_pg jobId r now db)))\<rparr>"

definition job_settled :: "queue_job \<Rightarrow> ledger \<Rightarrow> bool" where
  "job_settled job db =
     list_ex (\<lambda>r. (wj_dedupe_key r = qj_dedupe_key job \<or> wj_job_id r = qj_job_id job)
        \<and> terminal_status (wj_status r)) (lg_jobs db)"

definition message_buried :: "string \<Rightarrow> ledger \<Rightarrow> bool" where
  "message_buried messageId db = list_ex (\<lambda>d. dl_job_id d = messageId) (lg_dead_letters db)"

lemma wire_answer:
  "wire operation s = (s', Inr x) \<Longrightarrow> \<exists>now. operation now (wi_db s) = (wi_db s', Inr x)"
  by (auto simp: wire_def split: list.splits prod.splits wire_fate.splits)

lemma server_error_Inr [simp]: "server_error status r = Inr x \<longleftrightarrow> r = Inr x"
  by (simp add: server_error_def split: sum.split)

lemma apsnd_server_error:
  "apsnd (server_error status) p = (db, Inr x) \<longleftrightarrow> p = (db, Inr x)"
  by (cases p) simp

lemma refusal_duplicate: "claim_refusal now row = Some Job_Duplicate \<Longrightarrow> terminal_status (wj_status row)"
  by (auto simp: claim_refusal_def split: if_splits)

lemma claim_duplicate:
  assumes "parse_queue_job (le_formats env) input = Some job"
    and "claim_job env input now db = (db', Inr Job_Duplicate)
      \<or> claim_job_pg env input now db = (db', Inr Job_Duplicate)"
  shows "job_settled job db'"
  using assms refusal_duplicate
  by (auto simp: claim_job_def claim_job_pg_def job_settled_def list_ex_iff
      split: option.splits sum.splits if_splits dest!: tab_first_SomeD)

lemma terminal_write_settles:
  assumes "tab_first (\<lambda>r. wj_job_id r = qj_job_id job) jobs = Some row"
    and "lg_jobs db' = tab_update (\<lambda>r. wj_job_id r = qj_job_id job) f jobs"
    and "\<And>r. wj_job_id (f r) = wj_job_id r \<and> terminal_status (wj_status (f r))"
  shows "job_settled job db'"
proof -
  have "f row \<in> set (lg_jobs db')" "wj_job_id (f row) = qj_job_id job"
    using tab_first_SomeD [OF assms(1)] assms(2,3) by (auto simp: set_tab_update)
  then show ?thesis using assms(3) by (auto simp: job_settled_def list_ex_iff intro!: bexI [of _ "f row"])
qed

lemma terminal_writes:
  "wj_job_id (uncertain_job reason t r) = wj_job_id r \<and> terminal_status (wj_status (uncertain_job reason t r))"
  "wj_job_id (done_job summary t r) = wj_job_id r \<and> terminal_status (wj_status (done_job summary t r))"
  "wj_job_id (dead_job n c m t r) = wj_job_id r \<and> terminal_status (wj_status (dead_job n c m t r))"
  by (simp_all add: uncertain_job_def done_job_def dead_job_def terminal_status_def)

lemma terminal_row_settles:
  assumes "tab_first (\<lambda>r. wj_job_id r = qj_job_id job) (lg_jobs db) = Some row"
    and "terminal_status (wj_status row)"
  shows "job_settled job db"
  using tab_first_SomeD [OF assms(1)] assms(2) by (auto simp: job_settled_def list_ex_iff)

lemma finish_ack_settled_d1:
  assumes "finish_job (qj_job_id job) r now db = (db', Inr Settle_Ack)"
  shows "job_settled job db'"
proof -
  obtain row where row: "tab_first (\<lambda>r. wj_job_id r = qj_job_id job) (lg_jobs db) = Some row"
    using assms by (auto simp: finish_job_def split: option.splits)
  show ?thesis
  proof (cases "terminal_status (wj_status row)")
    case True
    then show ?thesis using assms row terminal_row_settles by (auto simp: finish_job_def)
  next
    case False
    then show ?thesis using assms row
      by (cases r)
         (auto simp: finish_job_def fail_job_def Let_def split: option.splits if_splits
            intro: terminal_write_settles [OF row _ terminal_writes(1)]
              terminal_write_settles [OF row _ terminal_writes(2)]
              terminal_write_settles [OF row _ terminal_writes(3)])
  qed
qed

lemma finish_ack_settled_pg:
  assumes "finish_job_pg (qj_job_id job) r now db = (db', Inr Settle_Ack)"
  shows "job_settled job db'"
proof -
  obtain row where row: "tab_first (\<lambda>r. wj_job_id r = qj_job_id job) (lg_jobs db) = Some row"
    using assms by (auto simp: finish_job_pg_def split: option.splits)
  show ?thesis
  proof (cases "terminal_status (wj_status row)")
    case True
    then show ?thesis using assms row terminal_row_settles by (auto simp: finish_job_pg_def)
  next
    case False
    then show ?thesis using assms row
      by (cases r)
         (auto simp: finish_job_pg_def Let_def split: option.splits if_splits
            intro: terminal_write_settles [OF row _ terminal_writes(1)]
              terminal_write_settles [OF row _ terminal_writes(2)]
              terminal_write_settles [OF row _ terminal_writes(3)])
  qed
qed

lemma reject_buried: "message_buried (iv_message_id iv) (reject_invalid_job iv now db)"
  by (auto simp: message_buried_def reject_invalid_job_def list_ex_iff tab_insert_ignore_def)

interpretation d1_control: settling_control "control_d1 env" "job_ok (le_formats env)"
  "\<lambda>job s. job_settled job (wi_db s)" "\<lambda>m s. message_buried m (wi_db s)" for env
proof
  fix job :: queue_job and s s'
  assume ok: "job_ok (le_formats env) job" and "jc_claim (control_d1 env) job s = (s', Inr Job_Duplicate)"
  then obtain now where "claim_job env (json_of_job job) now (wi_db s) = (wi_db s', Inr Job_Duplicate)"
    using wire_answer by (fastforce simp: control_d1_def apsnd_server_error)
  then show "job_settled job (wi_db s')"
    using claim_duplicate parse_json_of_job [OF ok] by blast
next
  fix job :: queue_job and r s s'
  assume "jc_finish (control_d1 env) (qj_job_id job) r s = (s', Inr Settle_Ack)"
  then obtain now where "finish_job (qj_job_id job) r now (wi_db s) = (wi_db s', Inr Settle_Ack)"
    using wire_answer by (fastforce simp: control_d1_def apsnd_server_error)
  then show "job_settled job (wi_db s')" using finish_ack_settled_d1 by blast
next
  fix iv s s' assume "jc_reject (control_d1 env) iv s = (s', Inr ())"
  then have "wire (\<lambda>now db. (reject_invalid_job iv now db, Inr ())) s = (s', Inr ())"
    by (simp add: control_d1_def)
  then obtain now where "reject_invalid_job iv now (wi_db s) = wi_db s'"
    by (auto dest!: wire_answer)
  then show "message_buried (iv_message_id iv) (wi_db s')"
    using reject_buried [of iv now "wi_db s"] by simp
qed

interpretation pg_control: settling_control "control_pg env" "job_ok (le_formats env)"
  "\<lambda>job s. job_settled job (wi_db s)" "\<lambda>m s. message_buried m (wi_db s)" for env
proof
  fix job :: queue_job and s s'
  assume ok: "job_ok (le_formats env) job" and "jc_claim (control_pg env) job s = (s', Inr Job_Duplicate)"
  then obtain now where "claim_job_pg env (json_of_job job) now (wi_db s) = (wi_db s', Inr Job_Duplicate)"
    using wire_answer by (fastforce simp: control_pg_def apsnd_server_error)
  then show "job_settled job (wi_db s')"
    using claim_duplicate parse_json_of_job [OF ok] by blast
next
  fix job :: queue_job and r s s'
  assume "jc_finish (control_pg env) (qj_job_id job) r s = (s', Inr Settle_Ack)"
  then obtain now where "finish_job_pg (qj_job_id job) r now (wi_db s) = (wi_db s', Inr Settle_Ack)"
    using wire_answer by (fastforce simp: control_pg_def apsnd_server_error)
  then show "job_settled job (wi_db s')" using finish_ack_settled_pg by blast
next
  fix iv s s' assume "jc_reject (control_pg env) iv s = (s', Inr ())"
  then have "wire (\<lambda>now db. (reject_invalid_job iv now db, Inr ())) s = (s', Inr ())"
    by (simp add: control_pg_def)
  then obtain now where "reject_invalid_job iv now (wi_db s) = wi_db s'"
    by (auto dest!: wire_answer)
  then show "message_buried (iv_message_id iv) (wi_db s')"
    using reject_buried [of iv now "wi_db s"] by simp
qed

section \<open>Lemmas\<close>

definition outcome_lease :: "lease_outcome \<Rightarrow> string" where
  "outcome_lease r = (case r of Ack_Lease l \<Rightarrow> l | Retry_Lease l d \<Rightarrow> l)"

definition settlement_leases :: "settlement \<Rightarrow> string multiset" where
  "settlement_leases st = mset (st_acks st) + mset (map lr_lease_id (st_retries st))"

lemma settlement_leases_collect:
  "settlement_leases (collect_outcome r st) = add_mset (outcome_lease r) (settlement_leases st)"
  by (cases r) (simp_all add: settlement_leases_def outcome_lease_def)

lemma append_settlement_lease:
  "append_settlement l x = Inr r \<Longrightarrow> outcome_lease r = l"
  by (cases "(l, x)" rule: append_settlement.cases) (auto simp: outcome_lease_def)

lemma process_lease_outcome:
  "process_lease p lease s = (s', Inr r) \<Longrightarrow> outcome_lease r = il_lease_id lease"
  by (auto simp: process_lease_def Let_def outcome_lease_def
      split: prod.splits sum.splits option.splits job_claim.splits job_acceptance.splits
        lease_outcome.splits
      dest: append_settlement_lease [unfolded outcome_lease_def])

lemma process_leases_settlement:
  "process_leases p leases st s = (s', Inr st') \<Longrightarrow>
     settlement_leases st' = settlement_leases st + mset (map il_lease_id leases)"
proof (induction p leases st s rule: process_leases.induct)
  case (2 p lease leases st s)
  then obtain s1 r where r: "process_lease p lease s = (s1, Inr r)"
      "process_leases p leases (collect_outcome r st) s1 = (s', Inr st')"
    by (auto split: prod.splits sum.splits)
  have "settlement_leases st' = settlement_leases (collect_outcome r st) + mset (map il_lease_id leases)"
    using 2(1) r by auto
  then show ?case using process_lease_outcome [OF r(1)] by (simp add: settlement_leases_collect)
qed simp

lemma distinct_settlement:
  assumes "settlement_leases st = mset ls" "distinct ls"
  shows "assert_distinct_leases st"
proof -
  have "mset (st_acks st @ map lr_lease_id (st_retries st)) = mset ls"
    using assms(1) by (simp add: settlement_leases_def)
  then have "distinct (st_acks st @ map lr_lease_id (st_retries st))"
    using assms(2) mset_eq_imp_distinct_iff by blast
  then show ?thesis by (auto simp: assert_distinct_leases_def list_all_iff)
qed

section \<open>Properties\<close>

text \<open>C15: A lease is acknowledged only for work that the ledger holds as finished: whatever
  requests or answers are lost on the way, whatever the handler does or throws and whatever
  the clocks say, over D1 as over PostgreSQL an acknowledged lease is the one that was
  processed, and its message is a dead letter when it could not be parsed, and its job is
  done, dead or uncertain otherwise.\<close>

theorem acked_work_is_finished:
  assumes "pr_control p = control_d1 env \<or> pr_control p = control_pg env"
    and "pr_formats p = le_formats env"
    and "process_lease p lease s = (s', Inr (Ack_Lease l))"
  shows "l = il_lease_id lease
    \<and> (case parse_queue_job (le_formats env) (il_body lease) of
         None \<Rightarrow> message_buried (il_id lease) (wi_db s')
       | Some job \<Rightarrow> job_settled job (wi_db s'))"
proof -
  have ok: "job_ok (le_formats env) job" if "parse_queue_job (pr_formats p) v = Some job" for v job
    using that assms(2) parsed_job_ok by simp
  show ?thesis
    using assms(1)
  proof
    assume "pr_control p = control_d1 env"
    then show ?thesis using d1_control.acked_lease [OF _ ok assms(3)] by (simp add: assms(2))
  next
    assume "pr_control p = control_pg env"
    then show ?thesis using pg_control.acked_lease [OF _ ok assms(3)] by (simp add: assms(2))
  qed
qed

definition sample_processor :: "ledger_env \<Rightarrow> wired processor" where
  "sample_processor env =
     \<lparr>pr_formats = le_formats env, pr_schema_error = (\<lambda>_. ''Invalid input''),
      pr_digest = (\<lambda>_. ''d''), pr_accept = (\<lambda>_ _. Accept),
      pr_handle = (\<lambda>_ s. (s, Inr (Handled_Completed []))),
      pr_control = control_pg env, pr_clock = (\<lambda>_. 0)\<rparr>"

theorem acked_work_is_finished_witness:
  "message_buried ''m'' (wi_db (fst (process_lease (sample_processor (sample_ledger_env JNull))
     \<lparr>il_attempts = 1, il_body = JNull, il_id = ''m'', il_lease_id = ''l'', il_timestamp_ms = 0\<rparr>
     \<lparr>wi_db = empty_ledger, wi_fates = [(Wire_Ok, 5)]\<rparr>)))"
proof -
  let ?p = "sample_processor (sample_ledger_env JNull)"
  let ?lease = "\<lparr>il_attempts = 1, il_body = JNull, il_id = ''m'', il_lease_id = ''l'',
    il_timestamp_ms = 0\<rparr>"
  let ?s = "\<lparr>wi_db = empty_ledger, wi_fates = [(Wire_Ok, 5)]\<rparr>"
  have parse: "parse_queue_job f JNull = None" for f
    by (simp add: parse_queue_job_def strict_object_def)
  obtain s' where s': "process_lease ?p ?lease ?s = (s', Inr (Ack_Lease ''l''))"
    by (simp add: process_lease_def sample_processor_def parse control_pg_def wire_def Let_def)
  have "pr_control ?p = control_pg (sample_ledger_env JNull)"
      "pr_formats ?p = le_formats (sample_ledger_env JNull)"
    by (simp_all add: sample_processor_def)
  then show ?thesis
    using acked_work_is_finished [OF _ _ s', of "sample_ledger_env JNull"] s' parse by simp
qed

text \<open>A batch is settled as a whole or not at all: the queue is asked at most once, with
  every lease of the batch either acknowledged or put back, exactly once; when the control
  plane fails on some lease the queue is not asked and the leases run out.\<close>

lemma batch_is_settled_whole:
  assumes "distinct (map il_lease_id (ib_messages batch))"
  shows "case process_leases p (ib_messages batch) empty_settlement s of
      (s1, Inl e) \<Rightarrow> process_queue_batch p request batch s = (s1, Inl e)
    | (s1, Inr st) \<Rightarrow>
        settlement_leases st = mset (map il_lease_id (ib_messages batch))
        \<and> process_queue_batch p request batch s
            = (if ib_messages batch = [] then (s1, Inr ()) else request st s1)"
proof (cases "process_leases p (ib_messages batch) empty_settlement s")
  case (Pair s1 r)
  show ?thesis
  proof (cases r)
    case (Inl e)
    then show ?thesis using Pair by (simp add: process_queue_batch_def)
  next
    case (Inr st)
    have m: "settlement_leases st = mset (map il_lease_id (ib_messages batch))"
      using process_leases_settlement [of p "ib_messages batch" empty_settlement s s1 st] Pair Inr
      by (simp add: settlement_leases_def empty_settlement_def)
    then have "(st_acks st = [] \<and> st_retries st = []) = (ib_messages batch = [])"
      by (auto simp: settlement_leases_def)
    then show ?thesis using Pair Inr m distinct_settlement [OF m assms]
      by (simp add: process_queue_batch_def client_settle_def)
  qed
qed

text \<open>Losing the answer to the report of a completed job costs nothing: the loop reports the
  fault as a failure of the job, the ledger keeps it done, and the lease is acknowledged.\<close>

lemma lost_answer_keeps_job_done:
  assumes "pr_control p = control_d1 env"
    and "pr_handle p job s = (u, Inr (Handled_Completed summary))"
    and "wi_fates u = (Wire_Lost_Answer e, t) # (Wire_Ok, t') # fates"
    and "tab_first (\<lambda>r. wj_job_id r = qj_job_id job) (lg_jobs (wi_db u)) = Some row"
    and "\<not> terminal_status (wj_status row)"
  shows "snd (run_job p lease job s) = Inr Settle_Ack
    \<and> wi_db (fst (run_job p lease job s))
        = fst (finish_job (qj_job_id job) (Result_Done (Some summary)) t (wi_db u))"
proof -
  let ?id = "qj_job_id job"
  obtain db where db: "finish_job ?id (Result_Done (Some summary)) t (wi_db u) = (db, Inr Settle_Ack)"
      "lg_jobs db = tab_update (\<lambda>r. wj_job_id r = ?id) (done_job (Some summary) t) (lg_jobs (wi_db u))"
    using assms(4,5) by (simp add: finish_job_def)
  have "tab_first (\<lambda>r. wj_job_id r = ?id) (lg_jobs db) = Some (done_job (Some summary) t row)"
    unfolding db(2) by (subst tab_first_mapped) (simp_all add: done_job_def assms(4))
  then have again: "finish_job ?id r t' db = (db, Inr Settle_Ack)" for r
    using terminal_writes by (simp add: finish_job_def)
  show ?thesis using assms(1-3) db(1) again
    by (simp add: run_job_def result_of_def control_d1_def wire_def server_error_def Let_def)
qed

end
