(* ===== verification/Actions.thy ===== *)
theory Actions
  imports Job_Failure
begin

text \<open>
  Programs that thread a state and may throw: an \<open>async\<close> function of the source is an action,
  \<open>await\<close> is \<open>and_then\<close>, and a \<open>try\<close> is a case on the outcome.
\<close>

section \<open>Actions that may throw\<close>

type_synonym ('s, 'a) action = "'s \<Rightarrow> 's \<times> (thrown + 'a)"

definition ret :: "'a \<Rightarrow> ('s, 'a) action" where
  "ret x s = (s, Inr x)"

definition throw :: "thrown \<Rightarrow> ('s, 'a) action" where
  "throw e s = (s, Inl e)"

definition and_then :: "('s, 'a) action \<Rightarrow> ('a \<Rightarrow> ('s, 'b) action) \<Rightarrow> ('s, 'b) action" where
  "and_then m f s = (case m s of (s', Inl e) \<Rightarrow> (s', Inl e) | (s', Inr x) \<Rightarrow> f x s')"

fun each :: "('a \<Rightarrow> ('s, unit) action) \<Rightarrow> 'a list \<Rightarrow> ('s, unit) action" where
  "each f [] = ret ()"
| "each f (x # xs) = and_then (f x) (\<lambda>_. each f xs)"

fun collect :: "('a \<Rightarrow> ('s, 'b) action) \<Rightarrow> 'a list \<Rightarrow> ('s, 'b list) action" where
  "collect f [] = ret []"
| "collect f (x # xs) = and_then (f x) (\<lambda>y. and_then (collect f xs) (\<lambda>ys. ret (y # ys)))"

definition when_then :: "bool \<Rightarrow> thrown \<Rightarrow> ('s, unit) action" where
  "when_then b e = (if b then throw e else ret ())"

text \<open>The result of a pure function that may throw.\<close>

definition lift_result :: "thrown + 'a \<Rightarrow> ('s, 'a) action" where
  "lift_result r = (case r of Inl e \<Rightarrow> throw e | Inr x \<Rightarrow> ret x)"

text \<open>\<open>try { m } catch (error) { handler }\<close>, and \<open>try { m } finally { clean }\<close>.\<close>

definition catching :: "('s, 'a) action \<Rightarrow> (thrown \<Rightarrow> ('s, 'a) action) \<Rightarrow> ('s, 'a) action" where
  "catching m handler s = (case m s of (s', Inl e) \<Rightarrow> handler e s' | (s', Inr x) \<Rightarrow> (s', Inr x))"

definition finally_do :: "('s, 'a) action \<Rightarrow> ('s, unit) action \<Rightarrow> ('s, 'a) action" where
  "finally_do act fin s =
     (let (s1, r) = act s; (s2, f) = fin s1 in (s2, case f of Inl e \<Rightarrow> Inl e | Inr _ \<Rightarrow> r))"

text \<open>The clock of the host, and the message of what was thrown if it is an \<open>Error\<close>.\<close>

type_synonym 's clock = "'s \<Rightarrow> 's \<times> int"

definition tick :: "'s clock \<Rightarrow> ('s, int) action" where
  "tick now s = (let (s', t) = now s in (s', Inr t))"

definition modify :: "('s \<Rightarrow> 's) \<Rightarrow> ('s, unit) action" where
  "modify f s = (f s, Inr ())"

text \<open>An action on the first part of a state of two.\<close>

definition in_world :: "('s, 'a) action \<Rightarrow> ('s \<times> 'c, 'a) action" where
  "in_world act = (\<lambda>(s, c). case act s of (s', r) \<Rightarrow> ((s', c), r))"

fun error_text :: "string \<Rightarrow> thrown \<Rightarrow> string" where
  "error_text unknown (Thrown_TypeError m) = m"
| "error_text unknown (Thrown_Error m) = m"
| "error_text unknown Thrown_Other = unknown"

section \<open>Lemmas\<close>

lemma and_then_Inr:
  "and_then m f s = (s', Inr y) \<longleftrightarrow> (\<exists>t x. m s = (t, Inr x) \<and> f x t = (s', Inr y))"
  by (auto simp: and_then_def split: prod.splits sum.splits)

lemma and_then_Inl:
  "and_then m f s = (s', Inl e) \<longleftrightarrow>
     m s = (s', Inl e) \<or> (\<exists>t x. m s = (t, Inr x) \<and> f x t = (s', Inl e))"
  by (auto simp: and_then_def split: prod.splits sum.splits)

lemma ret_result: "ret x s = (s', r) \<longleftrightarrow> s' = s \<and> r = Inr x"
  by (auto simp: ret_def)

lemma throw_result: "throw e s = (s', r) \<longleftrightarrow> s' = s \<and> r = Inl e"
  by (auto simp: throw_def)

text \<open>What it takes for an action to end in a given result.\<close>

lemmas action_results = and_then_Inr and_then_Inl ret_result throw_result

lemma modify_result: "modify f s = (s', r) \<longleftrightarrow> s' = f s \<and> r = Inr ()"
  by (auto simp: modify_def)

lemma when_then_Inr: "when_then b e s = (s', Inr u) \<longleftrightarrow> s' = s \<and> \<not> b"
  by (auto simp: when_then_def ret_def throw_def)

lemma collect_Inr:
  "collect f xs s = (s', Inr ys) \<Longrightarrow>
     length ys = length xs \<and> (\<forall>i<length xs. \<exists>t t'. f (xs ! i) t = (t', Inr (ys ! i)))"
proof (induction xs arbitrary: s ys)
  case (Cons x xs)
  then obtain y t zs t' where "f x s = (t, Inr y)" "collect f xs t = (t', Inr zs)" "ys = y # zs" "t' = s'"
    by (auto simp: action_results)
  then show ?case using Cons.IH by (force simp: nth_Cons split: nat.split)
qed (simp add: ret_def)

lemma collect_list_all2:
  assumes "collect f xs s = (s', Inr ys)" and "\<And>x t t' y. f x t = (t', Inr y) \<Longrightarrow> P x y"
  shows "list_all2 P xs ys"
  using collect_Inr [OF assms(1)] assms(2) by (auto simp: list_all2_conv_all_nth)

lemma finally_do_Inr: "finally_do act fin s = (s', Inr x) \<Longrightarrow> \<exists>t. act s = (t, Inr x)"
  by (auto simp: finally_do_def Let_def split: prod.splits sum.splits)

section \<open>What an action keeps\<close>

text \<open>A property of the state that an action keeps however it ends.\<close>

definition keeps :: "('s \<Rightarrow> bool) \<Rightarrow> ('s, 'a) action \<Rightarrow> bool" where
  "keeps P act = (\<forall>s. P s \<longrightarrow> P (fst (act s)))"

lemma keepsI: "(\<And>s. P s \<Longrightarrow> P (fst (act s))) \<Longrightarrow> keeps P act"
  by (simp add: keeps_def)

lemma keepsD: "keeps P act \<Longrightarrow> P s \<Longrightarrow> P (fst (act s))"
  by (simp add: keeps_def)

named_theorems keeps_intros

lemma keeps_ret [keeps_intros]: "keeps P (ret x)"
  by (simp add: keeps_def ret_def)

lemma keeps_throw [keeps_intros]: "keeps P (throw e)"
  by (simp add: keeps_def throw_def)

lemma keeps_when_then [keeps_intros]: "keeps P (when_then b e)"
  by (simp add: when_then_def keeps_ret keeps_throw)

lemma keeps_and_then [keeps_intros]:
  "keeps P m \<Longrightarrow> (\<And>x. keeps P (f x)) \<Longrightarrow> keeps P (and_then m f)"
  by (auto simp: keeps_def and_then_def split: prod.splits sum.splits)

lemma keeps_lift_result [keeps_intros]: "keeps P (lift_result r)"
  by (cases r) (simp_all add: lift_result_def keeps_ret keeps_throw)

lemma keeps_catching [keeps_intros]:
  "keeps P m \<Longrightarrow> (\<And>e. keeps P (handler e)) \<Longrightarrow> keeps P (catching m handler)"
  by (auto simp: keeps_def catching_def split: prod.splits sum.splits)

lemma keeps_finally_do [keeps_intros]: "keeps P act \<Longrightarrow> keeps P fin \<Longrightarrow> keeps P (finally_do act fin)"
  by (auto simp: keeps_def finally_do_def Let_def split: prod.splits)

lemma keeps_each [keeps_intros]: "(\<And>x. keeps P (f x)) \<Longrightarrow> keeps P (each f xs)"
  by (induction xs) (simp_all add: keeps_ret keeps_and_then)

lemma keeps_collect [keeps_intros]: "(\<And>x. keeps P (f x)) \<Longrightarrow> keeps P (collect f xs)"
  by (induction xs) (simp_all add: keeps_ret keeps_and_then)

lemma keeps_case_prod [keeps_intros]: "(\<And>a b. keeps P (f a b)) \<Longrightarrow> keeps P (case p of (a, b) \<Rightarrow> f a b)"
  by (cases p) simp

lemma keeps_in_world [keeps_intros]: "keeps P act \<Longrightarrow> keeps (\<lambda>s. P (fst s)) (in_world act)"
  by (auto simp: keeps_def in_world_def split: prod.splits)

lemma keeps_modify [keeps_intros]: "(\<And>s. P s \<Longrightarrow> P (f s)) \<Longrightarrow> keeps P (modify f)"
  by (simp add: keeps_def modify_def)

end
