(* ===== verification/Js_Text.thy ===== *)
theory Js_Text
  imports Job_Failure
begin

text \<open>
  What the program uses of the strings of JavaScript beyond the prelude: numbers as text,
  \<open>trim\<close>, \<open>split\<close>, the anchored patterns of the manifests, and \<open>replace\<close> with a global
  expression, with the summaries that the release tools write of an error.
\<close>

section \<open>Evaluation\<close>

text \<open>The letters by their bits, which evaluate faster than by their numbers.\<close>

lemma is_upper_code [code]:
  "is_upper (Char b0 b1 b2 b3 b4 b5 b6 b7) \<longleftrightarrow>
     \<not> b7 \<and> b6 \<and> \<not> b5 \<and> (b0 \<or> b1 \<or> b2 \<or> b3 \<or> b4)
     \<and> (b4 \<longrightarrow> \<not> (b3 \<and> (b2 \<or> (b0 \<and> b1))))"
  by (cases b0; cases b1; cases b2; cases b3; cases b4; cases b5; cases b6; cases b7)
    (simp_all add: is_upper_def)

lemma ascii_lower_code [code]:
  "ascii_lower (Char b0 b1 b2 b3 b4 b5 b6 b7) =
     (if is_upper (Char b0 b1 b2 b3 b4 b5 b6 b7) then Char b0 b1 b2 b3 b4 True b6 b7
      else Char b0 b1 b2 b3 b4 b5 b6 b7)"
  by (cases b0; cases b1; cases b2; cases b3; cases b4; cases b5; cases b6; cases b7)
    (simp_all add: ascii_lower_def is_upper_def char_of_def bit_numeral_rec bit_0)

section \<open>Numbers\<close>

fun decimal :: "nat \<Rightarrow> string" where
  "decimal n =
     (if n < 10 then [char_of (48 + n)] else decimal (n div 10) @ [char_of (48 + n mod 10)])"

declare decimal.simps [simp del]

definition js_integer :: "int \<Rightarrow> string" where
  "js_integer i = (if i < 0 then CHR ''-'' # decimal (nat (- i)) else decimal (nat i))"

definition two_digits :: "int \<Rightarrow> string" where
  "two_digits i = (if i < 10 then CHR ''0'' # js_integer i else js_integer i)"

section \<open>Strings\<close>

definition js_trim :: "string \<Rightarrow> string" where
  "js_trim s = rev (dropWhile is_space (rev (dropWhile is_space s)))"

definition starts_with :: "string \<Rightarrow> string \<Rightarrow> bool" where
  "starts_with p s = (take (length p) s = p)"

definition strip_prefix :: "string \<Rightarrow> string \<Rightarrow> string option" where
  "strip_prefix p s = (if starts_with p s then Some (drop (length p) s) else None)"

text \<open>\<open>split(c)\<close>: the pieces between the separators.\<close>

fun split_on :: "char \<Rightarrow> string \<Rightarrow> string list" where
  "split_on c [] = [[]]"
| "split_on c (x # xs) =
     (if x = c then [] # split_on c xs
      else case split_on c xs of [] \<Rightarrow> [[x]] | p # ps \<Rightarrow> (x # p) # ps)"

text \<open>A literal anywhere in the string, case ignored, the literal given in lower case.\<close>

fun contains_ci :: "string \<Rightarrow> string \<Rightarrow> bool" where
  "contains_ci p [] = (p = [])"
| "contains_ci p (c # cs) = (strip_ci p (c # cs) \<noteq> None \<or> contains_ci p cs)"

definition is_lower :: "char \<Rightarrow> bool" where
  "is_lower c = (97 \<le> (of_char c :: nat) \<and> (of_char c :: nat) \<le> 122)"

definition is_hex :: "char \<Rightarrow> bool" where
  "is_hex c = (is_digit c \<or> (97 \<le> (of_char c :: nat) \<and> (of_char c :: nat) \<le> 102))"

definition is_id_char :: "char \<Rightarrow> bool" where
  "is_id_char c = (is_lower c \<or> is_digit c \<or> c = CHR ''-'')"

text \<open>\<open>/^[a-f0-9]{n}$/\<close> and \<open>/^[a-z0-9][a-z0-9-]{5,n}$/\<close>.\<close>

definition hex_of_length :: "nat \<Rightarrow> string \<Rightarrow> bool" where
  "hex_of_length n s = (length s = n \<and> list_all is_hex s)"

definition identifier_up_to :: "nat \<Rightarrow> string \<Rightarrow> bool" where
  "identifier_up_to n s =
     (case s of [] \<Rightarrow> False
      | c # cs \<Rightarrow> (is_lower c \<or> is_digit c) \<and> list_all is_id_char cs
          \<and> 5 \<le> length cs \<and> length cs \<le> n)"

section \<open>Global replacement\<close>

text \<open>A matcher answers a match at the head of its input with the replacement and the rest.\<close>

function replace_all :: "(string \<Rightarrow> (string \<times> string) option) \<Rightarrow> string \<Rightarrow> string" where
  "replace_all m s =
     (case m s of
        Some (r, rest) \<Rightarrow> if length rest < length s then r @ replace_all m rest else s
      | None \<Rightarrow> (case s of [] \<Rightarrow> [] | c # cs \<Rightarrow> c # replace_all m cs))"
  by pat_completeness auto
termination by (relation "measure (\<lambda>(m, s). length s)") auto

declare replace_all.simps [simp del]

lemma replace_all_code [code]:
  "replace_all m [] = []"
  "replace_all m (c # cs) =
     (case m (c # cs) of
        Some (r, rest) \<Rightarrow> if length rest < length (c # cs) then r @ replace_all m rest else c # cs
      | None \<Rightarrow> c # replace_all m cs)"
  by (subst replace_all.simps; auto split: option.splits)+

lemma replace_all_match:
  "m s = Some (r, rest) \<Longrightarrow> length rest < length s \<Longrightarrow> replace_all m s = r @ replace_all m rest"
  by (subst replace_all.simps) simp

lemma replace_all_skip: "m (c # cs) = None \<Longrightarrow> replace_all m (c # cs) = c # replace_all m cs"
  by (subst replace_all.simps) simp

lemma replace_all_Nil: "m [] = None \<Longrightarrow> replace_all m [] = []"
  by (subst replace_all.simps) simp

text \<open>\<open>/https?:\/\/[^\s]+/g\<close> replaced by \<open>[url]\<close>.\<close>

definition url_here :: "string \<Rightarrow> (string \<times> string) option" where
  "url_here s =
     (let after = (case strip_prefix ''https://'' s of
          Some r \<Rightarrow> Some r | None \<Rightarrow> strip_prefix ''http://'' s)
      in case after of
           None \<Rightarrow> None
         | Some r \<Rightarrow>
             if takeWhile (\<lambda>c. \<not> is_space c) r = [] then None
             else Some (''[url]'', dropWhile (\<lambda>c. \<not> is_space c) r))"

text \<open>\<open>/\/(?:roots)\/[^\s:]+/g\<close> replaced by \<open>[path]\<close>, the roots given with their slashes.\<close>

definition path_char :: "char \<Rightarrow> bool" where
  "path_char c = (\<not> is_space c \<and> c \<noteq> CHR '':'')"

fun path_here :: "string list \<Rightarrow> string \<Rightarrow> (string \<times> string) option" where
  "path_here [] s = None"
| "path_here (root # roots) s =
     (case strip_prefix root s of
        Some r \<Rightarrow> if takeWhile path_char r = [] then path_here roots s
                  else Some (''[path]'', dropWhile path_char r)
      | None \<Rightarrow> path_here roots s)"

text \<open>
  \<open>((?:authorization|cookie|password|secret|token)\s*[=:]\s*)(?:Bearer\s+)?[^\s,;]+\<close>: the
  input from the value on, and the rest after the value. The optional word is skipped when a
  value follows it, and is the value itself otherwise.
\<close>

definition skip_bearer :: "string \<Rightarrow> string" where
  "skip_bearer v =
     (case strip_ci ''bearer'' v of
        Some (c # r) \<Rightarrow>
          if is_space c \<and> takeWhile value_char (dropWhile is_space r) \<noteq> []
          then dropWhile is_space r else v
      | _ \<Rightarrow> v)"

definition strip_word :: "string \<Rightarrow> string option" where
  "strip_word s =
     (case List.map_filter (\<lambda>w. strip_ci w s) secret_words of [] \<Rightarrow> None | r # _ \<Rightarrow> Some r)"

definition credential_here :: "string \<Rightarrow> (string \<times> string) option" where
  "credential_here s =
     (case strip_word s of
        None \<Rightarrow> None
      | Some r \<Rightarrow>
          (case dropWhile is_space r of
             c # r' \<Rightarrow>
               if c = CHR ''='' \<or> c = CHR '':''
               then (let v = dropWhile is_space r'; w = skip_bearer v
                     in if takeWhile value_char w = [] then None
                        else Some (v, dropWhile value_char w))
               else None
           | [] \<Rightarrow> None))"

definition redact_credential :: "string \<Rightarrow> (string \<times> string) option" where
  "redact_credential s =
     (case credential_here s of
        None \<Rightarrow> None
      | Some (v, rest) \<Rightarrow> Some (take (length s - length v) s @ ''[redacted]'', rest))"

definition drop_credential :: "string \<Rightarrow> (string \<times> string) option" where
  "drop_credential s =
     (case credential_here s of None \<Rightarrow> None | Some (v, rest) \<Rightarrow> Some (''[credential]'', rest))"

section \<open>Summaries\<close>

text \<open>\<open>safeSummary\<close> of the release executor, of the rehearsal of the legacy path, and of the
  rehearsal of the state restore.\<close>

definition release_summary :: "string \<Rightarrow> string" where
  "release_summary s =
     js_slice 500 (js_trim (replace_all url_here (replace_all redact_credential s)))"

definition legacy_summary :: "string \<Rightarrow> string" where
  "legacy_summary s =
     js_slice 500 (js_trim (replace_all (path_here [''/Users/'', ''/private/tmp/''])
       (replace_all url_here (replace_all redact_credential s))))"

definition restore_summary :: "string \<Rightarrow> string" where
  "restore_summary s =
     js_slice 500 (js_trim
       (replace_all (path_here [''/Users/'', ''/private/tmp/'', ''/tmp/'', ''/var/''])
         (replace_all url_here (replace_all drop_credential s))))"

lemma length_summaries:
  "length (release_summary s) \<le> 500" "length (legacy_summary s) \<le> 500" "length (restore_summary s) \<le> 500"
  by (simp_all add: release_summary_def legacy_summary_def restore_summary_def)

end
