(* ===== verification/Job_Handler.thy ===== *)
theory Job_Handler
  imports Control_Data Effect_Ledger Rate_Limits Queue_Processor Actions Js_Text
begin

text \<open>
  What a worker does with a job: \<open>apps/worker/src/job-handler.ts\<close>. A collection job collects,
  publishes one dispatch job per new item and commits the state of the source; a dispatch job
  delivers its item to every matching destination, each delivery under a claimed effect.
  Everything the handler calls is an operation of the record \<open>services\<close> on the threaded
  state; each may throw. Formatting an instant and hashing are arguments of the record, the
  calendar of the daily bucket is written out.
\<close>

section \<open>Configuration\<close>

record destination_entry =
  de_config :: json_record
  de_enabled :: bool
  de_item_kind :: item_kind

record archive_config =
  ac_enabled :: bool
  ac_daily_limit :: nat
  ac_rate_window_count :: nat
  ac_rate_window_seconds :: nat

record channels =
  ch_destinations :: "(string \<times> destination_entry) list"
  ch_archive :: archive_config
  ch_llm :: json_record

datatype delivery_result =
    Delivery_Ok
  | Delivery_Quota
  | Delivery_Fail bool "string option" "int option"

record 's collection_result =
  cl_after_commit :: "('s, unit) action option"
  cl_items :: "dispatch_item list"
  cl_login_session :: "(string \<times> login_input) option"
  cl_state_updates :: "(string \<times> json) list"

record 's services =
  sv_claim_effect :: "effect_claim_input \<Rightarrow> ('s, effect_claim) action"
  sv_finish_effect :: "string \<Rightarrow> effect_report \<Rightarrow> ('s, unit) action"
  sv_consume_rate_limit :: "rate_input \<Rightarrow> ('s, rate_answer) action"
  sv_consume_rate_limits :: "rate_input list \<Rightarrow> ('s, batch_answer) action"
  sv_publish_jobs :: "queue_job list \<Rightarrow> ('s, nat) action"
  sv_put_state :: "string \<Rightarrow> json \<Rightarrow> ('s, unit) action"
  sv_put_login_session :: "string \<Rightarrow> login_input \<Rightarrow> ('s, unit) action"
  sv_deliver :: "string \<Rightarrow> dispatch_item \<Rightarrow> ('s, delivery_result) action"
  sv_archive :: "(article_item \<Rightarrow> string \<Rightarrow> string \<Rightarrow> ('s, delivery_result) action) option"
  sv_collect :: "source_name \<Rightarrow> ('s, 's collection_result) action"
  sv_notify :: "(nat \<Rightarrow> nat \<Rightarrow> source_name \<Rightarrow> ('s, unit) action) option"
  sv_has_browser :: bool
  sv_now :: "'s \<Rightarrow> instant"
  sv_uuid :: "'s \<Rightarrow> 's \<times> string"
  sv_iso :: "instant \<Rightarrow> string"
  sv_sha256 :: "string \<Rightarrow> string"
  sv_formats :: formats
  sv_schema_error :: "json \<Rightarrow> string"

section \<open>Rate limits of an item\<close>

text \<open>The proleptic Gregorian date of a day counted from 1970-01-01, and the date in Shanghai,
  eight hours ahead of UTC.\<close>

definition civil_date :: "int \<Rightarrow> int \<times> int \<times> int" where
  "civil_date day =
     (let z = day + 719468; era = z div 146097; doe = z mod 146097;
          yoe = (doe - doe div 1460 + doe div 36524 - doe div 146096) div 365;
          doy = doe - (365 * yoe + yoe div 4 - yoe div 100);
          mp = (5 * doy + 2) div 153;
          d = doy - (153 * mp + 2) div 5 + 1;
          m = (if mp < 10 then mp + 3 else mp - 9)
      in (yoe + era * 400 + (if m \<le> 2 then 1 else 0), m, d))"

definition shanghai_date :: "instant \<Rightarrow> string" where
  "shanghai_date t =
     (case civil_date ((t + 8 * 3600000) div 86400000) of
        (y, m, d) \<Rightarrow> js_integer y @ ''-'' @ two_digits m @ ''-'' @ two_digits d)"

record rate_policy_record =
  rp_daily_limit :: "nat option"
  rp_window_count :: nat
  rp_window_seconds :: nat

definition rate_policy :: "channels \<Rightarrow> item_kind \<Rightarrow> rate_policy_record" where
  "rate_policy ch kind =
     (case kind of
        Link \<Rightarrow> \<lparr>rp_daily_limit = Some 500, rp_window_count = 0, rp_window_seconds = 21600\<rparr>
      | Text \<Rightarrow> \<lparr>rp_daily_limit = Some 96, rp_window_count = 25, rp_window_seconds = 21600\<rparr>
      | File \<Rightarrow> \<lparr>rp_daily_limit = None, rp_window_count = 1400, rp_window_seconds = 1800\<rparr>
      | Article \<Rightarrow>
          \<lparr>rp_daily_limit = Some (ac_daily_limit (ch_archive ch)),
           rp_window_count = ac_rate_window_count (ch_archive ch),
           rp_window_seconds = ac_rate_window_seconds (ch_archive ch)\<rparr>)"

definition rate_limit_inputs :: "channels \<Rightarrow> dispatch_item \<Rightarrow> instant \<Rightarrow> rate_input list" where
  "rate_limit_inputs ch item current =
     (let kind = kind_of_item item; policy = rate_policy ch kind
      in (case rp_daily_limit policy of
            None \<Rightarrow> []
          | Some n \<Rightarrow>
              [\<lparr>ri_bucket = shanghai_date current, ri_limit = n,
                ri_scope = item_kind_string kind @ '':daily'', ri_window = 86400\<rparr>])
         @ (if rp_window_count policy > 0
            then [\<lparr>ri_bucket = js_integer (current div (int (rp_window_seconds policy) * 1000)),
                   ri_limit = rp_window_count policy,
                   ri_scope = item_kind_string kind @ '':window'',
                   ri_window = int (rp_window_seconds policy)\<rparr>]
            else []))"

definition enforce_rate_limit :: "'s services \<Rightarrow> channels \<Rightarrow> dispatch_item \<Rightarrow> instant \<Rightarrow> ('s, unit) action" where
  "enforce_rate_limit sv ch item current =
     each (\<lambda>input. and_then (sv_consume_rate_limit sv input) (\<lambda>answer.
         case answer of
           Rate_Allowed _ \<Rightarrow> ret ()
         | Rate_Denied _ _ \<Rightarrow>
             throw (Thrown_TypeError (''429 '' @ ri_scope input @ '' rate limit unavailable''))))
       (rate_limit_inputs ch item current)"

section \<open>Jobs out of items\<close>

definition dispatch_job_json :: "string \<Rightarrow> string \<Rightarrow> string \<Rightarrow> dispatch_item \<Rightarrow> json" where
  "dispatch_job_json createdAt dedupeKey jobId item =
     json_of_job \<lparr>qj_created_at = createdAt, qj_dedupe_key = dedupeKey, qj_job_id = jobId,
       qj_payload = Dispatch_Item item\<rparr>"

text \<open>\<open>toDispatchJobs\<close>: the jobs so far are the map \<open>unique\<close> in its insertion order.\<close>

fun to_dispatch_jobs ::
  "'s services \<Rightarrow> dispatch_item list \<Rightarrow> queue_job list \<Rightarrow> ('s, queue_job list) action" where
  "to_dispatch_jobs sv [] unique s = (s, Inr unique)"
| "to_dispatch_jobs sv (item # items) unique s =
     (let dedupeKey = create_item_dedupe_key (sv_sha256 sv) item
      in if dedupeKey \<in> qj_dedupe_key ` set unique then to_dispatch_jobs sv items unique s
         else
           (let (s', jobId) = sv_uuid sv s;
                input = dispatch_job_json (sv_iso sv (sv_now sv s)) dedupeKey jobId item
            in case parse_queue_job (sv_formats sv) input of
                 None \<Rightarrow> (s', Inl (Thrown_Error (sv_schema_error sv input)))
               | Some job \<Rightarrow> to_dispatch_jobs sv items (unique @ [job]) s'))"

definition matching_destinations :: "channels \<Rightarrow> dispatch_item \<Rightarrow> string list" where
  "matching_destinations ch item =
     (let configured = map fst (filter (\<lambda>(name, entry).
            de_enabled entry \<and> de_item_kind entry = kind_of_item item) (ch_destinations ch))
      in if kind_of_item item = Article \<and> ac_enabled (ch_archive ch)
         then configured @ [''article_archive''] else configured)"

definition source_requires_browser :: "source_name \<Rightarrow> bool" where
  "source_requires_browser src = (src \<noteq> Telegram \<and> src \<noteq> Dida \<and> src \<noteq> Github_Stars)"

definition queue_batch_requires_browser :: "formats \<Rightarrow> inbox_batch \<Rightarrow> channels \<Rightarrow> bool" where
  "queue_batch_requires_browser fmt batch ch =
     list_ex (\<lambda>m. case parse_queue_job fmt (il_body m) of
         None \<Rightarrow> False
       | Some job \<Rightarrow>
           (case qj_payload job of
              Collect_Source c \<Rightarrow> source_requires_browser (cp_source c)
            | Dispatch_Item i \<Rightarrow> kind_of_item i = Article \<and> ac_enabled (ch_archive ch)))
       (ib_messages batch)"

section \<open>One destination\<close>

definition report_done :: effect_report where
  "report_done = \<lparr>ef_error_class = None, ef_error_message = None, ef_status = Outcome_Effect_Done\<rparr>"

definition report_uncertain :: effect_report where
  "report_uncertain = \<lparr>ef_error_class = Some Permanent,
     ef_error_message = Some ''external delivery outcome uncertain'',
     ef_status = Outcome_Effect_Uncertain\<rparr>"

definition failure_message :: "bool \<Rightarrow> string option \<Rightarrow> int option \<Rightarrow> string" where
  "failure_message knownBeforeWrite reasonCode status =
     (if knownBeforeWrite
      then map (\<lambda>c. if c = CHR ''_'' then CHR '' '' else c)
             (nullish reasonCode ''destination_failed_before_write'')
           @ (case status of None \<Rightarrow> [] | Some n \<Rightarrow> '': HTTP '' @ js_integer n)
      else ''destination rejected request: ''
           @ (case status of None \<Rightarrow> ''unknown status'' | Some n \<Rightarrow> js_integer n))"

text \<open>What follows a delivery that failed: \<open>None\<close> goes on with the next destination, a result
  ends the job.\<close>

definition settle_delivery ::
  "'s services \<Rightarrow> string \<Rightarrow> delivery_result \<Rightarrow> ('s, handler_result option) action" where
  "settle_delivery sv effectKey result =
     (case result of
        Delivery_Ok \<Rightarrow> and_then (sv_finish_effect sv effectKey report_done) (\<lambda>_. ret None)
      | Delivery_Quota \<Rightarrow>
          and_then (sv_finish_effect sv effectKey
              \<lparr>ef_error_class = Some Retryable,
               ef_error_message = Some ''destination quota unavailable'',
               ef_status = Outcome_Effect_Failed\<rparr>)
            (\<lambda>_. throw (Thrown_TypeError ''429 destination quota unavailable''))
      | Delivery_Fail knownBeforeWrite reasonCode status \<Rightarrow>
          (let uncertain = (\<not> knownBeforeWrite
                 \<and> (case status of None \<Rightarrow> True | Some n \<Rightarrow> n \<ge> 500));
               failure = classify_job_failure
                 (Thrown_Error (failure_message knownBeforeWrite reasonCode status))
           in if uncertain
              then and_then (sv_finish_effect sv effectKey report_uncertain)
                     (\<lambda>_. ret (Some (Handled_Uncertain ''external_delivery_uncertain'')))
              else and_then (sv_finish_effect sv effectKey
                       \<lparr>ef_error_class = Some (cf_error_class failure),
                        ef_error_message = Some (cf_safe_message failure),
                        ef_status = Outcome_Effect_Failed\<rparr>)
                     (\<lambda>_. throw (Thrown_Error (cf_safe_message failure)))))"

definition call_destination ::
  "'s services \<Rightarrow> queue_job \<Rightarrow> dispatch_item \<Rightarrow> string \<Rightarrow> ('s, delivery_result) action" where
  "call_destination sv job item destination =
     (case (sv_archive sv, item) of
        (Some archive, Article_Item a) \<Rightarrow>
          if destination = ''article_archive'' then archive a (qj_dedupe_key job) (qj_job_id job)
          else sv_deliver sv destination item
      | _ \<Rightarrow> sv_deliver sv destination item)"

text \<open>The delivery stands in a \<open>try\<close> of its own: what it throws leaves the outcome unknown.\<close>

definition deliver_claimed ::
  "'s services \<Rightarrow> queue_job \<Rightarrow> dispatch_item \<Rightarrow> string \<Rightarrow> string \<Rightarrow> ('s, handler_result option) action" where
  "deliver_claimed sv job item destination effectKey s =
     (case call_destination sv job item destination s of
        (s', Inl e) \<Rightarrow>
          and_then (sv_finish_effect sv effectKey report_uncertain)
            (\<lambda>_. ret (Some (Handled_Uncertain ''external_delivery_uncertain''))) s'
      | (s', Inr result) \<Rightarrow> settle_delivery sv effectKey result s')"

definition effect_key :: "queue_job \<Rightarrow> string \<Rightarrow> string" where
  "effect_key job destination = qj_dedupe_key job @ '':'' @ destination"

definition deliver_one ::
  "'s services \<Rightarrow> channels \<Rightarrow> queue_job \<Rightarrow> dispatch_item \<Rightarrow> string \<Rightarrow> ('s, handler_result option) action" where
  "deliver_one sv ch job item destination =
     and_then (sv_claim_effect sv \<lparr>ec_destination = destination,
         ec_effect_key = effect_key job destination, ec_job_id = qj_job_id job\<rparr>)
       (\<lambda>claim. case claim of
            Claim_Done \<Rightarrow> ret None
          | Claim_Uncertain \<Rightarrow> ret (Some (Handled_Uncertain ''effect_uncertain''))
          | Claim_Busy retryAt \<Rightarrow> ret (Some (Handled_Deferred ''effect_busy'' retryAt))
          | Claim_Granted attempts \<Rightarrow>
              and_then (if kind_of_item item \<noteq> Article
                  then (\<lambda>s. enforce_rate_limit sv ch item (sv_now sv s) s) else ret ())
                (\<lambda>_. deliver_claimed sv job item destination (effect_key job destination)))"

section \<open>A dispatch job\<close>

fun deliver_all ::
  "'s services \<Rightarrow> channels \<Rightarrow> queue_job \<Rightarrow> dispatch_item \<Rightarrow> string list \<Rightarrow> json_record
   \<Rightarrow> ('s, handler_result + json_record) action" where
  "deliver_all sv ch job item [] states = ret (Inr states)"
| "deliver_all sv ch job item (d # ds) states =
     and_then (deliver_one sv ch job item d) (\<lambda>early.
       case early of
         Some r \<Rightarrow> ret (Inl r)
       | None \<Rightarrow> deliver_all sv ch job item ds (AList.update d (JStr ''done'') states))"

definition article_of_link :: "string \<Rightarrow> link_item \<Rightarrow> dispatch_item" where
  "article_of_link requestedAt i = Article_Item
     \<lparr>article_requested_at = requestedAt, article_tags = link_tags i,
      article_title = (if link_title i = Some [] then None else link_title i),
      article_url = link_url i\<rparr>"

definition publish_article_of_link :: "'s services \<Rightarrow> channels \<Rightarrow> dispatch_item \<Rightarrow> ('s, unit) action" where
  "publish_article_of_link sv ch item s =
     (case item of
        Link_Item i \<Rightarrow>
          if ac_enabled (ch_archive ch)
          then and_then (to_dispatch_jobs sv [article_of_link (sv_iso sv (sv_now sv s)) i] [])
                 (\<lambda>jobs. and_then (sv_publish_jobs sv jobs) (\<lambda>_. ret ())) s
          else ret () s
      | _ \<Rightarrow> ret () s)"

definition deliver_and_publish ::
  "'s services \<Rightarrow> channels \<Rightarrow> queue_job \<Rightarrow> dispatch_item \<Rightarrow> ('s, handler_result) action" where
  "deliver_and_publish sv ch job item =
     and_then (deliver_all sv ch job item (matching_destinations ch item) []) (\<lambda>r.
       case r of
         Inl early \<Rightarrow> ret early
       | Inr states \<Rightarrow>
           and_then (publish_article_of_link sv ch item) (\<lambda>_.
             ret (Handled_Completed [(''destinations'', JObj states)])))"

definition handle_dispatch ::
  "'s services \<Rightarrow> channels \<Rightarrow> queue_job \<Rightarrow> dispatch_item \<Rightarrow> ('s, handler_result) action" where
  "handle_dispatch sv ch job item =
     (if kind_of_item item = Article \<and> matching_destinations ch item \<noteq> []
      then (\<lambda>s. and_then (sv_consume_rate_limits sv (rate_limit_inputs ch item (sv_now sv s)))
          (\<lambda>answer. case answer of
               Limits_Denied _ retryAt \<Rightarrow> ret (Handled_Deferred ''rate_limit'' retryAt)
             | Limits_Allowed _ \<Rightarrow> deliver_and_publish sv ch job item) s)
      else deliver_and_publish sv ch job item)"

section \<open>A collection job\<close>

definition notify_collection ::
  "'s services \<Rightarrow> queue_job \<Rightarrow> source_name \<Rightarrow> nat \<Rightarrow> nat \<Rightarrow> ('s, unit) action" where
  "notify_collection sv job src collected published =
     (case sv_notify sv of
        None \<Rightarrow> ret ()
      | Some notify \<Rightarrow>
          if collected = 0 then ret ()
          else
            (let effectKey = effect_key job ''notification''
             in and_then (sv_claim_effect sv \<lparr>ec_destination = ''notification'',
                    ec_effect_key = effectKey, ec_job_id = qj_job_id job\<rparr>)
                  (\<lambda>claim. case claim of
                       Claim_Granted _ \<Rightarrow>
                         and_then (notify collected published src)
                           (\<lambda>_. sv_finish_effect sv effectKey report_done)
                     | _ \<Rightarrow> ret ())))"

definition shadow_observation :: "string \<Rightarrow> queue_job list \<Rightarrow> json" where
  "shadow_observation observedAt jobs =
     JObj [(''count'', JNum (of_nat (length jobs))),
           (''dedupeKeys'', JArr (map (\<lambda>j. JStr (qj_dedupe_key j)) jobs)),
           (''observedAt'', JStr observedAt)]"

definition commit_collection ::
  "'s services \<Rightarrow> queue_job \<Rightarrow> source_name \<Rightarrow> 's collection_result \<Rightarrow> queue_job list \<Rightarrow> ('s, unit) action" where
  "commit_collection sv job src result jobs =
     and_then (sv_publish_jobs sv jobs) (\<lambda>_.
     and_then (each (\<lambda>(key, v). sv_put_state sv key v) (cl_state_updates result)) (\<lambda>_.
     and_then (case cl_after_commit result of None \<Rightarrow> ret () | Some f \<Rightarrow> f) (\<lambda>_.
       notify_collection sv job src (length (cl_items result)) (length jobs))))"

definition collection_summary :: "collect_payload \<Rightarrow> nat \<Rightarrow> nat \<Rightarrow> json_record" where
  "collection_summary payload collected published =
     [(''collected'', JNum (of_nat collected)),
      (''published'', JNum (if cp_shadow payload then 0 else of_nat published)),
      (''shadow'', JBool (cp_shadow payload)),
      (''source'', JStr (source_string (cp_source payload)))]"

definition handle_collect ::
  "'s services \<Rightarrow> queue_job \<Rightarrow> collect_payload \<Rightarrow> ('s, handler_result) action" where
  "handle_collect sv job payload =
     (if source_requires_browser (cp_source payload) \<and> \<not> sv_has_browser sv
      then throw (Thrown_Error ''Browser is required for this source'')
      else
        and_then (sv_collect sv (cp_source payload)) (\<lambda>result.
        and_then (to_dispatch_jobs sv (cl_items result) []) (\<lambda>jobs.
        and_then (if cp_shadow payload
            then (\<lambda>s. sv_put_state sv (''shadow:'' @ source_string (cp_source payload))
                    (shadow_observation (sv_iso sv (sv_now sv s)) jobs) s)
            else commit_collection sv job (cp_source payload) result jobs) (\<lambda>_.
        and_then (case cl_login_session result of
            None \<Rightarrow> ret ()
          | Some (platform, session) \<Rightarrow> sv_put_login_session sv platform session) (\<lambda>_.
        ret (Handled_Completed
          (collection_summary payload (length (cl_items result)) (length jobs))))))))"

definition handle_job :: "'s services \<Rightarrow> channels \<Rightarrow> queue_job \<Rightarrow> ('s, handler_result) action" where
  "handle_job sv ch input =
     (case parse_queue_job (sv_formats sv) (json_of_job input) of
        None \<Rightarrow> throw (Thrown_Error (sv_schema_error sv (json_of_job input)))
      | Some job \<Rightarrow>
          (case qj_payload job of
             Collect_Source payload \<Rightarrow> handle_collect sv job payload
           | Dispatch_Item item \<Rightarrow> handle_dispatch sv ch job item))"

section \<open>The configured deliverer\<close>

definition read_optional_string :: "json_record \<Rightarrow> string \<Rightarrow> string option" where
  "read_optional_string es key =
     (case json_get es key of Some (JStr v) \<Rightarrow> if v = [] then None else Some v | _ \<Rightarrow> None)"

definition required :: "json_record \<Rightarrow> string \<Rightarrow> string \<Rightarrow> thrown + string" where
  "required config key destination =
     (case read_optional_string config key of
        None \<Rightarrow> Inl (Thrown_Error (destination @ '' requires '' @ key)) | Some v \<Rightarrow> Inr v)"

definition destination_config :: "channels \<Rightarrow> string \<Rightarrow> json_record" where
  "destination_config ch name =
     (case map_of (ch_destinations ch) name of None \<Rightarrow> [] | Some e \<Rightarrow> de_config e)"

record 's outlets =
  ou_cubox :: "string \<Rightarrow> link_item \<Rightarrow> ('s, delivery_result) action"
  ou_flomo :: "string \<Rightarrow> text_item \<Rightarrow> ('s, delivery_result) action"
  ou_jianguoyun :: "string option \<Rightarrow> string option \<Rightarrow> string \<Rightarrow> string \<Rightarrow> file_item
     \<Rightarrow> ('s, delivery_result) action"
  ou_smart_tags :: "string \<Rightarrow> string option \<Rightarrow> string \<Rightarrow> ('s, string list) action"

definition configured_deliverer ::
  "channels \<Rightarrow> 's outlets \<Rightarrow> string \<Rightarrow> dispatch_item \<Rightarrow> ('s, delivery_result) action" where
  "configured_deliverer ch ou destination item =
     (case item of
        Link_Item i \<Rightarrow>
          if destination = ''cubox''
          then and_then (lift_result (required (destination_config ch ''cubox'') ''api_url'' ''cubox''))
                 (\<lambda>url. ou_cubox ou url i)
          else throw (Thrown_Error (''destination does not support item: '' @ destination @ ''/link''))
      | Text_Item i \<Rightarrow>
          if destination = ''flomo''
          then
            and_then (case text_tags i of
                Some (t # ts) \<Rightarrow> ret (t # ts)
              | _ \<Rightarrow> ou_smart_tags ou (nullish (read_optional_string (ch_llm ch) ''glm_api_key'') [])
                       (read_optional_string (ch_llm ch) ''model'') (text_content i)) (\<lambda>tags.
            and_then (lift_result (required (destination_config ch ''flomo'') ''webhook'' ''flomo''))
              (\<lambda>hook. ou_flomo ou hook (i\<lparr>text_tags := Some tags\<rparr>)))
          else throw (Thrown_Error (''destination does not support item: '' @ destination @ ''/text''))
      | File_Item i \<Rightarrow>
          if destination = ''jianguoyun''
          then
            (let config = destination_config ch ''jianguoyun''
             in and_then (lift_result (required config ''webdav_pass'' ''jianguoyun'')) (\<lambda>password.
                and_then (lift_result (required config ''webdav_user'' ''jianguoyun'')) (\<lambda>user.
                  ou_jianguoyun ou (read_optional_string config ''base_path'')
                    (read_optional_string config ''base_url'') password user i)))
          else throw (Thrown_Error (''destination does not support item: '' @ destination @ ''/file''))
      | Article_Item i \<Rightarrow>
          throw (Thrown_Error (''destination does not support item: '' @ destination @ ''/article'')))"

section \<open>The handler over an effect ledger\<close>

text \<open>A worker whose effects live in the ledger behind the network, and everything else in a
  world outside that does not touch the ledger.\<close>

record 'w effect_world =
  ew_effects :: "effect_row list"
  ew_fates :: "(wire_fate \<times> instant) list"
  ew_outside :: 'w

definition wire_effects ::
  "(instant \<Rightarrow> effect_row list \<Rightarrow> effect_row list \<times> 'r) \<Rightarrow> ('w effect_world, 'r) action" where
  "wire_effects operation s =
     (case ew_fates s of
        [] \<Rightarrow> (s, Inl unreachable)
      | (fate, now) # fates \<Rightarrow>
          (case fate of
             Wire_Lost_Request e \<Rightarrow> (s\<lparr>ew_fates := fates\<rparr>, Inl e)
           | Wire_Ok \<Rightarrow>
               (case operation now (ew_effects s) of
                  (rows, r) \<Rightarrow> (s\<lparr>ew_effects := rows, ew_fates := fates\<rparr>, Inr r))
           | Wire_Lost_Answer e \<Rightarrow>
               (case operation now (ew_effects s) of
                  (rows, r) \<Rightarrow> (s\<lparr>ew_effects := rows, ew_fates := fates\<rparr>, Inl e))))"

definition outside :: "('w, 'a) action \<Rightarrow> ('w effect_world, 'a) action" where
  "outside m s = (case m (ew_outside s) of (w, r) \<Rightarrow> (s\<lparr>ew_outside := w\<rparr>, r))"

definition outside_collection ::
  "'w collection_result \<Rightarrow> 'w effect_world collection_result" where
  "outside_collection r =
     \<lparr>cl_after_commit = map_option outside (cl_after_commit r), cl_items = cl_items r,
      cl_login_session = cl_login_session r, cl_state_updates = cl_state_updates r\<rparr>"

definition effect_services :: "'w services \<Rightarrow> 'w effect_world services" where
  "effect_services base =
     \<lparr>sv_claim_effect = (\<lambda>i. wire_effects (claim_effect i)),
      sv_finish_effect = (\<lambda>key r. wire_effects (\<lambda>now rows. (finish_effect key r now rows, ()))),
      sv_consume_rate_limit = (\<lambda>i. outside (sv_consume_rate_limit base i)),
      sv_consume_rate_limits = (\<lambda>is. outside (sv_consume_rate_limits base is)),
      sv_publish_jobs = (\<lambda>jobs. outside (sv_publish_jobs base jobs)),
      sv_put_state = (\<lambda>k v. outside (sv_put_state base k v)),
      sv_put_login_session = (\<lambda>k v. outside (sv_put_login_session base k v)),
      sv_deliver = (\<lambda>d i. outside (sv_deliver base d i)),
      sv_archive = map_option (\<lambda>f a k j. outside (f a k j)) (sv_archive base),
      sv_collect = (\<lambda>src. and_then (outside (sv_collect base src)) (\<lambda>r. ret (outside_collection r))),
      sv_notify = map_option (\<lambda>f c p src. outside (f c p src)) (sv_notify base),
      sv_has_browser = sv_has_browser base,
      sv_now = (\<lambda>s. sv_now base (ew_outside s)),
      sv_uuid = (\<lambda>s. case sv_uuid base (ew_outside s) of (w, u) \<Rightarrow> (s\<lparr>ew_outside := w\<rparr>, u)),
      sv_iso = sv_iso base, sv_sha256 = sv_sha256 base, sv_formats = sv_formats base,
      sv_schema_error = sv_schema_error base\<rparr>"

text \<open>What a handler relies on of the effects, and proves with it: \<open>st\<close> is the status of an
  effect in a state.\<close>

locale effect_client =
  fixes sv :: "'s services" and st :: "'s \<Rightarrow> string \<Rightarrow> effect_status option"
  assumes claim_answer:
      "sv_claim_effect sv i s = (s', Inr c) \<Longrightarrow>
         st s' (ec_effect_key i) = Some (case c of
             Claim_Granted n \<Rightarrow> Effect_Processing | Claim_Busy t \<Rightarrow> Effect_Processing
           | Claim_Done \<Rightarrow> Effect_Done | Claim_Uncertain \<Rightarrow> Effect_Uncertain)"
    and claim_keeps_done: "st s k = Some Effect_Done \<Longrightarrow> st (fst (sv_claim_effect sv i s)) k = Some Effect_Done"
    and claim_keeps_done_answer:
      "st s (ec_effect_key i) = Some Effect_Done \<Longrightarrow> sv_claim_effect sv i s = (s', Inr c) \<Longrightarrow> c = Claim_Done"
    and finish_written:
      "sv_finish_effect sv key rep s = (s', Inr ()) \<Longrightarrow> st s key \<noteq> None \<Longrightarrow>
         st s' key = Some (outcome_status (ef_status rep))"
    and finish_other: "k \<noteq> key \<Longrightarrow> st (fst (sv_finish_effect sv key rep s)) k = st s k"
    and limit_keeps: "st (fst (sv_consume_rate_limit sv ri s)) = st s"
    and limits_keep: "st (fst (sv_consume_rate_limits sv ris s)) = st s"
    and publish_keeps: "st (fst (sv_publish_jobs sv jobs s)) = st s"
    and deliver_keeps: "st (fst (sv_deliver sv d item s)) = st s"
    and archive_keeps: "sv_archive sv = Some f \<Longrightarrow> st (fst (f a dk j s)) = st s"
    and uuid_keeps: "st (fst (sv_uuid sv s)) = st s"
begin

definition quiet :: "('s, 'a) action \<Rightarrow> bool" where
  "quiet m = (\<forall>s. st (fst (m s)) = st s)"

lemma quiet_basic [simp]: "quiet (ret x)" "quiet (throw e)"
  by (simp_all add: quiet_def ret_def throw_def)

lemma and_then_fst:
  "fst (and_then m f s) = (case snd (m s) of Inl e \<Rightarrow> fst (m s) | Inr x \<Rightarrow> fst (f x (fst (m s))))"
  by (simp add: and_then_def split: prod.split sum.split)

lemma quiet_and_then: "quiet m \<Longrightarrow> (\<And>x. quiet (f x)) \<Longrightarrow> quiet (and_then m f)"
  by (auto simp: quiet_def and_then_fst split: sum.split)

lemma quiet_each: "(\<And>x. quiet (f x)) \<Longrightarrow> quiet (each f xs)"
  by (induction xs) (auto intro: quiet_and_then)

lemma quiet_enforce: "quiet (enforce_rate_limit sv ch item now)"
  unfolding enforce_rate_limit_def
proof (rule quiet_each, rule quiet_and_then)
  show "quiet (sv_consume_rate_limit sv x)" for x by (simp add: quiet_def limit_keeps)
  show "quiet (case a of Rate_Allowed n \<Rightarrow> ret () | Rate_Denied n t \<Rightarrow> throw e)" for a e
    by (cases a) simp_all
qed

lemma quiet_call: "quiet (call_destination sv job item destination)"
  unfolding quiet_def
  by (auto simp: call_destination_def deliver_keeps archive_keeps split: option.split dispatch_item.split)

lemma to_dispatch_jobs_quiet: "st (fst (to_dispatch_jobs sv items unique s)) = st s"
proof (induction sv\<equiv>sv items unique s rule: to_dispatch_jobs.induct)
  case (2 item items unique s)
  have "st s' = st s" if "sv_uuid sv s = (s', u)" for s' u
    using uuid_keeps [of s] that by simp
  then show ?case using 2 by (auto simp: Let_def split: prod.split option.split)
qed simp

lemma publish_article_quiet: "st (fst (publish_article_of_link sv ch item s)) = st s"
proof (cases item)
  case (Link_Item i)
  then show ?thesis
    by (auto simp: publish_article_of_link_def and_then_fst to_dispatch_jobs_quiet publish_keeps ret_def
        simp del: to_dispatch_jobs.simps split: sum.split)
qed (simp_all add: publish_article_of_link_def ret_def)

definition early_status :: "handler_result option \<Rightarrow> effect_status option" where
  "early_status r = (case r of
      None \<Rightarrow> Some Effect_Done | Some (Handled_Uncertain _) \<Rightarrow> Some Effect_Uncertain | _ \<Rightarrow> None)"

text \<open>Finishing a claimed effect and then returning.\<close>

lemma finish_ret:
  assumes "and_then (sv_finish_effect sv key rep) (\<lambda>_. ret x) s = (s', Inr y)" "st s key \<noteq> None"
  shows "y = x \<and> st s' key = Some (outcome_status (ef_status rep))"
  using assms finish_written
  by (auto simp: and_then_def ret_def split: prod.splits sum.splits)

lemma finish_throw:
  "and_then (sv_finish_effect sv key rep) (\<lambda>_. throw e) s \<noteq> (s', Inr y)"
  by (auto simp: and_then_def throw_def split: prod.splits sum.splits)

lemma finish_then_other:
  "k \<noteq> key \<Longrightarrow> st (fst (and_then (sv_finish_effect sv key rep) (\<lambda>_. ret x) s)) k = st s k"
  "k \<noteq> key \<Longrightarrow> st (fst (and_then (sv_finish_effect sv key rep) (\<lambda>_. throw e) s)) k = st s k"
  by (simp_all add: and_then_fst finish_other ret_def throw_def split: sum.split)

lemma settle_delivery_status:
  assumes "settle_delivery sv key result s = (s', Inr y)" "st s key \<noteq> None"
  shows "st s' key = early_status y \<and> early_status y \<noteq> None"
proof (cases result)
  case Delivery_Ok
  then show ?thesis using assms finish_ret [of key report_done None s s' y]
    by (auto simp: settle_delivery_def report_done_def early_status_def)
next
  case Delivery_Quota
  then show ?thesis using assms(1) by (simp add: settle_delivery_def finish_throw)
next
  case (Delivery_Fail b c n)
  show ?thesis
  proof (cases "\<not> b \<and> (case n of None \<Rightarrow> True | Some n \<Rightarrow> n \<ge> 500)")
    case True
    then show ?thesis
      using assms Delivery_Fail finish_ret [of key report_uncertain
          "Some (Handled_Uncertain ''external_delivery_uncertain'')" s s' y]
      by (auto simp: settle_delivery_def report_uncertain_def early_status_def Let_def)
  next
    case False
    then show ?thesis
      using assms(1) Delivery_Fail
      by (auto simp: settle_delivery_def Let_def finish_throw split: if_splits)
  qed
qed

lemma settle_delivery_other: "k \<noteq> key \<Longrightarrow> st (fst (settle_delivery sv key result s)) k = st s k"
  by (cases result) (simp_all add: settle_delivery_def finish_then_other Let_def)

lemma deliver_claimed_status:
  assumes "deliver_claimed sv job item d key s = (s', Inr y)" "st s key \<noteq> None"
  shows "st s' key = early_status y \<and> early_status y \<noteq> None"
proof -
  obtain t r where t: "call_destination sv job item d s = (t, r)" by force
  then have "st t = st s" using quiet_call unfolding quiet_def by (metis fst_conv)
  then show ?thesis
    using assms t settle_delivery_status [of key _ t s' y]
      finish_ret [of key report_uncertain "Some (Handled_Uncertain ''external_delivery_uncertain'')" t s' y]
    by (cases r) (auto simp: deliver_claimed_def report_uncertain_def early_status_def)
qed

lemma deliver_claimed_other:
  assumes "k \<noteq> key" shows "st (fst (deliver_claimed sv job item d key s)) k = st s k"
proof -
  obtain t r where t: "call_destination sv job item d s = (t, r)" by force
  then have "st t = st s" using quiet_call unfolding quiet_def by (metis fst_conv)
  then show ?thesis using t assms
    by (cases r) (simp_all add: deliver_claimed_def settle_delivery_other finish_then_other)
qed

lemma quiet_limits:
  "quiet (if kind_of_item item \<noteq> Article
     then (\<lambda>s. enforce_rate_limit sv ch item (sv_now sv s) s) else ret ())"
  using quiet_enforce by (simp add: quiet_def ret_def)

lemma deliver_one_status:
  assumes "deliver_one sv ch job item d s = (s', Inr y)"
  shows "case y of
      None \<Rightarrow> st s' (effect_key job d) = Some Effect_Done
    | Some (Handled_Uncertain _) \<Rightarrow> st s' (effect_key job d) = Some Effect_Uncertain
    | Some (Handled_Deferred _ _) \<Rightarrow> True
    | Some (Handled_Completed _) \<Rightarrow> False"
proof -
  let ?key = "effect_key job d"
  let ?i = "\<lparr>ec_destination = d, ec_effect_key = ?key, ec_job_id = qj_job_id job\<rparr>"
  obtain t c where t: "sv_claim_effect sv ?i s = (t, Inr c)"
    using assms by (auto simp: deliver_one_def and_then_def split: prod.splits sum.splits)
  note claimed = claim_answer [OF t]
  show ?thesis
  proof (cases c)
    case (Claim_Granted n)
    let ?limits = "if kind_of_item item \<noteq> Article
      then (\<lambda>s. enforce_rate_limit sv ch item (sv_now sv s) s) else ret ()"
    obtain u where u: "?limits t = (u, Inr ())" "deliver_claimed sv job item d ?key u = (s', Inr y)"
      using assms t Claim_Granted
      by (auto simp: deliver_one_def and_then_def split: prod.splits sum.splits)
    have "st u = st t" using quiet_limits [of item ch] u(1) unfolding quiet_def by (metis fst_conv)
    then have "st u ?key \<noteq> None" using claimed Claim_Granted by simp
    then show ?thesis using deliver_claimed_status [OF u(2)]
      by (auto simp: early_status_def split: option.splits handler_result.splits)
  qed (use assms t claimed in \<open>auto simp: deliver_one_def and_then_def ret_def\<close>)
qed

lemma deliver_one_keeps_done:
  assumes "st s k = Some Effect_Done"
  shows "st (fst (deliver_one sv ch job item d s)) k = Some Effect_Done"
proof -
  let ?key = "effect_key job d"
  let ?i = "\<lparr>ec_destination = d, ec_effect_key = ?key, ec_job_id = qj_job_id job\<rparr>"
  obtain t r where t: "sv_claim_effect sv ?i s = (t, r)" by force
  have kept: "st t k = Some Effect_Done" using claim_keeps_done [OF assms, of ?i] t by simp
  show ?thesis
  proof (cases "\<exists>n. r = Inr (Claim_Granted n)")
    case True
    then obtain n where r: "r = Inr (Claim_Granted n)" ..
    have other: "k \<noteq> ?key" using claim_keeps_done_answer [of s ?i t "Claim_Granted n"] assms t r by auto
    define limits where "limits = (if kind_of_item item \<noteq> Article
      then (\<lambda>s. enforce_rate_limit sv ch item (sv_now sv s) s) else ret ())"
    have "deliver_one sv ch job item d s
        = and_then limits (\<lambda>_. deliver_claimed sv job item d ?key) t"
      using t r by (simp add: deliver_one_def and_then_def limits_def)
    moreover have "st (fst (limits t)) = st t"
      using quiet_limits unfolding quiet_def limits_def by blast
    ultimately show ?thesis using kept deliver_claimed_other [OF other]
      by (simp add: and_then_fst split: sum.split)
  next
    case False
    then have "fst (deliver_one sv ch job item d s) = t" using t
      by (auto simp: deliver_one_def and_then_def ret_def split: sum.split effect_claim.split)
    then show ?thesis using kept by simp
  qed
qed

lemma deliver_all_status:
  "deliver_all sv ch job item ds states s = (s', Inr y) \<Longrightarrow>
     (case y of
        Inr states' \<Rightarrow> (\<forall>d\<in>set ds. st s' (effect_key job d) = Some Effect_Done)
      | Inl (Handled_Uncertain r) \<Rightarrow> (\<exists>d\<in>set ds. st s' (effect_key job d) = Some Effect_Uncertain)
      | Inl (Handled_Deferred r t) \<Rightarrow> True
      | Inl (Handled_Completed x) \<Rightarrow> False)
     \<and> (\<forall>k. st s k = Some Effect_Done \<longrightarrow> st s' k = Some Effect_Done)"
proof (induction ds arbitrary: states s)
  case Nil
  then show ?case by (auto simp: ret_def)
next
  case (Cons d ds)
  obtain t early where t: "deliver_one sv ch job item d s = (t, Inr early)"
    using Cons.prems by (auto simp: and_then_def split: prod.splits sum.splits)
  have kept: "st t k = Some Effect_Done" if "st s k = Some Effect_Done" for k
    using deliver_one_keeps_done [OF that, of ch job item d] t by simp
  show ?case
  proof (cases early)
    case (Some r)
    then have "s' = t" "y = Inl r" using Cons.prems t by (auto simp: and_then_def ret_def)
    then show ?thesis using deliver_one_status [OF t] Some kept
      by (auto split: handler_result.splits)
  next
    case None
    then have rest: "deliver_all sv ch job item ds (AList.update d (JStr ''done'') states) t = (s', Inr y)"
      using Cons.prems t by (simp add: and_then_def)
    have "st t (effect_key job d) = Some Effect_Done" using deliver_one_status [OF t] None by simp
    then show ?thesis using Cons.IH [OF rest] kept
      by (auto split: sum.splits handler_result.splits)
  qed
qed

lemma deliver_and_publish_status:
  assumes "deliver_and_publish sv ch job item s = (s', Inr r)"
  shows "case r of
      Handled_Completed summary \<Rightarrow>
        \<forall>d\<in>set (matching_destinations ch item). st s' (effect_key job d) = Some Effect_Done
    | Handled_Uncertain reason \<Rightarrow>
        \<exists>d\<in>set (matching_destinations ch item). st s' (effect_key job d) = Some Effect_Uncertain
    | Handled_Deferred reason t \<Rightarrow> True"
proof -
  obtain t y where t: "deliver_all sv ch job item (matching_destinations ch item) [] s = (t, Inr y)"
    using assms by (auto simp: deliver_and_publish_def and_then_def split: prod.splits sum.splits)
  note all = deliver_all_status [OF t]
  show ?thesis
  proof (cases y)
    case (Inl early)
    then have "s' = t" "r = early" using assms t by (auto simp: deliver_and_publish_def and_then_def ret_def)
    then show ?thesis using all Inl by (auto split: handler_result.splits)
  next
    case (Inr states)
    obtain u where u: "publish_article_of_link sv ch item t = (u, Inr ())" "s' = u"
        "r = Handled_Completed [(''destinations'', JObj states)]"
      using assms t Inr
      by (auto simp: deliver_and_publish_def and_then_def ret_def split: prod.splits sum.splits)
    have "st u = st t" using publish_article_quiet [of ch item t] u(1) by simp
    then show ?thesis using all Inr u by simp
  qed
qed

lemma handle_dispatch_status:
  assumes "handle_dispatch sv ch job item s = (s', Inr r)"
  shows "case r of
      Handled_Completed summary \<Rightarrow>
        \<forall>d\<in>set (matching_destinations ch item). st s' (effect_key job d) = Some Effect_Done
    | Handled_Uncertain reason \<Rightarrow>
        \<exists>d\<in>set (matching_destinations ch item). st s' (effect_key job d) = Some Effect_Uncertain
    | Handled_Deferred reason t \<Rightarrow> True"
proof -
  consider t where "deliver_and_publish sv ch job item t = (s', Inr r)"
    | "\<exists>retryAt. r = Handled_Deferred ''rate_limit'' retryAt"
    using assms
    by (auto simp: handle_dispatch_def and_then_def ret_def
        split: if_splits prod.splits sum.splits batch_answer.splits)
  then show ?thesis using deliver_and_publish_status by cases auto
qed

end

definition effect_status_of :: "'w effect_world \<Rightarrow> string \<Rightarrow> effect_status option" where
  "effect_status_of s k = map_option fst (effect_state (ew_effects s) k)"

lemma wire_effects_cases:
  "wire_effects operation s = (s', r) \<Longrightarrow>
     ew_effects s' = ew_effects s \<and> (\<exists>e. r = Inl e)
     \<or> (\<exists>now x. operation now (ew_effects s) = (ew_effects s', x) \<and> (r = Inr x \<or> (\<exists>e. r = Inl e)))"
  by (auto simp: wire_effects_def split: list.splits prod.splits wire_fate.splits)

lemma outside_status [simp]: "effect_status_of (fst (outside m s)) = effect_status_of s"
  by (rule ext) (simp add: effect_status_of_def outside_def split: prod.split)

lemma claim_effect_answer:
  assumes "claim_effect i now rows = (rows', c)"
  shows "map_option fst (effect_state rows' (ec_effect_key i)) = Some (case c of
      Claim_Granted n \<Rightarrow> Effect_Processing | Claim_Busy t \<Rightarrow> Effect_Processing
    | Claim_Done \<Rightarrow> Effect_Done | Claim_Uncertain \<Rightarrow> Effect_Uncertain)"
proof (cases "\<exists>n. c = Claim_Granted n")
  case True
  then show ?thesis using claim_effect_state [of i now rows "ec_effect_key i"] assms by auto
next
  case False
  then show ?thesis using assms
    by (auto simp: claim_effect_def effect_state_def effect_refusal_def Let_def
        split: option.splits if_splits effect_claim.split)
qed

lemma claim_effect_keeps_done:
  assumes "claim_effect i now rows = (rows', c)" "map_option fst (effect_state rows k) = Some Effect_Done"
  shows "map_option fst (effect_state rows' k) = Some Effect_Done \<and> (k = ec_effect_key i \<longrightarrow> c = Claim_Done)"
proof -
  have here: "rows' = rows \<and> c = Claim_Done" if k: "k = ec_effect_key i"
  proof -
    obtain row where row: "tab_first (\<lambda>r. er_effect_key r = k) rows = Some row" "er_status row = Effect_Done"
      using assms(2) by (auto simp: effect_state_def)
    then show ?thesis using assms(1) k by (simp add: claim_effect_def effect_refusal_def)
  qed
  then show ?thesis using claim_effect_state [of i now rows k] assms by (auto split: if_splits)
qed

interpretation ledger_client: effect_client "effect_services base" effect_status_of
  for base :: "'w services"
proof
  fix i :: effect_claim_input and s s' :: "'w effect_world" and c
  assume "sv_claim_effect (effect_services base) i s = (s', Inr c)"
  then obtain now where "claim_effect i now (ew_effects s) = (ew_effects s', c)"
    by (auto simp: effect_services_def dest: wire_effects_cases)
  then show "effect_status_of s' (ec_effect_key i) = Some (case c of
      Claim_Granted n \<Rightarrow> Effect_Processing | Claim_Busy t \<Rightarrow> Effect_Processing
    | Claim_Done \<Rightarrow> Effect_Done | Claim_Uncertain \<Rightarrow> Effect_Uncertain)"
    using claim_effect_answer unfolding effect_status_of_def by blast
next
  fix s :: "'w effect_world" and k i assume dn: "effect_status_of s k = Some Effect_Done"
  obtain s' r where t: "sv_claim_effect (effect_services base) i s = (s', r)" by force
  then have "wire_effects (claim_effect i) s = (s', r)" by (simp add: effect_services_def)
  then have "effect_status_of s' k = Some Effect_Done"
    using wire_effects_cases dn claim_effect_keeps_done unfolding effect_status_of_def by metis
  then show "effect_status_of (fst (sv_claim_effect (effect_services base) i s)) k = Some Effect_Done"
    using t by simp
next
  fix s s' :: "'w effect_world" and i c assume dn: "effect_status_of s (ec_effect_key i) = Some Effect_Done"
    and "sv_claim_effect (effect_services base) i s = (s', Inr c)"
  then obtain now where "claim_effect i now (ew_effects s) = (ew_effects s', c)"
    by (auto simp: effect_services_def dest: wire_effects_cases)
  then show "c = Claim_Done" using claim_effect_keeps_done dn unfolding effect_status_of_def by blast
next
  fix key rep and s s' :: "'w effect_world"
  assume "sv_finish_effect (effect_services base) key rep s = (s', Inr ())"
    and known: "effect_status_of s key \<noteq> None"
  then obtain now where "finish_effect key rep now (ew_effects s) = ew_effects s'"
    by (auto simp: effect_services_def dest: wire_effects_cases)
  then show "effect_status_of s' key = Some (outcome_status (ef_status rep))"
    using known finish_effect_state [of key rep now "ew_effects s" key] by (simp add: effect_status_of_def)
next
  fix k key :: string and rep and s :: "'w effect_world" assume other: "k \<noteq> key"
  obtain s' r where t: "sv_finish_effect (effect_services base) key rep s = (s', r)" by force
  then have "wire_effects (\<lambda>now rows. (finish_effect key rep now rows, ())) s = (s', r)"
    by (simp add: effect_services_def)
  then have "ew_effects s' = ew_effects s \<or> (\<exists>now. ew_effects s' = finish_effect key rep now (ew_effects s))"
    by (auto dest!: wire_effects_cases) metis+
  then show "effect_status_of (fst (sv_finish_effect (effect_services base) key rep s)) k = effect_status_of s k"
    using t other finish_effect_state by (auto simp: effect_status_of_def)
next
  fix f a dk j and s :: "'w effect_world" assume "sv_archive (effect_services base) = Some f"
  then show "effect_status_of (fst (f a dk j s)) = effect_status_of s"
    by (auto simp: effect_services_def)
next
  fix s :: "'w effect_world"
  show "effect_status_of (fst (sv_uuid (effect_services base) s)) = effect_status_of s"
    by (rule ext) (simp add: effect_services_def effect_status_of_def split: prod.split)
qed (simp_all add: effect_services_def)

lemma handle_job_dispatch:
  assumes "job_ok (sv_formats sv) job" "qj_payload job = Dispatch_Item item"
  shows "handle_job sv ch job = handle_dispatch sv ch job item"
  using assms parse_json_of_job by (auto simp: handle_job_def)

lemma handle_job_collect:
  assumes "job_ok (sv_formats sv) job" "qj_payload job = Collect_Source payload"
  shows "handle_job sv ch job = handle_collect sv job payload"
  using assms parse_json_of_job by (auto simp: handle_job_def)

lemma tag_list_written: "tag_list (map JStr ts) = Some us \<Longrightarrow> us = ts"
  by (induction ts arbitrary: us) (auto split: if_splits)

lemma parse_written_item:
  "parse_dispatch_item fmt (json_of_item i) = Some i' \<Longrightarrow> i' = i"
  unfolding parse_dispatch_item_def item_kind_field
  by (cases i)
     (auto simp: parse_link_def parse_text_def parse_file_def parse_article_def field_simps_json
        bind_eq_Some_conv dest: tag_list_written split: option.splits if_splits)

lemma parse_written_job:
  "parse_queue_job fmt (json_of_job j) = Some j' \<Longrightarrow> j' = j"
  by (cases j; cases "qj_payload j")
     (auto simp: parse_queue_job_def json_of_job_def field_simps_json parse_collect_json
        bind_eq_Some_conv dest: parse_written_item split: if_splits)

lemma to_dispatch_jobs_keys:
  "to_dispatch_jobs sv items unique s = (s', Inr jobs) \<Longrightarrow> distinct (map qj_dedupe_key unique) \<Longrightarrow>
     distinct (map qj_dedupe_key jobs)
     \<and> set (map qj_dedupe_key jobs) = set (map qj_dedupe_key unique)
         \<union> set (map (create_item_dedupe_key (sv_sha256 sv)) items)
     \<and> (\<forall>j\<in>set jobs. j \<in> set unique \<or> job_ok (sv_formats sv) j
          \<and> (\<exists>item\<in>set items. qj_payload j = Dispatch_Item item))"
proof (induction sv items unique s rule: to_dispatch_jobs.induct)
  case (2 sv item items unique s)
  let ?key = "create_item_dedupe_key (sv_sha256 sv) item"
  show ?case
  proof (cases "?key \<in> qj_dedupe_key ` set unique")
    case True
    then show ?thesis using 2 by (auto simp: Let_def)
  next
    case False
    obtain t jobId where t: "sv_uuid sv s = (t, jobId)" by force
    let ?input = "dispatch_job_json (sv_iso sv (sv_now sv s)) ?key jobId item"
    obtain job where job: "parse_queue_job (sv_formats sv) ?input = Some job"
      using 2(3) False t by (auto simp: Let_def split: option.splits)
    have fields: "qj_dedupe_key job = ?key" "qj_payload job = Dispatch_Item item"
      using parse_written_job [OF job [unfolded dispatch_job_json_def]] by simp_all
    have rest: "to_dispatch_jobs sv items (unique @ [job]) t = (s', Inr jobs)"
      using 2(3) False t job by (simp add: Let_def)
    have "distinct (map qj_dedupe_key (unique @ [job]))" using 2(4) False fields by auto
    note IH = 2(2) [OF refl False refl t [symmetric] refl job rest this]
    show ?thesis using IH fields parsed_job_ok [OF job] by auto
  qed
qed auto

lemma to_dispatch_jobs_publish:
  "to_dispatch_jobs (sv\<lparr>sv_publish_jobs := f\<rparr>) items unique s = to_dispatch_jobs sv items unique s"
  by (induction sv items unique s rule: to_dispatch_jobs.induct)
     (simp_all add: Let_def split: prod.split option.split)

section \<open>Properties\<close>


text \<open>A world in which every service succeeds and the clock stands still.\<close>

definition sample_services :: "delivery_result \<Rightarrow> rate_answer \<Rightarrow> unit services" where
  "sample_services result answer =
     \<lparr>sv_claim_effect = (\<lambda>_. ret (Claim_Granted 1)), sv_finish_effect = (\<lambda>_ _. ret ()),
      sv_consume_rate_limit = (\<lambda>_. ret answer),
      sv_consume_rate_limits = (\<lambda>_. ret (Limits_Allowed [])), sv_publish_jobs = (\<lambda>js. ret (length js)),
      sv_put_state = (\<lambda>_ _. ret ()), sv_put_login_session = (\<lambda>_ _. ret ()),
      sv_deliver = (\<lambda>_ _. ret result), sv_archive = None,
      sv_collect = (\<lambda>_. ret \<lparr>cl_after_commit = None, cl_items = [], cl_login_session = None,
        cl_state_updates = []\<rparr>), sv_notify = None, sv_has_browser = False, sv_now = (\<lambda>_. 0),
      sv_uuid = (\<lambda>s. (s, ''u'')), sv_iso = (\<lambda>_. ''t''), sv_sha256 = (\<lambda>x. x),
      sv_formats = sample_formats, sv_schema_error = (\<lambda>_. ''invalid'')\<rparr>"

definition sample_channels :: channels where
  "sample_channels =
     \<lparr>ch_destinations = [(''cubox'', \<lparr>de_config = [], de_enabled = True, de_item_kind = Link\<rparr>)],
      ch_archive = \<lparr>ac_enabled = False, ac_daily_limit = 1, ac_rate_window_count = 1,
        ac_rate_window_seconds = 1\<rparr>, ch_llm = []\<rparr>"

definition sample_world :: "unit effect_world" where
  "sample_world = \<lparr>ew_effects = [], ew_fates = [(Wire_Ok, 5), (Wire_Ok, 6)], ew_outside = ()\<rparr>"

lemma sample_job_ok: "job_ok sample_formats sample_job"
  by (simp add: job_ok_def sample_job_def sample_formats_def tags_ok_def)

lemmas run_sample = handle_dispatch_def deliver_and_publish_def matching_destinations_def
  sample_channels_def deliver_one_def deliver_claimed_def settle_delivery_def call_destination_def
  publish_article_of_link_def enforce_rate_limit_def rate_limit_inputs_def rate_policy_def
  effect_services_def sample_services_def sample_world_def wire_effects_def outside_def
  and_then_def ret_def throw_def claim_effect_def new_effect_def finish_effect_def


text \<open>Collected items become jobs once each: the jobs of a collection have distinct
  deduplication keys, cover exactly the keys of the items, and meet the schema.\<close>

lemma items_become_distinct_jobs:
  assumes "to_dispatch_jobs sv items [] s = (s', Inr jobs)"
  shows "distinct (map qj_dedupe_key jobs)
    \<and> set (map qj_dedupe_key jobs) = set (map (create_item_dedupe_key (sv_sha256 sv)) items)
    \<and> list_all (\<lambda>j. job_ok (sv_formats sv) j \<and> list_ex (\<lambda>i. qj_payload j = Dispatch_Item i) items) jobs"
  using to_dispatch_jobs_keys [OF assms] by (auto simp: list_all_iff list_ex_iff)

text \<open>C17: A collection commits nothing before its jobs are published: when publishing throws,
  the run ends in the state the attempt left, with no state of the source written, no session
  stored and nothing notified; and a shadow run does the same whatever publishing would do,
  since it publishes nothing.\<close>

theorem collection_publishes_first:
  assumes "job_ok (sv_formats sv) job" and "qj_payload job = Collect_Source payload"
    and "source_requires_browser (cp_source payload) \<longrightarrow> sv_has_browser sv"
    and "sv_collect sv (cp_source payload) s = (t, Inr result)"
    and "to_dispatch_jobs sv (cl_items result) [] t = (u, Inr jobs)"
    and "sv_publish_jobs sv jobs u = (v, Inl e)"
  shows "(\<not> cp_shadow payload \<longrightarrow> handle_job sv ch job s = (v, Inl e))
    \<and> (cp_shadow payload \<longrightarrow>
         handle_job (sv\<lparr>sv_publish_jobs := f\<rparr>) ch job s = handle_job sv ch job s)"
proof -
  have ok: "job_ok (sv_formats (sv\<lparr>sv_publish_jobs := f\<rparr>)) job" using assms(1) by simp
  show ?thesis
    unfolding handle_job_collect [OF assms(1,2)] handle_job_collect [OF ok assms(2)]
    using assms(3-6)
    by (auto simp: handle_collect_def commit_collection_def and_then_def to_dispatch_jobs_publish
        split: if_splits option.split cong: option.case_cong)
qed

theorem collection_publishes_first_witness:
  "handle_job ((sample_services Delivery_Ok (Rate_Allowed 1))
      \<lparr>sv_publish_jobs := (\<lambda>_. throw unreachable)\<rparr>) sample_channels
      (sample_collection_job\<lparr>qj_created_at := ''t'', qj_dedupe_key := ''k'', qj_job_id := ''j''\<rparr>) ()
   = ((), Inl unreachable)"
proof -
  let ?sv = "(sample_services Delivery_Ok (Rate_Allowed 1))\<lparr>sv_publish_jobs := (\<lambda>_. throw unreachable)\<rparr>"
  let ?job = "sample_collection_job\<lparr>qj_created_at := ''t'', qj_dedupe_key := ''k'', qj_job_id := ''j''\<rparr>"
  obtain payload where payload: "qj_payload ?job = Collect_Source payload" "cp_source payload = Dida"
      "\<not> cp_shadow payload"
    by (simp add: sample_collection_job_def)
  have ok: "job_ok (sv_formats ?sv) ?job"
    by (simp add: job_ok_def sample_services_def sample_formats_def sample_collection_job_def)
  obtain result where r: "sv_collect ?sv Dida () = ((), Inr result)" "cl_items result = []"
    by (simp add: sample_services_def ret_def)
  show ?thesis
    using collection_publishes_first [OF ok payload(1), of "()" "()" result "()" "[]" "()" unreachable]
      payload(2,3) r by (simp add: source_requires_browser_def throw_def)
qed

text \<open>For anything but an article the rate limit is asked after the effect was claimed, and a
  denial leaves the claim standing: the job fails, the effect stays in processing, and every
  claim in the ten minutes that follow is answered busy.\<close>

lemma denied_limit_strands_the_claim:
  assumes "job_ok (sv_formats base) job" and "qj_payload job = Dispatch_Item item"
    and "kind_of_item item \<noteq> Article" and "matching_destinations ch item = d # ds"
    and "ew_fates s = (Wire_Ok, now) # fates"
    and "claim_effect \<lparr>ec_destination = d, ec_effect_key = effect_key job d, ec_job_id = qj_job_id job\<rparr>
           now (ew_effects s) = (rows, Claim_Granted n)"
    and "rate_limit_inputs ch item (sv_now base (ew_outside s)) = ri # ris"
    and "sv_consume_rate_limit base ri (ew_outside s) = (w, Inr (Rate_Denied m u))"
    and "t \<le> now + 600000"
  shows "handle_job (effect_services base) ch job s
      = (s\<lparr>ew_effects := rows, ew_fates := fates, ew_outside := w\<rparr>,
         Inl (Thrown_TypeError (''429 '' @ ri_scope ri @ '' rate limit unavailable'')))
    \<and> claim_effect \<lparr>ec_destination = d, ec_effect_key = effect_key job d, ec_job_id = j\<rparr> t rows
        = (rows, Claim_Busy (now + 600000))"
proof -
  let ?i = "\<lparr>ec_destination = d, ec_effect_key = effect_key job d, ec_job_id = qj_job_id job\<rparr>"
  have "job_ok (sv_formats (effect_services base)) job"
    using assms(1) by (simp add: effect_services_def)
  then have run: "handle_job (effect_services base) ch job s
      = handle_dispatch (effect_services base) ch job item s"
    using handle_job_dispatch assms(2) by metis
  have "effect_state rows (effect_key job d) = Some (Effect_Processing, now)"
    using claim_effect_state [of ?i now "ew_effects s" "effect_key job d"] assms(6) by simp
  then obtain row where row: "tab_first (\<lambda>r. er_effect_key r = effect_key job d) rows = Some row"
      "er_status row = Effect_Processing" "er_updated_at row = now"
    by (auto simp: effect_state_def)
  then have "claim_effect \<lparr>ec_destination = d, ec_effect_key = effect_key job d, ec_job_id = j\<rparr> t rows
      = (rows, Claim_Busy (now + 600000))"
    using assms(9) by (simp add: claim_effect_def effect_refusal_def is_stale_def)
  moreover have "handle_dispatch (effect_services base) ch job item s
      = (s\<lparr>ew_effects := rows, ew_fates := fates, ew_outside := w\<rparr>,
         Inl (Thrown_TypeError (''429 '' @ ri_scope ri @ '' rate limit unavailable'')))"
    using assms(3-8)
    by (simp add: handle_dispatch_def deliver_and_publish_def deliver_one_def effect_services_def
        wire_effects_def outside_def and_then_def enforce_rate_limit_def throw_def)
  ultimately show ?thesis using run by simp
qed

end
