(* ===== verification/Manifest_Checks.thy ===== *)
theory Manifest_Checks
  imports Json Js_Text
begin

text \<open>
  The checks the manifests of \<open>packages/release-operations/src\<close> are parsed with, shared by
  \<open>release-plan.ts\<close>, \<open>legacy-rehearsal-plan.ts\<close> and \<open>state-restore-plan.ts\<close>. A check that
  fails throws; an error is the kind of the check and the path of the field. What the
  standard library decides of a text (\<open>Date.parse\<close>, \<open>new URL\<close>) is an argument.
\<close>

datatype manifest_error =
    Not_A_Record string
  | Unexpected_Fields string
  | Missing_Fields string
  | Not_A_Text string
  | Bad_Value string
  | Sensitive_Field string

type_synonym 'a checked = "manifest_error + 'a"

definition check_then :: "'a checked \<Rightarrow> ('a \<Rightarrow> 'b checked) \<Rightarrow> 'b checked" where
  "check_then m f = (case m of Inl e \<Rightarrow> Inl e | Inr x \<Rightarrow> f x)"

definition require :: "bool \<Rightarrow> manifest_error \<Rightarrow> unit checked" where
  "require b e = (if b then Inr () else Inl e)"

lemma check_then_Inr: "check_then m f = Inr y \<longleftrightarrow> (\<exists>x. m = Inr x \<and> f x = Inr y)"
  by (auto simp: check_then_def split: sum.splits)

lemma require_Inr: "require b e = Inr u \<longleftrightarrow> b"
  by (simp add: require_def)

fun check_all :: "('a \<Rightarrow> 'b checked) \<Rightarrow> 'a list \<Rightarrow> 'b list checked" where
  "check_all f [] = Inr []"
| "check_all f (x # xs) =
     check_then (f x) (\<lambda>y. check_then (check_all f xs) (\<lambda>ys. Inr (y # ys)))"

lemma check_all_Inr:
  "check_all f xs = Inr ys \<Longrightarrow> length ys = length xs \<and> (\<forall>i<length xs. f (xs ! i) = Inr (ys ! i))"
proof (induction xs arbitrary: ys)
  case (Cons x xs)
  then obtain y zs where "f x = Inr y" "check_all f xs = Inr zs" "ys = y # zs"
    by (auto simp: check_then_Inr)
  then show ?case using Cons.IH by (auto simp: nth_Cons split: nat.split)
qed simp

lemma check_all_set:
  assumes "check_all f xs = Inr ys" and "\<And>x y. f x = Inr y \<Longrightarrow> P y"
  shows "\<forall>y\<in>set ys. P y"
  using check_all_Inr [OF assms(1)] assms(2) by (metis in_set_conv_nth)

text \<open>\<open>record\<close>, and a field that is missing is \<open>undefined\<close>.\<close>

definition as_record :: "json option \<Rightarrow> string \<Rightarrow> json_record checked" where
  "as_record v path = (case v of Some (JObj es) \<Rightarrow> Inr es | _ \<Rightarrow> Inl (Not_A_Record path))"

text \<open>\<open>exactKeys\<close>: no field beyond the allowed; the restore manifests also want each of them.\<close>

definition exact_keys :: "json_record \<Rightarrow> string list \<Rightarrow> string \<Rightarrow> unit checked" where
  "exact_keys es allowed path =
     require (list_all (\<lambda>k. k \<in> set allowed) (json_keys es)) (Unexpected_Fields path)"

definition all_keys :: "json_record \<Rightarrow> string list \<Rightarrow> string \<Rightarrow> unit checked" where
  "all_keys es allowed path =
     check_then (exact_keys es allowed path) (\<lambda>_.
       require (list_all (\<lambda>k. k \<in> set (json_keys es)) allowed) (Missing_Fields path))"

definition as_text :: "json option \<Rightarrow> string \<Rightarrow> string checked" where
  "as_text v path =
     (case v of
        Some (JStr s) \<Rightarrow> if js_trim s = [] then Inl (Not_A_Text path) else Inr s
      | _ \<Rightarrow> Inl (Not_A_Text path))"

definition matching_text :: "(string \<Rightarrow> bool) \<Rightarrow> json option \<Rightarrow> string \<Rightarrow> string checked" where
  "matching_text p v path =
     check_then (as_text v path) (\<lambda>s. if p s then Inr s else Inl (Bad_Value path))"

definition as_commit :: "json option \<Rightarrow> string \<Rightarrow> string checked" where
  "as_commit = matching_text (hex_of_length 40)"

definition as_hash :: "json option \<Rightarrow> string \<Rightarrow> string checked" where
  "as_hash = matching_text (hex_of_length 64)"

text \<open>\<open>/^ghcr\.nju\.edu\.cn\/[^@]+@sha256:[a-f0-9]{64}$/\<close>.\<close>

definition is_image_digest :: "string \<Rightarrow> bool" where
  "is_image_digest s =
     (case strip_prefix ''ghcr.nju.edu.cn/'' s of
        None \<Rightarrow> False
      | Some r \<Rightarrow>
          takeWhile (\<lambda>c. c \<noteq> CHR ''@'') r \<noteq> []
          \<and> (case strip_prefix ''@sha256:'' (dropWhile (\<lambda>c. c \<noteq> CHR ''@'') r) of
               None \<Rightarrow> False | Some h \<Rightarrow> hex_of_length 64 h))"

definition as_image_digest :: "json option \<Rightarrow> string \<Rightarrow> string checked" where
  "as_image_digest = matching_text is_image_digest"

text \<open>\<open>safePath\<close>: relative, without a step upwards.\<close>

definition is_safe_path :: "string \<Rightarrow> bool" where
  "is_safe_path s = (\<not> starts_with ''/'' s \<and> ''..'' \<notin> set (split_on (CHR ''/'') s))"

definition as_safe_path :: "json option \<Rightarrow> string \<Rightarrow> string checked" where
  "as_safe_path = matching_text is_safe_path"

definition fixed_path :: "json option \<Rightarrow> string \<Rightarrow> string \<Rightarrow> string checked" where
  "fixed_path v expected path = (if v = Some (JStr expected) then Inr expected else Inl (Bad_Value path))"

lemma matching_text_Inr: "matching_text p v path = Inr s \<longleftrightarrow> v = Some (JStr s) \<and> js_trim s \<noteq> [] \<and> p s"
  by (auto simp: matching_text_def as_text_def check_then_Inr split: option.splits json.splits if_splits)

lemma as_text_Inr: "as_text v path = Inr s \<longleftrightarrow> v = Some (JStr s) \<and> js_trim s \<noteq> []"
  by (auto simp: as_text_def split: option.splits json.splits if_splits)

lemma as_record_Inr: "as_record v path = Inr es \<longleftrightarrow> v = Some (JObj es)"
  by (auto simp: as_record_def split: option.splits json.splits)

lemma fixed_path_Inr: "fixed_path v expected path = Inr s \<longleftrightarrow> v = Some (JStr expected) \<and> s = expected"
  by (auto simp: fixed_path_def)

lemmas checked_texts = as_commit_def as_hash_def as_image_digest_def as_safe_path_def

text \<open>The facts a parser is taken apart with.\<close>

lemmas checked_results = check_then_Inr require_Inr matching_text_Inr as_text_Inr as_record_Inr
  fixed_path_Inr checked_texts

section \<open>Plans\<close>

record release_command =
  rc_args :: "string list"
  rc_file :: string

definition command :: "string \<Rightarrow> string list \<Rightarrow> release_command" where
  "command file args = \<lparr>rc_args = args, rc_file = file\<rparr>"

record command_result =
  cr_exit_code :: int
  cr_stderr :: string
  cr_stdout :: string

text \<open>The status of a step in the evidence of an execution.\<close>

datatype step_status = Planned | Succeeded | Failed | Compensated

end
