(* ===== verification/State_Restore_Plan.thy ===== *)
theory State_Restore_Plan
  imports Manifest_Checks
begin

text \<open>
  The manifest and the plan of the state-restore rehearsal,
  \<open>packages/release-operations/src/state-restore-plan.ts\<close>. An ISO text that is canonical is
  held as the instant it denotes, in milliseconds; \<open>instant\<close> stands for \<open>new Date\<close> and
  answers for the canonical texts only. The hash of a plan is an argument, and the descriptions
  of its steps are left out.
\<close>

section \<open>Manifests\<close>

datatype state_kind = Worker_State | Browser_State | Warp_State

record snapshot_manifest =
  sm_path :: string
  sm_record_count :: nat
  sm_sha256 :: string
  sm_snapshot_id :: string
  sm_stable_id :: string
  sm_kind :: state_kind

record restore_manifest =
  sr_captured_at :: int
  sr_run_id :: string
  sr_snapshots :: "snapshot_manifest list"
  sr_source_commit :: string

fun kind_name :: "state_kind \<Rightarrow> string" where
  "kind_name Worker_State = ''worker''"
| "kind_name Browser_State = ''browser''"
| "kind_name Warp_State = ''warp''"

fun snapshot_path :: "state_kind \<Rightarrow> string" where
  "snapshot_path Browser_State = ''deploy/rehearsal/state-snapshots/browser/state.json''"
| "snapshot_path Warp_State = ''deploy/rehearsal/state-snapshots/warp/state.json''"
| "snapshot_path Worker_State = ''deploy/rehearsal/state-snapshots/worker/state.json''"

definition state_kinds :: "state_kind list" where
  "state_kinds = [Worker_State, Browser_State, Warp_State]"

definition as_kind :: "json option \<Rightarrow> string \<Rightarrow> state_kind checked" where
  "as_kind v path =
     (if v = Some (JStr ''worker'') then Inr Worker_State
      else if v = Some (JStr ''browser'') then Inr Browser_State
      else if v = Some (JStr ''warp'') then Inr Warp_State
      else Inl (Bad_Value path))"

definition as_identifier :: "json option \<Rightarrow> string \<Rightarrow> string checked" where
  "as_identifier = matching_text (identifier_up_to 63)"

text \<open>\<open>Number.isSafeInteger(value) && value >= 0\<close>.\<close>

definition as_count :: "json option \<Rightarrow> string \<Rightarrow> nat checked" where
  "as_count v path =
     (case v of
        Some (JNum x) \<Rightarrow>
          if is_integer x \<and> 0 \<le> x \<and> x \<le> 9007199254740991 then Inr (nat \<lfloor>x\<rfloor>) else Inl (Bad_Value path)
      | _ \<Rightarrow> Inl (Bad_Value path))"

definition as_instant :: "(string \<Rightarrow> int option) \<Rightarrow> json option \<Rightarrow> string \<Rightarrow> int checked" where
  "as_instant instant v path =
     check_then (as_text v path) (\<lambda>s.
       case instant s of None \<Rightarrow> Inl (Bad_Value path) | Some t \<Rightarrow> Inr t)"

definition is_one :: "json option \<Rightarrow> string \<Rightarrow> unit checked" where
  "is_one v path = require (v = Some (JNum 1)) (Bad_Value path)"

definition parse_snapshot_manifest :: "json \<Rightarrow> snapshot_manifest checked" where
  "parse_snapshot_manifest v =
     check_then (as_record (Some v) ''manifest.snapshots'') (\<lambda>item.
     check_then (all_keys item [''fileCount'', ''path'', ''recordCount'', ''schemaVersion'', ''sha256'',
         ''snapshotId'', ''stableId'', ''stateKind''] ''manifest.snapshots'') (\<lambda>_.
     check_then (as_kind (json_get item ''stateKind'') ''stateKind'') (\<lambda>kind.
     check_then (fixed_path (json_get item ''path'') (snapshot_path kind) ''path'') (\<lambda>path.
     check_then (is_one (json_get item ''fileCount'') ''fileCount'') (\<lambda>_.
     check_then (is_one (json_get item ''schemaVersion'') ''schemaVersion'') (\<lambda>_.
     check_then (as_count (json_get item ''recordCount'') ''recordCount'') (\<lambda>count.
     check_then (as_hash (json_get item ''sha256'') ''sha256'') (\<lambda>sha.
     check_then (as_identifier (json_get item ''snapshotId'') ''snapshotId'') (\<lambda>snapshotId.
     check_then (as_identifier (json_get item ''stableId'') ''stableId'') (\<lambda>stableId.
       Inr \<lparr>sm_path = path, sm_record_count = count, sm_sha256 = sha, sm_snapshot_id = snapshotId,
            sm_stable_id = stableId, sm_kind = kind\<rparr>))))))))))"

text \<open>The three snapshots, in their fixed order.\<close>

definition snapshot_list :: "json option \<Rightarrow> snapshot_manifest list checked" where
  "snapshot_list v =
     (case v of
        Some (JArr vs) \<Rightarrow>
          check_then (require (length vs = length state_kinds) (Bad_Value ''snapshots'')) (\<lambda>_.
          check_then (check_all parse_snapshot_manifest vs) (\<lambda>snapshots.
          check_then (require (map sm_kind snapshots = state_kinds) (Bad_Value ''snapshots'')) (\<lambda>_.
            Inr snapshots)))
      | _ \<Rightarrow> Inl (Bad_Value ''snapshots''))"

definition parse_restore_manifest :: "(string \<Rightarrow> int option) \<Rightarrow> json \<Rightarrow> restore_manifest checked" where
  "parse_restore_manifest instant v =
     check_then (as_record (Some v) ''manifest'') (\<lambda>root.
     check_then (all_keys root [''candidateRpoSeconds'', ''capturedAt'', ''rpoStatus'', ''runId'',
         ''schemaVersion'', ''snapshots'', ''sourceCommit''] ''manifest'') (\<lambda>_.
     check_then (is_one (json_get root ''schemaVersion'') ''manifest.schemaVersion'') (\<lambda>_.
     check_then (require (json_get root ''candidateRpoSeconds'' = Some (JNum 86400)) (Bad_Value ''candidateRpoSeconds'')) (\<lambda>_.
     check_then (require (json_get root ''rpoStatus'' = Some (JStr ''unapproved'')) (Bad_Value ''rpoStatus'')) (\<lambda>_.
     check_then (snapshot_list (json_get root ''snapshots'')) (\<lambda>snapshots.
     check_then (as_instant instant (json_get root ''capturedAt'') ''capturedAt'') (\<lambda>captured.
     check_then (as_identifier (json_get root ''runId'') ''runId'') (\<lambda>runId.
     check_then (as_commit (json_get root ''sourceCommit'') ''sourceCommit'') (\<lambda>commit.
       Inr \<lparr>sr_captured_at = captured, sr_run_id = runId, sr_snapshots = snapshots,
            sr_source_commit = commit\<rparr>)))))))))"

section \<open>Plans\<close>

datatype restore_step = Snapshot_Preflight | Restore | Startup_Gate | Reconciliation | Cleanup

record restore_plan =
  sp_manifest :: restore_manifest
  sp_hash :: string
  sp_name :: string
  sp_steps :: "restore_step list"

definition build_restore_plan ::
  "(restore_manifest \<Rightarrow> string \<Rightarrow> restore_step list \<Rightarrow> string) \<Rightarrow> restore_manifest \<Rightarrow> restore_plan" where
  "build_restore_plan sha m =
     (let name = ''inbox-state-restore-'' @ sr_run_id m;
          steps = [Snapshot_Preflight, Restore, Startup_Gate, Reconciliation, Cleanup]
      in \<lparr>sp_manifest = m, sp_hash = sha m name steps, sp_name = name, sp_steps = steps\<rparr>)"

section \<open>What a parsed manifest promises\<close>

definition well_formed_snapshot :: "snapshot_manifest \<Rightarrow> bool" where
  "well_formed_snapshot m =
     (sm_path m = snapshot_path (sm_kind m) \<and> hex_of_length 64 (sm_sha256 m)
      \<and> identifier_up_to 63 (sm_stable_id m) \<and> sm_record_count m < 2 ^ 53)"

lemma as_count_bound: "as_count v path = Inr n \<Longrightarrow> n < 2 ^ 53"
  by (auto simp: as_count_def is_integer_def split: option.splits json.splits if_splits elim!: Ints_cases)

lemma parsed_snapshot_manifest: "parse_snapshot_manifest v = Inr m \<Longrightarrow> well_formed_snapshot m"
  by (auto simp: parse_snapshot_manifest_def well_formed_snapshot_def as_identifier_def checked_results
      dest: as_count_bound)

lemma parsed_snapshot_list:
  assumes "snapshot_list v = Inr ss"
  shows "list_all well_formed_snapshot ss \<and> map sm_kind ss = state_kinds"
proof -
  from assms obtain vs where "check_all parse_snapshot_manifest vs = Inr ss" "map sm_kind ss = state_kinds"
    by (auto simp: snapshot_list_def checked_results split: option.splits json.splits)
  then show ?thesis
    using check_all_set [of parse_snapshot_manifest vs ss well_formed_snapshot] parsed_snapshot_manifest
    by (simp add: list_all_iff)
qed

lemma parsed_restore_manifest:
  assumes "parse_restore_manifest instant v = Inr m"
  shows "list_all well_formed_snapshot (sr_snapshots m) \<and> map sm_kind (sr_snapshots m) = state_kinds
    \<and> hex_of_length 40 (sr_source_commit m) \<and> identifier_up_to 63 (sr_run_id m)"
proof -
  from assms obtain w where "snapshot_list w = Inr (sr_snapshots m)"
    "hex_of_length 40 (sr_source_commit m)" "identifier_up_to 63 (sr_run_id m)"
    by (auto simp: parse_restore_manifest_def as_identifier_def checked_results)
  then show ?thesis using parsed_snapshot_list by blast
qed

end
