(* ===== verification/State_Restore.thy ===== *)
theory State_Restore
  imports Actions State_Restore_Plan
begin

text \<open>
  The state-restore rehearsal, \<open>packages/release-operations/src/state-restore-executor.ts\<close>:
  three synthetic snapshots are verified, restored into a temporary directory, read back and
  reconciled, and the directory is removed whatever happens. The file operations, the clock
  and the hook are actions over the state of the host; \<open>JSON.parse\<close>, \<open>JSON.stringify\<close> and
  SHA-256 are arguments. The variables of the function that outlive its \<open>try\<close> are the record
  \<open>restore_run\<close>. The three snapshots are read one after the other, where the code starts the
  reads together. The messages of the errors are rendered in English.
\<close>

section \<open>The host\<close>

record snapshot_stat =
  st_mode :: nat
  st_size :: int
  st_is_file :: bool
  st_is_link :: bool

record 's restore_io =
  io_chmod :: "string \<Rightarrow> nat \<Rightarrow> ('s, unit) action"
  io_lstat :: "string \<Rightarrow> ('s, snapshot_stat) action"
  io_mkdir :: "string \<Rightarrow> ('s, unit) action"
  io_mkdtemp :: "string \<Rightarrow> ('s, string) action"
  io_read_file :: "string \<Rightarrow> ('s, string) action"
  io_resolve :: "string \<Rightarrow> string"
  io_rm :: "string \<Rightarrow> ('s, unit) action"
  io_write_file :: "string \<Rightarrow> string \<Rightarrow> ('s, unit) action"

definition join_path :: "string \<Rightarrow> string \<Rightarrow> string" where
  "join_path a b = a @ ''/'' @ b"

section \<open>Snapshots\<close>

record snapshot_payload =
  pl_records :: "json_record list"
  pl_stable_id :: string
  pl_kind :: state_kind

record validated_snapshot =
  vs_bytes :: string
  vs_manifest :: snapshot_manifest
  vs_sha256 :: string

record state_evidence =
  ev_reconciled :: bool
  ev_record_count :: nat
  ev_restored_sha256 :: string
  ev_source_sha256 :: string
  ev_stable_id :: string
  ev_kind :: state_kind

text \<open>How often a matcher, which answers what follows a match, succeeds from left to right.\<close>

function count_matches :: "(string \<Rightarrow> string option) \<Rightarrow> string \<Rightarrow> nat" where
  "count_matches m [] = 0"
| "count_matches m (c # cs) =
     (case m (c # cs) of
        Some rest \<Rightarrow> if length rest \<le> length cs then 1 + count_matches m rest else 0
      | None \<Rightarrow> count_matches m cs)"
  by pat_completeness auto
termination by (relation "measure (\<lambda>(m, s). length s)") auto

text \<open>\<open>/https?:\/\//gi\<close> and \<open>/(?:authorization|cookie|password|secret|token)\s*[=:]/gi\<close>.\<close>

definition scheme_here :: "string \<Rightarrow> string option" where
  "scheme_here s = (case strip_ci ''https://'' s of Some r \<Rightarrow> Some r | None \<Rightarrow> strip_ci ''http://'' s)"

definition credential_key_here :: "string \<Rightarrow> string option" where
  "credential_key_here s =
     (case strip_word s of
        None \<Rightarrow> None
      | Some r \<Rightarrow>
          (case dropWhile is_space r of
             [] \<Rightarrow> None
           | c # r' \<Rightarrow> if c = CHR ''='' \<or> c = CHR '':'' then Some r' else None))"

definition sensitive_matches :: "string \<Rightarrow> nat" where
  "sensitive_matches s = count_matches scheme_here s + count_matches credential_key_here s"

definition record_fields :: "state_kind \<Rightarrow> string list" where
  "record_fields kind = (case kind of
     Browser_State \<Rightarrow> [''authenticated'', ''profile'']
   | Warp_State \<Rightarrow> [''registrationId'', ''status'']
   | Worker_State \<Rightarrow> [''key'', ''status''])"

definition is_text :: "json option \<Rightarrow> bool" where
  "is_text v = (case v of Some (JStr s) \<Rightarrow> True | _ \<Rightarrow> False)"

definition parse_state_record :: "state_kind \<Rightarrow> json \<Rightarrow> json_record checked" where
  "parse_state_record kind v =
     check_then (as_record (Some v) ''snapshot.records'') (\<lambda>item.
     check_then (all_keys item (record_fields kind) ''snapshot.records'') (\<lambda>_.
     check_then (require (case kind of
         Browser_State \<Rightarrow> json_get item ''authenticated'' = Some (JBool False) \<and> is_text (json_get item ''profile'')
       | Warp_State \<Rightarrow> is_text (json_get item ''registrationId'') \<and> json_get item ''status'' = Some (JStr ''registered'')
       | Worker_State \<Rightarrow> is_text (json_get item ''key'') \<and> json_get item ''status'' = Some (JStr ''ready''))
       (Bad_Value ''snapshot.records'')) (\<lambda>_.
       Inr item)))"

definition parse_snapshot :: "(string \<Rightarrow> json option) \<Rightarrow> string \<Rightarrow> state_kind \<Rightarrow> snapshot_payload checked" where
  "parse_snapshot json_of bytes kind =
     check_then (case json_of bytes of None \<Rightarrow> Inl (Bad_Value ''snapshot'') | Some v \<Rightarrow> Inr v) (\<lambda>v.
     check_then (as_record (Some v) ''snapshot'') (\<lambda>root.
     check_then (all_keys root [''records'', ''schemaVersion'', ''stableId'', ''stateKind''] ''snapshot'') (\<lambda>_.
     check_then (is_one (json_get root ''schemaVersion'') ''snapshot.schemaVersion'') (\<lambda>_.
     check_then (require (json_get root ''stateKind'' = Some (JStr (kind_name kind))) (Bad_Value ''snapshot.stateKind'')) (\<lambda>_.
     check_then (case json_get root ''stableId'' of
         Some (JStr (c # cs)) \<Rightarrow> Inr (c # cs) | _ \<Rightarrow> Inl (Not_A_Text ''snapshot.stableId'')) (\<lambda>stableId.
     check_then (case json_get root ''records'' of
         Some (JArr vs) \<Rightarrow> check_all (parse_state_record kind) vs | _ \<Rightarrow> Inl (Bad_Value ''snapshot.records'')) (\<lambda>records.
     check_then (require (sensitive_matches bytes = 0) (Sensitive_Field ''snapshot'')) (\<lambda>_.
       Inr \<lparr>pl_records = records, pl_stable_id = stableId, pl_kind = kind\<rparr>))))))))"

fun manifest_message :: "manifest_error \<Rightarrow> string" where
  "manifest_message (Not_A_Record p) = p @ '' must be an object''"
| "manifest_message (Unexpected_Fields p) = p @ '' has unexpected fields''"
| "manifest_message (Missing_Fields p) = p @ '' lacks fields''"
| "manifest_message (Not_A_Text p) = p @ '' must be a nonempty text''"
| "manifest_message (Bad_Value p) = p @ '' is invalid''"
| "manifest_message (Sensitive_Field p) = p @ '' holds sensitive patterns''"

definition or_throw :: "'a checked \<Rightarrow> ('s, 'a) action" where
  "or_throw c = (case c of Inl e \<Rightarrow> throw (Thrown_Error (manifest_message e)) | Inr x \<Rightarrow> ret x)"

definition assert_identity :: "snapshot_payload \<Rightarrow> snapshot_manifest \<Rightarrow> ('s, unit) action" where
  "assert_identity p m =
     when_then (pl_kind p \<noteq> sm_kind m \<or> pl_stable_id p \<noteq> sm_stable_id m
       \<or> length (pl_records p) \<noteq> sm_record_count m) (Thrown_Error ''identity mismatch'')"

definition validate_source ::
  "'s restore_io \<Rightarrow> (string \<Rightarrow> json option) \<Rightarrow> (string \<Rightarrow> string) \<Rightarrow> snapshot_manifest
   \<Rightarrow> ('s, validated_snapshot) action" where
  "validate_source io json_of sha m =
     (let path = io_resolve io (sm_path m)
      in and_then (io_lstat io path) (\<lambda>stat.
         and_then (when_then (st_is_link stat \<or> \<not> st_is_file stat) (Thrown_Error ''not a plain file'')) (\<lambda>_.
         and_then (when_then (st_size stat > 65536) (Thrown_Error ''over 64 KiB'')) (\<lambda>_.
         and_then (io_read_file io path) (\<lambda>bytes.
         and_then (when_then (sha bytes \<noteq> sm_sha256 m) (Thrown_Error ''sha256 mismatch'')) (\<lambda>_.
         and_then (or_throw (parse_snapshot json_of bytes (sm_kind m))) (\<lambda>payload.
         and_then (assert_identity payload m) (\<lambda>_.
           ret \<lparr>vs_bytes = bytes, vs_manifest = m, vs_sha256 = sha bytes\<rparr>))))))))"

definition state_file :: "string \<Rightarrow> snapshot_manifest \<Rightarrow> string" where
  "state_file dir m = join_path (join_path dir (kind_name (sm_kind m))) ''state.json''"

definition validate_restored ::
  "'s restore_io \<Rightarrow> (string \<Rightarrow> json option) \<Rightarrow> (string \<Rightarrow> string) \<Rightarrow> string \<Rightarrow> validated_snapshot
   \<Rightarrow> ('s, state_evidence) action" where
  "validate_restored io json_of sha dir v =
     (let m = vs_manifest v; path = state_file dir m
      in and_then (io_lstat io path) (\<lambda>stat.
         and_then (when_then (st_is_link stat \<or> \<not> st_is_file stat) (Thrown_Error ''not a plain file'')) (\<lambda>_.
         and_then (when_then (st_mode stat mod 512 \<noteq> 384) (Thrown_Error ''mode must be 0600'')) (\<lambda>_.
         and_then (io_read_file io path) (\<lambda>bytes.
         and_then (or_throw (parse_snapshot json_of bytes (sm_kind m))) (\<lambda>payload.
         and_then (assert_identity payload m) (\<lambda>_.
         and_then (when_then (sha bytes \<noteq> vs_sha256 v) (Thrown_Error ''restored digest differs'')) (\<lambda>_.
           ret \<lparr>ev_reconciled = True, ev_record_count = length (pl_records payload),
                ev_restored_sha256 = sha bytes, ev_source_sha256 = vs_sha256 v,
                ev_stable_id = pl_stable_id payload, ev_kind = pl_kind payload\<rparr>))))))))"

definition restore_snapshot :: "'s restore_io \<Rightarrow> string \<Rightarrow> validated_snapshot \<Rightarrow> ('s, unit) action" where
  "restore_snapshot io dir v =
     (let m = vs_manifest v
      in and_then (io_mkdir io (join_path dir (kind_name (sm_kind m)))) (\<lambda>_.
         and_then (io_write_file io (state_file dir m) (vs_bytes v)) (\<lambda>_.
           io_chmod io (state_file dir m) 384)))"

section \<open>Evidence\<close>

record restore_record =
  rd_finished_at :: int
  rd_step :: restore_step
  rd_summary :: string
  rd_started_at :: int
  rd_status :: step_status

datatype restore_event = Rehearsal_Planned | Rehearsal_Completed | Rehearsal_Failed

record restore_evidence_input =
  ei_candidate :: "int option"
  ei_dry_run :: bool
  ei_event :: restore_event
  ei_temp_dirs :: nat
  ei_rto :: "int option"
  ei_states :: "state_evidence list"
  ei_steps :: "restore_record list"

record restore_evidence =
  ve_input :: restore_evidence_input
  ve_within_candidate :: "bool option"
  ve_sensitive_matches :: nat
  ve_plan_hash :: string
  ve_restore_name :: string
  ve_run_id :: string

definition restore_evidence_of ::
  "(restore_evidence_input \<Rightarrow> restore_manifest \<Rightarrow> string) \<Rightarrow> restore_plan \<Rightarrow> restore_evidence_input
   \<Rightarrow> restore_evidence" where
  "restore_evidence_of serialize plan input =
     \<lparr>ve_input = input,
      ve_within_candidate = map_option (\<lambda>c. 0 \<le> c \<and> c \<le> 86400000) (ei_candidate input),
      ve_sensitive_matches = sensitive_matches (serialize input (sp_manifest plan)),
      ve_plan_hash = sp_hash plan, ve_restore_name = sp_name plan,
      ve_run_id = sr_run_id (sp_manifest plan)\<rparr>"

section \<open>The rehearsal\<close>

record 's restore_run =
  rr_world :: 's
  rr_records :: "restore_record list"
  rr_states :: "state_evidence list"
  rr_active :: "restore_step option"
  rr_candidate :: "int option"
  rr_dir :: "string option"
  rr_rto :: "int option"

definition on_world :: "('s, 'a) action \<Rightarrow> ('s restore_run, 'a) action" where
  "on_world act r = (let (s', x) = act (rr_world r) in (r\<lparr>rr_world := s'\<rparr>, x))"

definition find_step :: "restore_plan \<Rightarrow> restore_step \<Rightarrow> ('s, restore_step) action" where
  "find_step plan i =
     (if i \<in> set (sp_steps plan) then ret i else throw (Thrown_Error ''the plan lacks a step''))"

definition enter_step :: "restore_plan \<Rightarrow> restore_step \<Rightarrow> ('s restore_run, unit) action" where
  "enter_step plan i = and_then (find_step plan i) (\<lambda>i. modify (\<lambda>r. r\<lparr>rr_active := Some i\<rparr>))"

definition add_record :: "restore_step \<Rightarrow> int \<Rightarrow> int \<Rightarrow> step_status \<Rightarrow> string \<Rightarrow> ('s restore_run, unit) action" where
  "add_record i started finished status summary =
     modify (\<lambda>r. r\<lparr>rr_records := rr_records r @
       [\<lparr>rd_finished_at = finished, rd_step = i, rd_summary = summary,
         rd_started_at = started, rd_status = status\<rparr>]\<rparr>)"

definition complete_step :: "'s clock \<Rightarrow> restore_step \<Rightarrow> int \<Rightarrow> string \<Rightarrow> ('s restore_run, unit) action" where
  "complete_step now i started summary =
     and_then (on_world (tick now)) (\<lambda>finished. add_record i started finished Succeeded summary)"

text \<open>The phase up to the boundary of the restore, which it answers with the snapshots.\<close>

definition preflight_phase ::
  "'s restore_io \<Rightarrow> (string \<Rightarrow> json option) \<Rightarrow> (string \<Rightarrow> string) \<Rightarrow> 's clock \<Rightarrow> restore_plan
   \<Rightarrow> ('s restore_run, validated_snapshot list \<times> int) action" where
  "preflight_phase io json_of sha now plan =
     and_then (enter_step plan Snapshot_Preflight) (\<lambda>_.
     and_then (on_world (tick now)) (\<lambda>started.
     and_then (on_world (collect (validate_source io json_of sha) (sr_snapshots (sp_manifest plan)))) (\<lambda>snapshots.
     and_then (on_world (tick now)) (\<lambda>boundary.
     and_then (modify (\<lambda>r. r\<lparr>rr_candidate := Some (boundary - sr_captured_at (sp_manifest plan))\<rparr>)) (\<lambda>_.
     and_then (when_then (boundary - sr_captured_at (sp_manifest plan) < 0
         \<or> boundary - sr_captured_at (sp_manifest plan) > 86400000)
         (Thrown_Error ''candidate RPO over 24 hours'')) (\<lambda>_.
     and_then (add_record Snapshot_Preflight started boundary Succeeded ''three fixed snapshots verified'') (\<lambda>_.
       ret (snapshots, boundary))))))))"

definition restore_phase ::
  "'s restore_io \<Rightarrow> string \<Rightarrow> 's clock \<Rightarrow> restore_plan \<Rightarrow> validated_snapshot list \<Rightarrow> int
   \<Rightarrow> ('s restore_run, string) action" where
  "restore_phase io tmp now plan snapshots boundary =
     and_then (enter_step plan Restore) (\<lambda>_.
     and_then (on_world (io_mkdtemp io (join_path tmp (sp_name plan @ ''-'')))) (\<lambda>dir.
     and_then (modify (\<lambda>r. r\<lparr>rr_dir := Some dir\<rparr>)) (\<lambda>_.
     and_then (on_world (each (restore_snapshot io dir) snapshots)) (\<lambda>_.
     and_then (complete_step now Restore boundary ''three synthetic states restored'') (\<lambda>_.
       ret dir)))))"

definition startup_phase ::
  "'s restore_io \<Rightarrow> (string \<Rightarrow> json option) \<Rightarrow> (string \<Rightarrow> string) \<Rightarrow> (string \<Rightarrow> ('s, unit) action)
   \<Rightarrow> 's clock \<Rightarrow> restore_plan \<Rightarrow> validated_snapshot list \<Rightarrow> string \<Rightarrow> ('s restore_run, unit) action" where
  "startup_phase io json_of sha hook now plan snapshots dir =
     and_then (enter_step plan Startup_Gate) (\<lambda>_.
     and_then (on_world (tick now)) (\<lambda>started.
     and_then (on_world (hook dir)) (\<lambda>_.
     and_then (each (\<lambda>v. and_then (on_world (validate_restored io json_of sha dir v)) (\<lambda>e.
         modify (\<lambda>r. r\<lparr>rr_states := rr_states r @ [e]\<rparr>))) snapshots) (\<lambda>_.
       complete_step now Startup_Gate started ''synthetic startup gate passed''))))"

definition reconcile_phase ::
  "'s clock \<Rightarrow> restore_plan \<Rightarrow> int \<Rightarrow> ('s restore_run, unit) action" where
  "reconcile_phase now plan boundary =
     and_then (enter_step plan Reconciliation) (\<lambda>_.
     and_then (on_world (tick now)) (\<lambda>started.
     and_then (\<lambda>r. when_then (length (rr_states r) \<noteq> length (sr_snapshots (sp_manifest plan))
         \<or> list_ex (\<lambda>e. \<not> ev_reconciled e) (rr_states r)) (Thrown_Error ''states not reconciled'') r) (\<lambda>_.
     and_then (on_world (tick now)) (\<lambda>t.
     and_then (modify (\<lambda>r. r\<lparr>rr_rto := Some (t - boundary)\<rparr>)) (\<lambda>_.
     and_then (when_then (t - boundary > 900000) (Thrown_Error ''RTO over 15 minutes'')) (\<lambda>_.
       complete_step now Reconciliation started ''all state identities reconciled''))))))"

record 's restore_env =
  en_io :: "'s restore_io"
  en_json_of :: "string \<Rightarrow> json option"
  en_sha :: "string \<Rightarrow> string"
  en_serialize :: "restore_evidence_input \<Rightarrow> restore_manifest \<Rightarrow> string"
  en_tmp :: string
  en_hook :: "string \<Rightarrow> ('s, unit) action"
  en_now :: "'s clock"

definition rehearse :: "'s restore_env \<Rightarrow> restore_plan \<Rightarrow> ('s restore_run, unit) action" where
  "rehearse en plan =
     and_then (preflight_phase (en_io en) (en_json_of en) (en_sha en) (en_now en) plan) (\<lambda>(snapshots, boundary).
     and_then (restore_phase (en_io en) (en_tmp en) (en_now en) plan snapshots boundary) (\<lambda>dir.
     and_then (startup_phase (en_io en) (en_json_of en) (en_sha en) (en_hook en) (en_now en) plan snapshots dir) (\<lambda>_.
       reconcile_phase (en_now en) plan boundary)))"

text \<open>
  The \<open>catch\<close>: the active step gets a record. Its summary is \<open>safeSummary\<close> of what
  \<open>safeSummary\<close> already made a text, and a text is not an \<open>Error\<close>.
\<close>

definition failed_summary :: "thrown \<Rightarrow> string" where
  "failed_summary e =
     (let text = restore_summary (error_text ''unknown error'' e)
      in restore_summary (error_text ''unknown error'' Thrown_Other))"

definition record_failure :: "'s clock \<Rightarrow> thrown \<Rightarrow> 's restore_run \<Rightarrow> 's restore_run" where
  "record_failure now e r =
     (case rr_active r of
        None \<Rightarrow> r
      | Some i \<Rightarrow>
          fst (and_then (on_world (tick now)) (\<lambda>t. add_record i t t Failed (failed_summary e)) r))"

definition path_exists :: "'s restore_io \<Rightarrow> string \<Rightarrow> 's \<Rightarrow> 's \<times> bool" where
  "path_exists io path s =
     (case io_lstat io path s of (s', Inr _) \<Rightarrow> (s', True) | (s', Inl _) \<Rightarrow> (s', False))"

text \<open>\<open>cleanupRestore\<close>: what failed, the record, and the temporary directories left behind.\<close>

definition cleanup_restore ::
  "'s restore_io \<Rightarrow> 's clock \<Rightarrow> string option \<Rightarrow> 's \<Rightarrow> 's \<times> thrown option \<times> restore_record \<times> nat" where
  "cleanup_restore io now dir s =
     (let (s1, started) = now s;
          (s2, failure) = (case dir of
              None \<Rightarrow> (s1, None)
            | Some d \<Rightarrow> (case io_rm io d s1 of (s', Inl e) \<Rightarrow> (s', Some e) | (s', Inr _) \<Rightarrow> (s', None)));
          (s3, left) = (case dir of None \<Rightarrow> (s2, False) | Some d \<Rightarrow> path_exists io d s2);
          failure' = (if left \<and> failure = None then Some (Thrown_Error ''directory not removed'') else failure);
          (s4, finished) = now s3
      in (s4, failure',
          \<lparr>rd_finished_at = finished, rd_step = Cleanup,
           rd_summary = (case failure' of None \<Rightarrow> ''temporary restore directory removed''
             | Some e \<Rightarrow> restore_summary (error_text ''unknown error'' e)),
           rd_started_at = started,
           rd_status = (if failure' = None then Succeeded else Failed)\<rparr>,
          if left then 1 else 0))"

datatype restore_failure =
    Restore_Not_Confirmed
  | Restore_Plan_Broken thrown
  | Restore_Failed string restore_evidence

definition planned_evidence :: "'s restore_env \<Rightarrow> restore_plan \<Rightarrow> int \<Rightarrow> restore_evidence" where
  "planned_evidence en plan t =
     restore_evidence_of (en_serialize en) plan
       \<lparr>ei_candidate = None, ei_dry_run = True, ei_event = Rehearsal_Planned, ei_temp_dirs = 0,
        ei_rto = None, ei_states = [],
        ei_steps = map (\<lambda>i. \<lparr>rd_finished_at = t, rd_step = i,
          rd_summary = ''dry-run: zero filesystem and external side effects'',
          rd_started_at = t, rd_status = Planned\<rparr>) (sp_steps plan)\<rparr>"

definition start_run :: "'s \<Rightarrow> 's restore_run" where
  "start_run s = \<lparr>rr_world = s, rr_records = [], rr_states = [], rr_active = None,
     rr_candidate = None, rr_dir = None, rr_rto = None\<rparr>"

text \<open>The run with its \<open>catch\<close>, and what was caught.\<close>

definition run_and_catch :: "'s restore_env \<Rightarrow> restore_plan \<Rightarrow> 's \<Rightarrow> 's restore_run \<times> thrown option" where
  "run_and_catch en plan s =
     (case rehearse en plan (start_run s) of
        (r, Inr _) \<Rightarrow> (r, None)
      | (r, Inl e) \<Rightarrow> (record_failure (en_now en) e r, Some e))"

definition execute_restore ::
  "'s restore_env \<Rightarrow> bool \<Rightarrow> string option \<Rightarrow> restore_plan \<Rightarrow> 's \<Rightarrow> 's \<times> (restore_failure + restore_evidence)" where
  "execute_restore en dry confirm plan s =
     (if dry then (let (s1, t) = en_now en s in (s1, Inr (planned_evidence en plan t)))
      else if confirm \<noteq> Some (sp_hash plan) then (s, Inl Restore_Not_Confirmed)
      else
        let (r, failure) = run_and_catch en plan s
        in if Cleanup \<notin> set (sp_steps plan) then
             (rr_world r, Inl (Restore_Plan_Broken (Thrown_Error ''the plan lacks a step'')))
           else
             let (s', cfailure, crecord, left) = cleanup_restore (en_io en) (en_now en) (rr_dir r) (rr_world r);
                 failure' = (if failure = None then cfailure else failure);
                 ev = restore_evidence_of (en_serialize en) plan
                   \<lparr>ei_candidate = rr_candidate r, ei_dry_run = False,
                    ei_event = (if failure' = None then Rehearsal_Completed else Rehearsal_Failed),
                    ei_temp_dirs = left, ei_rto = rr_rto r, ei_states = rr_states r,
                    ei_steps = rr_records r @ [crecord]\<rparr>
             in case failure' of
                  None \<Rightarrow> (s', Inr ev)
                | Some e \<Rightarrow> (s', Inl (Restore_Failed (restore_summary (error_text ''unknown error'' e)) ev)))"

section \<open>What a completed rehearsal has shown\<close>

lemma on_world_result:
  "on_world act r = (r', x) \<longleftrightarrow> (\<exists>s'. act (rr_world r) = (s', x) \<and> r' = r\<lparr>rr_world := s'\<rparr>)"
  by (auto simp: on_world_def split: prod.splits)

lemma find_step_Inr: "find_step plan i s = (s', Inr j) \<longleftrightarrow> s' = s \<and> j = i \<and> i \<in> set (sp_steps plan)"
  by (auto simp: find_step_def action_results)

lemma or_throw_Inr: "or_throw c s = (s', Inr x) \<longleftrightarrow> s' = s \<and> c = Inr x"
  by (auto simp: or_throw_def action_results split: sum.splits)

lemmas rehearsal_results = action_results when_then_Inr modify_result on_world_result find_step_Inr

definition reconciles :: "snapshot_manifest \<Rightarrow> state_evidence \<Rightarrow> bool" where
  "reconciles m e =
     (ev_reconciled e \<and> ev_kind e = sm_kind m \<and> ev_stable_id e = sm_stable_id m
      \<and> ev_record_count e = sm_record_count m
      \<and> ev_restored_sha256 e = sm_sha256 m \<and> ev_source_sha256 e = sm_sha256 m)"

definition verified :: "snapshot_manifest \<Rightarrow> validated_snapshot \<Rightarrow> bool" where
  "verified m v = (vs_manifest v = m \<and> vs_sha256 v = sm_sha256 m)"

lemma validate_source_verified:
  "validate_source io json_of sha m s = (s', Inr v) \<Longrightarrow> verified m v"
  by (auto simp: validate_source_def verified_def Let_def rehearsal_results)

lemma validate_restored_reconciles:
  assumes "validate_restored io json_of sha dir v s = (s', Inr e)" and "verified m v"
  shows "reconciles m e"
  using assms
  by (auto simp: validate_restored_def verified_def reconciles_def Let_def rehearsal_results
      assert_identity_def or_throw_Inr)

definition step_done :: "restore_record \<Rightarrow> restore_step \<Rightarrow> bool" where
  "step_done d i = (rd_step d = i \<and> rd_status d = Succeeded)"

lemma preflight_phase_result:
  assumes "preflight_phase io json_of sha now plan r = (r', Inr (snapshots, boundary))"
  shows "list_all2 verified (sr_snapshots (sp_manifest plan)) snapshots
    \<and> rr_candidate r' = Some (boundary - sr_captured_at (sp_manifest plan))
    \<and> 0 \<le> boundary - sr_captured_at (sp_manifest plan)
    \<and> boundary - sr_captured_at (sp_manifest plan) \<le> 86400000
    \<and> rr_states r' = rr_states r
    \<and> (\<exists>d. rr_records r' = rr_records r @ [d] \<and> step_done d Snapshot_Preflight)"
  using assms
  by (auto simp: preflight_phase_def enter_step_def add_record_def step_done_def rehearsal_results
      dest: collect_list_all2 [where P = verified, OF _ validate_source_verified])

lemma restore_phase_result:
  assumes "restore_phase io tmp now plan snapshots boundary r = (r', Inr dir)"
  shows "rr_candidate r' = rr_candidate r \<and> rr_states r' = rr_states r
    \<and> (\<exists>d. rr_records r' = rr_records r @ [d] \<and> step_done d Restore)"
  using assms
  by (auto simp: restore_phase_def enter_step_def complete_step_def add_record_def step_done_def rehearsal_results)

lemma read_back_states:
  assumes "each (\<lambda>v. and_then (on_world (validate_restored io json_of sha dir v)) (\<lambda>e.
         modify (\<lambda>r. r\<lparr>rr_states := rr_states r @ [e]\<rparr>))) snapshots r = (r', Inr u)"
    and "list_all2 verified ms snapshots"
  shows "(\<exists>es. rr_states r' = rr_states r @ es \<and> list_all2 reconciles ms es)
    \<and> rr_records r' = rr_records r \<and> rr_candidate r' = rr_candidate r"
  using assms
proof (induction snapshots arbitrary: r ms)
  case (Cons v vs)
  from Cons.prems(2) obtain m ms' where ms: "ms = m # ms'" "verified m v" "list_all2 verified ms' vs"
    by (auto simp: list_all2_Cons2)
  obtain s' e where read: "validate_restored io json_of sha dir v (rr_world r) = (s', Inr e)"
    and rest: "each (\<lambda>v. and_then (on_world (validate_restored io json_of sha dir v)) (\<lambda>e.
         modify (\<lambda>r. r\<lparr>rr_states := rr_states r @ [e]\<rparr>))) vs
       (r\<lparr>rr_world := s', rr_states := rr_states r @ [e]\<rparr>) = (r', Inr u)"
    using Cons.prems(1) by (auto simp: rehearsal_results)
  from Cons.IH [OF rest ms(3)] validate_restored_reconciles [OF read ms(2)] ms(1) show ?case
    by auto
qed (auto simp: ret_def)

lemma startup_phase_result:
  assumes "startup_phase io json_of sha hook now plan snapshots dir r = (r', Inr u)"
    and "list_all2 verified ms snapshots"
  shows "(\<exists>es. rr_states r' = rr_states r @ es \<and> list_all2 reconciles ms es)
    \<and> rr_candidate r' = rr_candidate r
    \<and> (\<exists>d. rr_records r' = rr_records r @ [d] \<and> step_done d Startup_Gate)"
  using assms
  by (fastforce simp: startup_phase_def enter_step_def complete_step_def add_record_def step_done_def
      rehearsal_results dest: read_back_states)

lemma reconcile_phase_result:
  assumes "reconcile_phase now plan boundary r = (r', Inr u)"
  shows "rr_states r' = rr_states r \<and> rr_candidate r' = rr_candidate r
    \<and> (\<exists>t. rr_rto r' = Some t \<and> t \<le> 900000)
    \<and> (\<exists>d. rr_records r' = rr_records r @ [d] \<and> step_done d Reconciliation)"
  using assms
  by (auto simp: reconcile_phase_def enter_step_def complete_step_def add_record_def step_done_def
      rehearsal_results)

lemma rehearse_result:
  assumes "rehearse en plan (start_run s) = (r, Inr u)"
  shows "list_all2 reconciles (sr_snapshots (sp_manifest plan)) (rr_states r)
    \<and> (\<exists>c. rr_candidate r = Some c \<and> 0 \<le> c \<and> c \<le> 86400000)
    \<and> (\<exists>t. rr_rto r = Some t \<and> t \<le> 900000)
    \<and> list_all2 step_done (rr_records r) [Snapshot_Preflight, Restore, Startup_Gate, Reconciliation]"
proof -
  obtain r1 snapshots boundary r2 dir r3 where phases:
    "preflight_phase (en_io en) (en_json_of en) (en_sha en) (en_now en) plan (start_run s) = (r1, Inr (snapshots, boundary))"
    "restore_phase (en_io en) (en_tmp en) (en_now en) plan snapshots boundary r1 = (r2, Inr dir)"
    "startup_phase (en_io en) (en_json_of en) (en_sha en) (en_hook en) (en_now en) plan snapshots dir r2 = (r3, Inr ())"
    "reconcile_phase (en_now en) plan boundary r3 = (r, Inr u)"
    using assms by (auto simp: rehearse_def and_then_Inr)
  note first = preflight_phase_result [OF phases(1)]
  note third = startup_phase_result [OF phases(3) conjunct1 [OF first]]
  show ?thesis
    using first restore_phase_result [OF phases(2)] third reconcile_phase_result [OF phases(4)]
    by (auto simp: start_run_def)
qed

lemma cleanup_restore_result:
  assumes "cleanup_restore io now dir s = (s', failure, d, left)"
  shows "rd_step d = Cleanup \<and> rd_status d = (if failure = None then Succeeded else Failed)
    \<and> (failure = None \<longrightarrow> left = 0)"
  using assms
  by (auto simp: cleanup_restore_def Let_def split: prod.splits option.splits if_splits)

text \<open>For any file operations, clock and hook, which may all fail or do anything, a rehearsal
  that reports completion was confirmed with the hash of its plan and reports the truth: for each
  snapshot of the manifest, in order, the file read back has the kind, the stable id, the number
  of records and the digest the manifest names; the candidate recovery point is between 0 and 24
  hours old, the recovery took at most 15 minutes, all five steps succeeded in order and no
  temporary directory is left.\<close>

lemma completed_restore_is_true:
  assumes "execute_restore en False confirm plan s = (s', Inr ev)"
  shows "confirm = Some (sp_hash plan)
    \<and> list_all2 reconciles (sr_snapshots (sp_manifest plan)) (ei_states (ve_input ev))
    \<and> (\<exists>c. ei_candidate (ve_input ev) = Some c \<and> 0 \<le> c \<and> c \<le> 86400000)
    \<and> ve_within_candidate ev = Some True
    \<and> (\<exists>t. ei_rto (ve_input ev) = Some t \<and> t \<le> 900000)
    \<and> list_all2 step_done (ei_steps (ve_input ev))
        [Snapshot_Preflight, Restore, Startup_Gate, Reconciliation, Cleanup]
    \<and> ei_temp_dirs (ve_input ev) = 0 \<and> ei_event (ve_input ev) = Rehearsal_Completed"
proof -
  have confirm: "confirm = Some (sp_hash plan)" and cleanup: "Cleanup \<in> set (sp_steps plan)"
    using assms by (auto simp: execute_restore_def split: prod.splits if_splits)
  obtain r f where run: "run_and_catch en plan s = (r, f)" by fastforce
  obtain s1 cf d left where clean:
      "cleanup_restore (en_io en) (en_now en) (rr_dir r) (rr_world r) = (s1, cf, d, left)"
    by (metis prod_cases4)
  from assms have "f = None" "cf = None"
    by (auto simp: execute_restore_def confirm cleanup run clean Let_def split: option.splits if_splits)
  with run have "rehearse en plan (start_run s) = (r, Inr ())"
    by (auto simp: run_and_catch_def split: prod.splits sum.splits)
  from rehearse_result [OF this] cleanup_restore_result [OF clean] show ?thesis
    using assms
    by (auto simp: execute_restore_def confirm cleanup run clean \<open>f = None\<close> \<open>cf = None\<close> Let_def
        restore_evidence_of_def step_done_def list_all2_append1 list_all2_Cons2)
qed

section \<open>Failures\<close>

text \<open>A failure the records hold has the summary of an unknown error.\<close>

definition reasons_unknown :: "restore_record list \<Rightarrow> bool" where
  "reasons_unknown ds = list_all (\<lambda>d. rd_status d \<noteq> Failed \<or> rd_summary d = ''unknown error'') ds"

lemma keeps_on_world: "keeps (\<lambda>r. reasons_unknown (rr_records r)) (on_world act)"
  by (auto simp: keeps_def on_world_def split: prod.splits)

lemma keeps_add_record:
  "st \<noteq> Failed \<Longrightarrow> keeps (\<lambda>r. reasons_unknown (rr_records r)) (add_record i a b st x)"
  by (auto simp: keeps_def add_record_def modify_def reasons_unknown_def)

lemma keeps_enter_step: "keeps (\<lambda>r. reasons_unknown (rr_records r)) (enter_step plan i)"
  unfolding enter_step_def find_step_def
  by (auto intro!: keeps_intros)

lemma rehearse_reasons: "keeps (\<lambda>r. reasons_unknown (rr_records r)) (rehearse en plan)"
  unfolding rehearse_def preflight_phase_def restore_phase_def startup_phase_def reconcile_phase_def
    complete_step_def
  by (intro keeps_intros keeps_on_world keeps_add_record keeps_enter_step)
    (auto intro: keepsI simp: when_then_def ret_def throw_def)

lemma failed_summary_unknown: "failed_summary e = ''unknown error''"
proof -
  have "restore_summary ''unknown error'' = ''unknown error''" by code_simp
  then show ?thesis by (simp add: failed_summary_def)
qed

lemma record_failure_reasons:
  "reasons_unknown (rr_records r) \<Longrightarrow> reasons_unknown (rr_records (record_failure now e r))"
  by (auto simp: record_failure_def and_then_def on_world_def tick_def add_record_def modify_def
      reasons_unknown_def failed_summary_unknown split: option.splits prod.splits)

lemma reasons_start: "reasons_unknown (rr_records (start_run s))"
  by (simp add: start_run_def reasons_unknown_def)

lemma run_and_catch_reasons: "run_and_catch en plan s = (r, f) \<Longrightarrow> reasons_unknown (rr_records r)"
  using keepsD [OF rehearse_reasons, of "start_run s" en plan] reasons_start [of s]
  by (auto simp: run_and_catch_def intro: record_failure_reasons split: prod.splits sum.splits)

text \<open>Whatever goes wrong in a rehearsal, the evidence it fails with does not say what: every
  record of a failed step but the one of the cleanup has the summary ''unknown error'', since the
  redacted text of the error is redacted a second time as if it were the error.\<close>

lemma failed_restore_hides_the_reason:
  assumes "execute_restore en dry confirm plan s = (s', Inl (Restore_Failed message ev))"
  shows "reasons_unknown (butlast (ei_steps (ve_input ev)))
    \<and> ei_event (ve_input ev) = Rehearsal_Failed"
proof -
  have go: "\<not> dry" "confirm = Some (sp_hash plan)" "Cleanup \<in> set (sp_steps plan)"
    using assms by (auto simp: execute_restore_def split: prod.splits if_splits)
  obtain r f where run: "run_and_catch en plan s = (r, f)" by fastforce
  obtain s1 cf d left where clean:
      "cleanup_restore (en_io en) (en_now en) (rr_dir r) (rr_world r) = (s1, cf, d, left)"
    by (metis prod_cases4)
  from assms run_and_catch_reasons [OF run] show ?thesis
    by (auto simp: execute_restore_def go run clean Let_def restore_evidence_of_def
        split: option.splits if_splits)
qed

section \<open>A file system\<close>

text \<open>
  The operations of \<open>node:fs\<close> the rehearsal is given by default (\<open>stateRestoreIo\<close>), over
  a map from paths to files and directories, beside a clock of its own. The name \<open>mkdtemp\<close>
  makes up is the argument \<open>fresh\<close>.
\<close>

record fs_node =
  fn_mode :: nat
  fn_content :: "string option"
  fn_link :: bool

type_synonym files = "string \<Rightarrow> fs_node option"
type_synonym host = "files \<times> int"

definition under :: "string \<Rightarrow> string \<Rightarrow> bool" where
  "under d p = (p = d \<or> starts_with (d @ ''/'') p)"

definition parent_dir :: "string \<Rightarrow> string" where
  "parent_dir p = rev (drop 1 (dropWhile (\<lambda>c. c \<noteq> CHR ''/'') (rev p)))"

definition is_directory :: "fs_node option \<Rightarrow> bool" where
  "is_directory n = (case n of None \<Rightarrow> False | Some x \<Rightarrow> fn_content x = None)"

definition fs_create :: "string \<Rightarrow> fs_node \<Rightarrow> (host, unit) action" where
  "fs_create p n h =
     (if fst h p \<noteq> None then (h, Inl (Thrown_Error ''EEXIST''))
      else if \<not> is_directory (fst h (parent_dir p)) then (h, Inl (Thrown_Error ''ENOENT''))
      else (((fst h)(p \<mapsto> n), snd h), Inr ()))"

definition fs_io :: "(files \<Rightarrow> string \<Rightarrow> string) \<Rightarrow> string \<Rightarrow> host restore_io" where
  "fs_io fresh repository =
     \<lparr>io_chmod = (\<lambda>p m h. case fst h p of
          None \<Rightarrow> (h, Inl (Thrown_Error ''ENOENT''))
        | Some n \<Rightarrow> (((fst h)(p \<mapsto> n\<lparr>fn_mode := m\<rparr>), snd h), Inr ())),
      io_lstat = (\<lambda>p h. case fst h p of
          None \<Rightarrow> (h, Inl (Thrown_Error ''ENOENT''))
        | Some n \<Rightarrow> (h, Inr \<lparr>st_mode = fn_mode n,
            st_size = (case fn_content n of None \<Rightarrow> 0 | Some c \<Rightarrow> int (length c)),
            st_is_file = (fn_content n \<noteq> None \<and> \<not> fn_link n), st_is_link = fn_link n\<rparr>)),
      io_mkdir = (\<lambda>p. fs_create p \<lparr>fn_mode = 448, fn_content = None, fn_link = False\<rparr>),
      io_mkdtemp = (\<lambda>prefix h. (((fst h)(fresh (fst h) prefix \<mapsto>
            \<lparr>fn_mode = 448, fn_content = None, fn_link = False\<rparr>), snd h), Inr (fresh (fst h) prefix))),
      io_read_file = (\<lambda>p h. case fst h p of
          None \<Rightarrow> (h, Inl (Thrown_Error ''ENOENT''))
        | Some n \<Rightarrow> (case fn_content n of
              None \<Rightarrow> (h, Inl (Thrown_Error ''EISDIR'')) | Some c \<Rightarrow> (h, Inr c))),
      io_resolve = join_path repository,
      io_rm = (\<lambda>d h. ((\<lambda>p. if under d p then None else fst h p, snd h), Inr ())),
      io_write_file = (\<lambda>p c. fs_create p \<lparr>fn_mode = 384, fn_content = Some c, fn_link = False\<rparr>)\<rparr>"

definition host_now :: "host clock" where
  "host_now h = ((fst h, snd h + 1), snd h)"

section \<open>The rehearsal leaves no trace\<close>

definition outside_same :: "files \<Rightarrow> string \<Rightarrow> host \<Rightarrow> bool" where
  "outside_same fs d h = (\<forall>p. \<not> under d p \<longrightarrow> fst h p = fs p)"

definition untouched :: "files \<Rightarrow> host restore_run \<Rightarrow> bool" where
  "untouched fs r = (rr_dir r = None \<and> fst (rr_world r) = fs)"

definition contained :: "files \<Rightarrow> string \<Rightarrow> host restore_run \<Rightarrow> bool" where
  "contained fs d r = (rr_dir r = Some d \<and> outside_same fs d (rr_world r))"

lemma under_join: "under d (join_path d p)" "under d (join_path (join_path d p) q)"
  by (simp_all add: under_def join_path_def starts_with_def)

lemma fs_create_outside: "under d p \<Longrightarrow> keeps (outside_same fs d) (fs_create p n)"
  by (auto simp: keeps_def outside_same_def fs_create_def)

lemma fs_chmod_outside: "under d p \<Longrightarrow> keeps (outside_same fs d) (io_chmod (fs_io fresh repo) p m)"
  by (auto simp: keeps_def outside_same_def fs_io_def split: option.splits)

lemma fs_reads: "fst (io_lstat (fs_io fresh repo) p h) = h" "fst (io_read_file (fs_io fresh repo) p h) = h"
  by (auto simp: fs_io_def split: option.splits)

lemma keeps_reads [keeps_intros]:
  "keeps P (io_lstat (fs_io fresh repo) p)" "keeps P (io_read_file (fs_io fresh repo) p)"
  by (simp_all add: keeps_def fs_reads)

lemma keeps_or_throw [keeps_intros]: "keeps P (or_throw c)"
  by (auto simp: or_throw_def keeps_ret keeps_throw split: sum.split)

lemma keeps_validate_source: "keeps P (validate_source (fs_io fresh repo) json_of sha m)"
  unfolding validate_source_def assert_identity_def Let_def by (intro keeps_intros)

lemma keeps_validate_restored: "keeps P (validate_restored (fs_io fresh repo) json_of sha dir v)"
  unfolding validate_restored_def assert_identity_def Let_def by (intro keeps_intros)

lemma restore_snapshot_outside: "keeps (outside_same fs d) (restore_snapshot (fs_io fresh repo) d v)"
  unfolding restore_snapshot_def Let_def state_file_def
  by (intro keeps_intros fs_chmod_outside under_join)
    (simp_all add: fs_io_def fs_create_outside under_join)

lemma host_now_files: "fst (fst (host_now h)) = fst h"
  by (simp add: host_now_def)

lemma on_world_untouched:
  assumes "keeps (\<lambda>h. fst h = fs) act"
  shows "keeps (untouched fs) (on_world act)"
proof (rule keepsI)
  fix r :: "host restore_run"
  assume "untouched fs r"
  with keepsD [OF assms, of "rr_world r"] show "untouched fs (fst (on_world act r))"
    by (cases "act (rr_world r)") (simp add: untouched_def on_world_def)
qed

lemma on_world_contained:
  assumes "keeps (outside_same fs d) act"
  shows "keeps (contained fs d) (on_world act)"
proof (rule keepsI)
  fix r :: "host restore_run"
  assume "contained fs d r"
  with keepsD [OF assms, of "rr_world r"] show "contained fs d (fst (on_world act r))"
    by (cases "act (rr_world r)") (simp add: contained_def on_world_def)
qed

lemma keeps_tick: "keeps (untouched fs) (on_world (tick host_now))"
    "keeps (contained fs d) (on_world (tick host_now))"
  by (auto simp: keeps_def untouched_def contained_def outside_same_def on_world_def tick_def host_now_def)

lemma keeps_bookkeeping:
  "keeps (untouched fs) (enter_step plan i)" "keeps (contained fs d) (enter_step plan i)"
  "keeps (untouched fs) (add_record i a b st x)" "keeps (contained fs d) (add_record i a b st x)"
  unfolding enter_step_def find_step_def add_record_def
  by (auto intro!: keeps_intros simp: untouched_def contained_def)

lemma preflight_untouched:
  "keeps (untouched fs) (preflight_phase (fs_io fresh repo) json_of sha host_now plan)"
  unfolding preflight_phase_def
  by (intro keeps_intros keeps_bookkeeping keeps_tick on_world_untouched keeps_validate_source)
    (simp add: untouched_def)

lemma complete_step_contained: "keeps (contained fs d) (complete_step host_now i a x)"
  unfolding complete_step_def by (intro keeps_intros keeps_bookkeeping keeps_tick)

lemma mkdtemp_fresh:
  "on_world (io_mkdtemp (fs_io fresh repo) prefix) r =
     (r\<lparr>rr_world := ((fst (rr_world r))(fresh (fst (rr_world r)) prefix \<mapsto>
        \<lparr>fn_mode = 448, fn_content = None, fn_link = False\<rparr>), snd (rr_world r))\<rparr>,
      Inr (fresh (fst (rr_world r)) prefix))"
  by (simp add: on_world_def fs_io_def)

lemma restore_phase_contained:
  assumes "untouched fs r"
    and "restore_phase (fs_io fresh repo) tmp host_now plan snapshots boundary r = (r', x)"
    and "d = fresh fs (join_path tmp (sp_name plan @ ''-''))"
  shows "(untouched fs r' \<and> (\<exists>e. x = Inl e)) \<or> (contained fs d r' \<and> x \<in> range Inl \<union> {Inr d})"
proof -
  obtain r1 y where enter: "enter_step plan Restore r = (r1, y)" by fastforce
  with assms(1) have r1: "untouched fs r1"
    using keepsD [OF keeps_bookkeeping(1), of fs r plan Restore] by simp
  show ?thesis
  proof (cases y)
    case (Inl e)
    then show ?thesis using assms(2) enter r1 by (auto simp: restore_phase_def and_then_def)
  next
    case (Inr u)
    define r2 where "r2 = r1\<lparr>rr_world := ((fst (rr_world r1))(d \<mapsto>
        \<lparr>fn_mode = 448, fn_content = None, fn_link = False\<rparr>), snd (rr_world r1)), rr_dir := Some d\<rparr>"
    define rest where "rest = and_then (on_world (each (restore_snapshot (fs_io fresh repo) d) snapshots)) (\<lambda>_.
        and_then (complete_step host_now Restore boundary ''three synthetic states restored'') (\<lambda>_. ret d))"
    have same: "fst (rr_world r1) = fs" using r1 by (simp add: untouched_def)
    have "restore_phase (fs_io fresh repo) tmp host_now plan snapshots boundary r = rest r2"
      by (simp add: restore_phase_def and_then_def [of "enter_step plan Restore"]
          and_then_def [of "on_world (io_mkdtemp io p)" for io p] and_then_def [of "modify f" for f]
          enter Inr mkdtemp_fresh same assms(3) modify_def r2_def rest_def)
    moreover have "contained fs d r2"
      using same by (simp add: contained_def outside_same_def r2_def under_def)
    moreover have "keeps (contained fs d) rest"
      unfolding rest_def
      by (intro keeps_intros on_world_contained restore_snapshot_outside complete_step_contained)
    moreover have "rest r2 = (r', x) \<Longrightarrow> x \<in> range Inl \<union> {Inr d}"
      by (auto simp: rest_def and_then_def ret_def split: prod.splits sum.splits)
    moreover have "fst (rest r2) = r'" if "rest r2 = (r', x)" using that by simp
    ultimately show ?thesis
      using assms(2) keepsD [of "contained fs d" rest r2] by auto
  qed
qed

lemma startup_contained:
  assumes "keeps (outside_same fs d) (hook d)"
  shows "keeps (contained fs d) (startup_phase (fs_io fresh repo) json_of sha hook host_now plan snapshots d)"
  unfolding startup_phase_def
  by (intro keeps_intros keeps_bookkeeping keeps_tick complete_step_contained on_world_contained assms
      keeps_validate_restored)
    (simp add: contained_def)

lemma reconcile_contained: "keeps (contained fs d) (reconcile_phase host_now plan boundary)"
  unfolding reconcile_phase_def
  by (intro keeps_intros keeps_bookkeeping keeps_tick complete_step_contained)
    (auto intro: keepsI simp: when_then_def ret_def throw_def contained_def)

text \<open>A host with the file system, a hook, and the other arguments of the function.\<close>

definition host_env ::
  "(files \<Rightarrow> string \<Rightarrow> string) \<Rightarrow> string \<Rightarrow> string \<Rightarrow> (string \<Rightarrow> json option) \<Rightarrow> (string \<Rightarrow> string)
   \<Rightarrow> (restore_evidence_input \<Rightarrow> restore_manifest \<Rightarrow> string) \<Rightarrow> (string \<Rightarrow> (host, unit) action) \<Rightarrow> host restore_env" where
  "host_env fresh repo tmp json_of sha serialize hook =
     \<lparr>en_io = fs_io fresh repo, en_json_of = json_of, en_sha = sha, en_serialize = serialize,
      en_tmp = tmp, en_hook = hook, en_now = host_now\<rparr>"

lemma rehearse_contained:
  assumes "keeps (outside_same fs d) (hook d)"
    and "d = fresh fs (join_path tmp (sp_name plan @ ''-''))"
    and "rehearse (host_env fresh repo tmp json_of sha serialize hook) plan (start_run (fs, t)) = (r, x)"
  shows "untouched fs r \<or> contained fs d r"
proof -
  let ?pre = "preflight_phase (fs_io fresh repo) json_of sha host_now plan"
  obtain r1 y where pre: "?pre (start_run (fs, t)) = (r1, y)" by fastforce
  then have r1: "untouched fs r1"
    using keepsD [OF preflight_untouched, of fs "start_run (fs, t)" fresh repo json_of sha plan]
    by (simp add: untouched_def start_run_def)
  show ?thesis
  proof (cases y)
    case (Inl e)
    then show ?thesis using assms(3) pre r1 by (simp add: rehearse_def host_env_def and_then_def)
  next
    case (Inr sb)
    obtain snapshots boundary where sb: "sb = (snapshots, boundary)" by fastforce
    obtain r2 z where mid: "restore_phase (fs_io fresh repo) tmp host_now plan snapshots boundary r1 = (r2, z)"
      by fastforce
    from restore_phase_contained [OF r1 mid assms(2)] show ?thesis
    proof (elim disjE conjE)
      assume "untouched fs r2" "\<exists>e. z = Inl e"
      then show ?thesis using assms(3) pre Inr sb mid by (auto simp: rehearse_def host_env_def and_then_def)
    next
      assume r2: "contained fs d r2" and z: "z \<in> range Inl \<union> {Inr d}"
      let ?rest = "and_then (startup_phase (fs_io fresh repo) json_of sha hook host_now plan snapshots d)
        (\<lambda>_. reconcile_phase host_now plan boundary)"
      have "keeps (contained fs d) ?rest"
        by (intro keeps_intros startup_contained reconcile_contained assms(1))
      from keepsD [OF this r2] r2 z show ?thesis
        using assms(3) pre Inr sb mid by (auto simp: rehearse_def host_env_def and_then_def)
    qed
  qed
qed

lemma record_failure_world:
  "rr_dir (record_failure now e r) = rr_dir r"
  "fst (rr_world (record_failure host_now e r)) = fst (rr_world r)"
  by (auto simp: record_failure_def and_then_def on_world_def tick_def add_record_def modify_def
      host_now_def split: option.splits prod.splits)

lemma fs_cleanup:
  assumes "cleanup_restore (fs_io fresh repo) host_now dir h = (h', cf, rec, left)"
    and "case dir of None \<Rightarrow> fst h = fs | Some d \<Rightarrow> outside_same fs d h \<and> (\<forall>p. under d p \<longrightarrow> fs p = None)"
  shows "fst h' = fs \<and> cf = None \<and> left = 0"
  using assms
  by (auto simp: cleanup_restore_def host_now_def fs_io_def path_exists_def outside_same_def under_def
      split: option.splits if_splits)


section \<open>A small host\<close>

definition sample_snapshot :: "state_kind \<Rightarrow> snapshot_manifest" where
  "sample_snapshot kind =
     \<lparr>sm_path = snapshot_path kind, sm_record_count = 0, sm_sha256 = ''h'' @ kind_name kind,
      sm_snapshot_id = ''snap-1'', sm_stable_id = ''stable'', sm_kind = kind\<rparr>"

definition sample_restore_manifest :: restore_manifest where
  "sample_restore_manifest =
     \<lparr>sr_captured_at = 0, sr_run_id = ''run-1'', sr_snapshots = map sample_snapshot state_kinds,
      sr_source_commit = ''c''\<rparr>"

definition sample_json :: "string \<Rightarrow> json option" where
  "sample_json s = Some (JObj [(''records'', JArr []), (''schemaVersion'', JNum 1),
     (''stableId'', JStr ''stable''), (''stateKind'', JStr s)])"

definition sample_paths :: "(string \<times> string option) list" where
  "sample_paths = (''/tmp'', None) # map (\<lambda>k. (''/r/'' @ snapshot_path k, Some (kind_name k))) state_kinds"

definition sample_files :: files where
  "sample_files p =
     (case map_of sample_paths p of
        None \<Rightarrow> None
      | Some c \<Rightarrow> Some \<lparr>fn_mode = 384, fn_content = c, fn_link = False\<rparr>)"

definition sample_plan :: restore_plan where
  "sample_plan = build_restore_plan (\<lambda>_ _ _. ''h'') sample_restore_manifest"

text \<open>File operations of a host whose state is whether the temporary directory is there: every
  file holds the name of its own directory.\<close>

definition small_io :: "bool restore_io" where
  "small_io =
     \<lparr>io_chmod = (\<lambda>_ _. ret ()),
      io_lstat = (\<lambda>p h. if p = ''t'' \<and> \<not> h then (h, Inl (Thrown_Error ''ENOENT''))
         else (h, Inr \<lparr>st_mode = 384, st_size = 9, st_is_file = True, st_is_link = False\<rparr>)),
      io_mkdir = (\<lambda>_. ret ()),
      io_mkdtemp = (\<lambda>_ _. (True, Inr ''t'')),
      io_read_file = (\<lambda>p. ret (rev (takeWhile (\<lambda>c. c \<noteq> CHR ''/'') (drop 11 (rev p))))),
      io_resolve = (\<lambda>p. p),
      io_rm = (\<lambda>_ _. (False, Inr ())),
      io_write_file = (\<lambda>_ _. ret ())\<rparr>"

definition small_env :: "(bool, unit) action \<Rightarrow> bool restore_env" where
  "small_env hook =
     \<lparr>en_io = small_io, en_json_of = sample_json, en_sha = (\<lambda>s. ''h'' @ s), en_serialize = (\<lambda>_ _. []),
      en_tmp = [], en_hook = (\<lambda>_. hook), en_now = (\<lambda>h. (h, 5))\<rparr>"

lemma small_completes:
  "\<exists>h ev. execute_restore (small_env (ret ())) False (Some ''h'') sample_plan False = (h, Inr ev)"
proof -
  have "case execute_restore (small_env (ret ())) False (Some ''h'') sample_plan False of
      (h, x) \<Rightarrow> (case x of Inr ev \<Rightarrow> True | Inl _ \<Rightarrow> False)"
    by code_simp
  then show ?thesis by (auto split: prod.splits sum.splits)
qed

lemma small_fails:
  "\<exists>h m ev. execute_restore (small_env (throw Thrown_Other)) False (Some ''h'') sample_plan False
     = (h, Inl (Restore_Failed m ev))"
proof -
  have "case execute_restore (small_env (throw Thrown_Other)) False (Some ''h'') sample_plan False of
      (h, x) \<Rightarrow> (case x of Inl (Restore_Failed m ev) \<Rightarrow> True | _ \<Rightarrow> False)"
    by code_simp
  then show ?thesis by (auto split: prod.splits sum.splits restore_failure.splits)
qed

lemma sample_dir_fresh: "under ''/tmp/inbox-state-restore-run-1-x'' p \<Longrightarrow> sample_files p = None"
proof (rule ccontr)
  assume under: "under ''/tmp/inbox-state-restore-run-1-x'' p" and "sample_files p \<noteq> None"
  then have "p \<in> fst ` set sample_paths"
    by (auto simp: sample_files_def split: option.splits dest!: map_of_SomeD intro: rev_image_eqI)
  moreover have "list_all (\<lambda>q. \<not> under ''/tmp/inbox-state-restore-run-1-x'' q) (map fst sample_paths)"
    by code_simp
  ultimately show False using under by (auto simp: list_all_iff)
qed


end
