(* ===== verification/Release_Plan.thy ===== *)
theory Release_Plan
  imports Manifest_Checks
begin

text \<open>
  Release manifests and plans, \<open>packages/release-operations/src/release-plan.ts\<close>: the manifest
  is parsed field by field, and an apply or a rollback plan is the list of its steps with the
  commands of each. The descriptions of the steps are texts for the reader of the evidence and
  are left out; the hash of a plan (SHA-256 of its canonical JSON) is an argument.
\<close>

section \<open>Manifests\<close>

datatype release_action = Apply | Rollback

record image_versions =
  iv_previous :: string
  iv_target :: string

record api_target =
  at_name :: string
  at_previous_version :: string
  at_target_version :: string

record console_target =
  ct_artifact_dir :: string
  ct_branch :: string
  ct_previous_artifact_dir :: string
  ct_previous_commit :: string
  ct_project_name :: string
  ct_target_deployment :: string

record sealos_target =
  so_context :: string
  so_mihomo :: image_versions
  so_warp :: image_versions
  so_worker :: image_versions
  so_manifest_path :: string
  so_namespace :: string
  so_previous_revision :: string
  so_revision :: string
  so_rollback_manifest_path :: string
  so_workload_name :: string

record release_manifest =
  rm_backup_id :: string
  rm_backup_verified_at :: string
  rm_fixture_set :: string
  rm_api :: api_target
  rm_console :: console_target
  rm_migrations :: "string list"
  rm_database :: string
  rm_health_url :: string
  rm_stability_seconds :: nat
  rm_sealos :: sealos_target
  rm_secrets :: "(string \<times> string) list"
  rm_source_commit :: string

text \<open>\<open>Date.parse\<close> gives a finite number, and \<open>new URL(s)\<close> as its protocol and its text.\<close>

record text_library =
  tl_date_finite :: "string \<Rightarrow> bool"
  tl_url :: "string \<Rightarrow> (string \<times> string) option"

section \<open>Parsing\<close>

definition as_timestamp :: "text_library \<Rightarrow> json option \<Rightarrow> string \<Rightarrow> string checked" where
  "as_timestamp lib = matching_text (tl_date_finite lib)"

definition as_https_url :: "text_library \<Rightarrow> json option \<Rightarrow> string \<Rightarrow> string checked" where
  "as_https_url lib v path =
     check_then (as_text v path) (\<lambda>s.
       case tl_url lib s of
         None \<Rightarrow> Inl (Bad_Value path)
       | Some (protocol, printed) \<Rightarrow>
           if protocol = ''https:'' then Inr printed else Inl (Bad_Value path))"

definition positive_integer :: "json option \<Rightarrow> string \<Rightarrow> nat checked" where
  "positive_integer v path =
     (case v of
        Some (JNum x) \<Rightarrow> if is_integer x \<and> x > 0 then Inr (nat \<lfloor>x\<rfloor>) else Inl (Bad_Value path)
      | _ \<Rightarrow> Inl (Bad_Value path))"

definition local_contexts :: "string list" where
  "local_contexts = [''orbstack'', ''docker-desktop'', ''minikube'']"

definition kube_context :: "json option \<Rightarrow> string checked" where
  "kube_context v =
     matching_text (\<lambda>s. \<not> list_ex (\<lambda>p. contains_ci p s) local_contexts) v ''sealos.context''"

definition parse_image_versions :: "json option \<Rightarrow> string \<Rightarrow> image_versions checked" where
  "parse_image_versions v path =
     check_then (as_record v path) (\<lambda>es.
     check_then (exact_keys es [''previous'', ''target''] path) (\<lambda>_.
     check_then (as_text (json_get es ''previous'') (path @ ''.previous'')) (\<lambda>previous.
     check_then (as_text (json_get es ''target'') (path @ ''.target'')) (\<lambda>target.
     check_then (require (is_image_digest previous \<and> is_image_digest target) (Bad_Value path)) (\<lambda>_.
       Inr \<lparr>iv_previous = previous, iv_target = target\<rparr>)))))"

text \<open>\<open>rejectSensitiveMaterial\<close>: no key of the tree names a secret, the key \<open>secrets\<close> apart.\<close>

definition sensitive_words :: "string list" where
  "sensitive_words = [''authorization'', ''cookie'', ''credential'', ''password'', ''secret'', ''token'', ''value'']"

definition sensitive_key :: "string \<Rightarrow> bool" where
  "sensitive_key k = (k \<noteq> ''secrets'' \<and> list_ex (\<lambda>w. contains_ci w k) sensitive_words)"

fun holds_sensitive :: "json \<Rightarrow> bool" where
  "holds_sensitive (JArr vs) = list_ex holds_sensitive vs"
| "holds_sensitive (JObj es) = list_ex (\<lambda>(k, v). sensitive_key k \<or> holds_sensitive v) es"
| "holds_sensitive v = False"

text \<open>\<open>/^apps\/api\/migrations\/\d{4}_[a-z0-9_-]+\.sql$/\<close>.\<close>

definition is_migration_path :: "string \<Rightarrow> bool" where
  "is_migration_path s =
     (case strip_prefix ''apps/api/migrations/'' s of
        None \<Rightarrow> False
      | Some r \<Rightarrow>
          length r \<ge> 10 \<and> list_all is_digit (take 4 r) \<and> r ! 4 = CHR ''_''
          \<and> drop (length r - 4) r = ''.sql''
          \<and> list_all (\<lambda>c. is_lower c \<or> is_digit c \<or> c = CHR ''_'' \<or> c = CHR ''-'')
              (take (length r - 9) (drop 5 r)))"

definition migration_list :: "json option \<Rightarrow> string list checked" where
  "migration_list v =
     (case v of
        Some (JArr (x # xs)) \<Rightarrow>
          check_then (check_all (\<lambda>i. as_safe_path (Some i) ''database.migrations'') (x # xs)) (\<lambda>parsed.
          check_then (require (list_all is_migration_path parsed) (Bad_Value ''database.migrations'')) (\<lambda>_.
          check_then (require (distinct parsed) (Bad_Value ''database.migrations'')) (\<lambda>_.
            Inr parsed)))
      | _ \<Rightarrow> Inl (Bad_Value ''database.migrations''))"

definition parse_secret_ref :: "json \<Rightarrow> (string \<times> string) checked" where
  "parse_secret_ref v =
     check_then (as_record (Some v) ''secrets'') (\<lambda>es.
     check_then (exact_keys es [''name'', ''versionRef''] ''secrets'') (\<lambda>_.
     check_then (as_text (json_get es ''name'') ''secrets.name'') (\<lambda>name.
     check_then (as_text (json_get es ''versionRef'') ''secrets.versionRef'') (\<lambda>ref.
       Inr (name, ref)))))"

definition secret_refs :: "json option \<Rightarrow> (string \<times> string) list checked" where
  "secret_refs v =
     (case v of
        Some (JArr (x # xs)) \<Rightarrow> check_all parse_secret_ref (x # xs)
      | _ \<Rightarrow> Inl (Bad_Value ''secrets''))"

definition parse_api_target :: "json_record \<Rightarrow> api_target checked" where
  "parse_api_target es =
     check_then (as_text (json_get es ''name'') ''cloudflare.api.name'') (\<lambda>name.
     check_then (as_text (json_get es ''previousVersion'') ''cloudflare.api.previousVersion'') (\<lambda>previous.
     check_then (as_text (json_get es ''targetVersion'') ''cloudflare.api.targetVersion'') (\<lambda>target.
       Inr \<lparr>at_name = name, at_previous_version = previous, at_target_version = target\<rparr>)))"

definition parse_console_target :: "json_record \<Rightarrow> console_target checked" where
  "parse_console_target es =
     check_then (as_safe_path (json_get es ''artifactDir'') ''cloudflare.console.artifactDir'') (\<lambda>dir.
     check_then (as_text (json_get es ''branch'') ''cloudflare.console.branch'') (\<lambda>branch.
     check_then (as_safe_path (json_get es ''previousArtifactDir'') ''cloudflare.console.previousArtifactDir'') (\<lambda>pdir.
     check_then (as_commit (json_get es ''previousCommit'') ''cloudflare.console.previousCommit'') (\<lambda>pcommit.
     check_then (as_text (json_get es ''projectName'') ''cloudflare.console.projectName'') (\<lambda>project.
     check_then (as_text (json_get es ''targetDeployment'') ''cloudflare.console.targetDeployment'') (\<lambda>target.
       Inr \<lparr>ct_artifact_dir = dir, ct_branch = branch, ct_previous_artifact_dir = pdir,
            ct_previous_commit = pcommit, ct_project_name = project, ct_target_deployment = target\<rparr>))))))"

definition parse_sealos_target :: "json_record \<Rightarrow> json_record \<Rightarrow> sealos_target checked" where
  "parse_sealos_target es images =
     check_then (kube_context (json_get es ''context'')) (\<lambda>ctx.
     check_then (parse_image_versions (json_get images ''mihomo'') ''sealos.images.mihomo'') (\<lambda>mihomo.
     check_then (parse_image_versions (json_get images ''warp'') ''sealos.images.warp'') (\<lambda>warp.
     check_then (parse_image_versions (json_get images ''worker'') ''sealos.images.worker'') (\<lambda>worker.
     check_then (as_safe_path (json_get es ''manifestPath'') ''sealos.manifestPath'') (\<lambda>path.
     check_then (as_text (json_get es ''namespace'') ''sealos.namespace'') (\<lambda>namespace.
     check_then (as_text (json_get es ''previousRevision'') ''sealos.previousRevision'') (\<lambda>previous.
     check_then (as_text (json_get es ''revision'') ''sealos.revision'') (\<lambda>revision.
     check_then (as_safe_path (json_get es ''rollbackManifestPath'') ''sealos.rollbackManifestPath'') (\<lambda>rpath.
     check_then (as_text (json_get es ''workloadName'') ''sealos.workloadName'') (\<lambda>workload.
       Inr \<lparr>so_context = ctx, so_mihomo = mihomo, so_warp = warp, so_worker = worker,
            so_manifest_path = path, so_namespace = namespace, so_previous_revision = previous,
            so_revision = revision, so_rollback_manifest_path = rpath,
            so_workload_name = workload\<rparr>))))))))))"

text \<open>The sections of the manifest, in the order the fields are read below.\<close>

record manifest_sections =
  ms_api :: json_record
  ms_console :: json_record
  ms_database :: json_record
  ms_sealos :: json_record
  ms_images :: json_record
  ms_backup :: json_record
  ms_canary :: json_record
  ms_exit_gate :: json_record

definition manifest_sections_of :: "json_record \<Rightarrow> manifest_sections checked" where
  "manifest_sections_of manifest =
     check_then (as_record (json_get manifest ''cloudflare'') ''manifest.cloudflare'') (\<lambda>cloudflare.
     check_then (as_record (json_get cloudflare ''api'') ''manifest.cloudflare.api'') (\<lambda>api.
     check_then (as_record (json_get cloudflare ''console'') ''manifest.cloudflare.console'') (\<lambda>console.
     check_then (as_record (json_get cloudflare ''database'') ''manifest.cloudflare.database'') (\<lambda>database.
     check_then (as_record (json_get manifest ''sealos'') ''manifest.sealos'') (\<lambda>sealos.
     check_then (as_record (json_get sealos ''images'') ''manifest.sealos.images'') (\<lambda>images.
     check_then (as_record (json_get manifest ''backup'') ''manifest.backup'') (\<lambda>backup.
     check_then (as_record (json_get manifest ''canary'') ''manifest.canary'') (\<lambda>canary.
     check_then (as_record (json_get manifest ''exitGate'') ''manifest.exitGate'') (\<lambda>exitGate.
     check_then (exact_keys cloudflare [''api'', ''console'', ''database''] ''manifest.cloudflare'') (\<lambda>_.
     check_then (exact_keys api [''name'', ''previousVersion'', ''targetVersion''] ''manifest.cloudflare.api'') (\<lambda>_.
     check_then (exact_keys console [''artifactDir'', ''branch'', ''previousArtifactDir'',
         ''previousCommit'', ''projectName'', ''targetDeployment''] ''manifest.cloudflare.console'') (\<lambda>_.
     check_then (exact_keys database [''migrations'', ''name''] ''manifest.cloudflare.database'') (\<lambda>_.
     check_then (exact_keys backup [''id'', ''verifiedAt''] ''manifest.backup'') (\<lambda>_.
     check_then (exact_keys canary [''fixtureSet''] ''manifest.canary'') (\<lambda>_.
     check_then (exact_keys exitGate [''apiHealthUrl'', ''stabilitySeconds''] ''manifest.exitGate'') (\<lambda>_.
     check_then (exact_keys sealos [''context'', ''images'', ''manifestPath'', ''namespace'',
         ''previousRevision'', ''revision'', ''rollbackManifestPath'', ''workloadName''] ''manifest.sealos'') (\<lambda>_.
     check_then (exact_keys images [''mihomo'', ''warp'', ''worker''] ''manifest.sealos.images'') (\<lambda>_.
       Inr \<lparr>ms_api = api, ms_console = console, ms_database = database, ms_sealos = sealos,
            ms_images = images, ms_backup = backup, ms_canary = canary,
            ms_exit_gate = exitGate\<rparr>))))))))))))))))))"

definition parse_release_manifest :: "text_library \<Rightarrow> json \<Rightarrow> release_manifest checked" where
  "parse_release_manifest lib v =
     check_then (as_record (Some v) ''manifest'') (\<lambda>root.
     check_then (exact_keys root [''backup'', ''canary'', ''cloudflare'', ''exitGate'',
         ''schemaVersion'', ''sealos'', ''secrets'', ''sourceCommit''] ''manifest'') (\<lambda>_.
     check_then (require (\<not> holds_sensitive (JObj root)) (Sensitive_Field ''manifest'')) (\<lambda>_.
     check_then (require (json_get root ''schemaVersion'' = Some (JNum 1)) (Bad_Value ''manifest.schemaVersion'')) (\<lambda>_.
     check_then (manifest_sections_of root) (\<lambda>ms.
     check_then (as_text (json_get (ms_backup ms) ''id'') ''backup.id'') (\<lambda>backupId.
     check_then (as_timestamp lib (json_get (ms_backup ms) ''verifiedAt'') ''backup.verifiedAt'') (\<lambda>verifiedAt.
     check_then (as_text (json_get (ms_canary ms) ''fixtureSet'') ''canary.fixtureSet'') (\<lambda>fixtureSet.
     check_then (parse_api_target (ms_api ms)) (\<lambda>api.
     check_then (parse_console_target (ms_console ms)) (\<lambda>console.
     check_then (migration_list (json_get (ms_database ms) ''migrations'')) (\<lambda>migrations.
     check_then (as_text (json_get (ms_database ms) ''name'') ''cloudflare.database.name'') (\<lambda>database.
     check_then (as_https_url lib (json_get (ms_exit_gate ms) ''apiHealthUrl'') ''exitGate.apiHealthUrl'') (\<lambda>url.
     check_then (positive_integer (json_get (ms_exit_gate ms) ''stabilitySeconds'') ''exitGate.stabilitySeconds'') (\<lambda>seconds.
     check_then (parse_sealos_target (ms_sealos ms) (ms_images ms)) (\<lambda>sealos.
     check_then (secret_refs (json_get root ''secrets'')) (\<lambda>secrets.
     check_then (as_commit (json_get root ''sourceCommit'') ''sourceCommit'') (\<lambda>sourceCommit.
       Inr \<lparr>rm_backup_id = backupId, rm_backup_verified_at = verifiedAt, rm_fixture_set = fixtureSet,
            rm_api = api, rm_console = console, rm_migrations = migrations, rm_database = database,
            rm_health_url = url, rm_stability_seconds = seconds, rm_sealos = sealos,
            rm_secrets = secrets, rm_source_commit = sourceCommit\<rparr>)))))))))))))))))"

section \<open>Plans\<close>

record release_step =
  rs_id :: string
  rs_mutates :: bool
  rs_commands :: "release_command list"
  rs_rollback :: "release_command list"

record release_plan =
  rp_action :: release_action
  rp_manifest :: release_manifest
  rp_hash :: string
  rp_steps :: "release_step list"

definition step :: "string \<Rightarrow> bool \<Rightarrow> release_command list \<Rightarrow> release_command list \<Rightarrow> release_step" where
  "step i mutates commands rollback =
     \<lparr>rs_id = i, rs_mutates = mutates, rs_commands = commands, rs_rollback = rollback\<rparr>"

definition kubectl_prefix :: "release_manifest \<Rightarrow> string list" where
  "kubectl_prefix m =
     [''--context'', so_context (rm_sealos m), ''--namespace'', so_namespace (rm_sealos m)]"

definition rollout_status :: "release_manifest \<Rightarrow> release_command" where
  "rollout_status m = command ''kubectl'' (kubectl_prefix m
     @ [''rollout'', ''status'', ''statefulset/'' @ so_workload_name (rm_sealos m)])"

definition kubectl_apply :: "release_manifest \<Rightarrow> string \<Rightarrow> release_command" where
  "kubectl_apply m path = command ''kubectl'' (kubectl_prefix m @ [''apply'', ''-f'', path])"

definition list_migrations :: "release_manifest \<Rightarrow> release_command" where
  "list_migrations m = command ''npm'' [''exec'', ''--workspace'', ''@inbox/api'', ''--'', ''wrangler'',
     ''d1'', ''migrations'', ''list'', rm_database m, ''--remote'']"

definition check_commit :: "release_manifest \<Rightarrow> release_command" where
  "check_commit m = command ''git'' [''cat-file'', ''-e'', rm_source_commit m @ ''^{commit}'']"

definition check_context :: "release_manifest \<Rightarrow> release_command" where
  "check_context m = command ''kubectl''
     [''config'', ''get-contexts'', so_context (rm_sealos m), ''-o'', ''name'']"

definition restore_api :: "release_manifest \<Rightarrow> release_command" where
  "restore_api m = command ''npm'' [''exec'', ''--workspace'', ''@inbox/api'', ''--'', ''wrangler'',
     ''versions'', ''deploy'', at_previous_version (rm_api m) @ ''@100%'', ''--name'', at_name (rm_api m), ''--yes'']"

definition deploy_console :: "release_manifest \<Rightarrow> string \<Rightarrow> string \<Rightarrow> release_command" where
  "deploy_console m dir commitHash = command ''npm'' [''exec'', ''--workspace'', ''@inbox/console'', ''--'',
     ''wrangler'', ''pages'', ''deploy'', dir, ''--project-name'', ct_project_name (rm_console m),
     ''--branch'', ct_branch (rm_console m), ''--commit-hash'', commitHash, ''--commit-dirty=false'']"

definition verify_live :: "release_manifest \<Rightarrow> release_command" where
  "verify_live m = command ''npm'' [''run'', ''verify:live'', ''--workspace'', ''@inbox/api'', ''--'',
     ''--health-url'', rm_health_url m, ''--stability-seconds'', decimal (rm_stability_seconds m)]"

definition restore_console :: "release_manifest \<Rightarrow> release_command" where
  "restore_console m =
     deploy_console m (ct_previous_artifact_dir (rm_console m)) (ct_previous_commit (rm_console m))"

definition apply_steps :: "release_manifest \<Rightarrow> release_step list" where
  "apply_steps m =
     [step ''preflight'' False
        [check_commit m, command ''npm'' [''run'', ''typecheck''], command ''npm'' [''test''],
         list_migrations m, check_context m] [],
      step ''backup-evidence'' False [] [],
      step ''expand-migration'' True
        [command ''npm'' [''run'', ''db:migrate:remote'', ''--workspace'', ''@inbox/api'']] [],
      step ''api'' True [command ''npm'' [''run'', ''deploy'', ''--workspace'', ''@inbox/api'']] [restore_api m],
      step ''console'' True
        [command ''npm'' [''run'', ''build'', ''--workspace'', ''@inbox/console''],
         deploy_console m (ct_artifact_dir (rm_console m)) (rm_source_commit m)]
        [restore_console m],
      step ''worker'' True [kubectl_apply m (so_manifest_path (rm_sealos m)), rollout_status m]
        [kubectl_apply m (so_rollback_manifest_path (rm_sealos m))],
      step ''isolated-canary'' False
        [command ''npm'' [''test'', ''--workspace'', ''@inbox/worker'', ''--'', ''--run'', ''tests/canary.test.ts'']] [],
      step ''stability-window'' False [verify_live m, rollout_status m] []]"

definition rollback_steps :: "release_manifest \<Rightarrow> release_step list" where
  "rollback_steps m =
     [step ''preflight'' False [check_commit m, check_context m, list_migrations m] [],
      step ''api'' True [restore_api m] [],
      step ''console'' True [restore_console m] [],
      step ''worker'' True [kubectl_apply m (so_rollback_manifest_path (rm_sealos m)), rollout_status m] [],
      step ''stability-window'' False [verify_live m] []]"

definition build_release_plan ::
  "(release_action \<Rightarrow> release_manifest \<Rightarrow> release_step list \<Rightarrow> string)
   \<Rightarrow> release_action \<Rightarrow> release_manifest \<Rightarrow> release_plan" where
  "build_release_plan sha action m =
     (let steps = (case action of Apply \<Rightarrow> apply_steps m | Rollback \<Rightarrow> rollback_steps m)
      in \<lparr>rp_action = action, rp_manifest = m, rp_hash = sha action m steps, rp_steps = steps\<rparr>)"

section \<open>What a parsed manifest promises\<close>

lemma parsed_api_target: "parse_api_target es = Inr a \<Longrightarrow> js_trim (at_name a) \<noteq> [] \<and> js_trim (at_previous_version a) \<noteq> []"
  by (auto simp: parse_api_target_def checked_results)

lemma parsed_console_target:
  "parse_console_target es = Inr c \<Longrightarrow>
     is_safe_path (ct_artifact_dir c) \<and> is_safe_path (ct_previous_artifact_dir c)
     \<and> hex_of_length 40 (ct_previous_commit c)"
  by (auto simp: parse_console_target_def checked_results)

definition digests :: "image_versions \<Rightarrow> bool" where
  "digests v = (is_image_digest (iv_previous v) \<and> is_image_digest (iv_target v))"

lemma parsed_image_versions: "parse_image_versions v path = Inr i \<Longrightarrow> digests i"
  by (auto simp: parse_image_versions_def digests_def checked_results)

lemma parsed_sealos_target:
  "parse_sealos_target es images = Inr t \<Longrightarrow>
     digests (so_mihomo t) \<and> digests (so_warp t) \<and> digests (so_worker t)
     \<and> is_safe_path (so_manifest_path t) \<and> is_safe_path (so_rollback_manifest_path t)
     \<and> \<not> list_ex (\<lambda>p. contains_ci p (so_context t)) local_contexts"
  by (auto simp: parse_sealos_target_def kube_context_def checked_results dest: parsed_image_versions)

lemma migration_list_valid:
  "migration_list v = Inr ms \<Longrightarrow> ms \<noteq> [] \<and> distinct ms \<and> list_all is_migration_path ms"
  by (auto simp: migration_list_def checked_results split: option.splits json.splits list.splits)

lemma secret_refs_nonempty: "secret_refs v = Inr rs \<Longrightarrow> rs \<noteq> []"
  by (auto simp: secret_refs_def checked_results split: option.splits json.splits list.splits)

lemma positive_integer_positive: "positive_integer v path = Inr n \<Longrightarrow> n > 0"
  by (auto simp: positive_integer_def is_integer_def split: option.splits json.splits if_splits)

lemma as_https_url_https:
  "as_https_url lib v path = Inr u \<Longrightarrow> \<exists>s. tl_url lib s = Some (''https:'', u)"
  by (auto simp: as_https_url_def checked_results split: option.splits prod.splits if_splits)

lemma parsed_parts:
  assumes "parse_release_manifest lib v = Inr m"
  obtains es ms where "v = JObj es" "\<not> holds_sensitive (JObj es)" "manifest_sections_of es = Inr ms"
    "json_get es ''schemaVersion'' = Some (JNum 1)"
    "parse_api_target (ms_api ms) = Inr (rm_api m)"
    "parse_console_target (ms_console ms) = Inr (rm_console m)"
    "migration_list (json_get (ms_database ms) ''migrations'') = Inr (rm_migrations m)"
    "as_https_url lib (json_get (ms_exit_gate ms) ''apiHealthUrl'') ''exitGate.apiHealthUrl'' = Inr (rm_health_url m)"
    "positive_integer (json_get (ms_exit_gate ms) ''stabilitySeconds'') ''exitGate.stabilitySeconds'' = Inr (rm_stability_seconds m)"
    "parse_sealos_target (ms_sealos ms) (ms_images ms) = Inr (rm_sealos m)"
    "secret_refs (json_get es ''secrets'') = Inr (rm_secrets m)"
    "hex_of_length 40 (rm_source_commit m)"
  using assms by (auto simp: parse_release_manifest_def checked_results)

text \<open>The commands of a plan go to the cluster of the manifest, and to no other.\<close>

definition targets :: "release_manifest \<Rightarrow> release_command \<Rightarrow> bool" where
  "targets m c =
     (rc_file c \<in> {''git'', ''npm''}
      \<or> rc_file c = ''kubectl''
        \<and> (take 4 (rc_args c) = kubectl_prefix m
           \<or> rc_args c = [''config'', ''get-contexts'', so_context (rm_sealos m), ''-o'', ''name'']))"

lemma commands_target:
  "targets m (check_commit m)" "targets m (check_context m)" "targets m (list_migrations m)"
  "targets m (restore_api m)" "targets m (deploy_console m dir c)" "targets m (restore_console m)"
  "targets m (verify_live m)" "targets m (rollout_status m)" "targets m (kubectl_apply m path)"
  "targets m (command ''npm'' args)"
  by (simp_all add: targets_def check_commit_def check_context_def list_migrations_def restore_api_def
      deploy_console_def restore_console_def verify_live_def rollout_status_def kubectl_apply_def
      kubectl_prefix_def command_def)

lemma plan_targets:
  "list_all (\<lambda>st. list_all (targets m) (rs_commands st @ rs_rollback st)) (apply_steps m)"
  "list_all (\<lambda>st. list_all (targets m) (rs_commands st @ rs_rollback st)) (rollback_steps m)"
  by (simp_all add: apply_steps_def rollback_steps_def step_def commands_target)

text \<open>What a compensation of the whole apply plan would run is what the rollback plan runs in
  its mutating steps, from the last to the first; the migration has no way back.\<close>

lemma compensation_is_rollback:
  "concat (map rs_rollback (rev (filter rs_mutates (apply_steps m)))) =
     rev (filter (\<lambda>c. c \<noteq> rollout_status m)
       (concat (map rs_commands (filter rs_mutates (rollback_steps m)))))"
  by (simp add: apply_steps_def rollback_steps_def step_def restore_api_def restore_console_def
      deploy_console_def kubectl_apply_def rollout_status_def command_def)


definition sample_digest :: string where
  "sample_digest = ''ghcr.nju.edu.cn/a@sha256:'' @ replicate 64 (CHR ''0'')"

definition sample_images :: json where
  "sample_images = JObj [(''previous'', JStr sample_digest), (''target'', JStr sample_digest)]"

definition sample_commit :: json where
  "sample_commit = JStr (replicate 40 (CHR ''a''))"

definition sample_release :: json where
  "sample_release = JObj
    [(''backup'', JObj [(''id'', JStr ''b1''), (''verifiedAt'', JStr ''2030-01-01'')]),
     (''canary'', JObj [(''fixtureSet'', JStr ''f'')]),
     (''cloudflare'', JObj
       [(''api'', JObj [(''name'', JStr ''api''), (''previousVersion'', JStr ''v1''), (''targetVersion'', JStr ''v2'')]),
        (''console'', JObj [(''artifactDir'', JStr ''dist''), (''branch'', JStr ''main''),
           (''previousArtifactDir'', JStr ''old/dist''), (''previousCommit'', sample_commit),
           (''projectName'', JStr ''console''), (''targetDeployment'', JStr ''d2'')]),
        (''database'', JObj [(''migrations'', JArr [JStr ''apps/api/migrations/0001_initial.sql'']), (''name'', JStr ''inbox'')])]),
     (''exitGate'', JObj [(''apiHealthUrl'', JStr ''https://h''), (''stabilitySeconds'', JNum 300)]),
     (''schemaVersion'', JNum 1),
     (''sealos'', JObj
       [(''context'', JStr ''sealos''),
        (''images'', JObj [(''mihomo'', sample_images), (''warp'', sample_images), (''worker'', sample_images)]),
        (''manifestPath'', JStr ''deploy/a.yml''), (''namespace'', JStr ''ns''),
        (''previousRevision'', JStr ''r1''), (''revision'', JStr ''r2''),
        (''rollbackManifestPath'', JStr ''deploy/b.yml''), (''workloadName'', JStr ''worker'')]),
     (''secrets'', JArr [JObj [(''name'', JStr ''KEY''), (''versionRef'', JStr ''v1'')]]),
     (''sourceCommit'', sample_commit)]"

definition sample_library :: text_library where
  "sample_library =
     \<lparr>tl_date_finite = (\<lambda>s. s = ''2030-01-01''),
      tl_url = (\<lambda>s. if starts_with ''https://'' s then Some (''https:'', s @ ''/'') else None)\<rparr>"

lemma sample_release_parses:
  "\<exists>m. parse_release_manifest sample_library sample_release = Inr m \<and> rm_health_url m = ''https://h/''
     \<and> so_manifest_path (rm_sealos m) \<noteq> so_rollback_manifest_path (rm_sealos m)"
proof -
  have "(case parse_release_manifest sample_library sample_release of
           Inr m \<Rightarrow> rm_health_url m = ''https://h/''
             \<and> so_manifest_path (rm_sealos m) \<noteq> so_rollback_manifest_path (rm_sealos m)
         | Inl _ \<Rightarrow> False)"
    by code_simp
  then show ?thesis by (auto split: sum.splits)
qed


end
