(* ===== verification/Release_Executor.thy ===== *)
theory Release_Executor
  imports Actions Release_Plan "HOL-Library.Sublist"
begin

text \<open>
  Execution of a release plan, \<open>packages/release-operations/src/release-executor.ts\<close>. The
  commands run through a runner that may throw, over the state of the outside world; instants
  are milliseconds, which the evidence holds as ISO texts. The descriptions of the steps are
  left out, as in the plan.
\<close>

section \<open>Runners and clocks\<close>

type_synonym 's runner = "release_command \<Rightarrow> ('s, command_result) action"

definition exit_error :: "string \<Rightarrow> (string \<Rightarrow> string) \<Rightarrow> command_result \<Rightarrow> thrown" where
  "exit_error label summary r =
     Thrown_Error (label @ '' command exited '' @ js_integer (cr_exit_code r) @ '': '' @ summary (cr_stderr r))"

fun run_commands ::
  "(command_result \<Rightarrow> thrown) \<Rightarrow> 's runner \<Rightarrow> release_command list \<Rightarrow> ('s, command_result list) action" where
  "run_commands failed run [] = ret []"
| "run_commands failed run (c # cs) =
     and_then (run c) (\<lambda>r.
       if cr_exit_code r \<noteq> 0 then throw (failed r)
       else and_then (run_commands failed run cs) (\<lambda>rs. ret (r # rs)))"

section \<open>Evidence\<close>

record step_evidence =
  se_command_count :: nat
  se_finished_at :: int
  se_id :: string
  se_result_summary :: string
  se_started_at :: int
  se_status :: step_status

record release_evidence =
  re_action :: release_action
  re_backup_id :: string
  re_api_version :: string
  re_console_deployment :: string
  re_dry_run :: bool
  re_migrations :: "string list"
  re_plan_hash :: string
  re_sealos_revision :: string
  re_source_commit :: string
  re_steps :: "step_evidence list"
  re_images :: "image_versions \<times> image_versions \<times> image_versions"

definition step_record :: "string \<Rightarrow> nat \<Rightarrow> int \<Rightarrow> int \<Rightarrow> step_status \<Rightarrow> string \<Rightarrow> step_evidence" where
  "step_record i count started finished status summary =
     \<lparr>se_command_count = count, se_finished_at = finished, se_id = i,
      se_result_summary = summary, se_started_at = started, se_status = status\<rparr>"

definition release_evidence_of :: "release_plan \<Rightarrow> bool \<Rightarrow> step_evidence list \<Rightarrow> release_evidence" where
  "release_evidence_of plan dry steps =
     (let m = rp_manifest plan; apply = (rp_action plan = Apply)
      in \<lparr>re_action = rp_action plan, re_backup_id = rm_backup_id m,
          re_api_version =
            (if apply then at_target_version (rm_api m) else at_previous_version (rm_api m)),
          re_console_deployment =
            (if apply then ct_target_deployment (rm_console m) else ct_previous_commit (rm_console m)),
          re_dry_run = dry, re_migrations = rm_migrations m, re_plan_hash = rp_hash plan,
          re_sealos_revision =
            (if apply then so_revision (rm_sealos m) else so_previous_revision (rm_sealos m)),
          re_source_commit = rm_source_commit m, re_steps = steps,
          re_images = (so_mihomo (rm_sealos m), so_warp (rm_sealos m), so_worker (rm_sealos m))\<rparr>)"

text \<open>
  How an execution fails: the confirmation is not the hash of the plan; a step failed, with the
  evidence so far; or a compensation failed and its plain error takes the place of the evidence.
\<close>

datatype release_failure =
    Not_Confirmed
  | Stopped string release_evidence
  | Compensation_Failed thrown

record release_options =
  ro_compensate :: bool
  ro_confirm :: "string option"
  ro_dry_run :: bool

section \<open>Execution\<close>

definition compensation_error :: "string \<Rightarrow> command_result \<Rightarrow> thrown" where
  "compensation_error i r =
     Thrown_Error (''compensation of '' @ i @ '' failed: '' @ release_summary (cr_stderr r))"

text \<open>\<open>compensate\<close>, on the completed steps in reverse order.\<close>

fun compensate ::
  "'s runner \<Rightarrow> 's clock \<Rightarrow> release_step list \<Rightarrow> step_evidence list \<Rightarrow> ('s, step_evidence list) action" where
  "compensate run now [] records = ret records"
| "compensate run now (st # rest) records =
     (if rs_rollback st = [] then compensate run now rest records
      else (\<lambda>s. let (s1, started) = now s in
        and_then (run_commands (compensation_error (rs_id st)) run (rs_rollback st)) (\<lambda>_ s2.
          let (s3, finished) = now s2
          in compensate run now rest
               (records @ [step_record (rs_id st @ '':compensation'') (length (rs_rollback st))
                  started finished Compensated ''compensation succeeded'']) s3) s1))"

definition success_summary :: "command_result list \<Rightarrow> string" where
  "success_summary rs =
     js_join '' | '' (filter (\<lambda>x. x \<noteq> []) (map (\<lambda>r. release_summary (cr_stdout r)) rs))"

fun run_steps ::
  "'s runner \<Rightarrow> 's clock \<Rightarrow> bool \<Rightarrow> release_plan \<Rightarrow> release_step list \<Rightarrow> release_step list
   \<Rightarrow> step_evidence list \<Rightarrow> 's \<Rightarrow> 's \<times> (release_failure + release_evidence)" where
  "run_steps run now compensating plan [] completed records s = (s, Inr (release_evidence_of plan False records))"
| "run_steps run now compensating plan (st # rest) completed records s =
     (let (s1, started) = now s;
          (s2, result) = run_commands (exit_error (rs_id st) release_summary) run (rs_commands st) s1;
          (s3, finished) = now s2
      in case result of
           Inr rs \<Rightarrow>
             run_steps run now compensating plan rest (if rs_mutates st then completed @ [st] else completed)
               (records @ [step_record (rs_id st) (length (rs_commands st)) started finished
                  Succeeded (success_summary rs)]) s3
         | Inl e \<Rightarrow>
             (let failed = records @ [step_record (rs_id st) (length (rs_commands st)) started finished
                    Failed (release_summary (error_text ''unknown error'' e))];
                  (s4, compensated) =
                    (if compensating then compensate run now (rev completed) failed s3 else (s3, Inr failed))
              in case compensated of
                   Inl e' \<Rightarrow> (s4, Inl (Compensation_Failed e'))
                 | Inr records' \<Rightarrow>
                     (s4, Inl (Stopped (rs_id st) (release_evidence_of plan False records')))))"

definition execute_release_plan ::
  "'s runner \<Rightarrow> 's clock \<Rightarrow> release_plan \<Rightarrow> release_options \<Rightarrow> 's
   \<Rightarrow> 's \<times> (release_failure + release_evidence)" where
  "execute_release_plan run now plan options s =
     (if ro_dry_run options then
        (let (s1, t) = now s
         in (s1, Inr (release_evidence_of plan True
               (map (\<lambda>st. step_record (rs_id st) (length (rs_commands st)) t t Planned
                    ''dry-run: no command executed'') (rp_steps plan)))))
      else if ro_confirm options \<noteq> Some (rp_hash plan) then (s, Inl Not_Confirmed)
      else run_steps run now (ro_compensate options) plan (rp_steps plan) [] [] s)"

section \<open>The commands an execution runs\<close>

text \<open>A runner that writes down each command it is given, and a clock beside it.\<close>

definition logged :: "'s runner \<Rightarrow> ('s \<times> release_command list) runner" where
  "logged run c w = (let (s', r) = run c (fst w) in ((s', snd w @ [c]), r))"

definition beside :: "'s clock \<Rightarrow> ('s \<times> release_command list) clock" where
  "beside now w = (let (s', t) = now (fst w) in ((s', snd w), t))"

lemma beside_log: "beside now w = (w', t) \<Longrightarrow> snd w' = snd w"
  by (auto simp: beside_def split: prod.splits)

lemma logged_log: "logged run c w = (w', r) \<Longrightarrow> snd w' = snd w @ [c]"
  by (auto simp: logged_def split: prod.splits)

text \<open>All the commands when the run succeeds; a nonempty prefix of them when it fails.\<close>

lemma run_commands_log:
  "run_commands failed (logged run) cs w = (w', r) \<Longrightarrow>
     (case r of
        Inr rs \<Rightarrow> snd w' = snd w @ cs \<and> length rs = length cs \<and> (\<forall>x\<in>set rs. cr_exit_code x = 0)
      | Inl e \<Rightarrow> \<exists>pre. pre \<noteq> [] \<and> prefix pre cs \<and> snd w' = snd w @ pre)"
proof (induction cs arbitrary: w w' r)
  case (Cons c cs)
  obtain w1 r1 where run: "logged run c w = (w1, r1)" by fastforce
  note log = logged_log [OF run]
  show ?case
  proof (cases "\<exists>x. r1 = Inr x \<and> cr_exit_code x = 0")
    case False
    then have "w' = w1 \<and> (\<exists>e. r = Inl e)"
      using Cons.prems run by (auto simp: and_then_def throw_def split: sum.splits if_splits)
    with log show ?thesis by (auto intro: exI [of _ "[c]"])
  next
    case True
    then obtain x where x: "r1 = Inr x" "cr_exit_code x = 0" by blast
    obtain w2 r2 where rest: "run_commands failed (logged run) cs w1 = (w2, r2)" by fastforce
    have "w' = w2" and r: "r = (case r2 of Inl e \<Rightarrow> Inl e | Inr rs \<Rightarrow> Inr (x # rs))"
      using Cons.prems run x rest by (auto simp: and_then_def ret_def split: sum.splits)
    with Cons.IH [OF rest] log show ?thesis
      by (auto simp: x split: sum.splits intro: exI [of _ "c # pre" for pre])
  qed
qed (auto simp: ret_def)

definition rollback_of :: "release_step list \<Rightarrow> release_command list" where
  "rollback_of steps = concat (map rs_rollback (rev (filter rs_mutates steps)))"

lemma compensate_log:
  "compensate (logged run) (beside now) sts recs w = (w', r) \<Longrightarrow>
     (case r of
        Inr recs' \<Rightarrow> snd w' = snd w @ concat (map rs_rollback sts)
      | Inl e \<Rightarrow> \<exists>pre. pre \<noteq> [] \<and> prefix pre (concat (map rs_rollback sts)) \<and> snd w' = snd w @ pre)"
proof (induction sts arbitrary: recs w)
  case (Cons st rest)
  show ?case
  proof (cases "rs_rollback st = []")
    case True
    then show ?thesis using Cons.IH [of recs w] Cons.prems by (cases r) simp_all
  next
    case False
    obtain w1 t where t: "beside now w = (w1, t)" by fastforce
    obtain w2 r2 where run: "run_commands (compensation_error (rs_id st)) (logged run) (rs_rollback st) w1 = (w2, r2)"
      by fastforce
    note logs = beside_log [OF t] run_commands_log [OF run]
    show ?thesis
    proof (cases r2)
      case (Inl e)
      then have "w' = w2" "r = Inl e"
        using Cons.prems t run False by (auto simp: and_then_def Let_def)
      then show ?thesis using logs Inl by (auto intro: prefix_prefix)
    next
      case (Inr rs)
      obtain w3 t3 where t3: "beside now w2 = (w3, t3)" by fastforce
      have "compensate (logged run) (beside now) rest
          (recs @ [step_record (rs_id st @ '':compensation'') (length (rs_rollback st)) t t3
             Compensated ''compensation succeeded'']) w3 = (w', r)"
        using Cons.prems t run False Inr t3 by (auto simp: and_then_def Let_def)
      from Cons.IH [OF this] logs Inr beside_log [OF t3] show ?thesis
        by (auto split: sum.splits intro: exI [of _ "rs_rollback st @ pre" for pre])
    qed
  qed
qed (auto simp: ret_def)

definition commands_of :: "release_step list \<Rightarrow> release_command list" where
  "commands_of steps = concat (map rs_commands steps)"

text \<open>
  What an execution has run when it ends: every command of the plan, or those of the first
  \<open>k\<close> steps and the first ones of the step after them, and then the compensation.
\<close>

definition runs_in_order ::
  "bool \<Rightarrow> release_step list \<Rightarrow> release_command list \<Rightarrow> (release_failure + release_evidence) \<Rightarrow> bool" where
  "runs_in_order compensating steps trace r =
     (case r of
        Inr _ \<Rightarrow> trace = commands_of steps
      | Inl Not_Confirmed \<Rightarrow> trace = []
      | Inl (Stopped i _) \<Rightarrow>
          (\<exists>k pre. k < length steps \<and> rs_id (steps ! k) = i
             \<and> pre \<noteq> [] \<and> prefix pre (rs_commands (steps ! k))
             \<and> trace = commands_of (take k steps) @ pre
                 @ (if compensating then rollback_of (take k steps) else []))
      | Inl (Compensation_Failed _) \<Rightarrow>
          compensating \<and> (\<exists>k pre rb. k < length steps
             \<and> pre \<noteq> [] \<and> prefix pre (rs_commands (steps ! k))
             \<and> rb \<noteq> [] \<and> prefix rb (rollback_of (take k steps))
             \<and> trace = commands_of (take k steps) @ pre @ rb))"

lemma run_steps_order:
  assumes "run_steps (logged run) (beside now) compensating plan rest
             (filter rs_mutates before) recs w = (w', r)"
    and "snd w = commands_of before"
  shows "runs_in_order compensating (before @ rest) (snd w') r"
  using assms
proof (induction rest arbitrary: before recs w)
  case Nil
  then show ?case by (auto simp: runs_in_order_def)
next
  case (Cons st rest)
  obtain w1 t where t: "beside now w = (w1, t)" by fastforce
  obtain w2 r2 where run: "run_commands (exit_error (rs_id st) release_summary) (logged run) (rs_commands st) w1 = (w2, r2)"
    by fastforce
  obtain w3 t3 where t3: "beside now w2 = (w3, t3)" by fastforce
  note logs = beside_log [OF t] run_commands_log [OF run] beside_log [OF t3] Cons.prems(2)
  show ?case
  proof (cases r2)
    case (Inr rs)
    have "snd w3 = commands_of (before @ [st])" using logs Inr by (simp add: commands_of_def)
    moreover obtain recs' where
      "run_steps (logged run) (beside now) compensating plan rest (filter rs_mutates (before @ [st])) recs' w3 = (w', r)"
      using Cons.prems(1) t run t3 Inr by (auto simp: Let_def split: if_splits)
    ultimately show ?thesis using Cons.IH by fastforce
  next
    case (Inl e)
    then obtain pre where pre: "pre \<noteq> []" "prefix pre (rs_commands st)" "snd w3 = commands_of before @ pre"
      using logs by auto
    obtain recs' w4 r4 where comp:
        "(if compensating then compensate (logged run) (beside now) (rev (filter rs_mutates before)) recs' w3
          else (w3, Inr recs')) = (w4, r4)"
      and r: "w' = w4" "r = (case r4 of Inl e' \<Rightarrow> Inl (Compensation_Failed e')
        | Inr records' \<Rightarrow> Inl (Stopped (rs_id st) (release_evidence_of plan False records')))"
      using Cons.prems(1) t run t3 Inl by (auto simp: Let_def split: sum.splits prod.splits)
    have at: "(before @ st # rest) ! length before = st" "take (length before) (before @ st # rest) = before"
      "length before < length (before @ st # rest)" by simp_all
    show ?thesis
    proof (cases compensating)
      case False
      then show ?thesis using comp r pre at
        by (auto simp: runs_in_order_def intro!: exI [of _ "length before"] exI [of _ pre])
    next
      case True
      then have log4: "case r4 of Inr recs' \<Rightarrow> snd w4 = snd w3 @ rollback_of before
          | Inl e \<Rightarrow> \<exists>rb. rb \<noteq> [] \<and> prefix rb (rollback_of before) \<and> snd w4 = snd w3 @ rb"
        using compensate_log [of run now "rev (filter rs_mutates before)" recs' w3 w4 r4] comp
        by (cases r4) (simp_all add: rollback_of_def)
      show ?thesis
      proof (cases r4)
        case (Inr recs'')
        then show ?thesis using True log4 r pre at
          by (auto simp: runs_in_order_def intro!: exI [of _ "length before"] exI [of _ pre])
      next
        case (Inl e')
        then obtain rb where "rb \<noteq> []" "prefix rb (rollback_of before)" "snd w4 = snd w3 @ rb"
          using log4 by auto
        then have "\<exists>pre' rb'. pre' \<noteq> [] \<and> prefix pre' (rs_commands st)
            \<and> rb' \<noteq> [] \<and> prefix rb' (rollback_of before)
            \<and> snd w4 = commands_of before @ pre' @ rb'"
          using pre by (intro exI [of _ pre] exI [of _ rb]) simp
        then show ?thesis using True Inl r at
          by (auto simp: runs_in_order_def intro!: exI [of _ "length before"])
      qed
    qed
  qed
qed

lemma execution_order:
  assumes "execute_release_plan (logged run) (beside now) plan options (s, []) = (w', r)"
    and "\<not> ro_dry_run options"
  shows "runs_in_order (ro_compensate options) (rp_steps plan) (snd w') r"
proof (cases "ro_confirm options = Some (rp_hash plan)")
  case True
  then show ?thesis
    using assms run_steps_order [of run now "ro_compensate options" plan "rp_steps plan" "[]" "[]" "(s, [])" w' r]
    by (simp add: execute_release_plan_def commands_of_def)
qed (use assms in \<open>auto simp: execute_release_plan_def runs_in_order_def\<close>)

text \<open>Nothing runs before the confirmation, and a dry run runs nothing.\<close>

lemma execution_unconfirmed:
  assumes "execute_release_plan (logged run) (beside now) plan options (s, []) = (w', r)"
    and "ro_dry_run options \<or> ro_confirm options \<noteq> Some (rp_hash plan)"
  shows "snd w' = []"
  using assms
  by (auto simp: execute_release_plan_def beside_def split: prod.splits if_splits)

text \<open>The evidence of a run that succeeded: every step once, in the order of the plan.\<close>

lemma run_steps_evidence:
  "run_steps run now compensating plan rest completed recs s = (s', Inr ev) \<Longrightarrow>
     \<exists>new. ev = release_evidence_of plan False (recs @ new)
       \<and> map se_id new = map rs_id rest \<and> (\<forall>e\<in>set new. se_status e = Succeeded)"
proof (induction rest arbitrary: completed recs s)
  case (Cons st rest)
  obtain comps e s1 where "run_steps run now compensating plan rest comps (recs @ [e]) s1 = (s', Inr ev)"
    "se_id e = rs_id st" "se_status e = Succeeded"
    using Cons.prems by (auto simp: Let_def step_record_def split: sum.splits prod.splits if_splits)
  then show ?case using Cons.IH [of comps "recs @ [e]" s1] by force
qed simp

text \<open>C18: For any runner (which may throw or exit with any code at any command) and any clock,
  what an execution has run when it ends is determined by how it ends: a plan that succeeds has
  run every command of every step in order and its evidence has one succeeded record for each
  step; one that stops at a step has run the steps before it, a nonempty prefix of that step's
  commands, and then, if asked to compensate, the whole rollback of the mutating steps before
  it, latest first, and nothing of the failing step's own rollback; a compensation that fails
  has run a nonempty prefix of that rollback. A dry run, or a confirmation that is not the hash of
  the plan, runs nothing.\<close>

theorem release_runs_in_order:
  "case execute_release_plan (logged run) (beside now) plan options (s, []) of (w', r) \<Rightarrow>
     (if ro_confirm options = Some (rp_hash plan) \<and> \<not> ro_dry_run options
      then runs_in_order (ro_compensate options) (rp_steps plan) (snd w') r else snd w' = [])
     \<and> (case r of Inr ev \<Rightarrow>
          map se_id (re_steps ev) = map rs_id (rp_steps plan)
          \<and> re_dry_run ev = ro_dry_run options
          \<and> list_all (\<lambda>e. se_status e = (if ro_dry_run options then Planned else Succeeded)) (re_steps ev)
        | Inl _ \<Rightarrow> \<not> ro_dry_run options)"
proof -
  obtain w' r where run: "execute_release_plan (logged run) (beside now) plan options (s, []) = (w', r)"
    by fastforce
  have "case r of Inr ev \<Rightarrow>
          map se_id (re_steps ev) = map rs_id (rp_steps plan)
          \<and> re_dry_run ev = ro_dry_run options
          \<and> list_all (\<lambda>e. se_status e = (if ro_dry_run options then Planned else Succeeded)) (re_steps ev)
       | Inl _ \<Rightarrow> \<not> ro_dry_run options"
    using run
    by (auto simp: execute_release_plan_def release_evidence_of_def Let_def step_record_def list_all_iff
        split: sum.splits prod.splits if_splits dest!: run_steps_evidence)
  then show ?thesis
    using execution_unconfirmed [OF run] execution_order [OF run] by (auto simp: run)
qed

text \<open>The compensation leaves the step that failed as it is: when the apply plan stops at the
  worker step, the new worker manifest has been applied and the rollback manifest has not, with
  or without compensation, although the API and the console are put back.\<close>

lemma failed_worker_is_not_rolled_back:
  assumes "execute_release_plan (logged run) (beside now) (build_release_plan sha Apply m) options (s, [])
             = (w', Inl (Stopped ''worker'' ev))"
    and "so_manifest_path (rm_sealos m) \<noteq> so_rollback_manifest_path (rm_sealos m)"
  shows "kubectl_apply m (so_manifest_path (rm_sealos m)) \<in> set (snd w')
    \<and> kubectl_apply m (so_rollback_manifest_path (rm_sealos m)) \<notin> set (snd w')
    \<and> (restore_api m \<in> set (snd w')) = ro_compensate options"
proof -
  note defs = apply_steps_def step_def
  have "\<not> ro_dry_run options"
    using assms(1) by (auto simp: execute_release_plan_def split: prod.splits if_splits)
  from execution_order [OF assms(1) this] obtain k pre where
      k: "k < length (apply_steps m)" "rs_id (apply_steps m ! k) = ''worker''"
    and pre: "pre \<noteq> []" "prefix pre (rs_commands (apply_steps m ! k))"
    and trace: "snd w' = commands_of (take k (apply_steps m)) @ pre
        @ (if ro_compensate options then rollback_of (take k (apply_steps m)) else [])"
    by (auto simp: runs_in_order_def build_release_plan_def Let_def)
  have "k = 5"
    using k by (auto simp: defs less_Suc_eq)
  then have "pre \<in> {[kubectl_apply m (so_manifest_path (rm_sealos m))],
      [kubectl_apply m (so_manifest_path (rm_sealos m)), rollout_status m]}"
    using pre by (auto simp: defs prefix_Cons)
  then show ?thesis
    using assms(2) trace \<open>k = 5\<close>
    by (auto simp: defs commands_of_def rollback_of_def kubectl_apply_def rollout_status_def command_def
        check_commit_def list_migrations_def check_context_def restore_api_def restore_console_def
        deploy_console_def kubectl_prefix_def)
qed

end
