(* ===== verification/Legacy_Rehearsal_Plan.thy ===== *)
theory Legacy_Rehearsal_Plan
  imports Manifest_Checks
begin

text \<open>
  The manifest and the plan of the rollback rehearsal on the legacy path,
  \<open>packages/release-operations/src/legacy-rehearsal-plan.ts\<close>: almost every field is fixed, and
  the plan is the list of its steps with their commands, and of the commands that clean up. The
  hash of a plan is an argument, and the descriptions of its steps are left out.
\<close>

section \<open>Manifests\<close>

record legacy_images =
  li_mihomo :: string
  li_warp :: string
  li_worker :: string

record legacy_manifest =
  lm_channels_path :: string
  lm_compose_path :: string
  lm_seed_path :: string
  lm_backup_id :: string
  lm_backup_sha256 :: string
  lm_api_version :: string
  lm_console_commit :: string
  lm_legacy_cutoff :: string
  lm_migrations :: "string list"
  lm_images :: legacy_images
  lm_rto_seconds :: nat
  lm_run_id :: string
  lm_source_commit :: string

definition rehearsal_migrations :: "string list" where
  "rehearsal_migrations =
     [''apps/api/migrations/0001_initial.sql'',
      ''apps/api/migrations/0002_worker_runtime.sql'',
      ''apps/api/migrations/0003_queue_inbox.sql'',
      ''apps/api/migrations/0004_article_retry_safety.sql'',
      ''apps/api/migrations/0005_operations_readiness.sql'',
      ''apps/api/migrations/0006_operations_metrics.sql'',
      ''apps/api/migrations/0007_operations_baselines.sql'']"

text \<open>The list has to be the reviewed one, and the recovery time the reviewed bound.\<close>

definition legacy_migrations :: "json option \<Rightarrow> string list checked" where
  "legacy_migrations v =
     (if v = Some (JArr (map JStr rehearsal_migrations)) then Inr rehearsal_migrations
      else Inl (Bad_Value ''d1.migrations''))"

definition legacy_rto :: "json option \<Rightarrow> nat checked" where
  "legacy_rto v = (if v = Some (JNum 900) then Inr 900 else Inl (Bad_Value ''rtoSeconds''))"

definition legacy_run_id :: "json option \<Rightarrow> string checked" where
  "legacy_run_id v = matching_text (identifier_up_to 39) v ''runId''"

definition parse_legacy_images :: "json_record \<Rightarrow> legacy_images checked" where
  "parse_legacy_images es =
     check_then (as_image_digest (json_get es ''mihomo'') ''images.mihomo'') (\<lambda>mihomo.
     check_then (as_image_digest (json_get es ''warp'') ''images.warp'') (\<lambda>warp.
     check_then (as_image_digest (json_get es ''worker'') ''images.worker'') (\<lambda>worker.
       Inr \<lparr>li_mihomo = mihomo, li_warp = warp, li_worker = worker\<rparr>)))"

record legacy_sections =
  lg_assets :: json_record
  lg_backup :: json_record
  lg_cloudflare :: json_record
  lg_d1 :: json_record
  lg_images :: json_record

definition legacy_sections_of :: "json_record \<Rightarrow> legacy_sections checked" where
  "legacy_sections_of manifest =
     check_then (as_record (json_get manifest ''assets'') ''manifest.assets'') (\<lambda>assets.
     check_then (as_record (json_get manifest ''backup'') ''manifest.backup'') (\<lambda>backup.
     check_then (as_record (json_get manifest ''cloudflare'') ''manifest.cloudflare'') (\<lambda>cloudflare.
     check_then (as_record (json_get manifest ''d1'') ''manifest.d1'') (\<lambda>d1.
     check_then (as_record (json_get manifest ''images'') ''manifest.images'') (\<lambda>images.
     check_then (exact_keys assets [''channelsPath'', ''composePath'', ''postgresSeedPath''] ''manifest.assets'') (\<lambda>_.
     check_then (exact_keys backup [''id'', ''sha256''] ''manifest.backup'') (\<lambda>_.
     check_then (exact_keys cloudflare [''apiPreviousVersion'', ''consolePreviousCommit''] ''manifest.cloudflare'') (\<lambda>_.
     check_then (exact_keys d1 [''legacyCutoff'', ''migrations''] ''manifest.d1'') (\<lambda>_.
     check_then (exact_keys images [''mihomo'', ''warp'', ''worker''] ''manifest.images'') (\<lambda>_.
       Inr \<lparr>lg_assets = assets, lg_backup = backup, lg_cloudflare = cloudflare, lg_d1 = d1,
            lg_images = images\<rparr>))))))))))"

definition parse_legacy_manifest :: "json \<Rightarrow> legacy_manifest checked" where
  "parse_legacy_manifest v =
     check_then (as_record (Some v) ''manifest'') (\<lambda>root.
     check_then (exact_keys root [''assets'', ''backup'', ''cloudflare'', ''d1'', ''images'',
         ''rtoSeconds'', ''runId'', ''schemaVersion'', ''sourceCommit''] ''manifest'') (\<lambda>_.
     check_then (require (json_get root ''schemaVersion'' = Some (JNum 1)) (Bad_Value ''manifest.schemaVersion'')) (\<lambda>_.
     check_then (legacy_sections_of root) (\<lambda>lg.
     check_then (fixed_path (json_get (lg_assets lg) ''channelsPath'') ''deploy/rehearsal/synthetic-channels.yml'' ''assets.channelsPath'') (\<lambda>channels.
     check_then (fixed_path (json_get (lg_assets lg) ''composePath'') ''deploy/rehearsal/compose.yml'' ''assets.composePath'') (\<lambda>compose.
     check_then (fixed_path (json_get (lg_assets lg) ''postgresSeedPath'') ''deploy/rehearsal/postgres-seed.sql'' ''assets.postgresSeedPath'') (\<lambda>seed.
     check_then (as_text (json_get (lg_backup lg) ''id'') ''backup.id'') (\<lambda>backupId.
     check_then (as_hash (json_get (lg_backup lg) ''sha256'') ''backup.sha256'') (\<lambda>backupSha.
     check_then (as_text (json_get (lg_cloudflare lg) ''apiPreviousVersion'') ''cloudflare.apiPreviousVersion'') (\<lambda>api.
     check_then (as_commit (json_get (lg_cloudflare lg) ''consolePreviousCommit'') ''cloudflare.consolePreviousCommit'') (\<lambda>console.
     check_then (fixed_path (json_get (lg_d1 lg) ''legacyCutoff'') ''apps/api/migrations/0004_article_retry_safety.sql'' ''d1.legacyCutoff'') (\<lambda>cutoff.
     check_then (legacy_migrations (json_get (lg_d1 lg) ''migrations'')) (\<lambda>migrations.
     check_then (parse_legacy_images (lg_images lg)) (\<lambda>images.
     check_then (legacy_rto (json_get root ''rtoSeconds'')) (\<lambda>rto.
     check_then (legacy_run_id (json_get root ''runId'')) (\<lambda>runId.
     check_then (as_commit (json_get root ''sourceCommit'') ''sourceCommit'') (\<lambda>commit.
       Inr \<lparr>lm_channels_path = channels, lm_compose_path = compose, lm_seed_path = seed,
            lm_backup_id = backupId, lm_backup_sha256 = backupSha, lm_api_version = api,
            lm_console_commit = console, lm_legacy_cutoff = cutoff, lm_migrations = migrations,
            lm_images = images, lm_rto_seconds = rto, lm_run_id = runId,
            lm_source_commit = commit\<rparr>)))))))))))))))))"

section \<open>Plans\<close>

datatype legacy_step_id =
    Isolation_Preflight | Identity_Evidence | D1_Compatibility
  | Substitute_Worker_Stop | Legacy_Compose_Restore | Legacy_Reconciliation

record legacy_step =
  ls_id :: legacy_step_id
  ls_commands :: "release_command list"

record legacy_plan =
  lp_cleanup :: "release_command list"
  lp_manifest :: legacy_manifest
  lp_hash :: string
  lp_project :: string
  lp_steps :: "legacy_step list"

definition legacy_step_of :: "legacy_step_id \<Rightarrow> release_command list \<Rightarrow> legacy_step" where
  "legacy_step_of i commands = \<lparr>ls_id = i, ls_commands = commands\<rparr>"

definition compose_command :: "string \<Rightarrow> legacy_manifest \<Rightarrow> string list \<Rightarrow> release_command" where
  "compose_command project m args =
     command ''docker'' ([''compose'', ''--project-name'', project, ''--file'', lm_compose_path m] @ args)"

definition project_label :: "string \<Rightarrow> string" where
  "project_label project = ''label=com.docker.compose.project='' @ project"

definition legacy_steps :: "string \<Rightarrow> legacy_manifest \<Rightarrow> legacy_step list" where
  "legacy_steps project m =
     (let compose = compose_command project m
      in [legacy_step_of Isolation_Preflight
            [compose [''config'', ''--quiet''], compose [''build'', ''server'', ''worker'']],
          legacy_step_of Identity_Evidence [],
          legacy_step_of D1_Compatibility [],
          legacy_step_of Substitute_Worker_Stop
            [compose [''up'', ''-d'', ''substitute-worker''], compose [''stop'', ''substitute-worker'']],
          legacy_step_of Legacy_Compose_Restore
            [compose [''up'', ''-d'', ''--wait'', ''--wait-timeout'', decimal (lm_rto_seconds m),
               ''postgres'', ''redis'', ''server'', ''worker'']],
          legacy_step_of Legacy_Reconciliation
            [compose [''ps'', ''--format'', ''json''],
             compose [''exec'', ''-T'', ''postgres'', ''psql'', ''-U'', ''inbox'', ''-d'', ''inbox'', ''-Atc'',
               ''SELECT backup_id || '|' || record_count FROM rehearsal_backup_marker;'']]])"

definition cleanup_commands :: "string \<Rightarrow> legacy_manifest \<Rightarrow> release_command list" where
  "cleanup_commands project m =
     [compose_command project m [''down'', ''--volumes'', ''--remove-orphans''],
      command ''docker'' [''ps'', ''-a'', ''--filter'', project_label project, ''--format'', ''{{.ID}}''],
      command ''docker'' [''network'', ''ls'', ''--filter'', project_label project, ''--format'', ''{{.ID}}''],
      command ''docker'' [''volume'', ''ls'', ''--filter'', project_label project, ''--format'', ''{{.Name}}'']]"

definition build_legacy_plan ::
  "(legacy_manifest \<Rightarrow> string \<Rightarrow> legacy_step list \<Rightarrow> release_command list \<Rightarrow> string)
   \<Rightarrow> legacy_manifest \<Rightarrow> legacy_plan" where
  "build_legacy_plan sha m =
     (let project = ''inbox-rollback-'' @ lm_run_id m;
          steps = legacy_steps project m; cleanup = cleanup_commands project m
      in \<lparr>lp_cleanup = cleanup, lp_manifest = m, lp_hash = sha m project steps cleanup,
          lp_project = project, lp_steps = steps\<rparr>)"

section \<open>What a parsed manifest fixes\<close>

lemma parsed_legacy_manifest:
  assumes "parse_legacy_manifest v = Inr m"
  shows "lm_migrations m = rehearsal_migrations \<and> lm_rto_seconds m = 900
    \<and> lm_compose_path m = ''deploy/rehearsal/compose.yml''
    \<and> identifier_up_to 39 (lm_run_id m) \<and> hex_of_length 64 (lm_backup_sha256 m)"
  using assms
  by (auto simp: parse_legacy_manifest_def legacy_migrations_def legacy_rto_def legacy_run_id_def
      checked_results split: if_splits)

end
