(* ===== verification/Legacy_Rehearsal.thy ===== *)
theory Legacy_Rehearsal
  imports Release_Executor Legacy_Rehearsal_Plan
begin

text \<open>
  The rollback rehearsal on the legacy path,
  \<open>packages/release-operations/src/legacy-rehearsal-executor.ts\<close>: the steps run in order until
  one fails, and the clean-up always follows. The runner, the temporary directory, the identity
  check, the check of the D1 migrations and the clock are actions over the state of the host;
  the code's own identity and D1 checks are modelled at the end, over the file and the database
  operations they use. \<open>JSON.parse\<close> and the text of a number are arguments.
\<close>

section \<open>Evidence\<close>

record d1_result =
  d1_legacy_write_count :: nat
  d1_migration_count :: nat
  d1_stable_digest :: string

datatype legacy_record_id = Of_Step legacy_step_id | Of_Cleanup

record legacy_record =
  lr_command_count :: nat
  lr_finished_at :: int
  lr_id :: legacy_record_id
  lr_summary :: string
  lr_started_at :: int
  lr_status :: step_status

record residuals =
  rs_containers :: int
  rs_networks :: int
  rs_temp_files :: int
  rs_volumes :: int

record legacy_evidence =
  le_d1 :: "d1_result option"
  le_dry_run :: bool
  le_completed :: bool
  le_manifest :: legacy_manifest
  le_plan_hash :: string
  le_project :: string
  le_residuals :: residuals
  le_rto :: "int option"
  le_steps :: "legacy_record list"

definition zero_residuals :: residuals where
  "zero_residuals = \<lparr>rs_containers = 0, rs_networks = 0, rs_temp_files = 0, rs_volumes = 0\<rparr>"

fun step_label :: "legacy_step_id \<Rightarrow> string" where
  "step_label Isolation_Preflight = ''isolation-preflight''"
| "step_label Identity_Evidence = ''identity-evidence''"
| "step_label D1_Compatibility = ''d1-compatibility''"
| "step_label Substitute_Worker_Stop = ''substitute-worker-stop''"
| "step_label Legacy_Compose_Restore = ''legacy-compose-restore''"
| "step_label Legacy_Reconciliation = ''reconciliation''"

fun legacy_success :: "legacy_step_id \<Rightarrow> string" where
  "legacy_success D1_Compatibility = ''D1 legacy write, latest read and migration replay verified''"
| "legacy_success Identity_Evidence = ''backup and immutable deployment identities verified''"
| "legacy_success Isolation_Preflight = ''isolated compose validated and legacy runtime images built''"
| "legacy_success Legacy_Compose_Restore = ''legacy server and worker reached healthy state''"
| "legacy_success Legacy_Reconciliation = ''compose health and synthetic backup marker reconciled''"
| "legacy_success Substitute_Worker_Stop = ''substitute worker started and stopped''"

definition legacy_record_of :: "legacy_step \<Rightarrow> int \<Rightarrow> int \<Rightarrow> step_status \<Rightarrow> string \<Rightarrow> legacy_record" where
  "legacy_record_of st started finished status summary =
     \<lparr>lr_command_count = length (ls_commands st), lr_finished_at = finished,
      lr_id = Of_Step (ls_id st), lr_summary = summary, lr_started_at = started, lr_status = status\<rparr>"

definition legacy_evidence_of ::
  "legacy_plan \<Rightarrow> d1_result option \<Rightarrow> bool \<Rightarrow> bool \<Rightarrow> residuals \<Rightarrow> int option \<Rightarrow> legacy_record list
   \<Rightarrow> legacy_evidence" where
  "legacy_evidence_of plan d1 dry completed residuals rto steps =
     \<lparr>le_d1 = d1, le_dry_run = dry, le_completed = completed, le_manifest = lp_manifest plan,
      le_plan_hash = lp_hash plan, le_project = lp_project plan, le_residuals = residuals,
      le_rto = rto, le_steps = steps\<rparr>"

section \<open>Reconciliation\<close>

record compose_service =
  cs_health :: string
  cs_published_ports :: nat
  cs_service :: string
  cs_state :: string

text \<open>\<open>String(value)\<close>, the text of a number an argument.\<close>

function js_string :: "(rat \<Rightarrow> string) \<Rightarrow> json \<Rightarrow> string" where
  "js_string num JNull = ''null''"
| "js_string num (JBool b) = (if b then ''true'' else ''false'')"
| "js_string num (JNum x) = num x"
| "js_string num (JStr s) = s"
| "js_string num (JArr vs) =
     js_join '','' (map (\<lambda>v. if v = JNull then [] else js_string num v) vs)"
| "js_string num (JObj es) = ''[object Object]''"
  by pat_completeness auto
termination
  by (relation "measure (\<lambda>(num, v). size v)") (auto simp: less_Suc_eq_le size_list_estimation')

definition text_field :: "(rat \<Rightarrow> string) \<Rightarrow> json_record \<Rightarrow> string \<Rightarrow> string" where
  "text_field num es k =
     (case json_get es k of None \<Rightarrow> [] | Some JNull \<Rightarrow> [] | Some v \<Rightarrow> js_string num v)"

definition publishes :: "json \<Rightarrow> bool" where
  "publishes v =
     (case v of
        JObj es \<Rightarrow> (case json_get es ''PublishedPort'' of Some (JNum x) \<Rightarrow> x > 0 | _ \<Rightarrow> False)
      | _ \<Rightarrow> False)"

text \<open>A service of the list; only reading a field of \<open>null\<close> throws.\<close>

definition compose_service_of :: "(rat \<Rightarrow> string) \<Rightarrow> json \<Rightarrow> thrown + compose_service" where
  "compose_service_of num v =
     (if v = JNull then Inl (Thrown_TypeError ''Cannot read properties of null'')
      else
        let es = record_of v
        in Inr \<lparr>cs_health = text_field num es ''Health'',
             cs_published_ports = (case json_get es ''Publishers'' of
                 Some (JArr ps) \<Rightarrow> length (filter publishes ps) | _ \<Rightarrow> 0),
             cs_service = text_field num es ''Service'',
             cs_state = text_field num es ''State''\<rparr>)"

fun all_or_throw :: "('a \<Rightarrow> thrown + 'b) \<Rightarrow> 'a list \<Rightarrow> thrown + 'b list" where
  "all_or_throw f [] = Inr []"
| "all_or_throw f (x # xs) =
     (case f x of Inl e \<Rightarrow> Inl e
      | Inr y \<Rightarrow> (case all_or_throw f xs of Inl e \<Rightarrow> Inl e | Inr ys \<Rightarrow> Inr (y # ys)))"

definition parse_or_throw :: "(string \<Rightarrow> json option) \<Rightarrow> string \<Rightarrow> thrown + json" where
  "parse_or_throw json_of s =
     (case json_of s of None \<Rightarrow> Inl (Thrown_Error ''invalid JSON'') | Some v \<Rightarrow> Inr v)"

definition compose_values :: "(string \<Rightarrow> json option) \<Rightarrow> string \<Rightarrow> thrown + json list" where
  "compose_values json_of trimmed =
     (if starts_with ''['' trimmed then
        (case parse_or_throw json_of trimmed of
           Inl e \<Rightarrow> Inl e
         | Inr (JArr vs) \<Rightarrow> Inr vs
         | Inr _ \<Rightarrow> Inl (Thrown_TypeError ''map is not a function''))
      else all_or_throw (parse_or_throw json_of) (filter (\<lambda>l. l \<noteq> []) (split_on (CHR ''\<newline>'') trimmed)))"

definition compose_services ::
  "(rat \<Rightarrow> string) \<Rightarrow> (string \<Rightarrow> json option) \<Rightarrow> string \<Rightarrow> thrown + compose_service list" where
  "compose_services num json_of stdout =
     (let trimmed = js_trim stdout
      in if trimmed = [] then Inl (Thrown_Error ''docker compose ps returned no service'')
         else case compose_values json_of trimmed of
                Inl e \<Rightarrow> Inl e
              | Inr vs \<Rightarrow> all_or_throw (compose_service_of num) vs)"

definition expected_services :: "string list" where
  "expected_services = [''postgres'', ''redis'', ''server'', ''worker'']"

definition healthy_service :: "compose_service list \<Rightarrow> string \<Rightarrow> bool" where
  "healthy_service services name =
     (case find (\<lambda>s. cs_service s = name) services of
        None \<Rightarrow> False
      | Some s \<Rightarrow> cs_state s = ''running'' \<and> cs_health s = ''healthy'' \<and> cs_published_ports s = 0)"

definition stdout_at :: "command_result list \<Rightarrow> nat \<Rightarrow> string" where
  "stdout_at results i = (if i < length results then cr_stdout (results ! i) else [])"

definition assert_reconciliation ::
  "(rat \<Rightarrow> string) \<Rightarrow> (string \<Rightarrow> json option) \<Rightarrow> legacy_plan \<Rightarrow> command_result list \<Rightarrow> thrown + unit" where
  "assert_reconciliation num json_of plan results =
     (case compose_services num json_of (stdout_at results 0) of
        Inl e \<Rightarrow> Inl e
      | Inr services \<Rightarrow>
          if \<not> list_all (healthy_service services) expected_services then
            Inl (Thrown_Error ''a compose service is not healthy or publishes a port'')
          else if js_trim (stdout_at results 1) \<noteq> lm_backup_id (lp_manifest plan) @ ''|1'' then
            Inl (Thrown_Error ''backup marker mismatch'')
          else Inr ())"

section \<open>Execution\<close>

record 's legacy_env =
  ln_runner :: "'s runner"
  ln_now :: "'s clock"
  ln_mkdtemp :: "string \<Rightarrow> ('s, string) action"
  ln_rm :: "string \<Rightarrow> ('s, unit) action"
  ln_exists :: "string \<Rightarrow> ('s, bool) action"
  ln_identity :: "legacy_manifest \<Rightarrow> ('s, unit) action"
  ln_d1 :: "legacy_manifest \<Rightarrow> string \<Rightarrow> ('s, d1_result) action"
  ln_number_text :: "rat \<Rightarrow> string"
  ln_json_of :: "string \<Rightarrow> json option"
  ln_tmp :: string

text \<open>\<open>executeStep\<close>: the results of the commands, and the D1 result of the D1 step.\<close>

definition execute_step ::
  "'s legacy_env \<Rightarrow> legacy_manifest \<Rightarrow> string \<Rightarrow> legacy_step
   \<Rightarrow> ('s, command_result list \<times> d1_result option) action" where
  "execute_step en m tmp st =
     and_then (if ls_id st = Identity_Evidence then ln_identity en m else ret ()) (\<lambda>_.
     and_then (if ls_id st = D1_Compatibility then and_then (ln_d1 en m tmp) (\<lambda>d. ret (Some d)) else ret None) (\<lambda>d1.
     and_then (run_commands (exit_error (step_label (ls_id st)) legacy_summary) (ln_runner en) (ls_commands st)) (\<lambda>rs.
       ret (rs, d1))))"

record legacy_progress =
  lq_records :: "legacy_record list"
  lq_d1 :: "d1_result option"
  lq_rto_started :: "int option"
  lq_rto :: "int option"

text \<open>
  What follows the commands of a step, in its \<open>try\<close>: the recovery time after the restore, the
  D1 result, the reconciliation. The progress is the one kept also when the step fails.
\<close>

definition rto_error :: thrown where
  "rto_error = Thrown_Error ''RTO over the bound''"

definition after_step ::
  "'s legacy_env \<Rightarrow> legacy_plan \<Rightarrow> legacy_step \<Rightarrow> command_result list \<times> d1_result option \<Rightarrow> legacy_progress
   \<Rightarrow> 's \<Rightarrow> 's \<times> legacy_progress \<times> thrown option" where
  "after_step en plan st results q s =
     (case (if ls_id st = Legacy_Compose_Restore then lq_rto_started q else None) of
        Some started \<Rightarrow>
          (let (s1, t) = ln_now en s; rto = t - started
           in (s1, q\<lparr>lq_rto := Some rto\<rparr>,
               if rto > int (lm_rto_seconds (lp_manifest plan)) * 1000 then Some rto_error else None))
      | None \<Rightarrow>
          (s, if ls_id st = D1_Compatibility then q\<lparr>lq_d1 := snd results\<rparr> else q,
           if ls_id st = Legacy_Reconciliation then
             (case assert_reconciliation (ln_number_text en) (ln_json_of en) plan (fst results) of
                Inl e \<Rightarrow> Some e | Inr _ \<Rightarrow> None)
           else None))"

definition note_start :: "legacy_step \<Rightarrow> int \<Rightarrow> legacy_progress \<Rightarrow> legacy_progress" where
  "note_start st started q =
     (if ls_id st = Substitute_Worker_Stop then q\<lparr>lq_rto_started := Some started\<rparr> else q)"

fun run_legacy_steps ::
  "'s legacy_env \<Rightarrow> legacy_plan \<Rightarrow> string \<Rightarrow> legacy_step list \<Rightarrow> legacy_progress \<Rightarrow> 's
   \<Rightarrow> 's \<times> legacy_progress \<times> thrown option" where
  "run_legacy_steps en plan tmp [] q s = (s, q, None)"
| "run_legacy_steps en plan tmp (st # rest) q s =
     (let (s1, started) = ln_now en s;
          q1 = note_start st started q;
          (s2, r) = execute_step en (lp_manifest plan) tmp st s1;
          (s3, q2, failure) = (case r of
              Inl e \<Rightarrow> (s2, q1, Some e)
            | Inr results \<Rightarrow> after_step en plan st results q1 s2);
          (s4, finished) = ln_now en s3
      in case failure of
           None \<Rightarrow> run_legacy_steps en plan tmp rest
             (q2\<lparr>lq_records := lq_records q2 @
                [legacy_record_of st started finished Succeeded (legacy_success (ls_id st))]\<rparr>) s4
         | Some e \<Rightarrow>
             (s4, q2\<lparr>lq_records := lq_records q2 @
                [legacy_record_of st started finished Failed
                   (legacy_summary (error_text ''unknown error'' e))]\<rparr>, Some e))"

text \<open>The clean-up: every command runs, and the first failure is kept.\<close>

definition cleanup_step_result ::
  "(thrown + command_result) \<Rightarrow> command_result" where
  "cleanup_step_result r = (case r of
     Inr x \<Rightarrow> x
   | Inl e \<Rightarrow> \<lparr>cr_exit_code = 1, cr_stderr = legacy_summary (error_text ''unknown'' e), cr_stdout = []\<rparr>)"

definition cleanup_step_failure :: "(thrown + command_result) \<Rightarrow> thrown option" where
  "cleanup_step_failure r = (case r of
     Inl e \<Rightarrow> Some e
   | Inr x \<Rightarrow> if cr_exit_code x \<noteq> 0 then Some (exit_error ''cleanup'' legacy_summary x) else None)"

fun run_cleanup ::
  "'s runner \<Rightarrow> release_command list \<Rightarrow> 's \<Rightarrow> 's \<times> command_result list \<times> thrown option" where
  "run_cleanup run [] s = (s, [], None)"
| "run_cleanup run (c # cs) s =
     (let (s1, r) = run c s; (s2, rs, later) = run_cleanup run cs s1
      in (s2, cleanup_step_result r # rs,
          case cleanup_step_failure r of Some e \<Rightarrow> Some e | None \<Rightarrow> later))"

text \<open>\<open>resultCount\<close>: the lines that are not blank, or -1.\<close>

definition result_count :: "command_result list \<Rightarrow> nat \<Rightarrow> int" where
  "result_count rs i =
     (if i \<ge> length rs \<or> cr_exit_code (rs ! i) \<noteq> 0 then -1
      else int (length (filter (\<lambda>l. js_trim l \<noteq> []) (split_on (CHR ''\<newline>'') (cr_stdout (rs ! i))))))"

definition no_residuals :: "residuals \<Rightarrow> bool" where
  "no_residuals x = (x = zero_residuals)"

definition residual_error :: thrown where
  "residual_error = Thrown_Error ''cleanup left residuals''"

definition cleanup_rehearsal ::
  "'s legacy_env \<Rightarrow> legacy_plan \<Rightarrow> string \<Rightarrow> ('s, thrown option \<times> legacy_record \<times> residuals) action" where
  "cleanup_rehearsal en plan tmp =
     and_then (tick (ln_now en)) (\<lambda>started s.
       let (s1, rs, failure) = run_cleanup (ln_runner en) (lp_cleanup plan) s
       in and_then (ln_rm en tmp) (\<lambda>_. and_then (ln_exists en tmp) (\<lambda>left.
            let residuals = \<lparr>rs_containers = result_count rs 1, rs_networks = result_count rs 2,
                  rs_temp_files = (if left then 1 else 0), rs_volumes = result_count rs 3\<rparr>;
                failure' = (if \<not> no_residuals residuals \<and> failure = None then Some residual_error else failure)
            in and_then (tick (ln_now en)) (\<lambda>finished.
                 ret (failure',
                   \<lparr>lr_command_count = length (lp_cleanup plan), lr_finished_at = finished, lr_id = Of_Cleanup,
                    lr_summary = (case failure' of None \<Rightarrow> ''cleanup completed''
                      | Some e \<Rightarrow> legacy_summary (error_text ''cleanup failed'' e)),
                    lr_started_at = started,
                    lr_status = (if failure' = None then Succeeded else Failed)\<rparr>,
                   residuals)))) s1)"

datatype legacy_failure =
    Legacy_Not_Confirmed
  | Legacy_Thrown thrown
  | Legacy_Failed string legacy_evidence

definition dry_legacy :: "legacy_plan \<Rightarrow> int \<Rightarrow> legacy_evidence" where
  "dry_legacy plan t =
     legacy_evidence_of plan None True True zero_residuals None
       (map (\<lambda>st. legacy_record_of st t t Planned ''dry-run: no command executed'') (lp_steps plan))"

definition execute_legacy ::
  "'s legacy_env \<Rightarrow> bool \<Rightarrow> string option \<Rightarrow> legacy_plan \<Rightarrow> 's \<Rightarrow> 's \<times> (legacy_failure + legacy_evidence)" where
  "execute_legacy en dry confirm plan s =
     (if dry then (let (s1, t) = ln_now en s in (s1, Inr (dry_legacy plan t)))
      else if confirm \<noteq> Some (lp_hash plan) then (s, Inl Legacy_Not_Confirmed)
      else
        case ln_mkdtemp en (ln_tmp en @ ''/inbox-'' @ lm_run_id (lp_manifest plan) @ ''-'') s of
          (s1, Inl e) \<Rightarrow> (s1, Inl (Legacy_Thrown e))
        | (s1, Inr tmp) \<Rightarrow>
            (let (s2, q, failure) = run_legacy_steps en plan tmp (lp_steps plan)
                   \<lparr>lq_records = [], lq_d1 = None, lq_rto_started = None, lq_rto = None\<rparr> s1
             in case cleanup_rehearsal en plan tmp s2 of
                  (s3, Inl e) \<Rightarrow> (s3, Inl (Legacy_Thrown e))
                | (s3, Inr (cfailure, crecord, residuals)) \<Rightarrow>
                    (let failure' = (if failure = None then cfailure else failure);
                         ev = legacy_evidence_of plan (lq_d1 q) False (failure' = None) residuals (lq_rto q)
                           (lq_records q @ [crecord])
                     in case failure' of
                          None \<Rightarrow> (s3, Inr ev)
                        | Some e \<Rightarrow>
                            (s3, Inl (Legacy_Failed (legacy_summary (error_text ''unknown error'' e)) ev)))))"

section \<open>One step of a rehearsal\<close>

lemma legacy_step_cases:
  obtains s1 t s2 r s3 q2 failure s4 t4 where
    "ln_now en s = (s1, t)" "execute_step en (lp_manifest plan) tmp st s1 = (s2, r)"
    "(case r of Inl e \<Rightarrow> (s2, note_start st t q, Some e)
      | Inr results \<Rightarrow> after_step en plan st results (note_start st t q) s2) = (s3, q2, failure)"
    "ln_now en s3 = (s4, t4)"
    "run_legacy_steps en plan tmp (st # rest) q s =
       (case failure of
          None \<Rightarrow> run_legacy_steps en plan tmp rest
            (q2\<lparr>lq_records := lq_records q2 @
               [legacy_record_of st t t4 Succeeded (legacy_success (ls_id st))]\<rparr>) s4
        | Some e \<Rightarrow>
            (s4, q2\<lparr>lq_records := lq_records q2 @
               [legacy_record_of st t t4 Failed (legacy_summary (error_text ''unknown error'' e))]\<rparr>, Some e))"
proof -
  obtain s1 t where t: "ln_now en s = (s1, t)" by fastforce
  obtain s2 r where exec: "execute_step en (lp_manifest plan) tmp st s1 = (s2, r)" by fastforce
  obtain s3 q2 failure where after: "(case r of Inl e \<Rightarrow> (s2, note_start st t q, Some e)
      | Inr results \<Rightarrow> after_step en plan st results (note_start st t q) s2) = (s3, q2, failure)"
    by (metis prod_cases3)
  obtain s4 t4 where t4: "ln_now en s3 = (s4, t4)" by fastforce
  show thesis by (rule that [OF t exec after t4]) (simp add: Let_def t exec after t4)
qed

section \<open>The clean-up always runs\<close>

definition aside :: "('s, 'a) action \<Rightarrow> ('s \<times> release_command list, 'a) action" where
  "aside act w = (let (s', r) = act (fst w) in ((s', snd w), r))"

text \<open>A host that writes down the commands its runner is given.\<close>

definition watched :: "'s legacy_env \<Rightarrow> ('s \<times> release_command list) legacy_env" where
  "watched en =
     \<lparr>ln_runner = logged (ln_runner en), ln_now = beside (ln_now en),
      ln_mkdtemp = (\<lambda>p. aside (ln_mkdtemp en p)), ln_rm = (\<lambda>p. aside (ln_rm en p)),
      ln_exists = (\<lambda>p. aside (ln_exists en p)), ln_identity = (\<lambda>m. aside (ln_identity en m)),
      ln_d1 = (\<lambda>m p. aside (ln_d1 en m p)), ln_number_text = ln_number_text en,
      ln_json_of = ln_json_of en, ln_tmp = ln_tmp en\<rparr>"

lemma watched_simps [simp]:
  "ln_runner (watched en) = logged (ln_runner en)" "ln_now (watched en) = beside (ln_now en)"
  "ln_mkdtemp (watched en) p = aside (ln_mkdtemp en p)" "ln_rm (watched en) p = aside (ln_rm en p)"
  "ln_exists (watched en) p = aside (ln_exists en p)" "ln_identity (watched en) m = aside (ln_identity en m)"
  "ln_d1 (watched en) m p = aside (ln_d1 en m p)"
  by (simp_all add: watched_def)

lemma aside_log: "aside act w = (w', r) \<Longrightarrow> snd w' = snd w"
  by (auto simp: aside_def split: prod.splits)

lemma execute_step_log:
  assumes "execute_step (watched en) m tmp st w = (w', r)"
  shows "\<exists>pre. prefix pre (ls_commands st) \<and> snd w' = snd w @ pre
    \<and> (case r of Inr _ \<Rightarrow> pre = ls_commands st | Inl _ \<Rightarrow> True)"
proof -
  let ?a1 = "if ls_id st = Identity_Evidence then aside (ln_identity en m) else ret ()"
  let ?a2 = "if ls_id st = D1_Compatibility then and_then (aside (ln_d1 en m tmp)) (\<lambda>d. ret (Some d)) else ret None"
  obtain w1 r1 where a1: "?a1 w = (w1, r1)" by fastforce
  then have log1: "snd w1 = snd w" by (auto simp: ret_def dest: aside_log split: if_splits)
  obtain w2 r2 where a2: "?a2 w1 = (w2, r2)" by fastforce
  then have log2: "snd w2 = snd w1"
    by (auto simp: ret_def and_then_def dest: aside_log split: if_splits prod.splits sum.splits)
  obtain w3 r3 where a3: "run_commands (exit_error (step_label (ls_id st)) legacy_summary)
      (logged (ln_runner en)) (ls_commands st) w2 = (w3, r3)" by fastforce
  have step: "execute_step (watched en) m tmp st w =
      (case r1 of Inl e \<Rightarrow> (w1, Inl e) | Inr _ \<Rightarrow>
        (case r2 of Inl e \<Rightarrow> (w2, Inl e) | Inr d1 \<Rightarrow>
          (case r3 of Inl e \<Rightarrow> (w3, Inl e) | Inr rs \<Rightarrow> (w3, Inr (rs, d1)))))"
    unfolding execute_step_def watched_simps and_then_def [of ?a1] and_then_def [of ?a2] a1
    by (cases r1) (simp_all add: a2 a3 and_then_def ret_def split: sum.split)
  then show ?thesis
    using assms run_commands_log [OF a3] log1 log2 by (auto split: sum.splits)
qed

lemma after_step_log:
  assumes "after_step (watched en) plan st results q w = (w', q', f)"
  shows "snd w' = snd w"
  using assms by (auto simp: after_step_def watched_def Let_def dest: beside_log split: option.splits prod.splits if_splits)

lemma run_legacy_steps_log:
  assumes "run_legacy_steps (watched en) plan tmp sts q w = (w', q', f)"
  shows "\<exists>pre. prefix pre (concat (map ls_commands sts)) \<and> snd w' = snd w @ pre"
  using assms
proof (induction sts arbitrary: q w)
  case (Cons st rest)
  obtain w1 t w2 r w3 q2 f2 w4 t4 where
      t: "ln_now (watched en) w = (w1, t)"
    and exec: "execute_step (watched en) (lp_manifest plan) tmp st w1 = (w2, r)"
    and after: "(case r of Inl e \<Rightarrow> (w2, note_start st t q, Some e)
      | Inr results \<Rightarrow> after_step (watched en) plan st results (note_start st t q) w2) = (w3, q2, f2)"
    and t4: "ln_now (watched en) w3 = (w4, t4)"
    and whole: "run_legacy_steps (watched en) plan tmp (st # rest) q w =
       (case f2 of
          None \<Rightarrow> run_legacy_steps (watched en) plan tmp rest
            (q2\<lparr>lq_records := lq_records q2 @
               [legacy_record_of st t t4 Succeeded (legacy_success (ls_id st))]\<rparr>) w4
        | Some e \<Rightarrow>
            (w4, q2\<lparr>lq_records := lq_records q2 @
               [legacy_record_of st t t4 Failed (legacy_summary (error_text ''unknown error'' e))]\<rparr>, Some e))"
    by (rule legacy_step_cases)
  have logs: "snd w1 = snd w" "snd w3 = snd w2" "snd w4 = snd w3"
    using t t4 after by (auto dest: beside_log after_step_log split: sum.splits)
  obtain pre where pre: "prefix pre (ls_commands st)" "snd w2 = snd w1 @ pre"
      "case r of Inr _ \<Rightarrow> pre = ls_commands st | Inl _ \<Rightarrow> True"
    using execute_step_log [OF exec] by blast
  show ?case
  proof (cases f2)
    case (Some e)
    then have "w' = w4" using Cons.prems whole by auto
    then show ?thesis using pre logs by (auto intro: prefix_prefix)
  next
    case None
    then have "\<exists>x. r = Inr x" using after by (cases r) auto
    then have full: "snd w4 = snd w @ ls_commands st" using pre logs by auto
    obtain q3 where "run_legacy_steps (watched en) plan tmp rest q3 w4 = (w', q', f)"
      using Cons.prems whole None by auto
    from Cons.IH [OF this] obtain pre' where "prefix pre' (concat (map ls_commands rest))" "snd w' = snd w4 @ pre'"
      by blast
    then show ?thesis using full by (intro exI [of _ "ls_commands st @ pre'"]) simp
  qed
qed simp

lemma run_cleanup_log:
  "run_cleanup (logged run) cs w = (w', rs, f) \<Longrightarrow> snd w' = snd w @ cs \<and> length rs = length cs"
proof (induction cs arbitrary: w w' rs f)
  case (Cons c cs)
  obtain w1 r where c: "logged run c w = (w1, r)" by fastforce
  obtain w2 rs2 f2 where rest: "run_cleanup (logged run) cs w1 = (w2, rs2, f2)"
    by (metis prod_cases3)
  show ?case using Cons.prems Cons.IH [OF rest] logged_log [OF c] by (auto simp: c rest)
qed simp

lemma cleanup_rehearsal_log:
  assumes "cleanup_rehearsal (watched en) plan tmp w = (w', r)"
  shows "snd w' = snd w @ lp_cleanup plan"
proof -
  obtain w1 t where t: "beside (ln_now en) w = (w1, t)" by fastforce
  obtain w2 rs f where clean: "run_cleanup (logged (ln_runner en)) (lp_cleanup plan) w1 = (w2, rs, f)"
    by (metis prod_cases3)
  have "snd w' = snd w2"
    using assms t clean
    by (auto simp: cleanup_rehearsal_def and_then_def tick_def ret_def Let_def
        dest!: aside_log beside_log split: prod.splits sum.splits)
  then show ?thesis using run_cleanup_log [OF clean] beside_log [OF t] by simp
qed


section \<open>What a completed rehearsal has shown\<close>

text \<open>A step that succeeds, and what it leaves in the progress.\<close>

definition progress_ok :: "legacy_plan \<Rightarrow> legacy_step \<Rightarrow> legacy_progress \<Rightarrow> legacy_progress \<Rightarrow> bool" where
  "progress_ok plan st q q' =
     ((\<exists>d. lq_records q' = lq_records q @ [d] \<and> lr_id d = Of_Step (ls_id st) \<and> lr_status d = Succeeded)
      \<and> (lq_rto_started q' \<noteq> None) = (lq_rto_started q \<noteq> None \<or> ls_id st = Substitute_Worker_Stop)
      \<and> (if ls_id st = Legacy_Compose_Restore \<and> lq_rto_started q \<noteq> None
         then \<exists>t. lq_rto q' = Some t \<and> t \<le> int (lm_rto_seconds (lp_manifest plan)) * 1000
         else lq_rto q' = lq_rto q)
      \<and> (if ls_id st = D1_Compatibility then lq_d1 q' \<noteq> None else lq_d1 q' = lq_d1 q))"

lemma execute_step_d1:
  assumes "execute_step en m tmp st s = (s', Inr (rs, d1))"
  shows "(d1 \<noteq> None) = (ls_id st = D1_Compatibility)"
  using assms by (auto simp: execute_step_def action_results split: if_splits)

lemma step_succeeds:
  assumes "run_legacy_steps en plan tmp (st # rest) q s = (s', q', None)"
  obtains s4 q3 where "run_legacy_steps en plan tmp rest q3 s4 = (s', q', None)" "progress_ok plan st q q3"
proof -
  obtain s1 t s2 r s3 q2 failure s4 t4 where
      exec: "execute_step en (lp_manifest plan) tmp st s1 = (s2, r)"
    and after: "(case r of Inl e \<Rightarrow> (s2, note_start st t q, Some e)
      | Inr results \<Rightarrow> after_step en plan st results (note_start st t q) s2) = (s3, q2, failure)"
    and whole: "run_legacy_steps en plan tmp (st # rest) q s =
       (case failure of
          None \<Rightarrow> run_legacy_steps en plan tmp rest
            (q2\<lparr>lq_records := lq_records q2 @
               [legacy_record_of st t t4 Succeeded (legacy_success (ls_id st))]\<rparr>) s4
        | Some e \<Rightarrow>
            (s4, q2\<lparr>lq_records := lq_records q2 @
               [legacy_record_of st t t4 Failed (legacy_summary (error_text ''unknown error'' e))]\<rparr>, Some e))"
    by (rule legacy_step_cases)
  from whole assms have "failure = None" by (cases failure) auto
  with after obtain rs d1 where r: "r = Inr (rs, d1)"
    and ok: "after_step en plan st (rs, d1) (note_start st t q) s2 = (s3, q2, None)"
    by (cases r) auto
  show thesis
  proof (rule that)
    show "run_legacy_steps en plan tmp rest
        (q2\<lparr>lq_records := lq_records q2 @
          [legacy_record_of st t t4 Succeeded (legacy_success (ls_id st))]\<rparr>) s4 = (s', q', None)"
      using whole assms \<open>failure = None\<close> by simp
    show "progress_ok plan st q (q2\<lparr>lq_records := lq_records q2 @
          [legacy_record_of st t t4 Succeeded (legacy_success (ls_id st))]\<rparr>)"
      using ok execute_step_d1 [OF exec [unfolded r]]
      by (auto simp: progress_ok_def after_step_def note_start_def legacy_record_of_def Let_def
          split: option.splits if_splits prod.splits sum.splits)
  qed
qed

lemma tick_result: "tick now s = (s', x) \<longleftrightarrow> (\<exists>t. now s = (s', t) \<and> x = Inr t)"
  by (auto simp: tick_def split: prod.splits)

lemma run_cleanup_status:
  "run_cleanup run cs s = (s', rs, f) \<Longrightarrow> f = None \<Longrightarrow> list_all (\<lambda>r. cr_exit_code r = 0) rs"
proof (induction cs arbitrary: s rs f)
  case (Cons c cs)
  obtain s1 r where c: "run c s = (s1, r)" by fastforce
  obtain s2 rs2 f2 where rest: "run_cleanup run cs s1 = (s2, rs2, f2)" by (metis prod_cases3)
  show ?case using Cons.prems Cons.IH [of s1 rs2 f2] rest
    by (auto simp: c cleanup_step_failure_def cleanup_step_result_def split: sum.splits option.splits if_splits)
qed simp

lemma cleanup_rehearsal_result:
  assumes "cleanup_rehearsal en plan tmp s = (s', Inr (f, d, residuals))"
  shows "lr_id d = Of_Cleanup \<and> lr_status d = (if f = None then Succeeded else Failed)
    \<and> (f = None \<longrightarrow> residuals = zero_residuals)"
proof -
  obtain s1 started where t: "ln_now en s = (s1, started)" by fastforce
  obtain s2 rs g where clean: "run_cleanup (ln_runner en) (lp_cleanup plan) s1 = (s2, rs, g)"
    by (metis prod_cases3)
  show ?thesis
    using assms
    by (auto simp: cleanup_rehearsal_def and_then_def [of "tick (ln_now en)" _ s] tick_def [of _ s] t clean
        action_results tick_result no_residuals_def Let_def split: if_splits)
qed

definition record_done :: "legacy_record \<Rightarrow> legacy_record_id \<Rightarrow> bool" where
  "record_done d i = (lr_id d = i \<and> lr_status d = Succeeded)"

text \<open>For any host, a rehearsal of a plan built from an accepted manifest that reports completion
  has succeeded in all six steps in order and in the clean-up; it has a result of the D1 check,
  a measured recovery time of at most 900 seconds, and nothing is left: no container, no network, no
  volume and no temporary file.\<close>

lemma completed_rehearsal_is_true:
  assumes "parse_legacy_manifest v = Inr m"
    and "execute_legacy en False confirm (build_legacy_plan sha m) s = (s', Inr ev)"
  shows "list_all2 record_done (le_steps ev)
      (map Of_Step [Isolation_Preflight, Identity_Evidence, D1_Compatibility, Substitute_Worker_Stop,
         Legacy_Compose_Restore, Legacy_Reconciliation] @ [Of_Cleanup])
    \<and> le_completed ev \<and> le_d1 ev \<noteq> None \<and> le_residuals ev = zero_residuals
    \<and> (\<exists>t. le_rto ev = Some t \<and> t \<le> 900000)"
proof -
  let ?plan = "build_legacy_plan sha m"
  let ?q = "\<lparr>lq_records = [], lq_d1 = None, lq_rto_started = None, lq_rto = None\<rparr>"
  have steps: "map ls_id (lp_steps ?plan) = [Isolation_Preflight, Identity_Evidence, D1_Compatibility,
      Substitute_Worker_Stop, Legacy_Compose_Restore, Legacy_Reconciliation]"
    by (simp add: build_legacy_plan_def legacy_steps_def legacy_step_of_def Let_def)
  then obtain a b c d e f where list: "lp_steps ?plan = [a, b, c, d, e, f]"
    by (auto simp: map_eq_Cons_conv)
  have m: "lm_rto_seconds (lp_manifest ?plan) = 900"
    using parsed_legacy_manifest [OF assms(1)] by (simp add: build_legacy_plan_def Let_def)
  have confirm: "confirm = Some (lp_hash ?plan)"
    using assms(2) by (auto simp: execute_legacy_def split: if_splits)
  from assms(2) obtain tmp s1 s2 q cf cd res where
      run: "run_legacy_steps en ?plan tmp (lp_steps ?plan) ?q s1 = (s2, q, None)"
    and clean: "cleanup_rehearsal en ?plan tmp s2 = (s', Inr (None, cd, res))"
    and ev: "ev = legacy_evidence_of ?plan (lq_d1 q) False True res (lq_rto q) (lq_records q @ [cd])"
    by (auto simp: execute_legacy_def Let_def split: if_splits prod.splits sum.splits option.splits)
  from run [unfolded list] obtain q1 q2 q3 q4 q5 where ok:
      "progress_ok ?plan a ?q q1" "progress_ok ?plan b q1 q2" "progress_ok ?plan c q2 q3"
      "progress_ok ?plan d q3 q4" "progress_ok ?plan e q4 q5" "progress_ok ?plan f q5 q"
    by (elim step_succeeds) simp
  have ids: "ls_id a = Isolation_Preflight" "ls_id b = Identity_Evidence" "ls_id c = D1_Compatibility"
      "ls_id d = Substitute_Worker_Stop" "ls_id e = Legacy_Compose_Restore" "ls_id f = Legacy_Reconciliation"
    using steps list by simp_all
  show ?thesis
    using ok cleanup_rehearsal_result [OF clean]
    by (auto simp: progress_ok_def ids m ev legacy_evidence_of_def record_done_def)
qed

definition sample_legacy :: json where
  "sample_legacy = JObj
    [(''assets'', JObj [(''channelsPath'', JStr ''deploy/rehearsal/synthetic-channels.yml''),
        (''composePath'', JStr ''deploy/rehearsal/compose.yml''),
        (''postgresSeedPath'', JStr ''deploy/rehearsal/postgres-seed.sql'')]),
     (''backup'', JObj [(''id'', JStr ''b1''), (''sha256'', JStr (replicate 64 (CHR ''0'')))]),
     (''cloudflare'', JObj [(''apiPreviousVersion'', JStr ''v1''),
        (''consolePreviousCommit'', JStr (replicate 40 (CHR ''a'')))]),
     (''d1'', JObj [(''legacyCutoff'', JStr ''apps/api/migrations/0004_article_retry_safety.sql''),
        (''migrations'', JArr (map JStr rehearsal_migrations))]),
     (''images'', JObj [(''mihomo'', JStr sample_digest), (''warp'', JStr sample_digest), (''worker'', JStr sample_digest)]),
     (''rtoSeconds'', JNum 900), (''runId'', JStr ''run-01''), (''schemaVersion'', JNum 1),
     (''sourceCommit'', JStr (replicate 40 (CHR ''a'')))]"

definition sample_services :: json where
  "sample_services = JArr (map (\<lambda>name. JObj [(''Service'', JStr name), (''State'', JStr ''running''),
     (''Health'', JStr ''healthy'')]) expected_services)"

text \<open>A host on which every command succeeds and the listings of the clean-up are empty.\<close>

definition sample_runner :: "unit runner" where
  "sample_runner c s =
     (s, Inr \<lparr>cr_exit_code = 0, cr_stderr = [],
        cr_stdout = (if ''json'' \<in> set (rc_args c) then ''[]''
          else if ''-Atc'' \<in> set (rc_args c) then ''b1|1'' else [])\<rparr>)"

definition sample_legacy_env :: "unit legacy_env" where
  "sample_legacy_env =
     \<lparr>ln_runner = sample_runner, ln_now = (\<lambda>s. (s, 7)), ln_mkdtemp = (\<lambda>_. ret ''/tmp/x''),
      ln_rm = (\<lambda>_. ret ()), ln_exists = (\<lambda>_. ret False), ln_identity = (\<lambda>_. ret ()),
      ln_d1 = (\<lambda>_ _. ret \<lparr>d1_legacy_write_count = 1, d1_migration_count = 7, d1_stable_digest = ''d''\<rparr>),
      ln_number_text = (\<lambda>_. []), ln_json_of = (\<lambda>_. Some sample_services), ln_tmp = ''/tmp''\<rparr>"

definition sample_legacy_run :: "(legacy_failure + legacy_evidence) option" where
  "sample_legacy_run =
     (case parse_legacy_manifest sample_legacy of
        Inl e \<Rightarrow> None
      | Inr m \<Rightarrow> Some (snd (execute_legacy sample_legacy_env False (Some ''h'')
          (build_legacy_plan (\<lambda>_ _ _ _. ''h'') m) ())))"

lemma sample_legacy_completes: "\<exists>ev. sample_legacy_run = Some (Inr ev)"
proof -
  have "case sample_legacy_run of None \<Rightarrow> False | Some x \<Rightarrow> (case x of Inr ev \<Rightarrow> True | Inl _ \<Rightarrow> False)"
    by code_simp
  then show ?thesis by (auto split: option.splits sum.splits)
qed

section \<open>The checks of the identity and of the D1 migrations\<close>

definition verify_identity ::
  "(string \<Rightarrow> ('s, string) action) \<Rightarrow> (string \<Rightarrow> string) \<Rightarrow> legacy_manifest \<Rightarrow> ('s, unit) action" where
  "verify_identity read_file sha m =
     and_then (read_file (lm_seed_path m)) (\<lambda>seed.
       when_then (sha seed \<noteq> lm_backup_sha256 m) (Thrown_Error ''backup sha256 mismatch''))"

text \<open>\<open>/\b(?:DELETE\s+FROM|DROP\s+TABLE|REPLACE\s+INTO|TRUNCATE)\b/i\<close>.\<close>

definition two_words :: "string \<Rightarrow> string \<Rightarrow> string \<Rightarrow> string option" where
  "two_words a b s =
     (case strip_ci a s of
        None \<Rightarrow> None
      | Some r \<Rightarrow> if takeWhile is_space r = [] then None else strip_ci b (dropWhile is_space r))"

definition destructive_here :: "char option \<Rightarrow> string \<Rightarrow> bool" where
  "destructive_here prev s =
     (word_boundary prev s
      \<and> (ends_word (two_words ''delete'' ''from'' s) \<or> ends_word (two_words ''drop'' ''table'' s)
         \<or> ends_word (two_words ''replace'' ''into'' s) \<or> ends_word (strip_ci ''truncate'' s)))"

fun destructive_search :: "char option \<Rightarrow> string \<Rightarrow> bool" where
  "destructive_search prev [] = destructive_here prev []"
| "destructive_search prev (c # cs) = (destructive_here prev (c # cs) \<or> destructive_search (Some c) cs)"

definition destructive :: "string \<Rightarrow> bool" where
  "destructive sql = destructive_search None sql"

text \<open>The database under rehearsal: a row of the old worker is written, and read back as JSON.\<close>

record 's d1_database =
  db_open :: "string \<Rightarrow> ('s, unit) action"
  db_exec :: "string \<Rightarrow> ('s, unit) action"
  db_insert_legacy_job :: "('s, unit) action"
  db_legacy_row :: "('s, string option) action"
  db_close :: "('s, unit) action"

definition stable_snapshot :: "'s d1_database \<Rightarrow> (string \<Rightarrow> string) \<Rightarrow> ('s, string) action" where
  "stable_snapshot db sha =
     and_then (db_legacy_row db) (\<lambda>row.
       case row of
         None \<Rightarrow> throw (Thrown_Error ''the latest schema cannot read the legacy row'')
       | Some text \<Rightarrow> ret (sha text))"

text \<open>The position of the cutoff; \<open>findIndex\<close> gives the first one.\<close>

fun index_of :: "'a \<Rightarrow> 'a list \<Rightarrow> nat option" where
  "index_of x [] = None"
| "index_of x (y # ys) = (if x = y then Some 0 else map_option Suc (index_of x ys))"

definition d1_replay ::
  "'s d1_database \<Rightarrow> (string \<Rightarrow> string) \<Rightarrow> string list \<Rightarrow> string list \<Rightarrow> ('s, d1_result) action" where
  "d1_replay db sha old new =
     and_then (each (db_exec db) old) (\<lambda>_.
     and_then (db_insert_legacy_job db) (\<lambda>_.
     and_then (each (db_exec db) new) (\<lambda>_.
     and_then (stable_snapshot db sha) (\<lambda>first.
     and_then (each (db_exec db) new) (\<lambda>_.
     and_then (stable_snapshot db sha) (\<lambda>second.
     and_then (when_then (first \<noteq> second) (Thrown_Error ''the replay changed the digest'')) (\<lambda>_.
       ret \<lparr>d1_legacy_write_count = 1, d1_migration_count = length old + length new,
            d1_stable_digest = first\<rparr>)))))))"

definition run_d1_check ::
  "(string \<Rightarrow> ('s, string) action) \<Rightarrow> 's d1_database \<Rightarrow> (string \<Rightarrow> string) \<Rightarrow> legacy_manifest \<Rightarrow> string
   \<Rightarrow> ('s, d1_result) action" where
  "run_d1_check read_file db sha m tmp =
     and_then (collect read_file (lm_migrations m)) (\<lambda>sqls.
       case index_of (lm_legacy_cutoff m) (lm_migrations m) of
         None \<Rightarrow> throw (Thrown_Error ''the cutoff is no migration'')
       | Some i \<Rightarrow>
           and_then (when_then (list_ex destructive (drop (i + 1) sqls))
             (Thrown_Error ''a migration holds a destructive statement'')) (\<lambda>_.
           and_then (db_open db (tmp @ ''/d1-rehearsal.sqlite'')) (\<lambda>_.
             finally_do (d1_replay db sha (take (i + 1) sqls) (drop (i + 1) sqls)) (db_close db))))"

text \<open>A check that succeeds has run no destructive statement after the cutoff, and counts the
  migrations of the manifest; the row read after the replay is the one read before.\<close>

lemma index_of_bound: "index_of x xs = Some i \<Longrightarrow> i < length xs \<and> xs ! i = x"
  by (induction xs arbitrary: i) (auto split: if_splits)

lemma d1_check_sound:
  assumes "run_d1_check read_file db sha m tmp s = (s', Inr d)"
  shows "d1_migration_count d = length (lm_migrations m) \<and> d1_legacy_write_count d = 1"
proof -
  obtain i where i: "index_of (lm_legacy_cutoff m) (lm_migrations m) = Some i"
    using assms by (auto simp: run_d1_check_def action_results split: option.splits)
  obtain sqls t t' where "length sqls = length (lm_migrations m)"
    and "d1_replay db sha (take (i + 1) sqls) (drop (i + 1) sqls) t = (t', Inr d)"
    using assms by (auto simp: run_d1_check_def i action_results dest!: finally_do_Inr collect_Inr)
  then show ?thesis
    using index_of_bound [OF i] by (auto simp: d1_replay_def action_results)
qed

end
