(* ===== verification/Readiness.thy ===== *)
theory Readiness
  imports Control_Plane Heartbeats
begin

text \<open>
  The reads of the operations-readiness service, \<open>apps/api/src/operations-readiness.ts\<close> (D1) and
  \<open>operations-readiness-postgres.ts\<close>: the queue summary, the consistency report over the dead
  letters, the health of the components, the metric series, the retention report and the plan
  of a replay. They read the tables of the control plane and of the heartbeats at one instant,
  the freeze. A count that the database returns as a text is the number it prints. The texts
  that describe a risk to the reader are left out, as is the deployment version, which the
  reports only pass on. \<open>JSON.parse\<close> and the hash of a plan are arguments.
\<close>

section \<open>Tables\<close>

record metric_sample =
  sa_key :: string
  sa_window_start :: instant
  sa_window_end :: instant
  sa_value :: rat
  sa_count :: nat
  sa_collected_at :: instant

datatype comparison = Gt | Lt

datatype alert_state = Alert_Pending | Alert_Firing | Alert_Recovered

record alert_row =
  al_policy :: string
  al_comparison :: comparison
  al_threshold :: rat
  al_state :: alert_state
  al_observed :: rat
  al_first_observed_at :: instant
  al_last_evaluated_at :: instant
  al_last_transition_at :: instant

record alert_event =
  av_event_key :: string
  av_policy :: string
  av_state :: alert_state
  av_comparison :: comparison
  av_threshold :: rat
  av_observed :: rat
  av_occurred_at :: instant

record retention_sample =
  rn_date :: string
  rn_kind :: string
  rn_days :: nat
  rn_cutoff_at :: instant
  rn_candidates :: nat
  rn_oldest :: "instant option"
  rn_captured_at :: instant

record readiness_db = control_db +
  ob_heartbeats :: "heartbeat list"
  ob_samples :: "metric_sample list"
  ob_alerts :: "alert_row list"
  ob_events :: "alert_event list"
  ob_retention :: "retention_sample list"

section \<open>The queue\<close>

fun status_text :: "job_status \<Rightarrow> string" where
  "status_text Processing = ''processing''"
| "status_text Deferred = ''deferred''"
| "status_text Failed = ''failed''"
| "status_text Dead = ''dead''"
| "status_text Done = ''done''"
| "status_text Uncertain = ''uncertain''"

definition all_statuses :: "job_status list" where
  "all_statuses = [Dead, Deferred, Done, Failed, Processing, Uncertain]"

text \<open>\<open>GROUP BY\<close>: the groups that occur, with their sizes. The statuses come in the order of
  their texts, as D1 gives them; the keys of PostgreSQL's \<open>jsonb\<close> come in another order, which
  no reader of the summary depends on.\<close>

definition grouped_counts :: "'g list \<Rightarrow> ('r \<Rightarrow> 'g) \<Rightarrow> 'r list \<Rightarrow> ('g \<times> nat) list" where
  "grouped_counts groups f rows =
     filter (\<lambda>(g, n). n > 0) (map (\<lambda>g. (g, length (filter (\<lambda>r. f r = g) rows))) groups)"

definition count_of :: "('g \<times> nat) list \<Rightarrow> 'g \<Rightarrow> nat" where
  "count_of counts g = nullish (map_of counts g) 0"

datatype inbox_class = Class_Processing | Class_Executable | Class_Deferred

definition inbox_class_of :: "instant \<Rightarrow> inbox_row \<Rightarrow> inbox_class" where
  "inbox_class_of t r =
     (if ir_status r = Leased then Class_Processing
      else if ir_available_at r \<le> t then Class_Executable else Class_Deferred)"

text \<open>\<open>MIN\<close> and \<open>MAX\<close> of a column, \<open>NULL\<close> on no rows.\<close>

definition min_of :: "int list \<Rightarrow> int option" where
  "min_of xs = (case xs of [] \<Rightarrow> None | x # rest \<Rightarrow> Some (fold min rest x))"

definition max_of :: "int list \<Rightarrow> int option" where
  "max_of xs = (case xs of [] \<Rightarrow> None | x # rest \<Rightarrow> Some (fold max rest x))"

definition due_rows :: "instant \<Rightarrow> inbox_row list \<Rightarrow> inbox_row list" where
  "due_rows t = filter (\<lambda>r. ir_status r = Queued \<and> ir_available_at r \<le> t)"

definition later_rows :: "instant \<Rightarrow> inbox_row list \<Rightarrow> inbox_row list" where
  "later_rows t = filter (\<lambda>r. ir_status r = Queued \<and> ir_available_at r > t)"

record readiness_queue =
  rq_deferred :: nat
  rq_executable :: nat
  rq_non_executable :: nat
  rq_processing :: nat
  rq_earliest_deferred_at :: "instant option"
  rq_freeze_at :: instant
  rq_job_status_counts :: "(job_status \<times> nat) list"
  rq_oldest_age_seconds :: "int option"

definition age_seconds :: "instant \<Rightarrow> instant \<Rightarrow> int" where
  "age_seconds t since = max 0 ((t - since) div 1000)"

definition queue_summary_d1 :: "instant \<Rightarrow> 'a control_db_scheme \<Rightarrow> readiness_queue" where
  "queue_summary_d1 t db =
     (let inbox = grouped_counts [Class_Deferred, Class_Executable, Class_Processing]
            (inbox_class_of t) (cd_inbox db);
          jobs = grouped_counts all_statuses wj_status (lg_jobs db)
      in \<lparr>rq_deferred = count_of inbox Class_Deferred, rq_executable = count_of inbox Class_Executable,
          rq_non_executable = count_of jobs Dead + count_of jobs Uncertain,
          rq_processing = count_of inbox Class_Processing,
          rq_earliest_deferred_at = min_of (map ir_available_at (later_rows t (cd_inbox db))),
          rq_freeze_at = t, rq_job_status_counts = jobs,
          rq_oldest_age_seconds =
            map_option (age_seconds t) (min_of (map ir_created_at (due_rows t (cd_inbox db))))\<rparr>)"

definition queue_summary_pg :: "instant \<Rightarrow> 'a control_db_scheme \<Rightarrow> readiness_queue" where
  "queue_summary_pg t db =
     (let rows = cd_inbox db; jobs = grouped_counts all_statuses wj_status (lg_jobs db)
      in \<lparr>rq_deferred = length (later_rows t rows), rq_executable = length (due_rows t rows),
          rq_non_executable = count_of jobs Dead + count_of jobs Uncertain,
          rq_processing = length (filter (\<lambda>r. ir_status r = Leased) rows),
          rq_earliest_deferred_at = min_of (map ir_available_at (later_rows t rows)),
          rq_freeze_at = t, rq_job_status_counts = jobs,
          rq_oldest_age_seconds = map_option (age_seconds t) (min_of (map ir_created_at (due_rows t rows)))\<rparr>)"

section \<open>The dead letters\<close>

datatype consistency =
    Matched | Historical_Migration | Orphan_Dlq | Dead_Without_Dlq
  | Already_Replayed | Missing_Envelope | Integrity_Anomaly

text \<open>\<open>classifyDeadLetter\<close>, of the dead letter, the envelope it names, the status of its job and
  whether a replay of the job was published.\<close>

definition classify_dead_letter ::
  "dead_letter \<Rightarrow> job_envelope option \<Rightarrow> job_status option \<Rightarrow> bool \<Rightarrow> consistency" where
  "classify_dead_letter d envelope status replayed =
     (case status of
        None \<Rightarrow> Orphan_Dlq
      | Some st \<Rightarrow>
          if replayed then Already_Replayed
          else if st \<noteq> Dead then Historical_Migration
          else case envelope of
                 None \<Rightarrow> Missing_Envelope
               | Some e \<Rightarrow>
                   if je_job_id e \<noteq> dl_job_id d \<or> je_status e \<noteq> Env_Dead
                      \<or> je_payload_digest e \<noteq> dl_payload_digest d
                   then Integrity_Anomaly else Matched)"

definition job_status_of :: "'a control_db_scheme \<Rightarrow> string \<Rightarrow> job_status option" where
  "job_status_of db i = map_option wj_status (tab_first (\<lambda>r. wj_job_id r = i) (lg_jobs db))"

definition replay_published :: "'a control_db_scheme \<Rightarrow> string \<Rightarrow> bool" where
  "replay_published db i = list_ex (\<lambda>r. rp_job_id r = i \<and> rp_status r = Replay_Published) (cd_replays db)"

definition envelope_named :: "'a control_db_scheme \<Rightarrow> string option \<Rightarrow> job_envelope option" where
  "envelope_named db i = (case i of
     None \<Rightarrow> None | Some i \<Rightarrow> tab_first (\<lambda>e. je_job_id e = i) (lg_envelopes db))"

text \<open>D1 reads the name of the envelope as true or false: an empty text is no name.\<close>

definition truthy_text :: "string option \<Rightarrow> string option" where
  "truthy_text s = (if s = Some [] then None else s)"

definition category_of :: "'a control_db_scheme \<Rightarrow> (string option \<Rightarrow> string option) \<Rightarrow> dead_letter \<Rightarrow> consistency" where
  "category_of db name d =
     classify_dead_letter d (envelope_named db (name (dl_envelope_job_id d)))
       (job_status_of db (dl_job_id d)) (replay_published db (dl_job_id d))"

record consistency_report =
  cr_counts :: "consistency \<Rightarrow> nat"
  cr_samples :: "consistency \<Rightarrow> string list"
  cr_dead_jobs :: nat
  cr_dead_letters :: nat
  cr_unexplained :: nat

definition letters_until :: "instant \<Rightarrow> 'a control_db_scheme \<Rightarrow> dead_letter list" where
  "letters_until t db =
     sort_key dl_job_id (filter (\<lambda>d. dl_created_at d \<le> t) (lg_dead_letters db))"

text \<open>D1 reads the tables and sorts the rows into the categories itself.\<close>

definition report_d1 :: "instant \<Rightarrow> 'a control_db_scheme \<Rightarrow> consistency_report" where
  "report_d1 t db =
     (let letters = letters_until t db;
          dead = filter (\<lambda>r. wj_status r = Dead) (lg_jobs db);
          lost = filter (\<lambda>r. wj_job_id r \<notin> dl_job_id ` set letters) dead;
          ids = (\<lambda>c. map dl_job_id (filter (\<lambda>d. category_of db truthy_text d = c) letters)
                   @ (if c = Dead_Without_Dlq then map wj_job_id lost else []))
      in \<lparr>cr_counts = (\<lambda>c. length (ids c)), cr_samples = (\<lambda>c. js_slice 20 (sort (ids c))),
          cr_dead_jobs = length dead, cr_dead_letters = length letters, cr_unexplained = 0\<rparr>)"

text \<open>PostgreSQL joins the tables, and counts the dead jobs while it goes through the letters.\<close>

definition report_pg :: "instant \<Rightarrow> 'a control_db_scheme \<Rightarrow> consistency_report" where
  "report_pg t db =
     (let letters = letters_until t db;
          lost = sort (map wj_job_id (filter (\<lambda>r. wj_status r = Dead
                   \<and> \<not> list_ex (\<lambda>d. dl_job_id d = wj_job_id r \<and> dl_created_at d \<le> t) (lg_dead_letters db)) (lg_jobs db)));
          ids = (\<lambda>c. if c = Dead_Without_Dlq then lost
                   else map dl_job_id (filter (\<lambda>d. category_of db id d = c) letters))
      in \<lparr>cr_counts = (\<lambda>c. length (ids c)), cr_samples = (\<lambda>c. js_slice 20 (sort (ids c))),
          cr_dead_jobs = length lost
            + length (filter (\<lambda>d. job_status_of db (dl_job_id d) = Some Dead) letters),
          cr_dead_letters = length letters, cr_unexplained = 0\<rparr>)"

section \<open>The health of the components\<close>

text \<open>\<open>parseJsonRecord\<close>: a text is parsed, again if it holds a text, and anything but an object is
  empty. A text in JSON is longer than the text it denotes, which bounds the recursion.\<close>

function parse_text_record :: "(string \<Rightarrow> json option) \<Rightarrow> string \<Rightarrow> json_record" where
  "parse_text_record json_of s =
     (case json_of s of
        Some (JStr s') \<Rightarrow> if length s' < length s then parse_text_record json_of s' else []
      | Some (JObj es) \<Rightarrow> es
      | _ \<Rightarrow> [])"
  by pat_completeness auto
termination by (relation "measure (\<lambda>(json_of, s). length s)") auto

declare parse_text_record.simps [simp del]

definition parse_json_record :: "(string \<Rightarrow> json option) \<Rightarrow> json option \<Rightarrow> json_record" where
  "parse_json_record json_of v =
     (case v of
        Some (JStr s) \<Rightarrow> parse_text_record json_of s
      | Some (JObj es) \<Rightarrow> es
      | _ \<Rightarrow> [])"

definition heartbeat_details :: "(string \<Rightarrow> json option) \<Rightarrow> heartbeat option \<Rightarrow> json_record" where
  "heartbeat_details json_of h =
     parse_json_record json_of (map_option (\<lambda>h. JStr (hb_details h)) h)"

text \<open>A state is one of the five texts; an array of one such text, which the code would also take
  for a state, is left out.\<close>

datatype health_component = Console | Api | Worker | Browser_Dep | Mihomo_Dep | Warp_Dep
datatype reported_state = Starting | Ready | Degraded | Stopping | Failed_State

fun state_of_text :: "json option \<Rightarrow> reported_state option" where
  "state_of_text (Some (JStr s)) =
     (if s = ''starting'' then Some Starting else if s = ''ready'' then Some Ready
      else if s = ''degraded'' then Some Degraded else if s = ''stopping'' then Some Stopping
      else if s = ''failed'' then Some Failed_State else None)"
| "state_of_text v = None"

text \<open>A time is an instant of the database, or the text the worker reported.\<close>

datatype observed = At instant | Reported string

record component_health =
  ch_accepts :: bool
  ch_component :: health_component
  ch_observed_at :: observed
  ch_reason :: string
  ch_state :: reported_state

fun component_key :: "health_component \<Rightarrow> string" where
  "component_key Console = ''console''"
| "component_key Api = ''api''"
| "component_key Worker = ''worker''"
| "component_key Browser_Dep = ''browser''"
| "component_key Mihomo_Dep = ''mihomo''"
| "component_key Warp_Dep = ''warp''"

definition text_or :: "json option \<Rightarrow> string \<Rightarrow> string" where
  "text_or v d = (case v of Some (JStr s) \<Rightarrow> s | _ \<Rightarrow> d)"

definition worker_ready :: "instant \<Rightarrow> heartbeat option \<Rightarrow> bool" where
  "worker_ready t h =
     (case h of None \<Rightarrow> False | Some h \<Rightarrow> - 30000 \<le> t - hb_seen h \<and> t - hb_seen h \<le> 90000)"

definition dependency_health ::
  "(string \<Rightarrow> json option) \<Rightarrow> instant \<Rightarrow> heartbeat option \<Rightarrow> health_component \<Rightarrow> component_health" where
  "dependency_health json_of t h c =
     (let components = parse_json_record json_of (json_get (heartbeat_details json_of h) ''components'');
          value = parse_json_record json_of (json_get components (component_key c));
          state = nullish (state_of_text (json_get value ''state'')) Degraded
      in \<lparr>ch_accepts = (state = Ready), ch_component = c,
          ch_observed_at = (case json_get value ''observedAt'' of
              Some (JStr s) \<Rightarrow> Reported s
            | _ \<Rightarrow> At (case h of None \<Rightarrow> t | Some h \<Rightarrow> hb_seen h)),
          ch_reason = text_or (json_get value ''reasonCode'') ''legacy_heartbeat_missing_component'',
          ch_state = state\<rparr>)"

definition health_components ::
  "(string \<Rightarrow> json option) \<Rightarrow> instant \<Rightarrow> heartbeat option \<Rightarrow> component_health list" where
  "health_components json_of t h =
     [\<lparr>ch_accepts = False, ch_component = Console, ch_observed_at = At t,
       ch_reason = ''external_probe_required'', ch_state = Degraded\<rparr>,
      \<lparr>ch_accepts = True, ch_component = Api, ch_observed_at = At t,
       ch_reason = ''request_succeeded'', ch_state = Ready\<rparr>,
      \<lparr>ch_accepts = worker_ready t h, ch_component = Worker,
       ch_observed_at = At (case h of None \<Rightarrow> t | Some h \<Rightarrow> hb_seen h),
       ch_reason = (if worker_ready t h then ''heartbeat_fresh'' else ''heartbeat_stale''),
       ch_state = (if worker_ready t h then Ready else Degraded)\<rparr>,
      dependency_health json_of t h Browser_Dep, dependency_health json_of t h Mihomo_Dep,
      dependency_health json_of t h Warp_Dep]"

text \<open>\<open>ORDER BY last_seen_at DESC LIMIT 1\<close>; among equal times the first row.\<close>

definition newest_heartbeat :: "heartbeat list \<Rightarrow> heartbeat option" where
  "newest_heartbeat rows =
     (case rows of [] \<Rightarrow> None
      | h # rest \<Rightarrow> Some (fold (\<lambda>x best. if hb_seen x > hb_seen best then x else best) rest h))"

definition get_health_components ::
  "(string \<Rightarrow> json option) \<Rightarrow> instant \<Rightarrow> 'a readiness_db_scheme \<Rightarrow> component_health list" where
  "get_health_components json_of t db = health_components json_of t (newest_heartbeat (ob_heartbeats db))"

definition observed_heartbeat :: "cached_heartbeat \<Rightarrow> heartbeat" where
  "observed_heartbeat h = \<lparr>hb_worker = ch_worker h, hb_seen = nullish (ch_seen h) 0, hb_details = ch_details h\<rparr>"

text \<open>PostgreSQL reads the heartbeat through the cache (theory Heartbeats).\<close>

definition get_health_components_pg ::
  "(string \<Rightarrow> json option) \<Rightarrow> instant \<Rightarrow> delivery \<Rightarrow> delivery \<Rightarrow> instant \<Rightarrow> heartbeat list \<times> redis
   \<Rightarrow> (heartbeat list \<times> redis) \<times> component_health list" where
  "get_health_components_pg json_of t d d' clock s =
     (let (s', h) = read_latest_worker_heartbeat t d d' clock s
      in (s', health_components json_of t (map_option observed_heartbeat h)))"

section \<open>The metric series\<close>

text \<open>\<open>candidateThreshold\<close>.\<close>

definition candidate_threshold :: "string \<Rightarrow> (comparison \<times> rat) option" where
  "candidate_threshold key = map_of
     [(''queue.executable'', (Gt, 100)), (''queue.oldest_executable_age_seconds'', (Gt, 600)),
      (''worker.heartbeat_age_seconds'', (Gt, 90)), (''dependency.browser.ready'', (Lt, 1)),
      (''dependency.mihomo.ready'', (Lt, 1)), (''dependency.warp.ready'', (Lt, 1))] key"

record metric_series =
  mv_current :: rat
  mv_key :: string
  mv_threshold :: "(comparison \<times> rat) option"
  mv_trend :: "(instant \<times> rat) list"

definition add_trend ::
  "metric_sample \<Rightarrow> (string \<times> (instant \<times> rat) list) list \<Rightarrow> (string \<times> (instant \<times> rat) list) list" where
  "add_trend s groups =
     (if sa_key s \<in> fst ` set groups
      then map (\<lambda>(k, trend). if k = sa_key s then (k, trend @ [(sa_window_end s, sa_value s)]) else (k, trend)) groups
      else groups @ [(sa_key s, [(sa_window_end s, sa_value s)])])"

definition series_of :: "string \<times> (instant \<times> rat) list \<Rightarrow> metric_series" where
  "series_of g =
     \<lparr>mv_current = (if snd g = [] then 0 else snd (last (snd g))), mv_key = fst g,
      mv_threshold = candidate_threshold (fst g), mv_trend = snd g\<rparr>"

definition recent_samples :: "nat \<Rightarrow> instant \<Rightarrow> 'a readiness_db_scheme \<Rightarrow> metric_sample list" where
  "recent_samples hours t db =
     sort_key (\<lambda>s. (sa_key s, sa_window_end s))
       (filter (\<lambda>s. t - int hours * 3600000 \<le> sa_window_end s) (ob_samples db))"

definition get_metrics :: "nat \<Rightarrow> instant \<Rightarrow> 'a readiness_db_scheme \<Rightarrow> metric_series list" where
  "get_metrics hours t db = map series_of (fold add_trend (recent_samples hours t db) [])"

section \<open>Retention\<close>

record retention_resource =
  rv_candidates :: nat
  rv_latest_at :: "instant option"
  rv_oldest_at :: "instant option"
  rv_total :: nat

text \<open>A \<open>NULL\<close> is no candidate, and \<open>MIN\<close> and \<open>MAX\<close> pass over it.\<close>

definition time_summary :: "instant \<Rightarrow> instant option list \<Rightarrow> retention_resource" where
  "time_summary cutoff column =
     \<lparr>rv_candidates = length (filter (\<lambda>x. case x of None \<Rightarrow> False | Some a \<Rightarrow> a < cutoff) column),
      rv_latest_at = max_of (List.map_filter id column), rv_oldest_at = min_of (List.map_filter id column),
      rv_total = length column\<rparr>"

definition retention_columns :: "'a readiness_db_scheme \<Rightarrow> (string \<times> instant option list) list" where
  "retention_columns db =
     [(''heartbeats'', map (\<lambda>h. Some (hb_seen h)) (ob_heartbeats db)),
      (''completedJobs'', map wj_finished_at (filter (\<lambda>r. wj_status r = Done) (lg_jobs db))),
      (''envelopes'', map (\<lambda>e. Some (je_updated_at e)) (lg_envelopes db)),
      (''deadLetters'', map (\<lambda>d. Some (dl_created_at d)) (lg_dead_letters db)),
      (''replayAudit'', map (\<lambda>r. Some (rp_updated_at r)) (cd_replays db)),
      (''effects'', map (\<lambda>e. Some (er_updated_at e)) (cd_effects db))]"

record retention_report =
  ru_cutoff_at :: instant
  ru_generated_at :: instant
  ru_resources :: "(string \<times> retention_resource) list"
  ru_days :: nat

definition get_retention_report :: "nat \<Rightarrow> instant \<Rightarrow> 'a readiness_db_scheme \<Rightarrow> retention_report" where
  "get_retention_report days t db =
     (let cutoff = t - int days * 86400000
      in \<lparr>ru_cutoff_at = cutoff, ru_generated_at = t,
          ru_resources = map (\<lambda>(k, column). (k, time_summary cutoff column)) (retention_columns db),
          ru_days = days\<rparr>)"

section \<open>The plan of a replay\<close>

record replay_state_row =
  rs_job_status :: job_status
  rs_job_updated_at :: instant
  rs_dead_letter_created_at :: "instant option"
  rs_envelope_job_id :: "string option"
  rs_envelope_status :: "envelope_status option"
  rs_envelope_updated_at :: "instant option"
  rs_effect_updated_at :: "instant option"
  rs_replay_updated_at :: "instant option"

definition replay_state_of :: "'a control_db_scheme \<Rightarrow> string \<Rightarrow> replay_state_row option" where
  "replay_state_of db jobId =
     map_option (\<lambda>j.
       let d = tab_first (\<lambda>d. dl_job_id d = jobId) (lg_dead_letters db);
           name = (case d of None \<Rightarrow> None | Some d \<Rightarrow> dl_envelope_job_id d);
           e = envelope_named db name
       in \<lparr>rs_job_status = wj_status j, rs_job_updated_at = wj_updated_at j,
           rs_dead_letter_created_at = map_option dl_created_at d, rs_envelope_job_id = name,
           rs_envelope_status = map_option je_status e,
           rs_envelope_updated_at = map_option je_updated_at e,
           rs_effect_updated_at =
             max_of (map er_updated_at (filter (\<lambda>e. er_job_id e = jobId) (cd_effects db))),
           rs_replay_updated_at =
             max_of (map rp_updated_at (filter (\<lambda>r. rp_job_id r = jobId) (cd_replays db)))\<rparr>)
       (tab_first (\<lambda>r. wj_job_id r = jobId) (lg_jobs db))"

record replay_plan =
  py_idempotency_key :: string
  py_job_id :: string
  py_hash :: string
  py_validation :: replay_result

definition create_replay_plan ::
  "(string \<times> string \<times> replay_state_row option \<times> replay_result \<Rightarrow> string)
   \<Rightarrow> 'a control_db_scheme \<Rightarrow> string \<Rightarrow> string \<Rightarrow> replay_result \<Rightarrow> replay_plan" where
  "create_replay_plan sha db key jobId validation =
     \<lparr>py_idempotency_key = key, py_job_id = jobId,
      py_hash = sha (key, jobId, replay_state_of db jobId, validation), py_validation = validation\<rparr>"

section \<open>The backends agree\<close>

lemma count_of_grouped:
  assumes "distinct groups" and "g \<in> set groups"
  shows "count_of (grouped_counts groups f rows) g = length (filter (\<lambda>r. f r = g) rows)"
proof -
  have keys: "distinct (map fst (grouped_counts groups f rows))"
    using assms(1) by (auto simp: grouped_counts_def distinct_map filter_map o_def inj_on_def intro!: distinct_filter)
  show ?thesis
  proof (cases "length (filter (\<lambda>r. f r = g) rows)")
    case 0
    then have "g \<notin> fst ` set (grouped_counts groups f rows)" by (auto simp: grouped_counts_def)
    then have "map_of (grouped_counts groups f rows) g = None" by (simp add: map_of_eq_None_iff)
    then show ?thesis using 0 by (simp add: count_of_def)
  next
    case (Suc n)
    then have "(g, Suc n) \<in> set (grouped_counts groups f rows)"
      using assms(2) by (force simp: grouped_counts_def)
    then show ?thesis using Suc map_of_is_SomeI [OF keys] by (simp add: count_of_def)
  qed
qed

lemma inbox_classes:
  "length (filter (\<lambda>r. inbox_class_of t r = Class_Deferred) rows) = length (later_rows t rows)"
  "length (filter (\<lambda>r. inbox_class_of t r = Class_Executable) rows) = length (due_rows t rows)"
  "length (filter (\<lambda>r. inbox_class_of t r = Class_Processing) rows)
     = length (filter (\<lambda>r. ir_status r = Leased) rows)"
proof -
  have classes: "inbox_class_of t r = Class_Deferred \<longleftrightarrow> ir_status r = Queued \<and> ir_available_at r > t"
    "inbox_class_of t r = Class_Executable \<longleftrightarrow> ir_status r = Queued \<and> ir_available_at r \<le> t"
    "inbox_class_of t r = Class_Processing \<longleftrightarrow> ir_status r = Leased" for r
    by (cases "ir_status r"; simp add: inbox_class_of_def not_le)+
  show "length (filter (\<lambda>r. inbox_class_of t r = Class_Deferred) rows) = length (later_rows t rows)"
    "length (filter (\<lambda>r. inbox_class_of t r = Class_Executable) rows) = length (due_rows t rows)"
    "length (filter (\<lambda>r. inbox_class_of t r = Class_Processing) rows)
       = length (filter (\<lambda>r. ir_status r = Leased) rows)"
    by (simp_all only: classes later_rows_def due_rows_def)
qed

lemma queue_summaries_agree: "queue_summary_d1 t db = queue_summary_pg t db"
  by (simp add: queue_summary_d1_def queue_summary_pg_def Let_def count_of_grouped inbox_classes)

lemma category_not_lost: "category_of db name d \<noteq> Dead_Without_Dlq"
  by (simp add: category_of_def classify_dead_letter_def split: option.split)

lemma letters_until_mem: "d \<in> set (letters_until t db) \<longleftrightarrow> d \<in> set (lg_dead_letters db) \<and> dl_created_at d \<le> t"
  by (simp add: letters_until_def)

lemma job_status_of_keyed:
  assumes "tab_keyed wj_job_id (lg_jobs db)" and "r \<in> set (lg_jobs db)"
  shows "job_status_of db (wj_job_id r) = Some (wj_status r)"
  using assms tab_first_keyed [of wj_job_id "lg_jobs db" r] by (simp add: job_status_of_def)

lemma job_status_ofD:
  "job_status_of db i = Some st \<Longrightarrow> \<exists>r\<in>set (lg_jobs db). wj_job_id r = i \<and> wj_status r = st"
  by (auto simp: job_status_of_def dest: tab_first_SomeD)

text \<open>The dead jobs are those with a dead letter and those without.\<close>

lemma dead_jobs_split:
  fixes db :: "'a control_db_scheme" and t :: instant
  assumes jobs: "tab_keyed wj_job_id (lg_jobs db)" and letters: "tab_keyed dl_job_id (lg_dead_letters db)"
  defines "ls \<equiv> letters_until t db"
  shows "length (filter (\<lambda>r. wj_status r = Dead) (lg_jobs db)) =
      length (filter (\<lambda>r. wj_job_id r \<notin> dl_job_id ` set ls) (filter (\<lambda>r. wj_status r = Dead) (lg_jobs db)))
      + length (filter (\<lambda>d. job_status_of db (dl_job_id d) = Some Dead) ls)"
proof -
  let ?dead = "filter (\<lambda>r. wj_status r = Dead) (lg_jobs db)"
  let ?kept = "filter (\<lambda>r. wj_job_id r \<in> dl_job_id ` set ls) ?dead"
  let ?letters = "filter (\<lambda>d. job_status_of db (dl_job_id d) = Some Dead) ls"
  have "distinct (map dl_job_id ls)"
    using letters by (auto simp: ls_def letters_until_def tab_keyed_def distinct_map intro: inj_on_subset)
  then have dl: "distinct (map dl_job_id ?letters)" by (auto simp: distinct_map intro: inj_on_subset)
  have dj: "distinct (map wj_job_id ?kept)"
    using jobs by (auto simp: tab_keyed_def distinct_map intro: inj_on_subset)
  have "wj_job_id ` set ?kept = dl_job_id ` set ?letters"
    using job_status_of_keyed [OF jobs] job_status_ofD [of db] by (auto simp: image_iff) metis+
  then have "length ?kept = length ?letters"
    using distinct_card [OF dl] distinct_card [OF dj] by simp
  then show ?thesis using sum_length_filter_compl [of "\<lambda>r. wj_job_id r \<in> dl_job_id ` set ls" ?dead] by simp
qed

lemma letters_until_set: "set (letters_until t db) = {d \<in> set (lg_dead_letters db). dl_created_at d \<le> t}"
  by (auto simp: letters_until_def)

definition lost_jobs :: "instant \<Rightarrow> 'a control_db_scheme \<Rightarrow> worker_job list" where
  "lost_jobs t db =
     filter (\<lambda>r. wj_job_id r \<notin> dl_job_id ` set (letters_until t db))
       (filter (\<lambda>r. wj_status r = Dead) (lg_jobs db))"

lemma lost_jobs_pg:
  "filter (\<lambda>r. wj_status r = Dead
      \<and> \<not> list_ex (\<lambda>d. dl_job_id d = wj_job_id r \<and> dl_created_at d \<le> t) (lg_dead_letters db)) (lg_jobs db)
   = lost_jobs t db"
  unfolding lost_jobs_def filter_filter
  by (rule filter_cong) (auto simp: list_ex_iff letters_until_set image_iff)

lemma category_names:
  "dl_envelope_job_id d \<noteq> Some [] \<Longrightarrow> category_of db truthy_text d = category_of db id d"
  by (simp add: category_of_def truthy_text_def)

lemma reports_agree:
  fixes db :: "'a control_db_scheme"
  assumes "tab_keyed wj_job_id (lg_jobs db)" and "tab_keyed dl_job_id (lg_dead_letters db)"
    and "Some [] \<notin> dl_envelope_job_id ` set (lg_dead_letters db)"
  shows "report_d1 t db = report_pg t db"
proof -
  let ?ls = "letters_until t db"
  have cats: "filter (\<lambda>d. category_of db truthy_text d = c) ?ls = filter (\<lambda>d. category_of db id d = c) ?ls" for c
    by (rule filter_cong) (use assms(3) in \<open>auto simp: letters_until_mem image_iff category_names\<close>)
  have none: "filter (\<lambda>d. category_of db id d = Dead_Without_Dlq) ?ls = []"
    by (simp add: filter_empty_conv category_not_lost)
  show ?thesis
    unfolding report_d1_def report_pg_def Let_def lost_jobs_pg
    using dead_jobs_split [OF assms(1,2), of t]
    by (auto simp: fun_eq_iff cats none lost_jobs_def sort_key_id_if_sorted)
qed

text \<open>Every letter is in one category.\<close>

definition all_categories :: "consistency list" where
  "all_categories = [Matched, Historical_Migration, Orphan_Dlq, Dead_Without_Dlq, Already_Replayed,
     Missing_Envelope, Integrity_Anomaly]"

lemma categories_partition:
  "sum_list (map (\<lambda>c. length (filter (\<lambda>x. f x = c) xs)) all_categories) = length xs"
proof (induction xs)
  case (Cons x xs)
  then show ?case by (cases "f x") (simp_all add: all_categories_def)
qed (simp add: all_categories_def)

lemma report_counts:
  "sum_list (map (cr_counts (report_d1 t db)) all_categories)
     = cr_dead_letters (report_d1 t db) + length (lost_jobs t db)"
proof -
  have "cr_counts (report_d1 t db) c =
      length (filter (\<lambda>d. category_of db truthy_text d = c) (letters_until t db))
      + (if c = Dead_Without_Dlq then length (lost_jobs t db) else 0)" for c
    by (simp add: report_d1_def Let_def lost_jobs_def)
  then have "sum_list (map (cr_counts (report_d1 t db)) all_categories) =
      sum_list (map (\<lambda>c. length (filter (\<lambda>d. category_of db truthy_text d = c) (letters_until t db))) all_categories)
      + length (lost_jobs t db)"
    by (simp add: all_categories_def)
  then show ?thesis by (simp add: categories_partition) (simp add: report_d1_def Let_def)
qed

text \<open>On a database that the control plane keeps, the two backends give the same consistency
  report at any time; its categories add up to the dead letters and the dead jobs without one;
  and when no letter is dated after the report, no dead job is without its letter, and a letter
  of a dead job that names an envelope and was never replayed is matched unless the digests
  differ.\<close>

lemma consistency_report_adds_up:
  assumes "control_inv db" and "Some [] \<notin> dl_envelope_job_id ` set (lg_dead_letters db)"
    and "\<forall>d\<in>set (lg_dead_letters db). dl_created_at d \<le> t"
  shows "report_d1 t db = report_pg t db
    \<and> sum_list (map (cr_counts (report_d1 t db)) all_categories) = length (lg_dead_letters db)
    \<and> cr_counts (report_d1 t db) Dead_Without_Dlq = 0
    \<and> (\<forall>d\<in>set (lg_dead_letters db). category_of db truthy_text d = Integrity_Anomaly \<longrightarrow>
         (\<exists>e\<in>set (lg_envelopes db). je_job_id e = dl_job_id d \<and> je_payload_digest e \<noteq> dl_payload_digest d))"
proof -
  have lg: "ledger_inv db" and letters: "letters_ok db" using assms(1) by (simp_all add: control_inv_def)
  have "wj_job_id r \<in> dl_job_id ` set (letters_until t db)"
    if "r \<in> set (lg_jobs db)" "wj_status r = Dead" for r
    using ledger_invD(9) [OF lg that] assms(3) by (force simp: letters_until_set)
  then have none: "lost_jobs t db = []"
    by (simp add: lost_jobs_def filter_empty_conv)
  have all: "length (letters_until t db) = length (lg_dead_letters db)"
    using assms(3) by (simp add: letters_until_def filter_id_conv)
  have "\<exists>e\<in>set (lg_envelopes db). je_job_id e = dl_job_id d \<and> je_payload_digest e \<noteq> dl_payload_digest d"
    if d: "d \<in> set (lg_dead_letters db)" and cat: "category_of db truthy_text d = Integrity_Anomaly" for d
  proof -
    have name: "dl_envelope_job_id d \<in> {None, Some (dl_job_id d)}"
      using letters d by (simp add: letters_ok_def)
    from cat obtain e where dead: "job_status_of db (dl_job_id d) = Some Dead"
      and e: "envelope_named db (truthy_text (dl_envelope_job_id d)) = Some e"
      and bad: "je_job_id e \<noteq> dl_job_id d \<or> je_status e \<noteq> Env_Dead \<or> je_payload_digest e \<noteq> dl_payload_digest d"
      by (auto simp: category_of_def classify_dead_letter_def split: option.splits if_splits)
    have mem: "e \<in> set (lg_envelopes db)" "je_job_id e = dl_job_id d"
      using e name by (auto simp: envelope_named_def truthy_text_def split: option.splits if_splits dest: tab_first_SomeD)
    from job_status_ofD [OF dead] obtain r where r: "r \<in> set (lg_jobs db)" "wj_job_id r = dl_job_id d" "wj_status r = Dead"
      by blast
    then have "je_status e = Env_Dead"
      using ledger_invD(7) [OF lg r(1) mem(1)] mem(2) by (simp add: envelope_agrees_def)
    with bad mem show ?thesis by blast
  qed
  moreover have "cr_counts (report_d1 t db) Dead_Without_Dlq = 0"
    using none by (simp add: report_d1_def Let_def lost_jobs_def category_not_lost filter_empty_conv)
  moreover have "cr_dead_letters (report_d1 t db) = length (lg_dead_letters db)"
    using all by (simp add: report_d1_def Let_def)
  then have "sum_list (map (cr_counts (report_d1 t db)) all_categories) = length (lg_dead_letters db)"
    using report_counts [of t db] none by simp
  ultimately show ?thesis
    using reports_agree [OF ledger_invD(2,5) [OF lg] assms(2)] by blast
qed

text \<open>The job of the letter of a rejected message never existed: its letter is an orphan.\<close>

end
