(* ===== verification/Readiness_Capture.thy ===== *)
theory Readiness_Capture
  imports Readiness
begin

text \<open>
  The capture of the operations metrics, \<open>captureMetrics\<close> of
  \<open>apps/api/src/operations-readiness.ts\<close> (D1) and of
  \<open>operations-readiness-postgres-capture.ts\<close>: samples of the metrics, the state machine of the
  candidate alerts, and the daily retention samples. D1 writes them in three batches, one after
  the other; PostgreSQL in one transaction, and then prunes old samples. The instants of the
  reads in a capture are given beside its own, and the text of an instant is an argument.
\<close>

section \<open>Metrics\<close>

record metric =
  mt_key :: string
  mt_samples :: nat
  mt_value :: rat

definition metric_of :: "string \<Rightarrow> bool \<Rightarrow> rat \<Rightarrow> metric" where
  "metric_of key sampled v = \<lparr>mt_key = key, mt_samples = (if sampled then 1 else 0), mt_value = v\<rparr>"

definition number_metric :: "string \<Rightarrow> json option \<Rightarrow> metric" where
  "number_metric key v = (case v of Some (JNum x) \<Rightarrow> metric_of key True x | _ \<Rightarrow> metric_of key False 0)"

definition metric_counters :: "string \<Rightarrow> json_record \<Rightarrow> (string \<times> string) list \<Rightarrow> metric list" where
  "metric_counters prefix source names =
     map (\<lambda>(k, name). number_metric (prefix @ ''.'' @ name) (json_get source k)) names"

definition dependency_metric :: "(string \<Rightarrow> json option) \<Rightarrow> json_record \<Rightarrow> string \<Rightarrow> metric" where
  "dependency_metric json_of components c =
     metric_of (''dependency.'' @ c @ ''.ready'') True
       (if json_get (parse_json_record json_of (json_get components c)) ''state'' = Some (JStr ''ready'')
        then 1 else 0)"

definition extraction_counters :: "(string \<times> string) list" where
  "extraction_counters =
     [(''browserSucceeded'', ''browser_succeeded''), (''directRejected'', ''direct_rejected''),
      (''directSucceeded'', ''direct_succeeded''), (''failed'', ''failed'')]"

definition job_counters :: "(string \<times> string) list" where
  "job_counters =
     [(''deadLettered'', ''dead_lettered''), (''deferred'', ''deferred''),
      (''retryableFailed'', ''retryable_failed''), (''succeeded'', ''succeeded''), (''uncertain'', ''uncertain'')]"

definition capture_metrics_of ::
  "(string \<Rightarrow> json option) \<Rightarrow> instant \<Rightarrow> readiness_queue \<Rightarrow> heartbeat option \<Rightarrow> metric list" where
  "capture_metrics_of json_of t queue h =
     (let details = heartbeat_details json_of h;
          components = parse_json_record json_of (json_get details ''components'');
          runtime = parse_json_record json_of (json_get details ''metrics'')
      in [metric_of ''api.availability'' True 1,
          metric_of ''worker.heartbeat_age_seconds'' (h \<noteq> None)
            (case h of None \<Rightarrow> 86400 | Some h \<Rightarrow> of_int (age_seconds t (hb_seen h))),
          metric_of ''queue.executable'' True (of_nat (rq_executable queue)),
          metric_of ''queue.deferred'' True (of_nat (rq_deferred queue)),
          metric_of ''queue.oldest_executable_age_seconds'' (rq_oldest_age_seconds queue \<noteq> None)
            (of_int (nullish (rq_oldest_age_seconds queue) 0)),
          number_metric ''worker.backlog'' (json_get details ''backlogCount'')]
         @ map (dependency_metric json_of components) [''browser'', ''mihomo'', ''warp'']
         @ map (\<lambda>(st, n). metric_of (''job.result.'' @ status_text st) True (of_nat n)) (rq_job_status_counts queue)
         @ metric_counters ''article.extraction''
             (parse_json_record json_of (json_get runtime ''articleExtraction'')) extraction_counters
         @ metric_counters ''worker.job''
             (parse_json_record json_of (json_get runtime ''jobResults'')) job_counters)"

section \<open>Samples\<close>

definition sample_of :: "instant \<Rightarrow> metric \<Rightarrow> metric_sample" where
  "sample_of t m =
     \<lparr>sa_key = mt_key m, sa_window_start = t - 600000, sa_window_end = t, sa_value = mt_value m,
      sa_count = mt_samples m, sa_collected_at = t\<rparr>"

text \<open>\<open>ON CONFLICT(metric_key, dimensions, window_end) DO UPDATE\<close>; the dimensions are always \<open>{}\<close>.\<close>

definition merge_sample :: "metric_sample \<Rightarrow> metric_sample \<Rightarrow> metric_sample" where
  "merge_sample old new =
     old\<lparr>sa_value := sa_value new, sa_count := sa_count new, sa_collected_at := sa_collected_at new\<rparr>"

definition put_sample :: "metric_sample \<Rightarrow> metric_sample list \<Rightarrow> metric_sample list" where
  "put_sample s = tab_upsert (\<lambda>s. (sa_key s, sa_window_end s)) merge_sample s"

definition put_samples :: "instant \<Rightarrow> metric list \<Rightarrow> metric_sample list \<Rightarrow> metric_sample list" where
  "put_samples t metrics rows = fold (\<lambda>m. put_sample (sample_of t m)) metrics rows"

section \<open>Alerts\<close>

text \<open>\<open>evaluateThreshold\<close>: the new state, and the transition that is reported.\<close>

definition breached :: "comparison \<Rightarrow> rat \<Rightarrow> rat \<Rightarrow> bool" where
  "breached c current threshold = (case c of Gt \<Rightarrow> current > threshold | Lt \<Rightarrow> current < threshold)"

definition evaluate_threshold ::
  "comparison \<Rightarrow> rat \<Rightarrow> alert_state option \<Rightarrow> rat \<Rightarrow> alert_state option \<times> alert_state option" where
  "evaluate_threshold c current previous threshold =
     (if breached c current threshold then
        (if previous = Some Alert_Firing then (Some Alert_Firing, None)
         else if previous = Some Alert_Pending then (Some Alert_Firing, Some Alert_Firing)
         else (Some Alert_Pending, Some Alert_Pending))
      else if previous = Some Alert_Firing then (Some Alert_Recovered, Some Alert_Recovered)
      else (None, None))"

fun alert_state_text :: "alert_state \<Rightarrow> string" where
  "alert_state_text Alert_Pending = ''pending''"
| "alert_state_text Alert_Firing = ''firing''"
| "alert_state_text Alert_Recovered = ''recovered''"

definition alert_row_of :: "instant \<Rightarrow> metric \<Rightarrow> comparison \<times> rat \<Rightarrow> alert_state \<Rightarrow> alert_row" where
  "alert_row_of t m threshold st =
     \<lparr>al_policy = mt_key m, al_comparison = fst threshold, al_threshold = snd threshold, al_state = st,
      al_observed = mt_value m, al_first_observed_at = t, al_last_evaluated_at = t,
      al_last_transition_at = t\<rparr>"

definition merge_alert :: "alert_row \<Rightarrow> alert_row \<Rightarrow> alert_row" where
  "merge_alert old new =
     old\<lparr>al_comparison := al_comparison new, al_threshold := al_threshold new, al_state := al_state new,
         al_observed := al_observed new,
         al_first_observed_at :=
           (if al_state old = Alert_Recovered \<and> al_state new = Alert_Pending
            then al_first_observed_at new else al_first_observed_at old),
         al_last_evaluated_at := al_last_evaluated_at new,
         al_last_transition_at :=
           (if al_state old \<noteq> al_state new then al_last_transition_at new else al_last_transition_at old)\<rparr>"

definition alert_event_of ::
  "(instant \<Rightarrow> string) \<Rightarrow> instant \<Rightarrow> metric \<Rightarrow> comparison \<times> rat \<Rightarrow> alert_state \<Rightarrow> alert_event" where
  "alert_event_of stamp t m threshold st =
     \<lparr>av_event_key = mt_key m @ '':'' @ alert_state_text st @ '':'' @ stamp t, av_policy = mt_key m,
      av_state = st, av_comparison = fst threshold, av_threshold = snd threshold,
      av_observed = mt_value m, av_occurred_at = t\<rparr>"

text \<open>What the evaluation of one metric writes, given the row its policy had before the capture.\<close>

definition write_alert ::
  "(instant \<Rightarrow> string) \<Rightarrow> instant \<Rightarrow> metric \<Rightarrow> comparison \<times> rat \<Rightarrow> alert_row option
   \<Rightarrow> alert_row list \<times> alert_event list \<Rightarrow> alert_row list \<times> alert_event list" where
  "write_alert stamp t m threshold previous w =
     (if map_option al_last_evaluated_at previous = Some t then w
      else case evaluate_threshold (fst threshold) (mt_value m) (map_option al_state previous) (snd threshold) of
             (None, _) \<Rightarrow>
               (if previous = None then w
                else (tab_delete (\<lambda>a. al_policy a = mt_key m) (fst w), snd w))
           | (Some st, transition) \<Rightarrow>
               (tab_upsert al_policy merge_alert (alert_row_of t m threshold st) (fst w),
                case transition of
                  None \<Rightarrow> snd w
                | Some tr \<Rightarrow> tab_insert_ignore av_event_key (alert_event_of stamp t m threshold tr) (snd w)))"

definition alert_before :: "alert_row list \<Rightarrow> metric \<Rightarrow> alert_row option" where
  "alert_before alerts m = tab_first (\<lambda>a. al_policy a = mt_key m) alerts"

text \<open>D1 reads all the rows, passes over the metrics that have no threshold or no sample, and
  writes the statements of the others in one batch.\<close>

fun persist_alerts_d1 ::
  "(instant \<Rightarrow> string) \<Rightarrow> instant \<Rightarrow> alert_row list \<Rightarrow> metric list
   \<Rightarrow> alert_row list \<times> alert_event list \<Rightarrow> alert_row list \<times> alert_event list" where
  "persist_alerts_d1 stamp t before [] w = w"
| "persist_alerts_d1 stamp t before (m # ms) w =
     persist_alerts_d1 stamp t before ms
       (case candidate_threshold (mt_key m) of
          None \<Rightarrow> w
        | Some threshold \<Rightarrow>
            if mt_samples m = 0 then w
            else write_alert stamp t m threshold (alert_before before m) w)"

text \<open>PostgreSQL selects the candidates first, locks their rows and writes them one by one.\<close>

definition alert_candidates :: "metric list \<Rightarrow> metric list" where
  "alert_candidates = filter (\<lambda>m. mt_samples m > 0 \<and> candidate_threshold (mt_key m) \<noteq> None)"

definition persist_alerts_pg ::
  "(instant \<Rightarrow> string) \<Rightarrow> instant \<Rightarrow> metric list
   \<Rightarrow> alert_row list \<times> alert_event list \<Rightarrow> alert_row list \<times> alert_event list" where
  "persist_alerts_pg stamp t metrics w =
     (let candidates = alert_candidates metrics;
          locked = filter (\<lambda>a. al_policy a \<in> mt_key ` set candidates) (fst w)
      in fold (\<lambda>m. write_alert stamp t m (the (candidate_threshold (mt_key m))) (alert_before locked m))
           candidates w)"

section \<open>Retention samples\<close>

definition retention_sample_of :: "string \<Rightarrow> retention_report \<Rightarrow> string \<times> retention_resource \<Rightarrow> retention_sample" where
  "retention_sample_of date report r =
     \<lparr>rn_date = date, rn_kind = fst r, rn_days = ru_days report, rn_cutoff_at = ru_cutoff_at report,
      rn_candidates = rv_candidates (snd r),
      rn_oldest = (if rv_candidates (snd r) > 0 then rv_oldest_at (snd r) else None),
      rn_captured_at = ru_generated_at report\<rparr>"

definition merge_retention :: "retention_sample \<Rightarrow> retention_sample \<Rightarrow> retention_sample" where
  "merge_retention old new =
     old\<lparr>rn_cutoff_at := rn_cutoff_at new, rn_candidates := rn_candidates new,
         rn_oldest := rn_oldest new, rn_captured_at := rn_captured_at new\<rparr>"

definition put_retention :: "retention_sample \<Rightarrow> retention_sample list \<Rightarrow> retention_sample list" where
  "put_retention s = tab_upsert (\<lambda>s. (rn_date s, rn_kind s, rn_days s)) merge_retention s"

definition retention_reports :: "(nat \<Rightarrow> instant) \<Rightarrow> 'a readiness_db_scheme \<Rightarrow> retention_report list" where
  "retention_reports at_days db = map (\<lambda>d. get_retention_report d (at_days d) db) [7, 30, 90]"

definition put_daily ::
  "(instant \<Rightarrow> string) \<Rightarrow> instant \<Rightarrow> retention_report list \<Rightarrow> retention_sample list \<Rightarrow> retention_sample list" where
  "put_daily stamp t reports rows =
     fold put_retention
       (concat (map (\<lambda>report. map (retention_sample_of (js_slice 10 (stamp t)) report) (ru_resources report)) reports))
       rows"

section \<open>The capture\<close>

record capture_env =
  cn_json_of :: "string \<Rightarrow> json option"
  cn_iso :: "instant \<Rightarrow> string"

text \<open>The instants a capture reads: its own, that of the queue summary, those of the reports.\<close>

record capture_times =
  cm_now :: instant
  cm_queue :: instant
  cm_report :: "nat \<Rightarrow> instant"

definition captured_metrics :: "capture_env \<Rightarrow> capture_times \<Rightarrow> 'a readiness_db_scheme \<Rightarrow> metric list" where
  "captured_metrics en ts db =
     capture_metrics_of (cn_json_of en) (cm_now ts) (queue_summary_d1 (cm_queue ts) db)
       (newest_heartbeat (ob_heartbeats db))"

definition save_samples :: "instant \<Rightarrow> metric list \<Rightarrow> 'a readiness_db_scheme \<Rightarrow> 'a readiness_db_scheme" where
  "save_samples t metrics db = db\<lparr>ob_samples := put_samples t metrics (ob_samples db)\<rparr>"

definition save_alerts ::
  "(instant \<Rightarrow> string) \<Rightarrow> instant \<Rightarrow> metric list \<Rightarrow> 'a readiness_db_scheme \<Rightarrow> 'a readiness_db_scheme" where
  "save_alerts stamp t metrics db =
     (let (alerts, events) = persist_alerts_d1 stamp t (ob_alerts db) metrics (ob_alerts db, ob_events db)
      in db\<lparr>ob_alerts := alerts, ob_events := events\<rparr>)"

definition save_retention ::
  "(instant \<Rightarrow> string) \<Rightarrow> capture_times \<Rightarrow> 'a readiness_db_scheme \<Rightarrow> 'a readiness_db_scheme" where
  "save_retention stamp ts db =
     db\<lparr>ob_retention := put_daily stamp (cm_now ts) (retention_reports (cm_report ts) db) (ob_retention db)\<rparr>"

text \<open>D1: three batches, of which the first \<open>n\<close> succeed; three is the whole capture.\<close>

definition capture_d1 ::
  "capture_env \<Rightarrow> capture_times \<Rightarrow> nat \<Rightarrow> 'a readiness_db_scheme \<Rightarrow> 'a readiness_db_scheme" where
  "capture_d1 en ts n db =
     (let metrics = captured_metrics en ts db; t = cm_now ts;
          db1 = (if n \<ge> 1 then save_samples t metrics db else db);
          db2 = (if n \<ge> 2 then save_alerts (cn_iso en) t metrics db1 else db1)
      in if n \<ge> 3 then save_retention (cn_iso en) ts db2 else db2)"

text \<open>PostgreSQL: one transaction, which commits or not, and a pruning, which may fail.\<close>

definition expired_samples :: "instant \<Rightarrow> metric_sample list \<Rightarrow> metric_sample list" where
  "expired_samples cutoff rows = take 1000 (sort_key sa_window_end (filter (\<lambda>s. sa_window_end s < cutoff) rows))"

definition prune_samples :: "instant \<Rightarrow> metric_sample list \<Rightarrow> metric_sample list" where
  "prune_samples t rows =
     filter (\<lambda>s. s \<notin> set (expired_samples (t - 7 * 86400000) rows)) rows"

definition captured_metrics_pg :: "capture_env \<Rightarrow> capture_times \<Rightarrow> 'a readiness_db_scheme \<Rightarrow> metric list" where
  "captured_metrics_pg en ts db =
     capture_metrics_of (cn_json_of en) (cm_now ts) (queue_summary_pg (cm_queue ts) db)
       (newest_heartbeat (ob_heartbeats db))"

definition capture_transaction :: "capture_env \<Rightarrow> capture_times \<Rightarrow> 'a readiness_db_scheme \<Rightarrow> 'a readiness_db_scheme" where
  "capture_transaction en ts db =
     (let metrics = captured_metrics_pg en ts db; reports = retention_reports (cm_report ts) db; t = cm_now ts;
          (alerts, events) = persist_alerts_pg (cn_iso en) t metrics (ob_alerts db, ob_events db)
      in db\<lparr>ob_samples := put_samples t metrics (ob_samples db), ob_alerts := alerts, ob_events := events,
           ob_retention := put_daily (cn_iso en) t reports (ob_retention db)\<rparr>)"

definition capture_pg ::
  "capture_env \<Rightarrow> capture_times \<Rightarrow> bool \<Rightarrow> bool \<Rightarrow> 'a readiness_db_scheme \<Rightarrow> 'a readiness_db_scheme" where
  "capture_pg en ts commits prunes db =
     (if \<not> commits then db
      else let db1 = capture_transaction en ts db
           in if prunes then db1\<lparr>ob_samples := prune_samples (cm_now ts) (ob_samples db1)\<rparr> else db1)"

section \<open>Writing the same rows again\<close>

text \<open>A row is settled in a table when writing it again changes nothing.\<close>

definition settled_in :: "('r \<Rightarrow> 'k) \<Rightarrow> ('r \<Rightarrow> 'r \<Rightarrow> 'r) \<Rightarrow> 'r \<Rightarrow> 'r list \<Rightarrow> bool" where
  "settled_in key merge s rows =
     (key s \<in> key ` set rows \<and> (\<forall>r\<in>set rows. key r = key s \<longrightarrow> merge r s = r))"

text \<open>The laws of an upsert that overwrites columns beside the key.\<close>

locale overwrite =
  fixes key :: "'r \<Rightarrow> 'k" and merge :: "'r \<Rightarrow> 'r \<Rightarrow> 'r"
  assumes merge_key: "key (merge old new) = key old"
    and merge_again: "merge (merge old new) new = merge old new"
    and merge_self: "merge new new = new"
begin

lemma settled_noop: "settled_in key merge s rows \<Longrightarrow> tab_upsert key merge s rows = rows"
  by (auto simp: settled_in_def tab_upsert_def tab_update_def map_idI)

lemma upsert_settles: "settled_in key merge s (tab_upsert key merge s rows)"
proof -
  have "key s \<in> key ` set (tab_upsert key merge s rows)"
  proof -
    from tab_upsert_has [of key merge s "\<lambda>_. True" rows, OF merge_key]
    show ?thesis by (metis imageI)
  qed
  moreover have "\<forall>r\<in>set (tab_upsert key merge s rows). key r = key s \<longrightarrow> merge r s = r"
    by (auto simp: tab_upsert_def set_tab_update merge_key merge_again merge_self) (metis imageI)
  ultimately show ?thesis by (simp add: settled_in_def)
qed

lemma upsert_keeps_settled:
  "settled_in key merge s rows \<Longrightarrow> key s' \<noteq> key s \<Longrightarrow> settled_in key merge s (tab_upsert key merge s' rows)"
  by (auto simp: settled_in_def tab_upsert_def set_tab_update merge_key image_iff)

lemma fold_settles:
  assumes "distinct (map key ss)"
  shows "\<forall>s\<in>set ss. settled_in key merge s (fold (tab_upsert key merge) ss rows)"
  using assms
proof (induction ss rule: rev_induct)
  case (snoc x xs)
  then show ?case by (auto intro: upsert_settles upsert_keeps_settled)
qed simp

lemma fold_again:
  assumes "distinct (map key ss)"
  shows "fold (tab_upsert key merge) ss (fold (tab_upsert key merge) ss rows) = fold (tab_upsert key merge) ss rows"
proof -
  have "fold (tab_upsert key merge) xs t = t" if "\<forall>s\<in>set xs. settled_in key merge s t" for xs t
    using that by (induction xs) (simp_all add: settled_noop)
  then show ?thesis using fold_settles [OF assms] by blast
qed

end

interpretation samples: overwrite "\<lambda>s. (sa_key s, sa_window_end s)" merge_sample
  by unfold_locales (simp_all add: merge_sample_def)

interpretation retention: overwrite "\<lambda>s. (rn_date s, rn_kind s, rn_days s)" merge_retention
  by unfold_locales (simp_all add: merge_retention_def)

lemma put_samples_again:
  assumes "distinct (map mt_key metrics)"
  shows "put_samples t metrics (put_samples t metrics rows) = put_samples t metrics rows"
proof -
  have put: "put_samples t metrics rows =
      fold (tab_upsert (\<lambda>s. (sa_key s, sa_window_end s)) merge_sample) (map (sample_of t) metrics) rows" for rows
    by (simp add: put_samples_def put_sample_def fold_map o_def)
  have "distinct (map (\<lambda>s. (sa_key s, sa_window_end s)) (map (sample_of t) metrics))"
    using assms by (auto simp: distinct_map sample_of_def inj_on_def)
  from samples.fold_again [OF this] show ?thesis by (simp add: put)
qed

lemma put_daily_again:
  assumes "distinct (map ru_days reports)" and "\<forall>r\<in>set reports. distinct (map fst (ru_resources r))"
  shows "put_daily stamp t reports (put_daily stamp t reports rows) = put_daily stamp t reports rows"
proof -
  let ?all = "concat (map (\<lambda>report. map (retention_sample_of (js_slice 10 (stamp t)) report) (ru_resources report)) reports)"
  have put: "put_daily stamp t reports rows =
      fold (tab_upsert (\<lambda>s. (rn_date s, rn_kind s, rn_days s)) merge_retention) ?all rows" for rows
    by (simp add: put_daily_def put_retention_def [abs_def])
  have "distinct (map (\<lambda>s. (rn_date s, rn_kind s, rn_days s)) ?all)"
    using assms
  proof (induction reports)
    case (Cons r rs)
    have "distinct (map (\<lambda>p. (js_slice 10 (stamp t), fst p, ru_days r)) (ru_resources r))"
      using Cons.prems by (simp add: distinct_map inj_on_def)
    then show ?case using Cons by (auto simp: retention_sample_of_def o_def)
  qed simp
  from retention.fold_again [OF this] show ?thesis by (simp add: put)
qed

section \<open>One evaluation\<close>

abbreviation alert_at :: "alert_row list \<Rightarrow> string \<Rightarrow> alert_row option" where
  "alert_at rows k \<equiv> tab_first (\<lambda>a. al_policy a = k) rows"

lemma alert_row_of_sel [simp]:
  "al_policy (alert_row_of t m th st) = mt_key m" "al_state (alert_row_of t m th st) = st"
  "al_last_evaluated_at (alert_row_of t m th st) = t"
  by (simp_all add: alert_row_of_def)

lemma merge_alert_sel [simp]:
  "al_policy (merge_alert old new) = al_policy old" "al_state (merge_alert old new) = al_state new"
  "al_last_evaluated_at (merge_alert old new) = al_last_evaluated_at new"
  by (simp_all add: merge_alert_def)

text \<open>The row of a key after an upsert.\<close>

lemma alert_at_upsert:
  "alert_at (tab_upsert al_policy merge_alert new rows) k =
     (if al_policy new = k
      then Some (case alert_at rows k of None \<Rightarrow> new | Some old \<Rightarrow> merge_alert old new)
      else alert_at rows k)"
proof (cases "al_policy new \<in> al_policy ` set rows")
  case True
  then have "alert_at rows (al_policy new) \<noteq> None" by (auto simp: tab_first_None)
  then show ?thesis using True
    by (auto simp: tab_upsert_def tab_first_mapped row_write.first_update_other [OF row_write.intro])
next
  case False
  then have "alert_at rows (al_policy new) = None" 
    unfolding tab_first_None by (metis imageI)
  then show ?thesis using False by (auto simp: tab_upsert_def tab_first_append split: option.splits)
qed

lemma alert_at_delete:
  "alert_at (tab_delete (\<lambda>a. al_policy a = k') rows) k = (if k' = k then None else alert_at rows k)"
  by (induction rows) auto

lemma write_alert_other:
  "k \<noteq> mt_key m \<Longrightarrow> alert_at (fst (write_alert stamp t m th previous w)) k = alert_at (fst w) k"
  by (auto simp: write_alert_def alert_at_upsert alert_at_delete split: prod.splits option.splits)

text \<open>Whether the capture evaluates a metric, and the row of its policy after that, as a function
  of the row before.\<close>

definition evaluated :: "metric \<Rightarrow> bool" where
  "evaluated m = (candidate_threshold (mt_key m) \<noteq> None \<and> mt_samples m \<noteq> 0)"

definition alert_after :: "instant \<Rightarrow> metric \<Rightarrow> alert_row option \<Rightarrow> alert_row option" where
  "alert_after t m previous =
     (if \<not> evaluated m \<or> map_option al_last_evaluated_at previous = Some t then previous
      else let th = the (candidate_threshold (mt_key m))
           in map_option (\<lambda>st. case previous of None \<Rightarrow> alert_row_of t m th st
                | Some old \<Rightarrow> merge_alert old (alert_row_of t m th st))
                (fst (evaluate_threshold (fst th) (mt_value m) (map_option al_state previous) (snd th))))"

lemma alert_after_skipped: "\<not> evaluated m \<Longrightarrow> alert_after t m previous = previous"
  by (simp add: alert_after_def)

lemma alert_after_state:
  assumes "candidate_threshold (mt_key m) = Some (c, threshold)" and "mt_samples m \<noteq> 0"
    and "map_option al_last_evaluated_at previous \<noteq> Some t"
  shows "map_option al_state (alert_after t m previous)
    = fst (evaluate_threshold c (mt_value m) (map_option al_state previous) threshold)"
  using assms by (cases previous) (auto simp: alert_after_def evaluated_def Let_def option.map_comp o_def option.map_ident)

lemma alert_after_time:
  "alert_after t m previous = Some a \<Longrightarrow> evaluated m \<Longrightarrow> al_last_evaluated_at a = t"
  by (auto simp: alert_after_def Let_def split: if_splits option.splits)

lemma write_alert_row:
  assumes "evaluated m" and "candidate_threshold (mt_key m) = Some th" and "alert_at (fst w) (mt_key m) = previous"
  shows "alert_at (fst (write_alert stamp t m th previous w)) (mt_key m) = alert_after t m previous"
  using assms
  by (cases previous)
    (auto simp: write_alert_def alert_after_def alert_at_upsert alert_at_delete split: prod.splits option.splits)

section \<open>One capture\<close>

lemma persist_other:
  "k \<notin> mt_key ` set ms \<Longrightarrow> alert_at (fst (persist_alerts_d1 stamp t before ms w)) k = alert_at (fst w) k"
  by (induction ms arbitrary: w) (auto simp: write_alert_other split: option.splits)

text \<open>The metrics of a capture have distinct keys, so each writes the row of its own policy only,
  from the state which that row had before.\<close>

lemma persist_one:
  assumes "distinct (map mt_key ms)" and "m \<in> set ms"
    and "\<And>m. m \<in> set ms \<Longrightarrow> alert_at (fst w) (mt_key m) = alert_before before m"
  shows "alert_at (fst (persist_alerts_d1 stamp t before ms w)) (mt_key m) = alert_after t m (alert_before before m)"
  using assms
proof (induction ms arbitrary: w)
  case (Cons x xs)
  let ?w = "case candidate_threshold (mt_key x) of None \<Rightarrow> w
    | Some th \<Rightarrow> if mt_samples x = 0 then w else write_alert stamp t x th (alert_before before x) w"
  have other: "alert_at (fst ?w) k = alert_at (fst w) k" if "k \<noteq> mt_key x" for k
    using that by (auto simp: write_alert_other split: option.splits)
  have fresh: "mt_key x \<notin> mt_key ` set xs" using Cons.prems(1) by simp
  show ?case
  proof (cases "m = x")
    case True
    have "alert_at (fst ?w) (mt_key x) = alert_after t x (alert_before before x)"
      using Cons.prems(3) [of x] write_alert_row [of x _ w "alert_before before x"]
      by (auto simp: evaluated_def alert_after_skipped split: option.splits)
    then show ?thesis using True persist_other [OF fresh] by simp
  next
    case False
    then have m: "m \<in> set xs" using Cons.prems(2) by simp
    have "alert_at (fst ?w) (mt_key y) = alert_before before y" if "y \<in> set xs" for y
    proof -
      have "mt_key y \<noteq> mt_key x" using that fresh by (metis imageI)
      then show ?thesis using that Cons.prems(3) other by simp
    qed
    then show ?thesis using Cons.IH [OF _ m] Cons.prems(1) by simp
  qed
qed simp

section \<open>A history of captures\<close>

definition alert_history ::
  "(instant \<Rightarrow> string) \<Rightarrow> (instant \<times> metric list) list \<Rightarrow> alert_row list \<times> alert_event list
   \<Rightarrow> alert_row list \<times> alert_event list" where
  "alert_history stamp = fold (\<lambda>(t, metrics) w. persist_alerts_d1 stamp t (fst w) metrics w)"

definition observations :: "string \<Rightarrow> (instant \<times> metric list) list \<Rightarrow> rat list" where
  "observations k captures =
     concat (map (\<lambda>(t, ms). map mt_value (filter (\<lambda>m. mt_key m = k \<and> mt_samples m \<noteq> 0) ms)) captures)"

text \<open>What an alert promises, from the breaches, the newest first: it is pending on the first breach
  in a row and fires on the second, and a value in range ends it, with one recovered state when
  it had fired.\<close>

definition expected_alert :: "bool list \<Rightarrow> alert_state option" where
  "expected_alert breaches =
     (let run = length (takeWhile id breaches)
      in if run \<ge> 2 then Some Alert_Firing else if run = 1 then Some Alert_Pending
         else if length (takeWhile id (tl breaches)) \<ge> 2 then Some Alert_Recovered else None)"

lemma expected_alert_step:
  "fst (evaluate_threshold c v (expected_alert bs) threshold) = expected_alert (breached c v threshold # bs)"
proof -
  have "length (takeWhile id bs) = 0 \<or> length (takeWhile id bs) = 1 \<or> length (takeWhile id bs) \<ge> 2" by arith
  then show ?thesis by (elim disjE) (auto simp: expected_alert_def evaluate_threshold_def Let_def)
qed

lemma distinct_filter_one:
  "distinct (map f xs) \<Longrightarrow> x \<in> set xs \<Longrightarrow> P x \<Longrightarrow> filter (\<lambda>y. f y = f x \<and> P y) xs = [x]"
proof (induction xs)
  case (Cons y ys)
  show ?case
  proof (cases "x = y")
    case True
    then have "\<forall>z\<in>set ys. f z \<noteq> f x" using Cons.prems(1) by (auto simp: image_iff)
    then show ?thesis using True Cons.prems(3) by (auto simp: filter_empty_conv)
  next
    case False
    then have "x \<in> set ys" "f y \<noteq> f x" using Cons.prems by (auto simp: image_iff)
    then show ?thesis using Cons by auto
  qed
qed simp

lemma persist_observed:
  assumes "distinct (map mt_key ms)" and "candidate_threshold k = Some (c, threshold)"
    and "map_option al_last_evaluated_at (alert_at (fst w) k) \<noteq> Some t"
  shows "map_option al_state (alert_at (fst (persist_alerts_d1 stamp t (fst w) ms w)) k)
    = fold (\<lambda>v st. fst (evaluate_threshold c v st threshold)) (observations k [(t, ms)])
        (map_option al_state (alert_at (fst w) k))" (is "?state = _")
    and "alert_at (fst (persist_alerts_d1 stamp t (fst w) ms w)) k = Some a \<Longrightarrow>
      al_last_evaluated_at a = t \<or> alert_at (fst w) k = Some a"
proof -
  let ?after = "alert_at (fst (persist_alerts_d1 stamp t (fst w) ms w)) k"
  have row: "?after = alert_after t m (alert_at (fst w) k)" if "m \<in> set ms" "mt_key m = k" for m
    using persist_one [of ms m w "fst w" stamp t] assms(1) that by (simp add: alert_before_def)
  have none: "?after = alert_at (fst w) k" if "\<forall>m\<in>set ms. mt_key m = k \<longrightarrow> mt_samples m = 0"
  proof (cases "k \<in> mt_key ` set ms")
    case True
    then obtain m where "m \<in> set ms" "mt_key m = k" by auto
    then show ?thesis using row that by (auto simp: alert_after_skipped evaluated_def)
  qed (simp add: persist_other)
  show "?state = fold (\<lambda>v st. fst (evaluate_threshold c v st threshold)) (observations k [(t, ms)])
        (map_option al_state (alert_at (fst w) k))"
  proof (cases "\<exists>m\<in>set ms. mt_key m = k \<and> mt_samples m \<noteq> 0")
    case True
    then obtain m where m: "m \<in> set ms" "mt_key m = k" "mt_samples m \<noteq> 0" by blast
    have "filter (\<lambda>m. mt_key m = k \<and> mt_samples m \<noteq> 0) ms = [m]"
      using distinct_filter_one [OF assms(1) m(1), of "\<lambda>m. mt_samples m \<noteq> 0"] m by simp
    then show ?thesis using row m alert_after_state [of m c threshold _ t] assms(2,3)
      by (simp add: observations_def)
  next
    case False
    then have "filter (\<lambda>m. mt_key m = k \<and> mt_samples m \<noteq> 0) ms = []" by (auto simp: filter_empty_conv)
    then show ?thesis using none False by (auto simp: observations_def)
  qed
  assume a: "?after = Some a"
  show "al_last_evaluated_at a = t \<or> alert_at (fst w) k = Some a"
  proof (cases "\<exists>m\<in>set ms. mt_key m = k \<and> mt_samples m \<noteq> 0")
    case True
    then obtain m where m: "m \<in> set ms" "mt_key m = k" "mt_samples m \<noteq> 0" by blast
    then have "evaluated m" using assms(2) by (simp add: evaluated_def)
    then show ?thesis using alert_after_time row [OF m(1,2)] a by metis
  next
    case False
    then show ?thesis using none a by auto
  qed
qed

text \<open>C22: After any history of captures at increasing times, the state of an alert policy is the one
  its observed values promise: pending on a first breach, firing from the second in a row on,
  recovered at the first value in range after it fired, and no alert otherwise.\<close>

theorem alert_state_follows_breaches:
  assumes "candidate_threshold k = Some (c, threshold)"
    and "\<forall>(t, ms)\<in>set captures. distinct (map mt_key ms)"
    and "sorted_wrt (<) (map fst captures)"
  shows "map_option al_state (alert_at (fst (alert_history stamp captures ([], []))) k)
    = expected_alert (rev (map (\<lambda>v. breached c v threshold) (observations k captures)))"
proof -
  have steps: "fold (\<lambda>v st. fst (evaluate_threshold c v st threshold)) vs (expected_alert bs)
      = expected_alert (rev (map (\<lambda>v. breached c v threshold) vs) @ bs)" for vs bs
    by (induction vs arbitrary: bs) (simp_all add: expected_alert_step)
  have "map_option al_state (alert_at (fst (alert_history stamp captures ([], []))) k)
      = expected_alert (rev (map (\<lambda>v. breached c v threshold) (observations k captures)))
    \<and> (\<forall>a. alert_at (fst (alert_history stamp captures ([], []))) k = Some a
         \<longrightarrow> al_last_evaluated_at a \<in> fst ` set captures)"
    using assms(2,3)
  proof (induction captures rule: rev_induct)
    case Nil
    then show ?case by (simp add: alert_history_def observations_def expected_alert_def)
  next
    case (snoc x xs)
    obtain t ms where x: "x = (t, ms)" by (cases x)
    let ?w = "alert_history stamp xs ([], [])"
    have IH: "map_option al_state (alert_at (fst ?w) k)
        = expected_alert (rev (map (\<lambda>v. breached c v threshold) (observations k xs)))"
      "\<And>a. alert_at (fst ?w) k = Some a \<Longrightarrow> al_last_evaluated_at a \<in> fst ` set xs"
      using snoc by (auto simp: sorted_wrt_append)
    have "t \<notin> fst ` set xs" using snoc.prems(2) x by (auto simp: sorted_wrt_append)
    then have new: "map_option al_last_evaluated_at (alert_at (fst ?w) k) \<noteq> Some t" using IH(2) by auto
    have run: "alert_history stamp (xs @ [x]) ([], []) = persist_alerts_d1 stamp t (fst ?w) ms ?w"
      by (simp add: alert_history_def x)
    have obs: "observations k (xs @ [x]) = observations k xs @ observations k [(t, ms)]"
      by (simp add: observations_def x)
    have "distinct (map mt_key ms)" using snoc.prems(1) x by simp
    note one = persist_observed [OF this assms(1) new, of stamp]
    show ?case unfolding run obs using one IH by (auto simp: steps x)
  qed
  then show ?thesis by blast
qed

theorem alert_state_follows_breaches_witness:
  "map_option al_state (alert_at (fst (alert_history (\<lambda>t. replicate (nat t) CHR ''t'')
       [(1, [metric_of ''queue.executable'' True 101]), (2, [metric_of ''queue.executable'' True 102]),
        (3, [metric_of ''queue.executable'' True 7])] ([], []))) ''queue.executable'') = Some Alert_Recovered"
  by (subst alert_state_follows_breaches [where c = Gt and threshold = 100])
    (simp_all add: candidate_threshold_def metric_of_def observations_def breached_def expected_alert_def)

section \<open>A capture that is run again\<close>

lemma write_alert_again:
  assumes "evaluated m" and "candidate_threshold (mt_key m) = Some th"
  shows "write_alert stamp t m th (alert_after t m previous) w = w"
proof (cases "alert_after t m previous")
  case None
  then have "\<not> breached (fst th) (mt_value m) (snd th)"
    using assms by (auto simp: alert_after_def evaluate_threshold_def Let_def split: if_splits)
  then show ?thesis using None by (simp add: write_alert_def evaluate_threshold_def)
next
  case (Some a)
  then show ?thesis using alert_after_time [OF Some assms(1)] by (simp add: write_alert_def)
qed

lemma persist_again:
  assumes "distinct (map mt_key ms)"
  shows "persist_alerts_d1 stamp t (fst (persist_alerts_d1 stamp t (fst w) ms w)) ms w' = w'"
proof -
  let ?rows = "fst (persist_alerts_d1 stamp t (fst w) ms w)"
  have again: "alert_before ?rows m = alert_after t m (alert_before (fst w) m)" if "m \<in> set ms" for m
    using persist_one [OF assms that] by (simp add: alert_before_def)
  have "persist_alerts_d1 stamp t ?rows xs w' = w'" if "set xs \<subseteq> set ms" for xs
    using that
    by (induction xs) (auto simp: again evaluated_def write_alert_again split: option.splits)
  then show ?thesis by blast
qed

lemma persist_fold:
  "persist_alerts_d1 stamp t before ms w =
     fold (\<lambda>m. write_alert stamp t m (the (candidate_threshold (mt_key m))) (alert_before before m))
       (alert_candidates ms) w"
  by (induction ms arbitrary: w) (auto simp: alert_candidates_def split: option.splits)

lemma persist_pg_d1: "persist_alerts_pg stamp t ms w = persist_alerts_d1 stamp t (fst w) ms w"
proof -
  have "alert_before (filter (\<lambda>a. al_policy a \<in> mt_key ` set cs) rows) m = alert_before rows m"
    if "m \<in> set cs" for cs m and rows :: "alert_row list"
    unfolding alert_before_def using that by (induction rows) auto
  then show ?thesis by (auto simp: persist_alerts_pg_def persist_fold Let_def intro!: fold_cong)
qed

section \<open>The keys of the metrics are distinct\<close>

lemma mt_key_sel [simp]: "mt_key (metric_of k b v) = k" "mt_key (number_metric k x) = k"
  by (auto simp: number_metric_def metric_of_def split: option.splits json.splits)

lemma metric_counters_keys:
  "map mt_key (metric_counters prefix source names) = map (\<lambda>(k, name). prefix @ ''.'' @ name) names"
  by (simp add: metric_counters_def case_prod_beta)

lemma dependency_metric_key: "mt_key (dependency_metric json_of cs c) = ''dependency.'' @ c @ ''.ready''"
  by (simp add: dependency_metric_def)

definition metric_keys :: "string list \<Rightarrow> string list" where
  "metric_keys statuses =
     [''api.availability'', ''worker.heartbeat_age_seconds'', ''queue.executable'', ''queue.deferred'',
      ''queue.oldest_executable_age_seconds'', ''worker.backlog'']
     @ map (\<lambda>c. ''dependency.'' @ c @ ''.ready'') [''browser'', ''mihomo'', ''warp'']
     @ map (\<lambda>st. ''job.result.'' @ st) statuses
     @ map (\<lambda>(k, name). ''article.extraction.'' @ name) extraction_counters
     @ map (\<lambda>(k, name). ''worker.job.'' @ name) job_counters"

lemma metric_keys_distinct:
  "distinct (metric_keys [''dead'', ''deferred'', ''done'', ''failed'', ''processing'', ''uncertain''])"
  by code_simp

lemma distinct_map_filter_middle:
  "distinct (xs @ map f ys @ zs) \<Longrightarrow> distinct (xs @ map f (filter p ys) @ zs)"
  by (auto simp: distinct_map_filter)

lemma metric_keys_filter:
  assumes "distinct (metric_keys (map f xs))"
  shows "distinct (metric_keys (map f (filter p xs)))"
proof -
  obtain A B g where keys: "\<And>ss. metric_keys ss = A @ map g ss @ B"
    unfolding metric_keys_def append_assoc [symmetric, of "_ :: string list" _ "map _ _"]
    by (metis append_assoc)
  show ?thesis using distinct_map_filter_middle [of A "g \<circ> f" xs B p] assms by (simp add: keys)
qed

lemma captured_keys_distinct: "distinct (map mt_key (captured_metrics en ts db))"
proof -
  let ?counts = "rq_job_status_counts (queue_summary_d1 (cm_queue ts) db)"
  obtain p where p: "map fst ?counts = filter p all_statuses"
    by (force simp: queue_summary_d1_def grouped_counts_def filter_map o_def Let_def)
  have keys: "map mt_key (captured_metrics en ts db) = metric_keys (map (\<lambda>x. status_text (fst x)) ?counts)"
    by (simp add: captured_metrics_def capture_metrics_of_def metric_keys_def Let_def metric_counters_keys
        dependency_metric_key o_def case_prod_beta)
  have "map (\<lambda>x. status_text (fst x)) ?counts = map status_text (filter p all_statuses)"
    using p by (metis (no_types, lifting) list.map_comp comp_def map_eq_conv)
  moreover have "distinct (metric_keys (map status_text (filter p all_statuses)))"
    using metric_keys_distinct by (intro metric_keys_filter) (simp add: all_statuses_def)
  ultimately show ?thesis using keys by simp
qed

section \<open>What a capture writes\<close>

definition captured_alerts ::
  "capture_env \<Rightarrow> capture_times \<Rightarrow> 'a readiness_db_scheme \<Rightarrow> alert_row list \<times> alert_event list" where
  "captured_alerts en ts db =
     persist_alerts_d1 (cn_iso en) (cm_now ts) (ob_alerts db) (captured_metrics en ts db) (ob_alerts db, ob_events db)"

lemma reads_only [simp]:
  "captured_metrics en ts (db\<lparr>ob_samples := ss, ob_alerts := as, ob_events := es, ob_retention := rs\<rparr>)
     = captured_metrics en ts db"
  "retention_reports at_days (db\<lparr>ob_samples := ss, ob_alerts := as, ob_events := es, ob_retention := rs\<rparr>)
     = retention_reports at_days db"
  by (simp_all add: captured_metrics_def queue_summary_d1_def retention_reports_def
      get_retention_report_def retention_columns_def)

text \<open>The tables after the first \<open>n\<close> batches.\<close>

lemma capture_d1_tables:
  "capture_d1 en ts n db = db\<lparr>
     ob_samples := (if n \<ge> 1 then put_samples (cm_now ts) (captured_metrics en ts db) (ob_samples db) else ob_samples db),
     ob_alerts := (if n \<ge> 2 then fst (captured_alerts en ts db) else ob_alerts db),
     ob_events := (if n \<ge> 2 then snd (captured_alerts en ts db) else ob_events db),
     ob_retention := (if n \<ge> 3 then put_daily (cn_iso en) (cm_now ts) (retention_reports (cm_report ts) db) (ob_retention db)
       else ob_retention db)\<rparr>"
  by (simp add: capture_d1_def save_samples_def save_alerts_def save_retention_def captured_alerts_def
      case_prod_beta Let_def retention_reports_def get_retention_report_def retention_columns_def)

lemma retention_reports_distinct:
  "distinct (map ru_days (retention_reports at_days db))"
  "\<forall>r\<in>set (retention_reports at_days db). distinct (map fst (ru_resources r))"
  by (simp_all add: retention_reports_def get_retention_report_def Let_def retention_columns_def)

text \<open>On D1 a capture that stopped after any of its three batches is completed by running it again
  for the same instants: the tables are those of one full capture. In particular a capture that is
  run twice writes nothing the second time.\<close>

lemma interrupted_capture_is_completed:
  "capture_d1 en ts 3 (capture_d1 en ts n db) = capture_d1 en ts 3 db"
proof -
  let ?ms = "captured_metrics en ts db"
  have alerts: "persist_alerts_d1 (cn_iso en) (cm_now ts) (fst (captured_alerts en ts db)) ?ms w = w" for w
    using persist_again [OF captured_keys_distinct, where w = "(ob_alerts db, ob_events db)"]
    by (simp add: captured_alerts_def)
  show ?thesis
    unfolding capture_d1_tables [of en ts 3] capture_d1_tables [of en ts n]
    by (simp add: captured_alerts_def [of _ _ "db\<lparr>ob_samples := _, ob_alerts := _, ob_events := _, ob_retention := _\<rparr>"]
        alerts put_samples_again [OF captured_keys_distinct] put_daily_again [OF retention_reports_distinct]
        flip: captured_alerts_def)
qed

text \<open>The two backends write the same tables: when the transaction of PostgreSQL commits, what it
  leaves is what the three batches of D1 leave, with the same samples, alerts, events and
  retention samples.\<close>

lemma capture_backends_agree:
  "capture_pg en ts True False db = capture_d1 en ts 3 db"
proof -
  have "captured_metrics_pg en ts db = captured_metrics en ts db"
    by (simp add: captured_metrics_pg_def captured_metrics_def queue_summaries_agree)
  then show ?thesis
    by (simp add: capture_pg_def capture_transaction_def capture_d1_tables captured_alerts_def persist_pg_d1
        case_prod_beta Let_def)
qed

text \<open>The pruning of PostgreSQL removes no sample that a metric series can show: the series over
  the last seven days or less, at the time of the capture or later, are the same without it.\<close>

lemma pruning_keeps_the_series:
  assumes "hours \<le> 168" and "cm_now ts \<le> t"
  shows "get_metrics hours t (capture_pg en ts True True db) = get_metrics hours t (capture_pg en ts True False db)"
proof -
  have "filter (\<lambda>s. t - int hours * 3600000 \<le> sa_window_end s) (prune_samples (cm_now ts) rows)
      = filter (\<lambda>s. t - int hours * 3600000 \<le> sa_window_end s) rows" for rows
    using assms unfolding prune_samples_def expired_samples_def filter_filter
    by (intro filter_cong) (auto dest!: in_set_takeD)
  then show ?thesis
    by (simp add: get_metrics_def recent_samples_def capture_pg_def Let_def)
qed

definition old_sample_db :: readiness_db where
  "old_sample_db = \<lparr>lg_jobs = [], lg_envelopes = [], lg_dead_letters = [], lg_sync_jobs = [],
     cd_effects = [], cd_replays = [], cd_inbox = [], ob_heartbeats = [],
     ob_samples = [sample_of 0 (metric_of ''queue.executable'' True 3),
                   sample_of 700000000 (metric_of ''queue.executable'' True 5)],
     ob_alerts = [], ob_events = [], ob_retention = []\<rparr>"

lemma pruning_keeps_the_series_witness:
  "prune_samples 1000000000 (ob_samples old_sample_db) = tl (ob_samples old_sample_db)
   \<and> get_metrics 168 1000000000 (capture_pg \<lparr>cn_json_of = (\<lambda>_. None), cn_iso = (\<lambda>_. [])\<rparr>
         \<lparr>cm_now = 1000000000, cm_queue = 1000000000, cm_report = (\<lambda>_. 1000000000)\<rparr> True True old_sample_db)
     = get_metrics 168 1000000000 (capture_pg \<lparr>cn_json_of = (\<lambda>_. None), cn_iso = (\<lambda>_. [])\<rparr>
         \<lparr>cm_now = 1000000000, cm_queue = 1000000000, cm_report = (\<lambda>_. 1000000000)\<rparr> True False old_sample_db)"
  by (rule conjI, simp add: old_sample_db_def prune_samples_def expired_samples_def sample_of_def metric_of_def,
      rule pruning_keeps_the_series, simp_all)

end
