(* ===== verification/Web_Url.thy ===== *)
theory Web_Url
  imports Js_Text
begin

text \<open>
  A URL as \<open>new URL\<close> presents it. The parser of the platform is an argument of the definitions
  that read URLs; it answers \<open>None\<close> for a text on which \<open>new URL\<close> throws.
\<close>

record url =
  ur_protocol :: string
  ur_username :: string
  ur_password :: string
  ur_hostname :: string
  ur_port :: string
  ur_origin :: string
  ur_pathname :: string
  ur_search :: string
  ur_hash :: string

type_synonym url_parser = "string \<Rightarrow> url option"

definition ends_with :: "string \<Rightarrow> string \<Rightarrow> bool" where
  "ends_with p s = starts_with (rev p) (rev s)"

text \<open>The value of a text of decimal digits, and \<open>Number(url.port)\<close>: a port is empty or digits.\<close>

definition decimal_value :: "string \<Rightarrow> nat" where
  "decimal_value s = foldl (\<lambda>n c. 10 * n + (of_char c - 48)) 0 s"

definition port_number :: "url \<Rightarrow> nat option" where
  "port_number u = (if list_all is_digit (ur_port u) then Some (decimal_value (ur_port u)) else None)"

lemma decimal_value_snoc: "decimal_value (s @ [c]) = 10 * decimal_value s + (of_char c - 48)"
  by (simp add: decimal_value_def)

lemma decimal_value_decimal [simp]: "decimal_value (decimal n) = n"
proof (induction n rule: decimal.induct)
  case (1 n)
  show ?case
  proof (cases "n < 10")
    case True
    then show ?thesis by (simp add: decimal.simps [of n] decimal_value_def)
  next
    case False
    then show ?thesis
      using 1 by (simp add: decimal.simps [of n] decimal_value_snoc)
  qed
qed

end
