(* ===== verification/Api_Access.thy ===== *)
theory Api_Access
  imports Actions Web_Url Queue_Job
begin

text \<open>
  Who may call the API and with what: the bindings, the choice of the database and the two keys of
  \<open>apps/api/src/auth.ts\<close>, the origins of \<open>cors.ts\<close>, and the queries and bodies that the routes of
  \<open>app.ts\<close> accept. \<open>new URL\<close> is an argument, which answers no URL for a text it throws on. A number
  in a query is the exact one its text denotes, without the rounding to a double.
\<close>

section \<open>Bindings\<close>

record bindings =
  bd_admin_api_key :: "string option"
  bd_console_origins :: "string option"
  bd_data_backend :: "string option"
  bd_hyperdrive :: "string option option"
  bd_migration_frozen :: "string option"
  bd_schedule_enabled :: "string option"
  bd_sync_publish_enabled :: "string option"
  bd_worker_service_token :: "string option"
  bd_worker_webhook_token :: "string option"
  bd_worker_webhook_url :: "string option"

text \<open>\<open>getPostgresConnectionString\<close>; no string is the D1 database.\<close>

definition get_postgres_connection_string :: "bindings \<Rightarrow> thrown + string option" where
  "get_postgres_connection_string bd =
     (if bd_data_backend bd = None \<or> bd_data_backend bd = Some ''d1'' then Inr None
      else if bd_data_backend bd \<noteq> Some ''postgres''
      then Inl (Thrown_Error (''Unsupported DATA_BACKEND value: '' @ nullish (bd_data_backend bd) []))
      else case bd_hyperdrive bd of
             Some (Some (c # cs)) \<Rightarrow> Inr (Some (c # cs))
           | _ \<Rightarrow> Inl (Thrown_Error ''DATA_BACKEND=postgres requires a HYPERDRIVE connectionString''))"

definition is_migration_frozen :: "bindings \<Rightarrow> bool" where
  "is_migration_frozen bd = (bd_migration_frozen bd = Some ''true'')"

section \<open>Keys\<close>

text \<open>A secret that is configured: its text after \<open>trim\<close>, unless that is empty.\<close>

definition configured :: "string option \<Rightarrow> string option" where
  "configured v = (case map_option js_trim v of Some (c # cs) \<Rightarrow> Some (c # cs) | _ \<Rightarrow> None)"

definition bearer_token :: "string option \<Rightarrow> string option" where
  "bearer_token authorization = Option.bind authorization (strip_prefix ''Bearer '')"

datatype refusal = Authentication_Unavailable | Invalid_Api_Key | Invalid_Worker_Token

definition require_api_key :: "bindings \<Rightarrow> string option \<Rightarrow> refusal option" where
  "require_api_key bd supplied =
     (case configured (bd_admin_api_key bd) of
        None \<Rightarrow> Some Authentication_Unavailable
      | Some key \<Rightarrow> if supplied \<noteq> Some key then Some Invalid_Api_Key else None)"

definition require_worker_token :: "bindings \<Rightarrow> string option \<Rightarrow> refusal option" where
  "require_worker_token bd authorization =
     (case configured (bd_worker_service_token bd) of
        None \<Rightarrow> Some Invalid_Worker_Token
      | Some token \<Rightarrow> if bearer_token authorization \<noteq> Some token then Some Invalid_Worker_Token else None)"

section \<open>Origins\<close>

definition normalize_origin :: "url_parser \<Rightarrow> string \<Rightarrow> string option" where
  "normalize_origin parse_url v =
     (case parse_url (js_trim v) of
        None \<Rightarrow> None
      | Some u \<Rightarrow>
          if ur_protocol u \<noteq> ''https:'' \<or> ur_pathname u \<noteq> ''/'' \<or> ur_search u \<noteq> [] \<or> ur_hash u \<noteq> []
          then None else Some (ur_origin u))"

definition pages_host :: string where
  "pages_host = ''inbox-server-console.pages.dev''"

text \<open>The second \<open>new URL\<close> is outside the \<open>try\<close>; on an origin that it read once it does not throw.\<close>

definition is_allowed_console_origin :: "url_parser \<Rightarrow> string \<Rightarrow> string option \<Rightarrow> bool" where
  "is_allowed_console_origin parse_url origin configured_origins =
     (case normalize_origin parse_url origin of
        None \<Rightarrow> False
      | Some normalized \<Rightarrow>
          normalized \<noteq> [] \<and>
          (let host = (case parse_url normalized of None \<Rightarrow> [] | Some u \<Rightarrow> ur_hostname u)
           in host = pages_host \<or> ends_with (CHR ''.'' # pages_host) host
              \<or> (case configured_origins of
                   None \<Rightarrow> False
                 | Some s \<Rightarrow> list_ex (\<lambda>c. normalize_origin parse_url c = Some normalized) (split_on CHR '','' s))))"

text \<open>\<open>isInoreaderDomain\<close> and \<open>isInoreaderOrigin\<close>; the pattern of a label is written out.\<close>

definition is_alnum :: "char \<Rightarrow> bool" where
  "is_alnum c = (is_lower c \<or> is_digit c)"

definition is_dns_label :: "string \<Rightarrow> bool" where
  "is_dns_label label =
     (length label \<le> 63 \<and> label \<noteq> [] \<and> is_alnum (hd label) \<and> is_alnum (last label) \<and> list_all is_id_char label)"

definition is_inoreader_domain :: "string \<Rightarrow> bool" where
  "is_inoreader_domain domain =
     (let lowered = map ascii_lower domain;
          normalized = (if starts_with ''.'' lowered then drop 1 lowered else lowered)
      in normalized = ''inoreader.com''
         \<or> ends_with ''.inoreader.com'' normalized
            \<and> list_all is_dns_label
                (split_on CHR ''.'' (take (length normalized - length ''.inoreader.com'') normalized)))"

definition is_inoreader_origin :: "url_parser \<Rightarrow> string \<Rightarrow> bool" where
  "is_inoreader_origin parse_url origin =
     (case parse_url origin of
        None \<Rightarrow> False
      | Some u \<Rightarrow> ur_protocol u = ''https:'' \<and> ur_username u = [] \<and> ur_password u = []
          \<and> ur_origin u = origin \<and> is_inoreader_domain (ur_hostname u))"

section \<open>Numbers in a query\<close>

definition digit_value :: "nat \<Rightarrow> char \<Rightarrow> nat option" where
  "digit_value radix c =
     (let n = of_char (ascii_lower c) :: nat;
          d = (if is_digit c then n - 48 else if is_lower (ascii_lower c) then n - 87 else radix)
      in if d < radix then Some d else None)"

fun digits_onto :: "nat \<Rightarrow> nat \<Rightarrow> string \<Rightarrow> nat option" where
  "digits_onto radix n [] = Some n"
| "digits_onto radix n (c # cs) =
     (case digit_value radix c of None \<Rightarrow> None | Some d \<Rightarrow> digits_onto radix (n * radix + d) cs)"

definition digits_value :: "nat \<Rightarrow> string \<Rightarrow> nat option" where
  "digits_value radix s = (if s = [] then None else digits_onto radix 0 s)"

definition is_sign :: "char \<Rightarrow> bool" where
  "is_sign c = (c = CHR ''+'' \<or> c = CHR ''-'')"

definition signed_part :: "string \<Rightarrow> bool \<times> string" where
  "signed_part s = (case s of c # cs \<Rightarrow> if is_sign c then (c = CHR ''-'', cs) else (False, s) | [] \<Rightarrow> (False, []))"

definition exponent_value :: "string \<Rightarrow> int option" where
  "exponent_value s =
     (let (negative, ds) = signed_part s
      in map_option (\<lambda>n. if negative then - int n else int n) (digits_value 10 ds))"

text \<open>\<open>digits.digits\<close> with digits on one side at least, and an exponent.\<close>

definition unsigned_decimal :: "string \<Rightarrow> rat option" where
  "unsigned_decimal s =
     (let mantissa = takeWhile (\<lambda>c. c \<noteq> CHR ''e'' \<and> c \<noteq> CHR ''E'') s;
          rest = drop (length mantissa) s;
          whole = takeWhile (\<lambda>c. c \<noteq> CHR ''.'') mantissa;
          fraction = drop (Suc (length whole)) mantissa
      in case (digits_value 10 (whole @ fraction), if rest = [] then Some 0 else exponent_value (drop 1 rest)) of
           (Some n, Some e) \<Rightarrow>
             (let e' = e - int (length fraction)
              in Some (if e' \<ge> 0 then of_nat n * 10 ^ nat e' else of_nat n / 10 ^ nat (- e')))
         | _ \<Rightarrow> None)"

text \<open>\<open>Number(text)\<close>; \<open>None\<close> is \<open>NaN\<close> or no finite number.\<close>

definition js_number :: "string \<Rightarrow> rat option" where
  "js_number text =
     (let s = js_trim text in
      if s = [] then Some 0
      else case (strip_ci ''0x'' s, strip_ci ''0o'' s, strip_ci ''0b'' s) of
             (Some t, _, _) \<Rightarrow> map_option of_nat (digits_value 16 t)
           | (None, Some t, _) \<Rightarrow> map_option of_nat (digits_value 8 t)
           | (None, None, Some t) \<Rightarrow> map_option of_nat (digits_value 2 t)
           | (None, None, None) \<Rightarrow>
               (let (negative, t) = signed_part s
                in map_option (\<lambda>x. if negative then - x else x) (unsigned_decimal t)))"

definition read_bounded :: "nat \<Rightarrow> int \<Rightarrow> string option \<Rightarrow> nat option" where
  "read_bounded usual highest v =
     (case v of
        None \<Rightarrow> Some usual
      | Some text \<Rightarrow>
          (case js_number text of
             Some x \<Rightarrow>
               if is_integer x \<and> 1 \<le> \<lfloor>x\<rfloor> \<and> \<lfloor>x\<rfloor> \<le> highest then Some (nat \<lfloor>x\<rfloor>) else None
           | None \<Rightarrow> None))"

definition read_limit :: "string option \<Rightarrow> nat option" where
  "read_limit = read_bounded 20 100"

definition read_retention_days :: "string option \<Rightarrow> nat option" where
  "read_retention_days = read_bounded 30 365"

definition read_window_hours :: "string option \<Rightarrow> nat option" where
  "read_window_hours = read_bounded 24 (24 * 30)"

end
