(* ===== verification/Api_Routes.thy ===== *)
theory Api_Routes
  imports Api_Access Readiness
begin

text \<open>
  The routes of the API, \<open>apps/api/src/app.ts\<close>, and the entry points of \<open>index.ts\<close>: the freeze,
  the access checks, the table of the routes, their checks of what they are sent, and the work of
  the cron and of the queue. The services behind the routes are operations on the threaded state
  which may throw; a thrown error ends a request with the framework's answer of status 500. Of the
  framework the model has that a request meets the middleware and the routes in the order of their
  declaration, that \<open>cors\<close> answers a preflight itself, and the answer 404 to an unknown path.
\<close>

section \<open>Requests and responses\<close>

record request =
  hr_method :: string
  hr_path :: "string list"
  hr_api_key :: "string option"
  hr_authorization :: "string option"
  hr_origin :: "string option"
  hr_query :: "string \<Rightarrow> string option"
  hr_body :: "json option"

datatype http_body =
    Detail string
  | Missing_Field string
  | Json_Body json
  | Plain_Text string
  | No_Body

record response =
  http_status :: nat
  http_body :: http_body

definition respond :: "nat \<Rightarrow> http_body \<Rightarrow> ('s, response) action" where
  "respond status body = ret \<lparr>http_status = status, http_body = body\<rparr>"

definition ok_json :: "json \<Rightarrow> ('s, response) action" where
  "ok_json v = respond 200 (Json_Body v)"

definition no_content :: "('s, response) action" where
  "no_content = respond 204 No_Body"

text \<open>\<open>context.req.json()\<close>, and a property of a value that was parsed.\<close>

definition read_json :: "request \<Rightarrow> ('s, json) action" where
  "read_json rq = (case hr_body rq of None \<Rightarrow> throw Thrown_Other | Some v \<Rightarrow> ret v)"

definition js_field :: "json \<Rightarrow> string \<Rightarrow> ('s, json option) action" where
  "js_field v k =
     (case v of
        JNull \<Rightarrow> throw (Thrown_TypeError ''Cannot read properties of null'')
      | JObj es \<Rightarrow> ret (json_get es k)
      | _ \<Rightarrow> ret None)"

section \<open>Bodies\<close>

record pull_request =
  pl_batch_size :: int
  pl_visibility_timeout_ms :: int

definition parse_pull :: "json \<Rightarrow> pull_request option" where
  "parse_pull v =
     Option.bind (json_object v) (\<lambda>es.
       case (json_int es ''batchSize'' 1 100, json_int es ''visibilityTimeoutMs'' 1000 3600000) of
         (Some n, Some u) \<Rightarrow> Some \<lparr>pl_batch_size = n, pl_visibility_timeout_ms = u\<rparr>
       | _ \<Rightarrow> None)"

fun non_empty_text :: "json \<Rightarrow> string option" where
  "non_empty_text (JStr (c # cs)) = Some (c # cs)"
| "non_empty_text v = None"

definition parse_retry :: "json \<Rightarrow> (string \<times> int option) option" where
  "parse_retry v =
     Option.bind (json_object v) (\<lambda>es.
       case Option.bind (json_get es ''leaseId'') non_empty_text of
         None \<Rightarrow> None
       | Some lease \<Rightarrow>
           (case json_get es ''delaySeconds'' of
              None \<Rightarrow> Some (lease, None)
            | Some _ \<Rightarrow> map_option (\<lambda>d. (lease, Some d)) (json_int es ''delaySeconds'' 0 43200)))"

definition parse_settlement :: "json \<Rightarrow> (string list \<times> (string \<times> int option) list) option" where
  "parse_settlement v =
     Option.bind (json_object v) (\<lambda>es.
       case (Option.bind (json_list (json_get es ''acks'')) (check_each non_empty_text),
             Option.bind (json_list (json_get es ''retries'')) (check_each parse_retry)) of
         (Some acks, Some retries) \<Rightarrow> Some (acks, retries)
       | _ \<Rightarrow> None)"

record limit_request =
  lq_bucket_key :: string
  lq_limit :: int
  lq_scope :: string
  lq_window_seconds :: int

definition parse_limit_request :: "json \<Rightarrow> limit_request option" where
  "parse_limit_request v =
     Option.bind (json_object v) (\<lambda>es.
       case (Option.bind (json_get es ''bucketKey'') non_empty_text, json_int es ''limit'' 1 max_safe_integer,
             Option.bind (json_get es ''scope'') non_empty_text, json_int es ''windowSeconds'' 1 max_safe_integer) of
         (Some b, Some l, Some s, Some w) \<Rightarrow>
           Some \<lparr>lq_bucket_key = b, lq_limit = l, lq_scope = s, lq_window_seconds = w\<rparr>
       | _ \<Rightarrow> None)"

definition parse_limit_batch :: "json \<Rightarrow> limit_request list option" where
  "parse_limit_batch v =
     Option.bind (json_object v) (\<lambda>es.
       Option.bind (json_list (json_get es ''inputs'')) (\<lambda>vs.
         if 1 \<le> length vs \<and> length vs \<le> 8 then check_each parse_limit_request vs else None))"

definition short_text :: "json_record \<Rightarrow> string \<Rightarrow> string option" where
  "short_text es k = field_string es k (\<lambda>s. 1 \<le> length s \<and> length s \<le> 128)"

definition json_bool :: "json option \<Rightarrow> bool option" where
  "json_bool v = (case v of Some (JBool b) \<Rightarrow> Some b | _ \<Rightarrow> None)"

definition parse_replay_request :: "json \<Rightarrow> replay_input option" where
  "parse_replay_request v =
     Option.bind (json_object v) (\<lambda>es.
       case (json_bool (json_get es ''dryRun''), short_text es ''idempotencyKey'') of
         (Some d, Some k) \<Rightarrow> Some \<lparr>rq_dry_run = d, rq_idempotency_key = k\<rparr>
       | _ \<Rightarrow> None)"

text \<open>The key and the job of a plan, and for its execution the hash.\<close>

definition parse_plan_request :: "json \<Rightarrow> (string \<times> string) option" where
  "parse_plan_request v =
     Option.bind (json_object v) (\<lambda>es.
       case (short_text es ''idempotencyKey'', short_text es ''jobId'') of
         (Some k, Some j) \<Rightarrow> Some (k, j)
       | _ \<Rightarrow> None)"

definition parse_execute_request :: "json \<Rightarrow> (string \<times> string \<times> string) option" where
  "parse_execute_request v =
     Option.bind (json_object v) (\<lambda>es.
       case (parse_plan_request v, json_get es ''confirm'', field_string es ''planHash'' (hex_of_length 64)) of
         (Some (k, j), Some (JBool True), Some h) \<Rightarrow> Some (k, j, h)
       | _ \<Rightarrow> None)"

definition inoreader_cookie :: "json \<Rightarrow> unit option" where
  "inoreader_cookie v =
     Option.bind (json_object v) (\<lambda>es.
       case (field_string es ''domain'' is_inoreader_domain, field_string es ''name'' any_string,
             field_string es ''path'' any_string, field_string es ''value'' any_string) of
         (Some _, Some _, Some _, Some _) \<Rightarrow> Some ()
       | _ \<Rightarrow> None)"

definition stored_pair :: "json \<Rightarrow> unit option" where
  "stored_pair v =
     Option.bind (json_object v) (\<lambda>es.
       case (field_string es ''name'' any_string, field_string es ''value'' any_string) of
         (Some _, Some _) \<Rightarrow> Some ()
       | _ \<Rightarrow> None)"

definition inoreader_storage_origin :: "url_parser \<Rightarrow> json \<Rightarrow> unit option" where
  "inoreader_storage_origin parse_url v =
     Option.bind (json_object v) (\<lambda>es.
       case (Option.bind (json_list (json_get es ''localStorage'')) (check_each stored_pair),
             field_string es ''origin'' (is_inoreader_origin parse_url)) of
         (Some _, Some _) \<Rightarrow> Some ()
       | _ \<Rightarrow> None)"

text \<open>The state that is saved is the value that was sent: every object keeps the keys it has.\<close>

definition parse_inoreader_state :: "url_parser \<Rightarrow> json \<Rightarrow> json option" where
  "parse_inoreader_state parse_url v =
     Option.bind (strict_object [''cookies'', ''origins''] v) (\<lambda>es.
       case (Option.bind (json_list (json_get es ''cookies'')) (check_each inoreader_cookie),
             Option.bind (json_list (json_get es ''origins'')) (check_each (inoreader_storage_origin parse_url))) of
         (Some _, Some _) \<Rightarrow> Some v
       | _ \<Rightarrow> None)"

section \<open>Services\<close>

datatype cookie_refusal = Unsupported_Platform | Missing_Cookie_Field string

text \<open>The services that the routes call, on the bindings of the request. An argument that the code
  passes on as it came is the JSON value it came as.\<close>

record 's api_services =
  as_queue_summary :: "('s, json) action"
  as_queue_dlq :: "('s, json) action"
  as_channels :: "('s, json) action"
  as_write_cookie :: "string \<Rightarrow> json \<Rightarrow> ('s, cookie_refusal + json) action"
  as_login_status :: "string \<Rightarrow> ('s, json) action"
  as_overview :: "('s, json) action"
  as_sync_jobs :: "nat \<Rightarrow> ('s, json) action"
  as_article_events :: "nat \<Rightarrow> ('s, json) action"
  as_parse_snapshot :: "json \<Rightarrow> json option"
  as_replace_snapshot :: "json \<Rightarrow> ('s, unit) action"
  as_manual_sync :: "('s, json) action"
  as_scheduled_sync :: "('s, json) action"
  as_readiness_queue :: "('s, json) action"
  as_health_components :: "('s, json) action"
  as_metrics :: "nat \<Rightarrow> ('s, json) action"
  as_dlq_consistency :: "('s, json) action"
  as_retention_report :: "nat \<Rightarrow> ('s, json) action"
  as_replay_plan :: "string \<Rightarrow> string \<Rightarrow> replay_result \<Rightarrow> ('s, replay_plan) action"
  as_capture_metrics :: "('s, unit) action"
  as_pull :: "pull_request \<Rightarrow> ('s, json) action"
  as_settle :: "string list \<Rightarrow> (string \<times> int option) list \<Rightarrow> ('s, unit) action"
  as_stage :: "staged_message list \<Rightarrow> ('s, unit) action"
  as_claim_job :: "json option \<Rightarrow> ('s, json) action"
  as_finish_job :: "string \<Rightarrow> json \<Rightarrow> ('s, json) action"
  as_replay :: "string \<Rightarrow> replay_input \<Rightarrow> ('s, replay_result) action"
  as_publish_jobs :: "json option \<Rightarrow> ('s, json) action"
  as_reject_job :: "json \<Rightarrow> ('s, unit) action"
  as_claim_effect :: "json \<Rightarrow> ('s, json) action"
  as_finish_effect :: "string \<Rightarrow> json \<Rightarrow> ('s, unit) action"
  as_consume_limit :: "json \<Rightarrow> ('s, json) action"
  as_consume_limits :: "limit_request list \<Rightarrow> ('s, json) action"
  as_get_state :: "json option \<Rightarrow> ('s, json) action"
  as_put_state :: "json option \<Rightarrow> json option \<Rightarrow> ('s, unit) action"
  as_get_credential :: "string \<Rightarrow> ('s, json option) action"
  as_save_inoreader :: "json \<Rightarrow> ('s, unit) action"
  as_put_login_session :: "string \<Rightarrow> json \<Rightarrow> ('s, unit) action"
  as_record_heartbeat :: "json option \<Rightarrow> json option \<Rightarrow> ('s, unit) action"
  as_record_article_event :: "json \<Rightarrow> ('s, unit) action"
  as_import_snapshot :: "json \<Rightarrow> ('s, json) action"

record 's api =
  ap_services :: "'s api_services"
  ap_bindings :: bindings
  ap_parse_url :: url_parser

section \<open>Routes\<close>

definition answer :: "('s, json) action \<Rightarrow> ('s, response) action" where
  "answer act = and_then act ok_json"

definition acknowledge :: "('s, unit) action \<Rightarrow> ('s, response) action" where
  "acknowledge act = and_then act (\<lambda>_. no_content)"

definition items_body :: "json \<Rightarrow> json" where
  "items_body items = JObj [(''items'', items), (''status'', JStr ''ok'')]"

definition with_query ::
  "nat option \<Rightarrow> string \<Rightarrow> (nat \<Rightarrow> ('s, response) action) \<Rightarrow> ('s, response) action" where
  "with_query v detail f = (case v of None \<Rightarrow> respond 422 (Detail detail) | Some n \<Rightarrow> f n)"

definition with_body ::
  "request \<Rightarrow> (json \<Rightarrow> 'a option) \<Rightarrow> string \<Rightarrow> ('a \<Rightarrow> ('s, response) action) \<Rightarrow> ('s, response) action" where
  "with_body rq parse detail f =
     and_then (read_json rq) (\<lambda>v. case parse v of None \<Rightarrow> respond 400 (Detail detail) | Some x \<Rightarrow> f x)"

text \<open>\<open>POST /login/:platform/cookie\<close>.\<close>

definition login_fields :: "(string \<times> string) list" where
  "login_fields = [(''bilibili'', ''sessdata''), (''zhihu'', ''z_c0'')]"

definition login_cookie :: "'s api_services \<Rightarrow> string \<Rightarrow> request \<Rightarrow> ('s, response) action" where
  "login_cookie sv platform rq =
     and_then (read_json rq) (\<lambda>payload.
       case map_of login_fields platform of
         None \<Rightarrow> respond 400 (Detail (''unsupported platform: '' @ platform))
       | Some field \<Rightarrow>
           and_then (js_field payload field) (\<lambda>v.
             if Option.bind v non_empty_text = None then respond 400 (Missing_Field field)
             else and_then (as_write_cookie sv platform payload) (\<lambda>r.
               case r of
                 Inl Unsupported_Platform \<Rightarrow> respond 400 (Detail (''unsupported platform: '' @ platform))
               | Inl (Missing_Cookie_Field f) \<Rightarrow> respond 400 (Missing_Field f)
               | Inr v \<Rightarrow> ok_json v)))"

fun replay_status_text :: "replay_status \<Rightarrow> string" where
  "replay_status_text Status_Published = ''published''"
| "replay_status_text Status_Rejected = ''rejected''"
| "replay_status_text Status_Validated = ''validated''"

definition replay_fields :: "replay_result \<Rightarrow> json_record" where
  "replay_fields r =
     [(''published'', JBool (rt_published r)), (''reason'', JStr (rt_reason r)),
      (''replayable'', JBool (rt_replayable r)), (''status'', JStr (replay_status_text (rt_status r)))]"

definition plan_body :: "replay_plan \<Rightarrow> json" where
  "plan_body p =
     JObj ([(''idempotencyKey'', JStr (py_idempotency_key p)), (''jobId'', JStr (py_job_id p)),
            (''planHash'', JStr (py_hash p))] @ replay_fields (py_validation p))"

text \<open>\<open>POST /api/operations/replays/plan\<close> and \<open>/execute\<close>.\<close>

definition plan_replay :: "'s api_services \<Rightarrow> request \<Rightarrow> ('s, response) action" where
  "plan_replay sv rq =
     with_body rq parse_plan_request ''invalid replay plan request'' (\<lambda>(key, job).
       and_then (as_replay sv job \<lparr>rq_dry_run = True, rq_idempotency_key = key\<rparr>) (\<lambda>validation.
       and_then (as_replay_plan sv key job validation) (\<lambda>plan. ok_json (plan_body plan))))"

definition execute_replay :: "'s api_services \<Rightarrow> request \<Rightarrow> ('s, response) action" where
  "execute_replay sv rq =
     with_body rq parse_execute_request ''invalid replay execute request'' (\<lambda>(key, job, hash).
       and_then (as_replay sv job \<lparr>rq_dry_run = True, rq_idempotency_key = key\<rparr>) (\<lambda>validation.
       and_then (as_replay_plan sv key job validation) (\<lambda>current.
         if py_hash current \<noteq> hash then respond 409 (Detail ''stale_plan'')
         else if \<not> rt_replayable (py_validation current) then respond 409 (Detail (rt_reason (py_validation current)))
         else and_then (as_replay sv job \<lparr>rq_dry_run = False, rq_idempotency_key = key\<rparr>) (\<lambda>result.
           ok_json (JObj (replay_fields result @ [(''operationId'', JStr key), (''planHash'', JStr hash)]))))))"

definition manual_sync :: "'s api \<Rightarrow> ('s, response) action" where
  "manual_sync ap =
     (if bd_sync_publish_enabled (ap_bindings ap) \<noteq> Some ''true''
      then respond 503 (Detail ''sync queue consumer unavailable'')
      else answer (as_manual_sync (ap_services ap)))"

text \<open>\<open>POST /internal/jobs/claim\<close>: whatever the claim throws is answered as an invalid job.\<close>

definition claim_route :: "'s api_services \<Rightarrow> request \<Rightarrow> ('s, response) action" where
  "claim_route sv rq =
     and_then (read_json rq) (\<lambda>body s.
       case and_then (js_field body ''job'') (\<lambda>job. answer (as_claim_job sv job)) s of
         (s', Inl e) \<Rightarrow> respond 400 (Detail ''invalid queue job'') s'
       | (s', Inr r) \<Rightarrow> (s', Inr r))"

definition credential_route :: "'s api_services \<Rightarrow> string \<Rightarrow> ('s, response) action" where
  "credential_route sv name =
     and_then (as_get_credential sv name) (\<lambda>v.
       case v of
         None \<Rightarrow> respond 404 (Detail ''credential not found'')
       | Some v \<Rightarrow> ok_json (JObj [(''value'', v)]))"

definition inoreader_import :: "'s api \<Rightarrow> request \<Rightarrow> ('s, response) action" where
  "inoreader_import ap rq =
     (if bd_data_backend (ap_bindings ap) \<noteq> Some ''postgres''
      then respond 503 (Detail ''Inoreader session import requires PostgreSQL'')
      else case Option.bind (hr_body rq) (parse_inoreader_state (ap_parse_url ap)) of
             None \<Rightarrow> respond 400 (Detail ''invalid Inoreader storage state'')
           | Some v \<Rightarrow> acknowledge (as_save_inoreader (ap_services ap) v))"

definition legacy_import :: "'s api \<Rightarrow> request \<Rightarrow> ('s, response) action" where
  "legacy_import ap rq =
     (if bd_data_backend (ap_bindings ap) = Some ''postgres''
      then respond 410 (Detail ''legacy import is unavailable with PostgreSQL'')
      else and_then (read_json rq) (\<lambda>v. answer (as_import_snapshot (ap_services ap) v)))"

text \<open>The table of the routes: the method, the pattern of the path, and the handler, which is given
  the values of the parameters.\<close>

datatype segment = Lit string | Param

fun match_path :: "segment list \<Rightarrow> string list \<Rightarrow> string list option" where
  "match_path [] [] = Some []"
| "match_path (Lit l # ps) (s # ss) = (if s = l then match_path ps ss else None)"
| "match_path (Param # ps) (s # ss) = (if s = [] then None else map_option (Cons s) (match_path ps ss))"
| "match_path _ _ = None"

type_synonym 's handler = "string list \<Rightarrow> request \<Rightarrow> ('s, response) action"

definition public_routes :: "(string \<times> segment list \<times> 's handler) list" where
  "public_routes =
     [(''GET'', [Lit ''healthz''], \<lambda>_ _. ok_json (JObj [(''status'', JStr ''ok'')])),
      (''GET'', [Lit ''readyz''], \<lambda>_ _. ok_json (JObj [(''status'', JStr ''ready'')]))]"

definition console_routes :: "'s api \<Rightarrow> (string \<times> segment list \<times> 's handler) list" where
  "console_routes ap =
     (let sv = ap_services ap
      in [(''GET'', [Lit ''queue''], \<lambda>_ _. answer (as_queue_summary sv)),
          (''GET'', [Lit ''queue'', Lit ''dlq''], \<lambda>_ _. answer (as_queue_dlq sv)),
          (''GET'', [Lit ''channels''], \<lambda>_ _. answer (as_channels sv)),
          (''POST'', [Lit ''login'', Param, Lit ''cookie''], \<lambda>ps rq. login_cookie sv (hd ps) rq),
          (''GET'', [Lit ''login'', Param, Lit ''status''], \<lambda>ps _. answer (as_login_status sv (hd ps))),
          (''POST'', [Lit ''sync''], \<lambda>_ _. manual_sync ap)])"

definition operations_routes :: "'s api_services \<Rightarrow> (string \<times> segment list \<times> 's handler) list" where
  "operations_routes sv =
     map (\<lambda>(m, ps, h). (m, Lit ''api'' # Lit ''operations'' # ps, h))
       [(''GET'', [Lit ''overview''], \<lambda>_ _. answer (as_overview sv)),
        (''GET'', [Lit ''sync-jobs''], \<lambda>_ rq. with_query (read_limit (hr_query rq ''limit'')) ''invalid limit''
           (\<lambda>n. answer (and_then (as_sync_jobs sv n) (\<lambda>v. ret (items_body v))))),
        (''GET'', [Lit ''article-events''], \<lambda>_ rq. with_query (read_limit (hr_query rq ''limit'')) ''invalid limit''
           (\<lambda>n. answer (and_then (as_article_events sv n) (\<lambda>v. ret (items_body v))))),
        (''GET'', [Lit ''queue'', Lit ''summary''], \<lambda>_ _. answer (as_readiness_queue sv)),
        (''GET'', [Lit ''health'', Lit ''components''], \<lambda>_ _. answer (as_health_components sv)),
        (''GET'', [Lit ''metrics''], \<lambda>_ rq. with_query (read_window_hours (hr_query rq ''windowHours''))
           ''invalid windowHours'' (\<lambda>n. answer (as_metrics sv n))),
        (''GET'', [Lit ''dlq'', Lit ''consistency''], \<lambda>_ _. answer (as_dlq_consistency sv)),
        (''GET'', [Lit ''retention'', Lit ''report''], \<lambda>_ rq. with_query (read_retention_days (hr_query rq ''retentionDays''))
           ''invalid retentionDays'' (\<lambda>n. answer (as_retention_report sv n))),
        (''POST'', [Lit ''replays'', Lit ''plan''], \<lambda>_ rq. plan_replay sv rq),
        (''POST'', [Lit ''replays'', Lit ''execute''], \<lambda>_ rq. execute_replay sv rq)]"

definition internal_routes :: "'s api \<Rightarrow> (string \<times> segment list \<times> 's handler) list" where
  "internal_routes ap =
     (let sv = ap_services ap
      in map (\<lambda>(m, ps, h). (m, Lit ''internal'' # ps, h))
       [(''POST'', [Lit ''queue'', Lit ''pull''], \<lambda>_ rq. with_body rq parse_pull ''invalid queue pull request''
           (\<lambda>p. answer (as_pull sv p))),
        (''POST'', [Lit ''queue'', Lit ''settle''], \<lambda>_ rq. with_body rq parse_settlement ''invalid queue settlement''
           (\<lambda>(acks, retries). acknowledge (as_settle sv acks retries))),
        (''PUT'', [Lit ''operations'', Lit ''snapshot''], \<lambda>_ rq. with_body rq (as_parse_snapshot sv) ''invalid operations snapshot''
           (\<lambda>v. acknowledge (as_replace_snapshot sv v))),
        (''POST'', [Lit ''jobs'', Lit ''claim''], \<lambda>_ rq. claim_route sv rq),
        (''PUT'', [Lit ''jobs'', Param, Lit ''result''], \<lambda>ps rq. and_then (read_json rq) (\<lambda>v.
           answer (as_finish_job sv (hd ps) v))),
        (''POST'', [Lit ''dead-letters'', Param, Lit ''replay''], \<lambda>ps rq. with_body rq parse_replay_request
           ''invalid replay request'' (\<lambda>i. answer (and_then (as_replay sv (hd ps) i) (\<lambda>r. ret (JObj (replay_fields r)))))),
        (''POST'', [Lit ''jobs'', Lit ''publish''], \<lambda>_ rq. and_then (read_json rq) (\<lambda>v.
           and_then (js_field v ''jobs'') (\<lambda>jobs. answer (as_publish_jobs sv jobs)))),
        (''POST'', [Lit ''jobs'', Lit ''reject''], \<lambda>_ rq. and_then (read_json rq) (\<lambda>v. acknowledge (as_reject_job sv v))),
        (''POST'', [Lit ''effects'', Lit ''claim''], \<lambda>_ rq. and_then (read_json rq) (\<lambda>v. answer (as_claim_effect sv v))),
        (''PUT'', [Lit ''effects'', Param, Lit ''result''], \<lambda>ps rq. and_then (read_json rq) (\<lambda>v.
           acknowledge (as_finish_effect sv (hd ps) v))),
        (''POST'', [Lit ''rate-limits'', Lit ''consume''], \<lambda>_ rq. and_then (read_json rq) (\<lambda>v. answer (as_consume_limit sv v))),
        (''POST'', [Lit ''rate-limits'', Lit ''consume-batch''], \<lambda>_ rq. with_body rq parse_limit_batch
           ''invalid rate limit batch'' (\<lambda>ls. answer (as_consume_limits sv ls))),
        (''POST'', [Lit ''state'', Lit ''read''], \<lambda>_ rq. and_then (read_json rq) (\<lambda>v. and_then (js_field v ''key'') (\<lambda>key.
           answer (and_then (as_get_state sv key) (\<lambda>x. ret (JObj [(''value'', x)])))))),
        (''PUT'', [Lit ''state''], \<lambda>_ rq. and_then (read_json rq) (\<lambda>v. and_then (js_field v ''key'') (\<lambda>key.
           and_then (js_field v ''value'') (\<lambda>x. acknowledge (as_put_state sv key x))))),
        (''GET'', [Lit ''credentials'', Param], \<lambda>ps _. credential_route sv (hd ps)),
        (''PUT'', [Lit ''credentials'', Lit ''inoreader_creds''], \<lambda>_ rq. inoreader_import ap rq),
        (''PUT'', [Lit ''login'', Param, Lit ''status''], \<lambda>ps rq. and_then (read_json rq) (\<lambda>v.
           acknowledge (as_put_login_session sv (hd ps) v))),
        (''PUT'', [Lit ''heartbeat''], \<lambda>_ rq. and_then (read_json rq) (\<lambda>v. and_then (js_field v ''details'') (\<lambda>d.
           and_then (js_field v ''workerId'') (\<lambda>w. acknowledge (as_record_heartbeat sv w d))))),
        (''POST'', [Lit ''article-events''], \<lambda>_ rq. and_then (read_json rq) (\<lambda>v. acknowledge (as_record_article_event sv v))),
        (''POST'', [Lit ''migration'', Lit ''import''], \<lambda>_ rq. legacy_import ap rq)])"

definition api_routes :: "'s api \<Rightarrow> (string \<times> segment list \<times> 's handler) list" where
  "api_routes ap = public_routes @ console_routes ap @ operations_routes (ap_services ap) @ internal_routes ap"

section \<open>The application\<close>

definition write_methods :: "string list" where
  "write_methods = [''POST'', ''PUT'', ''PATCH'', ''DELETE'']"

definition is_frozen_write :: "bindings \<Rightarrow> request \<Rightarrow> bool" where
  "is_frozen_write bd rq =
     (is_migration_frozen bd \<and> hr_method rq \<in> set write_methods
      \<and> \<not> (hr_method rq = ''POST'' \<and> hr_path rq = [''internal'', ''state'', ''read''])
      \<and> \<not> (hr_method rq = ''PUT'' \<and> hr_path rq = [''internal'', ''credentials'', ''inoreader_creds'']))"

text \<open>Which key a path asks for: the patterns of \<open>app.use\<close>, where \<open>/queue/*\<close> also stands for
  \<open>/queue\<close>.\<close>

datatype guard = Admin_Guard | Worker_Guard

definition guard_of :: "string list \<Rightarrow> guard option" where
  "guard_of path =
     (if take 1 path = [''queue''] \<or> path = [''channels''] \<or> take 1 path = [''login'']
         \<or> take 2 path = [''api'', ''operations''] \<or> path = [''sync''] then Some Admin_Guard
      else if take 1 path = [''internal''] then Some Worker_Guard
      else None)"

definition guard_refusal :: "bindings \<Rightarrow> request \<Rightarrow> refusal option" where
  "guard_refusal bd rq =
     (case guard_of (hr_path rq) of
        None \<Rightarrow> None
      | Some Admin_Guard \<Rightarrow> require_api_key bd (hr_api_key rq)
      | Some Worker_Guard \<Rightarrow> require_worker_token bd (hr_authorization rq))"

fun refusal_response :: "refusal \<Rightarrow> response" where
  "refusal_response Authentication_Unavailable =
     \<lparr>http_status = 503, http_body = Detail ''admin authentication unavailable''\<rparr>"
| "refusal_response Invalid_Api_Key = \<lparr>http_status = 401, http_body = Detail ''invalid api key''\<rparr>"
| "refusal_response Invalid_Worker_Token = \<lparr>http_status = 401, http_body = Detail ''invalid worker token''\<rparr>"

text \<open>\<open>HEAD\<close> is routed as \<open>GET\<close>.\<close>

definition routed_method :: "request \<Rightarrow> string" where
  "routed_method rq = (if hr_method rq = ''HEAD'' then ''GET'' else hr_method rq)"

fun dispatch :: "(string \<times> segment list \<times> 's handler) list \<Rightarrow> request \<Rightarrow> ('s, response) action" where
  "dispatch [] rq = respond 404 (Plain_Text ''404 Not Found'')"
| "dispatch ((m, ps, h) # rest) rq =
     (case if m = routed_method rq then match_path ps (hr_path rq) else None of
        Some args \<Rightarrow> h args rq
      | None \<Rightarrow> dispatch rest rq)"

definition handle_request :: "'s api \<Rightarrow> request \<Rightarrow> ('s, response) action" where
  "handle_request ap rq =
     (if is_frozen_write (ap_bindings ap) rq
      then respond 503 (Detail ''service writes are frozen for migration'')
      else if hr_method rq = ''OPTIONS'' then no_content
      else case guard_refusal (ap_bindings ap) rq of
             Some r \<Rightarrow> ret (refusal_response r)
           | None \<Rightarrow> dispatch (api_routes ap) rq)"

text \<open>The origin that the response allows, which \<open>cors\<close> adds to every answer but that of the freeze.\<close>

definition allowed_origin :: "'s api \<Rightarrow> request \<Rightarrow> string option" where
  "allowed_origin ap rq =
     (if is_frozen_write (ap_bindings ap) rq then None
      else case hr_origin rq of
             None \<Rightarrow> None
           | Some origin \<Rightarrow>
               if is_allowed_console_origin (ap_parse_url ap) origin (bd_console_origins (ap_bindings ap))
               then Some origin else None)"

section \<open>The cron and the queue\<close>

text \<open>\<open>wakeWorker\<close>; the request answers whether its status was in the two hundreds.\<close>

type_synonym 's webhook = "string \<Rightarrow> string \<Rightarrow> ('s, bool) action"

definition wake_target :: "url_parser \<Rightarrow> bindings \<Rightarrow> thrown + (string \<times> string) option" where
  "wake_target parse_url bd =
     (case (configured (bd_worker_webhook_url bd), configured (bd_worker_webhook_token bd)) of
        (None, None) \<Rightarrow> Inr None
      | (Some u, Some token) \<Rightarrow>
          (case parse_url u of
             None \<Rightarrow> Inl (Thrown_Error ''Worker webhook URL must use HTTPS without credentials'')
           | Some target \<Rightarrow>
               if ur_protocol target \<noteq> ''https:'' \<or> ur_username target \<noteq> [] \<or> ur_password target \<noteq> []
               then Inl (Thrown_Error ''Worker webhook URL must use HTTPS without credentials'')
               else Inr (Some (u, token)))
      | _ \<Rightarrow> Inl (Thrown_Error ''Worker webhook configuration incomplete''))"

definition wake_worker :: "url_parser \<Rightarrow> bindings \<Rightarrow> 's webhook \<Rightarrow> ('s, unit) action" where
  "wake_worker parse_url bd fetch s =
     (case wake_target parse_url bd of
        Inl e \<Rightarrow> throw e s
      | Inr None \<Rightarrow> ret () s
      | Inr (Some (u, token)) \<Rightarrow>
          (case fetch u token s of
             (s', Inr True) \<Rightarrow> ret () s'
           | (s', _) \<Rightarrow> throw (Thrown_Error ''Worker webhook request failed'') s'))"

text \<open>\<open>publishScheduledCollection\<close>: the request that wakes the worker is sent first, and neither its
  failure nor that of the capture stops the collection.\<close>

definition publish_scheduled_collection :: "'s api \<Rightarrow> 's webhook \<Rightarrow> ('s, unit) action" where
  "publish_scheduled_collection ap fetch s =
     (let bd = ap_bindings ap
      in if is_migration_frozen bd then ret () s
         else let (s1, _) = wake_worker (ap_parse_url ap) bd fetch s;
                  (s2, _) = as_capture_metrics (ap_services ap) s1
              in if bd_schedule_enabled bd \<noteq> Some ''true'' then ret () s2
                 else and_then (as_scheduled_sync (ap_services ap)) (\<lambda>_. ret ()) s2)"

text \<open>\<open>stageQueueBatch\<close>: the batch is acknowledged after it is in the inbox and the worker woke.\<close>

definition stage_queue_batch ::
  "'s api \<Rightarrow> 's webhook \<Rightarrow> ('s, unit) action \<Rightarrow> staged_message list \<Rightarrow> ('s, unit) action" where
  "stage_queue_batch ap fetch ack_all messages =
     (if is_migration_frozen (ap_bindings ap)
      then throw (Thrown_Error ''queue processing is paused for migration'')
      else and_then (as_stage (ap_services ap) messages) (\<lambda>_.
           and_then (wake_worker (ap_parse_url ap) (ap_bindings ap) fetch) (\<lambda>_. ack_all)))"

section \<open>Guards\<close>

definition authorized :: "bindings \<Rightarrow> request \<Rightarrow> bool" where
  "authorized bd rq =
     ((configured (bd_admin_api_key bd) \<noteq> None \<and> hr_api_key rq = configured (bd_admin_api_key bd))
      \<or> (configured (bd_worker_service_token bd) \<noteq> None
         \<and> bearer_token (hr_authorization rq) = configured (bd_worker_service_token bd)))"

lemma guard_refuses:
  "\<not> authorized bd rq \<Longrightarrow> guard_of (hr_path rq) \<noteq> None \<Longrightarrow> guard_refusal bd rq \<noteq> None"
  by (auto simp: guard_refusal_def authorized_def require_api_key_def require_worker_token_def
      split: guard.split option.splits)

lemma match_lit:
  "match_path (Lit l # ps) path = (case path of [] \<Rightarrow> None | s # ss \<Rightarrow> if s = l then match_path ps ss else None)"
  by (cases path) simp_all

lemma match_nil: "match_path [] path = (if path = [] then Some [] else None)"
  by (cases path) simp_all

lemma dispatch_append:
  "(\<forall>r\<in>set xs. match_path (fst (snd r)) (hr_path rq) = None) \<Longrightarrow> dispatch (xs @ ys) rq = dispatch ys rq"
  by (induction xs) auto

lemma dispatch_none:
  "(\<forall>r\<in>set ys. match_path (fst (snd r)) (hr_path rq) = None) \<Longrightarrow> dispatch (xs @ ys) rq = dispatch xs rq"
proof (induction xs)
  case Nil
  then show ?case using dispatch_append [of ys rq "[]"] by simp
qed (auto split: option.splits)

text \<open>Every route but the two public ones is behind a guard.\<close>

definition guarded_pattern :: "segment list \<Rightarrow> bool" where
  "guarded_pattern ps =
     (ps = [Lit ''channels''] \<or> ps = [Lit ''sync'']
      \<or> take 1 ps \<in> {[Lit ''queue''], [Lit ''login''], [Lit ''internal'']}
      \<or> take 2 ps = [Lit ''api'', Lit ''operations''])"

lemma take_prefix: "take 1 xs = [x] \<longleftrightarrow> (\<exists>ys. xs = x # ys)" "take 2 xs = [x, y] \<longleftrightarrow> (\<exists>ys. xs = x # y # ys)"
  by (cases xs; simp) (cases xs; cases "tl xs"; auto)

lemma match_SomeD:
  "match_path (Lit l # ps) path = Some args \<Longrightarrow> \<exists>ss. path = l # ss \<and> match_path ps ss = Some args"
  "match_path [] path = Some args \<Longrightarrow> path = []"
  by (auto simp: match_lit match_nil split: list.splits if_splits)

lemma guard_of_prefix:
  "guard_of (''queue'' # ss) = Some Admin_Guard" "guard_of (''login'' # ss) = Some Admin_Guard"
  "guard_of (''internal'' # ss) = Some Worker_Guard" "guard_of (''api'' # ''operations'' # ss) = Some Admin_Guard"
  "guard_of [''channels''] = Some Admin_Guard" "guard_of [''sync''] = Some Admin_Guard"
  by (simp_all add: guard_of_def)

lemma guarded_cases:
  assumes "guarded_pattern ps"
  shows "ps = [Lit ''channels''] \<or> ps = [Lit ''sync''] \<or> (\<exists>qs. ps = Lit ''queue'' # qs) \<or> (\<exists>qs. ps = Lit ''login'' # qs)
    \<or> (\<exists>qs. ps = Lit ''internal'' # qs) \<or> (\<exists>qs. ps = Lit ''api'' # Lit ''operations'' # qs)"
  using assms unfolding guarded_pattern_def take_prefix insert_iff empty_iff by (simp only: HOL.simp_thms disj_assoc)

lemma guarded_match:
  assumes "guarded_pattern ps" and "match_path ps path = Some args"
  shows "guard_of path \<noteq> None"
  using guarded_cases [OF assms(1)]
proof (elim disjE exE)
  assume "ps = [Lit ''channels'']"
  then have "path = [''channels'']" using assms(2) by (auto dest!: match_SomeD)
  then show ?thesis by (simp add: guard_of_prefix)
next
  assume "ps = [Lit ''sync'']"
  then have "path = [''sync'']" using assms(2) by (auto dest!: match_SomeD)
  then show ?thesis by (simp add: guard_of_prefix)
next
  fix qs assume "ps = Lit ''queue'' # qs"
  then obtain ss where "path = ''queue'' # ss" using assms(2) match_SomeD(1) by blast
  then show ?thesis by (simp add: guard_of_prefix)
next
  fix qs assume "ps = Lit ''login'' # qs"
  then obtain ss where "path = ''login'' # ss" using assms(2) match_SomeD(1) by blast
  then show ?thesis by (simp add: guard_of_prefix)
next
  fix qs assume "ps = Lit ''internal'' # qs"
  then obtain ss where "path = ''internal'' # ss" using assms(2) match_SomeD(1) by blast
  then show ?thesis by (simp add: guard_of_prefix)
next
  fix qs assume "ps = Lit ''api'' # Lit ''operations'' # qs"
  then obtain ss where "path = ''api'' # ''operations'' # ss" using assms(2) match_SomeD(1) by blast
  then show ?thesis by (simp add: guard_of_prefix)
qed

lemma guarded_tables:
  "list_all (\<lambda>r. guarded_pattern (fst (snd r))) (console_routes ap)"
  "list_all (\<lambda>r. guarded_pattern (fst (snd r))) (operations_routes sv)"
  "list_all (\<lambda>r. guarded_pattern (fst (snd r))) (internal_routes ap)"
  by (simp_all add: console_routes_def operations_routes_def internal_routes_def Let_def guarded_pattern_def)

lemma unguarded_dispatch:
  assumes "guard_of (hr_path rq) = None"
  shows "dispatch (api_routes ap) rq = dispatch public_routes rq"
proof -
  let ?rest = "console_routes ap @ operations_routes (ap_services ap) @ internal_routes ap"
  have "match_path (fst (snd r)) (hr_path rq) = None" if "r \<in> set ?rest" for r
  proof (rule ccontr)
    assume "match_path (fst (snd r)) (hr_path rq) \<noteq> None"
    moreover have "guarded_pattern (fst (snd r))"
      using that guarded_tables(1,3) [of ap] guarded_tables(2) [of "ap_services ap"] by (auto simp: list_all_iff)
    ultimately show False using guarded_match assms by blast
  qed
  then show ?thesis unfolding api_routes_def by (intro dispatch_none) blast
qed

text \<open>C10: A request that carries neither the configured admin key nor the configured worker token
  reaches no service: whatever the services are and whatever the state is, it gets the same answer
  and the state is unchanged. The answer is a success for the two health probes and for a
  preflight only; and where no key is configured, no request is authorized.\<close>

theorem unauthorized_request_reaches_no_service:
  assumes "\<not> authorized (ap_bindings ap) rq"
  shows "\<exists>r. (\<forall>sv s. handle_request (ap\<lparr>ap_services := sv\<rparr>) rq s = (s, Inr r))
    \<and> (http_status r \<in> {401, 404, 503} \<or> hr_method rq = ''OPTIONS''
       \<or> hr_path rq = [''healthz''] \<or> hr_path rq = [''readyz''])"
proof -
  let ?bd = "ap_bindings ap"
  consider "is_frozen_write ?bd rq" | "\<not> is_frozen_write ?bd rq" "hr_method rq = ''OPTIONS''"
    | f where "\<not> is_frozen_write ?bd rq" "hr_method rq \<noteq> ''OPTIONS''" "guard_refusal ?bd rq = Some f"
    | "\<not> is_frozen_write ?bd rq" "hr_method rq \<noteq> ''OPTIONS''" "guard_of (hr_path rq) = None"
    using guard_refuses [OF assms] by blast
  then show ?thesis
  proof cases
    case 1
    then show ?thesis by (simp add: handle_request_def respond_def ret_def exI [of _ "\<lparr>http_status = 503, http_body = _\<rparr>"])
  next
    case 2
    then show ?thesis by (auto simp: handle_request_def no_content_def respond_def ret_def)
  next
    case 3
    then show ?thesis by (cases f) (auto simp: handle_request_def ret_def)
  next
    case 4
    have public: "\<exists>r. (\<forall>s. dispatch public_routes rq s = (s, Inr r))
      \<and> (http_status r = 404 \<or> hr_path rq = [''healthz''] \<or> hr_path rq = [''readyz''])"
      by (auto simp: public_routes_def ok_json_def respond_def ret_def dest!: match_SomeD split: option.split)
    have "guard_refusal ?bd rq = None" using 4 by (simp add: guard_refusal_def)
    then have "handle_request (ap\<lparr>ap_services := sv\<rparr>) rq s = dispatch public_routes rq s" for sv s
      using 4 unguarded_dispatch [OF 4(3), of "ap\<lparr>ap_services := sv\<rparr>"] by (simp add: handle_request_def)
    then show ?thesis using public by auto
  qed
qed

section \<open>The freeze\<close>

text \<open>The operations behind the routes that only read, and what it means that they keep a property of
  the state.\<close>

definition reads_keep :: "('s \<Rightarrow> bool) \<Rightarrow> 's api_services \<Rightarrow> bool" where
  "reads_keep P sv =
     (keeps P (as_queue_summary sv) \<and> keeps P (as_queue_dlq sv) \<and> keeps P (as_channels sv)
      \<and> (\<forall>p. keeps P (as_login_status sv p)) \<and> keeps P (as_overview sv)
      \<and> (\<forall>n. keeps P (as_sync_jobs sv n)) \<and> (\<forall>n. keeps P (as_article_events sv n))
      \<and> keeps P (as_readiness_queue sv) \<and> keeps P (as_health_components sv)
      \<and> (\<forall>n. keeps P (as_metrics sv n)) \<and> keeps P (as_dlq_consistency sv)
      \<and> (\<forall>n. keeps P (as_retention_report sv n)) \<and> (\<forall>k. keeps P (as_get_state sv k))
      \<and> (\<forall>n. keeps P (as_get_credential sv n)))"

lemma keeps_respond [keeps_intros]: "keeps P (respond st b)"
  by (simp add: respond_def keeps_ret)

lemma keeps_no_content [keeps_intros]: "keeps P no_content"
  by (simp add: no_content_def keeps_respond)

lemma keeps_answer [keeps_intros]: "keeps P act \<Longrightarrow> keeps P (answer act)"
  unfolding answer_def by (rule keeps_and_then) (simp_all add: ok_json_def keeps_respond)

lemma keeps_read_json [keeps_intros]: "keeps P (read_json rq)"
  by (simp add: read_json_def keeps_ret keeps_throw split: option.split)

lemma keeps_js_field [keeps_intros]: "keeps P (js_field v k)"
  by (simp add: js_field_def keeps_ret keeps_throw split: json.split)

lemma keeps_with_query [keeps_intros]: "(\<And>n. keeps P (f n)) \<Longrightarrow> keeps P (with_query v d f)"
  by (simp add: with_query_def keeps_respond split: option.split)

lemma keeps_credential_route [keeps_intros]: "(\<And>n. keeps P (as_get_credential sv n)) \<Longrightarrow> keeps P (credential_route sv n)"
  unfolding credential_route_def
  by (rule keeps_and_then) (simp_all add: ok_json_def keeps_respond split: option.split)

lemma keeps_dispatch:
  "(\<And>m ps h args. (m, ps, h) \<in> set routes \<Longrightarrow> m = routed_method rq \<Longrightarrow> match_path ps (hr_path rq) = Some args \<Longrightarrow>
      keeps P (h args rq)) \<Longrightarrow> keeps P (dispatch routes rq)"
proof (induction routes)
  case (Cons r rs)
  then show ?case by (cases r) (auto split: option.split)
qed (simp add: keeps_respond)

text \<open>The routes that a read can reach: those of \<open>GET\<close>, and the read of a worker's state.\<close>

definition read_route :: "string \<times> segment list \<Rightarrow> bool" where
  "read_route r = (fst r = ''GET'' \<or> r = (''POST'', [Lit ''internal'', Lit ''state'', Lit ''read'']))"

lemma read_handlers:
  assumes "reads_keep P (ap_services ap)"
  shows "list_all (\<lambda>(m, ps, h). read_route (m, ps) \<longrightarrow> (\<forall>args rq. keeps P (h args rq))) (api_routes ap)"
  using assms
  by (simp add: api_routes_def public_routes_def console_routes_def operations_routes_def internal_routes_def
      read_route_def Let_def reads_keep_def ok_json_def keeps_intros)

text \<open>The methods of the table, and the one route that takes the path of the state read.\<close>

lemma route_methods: "list_all (\<lambda>(m, ps, h). m \<in> {''GET'', ''POST'', ''PUT''}) (api_routes ap)"
  by (simp add: api_routes_def public_routes_def console_routes_def operations_routes_def internal_routes_def Let_def)

lemma state_read_route:
  "list_all (\<lambda>(m, ps, h). m = ''POST'' \<and> match_path ps [''internal'', ''state'', ''read''] \<noteq> None
      \<longrightarrow> ps = [Lit ''internal'', Lit ''state'', Lit ''read'']) (api_routes ap)"
  by (simp add: api_routes_def public_routes_def console_routes_def operations_routes_def internal_routes_def Let_def)

text \<open>C11: While the service is frozen for a migration, nothing but the import of the reader's session
  writes: whatever the reads of the services keep is kept by every other request, by the cron and
  by the queue. Taking the property to be that the state is some given one, no other entry point
  changes the state.\<close>

theorem frozen_service_writes_nothing:
  assumes "is_migration_frozen (ap_bindings ap)" and "reads_keep P (ap_services ap)"
    and "hr_method rq \<noteq> ''PUT'' \<or> hr_path rq \<noteq> [''internal'', ''credentials'', ''inoreader_creds'']"
  shows "keeps P (handle_request ap rq) \<and> keeps P (publish_scheduled_collection ap fetch)
    \<and> keeps P (stage_queue_batch ap fetch ack_all messages)"
proof (intro conjI)
  show "keeps P (handle_request ap rq)"
  proof (cases "is_frozen_write (ap_bindings ap) rq")
    case True
    then show ?thesis by (simp add: handle_request_def keeps_respond)
  next
    case False
    have "keeps P (dispatch (api_routes ap) rq)"
    proof (rule keeps_dispatch)
      fix m ps h args
      assume r: "(m, ps, h) \<in> set (api_routes ap)" "m = routed_method rq" "match_path ps (hr_path rq) = Some args"
      have "read_route (m, ps)"
      proof (cases "m = ''GET''")
        case False
        then have m: "m = hr_method rq" "m = ''POST'' \<or> m = ''PUT''"
          using r route_methods [of ap] by (auto simp: routed_method_def list_all_iff split: if_splits)
        then have "m = ''POST''" "hr_path rq = [''internal'', ''state'', ''read'']"
          using \<open>\<not> is_frozen_write (ap_bindings ap) rq\<close> assms(1,3)
          by (auto simp: is_frozen_write_def write_methods_def)
        then show ?thesis using r state_read_route [of ap] by (fastforce simp: list_all_iff read_route_def)
      qed (simp add: read_route_def)
      then show "keeps P (h args rq)" using read_handlers [OF assms(2)] r(1) by (fastforce simp: list_all_iff)
    qed
    then show ?thesis by (simp add: handle_request_def keeps_respond keeps_no_content keeps_ret split: option.split)
  qed
  show "keeps P (publish_scheduled_collection ap fetch)"
    using assms(1) by (simp add: publish_scheduled_collection_def keeps_def ret_def)
  show "keeps P (stage_queue_batch ap fetch ack_all messages)"
    using assms(1) by (simp add: stage_queue_batch_def keeps_throw)
qed

text \<open>Services that do nothing but count the synchronisations that are asked for.\<close>

definition counting_services :: "nat api_services" where
  "counting_services =
     \<lparr>as_queue_summary = ret JNull, as_queue_dlq = ret JNull, as_channels = ret JNull,
      as_write_cookie = (\<lambda>_ _. ret (Inr JNull)), as_login_status = (\<lambda>_. ret JNull), as_overview = ret JNull,
      as_sync_jobs = (\<lambda>_. ret JNull), as_article_events = (\<lambda>_. ret JNull), as_parse_snapshot = Some,
      as_replace_snapshot = (\<lambda>_. ret ()), as_manual_sync = (\<lambda>n. (Suc n, Inr JNull)),
      as_scheduled_sync = (\<lambda>n. (Suc n, Inr JNull)), as_readiness_queue = ret JNull,
      as_health_components = ret JNull, as_metrics = (\<lambda>_. ret JNull), as_dlq_consistency = ret JNull,
      as_retention_report = (\<lambda>_. ret JNull), as_replay_plan = (\<lambda>_ _ _. throw Thrown_Other),
      as_capture_metrics = ret (), as_pull = (\<lambda>_. ret JNull), as_settle = (\<lambda>_ _. ret ()), as_stage = (\<lambda>_. ret ()),
      as_claim_job = (\<lambda>_. ret JNull), as_finish_job = (\<lambda>_ _. ret JNull), as_replay = (\<lambda>_ _. throw Thrown_Other),
      as_publish_jobs = (\<lambda>_. ret JNull), as_reject_job = (\<lambda>_. ret ()), as_claim_effect = (\<lambda>_. ret JNull),
      as_finish_effect = (\<lambda>_ _. ret ()), as_consume_limit = (\<lambda>_. ret JNull), as_consume_limits = (\<lambda>_. ret JNull),
      as_get_state = (\<lambda>_. ret JNull), as_put_state = (\<lambda>_ _. ret ()), as_get_credential = (\<lambda>_. ret None),
      as_save_inoreader = (\<lambda>_. ret ()), as_put_login_session = (\<lambda>_ _. ret ()),
      as_record_heartbeat = (\<lambda>_ _. ret ()), as_record_article_event = (\<lambda>_. ret ()),
      as_import_snapshot = (\<lambda>_. ret JNull)\<rparr>"

definition sample_bindings :: bindings where
  "sample_bindings =
     \<lparr>bd_admin_api_key = Some ''key'', bd_console_origins = None, bd_data_backend = Some ''postgres'',
      bd_hyperdrive = None, bd_migration_frozen = None, bd_schedule_enabled = Some ''true'',
      bd_sync_publish_enabled = Some ''true'', bd_worker_service_token = Some ''token'',
      bd_worker_webhook_token = None, bd_worker_webhook_url = None\<rparr>"

definition sample_api :: "nat api" where
  "sample_api = \<lparr>ap_services = counting_services, ap_bindings = sample_bindings, ap_parse_url = (\<lambda>_. None)\<rparr>"

definition sync_request :: "string option \<Rightarrow> request" where
  "sync_request key =
     \<lparr>hr_method = ''POST'', hr_path = [''sync''], hr_api_key = key, hr_authorization = None, hr_origin = None,
      hr_query = (\<lambda>_. None), hr_body = None\<rparr>"

text \<open>The synchronisation runs with the key, not without it, and not in a freeze.\<close>

lemma configured_text:
  "configured (Some ''key'') = Some ''key''" "configured (Some ''token'') = Some ''token''"
  by (simp_all add: configured_def Js_Text.js_trim_def is_space_def)

lemma sync_with_key: "handle_request sample_api (sync_request (Some ''key'')) 0
    = (1, Inr \<lparr>http_status = 200, http_body = Json_Body JNull\<rparr>)"
  by (simp add: handle_request_def sample_api_def sync_request_def sample_bindings_def is_frozen_write_def
      is_migration_frozen_def guard_refusal_def guard_of_def require_api_key_def configured_text api_routes_def
      public_routes_def console_routes_def Let_def routed_method_def manual_sync_def answer_def and_then_def
      counting_services_def ok_json_def respond_def ret_def)

theorem unauthorized_request_reaches_no_service_witness:
  "\<exists>r. (\<forall>sv s. handle_request (sample_api\<lparr>ap_services := sv\<rparr>) (sync_request (Some ''guess'')) s = (s, Inr r))
    \<and> (http_status r \<in> {401, 404, 503} \<or> hr_method (sync_request (Some ''guess'')) = ''OPTIONS''
       \<or> hr_path (sync_request (Some ''guess'')) = [''healthz''] \<or> hr_path (sync_request (Some ''guess'')) = [''readyz''])"
  by (rule unauthorized_request_reaches_no_service)
    (simp add: authorized_def sample_api_def sample_bindings_def sync_request_def configured_text bearer_token_def)

theorem frozen_service_writes_nothing_witness:
  "fst (handle_request sample_api (sync_request (Some ''key'')) 0) = 1
   \<and> fst (handle_request (sample_api\<lparr>ap_bindings := sample_bindings\<lparr>bd_migration_frozen := Some ''true''\<rparr>\<rparr>)
       (sync_request (Some ''key'')) 0) = 0"
proof -
  have "reads_keep (\<lambda>n. n = 0) counting_services"
    by (simp add: reads_keep_def counting_services_def keeps_ret)
  then have "keeps (\<lambda>n. n = 0) (handle_request (sample_api\<lparr>ap_bindings := sample_bindings\<lparr>bd_migration_frozen := Some ''true''\<rparr>\<rparr>)
       (sync_request (Some ''key'')))"
    using frozen_service_writes_nothing
      [of "sample_api\<lparr>ap_bindings := sample_bindings\<lparr>bd_migration_frozen := Some ''true''\<rparr>\<rparr>" "\<lambda>n. n = 0"
        "sync_request (Some ''key'')" "\<lambda>_ _. ret True" "ret ()" "[]"]
    by (simp add: sample_api_def is_migration_frozen_def sync_request_def)
  then show ?thesis using keepsD [of "\<lambda>n. n = 0" _ "0 :: nat"] sync_with_key by simp
qed

end
