(* ===== verification/Replay_Routes.thy ===== *)
theory Replay_Routes
  imports Api_Routes
begin

text \<open>
  The two steps of an operator's replay, \<open>POST /api/operations/replays/plan\<close> and \<open>/execute\<close>, from the
  request down to the tables: the routes of theory Api_Routes over the replay of theory Replay, in
  its PostgreSQL transaction, and the plan of theory Readiness.
\<close>

section \<open>The services on the tables\<close>

record replay_world =
  vw_db :: control_db
  vw_clock :: instant

definition serve_replay :: "replay_context \<Rightarrow> string \<Rightarrow> replay_input \<Rightarrow> (replay_world, replay_result) action" where
  "serve_replay ctx job input w =
     (let (db, r) = replay_dead_letter_pg ctx job input (vw_clock w) (vw_db w)
      in (w\<lparr>vw_db := db, vw_clock := vw_clock w + 1\<rparr>,
          case r of None \<Rightarrow> Inl Thrown_Other | Some r \<Rightarrow> Inr r))"

type_synonym plan_hash = "string \<times> string \<times> replay_state_row option \<times> replay_result \<Rightarrow> string"

definition serve_plan ::
  "plan_hash \<Rightarrow> string \<Rightarrow> string \<Rightarrow> replay_result \<Rightarrow> (replay_world, replay_plan) action" where
  "serve_plan sha key job validation w = (w, Inr (create_replay_plan sha (vw_db w) key job validation))"

definition replay_services ::
  "replay_context \<Rightarrow> plan_hash \<Rightarrow> replay_world api_services \<Rightarrow> replay_world api_services" where
  "replay_services ctx sha base = base\<lparr>as_replay := serve_replay ctx, as_replay_plan := serve_plan sha\<rparr>"

section \<open>The requests\<close>

definition plan_call :: "string option \<Rightarrow> string \<Rightarrow> string \<Rightarrow> request" where
  "plan_call api_key key job =
     \<lparr>hr_method = ''POST'', hr_path = [''api'', ''operations'', ''replays'', ''plan''], hr_api_key = api_key,
      hr_authorization = None, hr_origin = None, hr_query = (\<lambda>_. None),
      hr_body = Some (JObj [(''idempotencyKey'', JStr key), (''jobId'', JStr job)])\<rparr>"

definition execute_call :: "string option \<Rightarrow> string \<Rightarrow> string \<Rightarrow> string \<Rightarrow> request" where
  "execute_call api_key key job hash =
     \<lparr>hr_method = ''POST'', hr_path = [''api'', ''operations'', ''replays'', ''execute''], hr_api_key = api_key,
      hr_authorization = None, hr_origin = None, hr_query = (\<lambda>_. None),
      hr_body = Some (JObj [(''confirm'', JBool True), (''idempotencyKey'', JStr key), (''jobId'', JStr job),
        (''planHash'', JStr hash)])\<rparr>"

text \<open>What the service has to let through.\<close>

definition admits :: "'s api \<Rightarrow> string option \<Rightarrow> bool" where
  "admits ap api_key = (\<not> is_migration_frozen (ap_bindings ap) \<and> require_api_key (ap_bindings ap) api_key = None)"

lemma handle_plan_call:
  "handle_request ap (plan_call api_key key job) =
     (if is_migration_frozen (ap_bindings ap) then respond 503 (Detail ''service writes are frozen for migration'')
      else case require_api_key (ap_bindings ap) api_key of
             Some r \<Rightarrow> ret (refusal_response r)
           | None \<Rightarrow> plan_replay (ap_services ap) (plan_call api_key key job))"
  by (simp add: handle_request_def plan_call_def is_frozen_write_def write_methods_def guard_refusal_def guard_of_def
      api_routes_def public_routes_def console_routes_def operations_routes_def Let_def routed_method_def
      split: option.split)

lemma handle_execute_call:
  "handle_request ap (execute_call api_key key job hash) =
     (if is_migration_frozen (ap_bindings ap) then respond 503 (Detail ''service writes are frozen for migration'')
      else case require_api_key (ap_bindings ap) api_key of
             Some r \<Rightarrow> ret (refusal_response r)
           | None \<Rightarrow> execute_replay (ap_services ap) (execute_call api_key key job hash))"
  by (simp add: handle_request_def execute_call_def is_frozen_write_def write_methods_def guard_refusal_def guard_of_def
      api_routes_def public_routes_def console_routes_def operations_routes_def Let_def routed_method_def
      split: option.split)

section \<open>The check of a replay\<close>

text \<open>The answer of a dry run, which the plan is made of.\<close>

definition validation_of :: "replay_context \<Rightarrow> string \<Rightarrow> string \<Rightarrow> control_db \<Rightarrow> replay_result" where
  "validation_of ctx key job db =
     (case check_replay ctx job \<lparr>rq_dry_run = True, rq_idempotency_key = key\<rparr> db of
        Inl r \<Rightarrow> r | Inr _ \<Rightarrow> validated_replay)"

lemma check_replay_key: "check_replay ctx job \<lparr>rq_dry_run = b, rq_idempotency_key = key\<rparr> db
    = check_replay ctx job \<lparr>rq_dry_run = True, rq_idempotency_key = key\<rparr> db"
  unfolding check_replay_def replay_input.select_convs by (rule refl)

lemma dry_run:
  "serve_replay ctx job \<lparr>rq_dry_run = True, rq_idempotency_key = key\<rparr> w
     = (w\<lparr>vw_clock := vw_clock w + 1\<rparr>, Inr (validation_of ctx key job (vw_db w)))"
  by (auto simp: serve_replay_def replay_dead_letter_pg_def validation_of_def split: sum.split)

lemma check_replay_refuses:
  "check_replay ctx job i db = Inl r \<Longrightarrow> r \<noteq> validated_replay"
  by (auto simp: check_replay_def rejected_replay_def repeated_replay_def validated_replay_def
      split: option.splits if_splits sum.splits)

lemma check_replay_used_key:
  "key \<in> rp_idempotency_key ` set (cd_replays db) \<Longrightarrow> \<exists>r. check_replay ctx job \<lparr>rq_dry_run = b, rq_idempotency_key = key\<rparr> db = Inl r"
  by (auto simp: check_replay_def tab_first_None split: option.split)

lemma used_key_validation:
  assumes "key \<in> rp_idempotency_key ` set (cd_replays db)"
  shows "validation_of ctx key job db \<noteq> validated_replay"
proof -
  obtain v where "check_replay ctx job \<lparr>rq_dry_run = True, rq_idempotency_key = key\<rparr> db = Inl v"
    using check_replay_used_key [OF assms] by blast
  moreover from this have "v \<noteq> validated_replay" by (rule check_replay_refuses)
  ultimately show ?thesis by (simp add: validation_of_def)
qed

text \<open>The run that is not dry: it writes only where the check is passed, and then the key is used.\<close>

lemma wet_run_writes:
  assumes "serve_replay ctx job \<lparr>rq_dry_run = False, rq_idempotency_key = key\<rparr> w = (w', Inr r)"
    and "vw_db w' \<noteq> vw_db w"
  shows "r = published_replay" and "validation_of ctx key job (vw_db w) = validated_replay"
    and "key \<in> rp_idempotency_key ` set (cd_replays (vw_db w'))"
  using assms
  by (auto simp: serve_replay_def replay_dead_letter_pg_def validation_of_def Let_def replay_operation_def
      check_replay_key [of _ _ False] split: sum.splits option.splits if_splits)

section \<open>A replay is the one that was planned\<close>

definition plan_input :: "replay_context \<Rightarrow> string \<Rightarrow> string \<Rightarrow> control_db
    \<Rightarrow> string \<times> string \<times> replay_state_row option \<times> replay_result" where
  "plan_input ctx key job db = (key, job, replay_state_of db job, validation_of ctx key job db)"

definition plan_of :: "replay_context \<Rightarrow> plan_hash \<Rightarrow> string \<Rightarrow> string \<Rightarrow> control_db \<Rightarrow> replay_plan" where
  "plan_of ctx sha key job db = create_replay_plan sha db key job (validation_of ctx key job db)"

lemma plan_of_hash: "py_hash (plan_of ctx sha key job db) = sha (plan_input ctx key job db)"
  by (simp add: plan_of_def create_replay_plan_def plan_input_def)

lemma replay_services_sel [simp]:
  "as_replay (replay_services ctx sha base) = serve_replay ctx"
  "as_replay_plan (replay_services ctx sha base) = serve_plan sha"
  by (simp_all add: replay_services_def)

definition names_ok :: "string \<Rightarrow> string \<Rightarrow> bool" where
  "names_ok key job = (1 \<le> length key \<and> length key \<le> 128 \<and> 1 \<le> length job \<and> length job \<le> 128)"

lemma parse_plan_body:
  "parse_plan_request (JObj [(''idempotencyKey'', JStr key), (''jobId'', JStr job)]) =
     (if names_ok key job then Some (key, job) else None)"
  by (auto simp: parse_plan_request_def json_object_def short_text_def field_string_def json_get_def names_ok_def)

lemma parse_execute_body:
  "parse_execute_request (JObj [(''confirm'', JBool True), (''idempotencyKey'', JStr key), (''jobId'', JStr job),
      (''planHash'', JStr hash)]) = (if names_ok key job \<and> hex_of_length 64 hash then Some (key, job, hash) else None)"
  by (auto simp: parse_execute_request_def parse_plan_request_def json_object_def short_text_def field_string_def
      json_get_def names_ok_def)

lemma plan_answer:
  assumes "ap_services ap = replay_services ctx sha base"
    and "handle_request ap (plan_call api_key key job) w = (w', Inr \<lparr>http_status = 200, http_body = b\<rparr>)"
  shows "admits ap api_key \<and> names_ok key job
    \<and> vw_db w' = vw_db w \<and> b = Json_Body (plan_body (plan_of ctx sha key job (vw_db w)))"
  using assms(2) unfolding handle_plan_call
  by (auto simp: admits_def assms(1) plan_replay_def with_body_def read_json_def plan_call_def parse_plan_body and_then_def
      ret_def respond_def ok_json_def dry_run serve_plan_def plan_of_def
      split: if_splits option.splits refusal.splits elim: refusal_response.elims)

lemma execute_answer:
  assumes "ap_services ap = replay_services ctx sha base" and "admits ap api_key"
    and "names_ok key job" and "hex_of_length 64 hash"
  shows "handle_request ap (execute_call api_key key job hash) w =
    (let w1 = w\<lparr>vw_clock := vw_clock w + 1\<rparr>; v = validation_of ctx key job (vw_db w)
     in if sha (plan_input ctx key job (vw_db w)) \<noteq> hash then respond 409 (Detail ''stale_plan'') w1
        else if \<not> rt_replayable v then respond 409 (Detail (rt_reason v)) w1
        else and_then (serve_replay ctx job \<lparr>rq_dry_run = False, rq_idempotency_key = key\<rparr>)
          (\<lambda>r. ok_json (JObj (replay_fields r @ [(''operationId'', JStr key), (''planHash'', JStr hash)]))) w1)"
  using assms(2-4) unfolding handle_execute_call
  by (simp add: admits_def execute_replay_def with_body_def read_json_def execute_call_def parse_execute_body
      assms(1) and_then_def ret_def dry_run serve_plan_def create_replay_plan_def plan_input_def Let_def)

lemma execute_admitted:
  assumes "handle_request ap (execute_call api_key key job hash) w = (w', Inr r)" and "w' \<noteq> w"
  shows "admits ap api_key \<and> names_ok key job \<and> hex_of_length 64 hash"
  using assms unfolding handle_execute_call
  by (auto simp: admits_def execute_replay_def with_body_def read_json_def execute_call_def parse_execute_body
      and_then_def ret_def respond_def split: if_splits option.splits)

lemma execute_writes:
  assumes "ap_services ap = replay_services ctx sha base"
    and "handle_request ap (execute_call api_key key job hash) w = (w', Inr r)" and "vw_db w' \<noteq> vw_db w"
  shows "sha (plan_input ctx key job (vw_db w)) = hash \<and> validation_of ctx key job (vw_db w) = validated_replay
    \<and> key \<in> rp_idempotency_key ` set (cd_replays (vw_db w'))
    \<and> r = \<lparr>http_status = 200, http_body = Json_Body (JObj (replay_fields published_replay
        @ [(''operationId'', JStr key), (''planHash'', JStr hash)]))\<rparr>"
proof -
  have ok: "admits ap api_key" "names_ok key job" "hex_of_length 64 hash"
    using execute_admitted [OF assms(2)] assms(3) by auto
  obtain w2 x where run: "serve_replay ctx job \<lparr>rq_dry_run = False, rq_idempotency_key = key\<rparr>
      (w\<lparr>vw_clock := vw_clock w + 1\<rparr>) = (w2, Inr x)" "w2 = w'"
    and hash: "sha (plan_input ctx key job (vw_db w)) = hash"
    and r: "r = \<lparr>http_status = 200, http_body = Json_Body (JObj (replay_fields x
        @ [(''operationId'', JStr key), (''planHash'', JStr hash)]))\<rparr>"
    using assms(2,3) unfolding execute_answer [OF assms(1) ok]
    by (auto simp: Let_def respond_def ret_def and_then_def ok_json_def split: if_splits prod.splits sum.splits)
  then show ?thesis using wet_run_writes [OF run(1)] assms(3) by auto
qed

lemma plan_body_injective:
  "plan_body p = plan_body p' \<Longrightarrow> py_hash p = py_hash p'"
  by (simp add: plan_body_def)

text \<open>C9: An operator's replay publishes only what was planned, and once. If a plan was answered with a
  hash, and an execution with that hash then changes the tables, then the state of the job at the
  execution is the state it had at the plan, which was found replayable; the execution answers
  that it published; making the plan changed nothing; and executing the same plan again is
  refused as stale and changes nothing. The hash has to tell the three plans apart.\<close>

theorem executed_replay_was_planned:
  assumes services: "ap_services ap = replay_services ctx sha base"
    and plan: "handle_request ap (plan_call api_key key job) w0 = (w0', Inr \<lparr>http_status = 200, http_body = Json_Body (plan_body p)\<rparr>)"
    and exec: "handle_request ap (execute_call api_key key job (py_hash p)) w = (w', Inr r)" and changed: "vw_db w' \<noteq> vw_db w"
    and hash: "inj_on sha (plan_input ctx key job ` {vw_db w0, vw_db w, vw_db w'})"
  shows "vw_db w0' = vw_db w0
    \<and> replay_state_of (vw_db w) job = replay_state_of (vw_db w0) job
    \<and> validation_of ctx key job (vw_db w0) = validated_replay
    \<and> r = \<lparr>http_status = 200, http_body = Json_Body (JObj (replay_fields published_replay
        @ [(''operationId'', JStr key), (''planHash'', JStr (py_hash p))]))\<rparr>
    \<and> (\<exists>w''. handle_request ap (execute_call api_key key job (py_hash p)) w'
           = (w'', Inr \<lparr>http_status = 409, http_body = Detail ''stale_plan''\<rparr>) \<and> vw_db w'' = vw_db w')"
proof -
  have "plan_body p = plan_body (plan_of ctx sha key job (vw_db w0))"
    using plan_answer [OF services plan] by simp
  from plan_body_injective [OF this]
  have p: "vw_db w0' = vw_db w0" "py_hash p = sha (plan_input ctx key job (vw_db w0))"
    using plan_answer [OF services plan] by (simp_all add: plan_of_hash)
  note e = execute_writes [OF services exec changed]
  have same: "plan_input ctx key job (vw_db w) = plan_input ctx key job (vw_db w0)"
    by (rule inj_onD [OF hash]) (use e p(2) in simp_all)
  have "validation_of ctx key job (vw_db w') \<noteq> validated_replay" using e used_key_validation by blast
  then have "plan_input ctx key job (vw_db w') \<noteq> plan_input ctx key job (vw_db w)"
    using e by (simp add: plan_input_def)
  then have "sha (plan_input ctx key job (vw_db w')) \<noteq> py_hash p"
    using same p(2) inj_onD [OF hash, of "plan_input ctx key job (vw_db w')" "plan_input ctx key job (vw_db w)"] by auto
  moreover have "admits ap api_key" "names_ok key job" "hex_of_length 64 (py_hash p)"
    using execute_admitted [OF exec] changed by auto
  ultimately have "handle_request ap (execute_call api_key key job (py_hash p)) w'
      = (w'\<lparr>vw_clock := vw_clock w' + 1\<rparr>, Inr \<lparr>http_status = 409, http_body = Detail ''stale_plan''\<rparr>)"
    by (simp add: execute_answer [OF services] Let_def respond_def ret_def)
  then show ?thesis using p e same by (auto simp: plan_input_def)
qed

section \<open>A dead article is planned and executed\<close>

definition dead_article_db :: control_db where
  "dead_article_db =
     (let job = sample_article_job ''a''; env = rc_env (sample_context job)
      in fst (finish_job ''a'' (Result_Failed (Some Permanent) None None) 5
           (empty_control\<lparr>lg_jobs := lg_jobs empty_control @ [new_worker_job job 0],
              lg_envelopes := lg_envelopes empty_control @ [sealed_envelope env job (1 # replicate 12 9 @ [7, 42]) 0]\<rparr>)))"

definition replay_api :: "replay_world api" where
  "replay_api =
     \<lparr>ap_services = replay_services (sample_context (sample_article_job ''a''))
        (\<lambda>(k, j, st, v). replicate 64 (if v = validated_replay then CHR ''a'' else CHR ''b'')) undefined,
      ap_bindings = sample_bindings, ap_parse_url = (\<lambda>_. None)\<rparr>"

lemma dead_article_buried:
  "buried (rc_env (sample_context (sample_article_job ''a''))) (sample_article_job ''a'') dead_article_db
   \<and> cd_effects dead_article_db = [] \<and> cd_replays dead_article_db = [] \<and> cd_inbox dead_article_db = []"
proof -
  let ?job = "sample_article_job ''a''"
  let ?env = "rc_env (sample_context ?job)"
  have id: "qj_job_id ?job = ''a''" by (simp add: sample_article_job_def)
  have env: "?env = (sample_ledger_env (json_of_job ?job))\<lparr>le_key := '' key''\<rparr>" by (simp add: sample_context_def)
  obtain r where fail: "finish_job (qj_job_id ?job) (Result_Failed (Some Permanent) None None) 5
      (empty_control\<lparr>lg_jobs := lg_jobs empty_control @ [new_worker_job ?job 0],
         lg_envelopes := lg_envelopes empty_control @ [sealed_envelope ?env ?job (1 # replicate 12 9 @ [7, 42]) 0]\<rparr>)
      = (dead_article_db, r)"
    by (metis dead_article_db_def id prod.collapse)
  have "buried ?env ?job dead_article_db \<and> cd_effects dead_article_db = cd_effects empty_control
      \<and> cd_replays dead_article_db = cd_replays empty_control \<and> cd_inbox dead_article_db = cd_inbox empty_control"
  proof (rule failed_article_is_buried [OF _ _ _ _ _ _ fail])
    show "encrypt_json (le_vault ?env) (json_of_job ?job) (le_key ?env) = Inr (1 # replicate 12 9 @ [7, 42])"
      unfolding env using sample_encrypt by (simp add: sample_ledger_env_def)
    show "vault_ok (le_vault ?env) (json_of_job ?job)"
      unfolding env using sample_vault_ok by (simp add: sample_ledger_env_def)
    show "job_ok (le_formats ?env) ?job"
      unfolding env by (simp add: sample_ledger_env_def job_ok_def sample_article_job_def sample_formats_def tags_ok_def)
    show "le_digest ?env (json_of_job ?job) \<noteq> []" unfolding env by (simp add: sample_ledger_env_def)
  qed (simp_all add: empty_control_def)
  then show ?thesis by (simp add: empty_control_def)
qed

lemma dead_article_check:
  "check_replay (sample_context (sample_article_job ''a'')) ''a'' \<lparr>rq_dry_run = True, rq_idempotency_key = ''k''\<rparr> dead_article_db
     = Inr (sample_article_job ''a'', ''a'')"
  using check_buried [of "sample_context (sample_article_job ''a'')" "sample_article_job ''a''" dead_article_db
      "\<lparr>rq_dry_run = True, rq_idempotency_key = ''k''\<rparr>"] dead_article_buried
  by (simp add: terminal_effect_def) (simp add: sample_article_job_def)

text \<open>The witness: the plan is made at once, the execution publishes.\<close>

lemma sample_admits: "admits replay_api (Some ''key'')"
  by (simp add: admits_def replay_api_def sample_bindings_def is_migration_frozen_def require_api_key_def configured_text)

lemma replay_api_services: "ap_services replay_api = replay_services (sample_context (sample_article_job ''a''))
    (\<lambda>(k, j, st, v). replicate 64 (if v = validated_replay then CHR ''a'' else CHR ''b'')) undefined"
  by (simp add: replay_api_def)

definition article_plan :: replay_plan where
  "article_plan = plan_of (sample_context (sample_article_job ''a''))
     (\<lambda>(k, j, st, v). replicate 64 (if v = validated_replay then CHR ''a'' else CHR ''b'')) ''k'' ''a'' dead_article_db"

lemma article_validation: "validation_of (sample_context (sample_article_job ''a'')) ''k'' ''a'' dead_article_db = validated_replay"
  by (simp add: validation_of_def dead_article_check)

lemma article_plan_hash: "py_hash article_plan = replicate 64 CHR ''a''"
  by (simp add: article_plan_def plan_of_hash plan_input_def article_validation)

lemma article_is_planned:
  "\<exists>w. handle_request replay_api (plan_call (Some ''key'') ''k'' ''a'') \<lparr>vw_db = dead_article_db, vw_clock = 9\<rparr>
     = (w, Inr \<lparr>http_status = 200, http_body = Json_Body (plan_body article_plan)\<rparr>)"
  using sample_admits unfolding handle_plan_call admits_def
  by (simp add: plan_replay_def with_body_def read_json_def plan_call_def parse_plan_body names_ok_def and_then_def ret_def
      replay_api_services dry_run serve_plan_def ok_json_def respond_def article_plan_def plan_of_def)

lemma article_is_executed:
  "\<exists>w r. handle_request replay_api (execute_call (Some ''key'') ''k'' ''a'' (py_hash article_plan))
      \<lparr>vw_db = dead_article_db, vw_clock = 10\<rparr> = (w, Inr r) \<and> cd_replays (vw_db w) \<noteq> []"
proof -
  have hex: "hex_of_length 64 (py_hash article_plan)"
    unfolding article_plan_hash by (simp add: hex_of_length_def list_all_iff is_hex_def)
  have names: "names_ok ''k'' ''a''" by (simp add: names_ok_def)
  have wet: "check_replay (sample_context (sample_article_job ''a'')) ''a'' \<lparr>rq_dry_run = False, rq_idempotency_key = ''k''\<rparr>
      dead_article_db = Inr (sample_article_job ''a'', ''a'')"
    by (rule trans [OF check_replay_key dead_article_check])
  show ?thesis
    unfolding execute_answer [OF replay_api_services sample_admits names hex]
    using dead_article_buried
    by (simp add: wet Let_def plan_input_def article_validation article_plan_hash validated_replay_def serve_replay_def
        replay_dead_letter_pg_def and_then_def ok_json_def respond_def ret_def)
qed

theorem executed_replay_was_planned_witness:
  "\<exists>w r w''. handle_request replay_api (execute_call (Some ''key'') ''k'' ''a'' (py_hash article_plan))
      \<lparr>vw_db = dead_article_db, vw_clock = 10\<rparr> = (w, Inr r) \<and> cd_replays (vw_db w) \<noteq> []
    \<and> handle_request replay_api (execute_call (Some ''key'') ''k'' ''a'' (py_hash article_plan)) w
        = (w'', Inr \<lparr>http_status = 409, http_body = Detail ''stale_plan''\<rparr>)"
proof -
  obtain w0' where plan: "handle_request replay_api (plan_call (Some ''key'') ''k'' ''a'') \<lparr>vw_db = dead_article_db, vw_clock = 9\<rparr>
     = (w0', Inr \<lparr>http_status = 200, http_body = Json_Body (plan_body article_plan)\<rparr>)"
    using article_is_planned by blast
  obtain w r where exec: "handle_request replay_api (execute_call (Some ''key'') ''k'' ''a'' (py_hash article_plan))
      \<lparr>vw_db = dead_article_db, vw_clock = 10\<rparr> = (w, Inr r)" "cd_replays (vw_db w) \<noteq> []"
    using article_is_executed by blast
  have changed: "vw_db w \<noteq> vw_db \<lparr>vw_db = dead_article_db, vw_clock = 10\<rparr>"
    using exec(2) dead_article_buried by auto
  let ?sha = "\<lambda>(k, j, st, v). replicate 64 (if v = validated_replay then CHR ''a'' else CHR ''b'')"
  have inj: "inj_on ?sha {(''k'', ''a'', s, validated_replay), (''k'', ''a'', t, v)}" if "v \<noteq> validated_replay" for s t v
    using that by (auto simp: inj_on_def)
  note e = execute_writes [OF replay_api_services exec(1) changed]
  have "validation_of (sample_context (sample_article_job ''a'')) ''k'' ''a'' (vw_db w) \<noteq> validated_replay"
    using e used_key_validation by blast
  then have "inj_on ?sha (plan_input (sample_context (sample_article_job ''a'')) ''k'' ''a'' `
      {vw_db \<lparr>vw_db = dead_article_db, vw_clock = 9\<rparr>, vw_db \<lparr>vw_db = dead_article_db, vw_clock = 10\<rparr>, vw_db w})"
    using inj by (simp add: plan_input_def article_validation)
  from executed_replay_was_planned [OF replay_api_services plan exec(1) changed this] exec show ?thesis by blast
qed

end
