(* ===== verification/Pg_Pool.thy ===== *)
theory Pg_Pool
  imports Actions
begin

text \<open>
  The pool of connections to PostgreSQL and the two wrappers that the modules of \<open>apps/api/src\<close>
  put around their statements: \<open>withClient\<close> gives the client back in a \<open>finally\<close>, and
  \<open>withTransaction\<close> commits, rolls back when anything throws, and gives the client back. A request
  may be refused, or served and its answer be lost. The server aborts an open transaction when its
  client is discarded.
\<close>

section \<open>The pool\<close>

datatype pg_fault = No_Fault | Refused | Answer_Lost

text \<open>The database, the clients that are out, what becomes of the coming requests, and the contents
  that the transaction in progress goes back to when it is aborted.\<close>

record 'd pg_world =
  pw_db :: 'd
  pw_clients :: nat
  pw_faults :: "pg_fault list"
  pw_undo :: "'d option"

definition connection_lost :: thrown where
  "connection_lost = Thrown_Error ''Connection terminated unexpectedly''"

definition coming_fault :: "'d pg_world \<Rightarrow> pg_fault" where
  "coming_fault w = (case pw_faults w of [] \<Rightarrow> No_Fault | f # _ \<Rightarrow> f)"

definition past_fault :: "'d pg_world \<Rightarrow> 'd pg_world" where
  "past_fault w = w\<lparr>pw_faults := tl (pw_faults w)\<rparr>"

definition pg_connect :: "('d pg_world, unit) action" where
  "pg_connect w =
     (if coming_fault w = No_Fault then (past_fault w\<lparr>pw_clients := Suc (pw_clients w)\<rparr>, Inr ())
      else (past_fault w, Inl connection_lost))"

definition pg_release :: "('d pg_world, unit) action" where
  "pg_release w = (w\<lparr>pw_clients := pw_clients w - 1\<rparr>, Inr ())"

definition pg_select :: "('d \<Rightarrow> 'r list) \<Rightarrow> ('d pg_world, 'r list) action" where
  "pg_select f w =
     (past_fault w, if coming_fault w = No_Fault then Inr (f (pw_db w)) else Inl connection_lost)"

definition pg_execute :: "('d \<Rightarrow> 'd) \<Rightarrow> ('d pg_world, unit) action" where
  "pg_execute g w =
     (case coming_fault w of
        No_Fault \<Rightarrow> (past_fault w\<lparr>pw_db := g (pw_db w)\<rparr>, Inr ())
      | Refused \<Rightarrow> (past_fault w, Inl connection_lost)
      | Answer_Lost \<Rightarrow> (past_fault w\<lparr>pw_db := g (pw_db w)\<rparr>, Inl connection_lost))"

definition with_client :: "('d pg_world, 'a) action \<Rightarrow> ('d pg_world, 'a) action" where
  "with_client operation = and_then pg_connect (\<lambda>_. finally_do operation pg_release)"

definition first_row :: "'r list \<Rightarrow> 'r option" where
  "first_row rows = (case rows of [] \<Rightarrow> None | r # _ \<Rightarrow> Some r)"

section \<open>Transactions\<close>

definition pg_begin :: "('d pg_world, unit) action" where
  "pg_begin w =
     (case coming_fault w of
        No_Fault \<Rightarrow> (past_fault w\<lparr>pw_undo := Some (pw_db w)\<rparr>, Inr ())
      | Refused \<Rightarrow> (past_fault w, Inl connection_lost)
      | Answer_Lost \<Rightarrow> (past_fault w\<lparr>pw_undo := Some (pw_db w)\<rparr>, Inl connection_lost))"

definition pg_commit :: "('d pg_world, unit) action" where
  "pg_commit w =
     (case coming_fault w of
        No_Fault \<Rightarrow> (past_fault w\<lparr>pw_undo := None\<rparr>, Inr ())
      | Refused \<Rightarrow> (past_fault w, Inl connection_lost)
      | Answer_Lost \<Rightarrow> (past_fault w\<lparr>pw_undo := None\<rparr>, Inl connection_lost))"

definition aborted :: "'d pg_world \<Rightarrow> 'd pg_world" where
  "aborted w = (case pw_undo w of None \<Rightarrow> w | Some d \<Rightarrow> w\<lparr>pw_db := d, pw_undo := None\<rparr>)"

definition pg_rollback :: "('d pg_world, unit) action" where
  "pg_rollback w =
     (case coming_fault w of
        No_Fault \<Rightarrow> (aborted (past_fault w), Inr ())
      | Refused \<Rightarrow> (past_fault w, Inl connection_lost)
      | Answer_Lost \<Rightarrow> (aborted (past_fault w), Inl connection_lost))"

text \<open>\<open>client.release(releaseError)\<close> closes the connection.\<close>

definition pg_discard :: "('d pg_world, unit) action" where
  "pg_discard w = (let v = aborted w in (v\<lparr>pw_clients := pw_clients v - 1\<rparr>, Inr ()))"

definition rollback_failed :: thrown where
  "rollback_failed = Thrown_Error ''PostgreSQL transaction and rollback failed''"

definition with_transaction :: "('d pg_world, 'a) action \<Rightarrow> ('d pg_world, 'a) action" where
  "with_transaction operation = and_then pg_connect (\<lambda>_ w.
     (case and_then pg_begin (\<lambda>_. and_then operation (\<lambda>x. and_then pg_commit (\<lambda>_. ret x))) w of
        (w1, Inr x) \<Rightarrow> (fst (pg_release w1), Inr x)
      | (w1, Inl e) \<Rightarrow>
          (case pg_rollback w1 of
             (w2, Inr _) \<Rightarrow> (fst (pg_release w2), Inl e)
           | (w2, Inl _) \<Rightarrow> (fst (pg_discard w2), Inl rollback_failed))))"

section \<open>A client that was taken is given back\<close>

lemma past_fault_simps [simp]: "pw_db (past_fault w) = pw_db w" "pw_clients (past_fault w) = pw_clients w"
  by (simp_all add: past_fault_def)

definition same_clients :: "('d pg_world, 'a) action \<Rightarrow> bool" where
  "same_clients a = (\<forall>n. keeps (\<lambda>w. pw_clients w = n) a)"

lemma same_clients_statements:
  "same_clients (pg_select f)" "same_clients (pg_execute g)"
  by (auto simp: same_clients_def keeps_def pg_select_def pg_execute_def split: pg_fault.split)

lemma same_clients_ret: "same_clients (ret x)"
  by (simp add: same_clients_def keeps_def ret_def)

lemma same_clients_then:
  assumes "same_clients a" "\<And>x. same_clients (f x)"
  shows "same_clients (and_then a f)"
  using assms unfolding same_clients_def by (blast intro: keeps_and_then)

lemma same_clients_with_client:
  assumes "same_clients operation"
  shows "same_clients (with_client operation)"
  unfolding same_clients_def
proof (intro allI keepsI)
  fix n and w :: "'a pg_world" assume w: "pw_clients w = n"
  show "pw_clients (fst (with_client operation w)) = n"
  proof (cases "coming_fault w = No_Fault")
    case True
    let ?v = "past_fault w\<lparr>pw_clients := Suc (pw_clients w)\<rparr>"
    have "pw_clients (fst (operation ?v)) = Suc n"
      using keepsD [OF spec [OF assms [unfolded same_clients_def], of "Suc n"], of ?v] w by simp
    then show ?thesis
      using True by (cases "operation ?v")
        (simp add: with_client_def and_then_def pg_connect_def finally_do_def pg_release_def)
  qed (simp add: with_client_def and_then_def pg_connect_def w)
qed

lemmas same_clients_rules =
  same_clients_statements same_clients_ret same_clients_then same_clients_with_client

lemma same_clientsD: "same_clients a \<Longrightarrow> pw_clients (fst (a w)) = pw_clients w"
  using keepsD [of "\<lambda>v. pw_clients v = pw_clients w" a w] by (simp add: same_clients_def)


text \<open>A transaction of one statement runs as a whole or not at all, and when it does not throw it ran.\<close>

lemma past_fault_undo [simp]: "pw_undo (past_fault w) = pw_undo w"
  by (simp add: past_fault_def)

lemma fault_updates [simp]:
  "coming_fault (w\<lparr>pw_db := d\<rparr>) = coming_fault w"
  "coming_fault (w\<lparr>pw_clients := n\<rparr>) = coming_fault w"
  "coming_fault (w\<lparr>pw_undo := u\<rparr>) = coming_fault w"
  "past_fault (w\<lparr>pw_db := d\<rparr>) = past_fault w\<lparr>pw_db := d\<rparr>"
  "past_fault (w\<lparr>pw_clients := n\<rparr>) = past_fault w\<lparr>pw_clients := n\<rparr>"
  "past_fault (w\<lparr>pw_undo := u\<rparr>) = past_fault w\<lparr>pw_undo := u\<rparr>"
  by (simp_all add: coming_fault_def past_fault_def)

lemma one_statement_transaction:
  assumes "pw_undo w = None" and "with_transaction (pg_execute g) w = (w', r)"
  shows "pw_db w' = g (pw_db w) \<or> pw_db w' = pw_db w \<and> r \<noteq> Inr ()"
    and "pw_undo w' = None" and "pw_clients w' = pw_clients w"
proof -
  note defs = with_transaction_def and_then_def pg_connect_def pg_begin_def pg_execute_def pg_commit_def
    pg_rollback_def pg_release_def pg_discard_def aborted_def ret_def Let_def
  show "pw_db w' = g (pw_db w) \<or> pw_db w' = pw_db w \<and> r \<noteq> Inr ()"
    and "pw_undo w' = None" and "pw_clients w' = pw_clients w"
    using assms by (auto simp: defs split: if_splits pg_fault.splits)
qed

section \<open>Without faults\<close>

definition calm_pool :: "'d \<Rightarrow> nat \<Rightarrow> 'd pg_world" where
  "calm_pool db n = \<lparr>pw_db = db, pw_clients = n, pw_faults = [], pw_undo = None\<rparr>"

lemma calm_requests:
  "pg_select f (calm_pool db n) = (calm_pool db n, Inr (f db))"
  "pg_execute g (calm_pool db n) = (calm_pool (g db) n, Inr ())"
  "pg_connect (calm_pool db n) = (calm_pool db (Suc n), Inr ())"
  "pg_release (calm_pool db (Suc n)) = (calm_pool db n, Inr ())"
  by (simp_all add: calm_pool_def pg_select_def pg_execute_def pg_connect_def pg_release_def
      past_fault_def coming_fault_def)

lemma first_row_filter: "first_row (filter P rows) = tab_first P rows"
  by (induction rows) (simp_all add: first_row_def tab_first_def)

lemma calm_transaction:
  "with_transaction (pg_execute g) (calm_pool db n) = (calm_pool (g db) n, Inr ())"
  by (simp add: with_transaction_def calm_requests and_then_def)
    (simp add: calm_pool_def pg_begin_def pg_execute_def pg_commit_def pg_release_def coming_fault_def
      past_fault_def ret_def)

lemmas calm_pool_simps =
  calm_requests first_row_filter with_client_def and_then_def finally_do_def ret_def

end
