(* ===== verification/Control_Data_Pg.thy ===== *)
theory Control_Data_Pg
  imports Control_Data Replay Pg_Pool
begin

text \<open>
  The data operations of the control plane over PostgreSQL,
  \<open>apps/api/src/control-plane-postgres-data.ts\<close>: each takes a client of the pool, runs its
  statements and gives the client back (theory \<open>Pg_Pool\<close>). Without faults each does what its twin
  over D1 does (theory \<open>Control_Data\<close>).
\<close>

record control_db =
  cd_data :: data_db
  cd_ledger :: ledger

definition on_data :: "(data_db \<Rightarrow> data_db) \<Rightarrow> control_db \<Rightarrow> control_db" where
  "on_data f db = db\<lparr>cd_data := f (cd_data db)\<rparr>"

section \<open>The operations\<close>

definition get_state_pg :: "string \<Rightarrow> (control_db pg_world, json option) action" where
  "get_state_pg key =
     with_client (and_then
       (pg_select (\<lambda>db. filter (\<lambda>r. sr_key r = key) (dd_states (cd_data db))))
       (\<lambda>rows. ret (map_option sr_value (first_row rows))))"

definition put_state_pg :: "string \<Rightarrow> json \<Rightarrow> instant \<Rightarrow> (control_db pg_world, unit) action" where
  "put_state_pg key v timestamp =
     with_client (pg_execute (on_data (\<lambda>db. db\<lparr>dd_states := tab_upsert sr_key
         (\<lambda>old new. old\<lparr>sr_value := sr_value new, sr_updated_at := sr_updated_at new\<rparr>)
         \<lparr>sr_key = key, sr_value = v, sr_updated_at = timestamp\<rparr> (dd_states db)\<rparr>)))"

definition get_channels_pg :: "(control_db pg_world, json_record \<times> json_record) action" where
  "get_channels_pg =
     and_then (get_state_pg ''channels:safe'') (\<lambda>channels.
       ret (record_field channels ''destinations'', record_field channels ''sources''))"

definition get_credential_pg ::
  "vault \<Rightarrow> string \<Rightarrow> string \<Rightarrow> (control_db pg_world, vault_error + json option) action" where
  "get_credential_pg va encryptionKey name =
     with_client (and_then
       (pg_select (\<lambda>db. filter (\<lambda>r. cr_name r = name) (dd_credentials (cd_data db))))
       (\<lambda>rows. ret (case first_row rows of
          None \<Rightarrow> Inr None
        | Some row \<Rightarrow>
            (case decrypt_json va (cr_payload_encrypted row) encryptionKey of
               Inl e \<Rightarrow> Inl (Vault_Crypto e) | Inr v \<Rightarrow> Inr (Some v)))))"

definition get_login_status_pg :: "string \<Rightarrow> (control_db pg_world, login_view) action" where
  "get_login_status_pg platform =
     with_client (and_then
       (pg_select (\<lambda>db. filter (\<lambda>r. lo_platform r = platform) (dd_logins (cd_data db))))
       (\<lambda>rows. ret (case first_row rows of
          Some row \<Rightarrow>
            \<lparr>lv_expires_at = Some (lo_expires_at row), lv_last_error = lo_last_error row,
             lv_last_used_at = Some (lo_last_used_at row), lv_platform = platform,
             lv_session_status = lo_status row\<rparr>
        | None \<Rightarrow>
            \<lparr>lv_expires_at = None, lv_last_error = None, lv_last_used_at = None,
             lv_platform = platform, lv_session_status = ''none''\<rparr>)))"

definition get_queue_dlq_pg ::
  "(control_db pg_world, (item_kind \<Rightarrow> nat) \<times> (item_kind \<Rightarrow> dead_letter list)) action" where
  "get_queue_dlq_pg =
     with_client (and_then
       (pg_select (\<lambda>db. newest_dead_letters (lg_dead_letters (cd_ledger db))))
       (\<lambda>rows. let dlq = fold push_dead_letter rows (\<lambda>_. []) in ret (\<lambda>kind. length (dlq kind), dlq)))"

definition get_queue_summary_pg :: "(control_db pg_world, item_kind \<Rightarrow> queue_stats) action" where
  "get_queue_summary_pg =
     with_client (and_then
       (pg_select (\<lambda>db. group_counts job_group (lg_jobs (cd_ledger db)))) (\<lambda>jobs.
     and_then
       (pg_select (\<lambda>db. group_counts dl_item_kind (lg_dead_letters (cd_ledger db)))) (\<lambda>dead.
       ret (fold add_dead_group dead (fold add_job_group jobs empty_queue_summary)))))"

definition put_login_session_pg ::
  "vault \<Rightarrow> string \<Rightarrow> string \<Rightarrow> login_input \<Rightarrow> instant \<Rightarrow> (control_db pg_world, vault_error + unit) action" where
  "put_login_session_pg va encryptionKey platform input timestamp =
     (case encrypt_json va (li_state input) encryptionKey of
        Inl e \<Rightarrow> ret (Inl (Vault_Crypto e))
      | Inr encrypted \<Rightarrow>
          and_then (with_client (pg_execute (on_data (\<lambda>db. db\<lparr>dd_logins := tab_upsert lo_platform
               (\<lambda>old new. old\<lparr>lo_state_encrypted := lo_state_encrypted new,
                  lo_status := lo_status new, lo_expires_at := lo_expires_at new,
                  lo_last_used_at := lo_last_used_at new, lo_last_error := lo_last_error new,
                  lo_updated_at := lo_updated_at new\<rparr>)
               \<lparr>lo_platform = platform, lo_state_encrypted = encrypted, lo_status = li_status input,
                lo_expires_at = li_expires_at input, lo_last_used_at = timestamp,
                lo_last_error = li_last_error input, lo_created_at = timestamp, lo_updated_at = timestamp\<rparr>
               (dd_logins db)\<rparr>)))) (\<lambda>_. ret (Inr ())))"

definition record_article_event_pg :: "event_input \<Rightarrow> instant \<Rightarrow> (control_db pg_world, unit) action" where
  "record_article_event_pg event timestamp =
     with_client (pg_execute (on_data (\<lambda>db. db\<lparr>dd_events := dd_events db @ [(event, timestamp)]\<rparr>)))"

definition reject_invalid_job_pg :: "invalid_job \<Rightarrow> instant \<Rightarrow> (control_db pg_world, unit) action" where
  "reject_invalid_job_pg input timestamp =
     with_client (pg_execute (\<lambda>db. db\<lparr>cd_ledger := (cd_ledger db)\<lparr>lg_dead_letters := tab_insert_ignore dl_job_id
         \<lparr>dl_job_id = iv_message_id input, dl_dedupe_key = ''invalid:'' @ iv_message_id input,
          dl_kind = ''invalid'', dl_item_kind = None, dl_attempts = iv_attempts input,
          dl_error_class = Permanent, dl_error_message = js_slice 500 (iv_reason input),
          dl_payload_digest = iv_payload_digest input, dl_envelope_job_id = None,
          dl_created_at = timestamp\<rparr> (lg_dead_letters (cd_ledger db))\<rparr>\<rparr>))"

definition store_credential_pg ::
  "string \<Rightarrow> string \<Rightarrow> string \<Rightarrow> bytes \<Rightarrow> instant \<Rightarrow> (control_db pg_world, unit) action" where
  "store_credential_pg name platform kind encrypted timestamp =
     with_client (pg_execute (on_data (\<lambda>db. db\<lparr>dd_credentials := tab_upsert cr_name
         (\<lambda>old new. old\<lparr>cr_payload_encrypted := cr_payload_encrypted new, cr_platform := cr_platform new,
            cr_kind := cr_kind new, cr_updated_at := cr_updated_at new\<rparr>)
         \<lparr>cr_name = name, cr_platform = platform, cr_kind = kind,
          cr_payload_encrypted = encrypted, cr_created_at = timestamp, cr_updated_at = timestamp\<rparr>
         (dd_credentials db)\<rparr>)))"

definition write_cookie_pg ::
  "vault \<Rightarrow> string \<Rightarrow> string \<Rightarrow> json_record \<Rightarrow> instant \<Rightarrow> (control_db pg_world, vault_error + string) action" where
  "write_cookie_pg va encryptionKey platform payload timestamp =
     (case map_of [(''bilibili'', ''sessdata''), (''zhihu'', ''z_c0'')] platform of
        None \<Rightarrow> ret (Inl (Unsupported_Cookie_Platform platform))
      | Some field \<Rightarrow>
          (case json_get payload field of
             Some (JStr value) \<Rightarrow>
               if value = [] then ret (Inl (Missing_Cookie_Field field))
               else (case encrypt_json va (JObj [(field, JStr value)]) encryptionKey of
                   Inl e \<Rightarrow> ret (Inl (Vault_Crypto e))
                 | Inr encrypted \<Rightarrow>
                     and_then (store_credential_pg (platform @ ''_creds'') platform ''cookie'' encrypted timestamp)
                       (\<lambda>_. ret (Inr (platform @ ''_creds''))))
           | _ \<Rightarrow> ret (Inl (Missing_Cookie_Field field))))"

definition save_inoreader_session_pg ::
  "vault \<Rightarrow> string \<Rightarrow> json_record \<Rightarrow> instant \<Rightarrow> (control_db pg_world, vault_error + unit) action" where
  "save_inoreader_session_pg va encryptionKey state timestamp =
     (case encrypt_json va (JObj state) encryptionKey of
        Inl e \<Rightarrow> ret (Inl (Vault_Crypto e))
      | Inr encrypted \<Rightarrow>
          and_then (store_credential_pg ''inoreader_creds'' ''inoreader'' ''session'' encrypted timestamp)
            (\<lambda>_. ret (Inr ())))"

section \<open>A client that was taken is given back\<close>

lemma store_credential_same_clients: "same_clients (store_credential_pg name platform kind encrypted t)"
  unfolding store_credential_pg_def by (intro same_clients_rules)

lemma data_operations_same_clients:
  "same_clients (get_state_pg key)" "same_clients (put_state_pg key v t)"
  "same_clients get_channels_pg" "same_clients (get_credential_pg va k name)"
  "same_clients (get_login_status_pg platform)" "same_clients get_queue_dlq_pg"
  "same_clients get_queue_summary_pg" "same_clients (record_article_event_pg event t)"
  "same_clients (reject_invalid_job_pg invalid t)"
  unfolding get_state_pg_def put_state_pg_def get_channels_pg_def get_credential_pg_def
    get_login_status_pg_def get_queue_dlq_pg_def get_queue_summary_pg_def Let_def
    record_article_event_pg_def reject_invalid_job_pg_def
  by (intro same_clients_rules)+

lemma login_session_same_clients: "same_clients (put_login_session_pg va k platform input t)"
  unfolding put_login_session_pg_def
  by (cases "encrypt_json va (li_state input) k") (simp_all only: sum.case, (intro same_clients_rules)+)

lemma cookie_same_clients: "same_clients (write_cookie_pg va k platform payload t)"
  unfolding write_cookie_pg_def
  by (auto simp only: split: option.split json.split sum.split if_split
        intro!: same_clients_rules store_credential_same_clients)

lemma session_same_clients: "same_clients (save_inoreader_session_pg va k state t)"
  unfolding save_inoreader_session_pg_def
  by (auto simp only: split: sum.split intro!: same_clients_rules store_credential_same_clients)

text \<open>However a data operation over PostgreSQL ends, with its statements refused or their answers
  lost, the client it took is back in the pool: the number of clients that are out is what it was.\<close>

lemma data_clients_are_returned:
  "pw_clients (fst (get_state_pg key w)) = pw_clients w
   \<and> pw_clients (fst (put_state_pg key v t w)) = pw_clients w
   \<and> pw_clients (fst (get_channels_pg w)) = pw_clients w
   \<and> pw_clients (fst (get_credential_pg va k name w)) = pw_clients w
   \<and> pw_clients (fst (get_login_status_pg platform w)) = pw_clients w
   \<and> pw_clients (fst (get_queue_dlq_pg w)) = pw_clients w
   \<and> pw_clients (fst (get_queue_summary_pg w)) = pw_clients w
   \<and> pw_clients (fst (put_login_session_pg va k platform input t w)) = pw_clients w
   \<and> pw_clients (fst (record_article_event_pg event t w)) = pw_clients w
   \<and> pw_clients (fst (reject_invalid_job_pg invalid t w)) = pw_clients w
   \<and> pw_clients (fst (write_cookie_pg va k platform payload t w)) = pw_clients w
   \<and> pw_clients (fst (save_inoreader_session_pg va k state t w)) = pw_clients w"
  by (intro conjI same_clientsD data_operations_same_clients login_session_same_clients
      cookie_same_clients session_same_clients)

section \<open>Without faults the pool does what D1 does\<close>

lemmas calm_simps = calm_pool_simps on_data_def

lemma get_state_calm:
  "get_state_pg key (calm_pool db n) = (calm_pool db n, Inr (get_state key (cd_data db)))"
  by (simp add: calm_simps get_state_pg_def get_state_def)

lemma put_state_calm:
  "put_state_pg key v t (calm_pool db n) = (calm_pool (on_data (put_state key v t) db) n, Inr ())"
  by (simp add: calm_simps put_state_pg_def put_state_def)

lemma get_channels_calm:
  "get_channels_pg (calm_pool db n) = (calm_pool db n, Inr (get_channels (cd_data db)))"
  by (simp add: get_channels_pg_def and_then_def get_state_calm ret_def get_channels_def Let_def)

lemma get_credential_calm:
  "get_credential_pg va k name (calm_pool db n) = (calm_pool db n, Inr (get_credential va k name (cd_data db)))"
  by (simp add: calm_simps get_credential_pg_def get_credential_def)

lemma get_login_status_calm:
  "get_login_status_pg platform (calm_pool db n) = (calm_pool db n, Inr (get_login_status platform (cd_data db)))"
  by (simp add: calm_simps get_login_status_pg_def get_login_status_def)

lemma queue_views_calm:
  "get_queue_dlq_pg (calm_pool db n) = (calm_pool db n, Inr (get_queue_dlq (cd_ledger db)))"
  "get_queue_summary_pg (calm_pool db n) = (calm_pool db n, Inr (get_queue_summary (cd_ledger db)))"
  by (simp_all add: calm_simps get_queue_dlq_pg_def get_queue_dlq_def get_queue_summary_pg_def
      get_queue_summary_def Let_def)

lemma store_credential_calm:
  "store_credential_pg name platform kind encrypted t (calm_pool db n)
     = (calm_pool (on_data (put_credential name platform kind encrypted t) db) n, Inr ())"
  by (simp add: calm_simps store_credential_pg_def put_credential_def merge_credential_def [abs_def])

definition after_data ::
  "(data_db \<Rightarrow> data_db \<times> 'r) \<Rightarrow> control_db \<Rightarrow> nat \<Rightarrow> control_db pg_world \<times> (thrown + 'r)" where
  "after_data f db n = (case f (cd_data db) of (d, r) \<Rightarrow> (calm_pool (db\<lparr>cd_data := d\<rparr>) n, Inr r))"

lemma put_login_session_calm:
  "put_login_session_pg va k platform input t (calm_pool db n)
     = after_data (put_login_session va k platform input t) db n"
  by (cases "encrypt_json va (li_state input) k")
    (simp_all add: calm_simps put_login_session_pg_def put_login_session_def after_data_def)

lemma write_cookie_calm:
  "write_cookie_pg va k platform payload t (calm_pool db n)
     = after_data (write_cookie va k platform payload t) db n"
  by (simp add: write_cookie_pg_def write_cookie_def cookie_fields_def after_data_def and_then_def ret_def
      store_credential_calm on_data_def Let_def split: option.split json.split sum.split)

lemma save_inoreader_session_calm:
  "save_inoreader_session_pg va k state t (calm_pool db n)
     = after_data (save_inoreader_session_credential_pg va k state t) db n"
  by (simp add: save_inoreader_session_pg_def save_inoreader_session_credential_pg_def after_data_def
      and_then_def ret_def store_credential_calm on_data_def split: sum.split)

lemma record_article_event_calm:
  "record_article_event_pg event t (calm_pool db n)
     = (calm_pool (on_data (record_article_event event t) db) n, Inr ())"
  by (simp add: calm_simps record_article_event_pg_def record_article_event_def)

lemma reject_invalid_job_calm:
  "reject_invalid_job_pg invalid t (calm_pool db n)
     = (calm_pool (db\<lparr>cd_ledger := reject_invalid_job invalid t (cd_ledger db)\<rparr>) n, Inr ())"
  by (simp add: calm_simps reject_invalid_job_pg_def reject_invalid_job_def)

text \<open>Without faults of the connection every data operation over PostgreSQL answers and leaves the
  tables as its twin over D1 does, and the client it used is back.\<close>

lemma data_backends_agree:
  "get_state_pg key (calm_pool db n) = (calm_pool db n, Inr (get_state key (cd_data db)))
   \<and> put_state_pg key v t (calm_pool db n) = (calm_pool (on_data (put_state key v t) db) n, Inr ())
   \<and> get_channels_pg (calm_pool db n) = (calm_pool db n, Inr (get_channels (cd_data db)))
   \<and> get_credential_pg va k name (calm_pool db n)
       = (calm_pool db n, Inr (get_credential va k name (cd_data db)))
   \<and> get_login_status_pg platform (calm_pool db n)
       = (calm_pool db n, Inr (get_login_status platform (cd_data db)))
   \<and> get_queue_dlq_pg (calm_pool db n) = (calm_pool db n, Inr (get_queue_dlq (cd_ledger db)))
   \<and> get_queue_summary_pg (calm_pool db n) = (calm_pool db n, Inr (get_queue_summary (cd_ledger db)))
   \<and> put_login_session_pg va k platform input t (calm_pool db n)
       = after_data (put_login_session va k platform input t) db n
   \<and> write_cookie_pg va k platform payload t (calm_pool db n)
       = after_data (write_cookie va k platform payload t) db n
   \<and> record_article_event_pg event t (calm_pool db n)
       = (calm_pool (on_data (record_article_event event t) db) n, Inr ())
   \<and> reject_invalid_job_pg invalid t (calm_pool db n)
       = (calm_pool (db\<lparr>cd_ledger := reject_invalid_job invalid t (cd_ledger db)\<rparr>) n, Inr ())"
  by (simp only: record_article_event_calm reject_invalid_job_calm get_state_calm put_state_calm get_channels_calm get_credential_calm
      get_login_status_calm queue_views_calm put_login_session_calm write_cookie_calm)

end
