(* ===== verification/Operations_Pg.thy ===== *)
theory Operations_Pg
  imports Operations Heartbeats Pg_Pool
begin

text \<open>
  The operations service over PostgreSQL, \<open>apps/api/src/operations-postgres.ts\<close>: the snapshot store,
  the overview with the worker's latest heartbeat (from the cache of \<open>heartbeat-cache.ts\<close> or from the
  table), and the request of a run, whose row is written and, when the publication fails, marked in
  transactions of their own (theory \<open>Pg_Pool\<close>). What is computed from the rows is what the service
  over D1 computes (theory \<open>Operations\<close>).
\<close>

section \<open>State\<close>

record operations_tables =
  ot_snapshot :: "(overview \<times> instant) option"
  ot_sync_jobs :: "sync_row list"
  ot_heartbeats :: "heartbeat list"

text \<open>The database behind its pool, the cache, what the queue took, and the clock with the number of
  times it was read.\<close>

record og_world =
  og_pg :: "operations_tables pg_world"
  og_redis :: redis
  og_sent :: "queue_job list list"
  og_clock :: "nat \<Rightarrow> instant"
  og_ticks :: nat

definition on_pg :: "(operations_tables pg_world, 'a) action \<Rightarrow> (og_world, 'a) action" where
  "on_pg act w = (case act (og_pg w) of (p, r) \<Rightarrow> (w\<lparr>og_pg := p\<rparr>, r))"

definition og_now :: "(og_world, instant) action" where
  "og_now w = (w\<lparr>og_ticks := Suc (og_ticks w)\<rparr>, Inr (og_clock w (og_ticks w)))"

text \<open>What becomes of the two requests to the cache, and the time at its server; without a cache both
  requests are lost.\<close>

record cache_fate =
  cf_get :: delivery
  cf_set :: delivery
  cf_clock :: instant

section \<open>Operations\<close>

definition read_snapshot_pg :: "(og_world, overview option) action" where
  "read_snapshot_pg =
     on_pg (with_client (and_then
       (pg_select (\<lambda>db. case ot_snapshot db of None \<Rightarrow> [] | Some row \<Rightarrow> [row]))
       (\<lambda>rows. ret (map_option fst (first_row rows)))))"

definition replace_snapshot_pg :: "overview \<Rightarrow> (og_world, unit) action" where
  "replace_snapshot_pg snapshot =
     and_then og_now (\<lambda>t.
       on_pg (with_client (pg_execute (\<lambda>db. db\<lparr>ot_snapshot := Some (snapshot, t)\<rparr>))))"

definition list_sync_jobs_pg :: "nat \<Rightarrow> (og_world, sync_row list) action" where
  "list_sync_jobs_pg limit =
     on_pg (with_client
       (pg_select (\<lambda>db. take limit (sort_key (\<lambda>r. - sy_started_at r) (ot_sync_jobs db)))))"

definition fetch_worker_heartbeat :: "cache_fate \<Rightarrow> instant \<Rightarrow> (og_world, cached_heartbeat option) action" where
  "fetch_worker_heartbeat cf now =
     and_then (on_pg (with_client (pg_select (\<lambda>db.
         case latest_heartbeat (ot_heartbeats db) of None \<Rightarrow> [] | Some h \<Rightarrow> [h]))))
       (\<lambda>rows. and_then
         (modify (\<lambda>w. w\<lparr>og_redis := cache_fresh_heartbeat (cf_set cf) (cf_clock cf)
                          (first_row rows) now (og_redis w)\<rparr>))
         (\<lambda>_. ret (map_option as_cached (first_row rows))))"

definition read_worker_heartbeat :: "cache_fate \<Rightarrow> instant \<Rightarrow> (og_world, cached_heartbeat option) action" where
  "read_worker_heartbeat cf now w =
     (let cached = cache_get (cf_get cf) (cf_clock cf) (og_redis w)
      in if (case cached of None \<Rightarrow> False | Some h \<Rightarrow> is_fresh_heartbeat h now) then (w, Inr cached)
         else fetch_worker_heartbeat cf now w)"

definition get_overview_pg :: "cache_fate \<Rightarrow> bool \<Rightarrow> (og_world, overview) action" where
  "get_overview_pg cf schedulerEnabled =
     and_then read_snapshot_pg (\<lambda>stored.
     and_then (case stored of Some s \<Rightarrow> ret s
               | None \<Rightarrow> and_then og_now (\<lambda>t. ret (empty_overview t schedulerEnabled))) (\<lambda>snapshot.
     and_then (list_sync_jobs_pg 10) (\<lambda>currentJobs.
     and_then og_now (\<lambda>t.
     and_then (read_worker_heartbeat cf t) (\<lambda>heartbeat.
     and_then og_now (\<lambda>now.
       ret (normalize_overview_status
         (snapshot\<lparr>ov_sync_jobs := take 10 (merge_sync_jobs (currentJobs @ ov_sync_jobs snapshot)),
                   ov_worker := resolve_worker_heartbeat (ov_worker snapshot)
                     (Option.bind heartbeat ch_seen)\<rparr>)
         now schedulerEnabled)))))))"

definition list_article_events_pg :: "cache_fate \<Rightarrow> bool \<Rightarrow> nat \<Rightarrow> (og_world, article_event list) action" where
  "list_article_events_pg cf schedulerEnabled limit =
     and_then (get_overview_pg cf schedulerEnabled) (\<lambda>ov. ret (take limit (ov_article_events ov)))"

definition insert_sync_job :: "sync_row \<Rightarrow> operations_tables \<Rightarrow> operations_tables" where
  "insert_sync_job row db = db\<lparr>ot_sync_jobs := ot_sync_jobs db @ [row]\<rparr>"

definition mark_sync_failed :: "string \<Rightarrow> string \<Rightarrow> instant \<Rightarrow> operations_tables \<Rightarrow> operations_tables" where
  "mark_sync_failed syncJobId reason t db =
     db\<lparr>ot_sync_jobs := tab_update (\<lambda>r. sy_id r = syncJobId)
          (\<lambda>r. r\<lparr>sy_error := Some reason, sy_finished_at := Some t, sy_status := ''failed''\<rparr>)
          (ot_sync_jobs db)\<rparr>"

definition publish_run ::
  "sync_env \<Rightarrow> (producer_error \<Rightarrow> string) \<Rightarrow> string \<Rightarrow> source_name list \<Rightarrow> queue_job list
   \<Rightarrow> (og_world, sync_error + source_name list) action" where
  "publish_run env message syncJobId sources jobs w =
     (case send_batch (se_formats env) (se_byte_length env) (se_accepts env) (map json_of_job jobs) of
        (sent, None) \<Rightarrow> (w\<lparr>og_sent := og_sent w @ sent\<rparr>, Inr (Inr sources))
      | (sent, Some e) \<Rightarrow>
          and_then og_now (\<lambda>t.
          and_then (on_pg (with_transaction (pg_execute (mark_sync_failed syncJobId (message e) t)))) (\<lambda>_.
            ret (Inl (Sync_Publish_Failed e)))) (w\<lparr>og_sent := og_sent w @ sent\<rparr>))"

definition new_sync_row :: "sync_env \<Rightarrow> instant \<Rightarrow> source_name list \<Rightarrow> triggered_by \<Rightarrow> queue_job list \<Rightarrow> sync_row" where
  "new_sync_row env createdAt sources triggeredBy jobs =
     \<lparr>sy_error = None, sy_finished_at = (if jobs = [] then Some createdAt else None),
      sy_id = se_uuid env 0, sy_started_at = createdAt,
      sy_stats = [(''queued'', JObj (map (\<lambda>s. (source_string s, JNum 1)) sources))],
      sy_status = (if jobs = [] then ''done'' else ''running''),
      sy_triggered_by = (if triggeredBy = Trigger_Schedule then ''scheduler'' else ''manual'')\<rparr>"

definition start_run ::
  "sync_env \<Rightarrow> triggered_by \<Rightarrow> (producer_error \<Rightarrow> string) \<Rightarrow> instant \<Rightarrow> source_name list
   \<Rightarrow> (og_world, sync_error + source_name list) action" where
  "start_run env triggeredBy message createdAt sources =
     (case sequence_options (build_collection_jobs (se_formats env) (se_iso env createdAt)
             (\<lambda>i. se_uuid env (i + 1)) (se_uuid env 0) (se_shadow_mode env) sources triggeredBy) of
        None \<Rightarrow> ret (Inl Sync_Job_Invalid)
      | Some jobs \<Rightarrow>
          and_then (on_pg (with_transaction (pg_execute
              (insert_sync_job (new_sync_row env createdAt sources triggeredBy jobs)))))
            (\<lambda>_. publish_run env message (se_uuid env 0) sources jobs))"

definition request_sync_pg ::
  "sync_env \<Rightarrow> cache_fate \<Rightarrow> triggered_by \<Rightarrow> (producer_error \<Rightarrow> string)
   \<Rightarrow> (og_world, sync_error + source_name list) action" where
  "request_sync_pg env cf triggeredBy message =
     and_then og_now (\<lambda>createdAt.
     and_then (get_overview_pg cf (se_scheduler_enabled env)) (\<lambda>overview.
       start_run env triggeredBy message createdAt (enabled_sources overview)))"

section \<open>Lemmas\<close>

text \<open>What the reads leave as it is: the tables, the pool but for its faults, and the queue.\<close>

definition og_rest :: "og_world \<Rightarrow> operations_tables \<times> nat \<times> operations_tables option \<times> queue_job list list" where
  "og_rest w = (pw_db (og_pg w), pw_clients (og_pg w), pw_undo (og_pg w), og_sent w)"

lemma read_keeps:
  "keeps (\<lambda>w. og_rest w = x) (on_pg (with_client (pg_select f)))"
  "keeps (\<lambda>w. og_rest w = x) (on_pg (with_client (and_then (pg_select f) (\<lambda>rows. ret (g rows)))))"
  by (auto simp: keeps_def og_rest_def on_pg_def with_client_def and_then_def pg_connect_def pg_select_def
      finally_do_def pg_release_def ret_def split: prod.split sum.split)

lemma clock_keeps: "keeps (\<lambda>w. og_rest w = x) og_now"
  by (simp add: keeps_def og_now_def og_rest_def)

lemma og_rest_redis [simp]: "og_rest (w\<lparr>og_redis := r\<rparr>) = og_rest w"
  by (simp add: og_rest_def)

lemma heartbeat_keeps: "keeps (\<lambda>w. og_rest w = x) (read_worker_heartbeat cf now)"
proof -
  have "keeps (\<lambda>w. og_rest w = x) (fetch_worker_heartbeat cf now)"
    unfolding fetch_worker_heartbeat_def by (intro keeps_intros read_keeps) simp
  then show ?thesis by (simp add: keeps_def read_worker_heartbeat_def Let_def)
qed

lemma overview_keeps: "keeps (\<lambda>w. og_rest w = x) (get_overview_pg cf sched)"
  unfolding get_overview_pg_def read_snapshot_pg_def list_sync_jobs_pg_def
  by (intro keeps_intros read_keeps clock_keeps heartbeat_keeps) (auto split: option.split intro!: keeps_intros clock_keeps)

lemma on_pg_transaction:
  assumes "pw_undo (og_pg w) = None" and "on_pg (with_transaction (pg_execute g)) w = (w', r)"
  shows "pw_db (og_pg w') = g (pw_db (og_pg w)) \<or> pw_db (og_pg w') = pw_db (og_pg w) \<and> r \<noteq> Inr ()"
    and "pw_undo (og_pg w') = None" and "pw_clients (og_pg w') = pw_clients (og_pg w)"
    and "og_sent w' = og_sent w"
  using assms one_statement_transaction [of "og_pg w" g]
  by (auto simp: on_pg_def split: prod.splits)

definition sync_rows :: "og_world \<Rightarrow> sync_row list" where
  "sync_rows w = ot_sync_jobs (pw_db (og_pg w))"

lemma publish_run_outcome:
  assumes "pw_undo (og_pg w) = None" and "publish_run env message i sources jobs w = (w', r)"
    and "sync_rows w = old @ [row]" and "sy_id row = i"
  shows "map sy_id (sync_rows w') = map sy_id old @ [i]"
    and "case r of Inr (Inr s) \<Rightarrow> s = sources \<and> sync_rows w' = sync_rows w
         | Inr (Inl e) \<Rightarrow> sy_status (last (sync_rows w')) = ''failed'' | Inl e \<Rightarrow> True"
    and "pw_clients (og_pg w') = pw_clients (og_pg w)" and "pw_undo (og_pg w') = None"
proof -
  obtain sent e where sb: "send_batch (se_formats env) (se_byte_length env) (se_accepts env)
      (map json_of_job jobs) = (sent, e)" by force
  have "map sy_id (sync_rows w') = map sy_id old @ [i]
    \<and> (case r of Inr (Inr s) \<Rightarrow> s = sources \<and> sync_rows w' = sync_rows w
         | Inr (Inl e) \<Rightarrow> sy_status (last (sync_rows w')) = ''failed'' | Inl e \<Rightarrow> True)
    \<and> pw_clients (og_pg w') = pw_clients (og_pg w) \<and> pw_undo (og_pg w') = None"
  proof (cases e)
    case None
    then show ?thesis using assms sb by (auto simp: publish_run_def sync_rows_def)
  next
    case (Some err)
    define v where "v = w\<lparr>og_sent := og_sent w @ sent, og_ticks := Suc (og_ticks w)\<rparr>"
    define g where "g = mark_sync_failed i (message err) (og_clock w (og_ticks w))"
    obtain u q where tx: "on_pg (with_transaction (pg_execute g)) v = (u, q)" by force
    have v: "pw_undo (og_pg v) = None" "sync_rows v = old @ [row]" "pw_clients (og_pg v) = pw_clients (og_pg w)"
      using assms by (simp_all add: v_def sync_rows_def)
    note facts = on_pg_transaction [OF v(1) tx]
    have marked: "map sy_id (ot_sync_jobs (g db)) = map sy_id (ot_sync_jobs db)"
      and last: "ot_sync_jobs db = old @ [row] \<Longrightarrow> sy_status (List.last (ot_sync_jobs (g db))) = ''failed''" for db
      using assms(4) by (auto simp: g_def mark_sync_failed_def tab_update_def)
    have "(w', r) = (u, case q of Inl x \<Rightarrow> Inl x | Inr _ \<Rightarrow> Inr (Inl (Sync_Publish_Failed err)))"
      using assms(2) sb Some tx by (simp add: publish_run_def and_then_def og_now_def v_def g_def ret_def split: sum.splits)
    moreover have "map sy_id (sync_rows u) = map sy_id old @ [i]"
      using facts(1) v(2) marked assms(4) by (auto simp: sync_rows_def)
    moreover have "q = Inr () \<Longrightarrow> sy_status (List.last (sync_rows u)) = ''failed''"
      using facts(1) v(2) last by (auto simp: sync_rows_def)
    ultimately show ?thesis using facts(2,3) v(3) by (auto split: sum.splits)
  qed
  then show "map sy_id (sync_rows w') = map sy_id old @ [i]"
    and "case r of Inr (Inr s) \<Rightarrow> s = sources \<and> sync_rows w' = sync_rows w
         | Inr (Inl e) \<Rightarrow> sy_status (last (sync_rows w')) = ''failed'' | Inl e \<Rightarrow> True"
    and "pw_clients (og_pg w') = pw_clients (og_pg w)" and "pw_undo (og_pg w') = None"
    by blast+
qed

text \<open>What a request leaves: nothing of the run, or its row, which is committed before anything is sent.\<close>

definition run_recorded :: "string \<Rightarrow> og_world \<Rightarrow> og_world \<Rightarrow> thrown + (sync_error + source_name list) \<Rightarrow> bool" where
  "run_recorded i w w' r \<longleftrightarrow>
     sync_rows w' = sync_rows w \<and> og_sent w' = og_sent w \<and> (\<forall>s. r \<noteq> Inr (Inr s))
     \<or> map sy_id (sync_rows w') = map sy_id (sync_rows w) @ [i]
       \<and> (case r of
            Inr (Inr sources) \<Rightarrow>
              sy_status (last (sync_rows w')) = (if sources = [] then ''done'' else ''running'')
              \<and> sy_stats (last (sync_rows w')) = initial_stats (map source_string sources)
          | Inr (Inl e) \<Rightarrow> sy_status (last (sync_rows w')) = ''failed''
          | Inl e \<Rightarrow> True)"

lemma start_run_recorded:
  assumes "pw_undo (og_pg u) = None"
    and "start_run env trig message createdAt sources u = (w', r)"
  shows "run_recorded (se_uuid env 0) u w' r \<and> pw_undo (og_pg w') = None
     \<and> pw_clients (og_pg w') = pw_clients (og_pg u)"
proof (cases "sequence_options (build_collection_jobs (se_formats env) (se_iso env createdAt)
      (\<lambda>i. se_uuid env (i + 1)) (se_uuid env 0) (se_shadow_mode env) sources trig)")
  case None
  then show ?thesis using assms by (auto simp: start_run_def ret_def run_recorded_def)
next
  case (Some jobs)
  then have empty: "jobs = [] \<longleftrightarrow> sources = []"
    using length_build [of _ _ _ _ _ sources] by (metis length_0_conv length_map sequence_options_Some)
  define row where "row = new_sync_row env createdAt sources trig jobs"
  have row: "sy_id row = se_uuid env 0" "sy_stats row = initial_stats (map source_string sources)"
      "sy_status row = (if sources = [] then ''done'' else ''running'')"
    by (simp_all add: row_def new_sync_row_def initial_stats_def comp_def empty)
  obtain t q where tx: "on_pg (with_transaction (pg_execute (insert_sync_job row))) u = (t, q)" by force
  note facts = on_pg_transaction [OF assms(1) tx]
  have stored: "sync_rows t = sync_rows u @ [row] \<or> sync_rows t = sync_rows u \<and> q \<noteq> Inr ()"
    using facts(1) by (auto simp: sync_rows_def insert_sync_job_def)
  have run: "and_then (on_pg (with_transaction (pg_execute (insert_sync_job row))))
      (\<lambda>_. publish_run env message (se_uuid env 0) sources jobs) u = (w', r)"
    using assms(2) unfolding start_run_def Some option.case row_def .
  show ?thesis
  proof (cases q)
    case (Inl e)
    then have "w' = t" "r = Inl e" using run tx by (simp_all add: and_then_def)
    then show ?thesis using stored facts row by (auto simp: run_recorded_def)
  next
    case (Inr x)
    then have t: "sync_rows t = sync_rows u @ [row]" using stored by auto
    have "publish_run env message (se_uuid env 0) sources jobs t = (w', r)"
      using run tx Inr by (simp add: and_then_def)
    note out = publish_run_outcome [OF facts(2) this t row(1)]
    show ?thesis using out facts t row by (auto simp: run_recorded_def split: sum.splits)
  qed
qed

text \<open>C30: Whatever requests to the database are refused or lose their answer, a run is sent to the queue
  only after its row is committed: without a row nothing was sent and the request did not succeed;
  a request that succeeds leaves one row of the run with its sources, running (or done, when no source
  is enabled); one that reports a failed publication leaves that row failed. No transaction stays
  open and every client is given back.\<close>

theorem run_is_stored_before_it_is_sent:
  assumes "pw_undo (og_pg w) = None" and "request_sync_pg env cf trig message w = (w', r)"
  shows "(sync_rows w' = sync_rows w \<and> og_sent w' = og_sent w \<and> (\<forall>s. r \<noteq> Inr (Inr s))
     \<or> map sy_id (sync_rows w') = map sy_id (sync_rows w) @ [se_uuid env 0]
       \<and> (case r of
            Inr (Inr sources) \<Rightarrow>
              sy_status (last (sync_rows w')) = (if sources = [] then ''done'' else ''running'')
              \<and> sy_stats (last (sync_rows w')) = initial_stats (map source_string sources)
          | Inr (Inl e) \<Rightarrow> sy_status (last (sync_rows w')) = ''failed''
          | Inl e \<Rightarrow> True))
     \<and> pw_undo (og_pg w') = None \<and> pw_clients (og_pg w') = pw_clients (og_pg w)"
proof -
  define v where "v = w\<lparr>og_ticks := Suc (og_ticks w)\<rparr>"
  obtain u o_r where ov: "get_overview_pg cf (se_scheduler_enabled env) v = (u, o_r)" by force
  have "og_rest u = og_rest w"
    using keepsD [OF overview_keeps, of v "og_rest v" cf "se_scheduler_enabled env"] ov
    by (simp add: v_def og_rest_def)
  then have u: "sync_rows u = sync_rows w" "og_sent u = og_sent w" "pw_undo (og_pg u) = None"
      "pw_clients (og_pg u) = pw_clients (og_pg w)"
    using assms(1) by (simp_all add: og_rest_def sync_rows_def)
  have run: "(w', r) = (case o_r of Inl e \<Rightarrow> (u, Inl e)
      | Inr o_v \<Rightarrow> start_run env trig message (og_clock w (og_ticks w)) (enabled_sources o_v) u)"
    using assms(2) ov by (simp add: request_sync_pg_def and_then_def og_now_def v_def split: sum.splits)
  show ?thesis
  proof (cases o_r)
    case (Inl e)
    then show ?thesis using run u by simp
  next
    case (Inr o_v)
    with run have "start_run env trig message (og_clock w (og_ticks w)) (enabled_sources o_v) u = (w', r)" by simp
    from start_run_recorded [OF u(3) this] show ?thesis
      unfolding run_recorded_def u .
  qed
qed

text \<open>A request over a calm pool, without a configuration: a run without sources is recorded as done.\<close>

definition quiet_world :: og_world where
  "quiet_world = \<lparr>og_pg = calm_pool \<lparr>ot_snapshot = None, ot_sync_jobs = [], ot_heartbeats = []\<rparr> 0,
     og_redis = None, og_sent = [], og_clock = (\<lambda>n. int n), og_ticks = 0\<rparr>"

definition sample_sync_env :: sync_env where
  "sample_sync_env = \<lparr>se_formats = sample_formats, se_iso = (\<lambda>_. ''t''), se_uuid = (\<lambda>_. ''u''),
     se_byte_length = (\<lambda>_. 1), se_accepts = (\<lambda>_. True), se_scheduler_enabled = False, se_shadow_mode = False\<rparr>"

lemma quiet_request:
  "snd (request_sync_pg sample_sync_env \<lparr>cf_get = Lost_Request, cf_set = Lost_Request, cf_clock = 0\<rparr>
     Trigger_Manual message quiet_world) = Inr (Inr [])"
proof -
  have s: "enabled_sources (normalize_overview_status (empty_overview t b\<lparr>ov_sync_jobs := js, ov_worker := v\<rparr>) t' b) = []"
    for t t' b js v
    by (simp add: enabled_sources_def normalize_overview_status_def empty_overview_def)
  have b: "build_collection_jobs fmt t uu i sh [] trig = []" for fmt t uu i sh trig
    by (simp add: build_collection_jobs_def enumerate_eq_zip)
  show ?thesis
  by (simp add: request_sync_pg_def and_then_def og_now_def get_overview_pg_def read_snapshot_pg_def on_pg_def
      with_client_def quiet_world_def calm_requests finally_do_def ret_def list_sync_jobs_pg_def
      read_worker_heartbeat_def fetch_worker_heartbeat_def cache_get_def modify_def first_row_def s
      start_run_def b sample_sync_env_def calm_transaction publish_run_def send_batch_def)
qed

theorem run_is_stored_before_it_is_sent_witness:
  "case request_sync_pg sample_sync_env \<lparr>cf_get = Lost_Request, cf_set = Lost_Request, cf_clock = 0\<rparr>
       Trigger_Manual (\<lambda>_. []) quiet_world of
     (w', r) \<Rightarrow> r = Inr (Inr []) \<and> map sy_id (sync_rows w') = [''u'']
       \<and> sy_status (last (sync_rows w')) = ''done''"
  using run_is_stored_before_it_is_sent [of quiet_world sample_sync_env
      "\<lparr>cf_get = Lost_Request, cf_set = Lost_Request, cf_clock = 0\<rparr>" Trigger_Manual "\<lambda>_. []"]
    quiet_request [of "\<lambda>_. []"]
  by (cases "request_sync_pg sample_sync_env \<lparr>cf_get = Lost_Request, cf_set = Lost_Request, cf_clock = 0\<rparr>
      Trigger_Manual (\<lambda>_. []) quiet_world")
    (simp add: quiet_world_def calm_pool_def sync_rows_def sample_sync_env_def)

end
