(* ===== verification/Socks_Protocol.thy ===== *)
theory Socks_Protocol
  imports Actions Web_Url "HOL-Library.Word"
begin

text \<open>
  The endpoints and the SOCKS5 handshake of \<open>apps/worker/src/outbound-proxy.ts\<close>: the addresses and
  authorities it accepts, the reader that takes exactly so many bytes from a socket, the bytes of a
  connect request, and the handshake over a socket. A socket is written and read through
  operations on the threaded state; the decoder of a request is that of RFC 1928.
\<close>

type_synonym byte = "8 word"

section \<open>IPv4 addresses\<close>

text \<open>\<open>isIP(text) === 4\<close>: four decimal numbers up to 255 without leading zeros.\<close>

definition is_octet :: "string \<Rightarrow> bool" where
  "is_octet p = (p \<noteq> [] \<and> length p \<le> 3 \<and> list_all is_digit p \<and> (hd p = CHR ''0'' \<longrightarrow> length p = 1)
     \<and> decimal_value p \<le> 255)"

definition is_ipv4 :: "string \<Rightarrow> bool" where
  "is_ipv4 s = (let ps = split_on CHR ''.'' s in length ps = 4 \<and> list_all is_octet ps)"

section \<open>Endpoints\<close>

record endpoint =
  ep_hostname :: string
  ep_port :: nat

definition bad_authority :: thrown where
  "bad_authority = Thrown_Error ''invalid CONNECT authority''"

text \<open>\<open>new URL\<close> throws a \<open>TypeError\<close> on a text that is no URL.\<close>

definition invalid_url :: thrown where
  "invalid_url = Thrown_TypeError ''Invalid URL''"

definition valid_port :: "nat option \<Rightarrow> bool" where
  "valid_port p = (case p of None \<Rightarrow> False | Some n \<Rightarrow> 1 \<le> n \<and> n \<le> 65535)"

definition parse_connect_authority :: "url_parser \<Rightarrow> string \<Rightarrow> thrown + endpoint" where
  "parse_connect_authority parse_url authority =
     (if authority = [] \<or> list_ex (\<lambda>c. is_space c \<or> c \<in> set ''/@?#'') authority then Inl bad_authority
      else case parse_url (''http://'' @ authority) of
        None \<Rightarrow> Inl invalid_url
      | Some u \<Rightarrow>
          if ur_hostname u = [] \<or> \<not> valid_port (port_number u) then Inl bad_authority
          else Inr \<lparr>ep_hostname = ur_hostname u, ep_port = the (port_number u)\<rparr>)"

definition parse_socks_proxy_url :: "url_parser \<Rightarrow> string \<Rightarrow> thrown + endpoint" where
  "parse_socks_proxy_url parse_url v =
     (case parse_url v of
        None \<Rightarrow> Inl invalid_url
      | Some u \<Rightarrow>
          if ur_protocol u \<noteq> ''socks5:'' \<or> ur_username u \<noteq> [] \<or> ur_password u \<noteq> []
             \<or> ur_pathname u \<noteq> [] \<or> ur_search u \<noteq> [] \<or> ur_hash u \<noteq> [] \<or> ur_hostname u = []
             \<or> \<not> valid_port (port_number u)
          then Inl (Thrown_Error ''WARP SOCKS proxy URL must be socks5://host:port without credentials'')
          else Inr \<lparr>ep_hostname = ur_hostname u, ep_port = the (port_number u)\<rparr>)"

section \<open>Reading exactly so many bytes\<close>

text \<open>
  What the socket reports while \<open>readExactly\<close> listens: it is readable, with the answers of the
  calls of \<open>socket.read(remaining)\<close> up to the \<open>null\<close>, it was closed, or it failed.
\<close>

datatype socket_event =
    Readable "byte list list"
  | Socket_Closed
  | Socket_Failed thrown

text \<open>\<open>consume\<close>: the bytes still missing and the chunks so far, or the whole.\<close>

fun consume :: "nat \<Rightarrow> byte list \<Rightarrow> byte list list \<Rightarrow> nat \<times> byte list" where
  "consume remaining chunks [] = (remaining, chunks)"
| "consume remaining chunks (c # cs) =
     (let remaining' = remaining - length c; chunks' = chunks @ c
      in if remaining' = 0 then (0, chunks') else consume remaining' chunks' cs)"

text \<open>
  \<open>readExactly\<close>, which waits for the next event while nothing has settled it; \<open>None\<close> if it waits
  still after all of them.
\<close>

fun read_exactly :: "nat \<Rightarrow> byte list \<Rightarrow> socket_event list \<Rightarrow> (thrown + byte list) option" where
  "read_exactly remaining chunks [] = None"
| "read_exactly remaining chunks (Socket_Closed # es) =
     Some (Inl (Thrown_Error ''SOCKS5 connection closed during handshake''))"
| "read_exactly remaining chunks (Socket_Failed e # es) = Some (Inl e)"
| "read_exactly remaining chunks (Readable cs # es) =
     (case consume remaining chunks cs of
        (0, whole) \<Rightarrow> Some (Inr whole)
      | (missing, part) \<Rightarrow> read_exactly missing part es)"

text \<open>The documented bound of \<open>read\<close>: never more than was asked for, and never nothing.\<close>

fun reads_fit :: "nat \<Rightarrow> byte list list \<Rightarrow> bool" where
  "reads_fit remaining [] = True"
| "reads_fit remaining (c # cs) =
     (0 < length c \<and> length c \<le> remaining \<and> reads_fit (remaining - length c) cs)"

section \<open>The connect request\<close>

text \<open>\<open>Buffer.from(text, "utf8")\<close> for characters below 256.\<close>

definition utf8_char :: "char \<Rightarrow> byte list" where
  "utf8_char c =
     (let n = of_char c :: nat
      in if n < 128 then [of_nat n] else [of_nat (192 + n div 64), of_nat (128 + n mod 64)])"

definition utf8_bytes :: "string \<Rightarrow> byte list" where
  "utf8_bytes s = concat (map utf8_char s)"

definition port_bytes :: "nat \<Rightarrow> byte list" where
  "port_bytes p = [of_nat (p div 256), of_nat (p mod 256)]"

definition create_socks_connect_request :: "endpoint \<Rightarrow> bool \<Rightarrow> thrown + byte list" where
  "create_socks_connect_request target resolveRemotely =
     (if 65535 < ep_port target then Inl (Thrown_Error ''The value of value is out of range.'')
      else if \<not> resolveRemotely \<and> is_ipv4 (ep_hostname target)
      then Inr ([5, 1, 0, 1]
             @ map (\<lambda>p. of_nat (decimal_value p)) (split_on CHR ''.'' (ep_hostname target))
             @ port_bytes (ep_port target))
      else let hostname = utf8_bytes (ep_hostname target)
        in if \<not> resolveRemotely \<or> hostname = [] \<or> 255 < length hostname
           then Inl (Thrown_Error ''SOCKS5 target must be an IPv4 address or remote-resolved hostname'')
           else Inr ([5, 1, 0, 3, of_nat (length hostname)] @ hostname @ port_bytes (ep_port target)))"

section \<open>The handshake\<close>

record ('s, 'c) sockets =
  so_open :: "endpoint \<Rightarrow> ('s, 'c) action"
  so_write :: "'c \<Rightarrow> byte list \<Rightarrow> ('s, unit) action"
  so_read :: "'c \<Rightarrow> nat \<Rightarrow> ('s, byte list) action"
  so_destroy :: "'c \<Rightarrow> ('s, unit) action"
  so_timeout :: "'c \<Rightarrow> nat \<Rightarrow> ('s, unit) action"

definition fail_socket :: "('s, 'c) sockets \<Rightarrow> 'c \<Rightarrow> string \<Rightarrow> ('s, 'a) action" where
  "fail_socket so c message = and_then (so_destroy so c) (\<lambda>_. throw (Thrown_Error message))"

text \<open>The number of bytes of the bound address, which a type of name carries in a byte of its own.\<close>

definition bound_address_length :: "('s, 'c) sockets \<Rightarrow> 'c \<Rightarrow> byte \<Rightarrow> ('s, nat option) action" where
  "bound_address_length so c kind =
     (if kind = 1 then ret (Some 4)
      else if kind = 4 then ret (Some 16)
      else if kind = 3 then and_then (so_read so c 1) (\<lambda>b. ret (Some (unat (b ! 0))))
      else ret None)"

definition default_timeout_ms :: nat where
  "default_timeout_ms = 15000"

definition socks_handshake :: "('s, 'c) sockets \<Rightarrow> 'c \<Rightarrow> endpoint \<Rightarrow> bool \<Rightarrow> ('s, unit) action" where
  "socks_handshake so c target resolveRemotely =
     and_then (so_write so c [5, 1, 0]) (\<lambda>_.
     and_then (so_read so c 2) (\<lambda>greeting.
       if greeting ! 0 \<noteq> 5 \<or> greeting ! 1 \<noteq> 0
       then fail_socket so c ''SOCKS5 proxy rejected unauthenticated connection''
       else
     and_then (lift_result (create_socks_connect_request target resolveRemotely)) (\<lambda>bytes.
     and_then (so_write so c bytes) (\<lambda>_.
     and_then (so_read so c 4) (\<lambda>header.
       if header ! 0 \<noteq> 5 \<or> header ! 1 \<noteq> 0
       then fail_socket so c (''SOCKS5 connect failed with code '' @ decimal (unat (header ! 1)))
       else
     and_then (bound_address_length so c (header ! 3)) (\<lambda>len.
       case len of
         None \<Rightarrow> fail_socket so c ''SOCKS5 proxy returned an invalid address type''
       | Some n \<Rightarrow> and_then (so_read so c (n + 2)) (\<lambda>_. ret ())))))))"

definition connect_via_socks5 ::
  "('s, 'c) sockets \<Rightarrow> endpoint \<Rightarrow> endpoint \<Rightarrow> bool \<Rightarrow> ('s, 'c) action" where
  "connect_via_socks5 so proxy target resolveRemotely =
     and_then (so_open so proxy) (\<lambda>c.
     and_then (so_timeout so c default_timeout_ms) (\<lambda>_.
     and_then (socks_handshake so c target resolveRemotely) (\<lambda>_.
     and_then (so_timeout so c 0) (\<lambda>_. ret c))))"

section \<open>What is read\<close>

text \<open>The events of a socket whose reads keep the bound, and the bytes that it delivers.\<close>

fun events_fit :: "nat \<Rightarrow> socket_event list \<Rightarrow> bool" where
  "events_fit remaining [] = True"
| "events_fit remaining (Readable cs # es) =
     (reads_fit remaining cs \<and> events_fit (remaining - length (concat cs)) es)"
| "events_fit remaining (e # es) = True"

fun delivered :: "socket_event list \<Rightarrow> byte list" where
  "delivered [] = []"
| "delivered (Readable cs # es) = concat cs @ delivered es"
| "delivered (e # es) = []"

lemma reads_fit_0: "reads_fit 0 cs \<Longrightarrow> cs = []"
  by (cases cs) auto

lemma consume_fit:
  assumes "reads_fit r cs" and "0 < r"
  shows "consume r acc cs = (r - length (concat cs), acc @ concat cs) \<and> length (concat cs) \<le> r"
  using assms
proof (induction r acc cs rule: consume.induct)
  case (2 r acc c cs)
  show ?case
  proof (cases "r = length c")
    case True
    then show ?thesis using 2(2) reads_fit_0 [of cs] by (simp add: Let_def)
  next
    case False
    then have "0 < r - length c" using 2(2) by simp
    then show ?thesis using 2(1) [OF refl refl] 2(2) False by (auto simp: Let_def)
  qed
qed simp

lemma read_exactly_delivers:
  assumes "events_fit r es" and "0 < r" and "read_exactly r acc es = Some (Inr bs)"
  shows "bs = acc @ take r (delivered es) \<and> length bs = length acc + r"
  using assms
proof (induction r acc es rule: read_exactly.induct)
  case (4 r acc cs es)
  have c: "consume r acc cs = (r - length (concat cs), acc @ concat cs)" "length (concat cs) \<le> r"
    using consume_fit [of r cs acc] 4(2,3) by auto
  show ?case
  proof (cases "r = length (concat cs)")
    case True
    then show ?thesis using 4(4) c by auto
  next
    case False
    then obtain k where k: "r - length (concat cs) = Suc k" using c(2) by (cases "r - length (concat cs)") auto
    have got: "bs = (acc @ concat cs) @ take (Suc k) (delivered es) \<and> length bs = length (acc @ concat cs) + Suc k"
    proof -
      have "events_fit (Suc k) es" "read_exactly (Suc k) (acc @ concat cs) es = Some (Inr bs)"
        using 4(2,4) c(1) k by simp_all
      then show ?thesis using 4(1) [of "Suc k" "acc @ concat cs" k] c(1) k by (metis zero_less_Suc)
    qed
    have "take r (delivered (Readable cs # es)) = concat cs @ take (Suc k) (delivered es)"
      using k c(2) by simp
    moreover have "length bs = length acc + r" using conjunct2 [OF got] k c(2) by simp
    ultimately show ?thesis using conjunct1 [OF got] by simp
  qed
qed auto

section \<open>A request names its target\<close>

text \<open>A decimal without leading zeros is what its value is written as.\<close>

lemma digit_char: "is_digit c \<Longrightarrow> char_of (48 + (of_char c - 48 :: nat)) = c"
  by (simp add: is_digit_def)

lemma decimal_value_pos: "list_all is_digit p \<Longrightarrow> p \<noteq> [] \<Longrightarrow> hd p \<noteq> CHR ''0'' \<Longrightarrow> 0 < decimal_value p"
proof (induction p rule: rev_induct)
  case (snoc c p)
  show ?case
  proof (cases p)
    case Nil
    have "of_char c \<noteq> (48 :: nat)"
    proof
      assume "of_char c = (48 :: nat)"
      then have "c = char_of (48 :: nat)" using char_of_char [of c] by metis
      also have "\<dots> = CHR ''0''" by code_simp
      finally have "c = CHR ''0''" .
      then show False using snoc.prems(3) Nil by simp
    qed
    then show ?thesis using snoc.prems Nil by (simp add: decimal_value_def is_digit_def)
  next
    case (Cons d ds)
    then have "0 < decimal_value p" using snoc by simp
    then show ?thesis by (simp add: decimal_value_snoc)
  qed
qed simp

lemma decimal_decimal_value:
  "list_all is_digit p \<Longrightarrow> p \<noteq> [] \<Longrightarrow> (hd p = CHR ''0'' \<Longrightarrow> length p = 1) \<Longrightarrow> decimal (decimal_value p) = p"
proof (induction p rule: rev_induct)
  case (snoc c p)
  have c: "char_of (48 + (of_char c - 48 :: nat)) = c" "of_char c - 48 < (10 :: nat)"
    using snoc.prems(1) digit_char by (auto simp: is_digit_def)
  show ?case
  proof (cases p)
    case Nil
    then show ?thesis using c by (simp add: decimal_value_def decimal.simps)
  next
    case (Cons d ds)
    then have hd: "hd p \<noteq> CHR ''0''" "p \<noteq> []" using snoc.prems(3) by auto
    then have "0 < decimal_value p" using decimal_value_pos snoc.prems(1) by simp
    then show ?thesis
      using snoc.IH snoc.prems(1) hd c
      by (simp add: decimal_value_snoc decimal.simps [of "10 * decimal_value p + (of_char c - 48)"])
  qed
qed simp

lemma octet_decimal: "is_octet p \<Longrightarrow> decimal (unat (of_nat (decimal_value p) :: byte)) = p"
  using decimal_decimal_value [of p] by (simp add: is_octet_def unat_of_nat)

lemma split_on_nonempty: "split_on c s \<noteq> []"
  by (induction s) (auto split: list.splits)

lemma join_split: "js_join [c] (split_on c s) = s"
proof (induction s)
  case (Cons x xs)
  obtain p ps where ps: "split_on c xs = p # ps" using split_on_nonempty [of c xs] by (cases "split_on c xs") auto
  then show ?case using Cons by (cases ps) auto
qed simp

lemma ascii_utf8: "list_all (\<lambda>c. of_char c < (128 :: nat)) s \<Longrightarrow> utf8_bytes s = map (\<lambda>c. of_nat (of_char c)) s"
  by (induction s) (auto simp: utf8_bytes_def utf8_char_def Let_def)

text \<open>The reading of a connect request of RFC 1928.\<close>

definition read_port :: "byte list \<Rightarrow> nat" where
  "read_port bs = 256 * unat (bs ! 0) + unat (bs ! 1)"

definition decode_socks_request :: "byte list \<Rightarrow> endpoint option" where
  "decode_socks_request bs =
     (if take 3 bs \<noteq> [5, 1, 0] then None
      else case drop 3 bs of
        [] \<Rightarrow> None
      | kind # rest \<Rightarrow>
          if kind = 1 then
            if length rest \<noteq> 6 then None
            else Some \<lparr>ep_hostname = js_join ''.'' (map (\<lambda>b. decimal (unat b)) (take 4 rest)),
                       ep_port = read_port (drop 4 rest)\<rparr>
          else if kind = 3 \<and> rest \<noteq> [] then
            let n = unat (hd rest); name = tl rest
            in if length name \<noteq> n + 2 then None
               else Some \<lparr>ep_hostname = map (\<lambda>b. char_of (unat b)) (take n name),
                          ep_port = read_port (drop n name)\<rparr>
          else None)"

lemma read_port_bytes: "p \<le> 65535 \<Longrightarrow> read_port (port_bytes p) = p"
  by (simp add: read_port_def port_bytes_def unat_of_nat)

lemma request_decodes:
  assumes "create_socks_connect_request target resolveRemotely = Inr bs"
    and "list_all (\<lambda>c. of_char c < (128 :: nat)) (ep_hostname target)"
  shows "decode_socks_request bs = Some target"
proof (cases "\<not> resolveRemotely \<and> is_ipv4 (ep_hostname target)")
  case True
  let ?ps = "split_on CHR ''.'' (ep_hostname target)"
  have port: "ep_port target \<le> 65535"
    and bs: "bs = [5, 1, 0, 1] @ map (\<lambda>p. of_nat (decimal_value p)) ?ps @ port_bytes (ep_port target)"
    using assms(1) True by (auto simp: create_socks_connect_request_def split: if_splits)
  have four: "length ?ps = 4" and oct: "\<And>p. p \<in> set ?ps \<Longrightarrow> is_octet p"
    using True by (auto simp: is_ipv4_def Let_def list_all_iff)
  have "map (\<lambda>b. decimal (unat b)) (map (\<lambda>p. of_nat (decimal_value p) :: byte) ?ps) = ?ps"
    using oct octet_decimal by (simp add: map_idI)
  then have "js_join ''.'' (map (\<lambda>b. decimal (unat b)) (map (\<lambda>p. of_nat (decimal_value p) :: byte) ?ps))
      = ep_hostname target"
    using join_split by simp
  then show ?thesis
    using port four by (simp add: bs decode_socks_request_def read_port_bytes) (simp add: port_bytes_def)
next
  case False
  let ?name = "utf8_bytes (ep_hostname target)"
  have port: "ep_port target \<le> 65535" and len: "length ?name \<le> 255"
    and bs: "bs = [5, 1, 0, 3, of_nat (length ?name)] @ ?name @ port_bytes (ep_port target)"
    using assms(1) False by (auto simp: create_socks_connect_request_def Let_def split: if_splits)
  have name: "?name = map (\<lambda>c. of_nat (of_char c)) (ep_hostname target)"
    using ascii_utf8 assms(2) by simp
  have "map (\<lambda>b. char_of (unat b)) (map (\<lambda>c. of_nat (of_char c) :: byte) (ep_hostname target)) = ep_hostname target"
    using assms(2) by (simp add: map_idI list_all_iff unat_of_nat)
  then show ?thesis
    using port len by (simp add: bs decode_socks_request_def Let_def unat_of_nat read_port_bytes)
      (simp add: name port_bytes_def)
qed

text \<open>An IPv4 address is ASCII text.\<close>

lemma set_split_on: "x \<in> set s \<Longrightarrow> x = c \<or> (\<exists>p\<in>set (split_on c s). x \<in> set p)"
proof (induction s)
  case (Cons y ys)
  obtain p ps where ps: "split_on c ys = p # ps"
    using split_on_nonempty [of c ys] by (cases "split_on c ys") auto
  then show ?case using Cons by (cases "y = c") auto
qed simp

lemma ipv4_ascii: "is_ipv4 s \<Longrightarrow> list_all (\<lambda>c. of_char c < (128 :: nat)) s"
proof -
  assume s: "is_ipv4 s"
  have "of_char x < (128 :: nat)" if "x \<in> set s" for x
  proof (cases "x = CHR ''.''")
    case False
    have "\<exists>p\<in>set (split_on CHR ''.'' s). x \<in> set p"
      using set_split_on [OF that, of "CHR ''.''"] False by blast
    then obtain p where "p \<in> set (split_on CHR ''.'' s)" "x \<in> set p" by blast
    then have "is_digit x" using s by (auto simp: is_ipv4_def Let_def list_all_iff is_octet_def)
    then show ?thesis by (simp add: is_digit_def)
  qed simp
  then show ?thesis by (simp add: list_all_iff)
qed

text \<open>Without remote resolution only an IPv4 address is asked for.\<close>

lemma local_request:
  assumes "create_socks_connect_request target False = Inr bs"
  shows "is_ipv4 (ep_hostname target) \<and> decode_socks_request bs = Some target"
proof -
  have "is_ipv4 (ep_hostname target)"
    using assms by (auto simp: create_socks_connect_request_def Let_def split: if_splits)
  then show ?thesis using request_decodes [OF assms] ipv4_ascii by blast
qed

text \<open>The SOCKS5 connect request built for a target whose host is ASCII text is read by a server
  that follows RFC 1928 as a request to connect to that very host and port: an IPv4 host by its four
  bytes, a name by its length and its bytes.\<close>

lemma connect_request_names_its_target:
  assumes "create_socks_connect_request target resolveRemotely = Inr bs"
    and "list_all (\<lambda>c. of_char c < (128 :: nat)) (ep_hostname target)"
  shows "decode_socks_request bs = Some target"
  using assms by (rule request_decodes)

end
