(* ===== verification/Outbound_Proxy.thy ===== *)
theory Outbound_Proxy
  imports Socks_Protocol Json
begin

text \<open>
  The outbound proxy of \<open>apps/worker/src/outbound-proxy.ts\<close> above the SOCKS5 handshake: the answers
  of DNS over HTTPS, the resolver with its cache, the tunnel of a CONNECT request, and the start of
  the proxy with the wait for a connection that WARP carries. Sockets, the HTTPS exchange, the
  client and the clock are operations on the threaded state. The causes of the thrown errors, which
  only the log reads, are left out.
\<close>

section \<open>DNS over HTTPS\<close>

record ipv4_answer =
  ia_address :: string
  ia_ttl_seconds :: int

record doh_entry =
  de_ttl :: int
  de_data :: string
  de_type :: int

definition parse_doh_entry :: "json \<Rightarrow> doh_entry option" where
  "parse_doh_entry v =
     Option.bind (json_object v) (\<lambda>es.
       case (json_int es ''TTL'' 0 max_safe_integer, json_get es ''data'',
             json_int es ''type'' (- max_safe_integer) max_safe_integer) of
         (Some ttl, Some (JStr d), Some k) \<Rightarrow> Some \<lparr>de_ttl = ttl, de_data = d, de_type = k\<rparr>
       | _ \<Rightarrow> None)"

text \<open>The status and the answers, which may be missing.\<close>

definition parse_doh_response :: "json \<Rightarrow> (int \<times> doh_entry list) option" where
  "parse_doh_response v =
     Option.bind (json_object v) (\<lambda>es.
     Option.bind (json_int es ''Status'' (- max_safe_integer) max_safe_integer) (\<lambda>status.
       case json_get es ''Answer'' of
         None \<Rightarrow> Some (status, [])
       | Some a \<Rightarrow> Option.bind (json_list (Some a)) (\<lambda>vs. map_option (Pair status) (check_each parse_doh_entry vs))))"

definition usable_answers :: "doh_entry list \<Rightarrow> ipv4_answer list" where
  "usable_answers es =
     map (\<lambda>e. \<lparr>ia_address = de_data e, ia_ttl_seconds = max 1 (de_ttl e)\<rparr>)
       (filter (\<lambda>e. de_type e = 1 \<and> is_ipv4 (de_data e)) es)"

definition parse_doh_ipv4_answers :: "json \<Rightarrow> thrown + ipv4_answer list" where
  "parse_doh_ipv4_answers v =
     (case parse_doh_response v of
        None \<Rightarrow> Inl (Thrown_Error ''ZodError'')
      | Some (status, es) \<Rightarrow>
          if status \<noteq> 0 then Inl (Thrown_Error (''DoH lookup failed with status '' @ js_integer status))
          else if usable_answers es = [] then Inl (Thrown_Error ''DoH lookup returned no IPv4 address'')
          else Inr (usable_answers es))"

text \<open>The reply as it arrives: the chunks of the body up to the limit, then its end.\<close>

record doh_reply =
  dr_status :: "nat option"
  dr_chunks :: "byte list list"

fun collect_reply :: "nat \<Rightarrow> byte list list \<Rightarrow> (thrown + byte list)" where
  "collect_reply received [] = Inr []"
| "collect_reply received (c # cs) =
     (if 65536 < received + length c then Inl (Thrown_Error ''DoH response too large'')
      else case collect_reply (received + length c) cs of Inl e \<Rightarrow> Inl e | Inr bs \<Rightarrow> Inr (c @ bs))"

definition finish_reply :: "(byte list \<Rightarrow> thrown + json) \<Rightarrow> doh_reply \<Rightarrow> thrown + json" where
  "finish_reply parse_json reply =
     (case collect_reply 0 (dr_chunks reply) of
        Inl e \<Rightarrow> Inl e
      | Inr body \<Rightarrow>
          if dr_status reply \<noteq> Some 200
          then Inl (Thrown_Error (''DoH request failed: '' @ decimal (nullish (dr_status reply) 0)))
          else parse_json body)"

text \<open>\<open>encodeURIComponent\<close>.\<close>

definition unreserved :: "char \<Rightarrow> bool" where
  "unreserved c = (is_digit c \<or> is_upper c \<or> is_lower c \<or> c \<in> set ''-_.!~*()'' \<or> c = CHR 0x27)"

definition hex_digit :: "nat \<Rightarrow> char" where
  "hex_digit n = (''0123456789ABCDEF'' ! n)"

definition encode_uri_component :: "string \<Rightarrow> string" where
  "encode_uri_component s =
     concat (map (\<lambda>c. if unreserved c then [c]
       else concat (map (\<lambda>b. [CHR ''%'', hex_digit (unat b div 16), hex_digit (unat b mod 16)]) (utf8_char c))) s)"

definition doh_path :: "string \<Rightarrow> string" where
  "doh_path hostname = ''/dns-query?name='' @ encode_uri_component hostname @ ''&type=A''"

definition doh_address :: endpoint where
  "doh_address = \<lparr>ep_hostname = ''1.1.1.1'', ep_port = 443\<rparr>"

definition query_doh_ipv4 ::
  "('s, 'c) sockets \<Rightarrow> ('c \<Rightarrow> string \<Rightarrow> ('s, doh_reply) action) \<Rightarrow> (byte list \<Rightarrow> thrown + json)
   \<Rightarrow> endpoint \<Rightarrow> string \<Rightarrow> ('s, ipv4_answer list) action" where
  "query_doh_ipv4 so https_get parse_json socks hostname =
     and_then (connect_via_socks5 so socks doh_address False) (\<lambda>upstream.
     and_then (https_get upstream (doh_path hostname)) (\<lambda>reply.
     and_then (lift_result (finish_reply parse_json reply)) (\<lambda>v.
       lift_result (parse_doh_ipv4_answers v))))"

section \<open>The resolver\<close>

text \<open>An entry of the cache; one without a time never expires, as \<open>Math.min()\<close> of nothing is infinite.\<close>

record resolved_entry =
  re_addresses :: "string list"
  re_expires_at :: "instant option"

type_synonym ipv4_cache = "string \<Rightarrow> resolved_entry option"

text \<open>\<open>[...new Set(xs)]\<close>.\<close>

definition js_unique :: "'a list \<Rightarrow> 'a list" where
  "js_unique xs = rev (remdups (rev xs))"

definition answer_addresses :: "ipv4_answer list \<Rightarrow> string list" where
  "answer_addresses answers = js_unique (map ia_address answers)"

definition expiry :: "ipv4_answer list \<Rightarrow> instant \<Rightarrow> instant option" where
  "expiry answers t =
     (if answers = [] then None else Some (t + Min (set (map ia_ttl_seconds answers)) * 1000))"

definition cached_addresses :: "'s clock \<Rightarrow> string \<Rightarrow> ('s \<times> ipv4_cache, string list option) action" where
  "cached_addresses now key = (\<lambda>(s, cache).
     case cache key of
       None \<Rightarrow> ((s, cache), Inr None)
     | Some e \<Rightarrow> (case now s of (s', t) \<Rightarrow>
         ((s', cache), Inr (if (case re_expires_at e of None \<Rightarrow> True | Some x \<Rightarrow> t < x)
                            then Some (re_addresses e) else None))))"

definition resolve_ipv4 ::
  "'s clock \<Rightarrow> (string \<Rightarrow> ('s, ipv4_answer list) action) \<Rightarrow> string \<Rightarrow> ('s \<times> ipv4_cache, string list) action" where
  "resolve_ipv4 now query hostname =
     (if is_ipv4 hostname then ret [hostname]
      else let key = map ascii_lower hostname in
        and_then (cached_addresses now key) (\<lambda>hit.
          case hit of
            Some addresses \<Rightarrow> ret addresses
          | None \<Rightarrow>
              and_then (in_world (query key)) (\<lambda>answers.
              and_then (in_world (tick now)) (\<lambda>t.
              and_then (modify (\<lambda>(s, cache). (s, cache(key \<mapsto>
                  \<lparr>re_addresses = answer_addresses answers, re_expires_at = expiry answers t\<rparr>)))) (\<lambda>_.
                ret (answer_addresses answers))))))"

section \<open>The tunnel of a request\<close>

record ('s, 'c, 'u) tunnel =
  tn_resolve :: "string \<Rightarrow> ('s, string list) action"
  tn_connect :: "string \<Rightarrow> nat \<Rightarrow> ('s, 'u) action"
  tn_write_client :: "'c \<Rightarrow> string \<Rightarrow> ('s, unit) action"
  tn_write_upstream :: "'u \<Rightarrow> byte list \<Rightarrow> ('s, unit) action"
  tn_join :: "'c \<Rightarrow> 'u \<Rightarrow> ('s, unit) action"
  tn_log :: "thrown \<Rightarrow> ('s, unit) action"
  tn_destroyed :: "'c \<Rightarrow> 's \<Rightarrow> bool"
  tn_end_client :: "'c \<Rightarrow> string \<Rightarrow> ('s, unit) action"

fun connect_first ::
  "(string \<Rightarrow> nat \<Rightarrow> ('s, 'u) action) \<Rightarrow> nat \<Rightarrow> thrown option \<Rightarrow> string list \<Rightarrow> ('s, 'u) action" where
  "connect_first connect port failure [] =
     throw (case failure of
        None \<Rightarrow> Thrown_Error ''no target address was reachable''
      | Some Thrown_Other \<Rightarrow> Thrown_Error ''no target address was reachable''
      | Some e \<Rightarrow> e)"
| "connect_first connect port failure (a # as) =
     catching (connect a port) (\<lambda>e. connect_first connect port (Some e) as)"

definition crlf :: string where
  "crlf = [CHR 0x0D, CHR 0x0A]"

definition established :: string where
  "established = ''HTTP/1.1 200 Connection Established'' @ crlf @ crlf"

definition bad_gateway :: string where
  "bad_gateway = ''HTTP/1.1 502 Bad Gateway'' @ crlf @ ''Connection: close'' @ crlf @ crlf"

definition establish_tunnel ::
  "url_parser \<Rightarrow> ('s, 'c, 'u) tunnel \<Rightarrow> string option \<Rightarrow> byte list \<Rightarrow> 'c \<Rightarrow> ('s, unit) action" where
  "establish_tunnel parse_url tn authority head client =
     and_then (lift_result (parse_connect_authority parse_url (nullish authority []))) (\<lambda>target.
     and_then (catching (tn_resolve tn (ep_hostname target))
        (\<lambda>_. throw (Thrown_Error ''outbound proxy resolution failed''))) (\<lambda>addresses.
     and_then (catching (connect_first (tn_connect tn) (ep_port target) None addresses)
        (\<lambda>_. throw (Thrown_Error ''outbound proxy target connection failed''))) (\<lambda>upstream.
     and_then (tn_write_client tn client established) (\<lambda>_.
     and_then (if head \<noteq> [] then tn_write_upstream tn upstream head else ret ()) (\<lambda>_.
       tn_join tn client upstream)))))"

definition handle_connect ::
  "url_parser \<Rightarrow> ('s, 'c, 'u) tunnel \<Rightarrow> string option \<Rightarrow> byte list \<Rightarrow> 'c \<Rightarrow> ('s, unit) action" where
  "handle_connect parse_url tn authority head client =
     catching (establish_tunnel parse_url tn authority head client) (\<lambda>e.
       and_then (tn_log tn e) (\<lambda>_ s.
         if tn_destroyed tn client s then (s, Inr ()) else tn_end_client tn client bad_gateway s))"

section \<open>The proxy\<close>

text \<open>What a request without CONNECT is answered, and the clients the proxy keeps until they close.\<close>

definition plain_request_status :: nat where
  "plain_request_status = 405"

record http_connect_proxy =
  hp_hostname :: string
  hp_port :: nat
  hp_url :: string

definition start_http_connect_proxy ::
  "(string \<Rightarrow> nat \<Rightarrow> ('s, unit) action) \<Rightarrow> ('s, nat option) action \<Rightarrow> ('s, unit) action
   \<Rightarrow> string \<Rightarrow> nat \<Rightarrow> ('s, http_connect_proxy) action" where
  "start_http_connect_proxy listen_on address_port close_server hostname port =
     and_then (listen_on hostname port) (\<lambda>_.
     and_then address_port (\<lambda>bound.
       case bound of
         None \<Rightarrow> and_then close_server (\<lambda>_. throw (Thrown_Error ''HTTP CONNECT proxy address missing''))
       | Some p \<Rightarrow> ret \<lparr>hp_hostname = hostname, hp_port = p,
           hp_url = ''http://'' @ hostname @ '':'' @ decimal p\<rparr>))"

definition close_http_connect_proxy ::
  "('c \<Rightarrow> ('s, unit) action) \<Rightarrow> ('s, unit) action \<Rightarrow> 'c list \<Rightarrow> ('s, unit) action" where
  "close_http_connect_proxy destroy close_server clients =
     and_then (each destroy clients) (\<lambda>_. close_server)"

text \<open>\<open>/^warp=on$/m\<close>: a line of the body.\<close>

definition line_end :: "char \<Rightarrow> bool" where
  "line_end c = (c = CHR 0x0A \<or> c = CHR 0x0D)"

fun js_lines :: "string \<Rightarrow> string list" where
  "js_lines [] = [[]]"
| "js_lines (c # cs) =
     (if line_end c then [] # js_lines cs
      else case js_lines cs of [] \<Rightarrow> [[c]] | p # ps \<Rightarrow> (c # p) # ps)"

definition has_line :: "string \<Rightarrow> string \<Rightarrow> bool" where
  "has_line line body = (line \<in> set (js_lines body))"

record trace_reply =
  tr_ok :: bool
  tr_status :: nat
  tr_body :: string

definition verify_warp_connection :: "('s, trace_reply) action \<Rightarrow> ('s, unit) action" where
  "verify_warp_connection fetch_trace =
     and_then fetch_trace (\<lambda>r.
       if \<not> tr_ok r then throw (Thrown_Error (''WARP trace request failed: '' @ decimal (tr_status r)))
       else if \<not> has_line ''warp=on'' (tr_body r)
       then throw (Thrown_Error ''WARP trace did not return warp=on'')
       else ret ())"

definition readiness_failure :: "thrown \<Rightarrow> thrown" where
  "readiness_failure e =
     (case e of Thrown_Other \<Rightarrow> Thrown_Error ''WARP proxy readiness timed out'' | _ \<Rightarrow> e)"

text \<open>
  The \<open>do\<close> loop of \<open>waitForWarpConnection\<close>; the first argument bounds its rounds, and \<open>None\<close> is
  a loop that they do not finish.
\<close>

fun wait_loop ::
  "nat \<Rightarrow> 's clock \<Rightarrow> (int \<Rightarrow> ('s, unit) action) \<Rightarrow> ('s, unit) action \<Rightarrow> instant \<Rightarrow> 's
   \<Rightarrow> ('s \<times> (thrown + unit)) option" where
  "wait_loop 0 now sleep verify deadline s = None"
| "wait_loop (Suc n) now sleep verify deadline s =
     (case verify s of
        (s1, Inr _) \<Rightarrow> Some (s1, Inr ())
      | (s1, Inl e) \<Rightarrow>
          (case now s1 of (s2, t) \<Rightarrow>
          (case sleep (min 1000 (max 0 (deadline - t))) s2 of
             (s3, Inl e') \<Rightarrow> Some (s3, Inl e')
           | (s3, Inr _) \<Rightarrow>
               (case now s3 of (s4, t') \<Rightarrow>
                  if t' < deadline then wait_loop n now sleep verify deadline s4
                  else Some (s4, Inl (readiness_failure e))))))"

definition wait_for_warp_connection ::
  "nat \<Rightarrow> 's clock \<Rightarrow> (int \<Rightarrow> ('s, unit) action) \<Rightarrow> ('s, trace_reply) action \<Rightarrow> int \<Rightarrow> 's
   \<Rightarrow> ('s \<times> (thrown + unit)) option" where
  "wait_for_warp_connection rounds now sleep fetch_trace timeoutMs s =
     (case now s of (s', t) \<Rightarrow>
        wait_loop rounds now sleep (verify_warp_connection fetch_trace) (t + timeoutMs) s')"

definition warp_rounds :: "int \<Rightarrow> nat" where
  "warp_rounds timeoutMs = nat (max 1 (ceil_div timeoutMs 1000))"

text \<open>The platform of the proxy: its server, its fetcher and the clock.\<close>

record 's proxy_host =
  ph_listen :: "string \<Rightarrow> nat \<Rightarrow> ('s, unit) action"
  ph_address_port :: "('s, nat option) action"
  ph_close_server :: "('s, unit) action"
  ph_close_proxy :: "('s, unit) action"
  ph_close_fetcher :: "('s, unit) action"
  ph_fetch_trace :: "string \<Rightarrow> ('s, trace_reply) action"
  ph_clock :: "'s clock"
  ph_sleep :: "int \<Rightarrow> ('s, unit) action"

definition proxy_ready ::
  "nat \<Rightarrow> 's proxy_host \<Rightarrow> int \<Rightarrow> http_connect_proxy \<Rightarrow> 's \<Rightarrow> ('s \<times> (thrown + http_connect_proxy)) option" where
  "proxy_ready rounds ph readyTimeoutMs proxy s =
     (case wait_for_warp_connection rounds (ph_clock ph) (ph_sleep ph)
             (ph_fetch_trace ph (hp_url proxy)) readyTimeoutMs s of
        None \<Rightarrow> None
      | Some (s1, Inr _) \<Rightarrow> Some (s1, Inr proxy)
      | Some (s1, Inl e) \<Rightarrow>
          Some (and_then (ph_close_fetcher ph) (\<lambda>_. and_then (ph_close_proxy ph) (\<lambda>_. throw e)) s1))"

definition start_warp_outbound_proxy ::
  "nat \<Rightarrow> 's proxy_host \<Rightarrow> url_parser \<Rightarrow> string option \<Rightarrow> nat \<Rightarrow> int \<Rightarrow> string \<Rightarrow> 's
   \<Rightarrow> ('s \<times> (thrown + http_connect_proxy)) option" where
  "start_warp_outbound_proxy rounds ph parse_url listenHostname listenPort readyTimeoutMs socksProxyUrl s =
     (case parse_socks_proxy_url parse_url socksProxyUrl of
        Inl e \<Rightarrow> Some (s, Inl e)
      | Inr socks \<Rightarrow>
          (case start_http_connect_proxy (ph_listen ph) (ph_address_port ph) (ph_close_server ph)
                  (nullish listenHostname ''127.0.0.1'') listenPort s of
             (s1, Inl e) \<Rightarrow> Some (s1, Inl e)
           | (s1, Inr proxy) \<Rightarrow> proxy_ready rounds ph readyTimeoutMs proxy s1))"

text \<open>
  The tunnel that \<open>startWarpOutboundProxy\<close> sets up: names are resolved over the SOCKS proxy, with
  the cache beside the state of the world, and targets are connected through it.
\<close>

definition warp_tunnel ::
  "('s, 'u) sockets \<Rightarrow> ('u \<Rightarrow> string \<Rightarrow> ('s, doh_reply) action) \<Rightarrow> (byte list \<Rightarrow> thrown + json) \<Rightarrow> 's clock
   \<Rightarrow> endpoint \<Rightarrow> ('s \<times> ipv4_cache, 'c, 'u) tunnel \<Rightarrow> ('s \<times> ipv4_cache, 'c, 'u) tunnel" where
  "warp_tunnel so https_get parse_json now socks base =
     base\<lparr>tn_resolve := resolve_ipv4 now (query_doh_ipv4 so https_get parse_json socks),
          tn_connect := (\<lambda>address port. in_world
            (connect_via_socks5 so socks \<lparr>ep_hostname = address, ep_port = port\<rparr> False))\<rparr>"

section \<open>Fresh addresses\<close>

text \<open>A world in which a query takes some time and is noted with the time of its answer.\<close>

record dns_world =
  dw_now :: instant
  dw_asked :: "(instant \<times> string \<times> ipv4_answer list) list"

definition dns_clock :: "dns_world clock" where
  "dns_clock w = (w, dw_now w)"

definition dns_query :: "int \<Rightarrow> (thrown + ipv4_answer list) \<Rightarrow> string \<Rightarrow> (dns_world, ipv4_answer list) action" where
  "dns_query delay outcome key w =
     (let t = dw_now w + delay
      in case outcome of
           Inl e \<Rightarrow> (w\<lparr>dw_now := t\<rparr>, Inl e)
         | Inr answers \<Rightarrow> (w\<lparr>dw_now := t, dw_asked := (t, key, answers) # dw_asked w\<rparr>, Inr answers))"

inductive dns_reachable :: "dns_world \<times> ipv4_cache \<Rightarrow> bool" where
  dns_start: "dns_reachable (\<lparr>dw_now = t, dw_asked = []\<rparr>, Map.empty)"
| dns_wait: "dns_reachable (w, cache) \<Longrightarrow> 0 \<le> delay \<Longrightarrow> dns_reachable (w\<lparr>dw_now := dw_now w + delay\<rparr>, cache)"
| dns_ask: "dns_reachable st \<Longrightarrow> 0 \<le> delay \<Longrightarrow>
     dns_reachable (fst (resolve_ipv4 dns_clock (dns_query delay outcome) hostname st))"

text \<open>Every entry of the cache holds the addresses of an answer, and expires with it.\<close>

definition cache_from_answers :: "dns_world \<times> ipv4_cache \<Rightarrow> bool" where
  "cache_from_answers st =
     (\<forall>key e. snd st key = Some e \<longrightarrow>
        (\<exists>t answers. (t, key, answers) \<in> set (dw_asked (fst st))
           \<and> re_addresses e = answer_addresses answers \<and> re_expires_at e = expiry answers t))"

lemma resolve_cases:
  assumes "resolve_ipv4 dns_clock (dns_query delay outcome) hostname (w, cache) = (st', r)"
  obtains (address) "is_ipv4 hostname" "st' = (w, cache)" "r = Inr [hostname]"
  | (hit) e where "cache (map ascii_lower hostname) = Some e" "st' = (w, cache)" "r = Inr (re_addresses e)"
      "\<And>x. re_expires_at e = Some x \<Longrightarrow> dw_now w < x"
  | (failed) e where "st' = (w\<lparr>dw_now := dw_now w + delay\<rparr>, cache)" "r = Inl e"
  | (answered) answers t where "r = Inr (answer_addresses answers)" "t = dw_now w + delay"
      "fst st' = w\<lparr>dw_now := t, dw_asked := (t, map ascii_lower hostname, answers) # dw_asked w\<rparr>"
      "snd st' = cache(map ascii_lower hostname \<mapsto>
          \<lparr>re_addresses = answer_addresses answers, re_expires_at = expiry answers t\<rparr>)"
proof (cases "is_ipv4 hostname")
  case True
  then show ?thesis using assms address by (simp add: resolve_ipv4_def ret_def)
next
  case False
  let ?key = "map ascii_lower hostname"
  show ?thesis
  proof (cases "cached_addresses dns_clock ?key (w, cache)")
    case (Pair st hit_or)
    have st: "st = (w, cache)"
      using Pair by (auto simp: cached_addresses_def dns_clock_def split: option.splits)
    show ?thesis
    proof (cases "\<exists>addresses. hit_or = Inr (Some addresses)")
      case True
      then obtain e where "cache ?key = Some e" "hit_or = Inr (Some (re_addresses e))"
          "\<And>x. re_expires_at e = Some x \<Longrightarrow> dw_now w < x"
        using Pair by (auto simp: cached_addresses_def dns_clock_def split: option.splits if_splits)
      then show ?thesis
        using assms False Pair st by (intro hit [of e]) (auto simp: resolve_ipv4_def Let_def and_then_def ret_def)
    next
      case miss: False
      then have "hit_or = Inr None"
        using Pair by (auto simp: cached_addresses_def dns_clock_def split: option.splits if_splits)
      then have r: "(st', r) = and_then (in_world (dns_query delay outcome ?key)) (\<lambda>answers.
              and_then (in_world (tick dns_clock)) (\<lambda>t.
              and_then (modify (\<lambda>(s, cache). (s, cache(?key \<mapsto>
                  \<lparr>re_addresses = answer_addresses answers, re_expires_at = expiry answers t\<rparr>)))) (\<lambda>_.
                ret (answer_addresses answers)))) (w, cache)"
        using assms False Pair st by (simp add: resolve_ipv4_def Let_def and_then_def [of "cached_addresses _ _"])
      show ?thesis
      proof (cases outcome)
        case (Inl e)
        then show ?thesis using r failed by (simp add: and_then_def in_world_def dns_query_def Let_def)
      next
        case (Inr answers)
        show ?thesis
          using r Inr by (intro answered [of answers "dw_now w + delay"])
            (simp_all add: and_then_def in_world_def dns_query_def Let_def tick_def dns_clock_def modify_def ret_def)
      qed
    qed
  qed
qed

lemma cache_from_answers_step:
  assumes "cache_from_answers st"
  shows "cache_from_answers (fst (resolve_ipv4 dns_clock (dns_query delay outcome) hostname st))"
proof -
  obtain w cache where st: "st = (w, cache)" by (cases st)
  obtain st' r where run: "resolve_ipv4 dns_clock (dns_query delay outcome) hostname (w, cache) = (st', r)"
    by (cases "resolve_ipv4 dns_clock (dns_query delay outcome) hostname (w, cache)")
  show ?thesis
    using assms by (cases rule: resolve_cases [OF run]) (auto simp: st run cache_from_answers_def split: if_splits)
qed

lemma reachable_cache: "dns_reachable st \<Longrightarrow> cache_from_answers st"
proof (induction rule: dns_reachable.induct)
  case (dns_ask st delay outcome hostname)
  then show ?case by (simp add: cache_from_answers_step)
qed (auto simp: cache_from_answers_def)

lemma before_expiry:
  assumes "expiry answers t = Some x" and "a \<in> set answers" and "n < x"
  shows "n < t + ia_ttl_seconds a * 1000"
proof -
  have "Min (set (map ia_ttl_seconds answers)) \<le> ia_ttl_seconds a"
    using assms(2) by (simp add: Min_le_iff)
  moreover have "x = t + Min (set (map ia_ttl_seconds answers)) * 1000"
    using assms(1) by (auto simp: expiry_def split: if_splits)
  ultimately show ?thesis using assms(3) by linarith
qed

text \<open>C38: However the resolver was used before and whatever time went by, the addresses it gives for a
  name are those of an answer of DNS for that name in lower case, which arrived just now or of which
  no record has outlived its time to live; an IPv4 address stands for itself.\<close>

theorem served_addresses_are_fresh:
  assumes "dns_reachable st" and "0 \<le> delay"
    and "resolve_ipv4 dns_clock (dns_query delay outcome) hostname st = (st', Inr addresses)"
  shows "is_ipv4 hostname \<and> addresses = [hostname]
    \<or> (\<exists>t answers. (t, map ascii_lower hostname, answers) \<in> set (dw_asked (fst st'))
          \<and> addresses = answer_addresses answers
          \<and> (t = dw_now (fst st') \<or> (\<forall>a\<in>set answers. dw_now (fst st') < t + ia_ttl_seconds a * 1000)))"
proof -
  obtain w cache where st: "st = (w, cache)" by (cases st)
  have inv: "cache_from_answers (w, cache)" using reachable_cache assms(1) st by simp
  show ?thesis using assms(3) unfolding st
  proof (cases rule: resolve_cases)
    case (hit e)
    obtain t answers where a: "(t, map ascii_lower hostname, answers) \<in> set (dw_asked w)"
        "re_addresses e = answer_addresses answers" "re_expires_at e = expiry answers t"
      using inv hit(1) unfolding cache_from_answers_def by fastforce
    have "dw_now w < t + ia_ttl_seconds x * 1000" if "x \<in> set answers" for x
    proof -
      have "answers \<noteq> []" using that by auto
      then obtain y where "expiry answers t = Some y" by (simp add: expiry_def)
      then show ?thesis using before_expiry that hit(4) a(3) by metis
    qed
    then show ?thesis
      using a hit(2,3) by (intro disjI2 exI [of _ t] exI [of _ answers]) simp
  qed auto
qed

text \<open>A name that was answered a second ago, with two addresses of a minute and an hour, is served
  from the cache.\<close>

definition sample_answers :: "ipv4_answer list" where
  "sample_answers = [\<lparr>ia_address = ''10.0.0.1'', ia_ttl_seconds = 60\<rparr>, \<lparr>ia_address = ''10.0.0.2'', ia_ttl_seconds = 3600\<rparr>]"

definition sample_resolved :: "dns_world \<times> ipv4_cache" where
  "sample_resolved = fst (resolve_ipv4 dns_clock (dns_query 5 (Inr sample_answers)) ''Example.org''
     (\<lparr>dw_now = 0, dw_asked = []\<rparr>, Map.empty))"

definition sample_later :: "dns_world \<times> ipv4_cache" where
  "sample_later = ((fst sample_resolved)\<lparr>dw_now := dw_now (fst sample_resolved) + 1000\<rparr>, snd sample_resolved)"

lemma sample_resolved_eq:
  "sample_resolved =
     (\<lparr>dw_now = 5, dw_asked = [(5, ''example.org'', sample_answers)]\<rparr>,
      [''example.org'' \<mapsto> \<lparr>re_addresses = [''10.0.0.1'', ''10.0.0.2''], re_expires_at = Some 60005\<rparr>])"
  by (simp add: sample_resolved_def sample_answers_def resolve_ipv4_def is_ipv4_def regex_simps Let_def
      and_then_def cached_addresses_def in_world_def dns_query_def tick_def dns_clock_def modify_def ret_def
      answer_addresses_def js_unique_def expiry_def char_of_def bit_numeral_rec bit_0)

lemma sample_later_reachable: "dns_reachable sample_later"
proof -
  have "dns_reachable (fst sample_resolved, snd sample_resolved)"
    unfolding prod.collapse unfolding sample_resolved_def by (intro dns_reachable.intros) simp
  then show ?thesis unfolding sample_later_def by (rule dns_wait) simp
qed

theorem served_addresses_are_fresh_witness:
  "is_ipv4 ''EXAMPLE.ORG'' \<and> [''10.0.0.1'', ''10.0.0.2''] = [''EXAMPLE.ORG'']
    \<or> (\<exists>t answers. (t, map ascii_lower ''EXAMPLE.ORG'', answers) \<in> set (dw_asked (fst sample_later))
          \<and> [''10.0.0.1'', ''10.0.0.2''] = answer_addresses answers
          \<and> (t = dw_now (fst sample_later) \<or> (\<forall>a\<in>set answers. dw_now (fst sample_later) < t + ia_ttl_seconds a * 1000)))"
  by (rule served_addresses_are_fresh [of sample_later 0 "Inl Thrown_Other"])
    (simp_all add: sample_later_reachable, simp add: sample_later_def sample_resolved_eq resolve_ipv4_def
      is_ipv4_def regex_simps Let_def and_then_def cached_addresses_def dns_clock_def ret_def char_of_def bit_numeral_rec bit_0)

section \<open>The wait for WARP ends\<close>

lemma verify_time:
  assumes "\<And>s. time s \<le> time (fst (fetch_trace s))"
  shows "time s \<le> (time (fst (verify_warp_connection fetch_trace s)) :: int)"
proof (cases "fetch_trace s")
  case (Pair s' r)
  then show ?thesis
    using assms [of s] by (cases r) (simp_all add: verify_warp_connection_def and_then_def throw_def ret_def)
qed

lemma wait_loop_ends:
  assumes "\<And>s. now s = (s, time s)" and "\<And>s. time s \<le> time (fst (verify s))"
    and "\<And>d s. 0 \<le> d \<Longrightarrow> time s + d \<le> time (fst (sleep d s))"
    and "0 < n" and "deadline - time s \<le> 1000 * int n"
  shows "wait_loop n now sleep verify deadline s \<noteq> None"
  using assms(4,5)
proof (induction n arbitrary: s)
  case (Suc n)
  obtain s1 r where v: "verify s = (s1, r)" by (cases "verify s")
  show ?case
  proof (cases r)
    case (Inl e)
    let ?d = "min 1000 (max 0 (deadline - time s1))"
    obtain s3 r' where sl: "sleep ?d s1 = (s3, r')" by (cases "sleep ?d s1")
    have t1: "time s \<le> time s1" using assms(2) [of s] v by simp
    have t3: "time s1 + ?d \<le> time s3" using assms(3) [of ?d s1] sl by simp
    show ?thesis
    proof (cases "time s3 < deadline")
      case True
      then have "?d = 1000" using t3 by (auto simp: min_def max_def split: if_splits)
      then have "deadline - time s3 \<le> 1000 * int n" using t1 t3 Suc.prems(2) by simp
      moreover from this have "0 < n" using True by (cases n) auto
      ultimately have "wait_loop n now sleep verify deadline s3 \<noteq> None" using Suc.IH by blast
      then show ?thesis using v Inl sl assms(1) [of s1] assms(1) [of s3] by (cases r') simp_all
    next
      case False
      then show ?thesis using v Inl sl assms(1) [of s1] assms(1) [of s3] by (cases r') simp_all
    qed
  qed (simp add: v)
qed simp

text \<open>The wait for a WARP connection ends, whatever the trace answers: with a clock that no
  operation turns back and a pause that lasts as long as it was asked to, one round for every second
  of the timeout, and one at least, is enough.\<close>

lemma readiness_wait_ends:
  assumes "\<And>s. now s = (s, time s)" and "\<And>s. time s \<le> time (fst (fetch_trace s))"
    and "\<And>d s. 0 \<le> d \<Longrightarrow> time s + d \<le> time (fst (sleep d s))"
  shows "wait_for_warp_connection (warp_rounds timeoutMs) now sleep fetch_trace timeoutMs s \<noteq> None"
proof -
  have "timeoutMs \<le> 1000 * int (warp_rounds timeoutMs)"
    using ceil_div_bounds [of 1000 timeoutMs] by (auto simp: warp_rounds_def max_def)
  then have "wait_loop (warp_rounds timeoutMs) now sleep (verify_warp_connection fetch_trace) (time s + timeoutMs) s
      \<noteq> None"
    using wait_loop_ends [of now time "verify_warp_connection fetch_trace" sleep, OF assms(1) verify_time assms(3)]
      assms(2) by (simp add: warp_rounds_def)
  then show ?thesis by (simp add: wait_for_warp_connection_def assms(1) [of s])
qed

section \<open>What leaves the proxy\<close>

text \<open>The bytes the proxy writes to a SOCKS server: the greeting, and requests for an IPv4 address.\<close>

definition names_an_address :: "byte list \<Rightarrow> bool" where
  "names_an_address bs =
     (bs = [5, 1, 0] \<or> (case decode_socks_request bs of None \<Rightarrow> False | Some t \<Rightarrow> is_ipv4 (ep_hostname t)))"

definition sockets_keep :: "('s \<Rightarrow> bool) \<Rightarrow> ('s, 'c) sockets \<Rightarrow> bool" where
  "sockets_keep P so =
     ((\<forall>e. keeps P (so_open so e)) \<and> (\<forall>c bs. names_an_address bs \<longrightarrow> keeps P (so_write so c bs))
      \<and> (\<forall>c n. keeps P (so_read so c n)) \<and> (\<forall>c. keeps P (so_destroy so c)) \<and> (\<forall>c n. keeps P (so_timeout so c n)))"

lemma keeps_connect_via_socks5 [keeps_intros]:
  assumes "sockets_keep P so"
  shows "keeps P (connect_via_socks5 so proxy target False)"
proof -
  have op: "keeps P (so_open so e)" "keeps P (so_read so c n)" "keeps P (so_destroy so c)"
      "keeps P (so_timeout so c n)" "names_an_address bs \<Longrightarrow> keeps P (so_write so c bs)" for e c n bs
    using assms by (auto simp: sockets_keep_def)
  have request: "keeps P (and_then (lift_result (create_socks_connect_request target False)) f)"
    if f: "\<And>bs. create_socks_connect_request target False = Inr bs \<Longrightarrow> names_an_address bs \<Longrightarrow> keeps P (f bs)"
    for f :: "byte list \<Rightarrow> ('a, unit) action"
  proof (cases "create_socks_connect_request target False")
    case (Inl e)
    then show ?thesis by (simp add: keeps_def and_then_def lift_result_def throw_def)
  next
    case (Inr bs)
    then have "keeps P (f bs)" using f local_request by (simp add: names_an_address_def)
    then show ?thesis using Inr by (simp add: keeps_def and_then_def lift_result_def ret_def)
  qed
  have address_length: "keeps P (bound_address_length so c kind)" for c kind
    by (auto simp: bound_address_length_def intro!: keeps_intros op)
  have failed: "keeps P (fail_socket so c m)" for c m and dummy :: 'z
    by (simp add: fail_socket_def keeps_and_then keeps_throw op)
  have "keeps P (socks_handshake so c target False)" for c
    unfolding socks_handshake_def
    by (auto simp: fail_socket_def names_an_address_def intro!: keeps_intros op request address_length split: option.split)
  then show ?thesis
    unfolding connect_via_socks5_def by (intro keeps_intros op)
qed

lemma keeps_connect_first [keeps_intros]:
  "(\<And>a. keeps P (connect a port)) \<Longrightarrow> keeps P (connect_first connect port failure addresses)"
  by (induction addresses arbitrary: failure) (simp_all add: keeps_throw keeps_catching)

lemma keeps_resolve_ipv4 [keeps_intros]:
  assumes "\<And>h. keeps P (query h)" and "\<And>s. P s \<Longrightarrow> P (fst (now s))"
  shows "keeps (\<lambda>s. P (fst s)) (resolve_ipv4 now query hostname)"
proof -
  have t: "keeps P (tick now)" using assms(2) by (auto simp: keeps_def tick_def split: prod.splits) (metis fst_conv)
  have c: "keeps (\<lambda>s. P (fst s)) (cached_addresses now key)" for key
    using assms(2) by (auto simp: keeps_def cached_addresses_def split: prod.splits option.splits) (metis fst_conv)
  show ?thesis
    unfolding resolve_ipv4_def Let_def
    by (auto intro!: keeps_intros t c assms(1) split: option.split)
qed


text \<open>A server that accepts everything, in a world that notes what is written.\<close>

definition sample_sockets :: "(byte list list, unit) sockets" where
  "sample_sockets = \<lparr>so_open = (\<lambda>_. ret ()), so_write = (\<lambda>_ bs s. (s @ [bs], Inr ())),
     so_read = (\<lambda>_ n. ret (if n = 2 then [5, 0] else if n = 4 then [5, 0, 0, 1] else replicate n 0)),
     so_destroy = (\<lambda>_. ret ()), so_timeout = (\<lambda>_ _. ret ())\<rparr>"

definition sample_tunnel :: "(byte list list \<times> ipv4_cache, unit, unit) tunnel" where
  "sample_tunnel = \<lparr>tn_resolve = (\<lambda>_. ret []), tn_connect = (\<lambda>_ _. ret ()), tn_write_client = (\<lambda>_ _. ret ()),
     tn_write_upstream = (\<lambda>_ _. ret ()), tn_join = (\<lambda>_ _. ret ()), tn_log = (\<lambda>_. ret ()),
     tn_destroyed = (\<lambda>_ _. False), tn_end_client = (\<lambda>_ _. ret ())\<rparr>"

lemma sample_sockets_keep: "sockets_keep (list_all names_an_address) sample_sockets"
  by (simp add: sockets_keep_def sample_sockets_def keeps_ret) (simp add: keeps_def)

definition sample_authority :: "string \<Rightarrow> url option" where
  "sample_authority v =
     (if v = ''http://10.1.2.3:443''
      then Some \<lparr>ur_protocol = ''http:'', ur_username = [], ur_password = [], ur_hostname = ''10.1.2.3'',
        ur_port = ''443'', ur_origin = v, ur_pathname = ''/'', ur_search = [], ur_hash = []\<rparr>
      else None)"


section \<open>What a client is told\<close>

text \<open>What a sequence ends in when its first part keeps a property of the state.\<close>

lemma and_then_ends:
  assumes "keeps Q m" and "Q s" and "\<And>s e. Q s \<Longrightarrow> R (s, Inl e)" and "\<And>x s. Q s \<Longrightarrow> R (f x s)"
  shows "R (and_then m f s)"
  using assms keepsD [OF assms(1,2)] by (cases "m s") (auto simp: and_then_def split: sum.split)

text \<open>A client that asks for a tunnel is told of its success exactly when it was established, and
  otherwise, unless its connection is gone, of the failure once: the operations other than the
  messages to the client leave what it was sent as it is.\<close>

lemma client_is_answered_once:
  assumes "\<And>h s. sent (fst (tn_resolve tn h s)) = sent s" and "\<And>a p s. sent (fst (tn_connect tn a p s)) = sent s"
    and "\<And>u bs s. sent (fst (tn_write_upstream tn u bs s)) = sent s \<and> snd (tn_write_upstream tn u bs s) = Inr ()"
    and "\<And>c u s. sent (fst (tn_join tn c u s)) = sent s \<and> snd (tn_join tn c u s) = Inr ()"
    and "\<And>e s. sent (fst (tn_log tn e s)) = sent s \<and> snd (tn_log tn e s) = Inr ()"
    and "\<And>c m s. sent (fst (tn_write_client tn c m s)) = sent s @ [m] \<and> snd (tn_write_client tn c m s) = Inr ()"
    and "\<And>c m s. sent (fst (tn_end_client tn c m s)) = sent s @ [m]"
  shows "sent (fst (handle_connect parse_url tn authority head client s)) =
    (case establish_tunnel parse_url tn authority head client s of
       (s', Inr _) \<Rightarrow> sent s @ [established]
     | (s', Inl e) \<Rightarrow>
         if tn_destroyed tn client (fst (tn_log tn e s')) then sent s else sent s @ [bad_gateway])"
proof -
  let ?quiet = "\<lambda>t. sent t = sent s"
  let ?told = "\<lambda>(t, r). sent t = (case r of Inl _ \<Rightarrow> sent s | Inr _ \<Rightarrow> sent s @ [established])"
  have "keeps ?quiet (tn_resolve tn h)" "keeps ?quiet (tn_connect tn a p)" for h a p
    using assms(1,2) by (simp_all add: keeps_def)
  note quiet = this
  have last: "?told (and_then (tn_write_client tn client established) (\<lambda>_.
       and_then (if head \<noteq> [] then tn_write_upstream tn u head else ret ()) (\<lambda>_. tn_join tn client u)) t)"
    if q: "?quiet t" for u t
  proof -
    obtain t1 where t1: "tn_write_client tn client established t = (t1, Inr ())" "sent t1 = sent s @ [established]"
      using assms(6) [of client established t] q by (cases "tn_write_client tn client established t") auto
    obtain t2 where t2: "(if head \<noteq> [] then tn_write_upstream tn u head else ret ()) t1 = (t2, Inr ())" "sent t2 = sent t1"
      using assms(3) [of u head t1] by (cases "tn_write_upstream tn u head t1"; cases "head = []") (auto simp: ret_def)
    show ?thesis
      using t1 t2 assms(4) [of client u t2] by (cases "tn_join tn client u t2") (simp add: and_then_def)
  qed
  have "?told (establish_tunnel parse_url tn authority head client s)"
    unfolding establish_tunnel_def
    by (rule and_then_ends [of ?quiet], intro keeps_intros quiet, simp, simp,
        rule and_then_ends [of ?quiet], intro keeps_intros quiet, assumption, simp,
        rule and_then_ends [of ?quiet], intro keeps_intros quiet, assumption, simp, rule last)
  note told = this
  show ?thesis
  proof (cases "establish_tunnel parse_url tn authority head client s")
    case (Pair s' r)
    show ?thesis
    proof (cases r)
      case (Inl e)
      obtain t where t: "tn_log tn e s' = (t, Inr ())" "sent t = sent s'"
        using assms(5) [of e s'] by (cases "tn_log tn e s'") auto
      show ?thesis
        using told t assms(7) [of client bad_gateway t] Pair Inl
        by (simp add: handle_connect_def catching_def and_then_def)
    qed (use told Pair in \<open>simp add: handle_connect_def catching_def\<close>)
  qed
qed

text \<open>The platform drops the port that is the default of the scheme, here 80, and the proxy then takes
  the authority for one without a port.\<close>

lemma default_port_is_refused:
  assumes "parse_url (''http://'' @ authority) = Some u" and "ur_port u = []"
  shows "parse_connect_authority parse_url authority = Inl bad_authority"
  using assms by (simp add: parse_connect_authority_def valid_port_def port_number_def decimal_value_def)

end
