(* ===== verification/Article_Text.thy ===== *)
theory Article_Text
  imports Js_Text
begin

text \<open>
  The text of an archived article, \<open>apps/worker/src/article-archive.ts\<close>. A string is here the list
  of its code points (of UTF-16, a surrogate without its partner counts as one), since the code
  measures titles and contents in bytes of UTF-8. The tables of Unicode are arguments; blanks, line
  terminators, the literals of JSON and the template \<open>templates/article.md.eta\<close> are written out.
\<close>

type_synonym ustring = "nat list"

section \<open>Code points\<close>

definition ascii :: "string \<Rightarrow> ustring" where
  "ascii s = map of_char s"

definition utf8_width :: "nat \<Rightarrow> nat" where
  "utf8_width c = (if c < 128 then 1 else if c < 2048 then 2 else if c < 65536 then 3 else 4)"

text \<open>\<open>Buffer.byteLength(text, "utf8")\<close> and \<open>text.length\<close>.\<close>

definition utf8_size :: "ustring \<Rightarrow> nat" where
  "utf8_size t = sum_list (map utf8_width t)"

definition js_length :: "ustring \<Rightarrow> nat" where
  "js_length t = sum_list (map (\<lambda>c. if c < 65536 then 1 else 2) t)"

text \<open>The line terminators of JavaScript and what \<open>\s\<close> and \<open>trim\<close> take for blank.\<close>

definition is_terminator :: "nat \<Rightarrow> bool" where
  "is_terminator c = (c \<in> {10, 13, 8232, 8233})"

definition is_blank :: "nat \<Rightarrow> bool" where
  "is_blank c = ((9 \<le> c \<and> c \<le> 13) \<or> (8192 \<le> c \<and> c \<le> 8202) \<or> c \<in> {32, 160, 5760, 8232, 8233, 8239, 8287, 12288, 65279})"

definition trim_end :: "ustring \<Rightarrow> ustring" where
  "trim_end t = rev (dropWhile is_blank (rev t))"

definition trim :: "ustring \<Rightarrow> ustring" where
  "trim t = trim_end (dropWhile is_blank t)"

fun has_part :: "ustring \<Rightarrow> ustring \<Rightarrow> bool" where
  "has_part p [] = (p = [])"
| "has_part p (c # cs) = (take (length p) (c # cs) = p \<or> has_part p cs)"

text \<open>The tables of Unicode: NFKC, lower case, and the letters and numbers \<open>\p{L}\<close>, \<open>\p{N}\<close>.\<close>

record unicode =
  un_nfkc :: "ustring \<Rightarrow> ustring"
  un_lower :: "ustring \<Rightarrow> ustring"
  un_word :: "nat \<Rightarrow> bool"

section \<open>Strings of JSON\<close>

definition is_surrogate :: "nat \<Rightarrow> bool" where
  "is_surrogate c = (55296 \<le> c \<and> c \<le> 57343)"

definition hex_code :: "nat \<Rightarrow> nat" where
  "hex_code n = (if n < 10 then 48 + n else 87 + n)"

definition unicode_escape :: "nat \<Rightarrow> ustring" where
  "unicode_escape c = [92, 117, hex_code (c div 4096 mod 16), hex_code (c div 256 mod 16),
     hex_code (c div 16 mod 16), hex_code (c mod 16)]"

definition json_escape :: "nat \<Rightarrow> ustring" where
  "json_escape c =
     (if c = 34 then [92, 34] else if c = 92 then [92, 92]
      else if c = 8 then [92, 98] else if c = 9 then [92, 116] else if c = 10 then [92, 110]
      else if c = 12 then [92, 102] else if c = 13 then [92, 114]
      else if c < 32 \<or> is_surrogate c then unicode_escape c else [c])"

definition json_quote :: "ustring \<Rightarrow> ustring" where
  "json_quote t = 34 # concat (map json_escape t) @ [34]"

text \<open>\<open>JSON.parse\<close> of a text that is a string literal: the value of an escape, the characters up to
  the closing quote, the surrogates joined, and the whole between blanks of JSON.\<close>

definition hex_value :: "nat \<Rightarrow> nat option" where
  "hex_value c =
     (if 48 \<le> c \<and> c \<le> 57 then Some (c - 48) else if 97 \<le> c \<and> c \<le> 102 then Some (c - 87)
      else if 65 \<le> c \<and> c \<le> 70 then Some (c - 55) else None)"

definition simple_escape :: "nat \<Rightarrow> nat option" where
  "simple_escape c = map_of [(34, 34), (92, 92), (47, 47), (98, 8), (116, 9), (110, 10), (102, 12), (114, 13)] c"

fun json_body :: "ustring \<Rightarrow> (ustring \<times> ustring) option" where
  "json_body [] = None"
| "json_body (c # cs) =
     (if c = 34 then Some ([], cs)
      else if c < 32 then None
      else if c \<noteq> 92 then map_option (apfst (Cons c)) (json_body cs)
      else case cs of
        [] \<Rightarrow> None
      | e # es \<Rightarrow>
          if e = 117 then
            (case es of
               x # y # z # w # rest \<Rightarrow>
                 (case (hex_value x, hex_value y, hex_value z, hex_value w) of
                    (Some a, Some b, Some d, Some f) \<Rightarrow>
                      map_option (apfst (Cons (4096 * a + 256 * b + 16 * d + f))) (json_body rest)
                  | _ \<Rightarrow> None)
             | _ \<Rightarrow> None)
          else case simple_escape e of
              None \<Rightarrow> None
            | Some v \<Rightarrow> map_option (apfst (Cons v)) (json_body es))"

fun join_pairs :: "ustring \<Rightarrow> ustring" where
  "join_pairs (h # l # cs) =
     (if 55296 \<le> h \<and> h \<le> 56319 \<and> 56320 \<le> l \<and> l \<le> 57343
      then (65536 + (h - 55296) * 1024 + (l - 56320)) # join_pairs cs
      else h # join_pairs (l # cs))"
| "join_pairs cs = cs"

definition json_blank :: "nat \<Rightarrow> bool" where
  "json_blank c = (c \<in> {9, 10, 13, 32})"

definition json_string_value :: "ustring \<Rightarrow> ustring option" where
  "json_string_value t =
     (case dropWhile json_blank t of
        [] \<Rightarrow> None
      | q # cs \<Rightarrow>
          if q \<noteq> 34 then None
          else case json_body cs of
              None \<Rightarrow> None
            | Some (v, rest) \<Rightarrow> if list_all json_blank rest then Some (join_pairs v) else None)"

section \<open>The template of an article\<close>

record article_fields =
  af_title :: ustring
  af_source_url :: ustring
  af_archived_at :: ustring
  af_author :: ustring
  af_published_at :: ustring
  af_tags :: ustring
  af_markdown :: ustring

text \<open>What Eta makes of \<open>templates/article.md.eta\<close>, whose tags all put their value in as it is.\<close>

definition template_line :: "string \<Rightarrow> ustring \<Rightarrow> ustring" where
  "template_line key v = ascii key @ ascii '': '' @ v @ [10]"

definition article_md_eta :: "article_fields \<Rightarrow> ustring" where
  "article_md_eta f =
     ascii ''---'' @ [10]
     @ template_line ''title'' (af_title f)
     @ template_line ''source_url'' (af_source_url f)
     @ template_line ''archived_at'' (af_archived_at f)
     @ template_line ''author'' (af_author f)
     @ template_line ''published_at'' (af_published_at f)
     @ template_line ''tags'' (af_tags f)
     @ ascii ''---'' @ [10, 10] @ af_markdown f @ [10]"

record extracted_article =
  ea_author :: ustring
  ea_markdown :: ustring
  ea_published_at :: ustring
  ea_title :: ustring

text \<open>\<open>JSON.stringify\<close> of a list of strings.\<close>

fun comma_joined :: "ustring list \<Rightarrow> ustring" where
  "comma_joined [] = []"
| "comma_joined [t] = t"
| "comma_joined (t # ts) = t @ [44] @ comma_joined ts"

definition json_string_list :: "ustring list \<Rightarrow> ustring" where
  "json_string_list ts = [91] @ comma_joined (map json_quote ts) @ [93]"

definition article_fields_of ::
  "ustring \<Rightarrow> extracted_article \<Rightarrow> ustring \<Rightarrow> ustring list \<Rightarrow> article_fields" where
  "article_fields_of archivedAt a sourceUrl tags =
     \<lparr>af_title = json_quote (ea_title a), af_source_url = json_quote sourceUrl,
      af_archived_at = json_quote archivedAt, af_author = json_quote (ea_author a),
      af_published_at = json_quote (ea_published_at a), af_tags = json_string_list tags,
      af_markdown = trim (ea_markdown a)\<rparr>"

definition render_article_markdown ::
  "(article_fields \<Rightarrow> ustring) \<Rightarrow> ustring \<Rightarrow> extracted_article \<Rightarrow> ustring \<Rightarrow> ustring list \<Rightarrow> ustring" where
  "render_article_markdown eta archivedAt a sourceUrl tags =
     trim (eta (article_fields_of archivedAt a sourceUrl tags)) @ [10]"

section \<open>The source of a stored article\<close>

text \<open>\<open>/^source_url:\s*(.+)$/m\<close>: the text behind the key at the first line that has it; blanks, also
  line terminators, are skipped, and what follows is taken to the end of its line. Where only blanks
  follow, what the expression could still capture is no JSON.\<close>

function line_after :: "ustring \<Rightarrow> ustring \<Rightarrow> ustring option" where
  "line_after prefix t =
     (if take (length prefix) t = prefix then Some (drop (length prefix) t)
      else case dropWhile (\<lambda>c. \<not> is_terminator c) t of
        [] \<Rightarrow> None
      | _ # rest \<Rightarrow> line_after prefix rest)"
  by pat_completeness auto
termination
proof (relation "measure (\<lambda>(p, t). length t)")
  fix prefix t :: ustring and c rest
  assume "dropWhile (\<lambda>c. \<not> is_terminator c) t = c # rest"
  then show "((prefix, rest), prefix, t) \<in> measure (\<lambda>(p, t). length t)"
    using length_dropWhile_le [of "\<lambda>c. \<not> is_terminator c" t] by simp
qed simp

declare line_after.simps [simp del]

definition source_url_of :: "ustring \<Rightarrow> ustring option" where
  "source_url_of content =
     (case line_after (ascii ''source_url:'') content of
        None \<Rightarrow> None
      | Some rest \<Rightarrow>
          json_string_value (takeWhile (\<lambda>c. \<not> is_terminator c) (dropWhile is_blank rest)))"

section \<open>Literals\<close>

lemma hex_value_code: "n < 16 \<Longrightarrow> hex_value (hex_code n) = Some n"
  by (simp add: hex_value_def hex_code_def)

lemma json_body_escape:
  assumes "\<not> is_surrogate c"
  shows "json_body (json_escape c @ rest) = map_option (apfst (Cons c)) (json_body rest)"
proof (cases "c \<in> {34, 92, 8, 9, 10, 12, 13}")
  case True
  then show ?thesis by (auto simp: json_escape_def simple_escape_def)
next
  case False
  then have e: "json_escape c = (if c < 32 then unicode_escape c else [c])"
    using assms by (auto simp: json_escape_def)
  have "4096 * (c div 4096 mod 16) + 256 * (c div 256 mod 16) + 16 * (c div 16 mod 16) + c mod 16 = c"
    if "c < 32" using that by simp
  then show ?thesis
    using False e by (auto simp: unicode_escape_def hex_value_code)
qed

lemma json_body_quote:
  "list_all (\<lambda>c. \<not> is_surrogate c) t \<Longrightarrow> json_body (concat (map json_escape t) @ 34 # rest) = Some (t, rest)"
  by (induction t) (simp_all add: json_body_escape)

lemma join_pairs_id: "list_all (\<lambda>c. \<not> is_surrogate c) t \<Longrightarrow> join_pairs t = t"
  by (induction t rule: join_pairs.induct) (auto simp: is_surrogate_def)

text \<open>A text without surrogates is read back from its literal.\<close>

lemma json_string_value_quote:
  "list_all (\<lambda>c. \<not> is_surrogate c) t \<Longrightarrow> json_string_value (json_quote t) = Some t"
  by (simp add: json_string_value_def json_quote_def json_blank_def json_body_quote join_pairs_id)

lemma ascii_no_surrogate: "list_all (\<lambda>c. \<not> is_surrogate c) (ascii s)"
proof (induction s)
  case (Cons c s)
  have "of_char c < (256 :: nat)" by simp
  then have "\<not> is_surrogate (of_char c)" unfolding is_surrogate_def by linarith
  then show ?case using Cons by (simp add: ascii_def)
qed (simp add: ascii_def)

text \<open>Of the line terminators a literal holds only the two that JSON does not escape.\<close>

definition one_line :: "ustring \<Rightarrow> bool" where
  "one_line t = list_all (\<lambda>c. c \<noteq> 8232 \<and> c \<noteq> 8233) t"

lemma hex_code_plain: "\<not> is_terminator (hex_code n)" if "n < 16"
  using that by (auto simp: is_terminator_def hex_code_def)

lemma json_escape_one_line: "c \<noteq> 8232 \<Longrightarrow> c \<noteq> 8233 \<Longrightarrow> list_all (\<lambda>c. \<not> is_terminator c) (json_escape c)"
  by (auto simp: json_escape_def unicode_escape_def hex_code_plain) (auto simp: is_terminator_def)

lemma json_quote_one_line: "one_line t \<Longrightarrow> list_all (\<lambda>c. \<not> is_terminator c) (json_quote t)"
proof (induction t)
  case (Cons c t)
  then show ?case
    using json_escape_one_line [of c] by (auto simp: json_quote_def one_line_def)
qed (simp add: json_quote_def is_terminator_def)

section \<open>The source of an archived article is found\<close>

lemma line_after_here: "line_after p (p @ t) = Some t"
  by (simp add: line_after.simps)

lemma line_after_next:
  assumes "list_all (\<lambda>c. \<not> is_terminator c) l" and "is_terminator c"
    and "take (length p) (l @ c # t) \<noteq> p"
  shows "line_after p (l @ c # t) = line_after p t"
proof -
  have "dropWhile (\<lambda>c. \<not> is_terminator c) (l @ c # t) = c # t"
    using assms(1,2) by (simp add: dropWhile_append list_all_iff)
  then show ?thesis using assms(3) by (subst line_after.simps) simp
qed

lemma trim_end_append: "\<not> list_all is_blank t \<Longrightarrow> trim_end (s @ t) = s @ trim_end t"
  by (auto simp: trim_end_def dropWhile_append list_all_iff)

text \<open>The rendered head of an article: what stands before its source, and that source.\<close>

lemma article_head:
  "article_md_eta f = (ascii ''---'' @ [10]) @ (ascii ''title: '' @ af_title f @ [10])
     @ ascii ''source_url:'' @ [32] @ af_source_url f @ [10]
     @ template_line ''archived_at'' (af_archived_at f) @ template_line ''author'' (af_author f)
     @ template_line ''published_at'' (af_published_at f) @ template_line ''tags'' (af_tags f)
     @ ascii ''---'' @ [10, 10] @ af_markdown f @ [10]"
  by (simp add: article_md_eta_def template_line_def ascii_def)

lemma rendered_head:
  obtains rest where "trim (article_md_eta f) @ [10] = (ascii ''---'' @ [10]) @ (ascii ''title: '' @ af_title f @ [10])
     @ ascii ''source_url:'' @ [32] @ af_source_url f @ 10 # rest"
proof -
  let ?tail = "template_line ''archived_at'' (af_archived_at f) @ template_line ''author'' (af_author f)
     @ template_line ''published_at'' (af_published_at f) @ template_line ''tags'' (af_tags f)
     @ ascii ''---'' @ [10, 10] @ af_markdown f @ [10]"
  let ?head = "(ascii ''---'' @ [10]) @ (ascii ''title: '' @ af_title f @ [10])
     @ ascii ''source_url:'' @ [32] @ af_source_url f @ [10]"
  have "\<not> list_all is_blank ?tail" by (simp add: ascii_def is_blank_def)
  moreover have "dropWhile is_blank (article_md_eta f) = article_md_eta f"
    by (simp add: article_md_eta_def ascii_def is_blank_def)
  ultimately have "trim (article_md_eta f) = ?head @ trim_end ?tail"
    unfolding trim_def article_head using trim_end_append [of ?tail ?head] by simp
  then show ?thesis using that [of "trim_end ?tail @ [10]"] by simp
qed

text \<open>The page stored for an article is found under its address again: whatever its title (which
  may not hold the two line terminators of Unicode), its text and its tags are, the first
  \<open>source_url\<close> line of the rendered page is the JSON of exactly the address it was rendered for.\<close>

lemma rendered_source:
  assumes "one_line (ea_title a)" and "one_line u" and "list_all (\<lambda>c. \<not> is_surrogate c) u"
  shows "source_url_of (render_article_markdown article_md_eta archivedAt a u tags) = Some u"
proof -
  let ?f = "article_fields_of archivedAt a u tags"
  obtain rest where r: "render_article_markdown article_md_eta archivedAt a u tags =
      (ascii ''---'' @ [10]) @ (ascii ''title: '' @ json_quote (ea_title a) @ [10])
        @ ascii ''source_url:'' @ [32] @ json_quote u @ 10 # rest"
    using rendered_head [of ?f] by (auto simp: render_article_markdown_def article_fields_of_def)
  let ?found = "ascii ''source_url:'' @ [32] @ json_quote u @ 10 # rest"
  have title: "list_all (\<lambda>c. \<not> is_terminator c) (ascii ''title: '' @ json_quote (ea_title a))"
    using json_quote_one_line assms(1) by (simp add: ascii_def is_terminator_def)
  have "line_after (ascii ''source_url:'') ((ascii ''title: '' @ json_quote (ea_title a)) @ 10 # ?found)
      = line_after (ascii ''source_url:'') ?found"
    by (rule line_after_next [OF title]) (simp_all add: is_terminator_def ascii_def)
  moreover have "line_after (ascii ''source_url:'') (ascii ''---'' @ 10 # t) = line_after (ascii ''source_url:'') t" for t
    by (rule line_after_next) (simp_all add: is_terminator_def ascii_def)
  ultimately have "line_after (ascii ''source_url:'') (render_article_markdown article_md_eta archivedAt a u tags)
      = Some ([32] @ json_quote u @ 10 # rest)"
    unfolding r using line_after_here by simp
  moreover have "takeWhile (\<lambda>c. \<not> is_terminator c) (dropWhile is_blank ([32] @ json_quote u @ 10 # rest)) = json_quote u"
  proof -
    have "dropWhile is_blank ([32] @ json_quote u @ 10 # rest) = json_quote u @ 10 # rest"
      by (simp add: json_quote_def is_blank_def)
    then show ?thesis
      using json_quote_one_line [OF assms(2)] by (simp add: takeWhile_append list_all_iff is_terminator_def)
  qed
  ultimately show ?thesis
    using json_string_value_quote [OF assms(3)] by (simp add: source_url_of_def)
qed

end
