(* ===== verification/Article_Archive.thy ===== *)
theory Article_Archive
  imports Article_Text Job_Handler Web_Url
begin

text \<open>
  The archiver of articles, \<open>createArticleArchiver\<close> of \<open>apps/worker/src/article-archive.ts\<close>: it gets
  an article from the API of Zhihu, from the page as it is served, or from the page as a browser
  renders it, assesses what it got, renders the template and hands it to the repository and to the
  mirror. The fetcher, the browser, Defuddle, Eta, the repository and the mirror are operations or
  functions of a record; of the log the model has the events.
\<close>

section \<open>Assessment\<close>

definition article_error_markers :: "ustring list" where
  "article_error_markers =
     [[35775, 38382, 36807, 20110, 39057, 32321], [24403, 21069, 35831, 27714, 23384, 22312, 24322, 24120],
      [29615, 22659, 24322, 24120], [35831, 23436, 25104, 39564, 35777],
      ascii ''unable to access'', ascii ''access denied'', ascii ''this content is not available'']"

record article_assessment =
  as_reason :: "string option"
  as_valid :: bool
  as_visible :: nat

definition visible_characters :: "ustring \<Rightarrow> nat" where
  "visible_characters t = js_length (filter (\<lambda>c. \<not> is_blank c) t)"

definition assess_article :: "unicode \<Rightarrow> extracted_article \<Rightarrow> nat \<Rightarrow> article_assessment" where
  "assess_article un a least =
     (let markdown = trim (ea_markdown a); visible = visible_characters markdown; normalized = un_lower un markdown
      in if list_ex (\<lambda>m. has_part m normalized) article_error_markers
         then \<lparr>as_reason = Some ''error_marker'', as_valid = False, as_visible = visible\<rparr>
         else if trim (ea_title a) = []
         then \<lparr>as_reason = Some ''missing_title'', as_valid = False, as_visible = visible\<rparr>
         else if visible < least
         then \<lparr>as_reason = Some ''short_content'', as_valid = False, as_visible = visible\<rparr>
         else \<lparr>as_reason = None, as_valid = True, as_visible = visible\<rparr>)"

definition with_fallback_title :: "extracted_article \<Rightarrow> ustring \<Rightarrow> extracted_article" where
  "with_fallback_title a fallback =
     (if trim (ea_title a) \<noteq> [] \<or> trim fallback = [] then a else a\<lparr>ea_title := trim fallback\<rparr>)"

section \<open>File names\<close>

text \<open>A run of characters that are no letters or numbers becomes one hyphen.\<close>

function hyphenate :: "(nat \<Rightarrow> bool) \<Rightarrow> ustring \<Rightarrow> ustring" where
  "hyphenate word [] = []"
| "hyphenate word (c # cs) =
     (if word c then c # hyphenate word cs else 45 # hyphenate word (dropWhile (\<lambda>x. \<not> word x) cs))"
  by pat_completeness auto
termination
  by (relation "measure (\<lambda>(w, t). length t)") (auto simp: le_imp_less_Suc length_dropWhile_le)

definition strip_hyphens :: "ustring \<Rightarrow> ustring" where
  "strip_hyphens t = rev (dropWhile (\<lambda>c. c = 45) (rev (dropWhile (\<lambda>c. c = 45) t)))"

definition normalized_title :: "unicode \<Rightarrow> ustring \<Rightarrow> ustring" where
  "normalized_title un title =
     (let t = strip_hyphens (hyphenate (un_word un) (un_nfkc un title)) in if t = [] then ascii ''untitled'' else t)"

fun fit_bytes :: "nat \<Rightarrow> ustring \<Rightarrow> ustring" where
  "fit_bytes bytes [] = []"
| "fit_bytes bytes (c # cs) =
     (if 171 < bytes + utf8_width c then [] else c # fit_bytes (bytes + utf8_width c) cs)"

text \<open>The date in Shanghai, as \<open>Intl.DateTimeFormat\<close> gives it, without separators.\<close>

definition archive_date :: "instant \<Rightarrow> string" where
  "archive_date t =
     (case civil_date ((t + 8 * 3600000) div 86400000) of
        (y, m, d) \<Rightarrow> js_integer y @ two_digits m @ two_digits d)"

definition build_archive_filename :: "unicode \<Rightarrow> ustring \<Rightarrow> instant \<Rightarrow> ustring" where
  "build_archive_filename un title archivedAt =
     (let date = ascii (archive_date archivedAt)
      in date @ [45] @ fit_bytes (utf8_size (date @ ascii ''-.md'')) (normalized_title un title) @ ascii ''.md'')"

section \<open>Requests to Zhihu\<close>

record zhihu_request =
  zr_api_path :: string
  zr_content_field :: string
  zr_origin :: string
  zr_title_field :: string

definition path_segments :: "url \<Rightarrow> string list" where
  "path_segments u = filter (\<lambda>p. p \<noteq> []) (split_on CHR ''/'' (ur_pathname u))"

definition segment :: "string list \<Rightarrow> nat \<Rightarrow> string option" where
  "segment ps i = (if i < length ps then Some (ps ! i) else None)"

definition pin_id :: "url \<Rightarrow> string option" where
  "pin_id u =
     (let ps = path_segments u
      in if ur_hostname u = ''www.zhihu.com'' \<and> segment ps 0 = Some ''pin'' then segment ps 1
         else if ur_hostname u = ''www.zhihu.com'' \<and> segment ps 0 = Some ''video''
           \<and> segment ps 1 = Some ''immersion'' \<and> segment ps 2 = Some ''feed'' then segment ps 3
         else None)"

definition zhihu_request_of :: "url \<Rightarrow> zhihu_request option" where
  "zhihu_request_of u =
     (let ps = path_segments u
      in if ur_hostname u = ''www.zhihu.com'' \<and> 4 \<le> length ps
           \<and> segment ps 0 = Some ''question'' \<and> segment ps 2 = Some ''answer''
         then Some \<lparr>zr_api_path = ''/api/v4/answers/'' @ ps ! 3 @ ''?include=content,excerpt,question,author,created_time'',
                zr_content_field = ''content'', zr_origin = ''https://www.zhihu.com'', zr_title_field = ''question''\<rparr>
         else if ur_hostname u = ''zhuanlan.zhihu.com'' \<and> segment ps 0 = Some ''p'' \<and> segment ps 1 \<noteq> None
         then Some \<lparr>zr_api_path = ''/api/articles/'' @ ps ! 1, zr_content_field = ''content'',
                zr_origin = ''https://zhuanlan.zhihu.com'', zr_title_field = ''title''\<rparr>
         else case pin_id u of
             None \<Rightarrow> None
           | Some i \<Rightarrow> Some \<lparr>zr_api_path = ''/api/v4/pins/'' @ i, zr_content_field = ''content_html'',
                zr_origin = ''https://www.zhihu.com'', zr_title_field = ''excerpt_title''\<rparr>)"

definition resolve_zhihu_article_request :: "url_parser \<Rightarrow> string \<Rightarrow> thrown + zhihu_request option" where
  "resolve_zhihu_article_request parse_url url =
     (case parse_url url of None \<Rightarrow> Inl (Thrown_TypeError ''Invalid URL'') | Some u \<Rightarrow> Inr (zhihu_request_of u))"

text \<open>The text before the first \<open>" | "\<close>, of a value that \<open>String\<close> turns into text.\<close>

fun before_bar :: "string \<Rightarrow> string" where
  "before_bar [] = []"
| "before_bar (c # cs) = (if take 3 (c # cs) = '' | '' then [] else c # before_bar cs)"

definition js_string :: "(json \<Rightarrow> string) \<Rightarrow> json option \<Rightarrow> string" where
  "js_string string_of v =
     (case v of None \<Rightarrow> [] | Some JNull \<Rightarrow> [] | Some (JStr s) \<Rightarrow> s | Some w \<Rightarrow> string_of w)"

definition zhihu_title :: "(json \<Rightarrow> string) \<Rightarrow> json_record \<Rightarrow> zhihu_request \<Rightarrow> string" where
  "zhihu_title string_of es rq =
     (let v = (case (zr_title_field rq = ''question'', json_get es ''question'') of
                 (True, Some (JObj q)) \<Rightarrow> json_get q ''title''
               | _ \<Rightarrow> json_get es (zr_title_field rq))
      in js_trim (before_bar (js_string string_of v)))"

definition build_zhihu_document ::
  "(json \<Rightarrow> string) \<Rightarrow> (string \<Rightarrow> string \<Rightarrow> ustring) \<Rightarrow> json \<Rightarrow> zhihu_request \<Rightarrow> thrown + ustring" where
  "build_zhihu_document string_of document payload rq =
     (case payload of
        JObj es \<Rightarrow>
          (case json_get es (zr_content_field rq) of
             Some (JStr content) \<Rightarrow>
               if js_trim content = [] then Inl (Thrown_Error ''zhihu_empty_content'')
               else Inr (document content (zhihu_title string_of es rq))
           | _ \<Rightarrow> Inl (Thrown_Error ''zhihu_empty_content''))
      | _ \<Rightarrow> Inl (Thrown_Error ''zhihu_invalid_response''))"

section \<open>Services\<close>

text \<open>A response; its text is read by an operation of its own.\<close>

record fetched_page =
  fp_number :: nat
  fp_ok :: bool
  fp_status :: nat
  fp_content_type :: "string option"

text \<open>What Defuddle answers; a property may be missing.\<close>

record defuddled =
  df_author :: "ustring option"
  df_content :: "ustring option"
  df_content_markdown :: "ustring option"
  df_published :: "ustring option"
  df_title :: "ustring option"

record article_event =
  av_filename :: "ustring option"
  av_reason :: "string option"
  av_source_url :: string
  av_status :: string
  av_title :: ustring
  av_fingerprint :: string

text \<open>The pages of the browser; a wait answers whether it ended before its time was up.\<close>

record ('s, 'c, 'p) browser_ops =
  br_context :: "('s, 'c) action"
  br_zhihu_context :: "json \<Rightarrow> ('s, 'c) action"
  br_page :: "'c \<Rightarrow> ('s, 'p) action"
  br_goto :: "'p \<Rightarrow> string \<Rightarrow> rat \<Rightarrow> string \<Rightarrow> ('s, unit) action"
  br_wait_selector :: "'p \<Rightarrow> string \<Rightarrow> rat \<Rightarrow> ('s, bool) action"
  br_wait_idle :: "'p \<Rightarrow> rat \<Rightarrow> ('s, bool) action"
  br_scroll :: "'p \<Rightarrow> ('s, unit) action"
  br_pause :: "'p \<Rightarrow> nat \<Rightarrow> ('s, unit) action"
  br_content :: "'p \<Rightarrow> ('s, ustring) action"
  br_fetch :: "'p \<Rightarrow> string \<Rightarrow> rat \<Rightarrow> ('s, (nat \<times> ustring) option) action"
  br_close :: "'c \<Rightarrow> ('s, unit) action"

record archive_limits =
  al_browser_timeout_seconds :: rat
  al_http_timeout_seconds :: rat
  al_max_html_bytes :: nat
  al_max_output_bytes :: nat
  al_min_visible_characters :: nat

record zhihu_source =
  zs_config :: json_record
  zs_credential_ref :: "string option"

record ('s, 'c, 'p) archiver =
  ar_limits :: archive_limits
  ar_zhihu :: "zhihu_source option"
  ar_unicode :: unicode
  ar_parse_url :: url_parser
  ar_sha256 :: "string \<Rightarrow> string"
  ar_fetch :: "string \<Rightarrow> rat \<Rightarrow> ('s, fetched_page) action"
  ar_page_text :: "fetched_page \<Rightarrow> ('s, ustring) action"
  ar_defuddle :: "string \<Rightarrow> ustring \<Rightarrow> ('s, defuddled) action"
  ar_browser :: "('s, 'c, 'p) browser_ops"
  ar_parse_json :: "ustring \<Rightarrow> thrown + json"
  ar_string_of :: "json \<Rightarrow> string"
  ar_zhihu_document :: "string \<Rightarrow> string \<Rightarrow> ustring"
  ar_credential :: "(string \<Rightarrow> ('s, json option) action) option"
  ar_read_template :: "('s, ustring) action"
  ar_eta :: "ustring \<Rightarrow> article_fields \<Rightarrow> ustring"
  ar_now :: "'s clock"
  ar_iso :: "instant \<Rightarrow> string"
  ar_save :: "ustring \<Rightarrow> ustring \<Rightarrow> string \<Rightarrow> ('s, bool \<times> ustring) action"
  ar_mirror :: "(ustring \<Rightarrow> ustring \<Rightarrow> string \<Rightarrow> ustring \<Rightarrow> ('s, unit) action) option"
  ar_record_event :: "(article_event \<Rightarrow> ('s, unit) action) option"
  ar_log :: "string \<Rightarrow> 's \<Rightarrow> 's"

definition log_event :: "('s, 'c, 'p) archiver \<Rightarrow> string \<Rightarrow> ('s, unit) action" where
  "log_event ar event = modify (ar_log ar event)"

definition record_event :: "('s, 'c, 'p) archiver \<Rightarrow> article_event \<Rightarrow> ('s, unit) action" where
  "record_event ar e = (case ar_record_event ar of None \<Rightarrow> ret () | Some f \<Rightarrow> f e)"

section \<open>Extraction\<close>

definition extract_article :: "('s, 'c, 'p) archiver \<Rightarrow> string \<Rightarrow> ustring \<Rightarrow> ('s, extracted_article) action" where
  "extract_article ar url html =
     and_then (ar_defuddle ar url html) (\<lambda>d. ret
       \<lparr>ea_author = trim (nullish (df_author d) []),
        ea_markdown = trim (nullish (df_content_markdown d) (nullish (df_content d) [])),
        ea_published_at = trim (nullish (df_published d) []), ea_title = trim (nullish (df_title d) [])\<rparr>)"

definition check_html :: "('s, 'c, 'p) archiver \<Rightarrow> ustring \<Rightarrow> ('s, unit) action" where
  "check_html ar html =
     and_then (when_then (al_max_html_bytes (ar_limits ar) < utf8_size html) (Thrown_Error ''article_html_too_large'')) (\<lambda>_.
       when_then (js_length (trim html) < 100) (Thrown_Error ''article_html_empty''))"

definition html_content_type :: "string option \<Rightarrow> bool" where
  "html_content_type v =
     (let t = map ascii_lower (nullish v [])
      in contains_ci ''text/html'' t \<or> contains_ci ''application/xhtml+xml'' t)"

definition fetch_and_extract :: "('s, 'c, 'p) archiver \<Rightarrow> string \<Rightarrow> ('s, extracted_article) action" where
  "fetch_and_extract ar url =
     and_then (ar_fetch ar url (al_http_timeout_seconds (ar_limits ar) * 1000)) (\<lambda>page.
     and_then (when_then (\<not> fp_ok page) (Thrown_Error (''article_http_'' @ decimal (fp_status page)))) (\<lambda>_.
     and_then (when_then (\<not> html_content_type (fp_content_type page)) (Thrown_Error ''article_unsupported_content_type'')) (\<lambda>_.
     and_then (ar_page_text ar page) (\<lambda>html.
     and_then (check_html ar html) (\<lambda>_. extract_article ar url html)))))"

text \<open>The answer of \<open>fetchZhihuArticle\<close>; the status of a rejected request stands for the
  \<open>ZhihuApiRejectedError\<close> that carries it. The context is closed in the \<open>finally\<close>.\<close>

definition read_zhihu_answer ::
  "('s, 'c, 'p) archiver \<Rightarrow> string \<Rightarrow> zhihu_request \<Rightarrow> (nat \<times> ustring) option \<Rightarrow> ('s, nat + extracted_article) action" where
  "read_zhihu_answer ar url rq answer =
     (case answer of
        None \<Rightarrow> throw (Thrown_Error ''zhihu_api_timeout'')
      | Some (status, body) \<Rightarrow>
          if status \<noteq> 200 then ret (Inl status)
          else
            and_then (when_then (al_max_html_bytes (ar_limits ar) < utf8_size body)
              (Thrown_Error ''article_html_too_large'')) (\<lambda>_.
            and_then (lift_result (ar_parse_json ar body)) (\<lambda>payload.
            and_then (lift_result (build_zhihu_document (ar_string_of ar) (ar_zhihu_document ar) payload rq)) (\<lambda>html.
            and_then (extract_article ar url html) (\<lambda>a. ret (Inr a))))))"

definition fetch_zhihu_article ::
  "('s, 'c, 'p) archiver \<Rightarrow> json \<Rightarrow> string \<Rightarrow> ('s, nat + extracted_article) action" where
  "fetch_zhihu_article ar credential url =
     and_then (lift_result (resolve_zhihu_article_request (ar_parse_url ar) url)) (\<lambda>found.
       case found of
         None \<Rightarrow> throw (Thrown_Error ''unsupported_zhihu_article_url'')
       | Some rq \<Rightarrow>
           (let br = ar_browser ar; ms = al_browser_timeout_seconds (ar_limits ar) * 1000
            in and_then (br_zhihu_context br credential) (\<lambda>c.
               and_then (br_page br c) (\<lambda>p.
                 finally_do
                   (and_then (br_goto br p (zr_origin rq) ms ''commit'') (\<lambda>_.
                    and_then (br_fetch br p (zr_api_path rq) ms) (read_zhihu_answer ar url rq)))
                   (br_close br c)))))"

definition is_wechat_article_url :: "url_parser \<Rightarrow> string \<Rightarrow> thrown + bool" where
  "is_wechat_article_url parse_url url =
     (case parse_url url of
        None \<Rightarrow> Inl (Thrown_TypeError ''Invalid URL'')
      | Some u \<Rightarrow> Inr (map ascii_lower (ur_hostname u) = ''mp.weixin.qq.com''))"

definition browser_extract :: "('s, 'c, 'p) archiver \<Rightarrow> string \<Rightarrow> ('s, extracted_article) action" where
  "browser_extract ar url =
     (let br = ar_browser ar; ms = al_browser_timeout_seconds (ar_limits ar) * 1000
      in and_then (br_context br) (\<lambda>c.
         and_then (br_page br c) (\<lambda>p.
           finally_do
             (and_then (br_goto br p url ms ''domcontentloaded'') (\<lambda>_.
              and_then (lift_result (is_wechat_article_url (ar_parse_url ar) url)) (\<lambda>wechat.
              and_then (if wechat then br_wait_selector br p ''#js_content'' (min ms 15000) else ret True) (\<lambda>_.
              and_then (br_wait_idle br p (min ms 10000)) (\<lambda>_.
              and_then (br_scroll br p) (\<lambda>_.
              and_then (br_pause br p 1000) (\<lambda>_.
              and_then (br_content br p) (\<lambda>html.
              and_then (check_html ar html) (\<lambda>_. extract_article ar url html)))))))))
             (br_close br c))))"

text \<open>The direct attempt: its error is logged and swallowed.\<close>

definition direct_article ::
  "('s, 'c, 'p) archiver \<Rightarrow> article_item \<Rightarrow> ('s, (extracted_article \<times> article_assessment) option) action" where
  "direct_article ar item =
     catching
       (and_then (fetch_and_extract ar (article_url item)) (\<lambda>a.
          let a' = with_fallback_title a (ascii (nullish (article_title item) []))
          in ret (Some (a', assess_article (ar_unicode ar) a' (al_min_visible_characters (ar_limits ar))))))
       (\<lambda>_. and_then (log_event ar ''article.extract.direct.rejected'') (\<lambda>_. ret None))"

definition page_article ::
  "('s, 'c, 'p) archiver \<Rightarrow> article_item \<Rightarrow> ('s, bool \<times> extracted_article) action" where
  "page_article ar item =
     and_then (direct_article ar item) (\<lambda>direct.
       case direct of
         Some (a, v) \<Rightarrow>
           if as_valid v then and_then (log_event ar ''article.extract.direct.succeeded'') (\<lambda>_. ret (False, a))
           else and_then (log_event ar ''article.extract.direct.rejected'') (\<lambda>_.
             and_then (browser_extract ar (article_url item)) (\<lambda>b.
               ret (True, with_fallback_title b (ascii (nullish (article_title item) [])))))
       | None \<Rightarrow>
           and_then (browser_extract ar (article_url item)) (\<lambda>b.
             ret (True, with_fallback_title b (ascii (nullish (article_title item) [])))))"

definition zhihu_credential_name :: "zhihu_source option \<Rightarrow> string option" where
  "zhihu_credential_name src =
     (case src of
        None \<Rightarrow> None
      | Some z \<Rightarrow>
          (case read_optional_string (zs_config z) ''credential_name'' of
             Some n \<Rightarrow> Some n
           | None \<Rightarrow> zs_credential_ref z))"

definition zhihu_article ::
  "('s, 'c, 'p) archiver \<Rightarrow> article_item \<Rightarrow> ('s, nat + extracted_article) action" where
  "zhihu_article ar item =
     (case zhihu_credential_name (ar_zhihu ar) of
        None \<Rightarrow> throw (Thrown_Error ''zhihu_credential_name_missing'')
      | Some [] \<Rightarrow> throw (Thrown_Error ''zhihu_credential_name_missing'')
      | Some name \<Rightarrow>
          (case ar_credential ar of
             None \<Rightarrow> throw (Thrown_Error ''zhihu_credential_provider_missing'')
           | Some get \<Rightarrow>
               and_then (get name) (\<lambda>credential.
                 case credential of
                   None \<Rightarrow> throw (Thrown_Error ''zhihu_credential_missing'')
                 | Some v \<Rightarrow> fetch_zhihu_article ar v (article_url item))))"

section \<open>Archiving\<close>

definition is_code_char :: "char \<Rightarrow> bool" where
  "is_code_char c = is_word c"

definition safe_error_code :: "thrown \<Rightarrow> string" where
  "safe_error_code e =
     (case e of
        Thrown_Other \<Rightarrow> ''article_archive_failed''
      | _ \<Rightarrow> (let m = thrown_message e
              in if m \<noteq> [] \<and> list_all is_code_char m then m else ''article_archive_failed''))"

definition safe_failure_reason_code :: "thrown \<Rightarrow> string" where
  "safe_failure_reason_code e =
     (let m = (case e of Thrown_Other \<Rightarrow> [] | _ \<Rightarrow> thrown_message e)
      in if list_ex (\<lambda>w. contains_ci w m) [''timeout'', ''timed out'', ''time out''] then ''article_timeout''
         else if list_ex (\<lambda>w. contains_ci w m)
           [''network'', ''fetch'', ''connection'', ''socket'', ''econn'', ''enotfound'', ''unavailable'']
         then ''article_network_error''
         else safe_error_code e)"

text \<open>What the steps before the first write end in, and what the whole can fail with.\<close>

datatype prepared =
    Article_Skipped
  | Article_Prepared ustring ustring ustring
  | Zhihu_Rejected nat

datatype archive_failure =
    Archive_Thrown thrown
  | Zhihu_Api_Rejected nat

fun failure_error :: "archive_failure \<Rightarrow> thrown" where
  "failure_error (Archive_Thrown e) = e"
| "failure_error (Zhihu_Api_Rejected n) = Thrown_Error ''zhihu_api_rejected''"

fun upstream_status :: "archive_failure \<Rightarrow> int option" where
  "upstream_status (Archive_Thrown e) = None"
| "upstream_status (Zhihu_Api_Rejected n) = Some (int n)"

definition item_title :: "article_item \<Rightarrow> ustring" where
  "item_title item = ascii (nullish (article_title item) [])"

definition article_event_of ::
  "('s, 'c, 'p) archiver \<Rightarrow> article_item \<Rightarrow> ustring option \<Rightarrow> string option \<Rightarrow> string \<Rightarrow> ustring \<Rightarrow> article_event" where
  "article_event_of ar item filename reason status title =
     \<lparr>av_filename = filename, av_reason = reason, av_source_url = article_url item, av_status = status,
      av_title = title, av_fingerprint = ar_sha256 ar (article_url item)\<rparr>"

definition final_title :: "extracted_article \<Rightarrow> article_item \<Rightarrow> ustring" where
  "final_title a item =
     (if ea_title a \<noteq> [] then ea_title a
      else if item_title item \<noteq> [] then item_title item else ascii (article_url item))"

definition render_article :: "('s, 'c, 'p) archiver \<Rightarrow> article_item \<Rightarrow> extracted_article \<Rightarrow> ('s, prepared) action" where
  "render_article ar item a =
     and_then (tick (ar_now ar)) (\<lambda>archivedAt.
     and_then (ar_read_template ar) (\<lambda>template.
       let title = final_title a item;
           content = render_article_markdown (ar_eta ar template) (ascii (ar_iso ar archivedAt))
             (a\<lparr>ea_title := title\<rparr>) (ascii (article_url item)) (map ascii (nullish (article_tags item) []))
       in and_then (when_then (al_max_output_bytes (ar_limits ar) < utf8_size content)
            (Thrown_Error ''article_output_too_large'')) (\<lambda>_.
            ret (Article_Prepared content (build_archive_filename (ar_unicode ar) title archivedAt) title))))"

definition assessed_article ::
  "('s, 'c, 'p) archiver \<Rightarrow> article_item \<Rightarrow> bool \<times> extracted_article \<Rightarrow> ('s, prepared) action" where
  "assessed_article ar item = (\<lambda>(usedBrowser, a).
     let v = assess_article (ar_unicode ar) a (al_min_visible_characters (ar_limits ar))
     in if \<not> as_valid v
        then and_then (log_event ar ''article.extract.failed'') (\<lambda>_.
             and_then (record_event ar (article_event_of ar item None (as_reason v) ''skipped''
               (if ea_title a \<noteq> [] then ea_title a else item_title item))) (\<lambda>_. ret Article_Skipped))
        else and_then (if usedBrowser then log_event ar ''article.extract.browser.succeeded'' else ret ()) (\<lambda>_.
             render_article ar item a))"

definition prepare_article :: "('s, 'c, 'p) archiver \<Rightarrow> article_item \<Rightarrow> ('s, prepared) action" where
  "prepare_article ar item =
     and_then (lift_result (resolve_zhihu_article_request (ar_parse_url ar) (article_url item))) (\<lambda>rq.
       case rq of
         Some _ \<Rightarrow> and_then (zhihu_article ar item) (\<lambda>r.
           case r of Inl status \<Rightarrow> ret (Zhihu_Rejected status) | Inr a \<Rightarrow> render_article ar item a)
       | None \<Rightarrow> and_then (page_article ar item) (assessed_article ar item))"

definition write_article ::
  "('s, 'c, 'p) archiver \<Rightarrow> article_item \<Rightarrow> ustring \<Rightarrow> ustring \<Rightarrow> ustring \<Rightarrow> ('s, unit) action" where
  "write_article ar item content filename title =
     and_then (ar_save ar content filename (article_url item)) (\<lambda>(created, saved).
     and_then (case ar_mirror ar of None \<Rightarrow> ret () | Some m \<Rightarrow> m content saved (article_url item) title) (\<lambda>_.
       record_event ar (article_event_of ar item (Some saved) None (if created then ''committed'' else ''exists'') title)))"

definition report_archive_failure ::
  "('s, 'c, 'p) archiver \<Rightarrow> article_item \<Rightarrow> bool \<Rightarrow> archive_failure \<Rightarrow> ('s, delivery_result) action" where
  "report_archive_failure ar item writeStarted failure =
     (let e = failure_error failure
      in and_then (log_event ar ''article.archive.failed'') (\<lambda>_.
         and_then (catching
           (record_event ar (article_event_of ar item None (Some (safe_error_code e))
              (if writeStarted then ''uncertain'' else ''failed'') (item_title item)))
           (\<lambda>_. log_event ar ''article.archive.event_record_failed'')) (\<lambda>_.
           ret (Delivery_Fail (\<not> writeStarted) (Some (safe_failure_reason_code e)) (upstream_status failure)))))"

definition archive_article :: "('s, 'c, 'p) archiver \<Rightarrow> article_item \<Rightarrow> ('s, delivery_result) action" where
  "archive_article ar item s =
     (case prepare_article ar item s of
        (s1, Inl e) \<Rightarrow> report_archive_failure ar item False (Archive_Thrown e) s1
      | (s1, Inr Article_Skipped) \<Rightarrow> (s1, Inr Delivery_Ok)
      | (s1, Inr (Zhihu_Rejected n)) \<Rightarrow> report_archive_failure ar item False (Zhihu_Api_Rejected n) s1
      | (s1, Inr (Article_Prepared content filename title)) \<Rightarrow>
          (case write_article ar item content filename title s1 of
             (s2, Inl e) \<Rightarrow> report_archive_failure ar item True (Archive_Thrown e) s2
           | (s2, Inr _) \<Rightarrow> (s2, Inr Delivery_Ok)))"

section \<open>A file name fits\<close>

lemma utf8_size_simps [simp]:
  "utf8_size [] = 0" "utf8_size (c # t) = utf8_width c + utf8_size t" "utf8_size (t @ u) = utf8_size t + utf8_size u"
  by (simp_all add: utf8_size_def)

lemma utf8_ascii: "list_all (\<lambda>c. of_char c < (128 :: nat)) s \<Longrightarrow> utf8_size (ascii s) = length s"
  by (induction s) (simp_all add: ascii_def utf8_width_def)

lemma fit_bytes_bound: "b \<le> 171 \<Longrightarrow> b + utf8_size (fit_bytes b t) \<le> 171"
  by (induction b t rule: fit_bytes.induct) auto

lemma fit_bytes_prefix: "\<exists>rest. t = fit_bytes b t @ rest"
  by (induction b t rule: fit_bytes.induct) auto

lemma hyphenate_chars: "c \<in> set (hyphenate word t) \<Longrightarrow> word c \<or> c = 45"
  by (induction word t rule: hyphenate.induct) (auto split: if_splits)

lemma normalized_title_chars: "c \<in> set (normalized_title un t) \<Longrightarrow> un_word un c \<or> c = 45 \<or> c \<in> set (ascii ''untitled'')"
proof -
  assume c: "c \<in> set (normalized_title un t)"
  have sub: "set (strip_hyphens u) \<subseteq> set u" for u
    by (auto simp: strip_hyphens_def dest!: set_dropWhileD)
  show ?thesis
    using c sub [of "hyphenate (un_word un) (un_nfkc un t)"] hyphenate_chars [of c "un_word un" "un_nfkc un t"]
    by (auto simp: normalized_title_def Let_def split: if_splits)
qed

text \<open>The date has eight digits for the next thousands of years.\<close>

definition in_archive_era :: "instant \<Rightarrow> bool" where
  "in_archive_era t = (0 \<le> t \<and> t < 250000000000000)"

lemma length_decimal_4: "1000 \<le> n \<Longrightarrow> n < 10000 \<Longrightarrow> length (decimal n) = 4"
proof -
  assume n: "1000 \<le> n" "n < 10000"
  have "length (decimal m) = 1" if "m < 10" for m using that by (simp add: decimal.simps)
  moreover have "length (decimal m) = Suc (length (decimal (m div 10)))" if "10 \<le> m" for m
    using that by (subst decimal.simps) simp
  ultimately show ?thesis using n by simp
qed

lemma length_two_digits: "0 \<le> i \<Longrightarrow> i < 100 \<Longrightarrow> length (two_digits i) = 2"
proof -
  assume i: "0 \<le> i" "i < 100"
  have "length (decimal m) = 1" if "m < 10" for m using that by (simp add: decimal.simps)
  moreover have "length (decimal m) = Suc (length (decimal (m div 10)))" if "10 \<le> m" for m
    using that by (subst decimal.simps) simp
  ultimately show ?thesis using i by (auto simp: two_digits_def js_integer_def nat_less_iff zdiv_int)
qed

lemma quotient_bounds: "0 < k \<Longrightarrow> k * (x div k) \<le> x \<and> x < k * (x div k) + (k :: int)"
  by (metis add.commute add_less_cancel_left div_mult_mod_eq le_add_same_cancel2 mult.commute pos_mod_bound pos_mod_sign
      add_left_mono less_add_same_cancel2)

lemma civil_bounds:
  assumes "civil_date day = (y, m, d)" and "0 \<le> day" and "day < 2893520"
  shows "1000 \<le> y \<and> y < 10000 \<and> 0 \<le> m \<and> m < 100 \<and> 0 \<le> d \<and> d < 100"
proof -
  define z where "z = day + 719468"
  define era where "era = z div 146097"
  define doe where "doe = z mod 146097"
  define a where "a = doe div 1460"
  define b where "b = doe div 36524"
  define c where "c = doe div 146096"
  define yoe where "yoe = (doe - a + b - c) div 365"
  define q where "q = yoe div 4"
  define h where "h = yoe div 100"
  define doy where "doy = doe - (365 * yoe + q - h)"
  define mp where "mp = (5 * doy + 2) div 153"
  have "civil_date day = (yoe + era * 400 + (if (if mp < 10 then mp + 3 else mp - 9) \<le> 2 then 1 else 0),
      (if mp < 10 then mp + 3 else mp - 9), doy - (153 * mp + 2) div 5 + 1)"
    unfolding civil_date_def Let_def z_def era_def doe_def a_def b_def c_def yoe_def q_def h_def doy_def mp_def
    by (simp only: add.assoc diff_diff_eq)
  then have e: "y = yoe + era * 400 + (if (if mp < 10 then mp + 3 else mp - 9) \<le> 2 then 1 else 0)"
    "m = (if mp < 10 then mp + 3 else mp - 9)" "d = doy - (153 * mp + 2) div 5 + 1"
    using assms(1) by (auto simp only: prod.inject)
  have zr: "z = 146097 * era + doe" "0 \<le> doe" "doe < 146097" "719468 \<le> z" "z < 3612988"
    using assms(2,3) by (simp_all add: era_def doe_def z_def)
  note div = quotient_bounds [of 1460 doe, folded a_def, simplified] quotient_bounds [of 36524 doe, folded b_def, simplified]
    quotient_bounds [of 146096 doe, folded c_def, simplified] quotient_bounds [of 365 "doe - a + b - c", folded yoe_def, simplified]
    quotient_bounds [of 4 yoe, folded q_def, simplified] quotient_bounds [of 100 yoe, folded h_def, simplified]
    quotient_bounds [of 153 "5 * doy + 2", folded mp_def, simplified]
  define r where "r = (153 * mp + 2) div 5"
  have rr: "5 * r \<le> 153 * mp + 2 \<and> 153 * mp + 2 < 5 * r + 5"
    unfolding r_def using quotient_bounds [of 5 "153 * mp + 2"] by simp
  have d: "0 \<le> d" "d < 100" using e(3) r_def rr div(7) by linarith+
  have doy: "-5 \<le> doy" "doy \<le> 400" unfolding doy_def using zr div by linarith+
  have m: "0 \<le> m" "m < 100" using e(2) doy div(7) by (auto split: if_splits)
  have era: "4 \<le> era" "era \<le> 24" using zr by linarith+
  have yoe: "0 \<le> yoe" "yoe \<le> 400" "365 * yoe \<le> doe + 5" using zr div by linarith+
  have "y < 10000"
  proof (cases "era = 24")
    case True
    then show ?thesis using e(1) yoe zr by (auto split: if_splits)
  next
    case False
    then show ?thesis using e(1) yoe era by (auto split: if_splits)
  qed
  moreover have "1000 \<le> y" using e(1) yoe era by (auto split: if_splits)
  ultimately show ?thesis using d m by simp
qed

lemma decimal_ascii: "list_all (\<lambda>c. 48 \<le> (of_char c :: nat) \<and> of_char c < (58 :: nat)) (decimal n)"
proof (induction n rule: decimal.induct)
  case (1 n)
  then show ?case by (subst decimal.simps) simp
qed

lemma two_digits_ascii: "0 \<le> i \<Longrightarrow> list_all (\<lambda>c. 48 \<le> (of_char c :: nat) \<and> of_char c < (58 :: nat)) (two_digits i)"
  by (simp add: two_digits_def js_integer_def decimal_ascii)

lemma archive_date_digits:
  assumes "in_archive_era t"
  shows "length (archive_date t) = 8" and "list_all (\<lambda>c. 48 \<le> (of_char c :: nat) \<and> of_char c < (58 :: nat)) (archive_date t)"
proof -
  obtain y m d where c: "civil_date ((t + 8 * 3600000) div 86400000) = (y, m, d)"
    by (cases "civil_date ((t + 8 * 3600000) div 86400000)") auto
  have "0 \<le> (t + 8 * 3600000) div 86400000" "(t + 8 * 3600000) div 86400000 < 2893520"
    using assms by (auto simp: in_archive_era_def)
  then have b: "1000 \<le> y \<and> y < 10000 \<and> 0 \<le> m \<and> m < 100 \<and> 0 \<le> d \<and> d < 100" by (rule civil_bounds [OF c])
  have "length (js_integer y) = 4" using b length_decimal_4 by (simp add: js_integer_def le_nat_iff nat_less_iff)
  then show "length (archive_date t) = 8" using b length_two_digits unfolding archive_date_def c by simp
  show "list_all (\<lambda>c. 48 \<le> (of_char c :: nat) \<and> of_char c < (58 :: nat)) (archive_date t)"
    using b two_digits_ascii unfolding archive_date_def c by (simp add: js_integer_def decimal_ascii)
qed

text \<open>What is known of a file name that is to be written: its size, and that it stays in its directory.\<close>

definition safe_filename :: "ustring \<Rightarrow> bool" where
  "safe_filename f = (utf8_size f \<le> 171 \<and> 47 \<notin> set f \<and> drop (length f - 3) f = ascii ''.md'')"

lemma archive_filename_safe:
  assumes "in_archive_era t" and "\<not> un_word un 47"
  shows "safe_filename (build_archive_filename un title t)"
proof -
  let ?date = "ascii (archive_date t)"
  have date: "utf8_size ?date = 8" "47 \<notin> set ?date"
    using archive_date_digits [OF assms(1)] utf8_ascii [of "archive_date t"]
    by (auto simp: list_all_iff ascii_def) fastforce+
  have md: "utf8_size (ascii ''-.md'') = 4" "utf8_size (ascii ''.md'') = 3"
    by (simp_all add: ascii_def utf8_width_def)
  have title: "47 \<notin> set (fit_bytes b (normalized_title un title))" for b
  proof
    assume "47 \<in> set (fit_bytes b (normalized_title un title))"
    then have "47 \<in> set (normalized_title un title)"
      using fit_bytes_prefix [of "normalized_title un title" b] by (metis UnCI set_append)
    then show False
      using normalized_title_chars [of 47 un title] assms(2) by (simp add: ascii_def)
  qed
  have "12 + utf8_size (fit_bytes 12 (normalized_title un title)) \<le> 171" by (rule fit_bytes_bound) simp
  moreover have "utf8_width 45 = 1" by (simp add: utf8_width_def)
  ultimately show ?thesis
    using date md title
    by (simp add: safe_filename_def build_archive_filename_def Let_def) (simp add: ascii_def)
qed

section \<open>What an archiver keeps\<close>

text \<open>A property of the state that everything but the writes keeps.\<close>

definition browser_keeps :: "('s \<Rightarrow> bool) \<Rightarrow> ('s, 'c, 'p) browser_ops \<Rightarrow> bool" where
  "browser_keeps P br =
     (keeps P (br_context br) \<and> (\<forall>v. keeps P (br_zhihu_context br v)) \<and> (\<forall>c. keeps P (br_page br c))
      \<and> (\<forall>p u t w. keeps P (br_goto br p u t w)) \<and> (\<forall>p x t. keeps P (br_wait_selector br p x t))
      \<and> (\<forall>p t. keeps P (br_wait_idle br p t)) \<and> (\<forall>p. keeps P (br_scroll br p)) \<and> (\<forall>p n. keeps P (br_pause br p n))
      \<and> (\<forall>p. keeps P (br_content br p)) \<and> (\<forall>p x t. keeps P (br_fetch br p x t)) \<and> (\<forall>c. keeps P (br_close br c)))"

definition reads_keep :: "('s \<Rightarrow> bool) \<Rightarrow> ('s, 'c, 'p) archiver \<Rightarrow> bool" where
  "reads_keep P ar =
     ((\<forall>u t. keeps P (ar_fetch ar u t)) \<and> (\<forall>page. keeps P (ar_page_text ar page))
      \<and> (\<forall>u h. keeps P (ar_defuddle ar u h)) \<and> browser_keeps P (ar_browser ar)
      \<and> (\<forall>get name. ar_credential ar = Some get \<longrightarrow> keeps P (get name)) \<and> keeps P (ar_read_template ar)
      \<and> keeps P (tick (ar_now ar)) \<and> (\<forall>f e. ar_record_event ar = Some f \<longrightarrow> keeps P (f e))
      \<and> (\<forall>event s. P s \<longrightarrow> P (ar_log ar event s)))"

lemma reads_keep_ops:
  assumes "reads_keep P ar"
  shows "keeps P (ar_fetch ar u t)" "keeps P (ar_page_text ar page)" "keeps P (ar_defuddle ar u h)"
  "keeps P (br_context (ar_browser ar))" "keeps P (br_zhihu_context (ar_browser ar) v)" "keeps P (br_page (ar_browser ar) c)"
  "keeps P (br_goto (ar_browser ar) p u q w)" "keeps P (br_wait_selector (ar_browser ar) p w q)"
  "keeps P (br_wait_idle (ar_browser ar) p q)" "keeps P (br_scroll (ar_browser ar) p)" "keeps P (br_pause (ar_browser ar) p n)"
  "keeps P (br_content (ar_browser ar) p)" "keeps P (br_fetch (ar_browser ar) p u q)" "keeps P (br_close (ar_browser ar) c)"
  "ar_credential ar = Some get \<Longrightarrow> keeps P (get name)" "keeps P (ar_read_template ar)" "keeps P (tick (ar_now ar))"
  "keeps P (log_event ar event)" "keeps P (record_event ar e)"
  using assms
  by (auto simp: reads_keep_def browser_keeps_def log_event_def record_event_def keeps_modify keeps_ret split: option.split)

lemma keeps_extraction:
  assumes r: "reads_keep P ar"
  shows "keeps P (extract_article ar url html)" and "keeps P (fetch_and_extract ar url)"
    and "keeps P (browser_extract ar url)" and "keeps P (fetch_zhihu_article ar v url)"
proof -
  note ops = reads_keep_ops [OF r]
  show e: "keeps P (extract_article ar url html)" for url html
    by (auto simp: extract_article_def intro!: keeps_intros ops)
  have h: "keeps P (check_html ar html)" for html
    by (auto simp: check_html_def intro!: keeps_intros)
  show "keeps P (fetch_and_extract ar url)"
    by (auto simp: fetch_and_extract_def intro!: keeps_intros ops e h)
  show "keeps P (browser_extract ar url)"
    by (auto simp: browser_extract_def Let_def intro!: keeps_intros ops e h)
  have z: "keeps P (read_zhihu_answer ar url rq answer)" for rq answer
    by (auto simp: read_zhihu_answer_def intro!: keeps_intros e split: option.split)
  show "keeps P (fetch_zhihu_article ar v url)"
    by (auto simp: fetch_zhihu_article_def Let_def intro!: keeps_intros ops z split: option.split)
qed

lemma keeps_prepare_article:
  assumes r: "reads_keep P ar"
  shows "keeps P (prepare_article ar item)"
proof -
  note ops = reads_keep_ops [OF r] keeps_extraction [OF r]
  have d: "keeps P (direct_article ar item)"
    by (auto simp: direct_article_def Let_def intro!: keeps_intros ops)
  have p: "keeps P (page_article ar item)"
    by (auto simp: page_article_def intro!: keeps_intros ops d split: option.split)
  have z: "keeps P (zhihu_article ar item)"
    by (auto simp: zhihu_article_def intro!: keeps_intros ops split: option.split list.split)
  have w: "keeps P (render_article ar item a)" for a
    by (auto simp: render_article_def Let_def intro!: keeps_intros ops)
  have a: "keeps P (assessed_article ar item x)" for x
    by (cases x) (auto simp: assessed_article_def Let_def intro!: keeps_intros ops w)
  show ?thesis
    by (auto simp: prepare_article_def intro!: keeps_intros z p w a split: option.split sum.split)
qed

lemma keeps_report_archive_failure:
  "reads_keep P ar \<Longrightarrow> keeps P (report_archive_failure ar item started failure)"
  by (auto simp: report_archive_failure_def Let_def intro!: keeps_intros reads_keep_ops)

lemma report_archive_failure_result:
  "\<exists>s'. report_archive_failure ar item started failure s = (s', Inr (Delivery_Fail (\<not> started)
     (Some (safe_failure_reason_code (failure_error failure))) (upstream_status failure)))"
  by (auto simp: report_archive_failure_def Let_def and_then_def log_event_def modify_def catching_def ret_def
      split: prod.split sum.split)

lemma rendered_article:
  assumes "render_article ar item a s = (s', Inr p)"
  obtains content filename title t s1 where "p = Article_Prepared content filename title" "ar_now ar s = (s1, t)"
    "utf8_size content \<le> al_max_output_bytes (ar_limits ar)" "filename = build_archive_filename (ar_unicode ar) title t"
  using assms
  by (auto simp: render_article_def Let_def action_results when_then_Inr tick_def split: prod.splits)

lemma prepared_article:
  assumes "prepare_article ar item s = (s', Inr (Article_Prepared content filename title))"
  shows "utf8_size content \<le> al_max_output_bytes (ar_limits ar)
    \<and> (\<exists>t s0 s1. ar_now ar s0 = (s1, t) \<and> filename = build_archive_filename (ar_unicode ar) title t)"
proof -
  have "\<exists>a s0 s1. render_article ar item a s0 = (s1, Inr (Article_Prepared content filename title))"
    using assms
    by (auto simp: prepare_article_def assessed_article_def Let_def action_results log_event_def
        split: option.splits sum.splits if_splits prod.splits) (metis sum.exhaust)
  then show ?thesis by (elim exE rendered_article) auto
qed

section \<open>The promises of the archiver\<close>

text \<open>The archiver always answers and never throws: an article is delivered or it failed, and a
  failure carries a reason for the ledger; no quota is ever reported.\<close>

lemma archive_always_answers:
  "snd (archive_article ar item s) = Inr Delivery_Ok
    \<or> (\<exists>known reason status. snd (archive_article ar item s) = Inr (Delivery_Fail known (Some reason) status))"
proof -
  have f: "\<exists>known reason status. snd (report_archive_failure ar item w e t) = Inr (Delivery_Fail known (Some reason) status)"
    for w e t
    using report_archive_failure_result [of ar item w e t] by auto
  show ?thesis
    using f by (simp add: archive_article_def split: prod.split sum.split prepared.split)
qed

text \<open>C25: A failure that the archiver reports as known before any write (which the job handler
  retries) left the repository and the mirror alone: whatever every step but the two writes keeps
  still holds.\<close>

theorem unwritten_failure_touched_nothing:
  assumes "reads_keep P ar" and "P s"
    and "archive_article ar item s = (s', Inr (Delivery_Fail True reason status))"
  shows "P s'"
proof (cases "prepare_article ar item s")
  case (Pair s1 r)
  have p: "P s1" using keepsD [OF keeps_prepare_article [OF assms(1)] assms(2), of item] Pair by simp
  have reported: "P s'" if "report_archive_failure ar item w e s1 = (s', Inr d)" for w e d
    using keepsD [OF keeps_report_archive_failure [OF assms(1)] p, of item w e] that by simp
  show ?thesis
  proof (cases r)
    case (Inl e)
    then show ?thesis using reported assms(3) Pair by (simp add: archive_article_def)
  next
    case (Inr q)
    show ?thesis
    proof (cases q)
      case (Article_Prepared content filename title)
      obtain s2 w where w: "write_article ar item content filename title s1 = (s2, w)"
        by (cases "write_article ar item content filename title s1")
      show ?thesis
      proof (cases w)
        case failed: (Inl e)
        then show ?thesis
          using assms(3) Pair Inr Article_Prepared w report_archive_failure_result [of ar item True "Archive_Thrown e" s2]
          by (auto simp: archive_article_def)
      qed (use assms(3) Pair Inr Article_Prepared w in \<open>simp add: archive_article_def\<close>)
    qed (use reported assms(3) Pair Inr in \<open>simp_all add: archive_article_def\<close>)
  qed
qed

text \<open>An archiver whose world is the list of what was saved; its fetcher and browser fail.\<close>

definition sample_browser :: "((ustring \<times> ustring) list, unit, unit) browser_ops" where
  "sample_browser = \<lparr>br_context = throw (Thrown_Error ''browser socket closed''), br_zhihu_context = (\<lambda>_. ret ()),
     br_page = (\<lambda>_. ret ()), br_goto = (\<lambda>_ _ _ _. ret ()), br_wait_selector = (\<lambda>_ _ _. ret True),
     br_wait_idle = (\<lambda>_ _. ret True), br_scroll = (\<lambda>_. ret ()), br_pause = (\<lambda>_ _. ret ()),
     br_content = (\<lambda>_. ret []), br_fetch = (\<lambda>_ _ _. ret None), br_close = (\<lambda>_. ret ())\<rparr>"

definition sample_archiver :: "((ustring \<times> ustring) list, unit, unit) archiver" where
  "sample_archiver =
     \<lparr>ar_limits = \<lparr>al_browser_timeout_seconds = 45, al_http_timeout_seconds = 30, al_max_html_bytes = 8000000,
        al_max_output_bytes = 10000000, al_min_visible_characters = 0\<rparr>,
      ar_zhihu = None, ar_unicode = \<lparr>un_nfkc = id, un_lower = id, un_word = (\<lambda>c. 97 \<le> c \<and> c \<le> 122)\<rparr>,
      ar_parse_url = (\<lambda>v. Some \<lparr>ur_protocol = ''https:'', ur_username = [], ur_password = [], ur_hostname = ''a.b'',
        ur_port = [], ur_origin = v, ur_pathname = ''/'', ur_search = [], ur_hash = []\<rparr>),
      ar_sha256 = id, ar_fetch = (\<lambda>_ _. throw (Thrown_TypeError ''fetch failed'')), ar_page_text = (\<lambda>_. ret []),
      ar_defuddle = (\<lambda>_ _. throw Thrown_Other), ar_browser = sample_browser, ar_parse_json = (\<lambda>_. Inr JNull),
      ar_string_of = (\<lambda>_. []), ar_zhihu_document = (\<lambda>_ _. []), ar_credential = None, ar_read_template = ret [],
      ar_eta = (\<lambda>_. article_md_eta), ar_now = (\<lambda>s. (s, 1700000000000)), ar_iso = (\<lambda>_. ''2023-11-14T22:13:20.000Z''),
      ar_save = (\<lambda>content filename _ s. (s @ [(content, filename)], Inr (True, filename))), ar_mirror = None,
      ar_record_event = None, ar_log = (\<lambda>_ s. s)\<rparr>"

lemma sample_reads_keep: "reads_keep P sample_archiver"
  by (simp add: reads_keep_def browser_keeps_def sample_archiver_def sample_browser_def keeps_ret keeps_throw)
    (simp add: keeps_def tick_def)

definition sample_article :: article_item where
  "sample_article = \<lparr>article_requested_at = ''2023-11-14T22:13:20.000Z'', article_tags = None,
     article_title = Some ''a title'', article_url = ''https://a.b/''\<rparr>"

theorem unwritten_failure_touched_nothing_witness:
  "fst (archive_article sample_archiver sample_article []) = []"
proof (rule unwritten_failure_touched_nothing [where P = "\<lambda>s. s = []" and s = "[]", OF sample_reads_keep refl])
  show "archive_article sample_archiver sample_article []
     = (fst (archive_article sample_archiver sample_article []), Inr (Delivery_Fail True (Some ''article_network_error'') None))"
    by (simp add: archive_article_def sample_archiver_def sample_browser_def sample_article_def prepare_article_def
        resolve_zhihu_article_request_def zhihu_request_of_def pin_id_def path_segments_def segment_def
        page_article_def direct_article_def fetch_and_extract_def browser_extract_def catching_def and_then_def
        lift_result_def ret_def throw_def log_event_def modify_def report_archive_failure_def record_event_def
        safe_failure_reason_code_def regex_simps Let_def char_of_def bit_numeral_rec bit_0)
qed

text \<open>C26: Everything the archiver writes is within bounds: the pages it saves are no larger than the
  configured output, and each has a file name of at most 171 bytes that ends in \<open>.md\<close> and holds no
  slash, so that it stays in its directory; so a property of the state that such writes keep, and
  the other steps, is kept however the archiving ends.\<close>

theorem archive_writes_are_bounded:
  assumes "reads_keep P ar" and "\<And>s. in_archive_era (snd (ar_now ar s))" and "\<not> un_word (ar_unicode ar) 47"
    and "\<And>content filename u. utf8_size content \<le> al_max_output_bytes (ar_limits ar) \<Longrightarrow> safe_filename filename \<Longrightarrow>
       keeps P (ar_save ar content filename u)"
    and "\<And>m content filename u title. ar_mirror ar = Some m \<Longrightarrow>
       utf8_size content \<le> al_max_output_bytes (ar_limits ar) \<Longrightarrow> keeps P (m content filename u title)"
  shows "keeps P (archive_article ar item)"
proof (rule keepsI)
  fix s assume "P s"
  obtain s1 r where prep: "prepare_article ar item s = (s1, r)" by (cases "prepare_article ar item s")
  have p: "P s1" using keepsD [OF keeps_prepare_article [OF assms(1)] \<open>P s\<close>, of item] prep by simp
  have reported: "P (fst (report_archive_failure ar item w e t))" if "P t" for w e t
    using keepsD [OF keeps_report_archive_failure [OF assms(1)] that] .
  show "P (fst (archive_article ar item s))"
  proof (cases "\<exists>content filename title. r = Inr (Article_Prepared content filename title)")
    case True
    then obtain content filename title where r: "r = Inr (Article_Prepared content filename title)" by blast
    obtain t s0 s1' where b: "utf8_size content \<le> al_max_output_bytes (ar_limits ar)"
        "ar_now ar s0 = (s1', t)" "filename = build_archive_filename (ar_unicode ar) title t"
      using prepared_article [of ar item s s1 content filename title] prep r by blast
    have f: "safe_filename filename"
      using archive_filename_safe [OF _ assms(3)] assms(2) [of s0] b(2,3) by simp
    have "keeps P (write_article ar item content filename title)"
      using assms(4) [OF b(1) f] assms(5) [OF _ b(1)]
      by (auto simp: write_article_def intro!: keeps_intros reads_keep_ops(19) [OF assms(1)] split: option.split)
    then have "P (fst (write_article ar item content filename title s1))" using p by (rule keepsD)
    then show ?thesis
      using prep r reported
      by (cases "write_article ar item content filename title s1") (simp add: archive_article_def split: sum.split)
  next
    case False
    then show ?thesis
      using p prep reported by (auto simp: archive_article_def split: sum.split prepared.split)
  qed
qed

theorem archive_writes_are_bounded_witness:
  "keeps (list_all (\<lambda>(content, filename). utf8_size content \<le> 10000000 \<and> safe_filename filename))
     (archive_article sample_archiver sample_article)"
  by (rule archive_writes_are_bounded [OF sample_reads_keep])
    (simp_all add: sample_archiver_def in_archive_era_def keeps_def)

end
