(* ===== verification/Article_Repository.thy ===== *)
theory Article_Repository
  imports Article_Text Actions "HOL-Library.AList"
begin

text \<open>
  The repository of articles, \<open>GitArticleRepository\<close> of \<open>apps/worker/src/article-archive.ts\<close>: the
  \<open>git\<close> processes with their attempts, the clone, the search for a source address, the write of a
  new page, its commit and its push. Processes and files are operations of a host; paths are
  normalised absolute paths, which \<open>join\<close> and \<open>relative\<close> only lengthen and shorten. The environment
  of the processes is left out, except for the proxy variables that are cleared.
\<close>

section \<open>The host\<close>

record ('s, 'h) git_host =
  gh_exec :: "ustring list \<Rightarrow> nat \<Rightarrow> ('s, ustring) action"
  gh_pause :: "nat \<Rightarrow> ('s, unit) action"
  gh_exists :: "ustring \<Rightarrow> ('s, bool) action"
  gh_rename :: "ustring \<Rightarrow> ustring \<Rightarrow> ('s, unit) action"
  gh_mkdir :: "ustring \<Rightarrow> ('s, unit) action"
  gh_readdir :: "ustring \<Rightarrow> ('s, ustring list) action"
  gh_read :: "ustring \<Rightarrow> ('s, ustring) action"
  gh_open :: "ustring \<Rightarrow> ('s, 'h) action"
  gh_write :: "'h \<Rightarrow> ustring \<Rightarrow> ('s, unit) action"
  gh_sync :: "'h \<Rightarrow> ('s, unit) action"
  gh_close :: "'h \<Rightarrow> ('s, unit) action"
  gh_uuid :: "('s, string) action"
  gh_now :: "'s clock"

record git_repository =
  gr_articles_dir :: string
  gr_branch :: string
  gr_dir :: string
  gr_url :: string

definition create_git_repository :: "string \<Rightarrow> string option \<Rightarrow> string \<Rightarrow> string \<Rightarrow> thrown + git_repository" where
  "create_git_repository articlesDir branch dir url =
     (if starts_with ''/'' articlesDir \<or> ''..'' \<in> set (split_on CHR ''/'' articlesDir)
      then Inl (Thrown_Error ''article repository path must be relative'')
      else Inr \<lparr>gr_articles_dir = articlesDir, gr_branch = nullish branch ''main'', gr_dir = dir, gr_url = url\<rparr>)"

definition path_join :: "ustring \<Rightarrow> ustring \<Rightarrow> ustring" where
  "path_join p q = p @ [47] @ q"

definition path_relative :: "ustring \<Rightarrow> ustring \<Rightarrow> ustring" where
  "path_relative dir p = (if take (Suc (length dir)) p = dir @ [47] then drop (Suc (length dir)) p else p)"

definition path_dirname :: "ustring \<Rightarrow> ustring" where
  "path_dirname p = (let d = dropWhile (\<lambda>c. c = 47) (dropWhile (\<lambda>c. c \<noteq> 47) (rev p)) in if d = [] then [47] else rev d)"

definition repository_path :: "git_repository \<Rightarrow> ustring" where
  "repository_path gr = ascii (gr_dir gr)"

definition articles_path :: "git_repository \<Rightarrow> ustring" where
  "articles_path gr = path_join (repository_path gr) (ascii (gr_articles_dir gr))"

section \<open>Processes\<close>

definition git_command_attempts :: "string \<Rightarrow> nat" where
  "git_command_attempts command = (if command \<in> {''ls-remote'', ''pull'', ''push''} then 3 else 1)"

definition git_command_timeout_ms :: "string \<Rightarrow> nat" where
  "git_command_timeout_ms command = (if command \<in> {''ls-remote'', ''pull'', ''push''} then 180000 else 30000)"

definition direct_git_proxy_environment :: "(string \<times> string) list" where
  "direct_git_proxy_environment =
     map (\<lambda>k. (k, [])) [''ALL_PROXY'', ''HTTPS_PROXY'', ''HTTP_PROXY'', ''all_proxy'', ''http_proxy'', ''https_proxy'']"

text \<open>The name of a command with every run of other characters than letters and digits as one underscore.\<close>

definition command_char :: "char \<Rightarrow> bool" where
  "command_char c = (is_word c \<and> c \<noteq> CHR ''_'')"

fun underscored :: "bool \<Rightarrow> string \<Rightarrow> string" where
  "underscored inside [] = []"
| "underscored inside (c # cs) =
     (if command_char c then c # underscored False cs
      else if inside then underscored True cs else CHR ''_'' # underscored True cs)"

definition git_failed :: "string \<Rightarrow> thrown" where
  "git_failed command = Thrown_Error (''git_'' @ underscored False command @ ''_failed'')"

text \<open>The loop of \<open>#runGit\<close>: the number of the attempt, and how many are left.\<close>

fun run_git_loop :: "('s, 'h) git_host \<Rightarrow> ustring list \<Rightarrow> nat \<Rightarrow> string \<Rightarrow> nat \<Rightarrow> nat \<Rightarrow> ('s, ustring) action" where
  "run_git_loop gh args timeout command attempt 0 = throw (Thrown_Error ''git_command_failed'')"
| "run_git_loop gh args timeout command attempt (Suc left) =
     catching (gh_exec gh args timeout) (\<lambda>_.
       if left = 0 then throw (git_failed command)
       else and_then (gh_pause gh (attempt * 1000)) (\<lambda>_. run_git_loop gh args timeout command (Suc attempt) left))"

definition run_git :: "('s, 'h) git_host \<Rightarrow> ustring list \<Rightarrow> nat \<Rightarrow> nat \<Rightarrow> string \<Rightarrow> ('s, ustring) action" where
  "run_git gh args timeout attempts command = run_git_loop gh args timeout command 1 attempts"

definition git_with_attempts ::
  "('s, 'h) git_host \<Rightarrow> git_repository \<Rightarrow> nat \<Rightarrow> string \<Rightarrow> ustring list \<Rightarrow> ('s, ustring) action" where
  "git_with_attempts gh gr attempts command args =
     run_git gh
       ([ascii ''-c'', ascii ''safe.directory='' @ repository_path gr, ascii ''-C'', repository_path gr, ascii command] @ args)
       (git_command_timeout_ms command) attempts command"

definition git :: "('s, 'h) git_host \<Rightarrow> git_repository \<Rightarrow> string \<Rightarrow> ustring list \<Rightarrow> ('s, ustring) action" where
  "git gh gr command args = git_with_attempts gh gr (git_command_attempts command) command args"

definition build_initial_clone_args :: "git_repository \<Rightarrow> ustring list" where
  "build_initial_clone_args gr =
     map ascii [''clone'', ''--depth'', ''1'', ''--branch'', gr_branch gr, ''--single-branch'', gr_url gr, gr_dir gr]"

section \<open>The state of the clone\<close>

definition succeeds :: "('s, 'a) action \<Rightarrow> ('s, bool) action" where
  "succeeds act = catching (and_then act (\<lambda>_. ret True)) (\<lambda>_. ret False)"

definition set_aside :: "('s, 'h) git_host \<Rightarrow> git_repository \<Rightarrow> ('s, unit) action" where
  "set_aside gh gr =
     and_then (tick (gh_now gh)) (\<lambda>t.
       gh_rename gh (repository_path gr) (repository_path gr @ ascii (''.incomplete-'' @ js_integer t)))"

definition clone_repository :: "('s, 'h) git_host \<Rightarrow> git_repository \<Rightarrow> ('s, bool) action" where
  "clone_repository gh gr =
     and_then (gh_mkdir gh (path_dirname (repository_path gr))) (\<lambda>_.
     and_then (run_git gh (build_initial_clone_args gr) 180000 1 ''clone'') (\<lambda>_. ret True))"

definition ensure_repository :: "('s, 'h) git_host \<Rightarrow> git_repository \<Rightarrow> ('s, bool) action" where
  "ensure_repository gh gr =
     and_then (gh_exists gh (path_join (repository_path gr) (ascii ''.git''))) (\<lambda>cloned.
       if cloned then
         and_then (succeeds (git gh gr ''rev-parse'' [ascii ''--verify'', ascii ''HEAD''])) (\<lambda>sound.
           if sound then ret False else and_then (set_aside gh gr) (\<lambda>_. clone_repository gh gr))
       else
         and_then (gh_exists gh (repository_path gr)) (\<lambda>there.
         and_then (if there then set_aside gh gr else ret ()) (\<lambda>_. clone_repository gh gr)))"

text \<open>\<open>Promise.all\<close> starts both processes and waits for both; of two errors the model throws the first.\<close>

definition both :: "('s, 'a) action \<Rightarrow> ('s, 'b) action \<Rightarrow> ('s, 'a \<times> 'b) action" where
  "both f g s =
     (let (s1, r1) = f s; (s2, r2) = g s1
      in (s2, case r1 of Inl e \<Rightarrow> Inl e | Inr x \<Rightarrow> (case r2 of Inl e \<Rightarrow> Inl e | Inr y \<Rightarrow> Inr (x, y))))"

definition remote_branch_matches_head :: "('s, 'h) git_host \<Rightarrow> git_repository \<Rightarrow> ('s, bool) action" where
  "remote_branch_matches_head gh gr =
     and_then (both (git gh gr ''rev-parse'' [ascii ''HEAD''])
                    (git gh gr ''ls-remote'' (map ascii [''--heads'', ''origin'', gr_branch gr])))
       (\<lambda>(localHead, remoteBranch). ret (takeWhile (\<lambda>c. \<not> is_blank c) (trim remoteBranch) = trim localHead))"

fun pull_rebase_loop :: "('s, 'h) git_host \<Rightarrow> git_repository \<Rightarrow> nat \<Rightarrow> nat \<Rightarrow> ('s, unit) action" where
  "pull_rebase_loop gh gr attempt 0 = ret ()"
| "pull_rebase_loop gh gr attempt (Suc left) =
     catching (and_then (git_with_attempts gh gr 1 ''pull'' (map ascii [''--rebase'', ''origin'', gr_branch gr])) (\<lambda>_. ret ()))
       (\<lambda>e. and_then (succeeds (git_with_attempts gh gr 1 ''rebase'' [ascii ''--abort''])) (\<lambda>_.
          if left = 0 then throw e
          else and_then (gh_pause gh (attempt * 1000)) (\<lambda>_. pull_rebase_loop gh gr (Suc attempt) left)))"

definition pull_rebase_safely :: "('s, 'h) git_host \<Rightarrow> git_repository \<Rightarrow> ('s, unit) action" where
  "pull_rebase_safely gh gr = pull_rebase_loop gh gr 1 (git_command_attempts ''pull'')"

fun push_loop :: "('s, 'h) git_host \<Rightarrow> git_repository \<Rightarrow> nat \<Rightarrow> ('s, unit) action" where
  "push_loop gh gr 0 = ret ()"
| "push_loop gh gr (Suc left) =
     catching (and_then (git_with_attempts gh gr 1 ''push'' (map ascii [''origin'', ''HEAD:'' @ gr_branch gr])) (\<lambda>_. ret ()))
       (\<lambda>e. if left = 0 then throw e
            else and_then (pull_rebase_safely gh gr) (\<lambda>_. push_loop gh gr left))"

definition push_with_rebase_retry :: "('s, 'h) git_host \<Rightarrow> git_repository \<Rightarrow> ('s, unit) action" where
  "push_with_rebase_retry gh gr = push_loop gh gr (git_command_attempts ''push'')"

section \<open>Saving an article\<close>

definition last_segment :: "ustring \<Rightarrow> ustring" where
  "last_segment p = rev (takeWhile (\<lambda>c. c \<noteq> 47) (rev p))"

definition drop_extension :: "ustring \<Rightarrow> ustring" where
  "drop_extension f = take (length f - 3) f"

definition commit_message :: "ustring \<Rightarrow> ustring" where
  "commit_message f = ascii ''docs(article): '' @ [24402, 26723, 12298] @ drop_extension f @ [12299]"

definition commit_and_push :: "('s, 'h) git_host \<Rightarrow> git_repository \<Rightarrow> ustring \<Rightarrow> ('s, unit) action" where
  "commit_and_push gh gr target =
     (let path = path_relative (repository_path gr) target
      in and_then (git gh gr ''status'' [ascii ''--porcelain'', ascii ''--untracked-files=all'', ascii ''--'', path]) (\<lambda>status.
         and_then
           (if trim status \<noteq> [] then
              and_then (git gh gr ''add'' [ascii ''--'', path]) (\<lambda>_.
              and_then (git gh gr ''commit'' [ascii ''--only'', ascii ''-m'', commit_message (last_segment path), ascii ''--'', path])
                (\<lambda>_. ret ()))
            else ret ()) (\<lambda>_.
           push_with_rebase_retry gh gr)))"

definition is_markdown :: "ustring \<Rightarrow> bool" where
  "is_markdown f = (3 \<le> length f \<and> drop (length f - 3) f = ascii ''.md'')"

fun find_entry :: "('s, 'h) git_host \<Rightarrow> ustring \<Rightarrow> ustring \<Rightarrow> ustring list \<Rightarrow> ('s, ustring option) action" where
  "find_entry gh dir u [] = ret None"
| "find_entry gh dir u (e # es) =
     (if \<not> is_markdown e then find_entry gh dir u es
      else and_then (gh_read gh (path_join dir e)) (\<lambda>content.
        if source_url_of content = Some u then ret (Some e) else find_entry gh dir u es))"

definition find_source_url :: "('s, 'h) git_host \<Rightarrow> git_repository \<Rightarrow> ustring \<Rightarrow> ('s, ustring option) action" where
  "find_source_url gh gr u =
     and_then (gh_exists gh (articles_path gr)) (\<lambda>there.
       if \<not> there then ret None
       else and_then (gh_readdir gh (articles_path gr)) (find_entry gh (articles_path gr) u))"

definition collision_safe_filename ::
  "('s, 'h) git_host \<Rightarrow> (string \<Rightarrow> string) \<Rightarrow> ustring \<Rightarrow> ustring \<Rightarrow> string \<Rightarrow> ('s, ustring) action" where
  "collision_safe_filename gh sha256 dir filename sourceUrl =
     and_then (gh_exists gh (path_join dir filename)) (\<lambda>taken.
       ret (if \<not> taken then filename
            else drop_extension filename @ [45] @ ascii (take 8 (sha256 sourceUrl)) @ ascii ''.md''))"

definition store_page :: "('s, 'h) git_host \<Rightarrow> ustring \<Rightarrow> ustring \<Rightarrow> ustring \<Rightarrow> ('s, unit) action" where
  "store_page gh temporary target content =
     and_then (gh_open gh temporary) (\<lambda>h.
     and_then (finally_do (and_then (gh_write gh h content) (\<lambda>_. gh_sync gh h)) (gh_close gh h)) (\<lambda>_.
       gh_rename gh temporary target))"

definition sync_repository :: "('s, 'h) git_host \<Rightarrow> git_repository \<Rightarrow> ('s, unit) action" where
  "sync_repository gh gr =
     and_then (ensure_repository gh gr) (\<lambda>initialized.
       if initialized then ret ()
       else and_then (remote_branch_matches_head gh gr) (\<lambda>same.
         if same then ret () else pull_rebase_safely gh gr))"

definition save_new ::
  "('s, 'h) git_host \<Rightarrow> git_repository \<Rightarrow> (string \<Rightarrow> string) \<Rightarrow> ustring \<Rightarrow> ustring \<Rightarrow> string \<Rightarrow> ('s, bool \<times> ustring) action" where
  "save_new gh gr sha256 content filename sourceUrl =
     (let dir = articles_path gr
      in and_then (gh_mkdir gh dir) (\<lambda>_.
         and_then (collision_safe_filename gh sha256 dir filename sourceUrl) (\<lambda>name.
         and_then (gh_uuid gh) (\<lambda>uuid.
         and_then (store_page gh (path_join dir (ascii (''.article-'' @ uuid @ ''.tmp''))) (path_join dir name) content) (\<lambda>_.
         and_then (commit_and_push gh gr (path_join dir name)) (\<lambda>_.
           ret (True, name)))))))"

definition save_article ::
  "('s, 'h) git_host \<Rightarrow> git_repository \<Rightarrow> (string \<Rightarrow> string) \<Rightarrow> ustring \<Rightarrow> ustring \<Rightarrow> string \<Rightarrow> ('s, bool \<times> ustring) action" where
  "save_article gh gr sha256 content filename sourceUrl =
     and_then (sync_repository gh gr) (\<lambda>_.
     and_then (find_source_url gh gr (ascii sourceUrl)) (\<lambda>existing.
       case existing of
         Some name \<Rightarrow>
           and_then (commit_and_push gh gr (path_join (articles_path gr) name)) (\<lambda>_. ret (False, name))
       | None \<Rightarrow> save_new gh gr sha256 content filename sourceUrl))"

section \<open>Few processes\<close>

text \<open>An action raises a count by at most so much, however it ends.\<close>

definition costs :: "('s \<Rightarrow> nat) \<Rightarrow> nat \<Rightarrow> ('s, 'a) action \<Rightarrow> bool" where
  "costs f n act = (\<forall>s. f (fst (act s)) \<le> f s + n)"

lemma costsD: "costs f n act \<Longrightarrow> f (fst (act s)) \<le> f s + n"
  by (simp add: costs_def)

lemma costs_weaken: "costs f n act \<Longrightarrow> n \<le> m \<Longrightarrow> costs f m act"
  by (auto simp: costs_def intro: le_trans)

lemma costs_ret: "costs f 0 (ret x)"
  by (simp add: costs_def ret_def)

lemma costs_throw: "costs f 0 (throw e)"
  by (simp add: costs_def throw_def)

lemma costs_and_then:
  assumes "costs f n m" and "\<And>x. costs f k (g x)"
  shows "costs f (n + k) (and_then m g)"
  unfolding costs_def
proof
  fix s
  obtain s1 r where m: "m s = (s1, r)" by (cases "m s")
  then have a: "f s1 \<le> f s + n" using costsD [OF assms(1), of s] by simp
  have "f (fst (g x s1)) \<le> f s + (n + k)" for x using a costsD [OF assms(2), of x s1] by linarith
  then show "f (fst (and_then m g s)) \<le> f s + (n + k)"
    using m a by (cases r) (simp_all add: and_then_def)
qed

lemma costs_catching:
  assumes "costs f n m" and "\<And>e. costs f k (g e)"
  shows "costs f (n + k) (catching m g)"
  unfolding costs_def
proof
  fix s
  obtain s1 r where m: "m s = (s1, r)" by (cases "m s")
  then have a: "f s1 \<le> f s + n" using costsD [OF assms(1), of s] by simp
  have "f (fst (g x s1)) \<le> f s + (n + k)" for x using a costsD [OF assms(2), of x s1] by linarith
  then show "f (fst (catching m g s)) \<le> f s + (n + k)"
    using m a by (cases r) (simp_all add: catching_def)
qed

lemma costs_finally_do:
  assumes "costs f n m" and "costs f k g"
  shows "costs f (n + k) (finally_do m g)"
  unfolding costs_def
proof
  fix s
  obtain s1 r s2 q where e: "m s = (s1, r)" "g s1 = (s2, q)" by (cases "m s", cases "g (fst (m s))") auto
  then have "f s1 \<le> f s + n" "f s2 \<le> f s1 + k" using costsD [OF assms(1), of s] costsD [OF assms(2), of s1] by simp_all
  then show "f (fst (finally_do m g s)) \<le> f s + (n + k)" using e by (simp add: finally_do_def)
qed

lemma costs_both:
  assumes "costs f n m" and "costs f k g"
  shows "costs f (n + k) (both m g)"
  unfolding costs_def
proof
  fix s
  obtain s1 r s2 q where e: "m s = (s1, r)" "g s1 = (s2, q)" by (cases "m s", cases "g (fst (m s))") auto
  then have "f s1 \<le> f s + n" "f s2 \<le> f s1 + k" using costsD [OF assms(1), of s] costsD [OF assms(2), of s1] by simp_all
  then show "f (fst (both m g s)) \<le> f s + (n + k)" using e by (simp add: both_def)
qed

lemma costs_if: "(b \<Longrightarrow> costs f n x) \<Longrightarrow> (\<not> b \<Longrightarrow> costs f n y) \<Longrightarrow> costs f n (if b then x else y)"
  by simp

text \<open>A host on which only the processes count, and each for one.\<close>

definition counts_processes :: "('s \<Rightarrow> nat) \<Rightarrow> ('s, 'h) git_host \<Rightarrow> bool" where
  "counts_processes runs gh =
     ((\<forall>args t. costs runs 1 (gh_exec gh args t)) \<and> (\<forall>n. costs runs 0 (gh_pause gh n))
      \<and> (\<forall>p. costs runs 0 (gh_exists gh p)) \<and> (\<forall>p q. costs runs 0 (gh_rename gh p q))
      \<and> (\<forall>p. costs runs 0 (gh_mkdir gh p)) \<and> (\<forall>p. costs runs 0 (gh_readdir gh p)) \<and> (\<forall>p. costs runs 0 (gh_read gh p))
      \<and> (\<forall>p. costs runs 0 (gh_open gh p)) \<and> (\<forall>h c. costs runs 0 (gh_write gh h c)) \<and> (\<forall>h. costs runs 0 (gh_sync gh h))
      \<and> (\<forall>h. costs runs 0 (gh_close gh h)) \<and> costs runs 0 (gh_uuid gh) \<and> costs runs 0 (tick (gh_now gh)))"

lemma counted:
  assumes "counts_processes runs gh"
  shows "costs runs 1 (gh_exec gh args t)" "costs runs 0 (gh_pause gh n)" "costs runs 0 (gh_exists gh p)"
    "costs runs 0 (gh_rename gh p q)" "costs runs 0 (gh_mkdir gh p)" "costs runs 0 (gh_readdir gh p)"
    "costs runs 0 (gh_read gh p)" "costs runs 0 (gh_open gh p)" "costs runs 0 (gh_write gh h c)"
    "costs runs 0 (gh_sync gh h)" "costs runs 0 (gh_close gh h)" "costs runs 0 (gh_uuid gh)" "costs runs 0 (tick (gh_now gh))"
  using assms by (simp_all add: counts_processes_def)

lemma run_git_cost:
  assumes "counts_processes runs gh"
  shows "costs runs left (run_git_loop gh args timeout command attempt left)"
proof (induction left arbitrary: attempt)
  case (Suc left)
  have "costs runs (1 + left) (run_git_loop gh args timeout command attempt (Suc left))"
    unfolding run_git_loop.simps
    by (intro costs_catching counted(1) [OF assms] costs_if costs_weaken [OF costs_throw]
        costs_weaken [OF costs_and_then [OF counted(2) [OF assms] Suc]]) simp_all
  then show ?case by simp
qed (simp add: costs_throw)

lemma git_cost:
  assumes "counts_processes runs gh"
  shows "costs runs attempts (git_with_attempts gh gr attempts command args)"
    and "costs runs (git_command_attempts command) (git gh gr command args)"
  by (simp_all add: git_def git_with_attempts_def run_git_def run_git_cost [OF assms])

lemma succeeds_cost: "costs f n act \<Longrightarrow> costs f n (succeeds act)"
  using costs_catching [OF costs_and_then [OF _ costs_ret] costs_ret] by (simp add: succeeds_def)

lemma pull_cost:
  assumes "counts_processes runs gh"
  shows "costs runs (2 * left) (pull_rebase_loop gh gr attempt left)"
proof (induction left arbitrary: attempt)
  case (Suc left)
  have "costs runs ((1 + 0) + (1 + (0 + 2 * left))) (pull_rebase_loop gh gr attempt (Suc left))"
    unfolding pull_rebase_loop.simps
    by (intro costs_catching costs_and_then git_cost(1) [OF assms] costs_ret succeeds_cost costs_if
        costs_weaken [OF costs_throw] counted(2) [OF assms] Suc) simp
  then show ?case by simp
qed (simp add: costs_ret)

lemma push_cost:
  assumes "counts_processes runs gh"
  shows "costs runs (7 * left) (push_loop gh gr left)"
proof (induction left)
  case (Suc left)
  have p: "costs runs 6 (pull_rebase_safely gh gr)"
    using pull_cost [OF assms, where left = 3] by (simp add: pull_rebase_safely_def git_command_attempts_def)
  have "costs runs ((1 + 0) + (6 + 7 * left)) (push_loop gh gr (Suc left))"
    unfolding push_loop.simps
    by (intro costs_catching costs_and_then git_cost(1) [OF assms] costs_ret costs_if costs_weaken [OF costs_throw] p Suc) simp
  then show ?case by simp
qed (simp add: costs_ret)

lemma commit_cost:
  assumes "counts_processes runs gh"
  shows "costs runs (1 + ((1 + (1 + 0)) + 21)) (commit_and_push gh gr target)"
proof -
  have g: "costs runs 1 (git gh gr c args)" if "c \<notin> {''ls-remote'', ''pull'', ''push''}" for c args
    using git_cost(2) [OF assms, of c] that by (simp add: git_command_attempts_def)
  have p: "costs runs 21 (push_with_rebase_retry gh gr)"
    using push_cost [OF assms, where left = 3] by (simp add: push_with_rebase_retry_def git_command_attempts_def)
  show ?thesis
    unfolding commit_and_push_def Let_def
    by (intro costs_and_then costs_if g p costs_ret costs_weaken [OF costs_ret]) simp_all
qed

lemma sync_cost:
  assumes "counts_processes runs gh"
  shows "costs runs 12 (sync_repository gh gr)"
proof -
  have g: "costs runs 1 (git gh gr ''rev-parse'' args)" "costs runs 3 (git gh gr ''ls-remote'' args)" for args
    using git_cost(2) [OF assms, of "''rev-parse''"] git_cost(2) [OF assms, of "''ls-remote''"]
    by (simp_all add: git_command_attempts_def)
  have c: "costs runs (0 + (1 + 0)) (clone_repository gh gr)"
    unfolding clone_repository_def run_git_def
    by (intro costs_and_then counted [OF assms] costs_ret run_git_cost [OF assms, of 1])
  have a: "costs runs (0 + 0) (set_aside gh gr)"
    unfolding set_aside_def by (intro costs_and_then counted [OF assms])
  have again: "costs runs 1 (and_then (set_aside gh gr) (\<lambda>_. clone_repository gh gr))"
    using costs_and_then [OF a c] by simp
  have fresh: "costs runs 1 (and_then (if there then set_aside gh gr else ret ()) (\<lambda>_. clone_repository gh gr))" for there
    using again costs_and_then [OF costs_ret c, of "()"] by simp
  have known: "costs runs 2 (and_then (succeeds (git gh gr ''rev-parse'' args))
      (\<lambda>sound. if sound then ret False else and_then (set_aside gh gr) (\<lambda>_. clone_repository gh gr)))" for args
    by (rule costs_weaken [of _ "1 + 1"], intro costs_and_then succeeds_cost g costs_if again costs_weaken [OF costs_ret])
      simp_all
  have e: "costs runs (0 + 2) (ensure_repository gh gr)"
    unfolding ensure_repository_def
    using known costs_weaken [OF costs_and_then [OF counted(3) [OF assms] fresh], of 2]
    by (intro costs_and_then counted [OF assms] costs_if) simp_all
  have m: "costs runs ((1 + 3) + 0) (remote_branch_matches_head gh gr)"
    unfolding remote_branch_matches_head_def
    by (intro costs_and_then costs_both g) (simp add: costs_ret split_beta)
  have p: "costs runs 6 (pull_rebase_safely gh gr)"
    using pull_cost [OF assms, where left = 3] by (simp add: pull_rebase_safely_def git_command_attempts_def)
  have "costs runs (2 + (4 + 6)) (sync_repository gh gr)"
    unfolding sync_repository_def
    by (intro costs_and_then costs_if costs_weaken [OF costs_ret] p) (use e m in \<open>simp_all add: costs_weaken\<close>)
  then show ?thesis by simp
qed

lemma find_cost:
  assumes "counts_processes runs gh"
  shows "costs runs 0 (find_source_url gh gr u)"
proof -
  have e: "costs runs 0 (find_entry gh dir u es)" for dir es
  proof (induction es)
    case (Cons e es)
    have "costs runs (0 + 0) (and_then (gh_read gh (path_join dir e)) (\<lambda>content.
        if source_url_of content = Some u then ret (Some e) else find_entry gh dir u es))"
      by (intro costs_and_then counted [OF assms] costs_if costs_ret Cons)
    then show ?case using Cons by simp
  qed (simp add: costs_ret)
  have "costs runs (0 + (0 + 0)) (find_source_url gh gr u)"
    unfolding find_source_url_def
    by (intro costs_and_then counted [OF assms] costs_if costs_weaken [OF costs_ret] e) simp
  then show ?thesis by simp
qed

lemma store_cost:
  assumes "counts_processes runs gh"
  shows "costs runs 0 (store_page gh temporary target content)"
proof -
  have "costs runs (0 + (((0 + 0) + 0) + 0)) (store_page gh temporary target content)"
    unfolding store_page_def by (intro costs_and_then costs_finally_do counted [OF assms])
  then show ?thesis by simp
qed

text \<open>Saving an article ends after at most 36 processes, whatever they answer: the retries of
  the pulls and of the pushes, each of which may pull again, do not multiply further.\<close>

lemma save_runs_few_processes:
  assumes "counts_processes runs gh"
  shows "runs (fst (save_article gh gr sha256 content filename sourceUrl s)) \<le> runs s + 36"
proof -
  note commit = commit_cost [OF assms, simplified]
  have collision: "costs runs 0 (collision_safe_filename gh sha256 dir filename sourceUrl)" for dir
    using costs_and_then [OF counted(3) [OF assms] costs_ret] by (simp add: collision_safe_filename_def)
  have "costs runs (0 + (0 + (0 + (0 + (24 + 0))))) (save_new gh gr sha256 content filename sourceUrl)"
    unfolding save_new_def Let_def
    by (intro costs_and_then counted [OF assms] collision store_cost [OF assms] commit costs_ret)
  then have new: "costs runs 24 (save_new gh gr sha256 content filename sourceUrl)" by simp
  have old: "costs runs 24 (and_then (commit_and_push gh gr target) (\<lambda>_. ret (False, name)))" for target name
    using costs_and_then [OF commit costs_ret] by simp
  have "costs runs (12 + (0 + 24)) (save_article gh gr sha256 content filename sourceUrl)"
    unfolding save_article_def
    by (intro costs_and_then sync_cost [OF assms] find_cost [OF assms]) (simp add: new old split: option.split)
  then show ?thesis using costsD [of runs 36 "save_article gh gr sha256 content filename sourceUrl" s] by simp
qed

section \<open>A page that was saved is found\<close>

text \<open>
  What the repository relies on of the files: the pages of the articles directory, which nobody else
  removes or edits while it works, are what \<open>readdir\<close> and \<open>readFile\<close> show, a page written to a
  temporary file and renamed is there with its content, and a sound clone stays sound.
\<close>

definition grows :: "('s \<Rightarrow> bool) \<Rightarrow> ('s \<Rightarrow> 'x list) \<Rightarrow> ('s, 'a) action \<Rightarrow> bool" where
  "grows sound tree act = (\<forall>T. keeps (\<lambda>s. sound s \<and> T \<subseteq> set (tree s)) act)"

lemma growsD: "grows sound tree act \<Longrightarrow> sound s \<Longrightarrow> sound (fst (act s)) \<and> set (tree s) \<subseteq> set (tree (fst (act s)))"
  using keepsD [of "\<lambda>x. sound x \<and> set (tree s) \<subseteq> set (tree x)" act s] by (auto simp: grows_def)

lemma grows_keeps: "grows sound tree act \<Longrightarrow> keeps (\<lambda>s. sound s \<and> T \<subseteq> set (tree s)) act"
  by (simp add: grows_def)

lemma keeps_git:
  assumes ops: "\<And>args t. keeps P (gh_exec gh args t)" "\<And>n. keeps P (gh_pause gh n)"
  shows "keeps P (git gh gr command args)" and "keeps P (pull_rebase_safely gh gr)"
    and "keeps P (commit_and_push gh gr target)"
proof -
  have loop: "keeps P (run_git_loop gh args timeout command attempt left)" for args timeout command attempt left
    by (induction left arbitrary: attempt) (auto intro!: keeps_intros ops)
  have tries: "keeps P (git_with_attempts gh gr attempts command args)" for attempts command args
    by (simp add: git_with_attempts_def run_git_def loop)
  show git: "keeps P (git gh gr command args)" for command args
    by (simp add: git_def tries)
  have pull_loop: "keeps P (pull_rebase_loop gh gr attempt left)" for attempt left
    by (induction left arbitrary: attempt) (auto simp: succeeds_def intro!: keeps_intros tries ops)
  then show pull: "keeps P (pull_rebase_safely gh gr)" by (simp add: pull_rebase_safely_def)
  have "keeps P (push_loop gh gr left)" for left
    by (induction left) (auto intro!: keeps_intros tries pull)
  then show "keeps P (commit_and_push gh gr target)"
    by (auto simp: commit_and_push_def push_with_rebase_retry_def Let_def intro!: keeps_intros git)
qed

locale article_tree =
  fixes gh :: "('s, 'h) git_host" and gr :: git_repository
    and tree :: "'s \<Rightarrow> (ustring \<times> ustring) list" and sound :: "'s \<Rightarrow> bool"
  assumes distinct_tree: "distinct (map fst (tree s))"
    and exec_grows: "grows sound tree (gh_exec gh args t)"
    and pause_grows: "grows sound tree (gh_pause gh ms)"
    and exists_grows: "grows sound tree (gh_exists gh p)"
    and mkdir_grows: "grows sound tree (gh_mkdir gh p)"
    and uuid_grows: "grows sound tree (gh_uuid gh)"
    and clone_exists: "sound s \<Longrightarrow> gh_exists gh (path_join (repository_path gr) (ascii ''.git'')) s = (s, Inr True)"
    and head_exists: "sound s \<Longrightarrow> \<exists>s' out. git gh gr ''rev-parse'' [ascii ''--verify'', ascii ''HEAD''] s = (s', Inr out)"
    and articles_exist: "tree s \<noteq> [] \<Longrightarrow> gh_exists gh (articles_path gr) s = (s, Inr True)"
    and listing: "gh_readdir gh (articles_path gr) s = (s, Inr (map fst (tree s)))"
    and reading: "(n, c) \<in> set (tree s) \<Longrightarrow> gh_read gh (path_join (articles_path gr) n) s = (s, Inr c)"
    and storing: "sound s \<Longrightarrow> store_page gh tmp (path_join (articles_path gr) n) c s = (s', Inr ()) \<Longrightarrow>
      sound s' \<and> (n, c) \<in> set (tree s')"
begin

lemma git_grows: "grows sound tree (git gh gr command args)"
  and pull_grows: "grows sound tree (pull_rebase_safely gh gr)"
  and commit_grows: "grows sound tree (commit_and_push gh gr target)"
  using keeps_git [OF grows_keeps [OF exec_grows] grows_keeps [OF pause_grows]] by (simp_all add: grows_def)

text \<open>A sound clone is brought up to date and keeps its pages.\<close>

lemma sync_grows:
  assumes "sound s"
  shows "sound (fst (sync_repository gh gr s)) \<and> set (tree s) \<subseteq> set (tree (fst (sync_repository gh gr s)))"
proof -
  obtain s1 out where v: "git gh gr ''rev-parse'' [ascii ''--verify'', ascii ''HEAD''] s = (s1, Inr out)"
    using head_exists [OF assms] by blast
  have s1: "sound s1" "set (tree s) \<subseteq> set (tree s1)"
    using growsD [OF git_grows assms, of "''rev-parse''" "[ascii ''--verify'', ascii ''HEAD'']"] v by simp_all
  have e: "ensure_repository gh gr s = (s1, Inr False)"
    using clone_exists [OF assms] v
    by (simp add: ensure_repository_def and_then_def succeeds_def catching_def ret_def)
  have two: "keeps P (both f g)" if "keeps P f" "keeps P g" for P and f :: "('s, ustring) action" and g :: "('s, ustring) action"
    using keepsD [OF that(1)] keepsD [OF that(2)] by (auto simp: both_def Let_def intro!: keepsI split: prod.splits) (metis fst_conv)
  have "keeps (\<lambda>x. sound x \<and> set (tree s1) \<subseteq> set (tree x)) (and_then (remote_branch_matches_head gh gr) (\<lambda>same.
         if same then ret () else pull_rebase_safely gh gr))"
    unfolding remote_branch_matches_head_def
    by (auto intro!: keeps_intros two grows_keeps [OF git_grows] grows_keeps [OF pull_grows])
  from keepsD [OF this, of s1] s1 show ?thesis
    by (auto simp: sync_repository_def and_then_def [of "ensure_repository gh gr"] e)
qed

lemma find_entry_result:
  assumes "set es \<subseteq> fst ` set (tree s)"
  shows "\<exists>r. find_entry gh (articles_path gr) u es s = (s, Inr r)
    \<and> (\<forall>n. r = Some n \<longrightarrow> is_markdown n \<and> (\<exists>c. (n, c) \<in> set (tree s) \<and> source_url_of c = Some u))
    \<and> (r = None \<longrightarrow> (\<forall>n c. (n, c) \<in> set (tree s) \<longrightarrow> n \<in> set es \<longrightarrow> is_markdown n \<longrightarrow> source_url_of c \<noteq> Some u))"
  using assms
proof (induction es)
  case (Cons e es)
  then obtain c where c: "(e, c) \<in> set (tree s)" by auto
  have only: "c' = c" if "(e, c') \<in> set (tree s)" for c'
    using that c distinct_tree [of s] by (metis map_of_eq_Some_iff option.inject)
  obtain r where r: "find_entry gh (articles_path gr) u es s = (s, Inr r)"
    "\<forall>n. r = Some n \<longrightarrow> is_markdown n \<and> (\<exists>c. (n, c) \<in> set (tree s) \<and> source_url_of c = Some u)"
    "r = None \<longrightarrow> (\<forall>n c. (n, c) \<in> set (tree s) \<longrightarrow> n \<in> set es \<longrightarrow> is_markdown n \<longrightarrow> source_url_of c \<noteq> Some u)"
    using Cons by auto
  show ?case
  proof (cases "is_markdown e \<and> source_url_of c = Some u")
    case True
    then show ?thesis using c reading [OF c] by (auto simp: and_then_def ret_def)
  next
    case False
    then have "find_entry gh (articles_path gr) u (e # es) s = (s, Inr r)"
      using r(1) reading [OF c] by (auto simp: and_then_def)
    then show ?thesis using r(2,3) False only by auto
  qed
qed (simp add: ret_def)

lemma find_result:
  assumes "(n, c) \<in> set (tree s)" and "is_markdown n" and "source_url_of c = Some u"
  obtains n' c' where "find_source_url gh gr u s = (s, Inr (Some n'))" "is_markdown n'"
    "(n', c') \<in> set (tree s)" "source_url_of c' = Some u"
proof -
  have "tree s \<noteq> []" using assms(1) by auto
  then have f: "find_source_url gh gr u s = find_entry gh (articles_path gr) u (map fst (tree s)) s"
    using articles_exist [of s] listing [of s] by (simp add: find_source_url_def and_then_def)
  obtain r where r: "find_entry gh (articles_path gr) u (map fst (tree s)) s = (s, Inr r)"
    "\<forall>n. r = Some n \<longrightarrow> is_markdown n \<and> (\<exists>c. (n, c) \<in> set (tree s) \<and> source_url_of c = Some u)"
    "r = None \<longrightarrow> (\<forall>n c. (n, c) \<in> set (tree s) \<longrightarrow> n \<in> set (map fst (tree s)) \<longrightarrow> is_markdown n \<longrightarrow> source_url_of c \<noteq> Some u)"
    using find_entry_result [of "map fst (tree s)" s u] by auto
  have "r \<noteq> None" using r(3) assms by force
  then show ?thesis using that f r(1,2) by force
qed

text \<open>A page that is there is found and not written again.\<close>

lemma save_known:
  assumes "sound s" and "(n, c) \<in> set (tree s)" and "is_markdown n" and "source_url_of c = Some (ascii url)"
    and "save_article gh gr sha256 content filename url s = (s', Inr (created, name))"
  shows "\<not> created \<and> (\<exists>c'. (name, c') \<in> set (tree s') \<and> source_url_of c' = Some (ascii url))"
proof -
  obtain s1 where s1: "sync_repository gh gr s = (s1, Inr ())" "sound s1" "(n, c) \<in> set (tree s1)"
    using assms(5) sync_grows [OF assms(1)] assms(2) by (auto simp: save_article_def and_then_Inr)
  obtain n' c' where f: "find_source_url gh gr (ascii url) s1 = (s1, Inr (Some n'))" "(n', c') \<in> set (tree s1)"
    "source_url_of c' = Some (ascii url)"
    using find_result [OF s1(3) assms(3,4)] by metis
  have "and_then (commit_and_push gh gr (path_join (articles_path gr) n')) (\<lambda>_. ret (False, n')) s1 = (s', Inr (created, name))"
    using assms(5) s1(1) f(1) by (simp add: save_article_def and_then_def)
  then have "commit_and_push gh gr (path_join (articles_path gr) n') s1 = (s', Inr ())" "\<not> created" "name = n'"
    by (auto simp: action_results)
  then show ?thesis
    using growsD [OF commit_grows s1(2), of "path_join (articles_path gr) n'"] f(2,3) by auto
qed

lemma find_sound:
  assumes "sound s" and "find_source_url gh gr u s = (s', Inr r)"
  shows "sound s' \<and> (\<forall>n. r = Some n \<longrightarrow> is_markdown n \<and> (\<exists>c. (n, c) \<in> set (tree s') \<and> source_url_of c = Some u))"
proof -
  obtain s1 there where e: "gh_exists gh (articles_path gr) s = (s1, Inr there)"
    using assms(2) by (auto simp: find_source_url_def and_then_Inr)
  then have "sound s1" using growsD [OF exists_grows assms(1), of "articles_path gr"] by simp
  then show ?thesis
    using assms(2) e listing [of s1] find_entry_result [of "map fst (tree s1)" s1 u]
    by (auto simp: find_source_url_def and_then_def ret_def split: if_splits)
qed

lemma save_new_stores:
  assumes "sound s" and "is_markdown filename"
    and "save_new gh gr sha256 content filename url s = (s', Inr (created, name))"
  shows "is_markdown name \<and> (name, content) \<in> set (tree s')"
proof -
  let ?dir = "articles_path gr"
  obtain s1 where s1: "gh_mkdir gh ?dir s = (s1, Inr ())" "sound s1"
    using assms(3) growsD [OF mkdir_grows assms(1), of ?dir] by (auto simp: save_new_def Let_def and_then_Inr)
  obtain s2 where s2: "collision_safe_filename gh sha256 ?dir filename url s1 = (s2, Inr name)"
      "and_then (gh_uuid gh) (\<lambda>uuid.
         and_then (store_page gh (path_join ?dir (ascii (''.article-'' @ uuid @ ''.tmp''))) (path_join ?dir name) content) (\<lambda>_.
         and_then (commit_and_push gh gr (path_join ?dir name)) (\<lambda>_. ret (True, name)))) s2 = (s', Inr (created, name))"
    using assms(3) s1(1) by (auto simp: save_new_def Let_def action_results)
  obtain t there where t: "gh_exists gh (path_join ?dir filename) s1 = (t, Inr there)" "s2 = t"
      "name = (if \<not> there then filename else drop_extension filename @ [45] @ ascii (take 8 (sha256 url)) @ ascii ''.md'')"
    using s2(1) by (auto simp: collision_safe_filename_def action_results)
  have "is_markdown (x @ ascii ''.md'')" for x by (simp add: is_markdown_def ascii_def)
  then have md: "is_markdown name" using t(3) assms(2) by (metis append.assoc)
  have "sound s2" using growsD [OF exists_grows s1(2), of "path_join ?dir filename"] t(1,2) by simp
  moreover obtain s3 uuid where s3: "gh_uuid gh s2 = (s3, Inr uuid)"
      "and_then (store_page gh (path_join ?dir (ascii (''.article-'' @ uuid @ ''.tmp''))) (path_join ?dir name) content) (\<lambda>_.
         and_then (commit_and_push gh gr (path_join ?dir name)) (\<lambda>_. ret (True, name))) s3 = (s', Inr (created, name))"
    using s2(2) by (auto simp: and_then_Inr)
  ultimately have "sound s3" using growsD [OF uuid_grows, of s2] by simp
  moreover obtain s4 where s4: "store_page gh (path_join ?dir (ascii (''.article-'' @ uuid @ ''.tmp''))) (path_join ?dir name) content s3
      = (s4, Inr ())" "commit_and_push gh gr (path_join ?dir name) s4 = (s', Inr ())"
    using s3(2) by (auto simp: action_results)
  ultimately have "sound s4 \<and> (name, content) \<in> set (tree s4)" using storing by blast
  then show ?thesis using growsD [OF commit_grows, of s4 "path_join ?dir name"] s4(2) md by auto
qed

text \<open>A page that is saved is there.\<close>

lemma save_stores:
  assumes "sound s" and "is_markdown filename" and "source_url_of content = Some (ascii url)"
    and "save_article gh gr sha256 content filename url s = (s', Inr (created, name))"
  shows "\<exists>c. (name, c) \<in> set (tree s') \<and> is_markdown name \<and> source_url_of c = Some (ascii url)"
proof -
  obtain s1 s2 r where s1: "sync_repository gh gr s = (s1, Inr ())" "sound s1"
      "find_source_url gh gr (ascii url) s1 = (s2, Inr r)"
    using assms(4) sync_grows [OF assms(1)] by (auto simp: save_article_def and_then_Inr)
  note found = find_sound [OF s1(2,3)]
  show ?thesis
  proof (cases r)
    case None
    then have "save_new gh gr sha256 content filename url s2 = (s', Inr (created, name))"
      using assms(4) s1(1,3) by (simp add: save_article_def and_then_def)
    then show ?thesis using save_new_stores [OF _ assms(2)] found assms(3) by blast
  next
    case (Some n)
    then have "commit_and_push gh gr (path_join (articles_path gr) n) s2 = (s', Inr ())" "name = n"
      using assms(4) s1(1,3) by (auto simp: save_article_def and_then_def ret_def split: prod.splits sum.splits)
    then show ?thesis
      using growsD [OF commit_grows, of s2 "path_join (articles_path gr) n"] found Some by fastforce
  qed
qed

end

section \<open>A host of pages\<close>

text \<open>The files of a host whose processes all succeed: the pages, the temporary files and a count.\<close>

record repo_world =
  rw_pages :: "(ustring \<times> ustring) list"
  rw_temporary :: "(ustring \<times> ustring) list"
  rw_runs :: nat

definition page_tree :: "repo_world \<Rightarrow> (ustring \<times> ustring) list" where
  "page_tree w = AList.clearjunk (rw_pages w)"

definition page_name :: "git_repository \<Rightarrow> ustring \<Rightarrow> ustring" where
  "page_name gr p = drop (Suc (length (articles_path gr))) p"

definition no_such_file :: thrown where
  "no_such_file = Thrown_Error ''ENOENT''"

definition page_host :: "git_repository \<Rightarrow> (repo_world, ustring) git_host" where
  "page_host gr =
     \<lparr>gh_exec = (\<lambda>args t w. (w\<lparr>rw_runs := Suc (rw_runs w)\<rparr>, Inr [])),
      gh_pause = (\<lambda>_. ret ()),
      gh_exists = (\<lambda>p w. (w, Inr (p = path_join (repository_path gr) (ascii ''.git'') \<or> p = articles_path gr
         \<or> page_name gr p \<in> fst ` set (rw_pages w)))),
      gh_rename = (\<lambda>p q w. case map_of (rw_temporary w) p of
           None \<Rightarrow> (w, Inl no_such_file)
         | Some c \<Rightarrow> (w\<lparr>rw_pages := (page_name gr q, c) # rw_pages w\<rparr>, Inr ())),
      gh_mkdir = (\<lambda>_. ret ()),
      gh_readdir = (\<lambda>_ w. (w, Inr (map fst (page_tree w)))),
      gh_read = (\<lambda>p w. (w, case map_of (rw_pages w) (page_name gr p) of None \<Rightarrow> Inl no_such_file | Some c \<Rightarrow> Inr c)),
      gh_open = (\<lambda>p w. (w\<lparr>rw_temporary := (p, []) # rw_temporary w\<rparr>, Inr p)),
      gh_write = (\<lambda>h c w. (w\<lparr>rw_temporary := (h, c) # rw_temporary w\<rparr>, Inr ())),
      gh_sync = (\<lambda>_. ret ()), gh_close = (\<lambda>_. ret ()), gh_uuid = ret ''0'', gh_now = (\<lambda>w. (w, 0))\<rparr>"

lemma page_name_join: "page_name gr (path_join (articles_path gr) n) = n"
  by (simp add: page_name_def path_join_def)

interpretation pages: article_tree "page_host gr" gr page_tree "\<lambda>_. True" for gr
proof
  show "distinct (map fst (page_tree s))" for s
    by (simp add: page_tree_def distinct_clearjunk)
  show "gh_read (page_host gr) (path_join (articles_path gr) n) s = (s, Inr c)" if "(n, c) \<in> set (page_tree s)" for n c s
  proof -
    have "map_of (page_tree s) n = Some c"
      using that distinct_clearjunk by (simp add: page_tree_def)
    then show ?thesis by (simp add: page_host_def page_name_join page_tree_def map_of_clearjunk)
  qed
  show "True \<and> (n, c) \<in> set (page_tree s')"
    if "store_page (page_host gr) tmp (path_join (articles_path gr) n) c s = (s', Inr ())" for tmp n c s s'
  proof -
    have "map_of (rw_pages s') n = Some c"
      using that by (auto simp: store_page_def page_host_def and_then_def finally_do_def ret_def page_name_join)
    then show ?thesis by (metis map_of_SomeD map_of_clearjunk page_tree_def)
  qed
qed (auto simp: grows_def keeps_def page_host_def page_tree_def ret_def git_def git_with_attempts_def run_git_def
      git_command_attempts_def catching_def)


definition sample_repository :: git_repository where
  "sample_repository = \<lparr>gr_articles_dir = ''articles'', gr_branch = ''main'', gr_dir = ''/r'', gr_url = ''https://g''\<rparr>"

definition sample_page :: ustring where
  "sample_page = render_article_markdown article_md_eta []
     \<lparr>ea_author = [], ea_markdown = [24352], ea_published_at = [], ea_title = [25991]\<rparr> (ascii ''https://a.b'') []"

lemma sample_page_source: "source_url_of sample_page = Some (ascii ''https://a.b'')"
  unfolding sample_page_def by (rule rendered_source) (simp_all add: one_line_def ascii_def is_surrogate_def)

definition empty_world :: repo_world where
  "empty_world = \<lparr>rw_pages = [], rw_temporary = [], rw_runs = 0\<rparr>"

definition sample_saved :: "repo_world \<times> (thrown + bool \<times> ustring)" where
  "sample_saved = save_article (page_host sample_repository) sample_repository id sample_page (ascii ''a.md'') ''https://a.b'' empty_world"

lemma trim_Nil: "trim [] = []"
  by (simp add: trim_def trim_end_def)

lemma page_exec: "gh_exec (page_host gr) args t w = (w\<lparr>rw_runs := Suc (rw_runs w)\<rparr>, Inr [])"
  by (simp add: page_host_def)

lemma page_tries:
  "0 < attempts \<Longrightarrow> git_with_attempts (page_host gr) gr attempts command args w = (w\<lparr>rw_runs := Suc (rw_runs w)\<rparr>, Inr [])"
  by (cases attempts) (simp_all add: git_with_attempts_def run_git_def catching_def page_exec)

lemma page_git: "git (page_host gr) gr command args w = (w\<lparr>rw_runs := Suc (rw_runs w)\<rparr>, Inr [])"
  by (simp add: git_def page_tries git_command_attempts_def)

lemma page_sync: "sync_repository (page_host gr) gr w = (w\<lparr>rw_runs := rw_runs w + 3\<rparr>, Inr ())"
proof -
  have e: "ensure_repository (page_host gr) gr w = (w\<lparr>rw_runs := Suc (rw_runs w)\<rparr>, Inr False)" for w
    using pages.clone_exists [OF TrueI, of gr w]
    by (simp add: ensure_repository_def and_then_def succeeds_def catching_def page_git ret_def)
  have m: "remote_branch_matches_head (page_host gr) gr w = (w\<lparr>rw_runs := Suc (Suc (rw_runs w))\<rparr>, Inr True)" for w
    by (simp add: remote_branch_matches_head_def both_def and_then_def page_git ret_def trim_Nil)
  show ?thesis by (simp add: sync_repository_def and_then_def e m ret_def)
qed

lemma page_commit: "commit_and_push (page_host gr) gr target w = (w\<lparr>rw_runs := rw_runs w + 2\<rparr>, Inr ())"
proof -
  have "push_with_rebase_retry (page_host gr) gr w = (w\<lparr>rw_runs := Suc (rw_runs w)\<rparr>, Inr ())" for w
    by (simp add: push_with_rebase_retry_def git_command_attempts_def numeral_3_eq_3 and_then_def catching_def page_tries ret_def)
  then show ?thesis by (simp add: commit_and_push_def Let_def and_then_def page_git trim_Nil ret_def)
qed

lemma page_store:
  "store_page (page_host gr) tmp (path_join (articles_path gr) n) c w =
     (w\<lparr>rw_temporary := (tmp, c) # (tmp, []) # rw_temporary w, rw_pages := (n, c) # rw_pages w\<rparr>, Inr ())"
  by (simp add: store_page_def page_host_def and_then_def finally_do_def ret_def page_name_join)

text \<open>The first page of an empty repository, and the second attempt to save it.\<close>

lemma sample_saved_result:
  "\<exists>w. sample_saved = (w, Inr (True, ascii ''a.md'')) \<and> rw_pages w = [(ascii ''a.md'', sample_page)]"
proof -
  let ?gh = "page_host sample_repository" and ?dir = "articles_path sample_repository"
  obtain k where k: "sync_repository ?gh sample_repository empty_world = (empty_world\<lparr>rw_runs := k\<rparr>, Inr ())"
    using page_sync by blast
  let ?w = "empty_world\<lparr>rw_runs := k\<rparr>"
  have f: "find_source_url ?gh sample_repository u ?w = (?w, Inr None)" for u
    by (simp add: find_source_url_def and_then_def page_host_def page_tree_def empty_world_def ret_def)
  have c: "collision_safe_filename ?gh id ?dir (ascii ''a.md'') u ?w = (?w, Inr (ascii ''a.md''))" for u
    by (simp add: collision_safe_filename_def and_then_def page_host_def empty_world_def ret_def path_join_def
        articles_path_def repository_path_def sample_repository_def ascii_def)
  have n: "\<exists>w. save_new ?gh sample_repository id sample_page (ascii ''a.md'') u ?w = (w, Inr (True, ascii ''a.md''))
      \<and> rw_pages w = [(ascii ''a.md'', sample_page)]" for u
  proof -
    let ?tmp = "path_join ?dir (ascii (''.article-'' @ ''0'' @ ''.tmp''))"
    let ?v = "?w\<lparr>rw_temporary := (?tmp, sample_page) # (?tmp, []) # rw_temporary ?w,
        rw_pages := (ascii ''a.md'', sample_page) # rw_pages ?w\<rparr>"
    obtain m where m: "commit_and_push ?gh sample_repository (path_join ?dir (ascii ''a.md'')) ?v = (?v\<lparr>rw_runs := m\<rparr>, Inr ())"
      using page_commit by blast
    have "gh_mkdir ?gh ?dir ?w = (?w, Inr ())" "gh_uuid ?gh ?w = (?w, Inr ''0'')"
      by (simp_all add: page_host_def ret_def)
    then have "save_new ?gh sample_repository id sample_page (ascii ''a.md'') u ?w = (?v\<lparr>rw_runs := m\<rparr>, Inr (True, ascii ''a.md''))"
      unfolding save_new_def Let_def using c page_store m by (simp only: and_then_def prod.case sum.case) (simp add: ret_def)
    then show ?thesis by (simp add: empty_world_def)
  qed
  have "sample_saved = save_new ?gh sample_repository id sample_page (ascii ''a.md'') ''https://a.b'' ?w"
    unfolding sample_saved_def save_article_def using k f by (simp only: and_then_def prod.case sum.case option.case)
  then show ?thesis using n by metis
qed

lemma sample_saved_again:
  assumes "rw_pages w = [(ascii ''a.md'', sample_page)]"
  shows "\<exists>w' name. save_article (page_host sample_repository) sample_repository id content filename ''https://a.b'' w
     = (w', Inr (False, name))"
proof -
  let ?gh = "page_host sample_repository"
  obtain k where k: "sync_repository ?gh sample_repository w = (w\<lparr>rw_runs := k\<rparr>, Inr ())"
    using page_sync by blast
  have "(ascii ''a.md'', sample_page) \<in> set (page_tree (w\<lparr>rw_runs := k\<rparr>))" "is_markdown (ascii ''a.md'')"
    using assms by (simp_all add: page_tree_def is_markdown_def ascii_def)
  then obtain n where n: "find_source_url ?gh sample_repository (ascii ''https://a.b'') (w\<lparr>rw_runs := k\<rparr>)
      = (w\<lparr>rw_runs := k\<rparr>, Inr (Some n))"
    using pages.find_result [OF _ _ sample_page_source] by metis
  have "commit_and_push ?gh sample_repository (path_join (articles_path sample_repository) n) (w\<lparr>rw_runs := k\<rparr>)
      = (w\<lparr>rw_runs := k + 2\<rparr>, Inr ())"
    by (simp add: page_commit)
  then show ?thesis
    using k n by (simp add: save_article_def and_then_def ret_def)
qed

definition created_of :: "repo_world \<times> (thrown + bool \<times> ustring) \<Rightarrow> bool option" where
  "created_of r = (case snd r of Inl _ \<Rightarrow> None | Inr (created, name) \<Rightarrow> Some created)"


lemma page_host_counts: "counts_processes rw_runs (page_host gr)"
  by (auto simp: counts_processes_def costs_def page_host_def ret_def tick_def split: option.split)

end
