(* ===== verification/Ima_Mirror.thy ===== *)
theory Ima_Mirror
  imports Article_Text Actions "HOL-Library.List_Lexorder"
begin

text \<open>
  The mirror of articles, \<open>apps/worker/src/ima-article-mirror.ts\<close>: the copy that is sent, the
  search for the knowledge base and for the folder of the month, the upload to the object store
  with its signature, and the marker that keeps an article from being sent again. Requests, files
  and the state store are operations of a host; the hashes, the parser of YAML and of URLs are
  arguments. A search that is paged asks until the server says it is at its end, so it is bounded by
  a number of pages, and \<open>None\<close> is a search that these do not end.
\<close>

section \<open>Values with wide strings\<close>

datatype ujson =
    U_Null
  | U_Bool bool
  | U_Num int
  | U_Str ustring
  | U_Arr "ujson list"
  | U_Obj "(string \<times> ujson) list"

fun truthy :: "ujson option \<Rightarrow> bool" where
  "truthy None = False"
| "truthy (Some U_Null) = False"
| "truthy (Some (U_Bool b)) = b"
| "truthy (Some (U_Num n)) = (n \<noteq> 0)"
| "truthy (Some (U_Str s)) = (s \<noteq> [])"
| "truthy (Some v) = True"

section \<open>Programs that fail with a stage\<close>

record ima_error =
  ie_message :: string
  ie_stage :: string
  ie_reason :: string
  ie_code :: "int option"

datatype 'a ima_outcome =
    Ima_Ok 'a
  | Ima_Failed ima_error
  | Ima_Threw thrown

text \<open>The state of the world and the knowledge base found by an earlier call.\<close>

type_synonym ('s, 'a) ima = "'s \<times> ustring option \<Rightarrow> (('s \<times> ustring option) \<times> 'a ima_outcome) option"

definition ima_ret :: "'a \<Rightarrow> ('s, 'a) ima" where
  "ima_ret x st = Some (st, Ima_Ok x)"

definition ima_fail :: "string \<Rightarrow> string \<Rightarrow> string \<Rightarrow> ('s, 'a) ima" where
  "ima_fail message stage reason st =
     Some (st, Ima_Failed \<lparr>ie_message = message, ie_stage = stage, ie_reason = reason, ie_code = None\<rparr>)"

definition ima_throw :: "thrown \<Rightarrow> ('s, 'a) ima" where
  "ima_throw e st = Some (st, Ima_Threw e)"

definition ima_then :: "('s, 'a) ima \<Rightarrow> ('a \<Rightarrow> ('s, 'b) ima) \<Rightarrow> ('s, 'b) ima" where
  "ima_then m f st =
     (case m st of
        None \<Rightarrow> None
      | Some (st', Ima_Ok x) \<Rightarrow> f x st'
      | Some (st', Ima_Failed e) \<Rightarrow> Some (st', Ima_Failed e)
      | Some (st', Ima_Threw e) \<Rightarrow> Some (st', Ima_Threw e))"

text \<open>An operation of the host, whose error is none of the mirror's own.\<close>

definition ima_run :: "('s, 'a) action \<Rightarrow> ('s, 'a) ima" where
  "ima_run act = (\<lambda>(s, memo). case act s of
     (s', Inl e) \<Rightarrow> Some ((s', memo), Ima_Threw e) | (s', Inr x) \<Rightarrow> Some ((s', memo), Ima_Ok x))"

text \<open>An operation in a \<open>try\<close> whose \<open>catch\<close> throws the given error.\<close>

definition ima_try :: "('s, 'a) action \<Rightarrow> string \<Rightarrow> string \<Rightarrow> string \<Rightarrow> ('s, 'a) ima" where
  "ima_try act message stage reason st =
     (case ima_run act st of
        Some (st', Ima_Threw _) \<Rightarrow> ima_fail message stage reason st'
      | r \<Rightarrow> r)"

definition not_an_object :: thrown where
  "not_an_object = Thrown_TypeError ''Cannot read properties of undefined''"

text \<open>\<open>v.k\<close>, and a value that is used as a list.\<close>

definition ima_field :: "ujson option \<Rightarrow> string \<Rightarrow> ('s, ujson option) ima" where
  "ima_field v k =
     (case v of
        None \<Rightarrow> ima_throw not_an_object
      | Some U_Null \<Rightarrow> ima_throw not_an_object
      | Some (U_Obj es) \<Rightarrow> ima_ret (map_of es k)
      | _ \<Rightarrow> ima_ret None)"

definition ima_list :: "ujson option \<Rightarrow> ('s, ujson list) ima" where
  "ima_list v = (case v of Some (U_Arr vs) \<Rightarrow> ima_ret vs | _ \<Rightarrow> ima_throw not_an_object)"

fun ima_collect :: "('x \<Rightarrow> ('s, 'a list) ima) \<Rightarrow> 'x list \<Rightarrow> ('s, 'a list) ima" where
  "ima_collect f [] = ima_ret []"
| "ima_collect f (x # xs) = ima_then (f x) (\<lambda>y. ima_then (ima_collect f xs) (\<lambda>ys. ima_ret (y @ ys)))"

section \<open>The host\<close>

record http_answer =
  ha_ok :: bool
  ha_payload :: "ujson option"

record 's state_store =
  ss_get :: "ustring \<Rightarrow> ('s, ujson option) action"
  ss_put :: "ustring \<Rightarrow> ujson \<Rightarrow> ('s, unit) action"

record 's ima_host =
  ih_post :: "string \<Rightarrow> ujson \<Rightarrow> ('s, http_answer) action"
  ih_create_folder :: "(string \<times> ustring) list \<Rightarrow> ujson \<Rightarrow> ('s, http_answer) action"
  ih_put :: "ustring \<Rightarrow> (string \<times> ustring) list \<Rightarrow> ustring \<Rightarrow> ('s, bool) action"
  ih_store :: "'s state_store option"
  ih_file_exists :: "ustring \<Rightarrow> ('s, bool) action"
  ih_write_marker :: "ustring \<Rightarrow> ujson \<Rightarrow> ('s, unit) action"
  ih_now :: "'s clock"
  ih_iso :: "instant \<Rightarrow> ustring"
  ih_log :: "string \<Rightarrow> ima_error option \<Rightarrow> 's \<Rightarrow> 's"
  ih_sha1 :: "ustring \<Rightarrow> ustring"
  ih_sha256 :: "ustring \<Rightarrow> ustring"
  ih_hmac :: "ustring \<Rightarrow> ustring \<Rightarrow> ustring"
  ih_parse_yaml :: "ustring \<Rightarrow> ujson option"
  ih_parse_url :: "string \<Rightarrow> (ustring \<times> (ustring \<times> ustring) list) option"
  ih_show_url :: "ustring \<Rightarrow> (ustring \<times> ustring) list \<Rightarrow> ustring"
  ih_show :: "ujson \<Rightarrow> ustring"

record ima_config =
  im_knowledge_base_name :: ustring
  im_state_directory :: ustring
  im_web_headers :: "(string \<times> ustring) list option"
  im_web_knowledge_base_id :: "ustring option"

definition ima_required :: "ustring option \<Rightarrow> string \<Rightarrow> ima_error + ustring" where
  "ima_required v message =
     (if trim (nullish v []) = []
      then Inl \<lparr>ie_message = message, ie_stage = ''configuration'', ie_reason = ''configuration_missing'', ie_code = None\<rparr>
      else Inr (trim (nullish v [])))"

definition ima_need :: "ustring option \<Rightarrow> string \<Rightarrow> ('s, ustring) ima" where
  "ima_need v message st =
     Some (st, case ima_required v message of Inl e \<Rightarrow> Ima_Failed e | Inr x \<Rightarrow> Ima_Ok x)"

section \<open>Requests\<close>

definition answer_data :: "string \<Rightarrow> ujson \<Rightarrow> ima_error + ujson" where
  "answer_data stage payload =
     (let failed = (\<lambda>reason code. Inl \<lparr>ie_message = ''ima_'' @ stage @ ''_failed'', ie_stage = stage,
            ie_reason = reason, ie_code = code\<rparr>)
      in case payload of
           U_Null \<Rightarrow> failed ''invalid_response'' None
         | U_Obj es \<Rightarrow>
             (case map_of es ''code'' of
                Some (U_Num c) \<Rightarrow>
                  if c \<noteq> 0 then failed ''api_rejected'' (Some c)
                  else Inr (case map_of es ''data'' of None \<Rightarrow> payload | Some U_Null \<Rightarrow> payload | Some d \<Rightarrow> d)
              | _ \<Rightarrow> Inr (case map_of es ''data'' of None \<Rightarrow> payload | Some U_Null \<Rightarrow> payload | Some d \<Rightarrow> d))
         | _ \<Rightarrow> Inr payload)"

definition ima_request :: "'s ima_host \<Rightarrow> string \<Rightarrow> string \<Rightarrow> ujson \<Rightarrow> ('s, ujson) ima" where
  "ima_request ih stage operation body =
     (let message = ''ima_'' @ stage @ ''_failed''
      in ima_then (ima_try (ih_post ih operation body) message stage ''network_failed'') (\<lambda>answer.
         if \<not> ha_ok answer then ima_fail message stage ''http_failed''
         else case ha_payload answer of
             None \<Rightarrow> ima_fail message stage ''invalid_response''
           | Some payload \<Rightarrow> (\<lambda>st. Some (st, case answer_data stage payload of Inl e \<Rightarrow> Ima_Failed e | Inr d \<Rightarrow> Ima_Ok d))))"

section \<open>Paged searches\<close>

text \<open>The pages of a list: what is picked of each, up to its end or to an empty cursor.\<close>

fun paged ::
  "nat \<Rightarrow> (ujson \<Rightarrow> ('s, ujson) ima) \<Rightarrow> string \<Rightarrow> (ujson \<Rightarrow> ('s, ustring list) ima) \<Rightarrow> ujson \<Rightarrow> ustring list
   \<Rightarrow> ('s, ustring list) ima" where
  "paged 0 ask key pick cursor found st = None"
| "paged (Suc n) ask key pick cursor found st =
     ima_then (ask cursor) (\<lambda>page.
     ima_then (ima_then (ima_field (Some page) key) ima_list) (\<lambda>items.
     ima_then (ima_collect pick items) (\<lambda>picked.
     ima_then (ima_field (Some page) ''is_end'') (\<lambda>is_end.
       if truthy is_end then ima_ret (found @ picked)
       else ima_then (ima_field (Some page) ''next_cursor'') (\<lambda>following.
         case following of
           Some c \<Rightarrow> if truthy following then paged n ask key pick c (found @ picked) else ima_ret (found @ picked)
         | None \<Rightarrow> ima_ret (found @ picked)))))) st"

definition pick_folder :: "ustring \<Rightarrow> ujson \<Rightarrow> ('s, ustring list) ima" where
  "pick_folder month item =
     ima_then (ima_field (Some item) ''title'') (\<lambda>title.
       if title \<noteq> Some (U_Str month) then ima_ret []
       else ima_then (ima_field (Some item) ''media_id'') (\<lambda>media.
         case media of
           None \<Rightarrow> ima_ret []
         | Some U_Null \<Rightarrow> ima_ret []
         | Some (U_Str m) \<Rightarrow> ima_ret (if take 7 m = ascii ''folder_'' then [m] else [])
         | _ \<Rightarrow> ima_throw (Thrown_TypeError ''startsWith is not a function'')))"

text \<open>The identifier of a base is taken as it comes; the model has those that are strings.\<close>

definition pick_base :: "ustring \<Rightarrow> ujson \<Rightarrow> ('s, ustring list) ima" where
  "pick_base name item =
     ima_then (ima_field (Some item) ''name'') (\<lambda>n.
       if n \<noteq> Some (U_Str name) then ima_ret []
       else ima_then (ima_field (Some item) ''id'') (\<lambda>i.
         case i of Some (U_Str k) \<Rightarrow> ima_ret [k] | _ \<Rightarrow> ima_throw not_an_object))"

definition find_unique_knowledge_base :: "nat \<Rightarrow> 's ima_host \<Rightarrow> ima_config \<Rightarrow> ('s, ustring) ima" where
  "find_unique_knowledge_base pages ih im =
     ima_then (paged pages (\<lambda>cursor. ima_request ih ''knowledge_base'' ''get_addable_knowledge_base_list''
          (U_Obj [(''cursor'', cursor), (''limit'', U_Num 50)]))
        ''addable_knowledge_base_list'' (pick_base (im_knowledge_base_name im)) (U_Str []) [])
      (\<lambda>found. case found of
         [k] \<Rightarrow> ima_ret k
       | _ \<Rightarrow> ima_fail ''ima_knowledge_base_not_unique'' ''knowledge_base'' ''knowledge_base_not_unique'')"

definition month_folders :: "nat \<Rightarrow> 's ima_host \<Rightarrow> ustring \<Rightarrow> ustring \<Rightarrow> ('s, ustring list) ima" where
  "month_folders pages ih base month =
     paged pages (\<lambda>cursor. ima_request ih ''folder'' ''get_knowledge_list''
          (U_Obj [(''cursor'', cursor), (''knowledge_base_id'', U_Str base), (''limit'', U_Num 50)]))
        ''knowledge_list'' (pick_folder month) (U_Str []) []"

definition unique_folder :: "ustring list \<Rightarrow> ('s, ustring) ima" where
  "unique_folder found =
     (case found of [f] \<Rightarrow> ima_ret f | _ \<Rightarrow> ima_fail ''ima_month_folder_not_unique'' ''folder'' ''folder_not_unique'')"

definition web_header :: "(string \<times> ustring) list \<Rightarrow> string \<Rightarrow> ('s, (string \<times> ustring) list) ima" where
  "web_header hs key = ima_then (ima_need (map_of hs key) ''ima_web_credentials_missing'') (\<lambda>v. ima_ret [(key, v)])"

definition folder_message :: string where
  "folder_message = ''ima_folder_create_failed''"

definition create_month_folder :: "'s ima_host \<Rightarrow> ima_config \<Rightarrow> (string \<times> ustring) list \<Rightarrow> ustring \<Rightarrow> ('s, unit) ima" where
  "create_month_folder ih im hs month =
     ima_then (ima_need (im_web_knowledge_base_id im) ''ima_web_knowledge_base_missing'') (\<lambda>base.
     ima_then (ima_collect (web_header hs) [''cookie'', ''x-ima-cookie'', ''x-ima-bkn'']) (\<lambda>headers.
     ima_then (ima_try (ih_create_folder ih headers
          (U_Obj [(''folder_id'', U_Str base), (''knowledge_base_id'', U_Str base), (''title'', U_Str month)]))
        folder_message ''folder'' ''network_failed'') (\<lambda>answer.
       if \<not> ha_ok answer then ima_fail folder_message ''folder'' ''http_failed''
       else case ha_payload answer of
           None \<Rightarrow> ima_fail folder_message ''folder'' ''invalid_response''
         | Some (U_Obj es) \<Rightarrow>
             if map_of es ''code'' = Some (U_Num 0) then ima_ret ()
             else ima_fail folder_message ''folder'' ''api_rejected''
         | _ \<Rightarrow> ima_fail folder_message ''folder'' ''api_rejected'')))"

definition find_unique_month_folder :: "nat \<Rightarrow> 's ima_host \<Rightarrow> ima_config \<Rightarrow> ustring \<Rightarrow> ustring \<Rightarrow> ('s, ustring) ima" where
  "find_unique_month_folder pages ih im base month =
     ima_then (month_folders pages ih base month) (\<lambda>found.
       case (found, im_web_headers im) of
         ([], Some hs) \<Rightarrow>
           ima_then (create_month_folder ih im hs month) (\<lambda>_.
           ima_then (month_folders pages ih base month) unique_folder)
       | _ \<Rightarrow> unique_folder found)"

section \<open>The copy and its place\<close>

text \<open>The front matter of a page: the lines between two lines of three hyphens, and what follows.\<close>

definition skip_eol :: "ustring \<Rightarrow> ustring option" where
  "skip_eol t =
     (if take 2 t = [13, 10] then Some (drop 2 t) else if take 1 t = [10] then Some (drop 1 t) else None)"

definition closing_line :: "ustring \<Rightarrow> ustring option" where
  "closing_line t =
     (case skip_eol t of
        None \<Rightarrow> None
      | Some r \<Rightarrow>
          if take 3 r \<noteq> [45, 45, 45] then None
          else if drop 3 r = [] then Some [] else skip_eol (drop 3 r))"

fun split_front :: "ustring \<Rightarrow> ustring \<Rightarrow> (ustring \<times> ustring) option" where
  "split_front front t =
     (case closing_line t of
        Some body \<Rightarrow> Some (front, body)
      | None \<Rightarrow> (case t of [] \<Rightarrow> None | c # cs \<Rightarrow> split_front (front @ [c]) cs))"

declare split_front.simps [simp del]

definition front_matter :: "ustring \<Rightarrow> (ustring \<times> ustring) option" where
  "front_matter content =
     (if take 3 content \<noteq> [45, 45, 45] then None
      else case skip_eol (drop 3 content) of None \<Rightarrow> None | Some t \<Rightarrow> split_front [] t)"

definition string_metadata :: "ujson option \<Rightarrow> ustring option" where
  "string_metadata v = (case v of Some (U_Str s) \<Rightarrow> if trim s = [] then None else Some (trim s) | _ \<Rightarrow> None)"

definition join_parts :: "ustring list \<Rightarrow> ustring" where
  "join_parts ps = (case filter (\<lambda>p. p \<noteq> []) ps of [] \<Rightarrow> [] | p # qs \<Rightarrow> p @ concat (map (\<lambda>q. [10, 10] @ q) qs))"

definition render_ima_markdown_copy :: "(ustring \<Rightarrow> ujson option) \<Rightarrow> ustring \<Rightarrow> ustring" where
  "render_ima_markdown_copy parse_yaml content =
     (case front_matter content of
        None \<Rightarrow> content
      | Some (front, rest) \<Rightarrow>
          (case parse_yaml front of
             Some (U_Obj es) \<Rightarrow>
               (let title = string_metadata (map_of es ''title''); source = string_metadata (map_of es ''source_url'')
                in if title = None \<and> source = None then content
                   else join_parts
                     [case title of None \<Rightarrow> [] | Some t \<Rightarrow> ascii ''# '' @ t, dropWhile is_blank rest,
                      case source of None \<Rightarrow> [] | Some u \<Rightarrow>
                        [26469, 28304, 65306, 91, 21407, 25991, 38142, 25509, 93, 40] @ u @ [41]])
           | _ \<Rightarrow> content))"

definition is_digit_code :: "nat \<Rightarrow> bool" where
  "is_digit_code c = (48 \<le> c \<and> c \<le> 57)"

definition build_ima_location :: "ustring \<Rightarrow> ('s, ustring \<times> ustring) ima" where
  "build_ima_location filename =
     (if 9 < length filename \<and> list_all is_digit_code (take 8 filename) \<and> filename ! 8 = 45
         \<and> list_all (\<lambda>c. \<not> is_terminator c) (drop 9 filename)
      then ima_ret (drop 9 filename, take 6 filename)
      else ima_fail ''ima_archive_filename_invalid'' ''folder'' ''invalid_filename'')"

section \<open>The upload\<close>

text \<open>\<open>encodeURIComponent\<close>, which throws on a surrogate without its partner.\<close>

definition plain_code :: "nat \<Rightarrow> bool" where
  "plain_code c = (is_digit_code c \<or> (65 \<le> c \<and> c \<le> 90) \<or> (97 \<le> c \<and> c \<le> 122) \<or> c \<in> set (ascii ''-_.!~*()'') \<or> c = 39)"

definition upper_hex :: "nat \<Rightarrow> nat" where
  "upper_hex n = (if n < 10 then 48 + n else 55 + n)"

definition percent :: "nat \<Rightarrow> ustring" where
  "percent b = [37, upper_hex (b div 16), upper_hex (b mod 16)]"

definition encode_code :: "nat \<Rightarrow> ustring" where
  "encode_code c =
     (if plain_code c then [c]
      else if c < 128 then percent c
      else if c < 2048 then percent (192 + c div 64) @ percent (128 + c mod 64)
      else if c < 65536 then percent (224 + c div 4096) @ percent (128 + c div 64 mod 64) @ percent (128 + c mod 64)
      else percent (240 + c div 262144) @ percent (128 + c div 4096 mod 64) @ percent (128 + c div 64 mod 64)
        @ percent (128 + c mod 64))"

definition encode_uri :: "ustring \<Rightarrow> ('s, ustring) ima" where
  "encode_uri t =
     (if list_ex is_surrogate t then ima_throw (Thrown_Error ''URI malformed'') else ima_ret (concat (map encode_code t)))"

record cos_credential =
  cc_bucket_name :: ustring
  cc_cos_key :: "ujson option"
  cc_expired_time :: ustring
  cc_region :: ustring
  cc_secret_id :: ustring
  cc_secret_key :: "ujson option"
  cc_start_time :: ustring
  cc_token :: ustring

text \<open>What a template makes of a value, and a value that must be a string.\<close>

definition show_value :: "'s ima_host \<Rightarrow> ujson option \<Rightarrow> ustring" where
  "show_value ih v =
     (case v of
        None \<Rightarrow> ascii ''undefined''
      | Some U_Null \<Rightarrow> ascii ''null''
      | Some (U_Bool b) \<Rightarrow> ascii (if b then ''true'' else ''false'')
      | Some (U_Num n) \<Rightarrow> ascii (js_integer n)
      | Some (U_Str s) \<Rightarrow> s
      | Some w \<Rightarrow> ih_show ih w)"

definition ima_string :: "ujson option \<Rightarrow> ('s, ustring) ima" where
  "ima_string v = (case v of Some (U_Str s) \<Rightarrow> ima_ret s | _ \<Rightarrow> ima_throw not_an_object)"

definition read_credential :: "'s ima_host \<Rightarrow> ujson option \<Rightarrow> ('s, cos_credential) ima" where
  "read_credential ih v =
     ima_then (ima_field v ''cos_key'') (\<lambda>key. ima_then (ima_field v ''secret_key'') (\<lambda>secret.
     ima_then (ima_field v ''bucket_name'') (\<lambda>bucket. ima_then (ima_field v ''expired_time'') (\<lambda>expired.
     ima_then (ima_field v ''region'') (\<lambda>region. ima_then (ima_field v ''secret_id'') (\<lambda>sid.
     ima_then (ima_field v ''start_time'') (\<lambda>start. ima_then (ima_field v ''token'') (\<lambda>token.
       ima_ret \<lparr>cc_bucket_name = show_value ih bucket, cc_cos_key = key, cc_expired_time = show_value ih expired,
         cc_region = show_value ih region, cc_secret_id = show_value ih sid, cc_secret_key = secret,
         cc_start_time = show_value ih start, cc_token = show_value ih token\<rparr>))))))))"

definition cos_hostname :: "cos_credential \<Rightarrow> ustring" where
  "cos_hostname c = cc_bucket_name c @ ascii ''.cos.'' @ cc_region c @ ascii ''.myqcloud.com''"

text \<open>\<open>/^[a-z0-9.-]+\.myqcloud\.com$/i\<close>.\<close>

definition host_char :: "nat \<Rightarrow> bool" where
  "host_char c = (is_digit_code c \<or> (65 \<le> c \<and> c \<le> 90) \<or> (97 \<le> c \<and> c \<le> 122) \<or> c = 46 \<or> c = 45)"

definition lower_code :: "nat \<Rightarrow> nat" where
  "lower_code c = (if 65 \<le> c \<and> c \<le> 90 then c + 32 else c)"

definition cos_host_valid :: "ustring \<Rightarrow> bool" where
  "cos_host_valid h =
     (13 < length h \<and> list_all host_char h
      \<and> map lower_code (drop (length h - 13) h) = ascii ''.myqcloud.com'')"

fun split_segments :: "nat \<Rightarrow> ustring \<Rightarrow> ustring list" where
  "split_segments d [] = [[]]"
| "split_segments d (c # cs) =
     (if c = d then [] # split_segments d cs
      else case split_segments d cs of [] \<Rightarrow> [[c]] | p # ps \<Rightarrow> (c # p) # ps)"

definition cos_pathname :: "ustring \<Rightarrow> ('s, ustring) ima" where
  "cos_pathname key =
     ima_then (ima_collect (\<lambda>p. ima_then (encode_uri p) (\<lambda>e. ima_ret [e])) (split_segments 47 key)) (\<lambda>ps.
       ima_ret (concat (map (\<lambda>p. 47 # p) ps)))"

text \<open>The keys of the headers that are signed, \<open>content-length\<close> and \<open>host\<close>, are in this order.\<close>

definition signed_headers :: "nat \<Rightarrow> ustring \<Rightarrow> ustring" where
  "signed_headers size_of host =
     ascii ''content-length='' @ ascii (decimal size_of) @ ascii ''&host='' @ concat (map encode_code host)"

definition cos_authorization :: "'s ima_host \<Rightarrow> cos_credential \<Rightarrow> ustring \<Rightarrow> nat \<Rightarrow> ustring \<Rightarrow> ustring \<Rightarrow> ustring" where
  "cos_authorization ih c secret size_of host pathname =
     (let keyTime = cc_start_time c @ [59] @ cc_expired_time c;
          signKey = ih_hmac ih secret keyTime;
          httpString = ascii ''put'' @ [10] @ pathname @ [10, 10] @ signed_headers size_of host @ [10];
          signature = ih_hmac ih signKey (ascii ''sha1'' @ [10] @ keyTime @ [10] @ ih_sha1 ih httpString @ [10])
      in ascii ''q-sign-algorithm=sha1&q-ak='' @ cc_secret_id c @ ascii ''&q-sign-time='' @ keyTime
         @ ascii ''&q-key-time='' @ keyTime @ ascii ''&q-header-list=content-length;host&q-url-param-list=&q-signature=''
         @ signature)"

definition upload_to_cos :: "'s ima_host \<Rightarrow> cos_credential \<Rightarrow> ustring \<Rightarrow> ('s, unit) ima" where
  "upload_to_cos ih c content =
     (let host = cos_hostname c; len = utf8_size content
      in if \<not> cos_host_valid host then ima_fail ''ima_cos_host_invalid'' ''cos_upload'' ''host_invalid''
         else
           ima_then (ima_then (ima_string (cc_cos_key c)) cos_pathname) (\<lambda>pathname.
           ima_then (ima_string (cc_secret_key c)) (\<lambda>secret.
           ima_then (ima_try (ih_put ih (ascii ''https://'' @ host @ pathname)
                [(''Authorization'', cos_authorization ih c secret len host pathname),
                 (''Content-Length'', ascii (decimal len)), (''Content-Type'', ascii ''text/markdown''),
                 (''x-cos-security-token'', cc_token c)] content)
              ''ima_cos_upload_failed'' ''cos_upload'' ''cos_upload_failed'') (\<lambda>ok.
             if ok then ima_ret () else ima_fail ''ima_cos_upload_failed'' ''cos_upload'' ''cos_upload_failed''))))"

section \<open>The marker\<close>

definition is_tracking :: "ustring \<Rightarrow> bool" where
  "is_tracking key = (take 4 key = ascii ''utm_'' \<or> key = ascii ''spm'' \<or> key = ascii ''from'')"

text \<open>The parameters without those that track, in the stable order of \<open>searchParams.sort\<close>.\<close>

definition kept_parameters :: "(ustring \<times> ustring) list \<Rightarrow> (ustring \<times> ustring) list" where
  "kept_parameters ps = sort_key fst (filter (\<lambda>(k, v). \<not> is_tracking k) ps)"

definition source_fingerprint :: "'s ima_host \<Rightarrow> string \<Rightarrow> ('s, ustring) ima" where
  "source_fingerprint ih sourceUrl =
     (case ih_parse_url ih sourceUrl of
        None \<Rightarrow> ima_throw (Thrown_TypeError ''Invalid URL'')
      | Some (base, ps) \<Rightarrow> ima_ret (ih_sha256 ih (ih_show_url ih base (kept_parameters ps))))"

definition state_key :: "ustring \<Rightarrow> ustring" where
  "state_key fingerprint = ascii ''ima-mirror:'' @ fingerprint"

definition marker_path :: "ima_config \<Rightarrow> ustring \<Rightarrow> ustring" where
  "marker_path im fingerprint = im_state_directory im @ [47] @ fingerprint @ ascii ''.json''"

definition is_marked :: "'s ima_host \<Rightarrow> ima_config \<Rightarrow> ustring \<Rightarrow> ('s, bool) ima" where
  "is_marked ih im fingerprint =
     (case ih_store ih of
        Some store \<Rightarrow> ima_then (ima_run (ss_get store (state_key fingerprint))) (\<lambda>v. ima_ret (v \<noteq> None))
      | None \<Rightarrow> ima_run (ih_file_exists ih (marker_path im fingerprint)))"

definition put_marker :: "'s ima_host \<Rightarrow> ima_config \<Rightarrow> ustring \<Rightarrow> ujson \<Rightarrow> ('s, unit) ima" where
  "put_marker ih im fingerprint marker =
     (case ih_store ih of
        Some store \<Rightarrow> ima_run (ss_put store (state_key fingerprint) marker)
      | None \<Rightarrow> ima_run (ih_write_marker ih (marker_path im fingerprint) marker))"

section \<open>Mirroring\<close>

definition markdown_media_type :: int where
  "markdown_media_type = 7"

definition knowledge_base :: "nat \<Rightarrow> 's ima_host \<Rightarrow> ima_config \<Rightarrow> ('s, ustring) ima" where
  "knowledge_base pages ih im = (\<lambda>(s, memo).
     case memo of
       Some k \<Rightarrow> ima_ret k (s, memo)
     | None \<Rightarrow> ima_then (find_unique_knowledge_base pages ih im)
         (\<lambda>k (s', _). Some ((s', Some k), Ima_Ok k)) (s, memo))"

definition check_repeated :: "'s ima_host \<Rightarrow> ustring \<Rightarrow> ustring \<Rightarrow> ustring \<Rightarrow> ('s, unit) ima" where
  "check_repeated ih folder base name =
     ima_then (ima_request ih ''duplicate_check'' ''check_repeated_names''
       (U_Obj [(''folder_id'', U_Str folder), (''knowledge_base_id'', U_Str base),
          (''params'', U_Arr [U_Obj [(''media_type'', U_Num markdown_media_type), (''name'', U_Str name)]])])) (\<lambda>v.
     ima_then (ima_then (ima_field (Some v) ''results'') ima_list) (\<lambda>results.
       case results of
         [] \<Rightarrow> ima_ret ()
       | r # _ \<Rightarrow> ima_then (ima_field (Some r) ''is_repeated'') (\<lambda>repeated.
           if truthy repeated then ima_fail ''ima_duplicate_unverified'' ''duplicate_check'' ''duplicate_unverified''
           else ima_ret ())))"

definition add_knowledge ::
  "'s ima_host \<Rightarrow> ustring \<Rightarrow> ustring \<Rightarrow> ustring \<Rightarrow> nat \<Rightarrow> cos_credential \<Rightarrow> ujson option \<Rightarrow> ('s, unit) ima" where
  "add_knowledge ih folder base name len c mediaId =
     ima_then (ima_run (tick (ih_now ih))) (\<lambda>t.
     ima_then (ima_request ih ''add_knowledge'' ''add_knowledge''
       (U_Obj ([(''file_info'', U_Obj [(''cos_key'', nullish (cc_cos_key c) U_Null), (''file_name'', U_Str name),
            (''file_size'', U_Num (int len)), (''last_modify_time'', U_Num (t div 1000)), (''password'', U_Str [])]),
          (''folder_id'', U_Str folder), (''knowledge_base_id'', U_Str base)]
          @ (case mediaId of None \<Rightarrow> [] | Some m \<Rightarrow> [(''media_id'', m)]) @ [(''media_type'', U_Num markdown_media_type), (''title'', U_Str name)]))) (\<lambda>_. ima_ret ()))"

definition send_article ::
  "nat \<Rightarrow> 's ima_host \<Rightarrow> ima_config \<Rightarrow> ustring \<Rightarrow> ustring \<Rightarrow> ('s, ustring) ima" where
  "send_article pages ih im content filename =
     ima_then (knowledge_base pages ih im) (\<lambda>base.
       let copy = render_ima_markdown_copy (ih_parse_yaml ih) content; len = utf8_size copy
       in ima_then (build_ima_location filename) (\<lambda>(name, month).
          ima_then (find_unique_month_folder pages ih im base month) (\<lambda>folder.
          ima_then (check_repeated ih folder base name) (\<lambda>_.
          ima_then (ima_request ih ''create_media'' ''create_media''
            (U_Obj [(''content_type'', U_Str (ascii ''text/markdown'')), (''file_ext'', U_Str (ascii ''md'')),
               (''file_name'', U_Str name), (''file_size'', U_Num (int len)), (''knowledge_base_id'', U_Str base)])) (\<lambda>media.
          ima_then (ima_then (ima_field (Some media) ''cos_credential'') (read_credential ih)) (\<lambda>c.
          ima_then (upload_to_cos ih c copy) (\<lambda>_.
          ima_then (ima_field (Some media) ''media_id'') (\<lambda>mediaId.
          ima_then (add_knowledge ih folder base name len c mediaId) (\<lambda>_. ima_ret base)))))))))"

definition mirror_steps ::
  "nat \<Rightarrow> 's ima_host \<Rightarrow> ima_config \<Rightarrow> ustring \<Rightarrow> ustring \<Rightarrow> string \<Rightarrow> ('s, bool) ima" where
  "mirror_steps pages ih im content filename sourceUrl =
     ima_then (source_fingerprint ih sourceUrl) (\<lambda>fingerprint.
     ima_then (is_marked ih im fingerprint) (\<lambda>marked.
       if marked then ima_ret False
       else
         ima_then (send_article pages ih im content filename) (\<lambda>base.
         ima_then (ima_run (tick (ih_now ih))) (\<lambda>t.
         ima_then (put_marker ih im fingerprint
           (U_Obj [(''completedAt'', U_Str (ih_iso ih t)), (''contentDigest'', U_Str (ih_sha256 ih content)),
              (''knowledgeId'', U_Str (ih_sha256 ih base))])) (\<lambda>_. ima_ret True)))))"

definition unknown_failure :: ima_error where
  "unknown_failure =
     \<lparr>ie_message = ''ima_unknown_failed'', ie_stage = ''unknown'', ie_reason = ''unknown'', ie_code = None\<rparr>"

text \<open>The mirror: \<open>None\<close> while it has not returned, otherwise the error that it threw if it threw one.\<close>

definition mirror_article ::
  "nat \<Rightarrow> 's ima_host \<Rightarrow> ima_config \<Rightarrow> ustring \<Rightarrow> ustring \<Rightarrow> string \<Rightarrow> 's \<times> ustring option
   \<Rightarrow> (('s \<times> ustring option) \<times> ima_error option) option" where
  "mirror_article pages ih im content filename sourceUrl st =
     (case mirror_steps pages ih im content filename sourceUrl st of
        None \<Rightarrow> None
      | Some ((s, memo), Ima_Ok sent) \<Rightarrow>
          Some ((if sent then ih_log ih ''article.ima_mirror.succeeded'' None s else s, memo), None)
      | Some ((s, memo), Ima_Failed e) \<Rightarrow> Some ((ih_log ih ''article.ima_mirror.failed'' (Some e) s, memo), Some e)
      | Some ((s, memo), Ima_Threw _) \<Rightarrow>
          Some ((ih_log ih ''article.ima_mirror.failed'' (Some unknown_failure) s, memo), Some unknown_failure))"

text \<open>The checks of \<open>createImaArticleMirror\<close>; a mirror that is not enabled does nothing.\<close>

definition create_ima_config ::
  "bool \<Rightarrow> ustring option \<Rightarrow> ustring option \<Rightarrow> ustring option \<Rightarrow> ustring option \<Rightarrow> (string \<times> ustring) list option
   \<Rightarrow> ustring option \<Rightarrow> ima_error + ima_config option" where
  "create_ima_config enabled apiKey clientId name dir headers webBase =
     (if \<not> enabled then Inr None
      else case ima_required apiKey ''ima_api_key_missing'' of
          Inl e \<Rightarrow> Inl e
        | Inr _ \<Rightarrow> (case ima_required clientId ''ima_client_id_missing'' of
            Inl e \<Rightarrow> Inl e
          | Inr _ \<Rightarrow> (case ima_required name ''ima_knowledge_base_name_missing'' of
              Inl e \<Rightarrow> Inl e
            | Inr n \<Rightarrow> (case ima_required dir ''ima_state_directory_missing'' of
                Inl e \<Rightarrow> Inl e
              | Inr d \<Rightarrow> Inr (Some \<lparr>im_knowledge_base_name = n, im_state_directory = d, im_web_headers = headers,
                  im_web_knowledge_base_id = webBase\<rparr>)))))"

section \<open>An article is mirrored once\<close>

text \<open>
  What the mirror relies on of its markers, in the state store or in files: whether one is there can
  be read without a change, one that was put is there, and none vanishes with a log entry.
\<close>

locale marker_store =
  fixes ih :: "'s ima_host" and im :: ima_config and marked :: "'s \<Rightarrow> ustring set"
  assumes reads_marker: "is_marked ih im f (s, memo) = Some ((s, memo), Ima_Ok (f \<in> marked s))"
    and puts_marker: "put_marker ih im f v (s, memo) = Some ((s', memo'), Ima_Ok ()) \<Longrightarrow> f \<in> marked s'"
    and logs_keep: "marked (ih_log ih event e s) = marked s"
begin

lemma marked_is_not_sent:
  assumes "source_fingerprint ih url (s, memo) = Some ((s, memo), Ima_Ok f)" and "f \<in> marked s"
  shows "mirror_article pages ih im content filename url (s, memo) = Some ((s, memo), None)"
  using assms reads_marker [of f s memo]
  by (simp add: mirror_article_def mirror_steps_def ima_then_def ima_ret_def)

lemma sent_is_marked:
  assumes "source_fingerprint ih url (s, memo) = Some ((s, memo), Ima_Ok f)"
    and "mirror_article pages ih im content filename url (s, memo) = Some ((s', memo'), None)"
  shows "f \<in> marked s'"
proof (cases "f \<in> marked s")
  case True
  then show ?thesis using marked_is_not_sent [OF assms(1)] assms(2) by simp
next
  case False
  obtain st sent where steps: "mirror_steps pages ih im content filename url (s, memo) = Some (st, Ima_Ok sent)"
      "s' = (if sent then ih_log ih ''article.ima_mirror.succeeded'' None (fst st) else fst st)"
    using assms(2) by (auto simp: mirror_article_def split: option.splits ima_outcome.splits)
  then obtain v st0 where "put_marker ih im f v st0 = Some (st, Ima_Ok ())" "sent"
    using False assms(1) reads_marker [of f s memo]
    by (auto simp: mirror_steps_def ima_then_def ima_ret_def split: option.splits ima_outcome.splits)
  then have "f \<in> marked (fst st)" using puts_marker by (cases st0, cases st) auto
  then show ?thesis using steps(2) logs_keep by (simp split: if_splits)
qed

end

text \<open>An address with other tracking parameters has the same fingerprint.\<close>

lemma tracking_is_ignored:
  assumes "ih_parse_url ih url = Some (base, ps)" and "ih_parse_url ih url' = Some (base, ps')"
    and "filter (\<lambda>(k, v). \<not> is_tracking k) ps = filter (\<lambda>(k, v). \<not> is_tracking k) ps'"
  shows "source_fingerprint ih url = source_fingerprint ih url'"
  using assms by (simp add: source_fingerprint_def kept_parameters_def)


section \<open>A host with a state store\<close>

record ima_world =
  iw_keys :: "ustring list"
  iw_sent :: nat
  iw_uploads :: "ustring list"

definition sample_answer :: "string \<Rightarrow> ujson" where
  "sample_answer operation =
     (if operation = ''get_addable_knowledge_base_list''
      then U_Obj [(''addable_knowledge_base_list'', U_Arr [U_Obj [(''id'', U_Str [107]), (''name'', U_Str [110])]]),
             (''is_end'', U_Bool True)]
      else if operation = ''get_knowledge_list''
      then U_Obj [(''knowledge_list'', U_Arr [U_Obj [(''title'', U_Str (ascii ''202311'')), (''media_id'', U_Str (ascii ''folder_1''))]]),
             (''is_end'', U_Bool True)]
      else if operation = ''check_repeated_names'' then U_Obj [(''results'', U_Arr [])]
      else if operation = ''create_media''
      then U_Obj [(''code'', U_Num 0), (''data'', U_Obj [(''media_id'', U_Str [109]), (''cos_credential'',
             U_Obj [(''bucket_name'', U_Str [98]), (''region'', U_Str [114]), (''cos_key'', U_Str [47, 107]),
               (''secret_key'', U_Str [115])])])]
      else U_Obj [])"

definition store_host :: "ima_world ima_host" where
  "store_host =
     \<lparr>ih_post = (\<lambda>operation _ w. (w\<lparr>iw_sent := Suc (iw_sent w)\<rparr>, Inr \<lparr>ha_ok = True, ha_payload = Some (sample_answer operation)\<rparr>)),
      ih_create_folder = (\<lambda>_ _ w. (w, Inr \<lparr>ha_ok = False, ha_payload = None\<rparr>)),
      ih_put = (\<lambda>url _ _ w. (w\<lparr>iw_uploads := url # iw_uploads w\<rparr>, Inr True)),
      ih_store = Some \<lparr>ss_get = (\<lambda>k w. (w, Inr (if k \<in> set (iw_keys w) then Some U_Null else None))),
        ss_put = (\<lambda>k _ w. (w\<lparr>iw_keys := k # iw_keys w\<rparr>, Inr ()))\<rparr>,
      ih_file_exists = (\<lambda>_. ret False), ih_write_marker = (\<lambda>_ _. ret ()), ih_now = (\<lambda>w. (w, 1700000000000)),
      ih_iso = (\<lambda>_. []), ih_log = (\<lambda>_ _ w. w), ih_sha1 = id, ih_sha256 = id, ih_hmac = (\<lambda>k v. v),
      ih_parse_yaml = (\<lambda>_. None),
      ih_parse_url = (\<lambda>u. Some (ascii ''https://a.b/'', if u = ''https://a.b/?utm_id=1'' then [(ascii ''utm_id'', [49])] else [])),
      ih_show_url = (\<lambda>b _. b), ih_show = (\<lambda>_. [])\<rparr>"

definition marked_keys :: "ima_world \<Rightarrow> ustring set" where
  "marked_keys w = {f. state_key f \<in> set (iw_keys w)}"

interpretation kept_markers: marker_store store_host im marked_keys for im
  by unfold_locales
    (auto simp: is_marked_def put_marker_def store_host_def ima_then_def ima_run_def ima_ret_def marked_keys_def)

definition sample_ima :: ima_config where
  "sample_ima = \<lparr>im_knowledge_base_name = [110], im_state_directory = [], im_web_headers = None,
     im_web_knowledge_base_id = None\<rparr>"

definition unmarked_world :: ima_world where
  "unmarked_world = \<lparr>iw_keys = [], iw_sent = 0, iw_uploads = []\<rparr>"

definition mirrored :: "(('s \<times> ustring option) \<times> ima_error option) option \<Rightarrow> 's option" where
  "mirrored r = (case r of Some ((s, _), None) \<Rightarrow> Some s | _ \<Rightarrow> None)"

lemmas ima_steps = ima_then_def ima_ret_def ima_run_def ima_try_def ima_field_def ima_list_def

text \<open>Each step of a mirroring that succeeds; what is sent counts.\<close>

lemma sample_requests:
  "ima_request store_host stage operation body (w, memo) =
      Some ((w\<lparr>iw_sent := Suc (iw_sent w)\<rparr>, memo),
        case answer_data stage (sample_answer operation) of Inl e \<Rightarrow> Ima_Failed e | Inr d \<Rightarrow> Ima_Ok d)"
  "knowledge_base (Suc 0) store_host sample_ima (w, None) = Some ((w\<lparr>iw_sent := Suc (iw_sent w)\<rparr>, Some [107]), Ima_Ok [107])"
  "find_unique_month_folder (Suc 0) store_host sample_ima b (ascii ''202311'') (w, memo)
     = Some ((w\<lparr>iw_sent := Suc (iw_sent w)\<rparr>, memo), Ima_Ok (ascii ''folder_1''))"
  "check_repeated store_host f b n (w, memo) = Some ((w\<lparr>iw_sent := Suc (iw_sent w)\<rparr>, memo), Ima_Ok ())"
  "add_knowledge store_host f b n len c i (w, memo) = Some ((w\<lparr>iw_sent := Suc (iw_sent w)\<rparr>, memo), Ima_Ok ())"
proof -
  show ask: "ima_request store_host stage operation body (w, memo) =
      Some ((w\<lparr>iw_sent := Suc (iw_sent w)\<rparr>, memo),
        case answer_data stage (sample_answer operation) of Inl e \<Rightarrow> Ima_Failed e | Inr d \<Rightarrow> Ima_Ok d)"
    for stage operation body w memo
    by (simp add: ima_request_def Let_def ima_steps store_host_def)
  show "knowledge_base (Suc 0) store_host sample_ima (w, None) = Some ((w\<lparr>iw_sent := Suc (iw_sent w)\<rparr>, Some [107]), Ima_Ok [107])"
    by (simp add: knowledge_base_def find_unique_knowledge_base_def ima_steps ask sample_answer_def answer_data_def
        pick_base_def sample_ima_def)
  show "find_unique_month_folder (Suc 0) store_host sample_ima b (ascii ''202311'') (w, memo)
     = Some ((w\<lparr>iw_sent := Suc (iw_sent w)\<rparr>, memo), Ima_Ok (ascii ''folder_1''))"
    by (simp add: find_unique_month_folder_def month_folders_def unique_folder_def ima_steps ask sample_answer_def
        answer_data_def pick_folder_def sample_ima_def ascii_def)
  show "check_repeated store_host f b n (w, memo) = Some ((w\<lparr>iw_sent := Suc (iw_sent w)\<rparr>, memo), Ima_Ok ())"
    by (simp add: check_repeated_def ima_steps ask sample_answer_def answer_data_def)
  show "add_knowledge store_host f b n len c i (w, memo) = Some ((w\<lparr>iw_sent := Suc (iw_sent w)\<rparr>, memo), Ima_Ok ())"
  proof -
    have "tick (ih_now store_host) w = (w, Inr 1700000000000)" by (simp add: tick_def store_host_def)
    then show ?thesis by (simp add: add_knowledge_def ima_steps ask sample_answer_def answer_data_def)
  qed
qed

definition sample_upload_url :: ustring where
  "sample_upload_url = ascii ''https://b.cos.r.myqcloud.com//k''"

lemma sample_upload:
  assumes "cc_bucket_name c = [98]" and "cc_region c = [114]" and "cc_cos_key c = Some (U_Str [47, 107])"
    and "cc_secret_key c = Some (U_Str [115])"
  shows "upload_to_cos store_host c content (w, memo)
     = Some ((w\<lparr>iw_uploads := sample_upload_url # iw_uploads w\<rparr>, memo), Ima_Ok ())"
proof -
  have "cos_host_valid (cos_hostname c)"
    using assms by (simp add: cos_host_valid_def cos_hostname_def ascii_def host_char_def is_digit_code_def lower_code_def)
  moreover have "cos_pathname [47, 107] st = Some (st, Ima_Ok [47, 47, 107])" for st :: "ima_world \<times> ustring option"
    by (simp add: cos_pathname_def ima_steps encode_uri_def is_surrogate_def encode_code_def plain_code_def)
  ultimately show ?thesis
    using assms by (simp add: upload_to_cos_def Let_def ima_steps ima_string_def) (simp add: store_host_def ima_ret_def cos_hostname_def ascii_def sample_upload_url_def)
qed

lemma sample_send:
  "send_article (Suc 0) store_host sample_ima [65] (ascii ''20231114-a.md'') (w, None)
     = Some ((w\<lparr>iw_sent := iw_sent w + 5, iw_uploads := sample_upload_url # iw_uploads w\<rparr>, Some [107]), Ima_Ok [107])"
proof -
  have l: "build_ima_location (ascii ''20231114-a.md'') st = Some (st, Ima_Ok (ascii ''a.md'', ascii ''202311''))"
    for st :: "ima_world \<times> ustring option"
    by (simp add: build_ima_location_def ascii_def is_digit_code_def is_terminator_def ima_ret_def)
  have m: "answer_data ''create_media'' (sample_answer ''create_media'') = Inr (U_Obj [(''media_id'', U_Str [109]), (''cos_credential'',
             U_Obj [(''bucket_name'', U_Str [98]), (''region'', U_Str [114]), (''cos_key'', U_Str [47, 107]),
               (''secret_key'', U_Str [115])])])"
    by (simp add: answer_data_def sample_answer_def)
  show ?thesis
    by (simp add: send_article_def Let_def ima_then_def sample_requests l m ima_field_def ima_ret_def read_credential_def
        show_value_def sample_upload)
qed

lemma sample_mirrored:
  "mirror_article (Suc 0) store_host sample_ima [65] (ascii ''20231114-a.md'') ''https://a.b/?utm_id=1'' (unmarked_world, None)
     = Some ((\<lparr>iw_keys = [state_key (ascii ''https://a.b/'')], iw_sent = 5, iw_uploads = [sample_upload_url]\<rparr>, Some [107]), None)"
proof -
  have f: "source_fingerprint store_host u st = Some (st, Ima_Ok (ascii ''https://a.b/''))" for u and st :: "ima_world \<times> ustring option"
    by (simp add: source_fingerprint_def store_host_def ima_ret_def)
  have t: "tick (ih_now store_host) w = (w, Inr 1700000000000)" for w by (simp add: tick_def store_host_def)
  have p: "put_marker store_host sample_ima k v (w, memo) = Some ((w\<lparr>iw_keys := state_key k # iw_keys w\<rparr>, memo), Ima_Ok ())"
    for k v w memo
    by (simp add: put_marker_def store_host_def ima_run_def)
  have "\<not> ascii ''https://a.b/'' \<in> marked_keys unmarked_world" by (simp add: marked_keys_def unmarked_world_def)
  then have "mirror_steps (Suc 0) store_host sample_ima [65] (ascii ''20231114-a.md'') ''https://a.b/?utm_id=1'' (unmarked_world, None)
     = Some ((\<lparr>iw_keys = [state_key (ascii ''https://a.b/'')], iw_sent = 5, iw_uploads = [sample_upload_url]\<rparr>, Some [107]), Ima_Ok True)"
    by (simp add: mirror_steps_def ima_then_def f kept_markers.reads_marker sample_send ima_run_def t p ima_ret_def)
      (simp add: unmarked_world_def)
  then show ?thesis by (simp add: mirror_article_def) (simp add: store_host_def)
qed


section \<open>The upload goes to the object store\<close>

definition ima_keeps :: "('s \<Rightarrow> bool) \<Rightarrow> ('s, 'a) ima \<Rightarrow> bool" where
  "ima_keeps P m = (\<forall>st st' r. P (fst st) \<longrightarrow> m st = Some (st', r) \<longrightarrow> P (fst st'))"

named_theorems ima_intros

lemma ima_keeps_pure [ima_intros]:
  "ima_keeps P (ima_ret x)" "ima_keeps P (ima_fail a b c)" "ima_keeps P (ima_throw e)" "ima_keeps P (ima_need v m)"
  "ima_keeps P (\<lambda>st. Some (st, y))"
  by (auto simp: ima_keeps_def ima_ret_def ima_fail_def ima_throw_def ima_need_def)

lemma ima_keeps_then_of:
  assumes "ima_keeps P m" and "\<And>x st st'. m st = Some (st', Ima_Ok x) \<Longrightarrow> ima_keeps P (f x)"
  shows "ima_keeps P (ima_then m f)"
  unfolding ima_keeps_def
proof (intro allI impI)
  fix st st' r assume p: "P (fst st)" and e: "ima_then m f st = Some (st', r)"
  obtain st1 r1 where m: "m st = Some (st1, r1)" using e by (auto simp: ima_then_def split: option.splits)
  then have p1: "P (fst st1)" using assms(1) p unfolding ima_keeps_def by blast
  show "P (fst st')"
  proof (cases r1)
    case (Ima_Ok x)
    then have "f x st1 = Some (st', r)" using e m by (simp add: ima_then_def)
    then show ?thesis using assms(2) m Ima_Ok p1 unfolding ima_keeps_def by blast
  qed (use e m p1 in \<open>simp_all add: ima_then_def\<close>)
qed

lemma ima_keeps_then [ima_intros]: "ima_keeps P m \<Longrightarrow> (\<And>x. ima_keeps P (f x)) \<Longrightarrow> ima_keeps P (ima_then m f)"
  by (rule ima_keeps_then_of)

lemma ima_keeps_run [ima_intros]: "keeps P act \<Longrightarrow> ima_keeps P (ima_run act)"
  unfolding ima_keeps_def ima_run_def
  by (auto dest: keepsD split: prod.splits sum.splits)

lemma ima_keeps_try [ima_intros]: "keeps P act \<Longrightarrow> ima_keeps P (ima_try act a b c)"
  using ima_keeps_run [of P act]
  by (auto simp: ima_keeps_def ima_try_def ima_fail_def split: option.splits ima_outcome.splits prod.splits) (metis fst_conv)+

lemma ima_keeps_collect [ima_intros]: "(\<And>x. ima_keeps P (f x)) \<Longrightarrow> ima_keeps P (ima_collect f xs)"
  by (induction xs) (auto intro!: ima_intros)

lemma ima_keeps_field [ima_intros]: "ima_keeps P (ima_field v k)" "ima_keeps P (ima_list v)" "ima_keeps P (ima_string v)"
  by (auto simp: ima_field_def ima_list_def ima_string_def intro!: ima_intros split: option.split ujson.split)

lemma ima_keeps_paged [ima_intros]:
  assumes "\<And>c. ima_keeps P (ask c)" and "\<And>x. ima_keeps P (pick x)"
  shows "ima_keeps P (paged n ask key pick cursor found)"
proof (induction n arbitrary: cursor found)
  case (Suc n)
  show ?case
    unfolding paged.simps
    by (auto intro!: ima_intros assms Suc split: option.split)
qed (simp add: ima_keeps_def)

text \<open>What a host keeps under everything but the uploads, and the addresses of uploads.\<close>

definition host_keeps :: "('s \<Rightarrow> bool) \<Rightarrow> 's ima_host \<Rightarrow> bool" where
  "host_keeps P ih =
     ((\<forall>operation body. keeps P (ih_post ih operation body)) \<and> (\<forall>hs body. keeps P (ih_create_folder ih hs body))
      \<and> (\<forall>store k. ih_store ih = Some store \<longrightarrow> keeps P (ss_get store k))
      \<and> (\<forall>store k v. ih_store ih = Some store \<longrightarrow> keeps P (ss_put store k v))
      \<and> (\<forall>p. keeps P (ih_file_exists ih p)) \<and> (\<forall>p v. keeps P (ih_write_marker ih p v)) \<and> keeps P (tick (ih_now ih))
      \<and> (\<forall>event e s. P s \<longrightarrow> P (ih_log ih event e s)))"

definition cos_url :: "ustring \<Rightarrow> bool" where
  "cos_url url = (\<exists>host path. url = ascii ''https://'' @ host @ path \<and> cos_host_valid host \<and> take 1 path = [47])"

lemma cos_pathname_slash:
  "cos_pathname key st = Some (st', Ima_Ok path) \<Longrightarrow> take 1 path = [47]"
proof -
  assume a: "cos_pathname key st = Some (st', Ima_Ok path)"
  have count: "ima_collect (\<lambda>p. ima_then (encode_uri p) (\<lambda>e. ima_ret [e])) qs st = Some (st', Ima_Ok ps) \<Longrightarrow> length ps = length qs"
    for qs st st' and ps :: "ustring list"
    by (induction qs arbitrary: st st' ps)
      (auto simp: ima_then_def ima_ret_def split: option.splits ima_outcome.splits)
  obtain st1 ps where ps: "ima_collect (\<lambda>p. ima_then (encode_uri p) (\<lambda>e. ima_ret [e])) (split_segments 47 key) st = Some (st1, Ima_Ok ps)"
      "path = concat (map (\<lambda>p. 47 # p) ps)"
    using a by (auto simp: cos_pathname_def ima_then_def [of "ima_collect _ _"] ima_ret_def split: option.splits ima_outcome.splits)
  have "split_segments 47 key \<noteq> []" by (induction key) (auto split: list.splits)
  then have "ps \<noteq> []" using count [OF ps(1)] by auto
  then show ?thesis using ps(2) by (cases ps) auto
qed

lemma ima_keeps_pathname: "ima_keeps P (cos_pathname key)"
  unfolding cos_pathname_def encode_uri_def by (auto intro!: ima_intros)

lemma ima_keeps_upload:
  assumes "\<And>url hs content. cos_url url \<Longrightarrow> keeps P (ih_put ih url hs content)"
  shows "ima_keeps P (upload_to_cos ih c content)"
proof (cases "cos_host_valid (cos_hostname c)")
  case False
  then show ?thesis by (simp add: upload_to_cos_def ima_intros)
next
  case True
  have url: "cos_url (ascii ''https://'' @ cos_hostname c @ path)"
    if path: "ima_then (ima_string (cc_cos_key c)) cos_pathname st = Some (st', Ima_Ok path)" for st st' :: "'a \<times> ustring option" and path
  proof -
    have "\<exists>key st1. cos_pathname key st1 = Some (st', Ima_Ok path)"
      using path by (auto simp: ima_then_def split: option.splits ima_outcome.splits) blast
    then have "take 1 path = [47]" using cos_pathname_slash by blast
    then show ?thesis using True unfolding cos_url_def by blast
  qed
  have pathname: "ima_keeps P (ima_then (ima_string (cc_cos_key c)) cos_pathname)"
    by (intro ima_intros ima_keeps_pathname)
  show ?thesis
    unfolding upload_to_cos_def Let_def
    using True
    by (simp, intro ima_keeps_then_of [OF pathname]) (auto intro!: ima_intros assms url)
qed



end
