(* ===== verification/Collector_Parsers.thy ===== *)
theory Collector_Parsers
  imports Queue_Job Web_Url Json
begin

text \<open>
  The parsers of what the sources answer, \<open>apps/worker/src/collector-parsers.ts\<close>: Telegram updates,
  Dida tasks and the bookmarks of the other sources, with the extraction of links from a text. The
  patterns are matchers at the head of the input; \<open>new URL\<close> and the text of a number are arguments.
\<close>

section \<open>Data\<close>

record bookmark =
  bm_key :: string
  bm_title :: string
  bm_url :: string

record telegram_file =
  tf_file_id :: string
  tf_remote_name :: string

record x_tweet =
  xt_author :: string
  xt_id :: string
  xt_text :: string
  xt_url :: string

record parse_env =
  pe_url :: url_parser
  pe_number :: "rat \<Rightarrow> string"

section \<open>Texts\<close>

definition string_value :: "parse_env \<Rightarrow> json option \<Rightarrow> string" where
  "string_value pe v =
     (case v of Some (JStr s) \<Rightarrow> js_trim s | Some (JNum x) \<Rightarrow> js_trim (pe_number pe x) | _ \<Rightarrow> [])"

text \<open>\<open>isRecord(value) ? value : {}\<close> and \<open>Array.isArray(value) ? value : []\<close>.\<close>

definition record_or_empty :: "json option \<Rightarrow> json_record" where
  "record_or_empty v = (case v of Some (JObj es) \<Rightarrow> es | _ \<Rightarrow> [])"

definition array_or_empty :: "json option \<Rightarrow> json list" where
  "array_or_empty v = (case v of Some (JArr vs) \<Rightarrow> vs | _ \<Rightarrow> [])"

text \<open>\<open>replace(/\s+/g, " ")\<close>, the flag telling that a blank came before.\<close>

fun squeeze :: "bool \<Rightarrow> string \<Rightarrow> string" where
  "squeeze b [] = []"
| "squeeze b (c # cs) =
     (if is_space c then (if b then squeeze True cs else CHR '' '' # squeeze True cs)
      else c # squeeze False cs)"

definition clean_text :: "string \<Rightarrow> string" where
  "clean_text v = squeeze False (js_trim v)"

definition trim_url :: "string \<Rightarrow> string" where
  "trim_url v = rev (dropWhile (\<lambda>c. c \<in> set ''.,;!?'') (rev v))"

definition is_http_url :: "parse_env \<Rightarrow> string \<Rightarrow> bool" where
  "is_http_url pe v =
     (case pe_url pe v of None \<Rightarrow> False | Some u \<Rightarrow> ur_protocol u \<in> {''http:'', ''https:''})"

section \<open>Links in a text\<close>

text \<open>\<open>matchAll\<close>: the matches from the left, each beginning where the one before ended.\<close>

function match_all :: "(string \<Rightarrow> ('m \<times> string) option) \<Rightarrow> string \<Rightarrow> 'm list" where
  "match_all m s =
     (case s of
        [] \<Rightarrow> []
      | c # cs \<Rightarrow>
          (case m s of
             Some (x, rest) \<Rightarrow> if length rest < length s then x # match_all m rest else []
           | None \<Rightarrow> match_all m cs))"
  by pat_completeness auto
termination by (relation "measure (\<lambda>(m, s). length s)") auto

declare match_all.simps [simp del]

lemma match_all_code [code]:
  "match_all m [] = []"
  "match_all m (c # cs) =
     (case m (c # cs) of
        Some (x, rest) \<Rightarrow> if length rest < length (c # cs) then x # match_all m rest else []
      | None \<Rightarrow> match_all m cs)"
  by (subst match_all.simps; auto split: option.splits)+

text \<open>\<open>https?:\/\/\<close>\<close>

definition web_scheme :: "string \<Rightarrow> (string \<times> string) option" where
  "web_scheme s =
     (case strip_prefix ''https://'' s of
        Some r \<Rightarrow> Some (''https://'', r)
      | None \<Rightarrow> map_option (Pair ''http://'') (strip_prefix ''http://'' s))"

text \<open>\<open>\[([^\]]+)\]\((https?:\/\/X+)\)\<close> where \<open>X\<close> excludes the closing parenthesis.\<close>

definition markdown_link :: "(char \<Rightarrow> bool) \<Rightarrow> string \<Rightarrow> ((string \<times> string) \<times> string) option" where
  "markdown_link x s =
     (case s of
        [] \<Rightarrow> None
      | c # r \<Rightarrow>
          (let label = takeWhile (\<lambda>c. c \<noteq> CHR '']'') r
           in if c \<noteq> CHR ''['' \<or> label = [] then None
              else case strip_prefix ''](''  (drop (length label) r) of
                  None \<Rightarrow> None
                | Some target \<Rightarrow>
                    (case web_scheme target of
                       None \<Rightarrow> None
                     | Some (scheme, t) \<Rightarrow>
                         (let body = takeWhile (\<lambda>c. x c \<and> c \<noteq> CHR '')'') t
                          in case drop (length body) t of
                               [] \<Rightarrow> None
                             | e # rest \<Rightarrow>
                                 if body = [] \<or> e \<noteq> CHR '')'' then None
                                 else Some ((label, scheme @ body), rest)))))"

text \<open>\<open>https?:\/\/[^\s<>()\]]+\<close>\<close>

definition bare_link :: "string \<Rightarrow> (string \<times> string) option" where
  "bare_link s =
     (case web_scheme s of
        None \<Rightarrow> None
      | Some (scheme, t) \<Rightarrow>
          (let body = takeWhile (\<lambda>c. \<not> is_space c \<and> c \<notin> set ''<>()]'') t
           in if body = [] then None else Some (scheme @ body, drop (length body) t)))"

text \<open>The set \<open>occupied\<close> holds the addresses of the pairs found so far.\<close>

definition add_pair :: "parse_env \<Rightarrow> string \<times> string \<Rightarrow> (string \<times> string) list \<Rightarrow> (string \<times> string) list" where
  "add_pair pe m pairs =
     (let url = trim_url (snd m)
      in if \<not> is_http_url pe url \<or> url \<in> snd ` set pairs then pairs
         else pairs @ [(if clean_text (fst m) = [] then url else clean_text (fst m), url)])"

definition add_bare :: "parse_env \<Rightarrow> string \<Rightarrow> (string \<times> string) list \<Rightarrow> (string \<times> string) list" where
  "add_bare pe m pairs =
     (let url = trim_url m
      in if \<not> is_http_url pe url \<or> url \<in> snd ` set pairs then pairs else pairs @ [(url, url)])"

text \<open>Pairs of a title and an address.\<close>

definition extract_url_title_pairs :: "parse_env \<Rightarrow> string \<Rightarrow> (string \<times> string) list" where
  "extract_url_title_pairs pe t =
     fold (add_bare pe) (match_all bare_link t)
       (fold (add_pair pe) (match_all (markdown_link (\<lambda>c. \<not> is_space c)) t) [])"

text \<open>\<open>title.replace(/\[([^\]]+)\]\(https?:\/\/[^)]+\)/g, "$1")\<close>\<close>

definition unlinked :: "string \<Rightarrow> string" where
  "unlinked title =
     replace_all (\<lambda>s. map_option (\<lambda>((label, _), rest). (label, rest)) (markdown_link (\<lambda>_. True) s)) title"

definition extract_url_and_title :: "parse_env \<Rightarrow> string \<Rightarrow> string \<Rightarrow> (string \<times> string) option" where
  "extract_url_and_title pe title content =
     (case extract_url_title_pairs pe (title @ [CHR 0x0A] @ content) of
        [] \<Rightarrow> None
      | (t, url) # _ \<Rightarrow>
          (let cleanTitle = clean_text (unlinked title)
           in Some (if cleanTitle = [] then t else cleanTitle, url)))"

definition link_to :: "string list \<Rightarrow> string \<Rightarrow> string \<Rightarrow> dispatch_item" where
  "link_to tags title url = Link_Item \<lparr>link_tags = Some tags, link_title = Some title, link_url = url\<rparr>"

section \<open>Telegram\<close>

fun file_candidate :: "parse_env \<Rightarrow> json_record \<Rightarrow> (string \<times> string) list \<Rightarrow> telegram_file option" where
  "file_candidate pe message [] = None"
| "file_candidate pe message ((field, extension) # more_fields) =
     (case json_get message field of
        Some (JObj entry) \<Rightarrow>
          (let fileId = string_value pe (json_get entry ''file_id'');
               name = string_value pe (json_get entry ''file_name'')
           in if fileId = [] then file_candidate pe message more_fields
              else Some \<lparr>tf_file_id = fileId,
                         tf_remote_name = (if name = [] then fileId @ extension else name)\<rparr>)
      | _ \<Rightarrow> file_candidate pe message more_fields)"

definition file_fields :: "(string \<times> string) list" where
  "file_fields =
     [(''document'', []), (''video'', ''.mp4''), (''voice'', ''.ogg''), (''audio'', ''.mp3''),
      (''animation'', ''.gif'')]"

definition telegram_file :: "parse_env \<Rightarrow> json_record \<Rightarrow> telegram_file option" where
  "telegram_file pe message =
     (let photos = array_or_empty (json_get message ''photo'');
          photoId = (case rev photos of
              JObj photo # _ \<Rightarrow> string_value pe (json_get photo ''file_id'') | _ \<Rightarrow> [])
      in if photoId \<noteq> []
         then Some \<lparr>tf_file_id = photoId, tf_remote_name = photoId @ ''.jpg''\<rparr>
         else file_candidate pe message file_fields)"

record telegram_updates =
  tu_files :: "telegram_file list"
  tu_items :: "dispatch_item list"
  tu_offset :: rat

definition message_text :: "json_record \<Rightarrow> string" where
  "message_text message = (case json_get message ''text'' of Some (JStr t) \<Rightarrow> js_trim t | _ \<Rightarrow> [])"

definition text_items :: "parse_env \<Rightarrow> string \<Rightarrow> dispatch_item list" where
  "text_items pe t =
     (case extract_url_title_pairs pe t of
        [] \<Rightarrow> [Text_Item \<lparr>text_content = t, text_tags = None\<rparr>]
      | pairs \<Rightarrow> map (\<lambda>(title, url). link_to [] title url) pairs)"

definition take_update :: "parse_env \<Rightarrow> json \<Rightarrow> telegram_updates \<Rightarrow> telegram_updates" where
  "take_update pe rawUpdate acc =
     (case rawUpdate of
        JObj update \<Rightarrow>
          (let acc' = (case json_get update ''update_id'' of
                   Some (JNum x) \<Rightarrow> acc\<lparr>tu_offset := max (tu_offset acc) x\<rparr> | _ \<Rightarrow> acc);
               message = record_or_empty (json_get update ''message'')
           in case telegram_file pe message of
                Some file \<Rightarrow> acc'\<lparr>tu_files := tu_files acc' @ [file]\<rparr>
              | None \<Rightarrow>
                  if message_text message = [] then acc'
                  else acc'\<lparr>tu_items := tu_items acc' @ text_items pe (message_text message)\<rparr>)
      | _ \<Rightarrow> acc)"

definition parse_telegram_updates :: "parse_env \<Rightarrow> json \<Rightarrow> rat \<Rightarrow> telegram_updates" where
  "parse_telegram_updates pe input currentOffset =
     fold (take_update pe) (array_or_empty (json_get (record_or_empty (Some input)) ''result''))
       \<lparr>tu_files = [], tu_items = [], tu_offset = currentOffset\<rparr>"

section \<open>Dida\<close>

record dida_tasks =
  dt_delete :: "(string \<times> string) list"
  dt_items :: "dispatch_item list"
  dt_saved :: "string list"

definition take_task :: "parse_env \<Rightarrow> string list \<Rightarrow> json \<Rightarrow> dida_tasks \<Rightarrow> dida_tasks" where
  "take_task pe saved rawTask acc =
     (case rawTask of
        JObj task \<Rightarrow>
          (let title = string_value pe (json_get task ''title'');
               content = string_value pe (json_get task ''content'');
               i = string_value pe (json_get task ''id'');
               projectId = string_value pe (json_get task ''projectId'')
           in case extract_url_and_title pe title content of
                None \<Rightarrow> acc
              | Some (t, url) \<Rightarrow>
                  (let acc' = (if i \<noteq> [] \<and> projectId \<noteq> []
                       then acc\<lparr>dt_delete := dt_delete acc @ [(i, projectId)]\<rparr> else acc)
                   in if title \<in> set saved then acc'
                      else acc'\<lparr>dt_items := dt_items acc' @ [link_to [] (if t = [] then url else t) url],
                                dt_saved := (if title \<in> set (dt_saved acc') then dt_saved acc'
                                             else dt_saved acc' @ [title])\<rparr>))
      | _ \<Rightarrow> acc)"

definition parse_dida_tasks :: "parse_env \<Rightarrow> json list \<Rightarrow> string list \<Rightarrow> dida_tasks" where
  "parse_dida_tasks pe input saved =
     fold (take_task pe saved) input \<lparr>dt_delete = [], dt_items = [], dt_saved = saved\<rparr>"

section \<open>Bookmarks\<close>

definition flat_map :: "(json_record \<Rightarrow> 'b option) \<Rightarrow> json list \<Rightarrow> 'b list" where
  "flat_map f input = concat (map (\<lambda>raw. case raw of
     JObj es \<Rightarrow> (case f es of None \<Rightarrow> [] | Some b \<Rightarrow> [b]) | _ \<Rightarrow> []) input)"

fun unique_from :: "string list \<Rightarrow> bookmark list \<Rightarrow> bookmark list" where
  "unique_from seen [] = []"
| "unique_from seen (b # bs) =
     (if bm_key b \<in> set seen then unique_from seen bs else b # unique_from (bm_key b # seen) bs)"

definition unique_bookmarks :: "bookmark list \<Rightarrow> bookmark list" where
  "unique_bookmarks input = unique_from [] input"

definition titled :: "string \<Rightarrow> string \<Rightarrow> string \<Rightarrow> bookmark" where
  "titled key title url = \<lparr>bm_key = key, bm_title = (if title = [] then url else title), bm_url = url\<rparr>"

definition github_star :: "parse_env \<Rightarrow> json_record \<Rightarrow> bookmark option" where
  "github_star pe raw =
     (let url = string_value pe (json_get raw ''html_url'')
      in if is_http_url pe url then Some (titled url (string_value pe (json_get raw ''full_name'')) url)
         else None)"

definition parse_github_stars :: "parse_env \<Rightarrow> json \<Rightarrow> thrown + bookmark list" where
  "parse_github_stars pe input =
     (case input of
        JArr vs \<Rightarrow> Inr (flat_map (github_star pe) vs)
      | _ \<Rightarrow> Inl (Thrown_Error ''unexpected GitHub starred response''))"

definition zhihu_entry :: "parse_env \<Rightarrow> json_record \<Rightarrow> bookmark option" where
  "zhihu_entry pe rawEntry =
     (let content = (case json_get rawEntry ''content'' of Some (JObj c) \<Rightarrow> c | _ \<Rightarrow> rawEntry);
          field = (\<lambda>es k. string_value pe (json_get es k));
          kind = field content ''type'';
          question = record_or_empty (json_get content ''question'');
          url0 = field content ''url'';
          title0 = (if field content ''title'' = [] then field content ''excerpt'' else field content ''title'');
          url = (if url0 \<noteq> [] then url0
                 else if kind = ''answer''
                 then ''https://www.zhihu.com/question/'' @ field question ''id'' @ ''/answer/'' @ field content ''id''
                 else if kind = ''article'' then ''https://zhuanlan.zhihu.com/p/'' @ field content ''id''
                 else []);
          title = (if kind = ''answer'' \<and> field question ''title'' \<noteq> [] then field question ''title'' else title0);
          clipped = (if length title > 100 then take 100 title @ ''...'' else title)
      in if is_http_url pe url then Some (titled url clipped url) else None)"

definition parse_zhihu_collection :: "parse_env \<Rightarrow> json \<Rightarrow> bool \<times> bookmark list" where
  "parse_zhihu_collection pe input =
     (let root = record_or_empty (Some input);
          items = flat_map (zhihu_entry pe) (array_or_empty (json_get root ''data''));
          paging = record_or_empty (json_get root ''paging'')
      in (json_get paging ''is_end'' = Some (JBool True), items))"

definition bilibili_video :: "parse_env \<Rightarrow> json_record \<Rightarrow> bookmark option" where
  "bilibili_video pe raw =
     (let bvid = string_value pe (json_get raw ''bvid'');
          url = ''https://www.bilibili.com/video/'' @ bvid;
          title = string_value pe (json_get raw ''title'')
      in if bvid = [] then None
         else Some \<lparr>bm_key = url, bm_title = (if title = [] then bvid else title), bm_url = url\<rparr>)"

definition bilibili_list :: "parse_env \<Rightarrow> string \<Rightarrow> json \<Rightarrow> bookmark list" where
  "bilibili_list pe field input =
     unique_bookmarks (flat_map (bilibili_video pe) (array_or_empty
       (json_get (record_or_empty (json_get (record_or_empty (Some input)) ''data'')) field)))"

definition parse_bilibili_favorites :: "parse_env \<Rightarrow> json \<Rightarrow> bookmark list" where
  "parse_bilibili_favorites pe = bilibili_list pe ''medias''"

definition parse_bilibili_toview :: "parse_env \<Rightarrow> json \<Rightarrow> bookmark list" where
  "parse_bilibili_toview pe = bilibili_list pe ''list''"

definition inoreader_item :: "parse_env \<Rightarrow> json_record \<Rightarrow> bookmark option" where
  "inoreader_item pe raw =
     (let key = string_value pe (json_get raw ''key''); url = string_value pe (json_get raw ''url'')
      in if key = [] \<or> \<not> is_http_url pe url then None
         else Some (titled key (string_value pe (json_get raw ''title'')) url))"

definition parse_inoreader_items :: "parse_env \<Rightarrow> json list \<Rightarrow> bookmark list" where
  "parse_inoreader_items pe input = unique_bookmarks (flat_map (inoreader_item pe) input)"

text \<open>\<open>encodeURIComponent\<close> of a text of 8-bit characters, as the percent signs of its UTF-8 bytes.\<close>

definition upper_hex_char :: "nat \<Rightarrow> char" where
  "upper_hex_char n = char_of (if n < 10 then 48 + n else 55 + n)"

definition percent_byte :: "nat \<Rightarrow> string" where
  "percent_byte b = [CHR ''%'', upper_hex_char (b div 16), upper_hex_char (b mod 16)]"

definition encode_char :: "char \<Rightarrow> string" where
  "encode_char c =
     (let n = of_char c :: nat
      in if is_digit c \<or> is_lower c \<or> is_upper c \<or> c \<in> set (''-_.!~*()'' @ [CHR 0x27]) then [c]
         else if n < 128 then percent_byte n
         else percent_byte (192 + n div 64) @ percent_byte (128 + n mod 64))"

definition encode_component :: "string \<Rightarrow> string" where
  "encode_component s = concat (map encode_char s)"

definition youtube_item :: "parse_env \<Rightarrow> json_record \<Rightarrow> bookmark option" where
  "youtube_item pe raw =
     (let key = string_value pe (json_get raw ''videoId'')
      in if key = [] then None
         else Some (titled key (string_value pe (json_get raw ''title''))
                (''https://www.youtube.com/watch?v='' @ encode_component key)))"

definition parse_youtube_items :: "parse_env \<Rightarrow> json list \<Rightarrow> bookmark list" where
  "parse_youtube_items pe input = unique_bookmarks (flat_map (youtube_item pe) input)"

text \<open>\<open>/\/status\/(\d+)/\<close>\<close>

definition status_here :: "string \<Rightarrow> (string \<times> string) option" where
  "status_here s =
     (case strip_prefix ''/status/'' s of
        None \<Rightarrow> None
      | Some r \<Rightarrow>
          if takeWhile is_digit r = [] then None
          else Some (takeWhile is_digit r, dropWhile is_digit r))"

definition tweet_id :: "string \<Rightarrow> string \<Rightarrow> string" where
  "tweet_id given rawUrl =
     (if given \<noteq> [] \<and> list_all is_digit given then given
      else case match_all status_here rawUrl of [] \<Rightarrow> [] | i # _ \<Rightarrow> i)"

definition take_tweet :: "parse_env \<Rightarrow> json \<Rightarrow> x_tweet list \<Rightarrow> x_tweet list" where
  "take_tweet pe raw tweets =
     (case raw of
        JObj es \<Rightarrow>
          (let rawUrl = string_value pe (json_get es ''url'');
               i = tweet_id (string_value pe (json_get es ''id'')) rawUrl
           in if i = [] \<or> i \<in> xt_id ` set tweets then tweets
              else tweets @
                [\<lparr>xt_author = clean_text (string_value pe (json_get es ''author'')), xt_id = i,
                  xt_text = clean_text (string_value pe (json_get es ''text'')),
                  xt_url = (if is_http_url pe rawUrl then rawUrl else ''https://x.com/i/status/'' @ i)\<rparr>])
      | _ \<Rightarrow> tweets)"

definition parse_x_tweets :: "parse_env \<Rightarrow> json list \<Rightarrow> x_tweet list" where
  "parse_x_tweets pe input = fold (take_tweet pe) input []"

section \<open>What the parsers find\<close>

subsection \<open>Links\<close>

definition good_pairs :: "parse_env \<Rightarrow> (string \<times> string) list \<Rightarrow> bool" where
  "good_pairs pe pairs \<longleftrightarrow> distinct (map snd pairs) \<and> (\<forall>(t, u) \<in> set pairs. is_http_url pe u)"

lemma good_pairs_add:
  assumes "good_pairs pe pairs"
  shows "good_pairs pe (add_pair pe m pairs)" and "good_pairs pe (add_bare pe b pairs)"
  using assms by (auto simp: good_pairs_def add_pair_def add_bare_def Let_def)

lemma fold_good:
  assumes "\<And>x acc. P acc \<Longrightarrow> P (f x acc)" and "P acc"
  shows "P (fold f xs acc)"
  using assms(2) by (induction xs arbitrary: acc) (simp_all add: assms(1))

text \<open>The links of a text are addresses of the web, each once.\<close>

lemma extracted_links: "good_pairs pe (extract_url_title_pairs pe t)"
  unfolding extract_url_title_pairs_def
  by (intro fold_good [of "good_pairs pe"] good_pairs_add) (simp_all add: good_pairs_def)

subsection \<open>Bookmarks\<close>

lemma unique_from_keys:
  "distinct (map bm_key (unique_from seen bs)) \<and> set seen \<inter> bm_key ` set (unique_from seen bs) = {}
   \<and> bm_key ` set (unique_from seen bs) = bm_key ` set bs - set seen"
  by (induction seen bs rule: unique_from.induct) (auto simp: image_iff)

text \<open>Every key of the input is kept, once.\<close>

lemma unique_bookmarks_keys:
  "distinct (map bm_key (unique_bookmarks bs))" "bm_key ` set (unique_bookmarks bs) = bm_key ` set bs"
  using unique_from_keys [of "[]" bs] by (simp_all add: unique_bookmarks_def)

lemma parsed_tweets_distinct: "distinct (map xt_id (parse_x_tweets pe input))"
  unfolding parse_x_tweets_def
  by (rule fold_good [of "\<lambda>ts. distinct (map xt_id ts)"]) (auto simp: take_tweet_def Let_def split: json.split)

subsection \<open>Telegram\<close>

definition update_message :: "json \<Rightarrow> json_record" where
  "update_message u = (case u of JObj es \<Rightarrow> record_or_empty (json_get es ''message'') | _ \<Rightarrow> [])"

definition update_files :: "parse_env \<Rightarrow> json \<Rightarrow> telegram_file list" where
  "update_files pe u = (case telegram_file pe (update_message u) of None \<Rightarrow> [] | Some f \<Rightarrow> [f])"

definition update_items :: "parse_env \<Rightarrow> json \<Rightarrow> dispatch_item list" where
  "update_items pe u =
     (if telegram_file pe (update_message u) \<noteq> None \<or> message_text (update_message u) = [] then []
      else text_items pe (message_text (update_message u)))"

definition update_ids :: "json list \<Rightarrow> rat list" where
  "update_ids us = concat (map (\<lambda>u. case u of
     JObj es \<Rightarrow> (case json_get es ''update_id'' of Some (JNum x) \<Rightarrow> [x] | _ \<Rightarrow> []) | _ \<Rightarrow> []) us)"

lemma no_message: "telegram_file pe [] = None" "message_text [] = []"
  by (simp_all add: telegram_file_def json_get_def array_or_empty_def file_fields_def message_text_def)

lemma take_update_facts:
  "tu_files (take_update pe u acc) = tu_files acc @ update_files pe u
   \<and> tu_items (take_update pe u acc) = tu_items acc @ update_items pe u
   \<and> tu_offset (take_update pe u acc) = fold max (update_ids [u]) (tu_offset acc)"
  by (cases u) (auto simp: take_update_def update_files_def update_items_def update_message_def no_message
      update_ids_def Let_def max.commute split: option.split json.split)

lemma fold_updates:
  "fold (take_update pe) us acc =
     \<lparr>tu_files = tu_files acc @ concat (map (update_files pe) us),
      tu_items = tu_items acc @ concat (map (update_items pe) us),
      tu_offset = fold max (update_ids us) (tu_offset acc)\<rparr>"
proof (induction us arbitrary: acc)
  case (Cons u us)
  have "update_ids (u # us) = update_ids [u] @ update_ids us" by (simp add: update_ids_def)
  then show ?case using Cons.IH take_update_facts [of pe u acc] by simp
qed (simp add: update_ids_def)

lemma parsed_updates:
  "parse_telegram_updates pe input offset =
     (let us = array_or_empty (json_get (record_or_empty (Some input)) ''result'')
      in \<lparr>tu_files = concat (map (update_files pe) us), tu_items = concat (map (update_items pe) us),
          tu_offset = fold max (update_ids us) offset\<rparr>)"
  by (simp add: parse_telegram_updates_def fold_updates Let_def)

lemma fold_max_bounds: "(x :: rat) \<le> fold max xs x \<and> (\<forall>y\<in>set xs. y \<le> fold max xs x) \<and> fold max xs x \<in> insert x (set xs)"
proof (induction xs arbitrary: x)
  case (Cons a xs)
  have "fold max (a # xs) x = fold max xs (max a x)" by simp
  with Cons [of "max a x"] show ?case by (auto simp: max_def split: if_splits)
qed simp

subsection \<open>Dida\<close>

definition task_title :: "parse_env \<Rightarrow> json_record \<Rightarrow> string" where
  "task_title pe task = string_value pe (json_get task ''title'')"

definition task_link :: "parse_env \<Rightarrow> json_record \<Rightarrow> (string \<times> string) option" where
  "task_link pe task =
     extract_url_and_title pe (task_title pe task) (string_value pe (json_get task ''content''))"

definition task_item :: "string \<times> string \<Rightarrow> dispatch_item" where
  "task_item l = link_to [] (if fst l = [] then snd l else fst l) (snd l)"

definition task_of :: "json \<Rightarrow> json_record option" where
  "task_of u = (case u of JObj es \<Rightarrow> Some es | _ \<Rightarrow> None)"

definition task_id :: "parse_env \<Rightarrow> json_record \<Rightarrow> string \<times> string" where
  "task_id pe task = (string_value pe (json_get task ''id''), string_value pe (json_get task ''projectId''))"

definition linked_tasks :: "parse_env \<Rightarrow> json list \<Rightarrow> (json_record \<times> string \<times> string) list" where
  "linked_tasks pe us = concat (map (\<lambda>u. case task_of u of None \<Rightarrow> []
     | Some task \<Rightarrow> (case task_link pe task of None \<Rightarrow> [] | Some l \<Rightarrow> [(task, l)])) us)"

definition new_tasks :: "parse_env \<Rightarrow> string list \<Rightarrow> (json_record \<times> string \<times> string) list \<Rightarrow> (json_record \<times> string \<times> string) list" where
  "new_tasks pe saved ts = filter (\<lambda>(task, l). task_title pe task \<notin> set saved) ts"

definition deletable :: "string \<times> string \<Rightarrow> bool" where
  "deletable i \<longleftrightarrow> fst i \<noteq> [] \<and> snd i \<noteq> []"

lemma task_of_iff: "task_of u = Some task \<longleftrightarrow> u = JObj task"
  by (cases u) (simp_all add: task_of_def)

lemma linked_tasks_iff:
  "(task, l) \<in> set (linked_tasks pe us) \<longleftrightarrow> JObj task \<in> set us \<and> task_link pe task = Some l"
proof (induction us)
  case (Cons u us)
  have "linked_tasks pe (u # us) = (case task_of u of None \<Rightarrow> []
      | Some task \<Rightarrow> (case task_link pe task of None \<Rightarrow> [] | Some l \<Rightarrow> [(task, l)])) @ linked_tasks pe us"
    by (simp add: linked_tasks_def)
  with Cons.IH show ?case by (cases u; cases l) (auto simp: task_of_def split: option.split)
qed (simp add: linked_tasks_def)

lemma take_task_linked:
  assumes "task_of u = Some task" and "task_link pe task = Some l"
  shows "dt_delete (take_task pe saved u acc)
       = dt_delete acc @ filter deletable [task_id pe task]"
    and "dt_items (take_task pe saved u acc)
       = dt_items acc @ (if task_title pe task \<in> set saved then [] else [task_item l])"
    and "set (dt_saved (take_task pe saved u acc))
       = set (dt_saved acc) \<union> (if task_title pe task \<in> set saved then {} else {task_title pe task})"
proof -
  obtain t url where l: "l = (t, url)" by force
  have u: "u = JObj task" using assms(1) by (auto simp: task_of_def split: json.splits)
  have link: "extract_url_and_title pe (string_value pe (json_get task ''title''))
      (string_value pe (json_get task ''content'')) = Some (t, url)"
    using assms(2) by (simp add: task_link_def task_title_def l)
  show "dt_delete (take_task pe saved u acc) = dt_delete acc @ filter deletable [task_id pe task]"
    and "dt_items (take_task pe saved u acc)
       = dt_items acc @ (if task_title pe task \<in> set saved then [] else [task_item l])"
    and "set (dt_saved (take_task pe saved u acc))
       = set (dt_saved acc) \<union> (if task_title pe task \<in> set saved then {} else {task_title pe task})"
    by (auto simp: take_task_def u link task_title_def task_id_def task_item_def deletable_def l Let_def)
qed

lemma take_task_other:
  "task_of u = None \<Longrightarrow> take_task pe saved u acc = acc"
  "task_of u = Some task \<Longrightarrow> task_link pe task = None \<Longrightarrow> take_task pe saved u acc = acc"
  by (auto simp: take_task_def task_of_def task_link_def task_title_def Let_def split: json.splits)

lemma fold_tasks:
  "dt_delete (fold (take_task pe saved) us acc)
     = dt_delete acc @ filter deletable (map (\<lambda>(task, l). task_id pe task) (linked_tasks pe us))
   \<and> dt_items (fold (take_task pe saved) us acc)
     = dt_items acc @ map (\<lambda>(task, l). task_item l) (new_tasks pe saved (linked_tasks pe us))
   \<and> set (dt_saved (fold (take_task pe saved) us acc))
     = set (dt_saved acc) \<union> (\<lambda>(task, l). task_title pe task) ` set (new_tasks pe saved (linked_tasks pe us))"
proof (induction us arbitrary: acc)
  case (Cons u us)
  have step: "fold (take_task pe saved) (u # us) acc = fold (take_task pe saved) us (take_task pe saved u acc)"
    by simp
  consider "task_of u = None" | task where "task_of u = Some task" "task_link pe task = None"
    | task l where "task_of u = Some task" "task_link pe task = Some l" by (metis option.exhaust)
  then show ?case
  proof cases
    case 3
    then have "linked_tasks pe (u # us) = (task, l) # linked_tasks pe us" by (simp add: linked_tasks_def)
    with 3 Cons.IH [of "take_task pe saved u acc"] show ?thesis
      unfolding step take_task_linked [OF 3] by (auto simp: new_tasks_def)
  next
    case 1
    then have "linked_tasks pe (u # us) = linked_tasks pe us" by (simp add: linked_tasks_def)
    with 1 Cons.IH [of acc] show ?thesis unfolding step by (simp add: take_task_other)
  next
    case 2
    then have "linked_tasks pe (u # us) = linked_tasks pe us" by (simp add: linked_tasks_def)
    with 2 Cons.IH [of acc] show ?thesis unfolding step by (simp add: take_task_other)
  qed
qed (simp add: linked_tasks_def new_tasks_def)

lemmas parsed_tasks =
  fold_tasks [of pe saved us "\<lparr>dt_delete = [], dt_items = [], dt_saved = saved\<rparr>" for pe saved us,
    folded parse_dida_tasks_def, simplified]

section \<open>Properties\<close>

text \<open>C34: A task of Dida is marked for deletion only when a link was found in it, and that link is then
  among the items of this collection or the title of the task was saved by an earlier one; every task
  with a link and a title that is new becomes an item, and the titles that are saved are the ones
  saved before and those of the tasks that became items.\<close>

theorem dida_deletes_what_it_collected:
  "(\<forall>i\<in>set (dt_delete (parse_dida_tasks pe us saved)).
      \<exists>task l. JObj task \<in> set us \<and> task_id pe task = i \<and> task_link pe task = Some l
        \<and> (task_title pe task \<in> set saved \<or> task_item l \<in> set (dt_items (parse_dida_tasks pe us saved))))
   \<and> (\<forall>task l. JObj task \<in> set us \<and> task_link pe task = Some l \<and> task_title pe task \<notin> set saved \<longrightarrow>
        task_item l \<in> set (dt_items (parse_dida_tasks pe us saved)))
   \<and> set (dt_saved (parse_dida_tasks pe us saved)) = set saved \<union>
        {task_title pe task |task. JObj task \<in> set us \<and> task_link pe task \<noteq> None}"
proof -
  note parsed = parsed_tasks [where pe = pe and us = us and saved = saved]
  have new: "(task, l) \<in> set (new_tasks pe saved (linked_tasks pe us)) \<longleftrightarrow>
      JObj task \<in> set us \<and> task_link pe task = Some l \<and> task_title pe task \<notin> set saved" for task l
    by (simp add: new_tasks_def linked_tasks_iff)
  have item: "task_item l \<in> set (dt_items (parse_dida_tasks pe us saved))"
    if "JObj task \<in> set us" "task_link pe task = Some l" "task_title pe task \<notin> set saved" for task l
    using that new [of task l] parsed by force
  have "\<exists>task l. JObj task \<in> set us \<and> task_id pe task = i \<and> task_link pe task = Some l"
    if "i \<in> set (dt_delete (parse_dida_tasks pe us saved))" for i
    using that parsed linked_tasks_iff [of _ _ pe us] by auto
  moreover have "set (dt_saved (parse_dida_tasks pe us saved)) = set saved \<union>
        {task_title pe task |task. JObj task \<in> set us \<and> task_link pe task \<noteq> None}"
  proof -
    have "(\<lambda>(task, l). task_title pe task) ` set (new_tasks pe saved (linked_tasks pe us))
        = {task_title pe task |task. JObj task \<in> set us \<and> task_link pe task \<noteq> None} - set saved"
      using new by (force simp: image_iff)
    with parsed show ?thesis by auto
  qed
  ultimately show ?thesis using item by blast
qed

definition sample_parse :: parse_env where
  "sample_parse = \<lparr>pe_url = (\<lambda>s. if starts_with ''https://'' s
       then Some \<lparr>ur_protocol = ''https:'', ur_username = [], ur_password = [], ur_hostname = [], ur_port = [],
         ur_origin = [], ur_pathname = [], ur_search = [], ur_hash = []\<rparr> else None), pe_number = (\<lambda>_. ''1'')\<rparr>"

definition sample_task :: json_record where
  "sample_task = [(''title'', JStr ''x''), (''content'', JStr ''https://a.''), (''id'', JStr ''1''), (''projectId'', JStr ''p'')]"

lemma sample_task_link: "task_link sample_parse sample_task = Some (''x'', ''https://a'')"
proof -
  have t: "string_value sample_parse (json_get sample_task ''title'') = ''x''"
      "string_value sample_parse (json_get sample_task ''content'') = ''https://a.''"
    by (simp_all add: sample_task_def json_get_def string_value_def js_trim_def is_space_def)
  have "match_all (markdown_link (\<lambda>c. \<not> is_space c)) (''x'' @ [CHR 0x0A] @ ''https://a.'') = []"
    by (simp add: match_all_code markdown_link_def)
  moreover have "match_all bare_link (''x'' @ [CHR 0x0A] @ ''https://a.'') = [''https://a.'']"
    by (simp add: match_all_code bare_link_def web_scheme_def strip_prefix_def starts_with_def is_space_def)
  moreover have "is_http_url sample_parse ''https://a''"
    by (simp add: is_http_url_def sample_parse_def starts_with_def)
  ultimately have "extract_url_title_pairs sample_parse (''x'' @ [CHR 0x0A] @ ''https://a.'') = [(''https://a'', ''https://a'')]"
    by (simp add: extract_url_title_pairs_def add_bare_def trim_url_def Let_def)
  moreover have "clean_text (unlinked ''x'') = ''x''"
    by (simp add: unlinked_def replace_all_code markdown_link_def clean_text_def js_trim_def is_space_def)
  ultimately show ?thesis
    unfolding task_link_def task_title_def t extract_url_and_title_def by simp
qed

theorem dida_deletes_what_it_collected_witness:
  "task_item (''x'', ''https://a'') \<in> set (dt_items (parse_dida_tasks sample_parse [JObj sample_task] []))
   \<and> set (dt_saved (parse_dida_tasks sample_parse [JObj sample_task] [])) = {''x''}"
proof -
  have "task_title sample_parse sample_task = ''x''"
    by (simp add: task_title_def sample_task_def json_get_def string_value_def js_trim_def is_space_def)
  then show ?thesis
    using dida_deletes_what_it_collected [of sample_parse "[JObj sample_task]" "[]"] sample_task_link by auto
qed

text \<open>The title alone decides whether a task was collected before: a task with a title that was saved
  for another link is deleted although its own link is no item.\<close>

lemma dida_deletes_another_link:
  assumes "task_link pe task = Some l" and "task_title pe task \<in> set saved" and "deletable (task_id pe task)"
  shows "dt_delete (parse_dida_tasks pe [JObj task] saved) = [task_id pe task]"
    and "dt_items (parse_dida_tasks pe [JObj task] saved) = []"
  using assms parsed_tasks [where pe = pe and us = "[JObj task]" and saved = saved]
  by (simp_all add: linked_tasks_def task_of_def new_tasks_def)

end
