(* ===== verification/Http_Collectors.thy ===== *)
theory Http_Collectors
  imports Collector_Parsers Job_Handler "HOL-Library.List_Lexorder" "HOL-Library.Char_ord"
begin

text \<open>
  The collectors that ask a source over HTTP, \<open>apps/worker/src/http-collectors.ts\<close>: Telegram with its
  files, Dida, and the stars of GitHub. A request is its method, address, query and headers (the
  platform writes them as one URL); everything outside is an operation of the record \<open>collector_host\<close>.
  The files of an answer of Telegram are fetched one after the other here, at once in the code.
\<close>

section \<open>The host\<close>

record http_request =
  hq_method :: string
  hq_url :: string
  hq_query :: "(string \<times> string) list"
  hq_headers :: "(string \<times> string) list"

text \<open>The body of an answer as JSON (nothing when it is none) and as bytes.\<close>

record http_answer =
  ha_status :: nat
  ha_json :: "json option"
  ha_bytes :: bytes

definition answer_ok :: "http_answer \<Rightarrow> bool" where
  "answer_ok a = (200 \<le> ha_status a \<and> ha_status a < 300)"

record source_entry =
  se_config :: json_record
  se_enabled :: bool

record 's collector_host =
  ch_sources :: "(string \<times> source_entry) list"
  ch_get_state :: "string \<Rightarrow> ('s, json) action"
  ch_fetch :: "http_request \<Rightarrow> ('s, http_answer) action"
  ch_upload :: "(string \<Rightarrow> bytes \<Rightarrow> ('s, unit) action) option"
  ch_mkdir :: "string \<Rightarrow> ('s, unit) action"
  ch_write_file :: "string \<Rightarrow> bytes \<Rightarrow> ('s, unit) action"
  ch_uuid :: "('s, string) action"
  ch_join :: "string \<Rightarrow> string \<Rightarrow> string"
  ch_fingerprint :: "string \<Rightarrow> string"
  ch_staging_dir :: string
  ch_parse :: parse_env

section \<open>Configuration and state\<close>

definition telegram_api :: string where "telegram_api = ''https://api.telegram.org''"
definition dida_api :: string where "dida_api = ''https://api.dida365.com/open/v1''"
definition github_api :: string where "github_api = ''https://api.github.com''"

definition source_config :: "'s collector_host \<Rightarrow> source_name \<Rightarrow> ('s, json_record) action" where
  "source_config ch source =
     (case map_of (ch_sources ch) (source_string source) of
        Some e \<Rightarrow> if se_enabled e then ret (se_config e)
                  else throw (Thrown_Error (''source is disabled: '' @ source_string source))
      | None \<Rightarrow> throw (Thrown_Error (''source is disabled: '' @ source_string source)))"

definition read_string_array :: "json \<Rightarrow> string \<Rightarrow> string list" where
  "read_string_array v key =
     (case v of
        JObj es \<Rightarrow>
          (case json_get es key of
             Some (JArr vs) \<Rightarrow> concat (map (\<lambda>e. case e of JStr s \<Rightarrow> [s] | _ \<Rightarrow> []) vs)
           | _ \<Rightarrow> [])
      | _ \<Rightarrow> [])"

definition read_number :: "json \<Rightarrow> string \<Rightarrow> rat option" where
  "read_number v key =
     (case v of JObj es \<Rightarrow> (case json_get es key of Some (JNum x) \<Rightarrow> Some x | _ \<Rightarrow> None) | _ \<Rightarrow> None)"

text \<open>\<open>[...new Set(xs)]\<close>: the elements in the order of their first insertion.\<close>

definition js_set :: "string list \<Rightarrow> string list" where
  "js_set xs = rev (remdups (rev xs))"

lemma set_js_set [simp]: "set (js_set xs) = set xs"
  by (simp add: js_set_def)

definition known_keys :: "'s collector_host \<Rightarrow> string \<Rightarrow> ('s, string list) action" where
  "known_keys ch key =
     and_then (ch_get_state ch key) (\<lambda>v. ret (js_set (read_string_array v ''knownKeys'')))"

definition request_json :: "'s collector_host \<Rightarrow> http_request \<Rightarrow> ('s, json) action" where
  "request_json ch request =
     and_then (ch_fetch ch request) (\<lambda>answer.
       if \<not> answer_ok answer
       then throw (Thrown_Error (''collector request failed: '' @ decimal (ha_status answer)))
       else case ha_json answer of
           None \<Rightarrow> throw (Thrown_Error ''collector response is invalid JSON'')
         | Some v \<Rightarrow> ret v)"

text \<open>\<open>basename\<close>, and \<open>replace(/[^\p{L}\p{N}._ -]/gu, "_")\<close> on 8-bit characters.\<close>

definition file_basename :: "string \<Rightarrow> string" where
  "file_basename v =
     rev (takeWhile (\<lambda>c. c \<noteq> CHR ''/'') (dropWhile (\<lambda>c. c = CHR ''/'') (rev v)))"

definition letter_or_number :: "char \<Rightarrow> bool" where
  "letter_or_number c =
     (let n = of_char c :: nat
      in is_digit c \<or> is_lower c \<or> is_upper c \<or> n \<in> {170, 178, 179, 181, 185, 186, 188, 189, 190}
         \<or> 192 \<le> n \<and> n \<noteq> 215 \<and> n \<noteq> 247)"

definition sanitize_filename :: "string \<Rightarrow> thrown + string" where
  "sanitize_filename v =
     (let safe = map (\<lambda>c. if letter_or_number c \<or> c \<in> set ''._ -'' then c else CHR ''_'') (file_basename v)
      in if safe = [] \<or> safe = ''.'' \<or> safe = ''..''
         then Inl (Thrown_Error ''unsafe Telegram filename'') else Inr safe)"

section \<open>Telegram\<close>

definition get_request :: "string \<Rightarrow> (string \<times> string) list \<Rightarrow> (string \<times> string) list \<Rightarrow> http_request" where
  "get_request url query headers =
     \<lparr>hq_method = ''GET'', hq_url = url, hq_query = query, hq_headers = headers\<rparr>"

definition store_attachment :: "'s collector_host \<Rightarrow> string \<Rightarrow> bytes \<Rightarrow> ('s, dispatch_item) action" where
  "store_attachment ch remoteName content =
     (case ch_upload ch of
        Some upload \<Rightarrow>
          and_then (ch_uuid ch) (\<lambda>u.
          and_then (upload (''telegram/'' @ u) content) (\<lambda>_.
            ret (File_Item \<lparr>file_local_path = None, file_object_key = Some (''telegram/'' @ u),
                             file_remote_name = remoteName\<rparr>)))
      | None \<Rightarrow>
          and_then (ch_mkdir ch (ch_staging_dir ch)) (\<lambda>_.
          and_then (ch_write_file ch (ch_join ch (ch_staging_dir ch) remoteName) content) (\<lambda>_.
            ret (File_Item \<lparr>file_local_path = Some (ch_join ch (ch_staging_dir ch) remoteName),
                             file_object_key = None, file_remote_name = remoteName\<rparr>))))"

definition collect_file :: "'s collector_host \<Rightarrow> string \<Rightarrow> telegram_file \<Rightarrow> ('s, dispatch_item) action" where
  "collect_file ch token file =
     and_then (request_json ch (get_request
         (telegram_api @ ''/bot'' @ token @ ''/getFile?file_id='' @ encode_component (tf_file_id file)) [] []))
       (\<lambda>fileResult.
     (case read_optional_string
          (record_or_empty (json_get (record_or_empty (Some fileResult)) ''result'')) ''file_path'' of
        None \<Rightarrow> throw (Thrown_Error ''Telegram getFile response is invalid'')
      | Some filePath \<Rightarrow>
          and_then (ch_fetch ch (get_request (telegram_api @ ''/file/bot'' @ token @ ''/'' @ filePath) [] []))
            (\<lambda>answer.
          and_then (when_then (\<not> answer_ok answer)
              (Thrown_Error (''Telegram file request failed: '' @ decimal (ha_status answer)))) (\<lambda>_.
          and_then (lift_result (sanitize_filename (tf_remote_name file))) (\<lambda>remoteName.
            store_attachment ch remoteName (ha_bytes answer))))))"

definition updates_request :: "'s collector_host \<Rightarrow> string \<Rightarrow> rat \<Rightarrow> http_request" where
  "updates_request ch token offset =
     get_request (telegram_api @ ''/bot'' @ token @ ''/getUpdates'')
       [(''offset'', pe_number (ch_parse ch) (offset + 1)), (''timeout'', ''10''),
        (''allowed_updates'', ''[\"message\"]'')] []"

definition collect_telegram :: "'s collector_host \<Rightarrow> ('s, 's collection_result) action" where
  "collect_telegram ch =
     and_then (source_config ch Telegram) (\<lambda>config.
     and_then (lift_result (required config ''bot_token'' ''telegram'')) (\<lambda>token.
     (let stateKey = ''telegram:offset:'' @ ch_fingerprint ch token
      in and_then (ch_get_state ch stateKey) (\<lambda>currentState.
         (let offset = (case read_number currentState ''offset'' of None \<Rightarrow> 0 | Some x \<Rightarrow> x)
          in and_then (request_json ch (updates_request ch token offset)) (\<lambda>payload.
             (let parsed = parse_telegram_updates (ch_parse ch) payload offset
              in and_then (collect (collect_file ch token) (tu_files parsed)) (\<lambda>fileItems.
                ret \<lparr>cl_after_commit = None, cl_items = tu_items parsed @ fileItems,
                     cl_login_session = None,
                     cl_state_updates =
                       (if tu_offset parsed > offset
                        then [(stateKey, JObj [(''offset'', JNum (tu_offset parsed))])] else [])\<rparr>))))))))"

section \<open>Dida\<close>

definition delete_task :: "'s collector_host \<Rightarrow> (string \<times> string) list \<Rightarrow> string \<times> string \<Rightarrow> ('s, unit) action" where
  "delete_task ch headers task =
     and_then (ch_fetch ch
         \<lparr>hq_method = ''DELETE'',
          hq_url = dida_api @ ''/project/'' @ encode_component (snd task) @ ''/task/'' @ encode_component (fst task),
          hq_query = [], hq_headers = headers\<rparr>) (\<lambda>answer.
       when_then (\<not> answer_ok answer \<and> ha_status answer \<noteq> 404)
         (Thrown_Error (''Dida delete request failed: '' @ decimal (ha_status answer))))"

definition collect_dida :: "'s collector_host \<Rightarrow> ('s, 's collection_result) action" where
  "collect_dida ch =
     and_then (source_config ch Dida) (\<lambda>config.
     and_then (lift_result (required config ''access_token'' ''dida'')) (\<lambda>token.
     (let stateKey = ''dida:saved:'' @ ch_fingerprint ch token;
          headers = [(''Authorization'', ''Bearer '' @ token)]
      in and_then (ch_get_state ch stateKey) (\<lambda>currentState.
         and_then (request_json ch (get_request (dida_api @ ''/project/inbox/data'') [] headers)) (\<lambda>payload.
           (let parsed = parse_dida_tasks (ch_parse ch)
                  (array_or_empty (json_get (record_or_empty (Some payload)) ''tasks''))
                  (js_set (read_string_array currentState ''savedTitles''))
            in ret \<lparr>cl_after_commit = Some (each (delete_task ch headers) (dt_delete parsed)),
                    cl_items = dt_items parsed, cl_login_session = None,
                    cl_state_updates =
                      [(stateKey, JObj [(''savedTitles'', JArr (map JStr (sort (dt_saved parsed))))])]\<rparr>))))))"

section \<open>The stars of GitHub\<close>

text \<open>The pages from the given one on, at most that many.\<close>

definition star_request :: "string \<Rightarrow> nat \<Rightarrow> http_request" where
  "star_request token page =
     get_request (github_api @ ''/user/starred'')
       [(''sort'', ''created''), (''direction'', ''desc''), (''per_page'', ''100''), (''page'', decimal page)]
       [(''Accept'', ''application/vnd.github+json''), (''Authorization'', ''Bearer '' @ token),
        (''X-GitHub-Api-Version'', ''2022-11-28'')]"

fun star_pages ::
  "'s collector_host \<Rightarrow> string \<Rightarrow> string list \<Rightarrow> nat \<Rightarrow> nat \<Rightarrow> bookmark list \<Rightarrow> ('s, bookmark list) action" where
  "star_pages ch token known page 0 fresh = ret fresh"
| "star_pages ch token known page (Suc n) fresh =
     and_then (request_json ch (star_request token page)) (\<lambda>payload.
     and_then (lift_result (parse_github_stars (ch_parse ch) payload)) (\<lambda>bookmarks.
       (let pageFresh = filter (\<lambda>b. bm_key b \<notin> set known) bookmarks
        in if length bookmarks < 100 \<or> pageFresh = [] then ret (fresh @ pageFresh)
           else star_pages ch token known (Suc page) n (fresh @ pageFresh))))"

definition bookmark_result :: "source_name \<Rightarrow> bookmark list \<Rightarrow> string list \<Rightarrow> string list \<Rightarrow> 's collection_result" where
  "bookmark_result source bookmarks known tags =
     \<lparr>cl_after_commit = None, cl_items = map (\<lambda>b. link_to tags (bm_title b) (bm_url b)) bookmarks,
      cl_login_session = None,
      cl_state_updates =
        [(''baseline:'' @ source_string source, JObj [(''knownKeys'', JArr (map JStr known))])]\<rparr>"

definition merge_keys :: "string list \<Rightarrow> bookmark list \<Rightarrow> string list" where
  "merge_keys known fresh = js_set (known @ map bm_key fresh)"

definition collect_github_stars :: "'s collector_host \<Rightarrow> ('s, 's collection_result) action" where
  "collect_github_stars ch =
     and_then (source_config ch Github_Stars) (\<lambda>config.
     and_then (lift_result (required config ''token'' ''github_stars'')) (\<lambda>token.
     and_then (known_keys ch ''baseline:github_stars'') (\<lambda>known.
     and_then (star_pages ch token known 1 100 []) (\<lambda>fresh.
       ret (bookmark_result Github_Stars fresh (merge_keys known fresh) [''github''])))))"

section \<open>Telegram: what is acknowledged was collected\<close>

definition safe_name :: "string \<Rightarrow> bool" where
  "safe_name n \<longleftrightarrow> n \<noteq> [] \<and> n \<noteq> ''.'' \<and> n \<noteq> ''..'' \<and> CHR ''/'' \<notin> set n"

lemma sanitized_is_safe: "sanitize_filename v = Inr n \<Longrightarrow> safe_name n"
  by (auto simp: sanitize_filename_def safe_name_def Let_def letter_or_number_def is_digit_def is_lower_def
      is_upper_def split: if_splits)

lemma lifted_Inr: "lift_result r s = (s', Inr x) \<longleftrightarrow> r = Inr x \<and> s' = s"
  by (auto simp: lift_result_def ret_def throw_def split: sum.split)

lemma request_json_Inr:
  "request_json ch q s = (s', Inr v) \<Longrightarrow> \<exists>a. ch_fetch ch q s = (s', Inr a) \<and> answer_ok a \<and> ha_json a = Some v"
  by (auto simp: request_json_def action_results split: if_splits option.splits)

definition names_file :: "telegram_file \<Rightarrow> dispatch_item \<Rightarrow> bool" where
  "names_file f item \<longleftrightarrow>
     (\<exists>i. item = File_Item i \<and> sanitize_filename (tf_remote_name f) = Inr (file_remote_name i)
        \<and> safe_name (file_remote_name i))"

lemma collected_file: "collect_file ch token f s = (s', Inr item) \<Longrightarrow> names_file f item"
  by (auto simp: collect_file_def action_results store_attachment_def names_file_def lift_result_def
      when_then_Inr sanitized_is_safe split: option.splits sum.splits if_splits)

definition updates_of :: "json \<Rightarrow> json list" where
  "updates_of payload = array_or_empty (json_get (record_or_empty (Some payload)) ''result'')"

definition update_collected :: "parse_env \<Rightarrow> dispatch_item list \<Rightarrow> json \<Rightarrow> bool" where
  "update_collected pe items u \<longleftrightarrow>
     (case telegram_file pe (update_message u) of
        Some f \<Rightarrow> \<exists>item\<in>set items. names_file f item
      | None \<Rightarrow> message_text (update_message u) \<noteq> [] \<longrightarrow>
          set (text_items pe (message_text (update_message u))) \<subseteq> set items)"

lemma collected_telegram:
  assumes "collect_telegram ch s = (s', Inr r)"
  obtains key token offset t t' payload parsed fs u where
    "request_json ch (updates_request ch token offset) t = (t', Inr payload)"
    and "parsed = parse_telegram_updates (ch_parse ch) payload offset"
    and "collect (collect_file ch token) (tu_files parsed) t' = (u, Inr fs)"
    and "cl_items r = tu_items parsed @ fs"
    and "cl_state_updates r = (if tu_offset parsed > offset
           then [(key, JObj [(''offset'', JNum (tu_offset parsed))])] else [])"
  using assms that by (auto simp: collect_telegram_def action_results Let_def)

lemma parsed_updates_collected:
  assumes "u \<in> set (updates_of payload)"
    and "\<forall>f\<in>set (tu_files (parse_telegram_updates pe payload offset)). \<exists>item\<in>set fs. names_file f item"
  shows "update_collected pe (tu_items (parse_telegram_updates pe payload offset) @ fs) u"
proof -
  have "set (update_files pe u) \<subseteq> set (tu_files (parse_telegram_updates pe payload offset))"
      "set (update_items pe u) \<subseteq> set (tu_items (parse_telegram_updates pe payload offset))"
    using assms(1) by (auto simp: parsed_updates updates_of_def Let_def)
  then show ?thesis
    using assms(2) unfolding update_collected_def
    by (cases "telegram_file pe (update_message u)") (force simp: update_files_def update_items_def)+
qed


section \<open>The stars are collected once\<close>

lemma read_knownKeys: "read_string_array (JObj [(k, JArr (map JStr xs))]) k = xs"
  by (induction xs) (simp_all add: read_string_array_def json_get_def)

lemma star_pages_fresh:
  "star_pages ch token known page n fresh s = (s', Inr r) \<Longrightarrow>
   \<exists>later. r = fresh @ later \<and> (\<forall>b\<in>set later. bm_key b \<notin> set known)"
proof (induction n arbitrary: page fresh s)
  case (Suc n)
  from Suc.prems obtain t payload bs where
      "request_json ch (star_request token page) s = (t, Inr payload)" "parse_github_stars (ch_parse ch) payload = Inr bs"
    by (auto simp: action_results lifted_Inr)
  with Suc.prems have "r = fresh @ filter (\<lambda>b. bm_key b \<notin> set known) bs
      \<or> star_pages ch token known (Suc page) n (fresh @ filter (\<lambda>b. bm_key b \<notin> set known) bs) t = (s', Inr r)"
    by (auto simp: and_then_def lift_result_def ret_def Let_def split: if_splits)
  then show ?case
  proof
    assume "star_pages ch token known (Suc page) n (fresh @ filter (\<lambda>b. bm_key b \<notin> set known) bs) t = (s', Inr r)"
    from Suc.IH [OF this] show ?thesis by auto
  qed auto
qed (simp add: ret_def)

text \<open>What the first page lists is known afterwards.\<close>

lemma first_page_known:
  assumes "star_pages ch token known page (Suc n) [] s = (s', Inr fresh)"
    and "request_json ch (star_request token page) s = (t, Inr payload)"
    and "parse_github_stars (ch_parse ch) payload = Inr bs"
  shows "bm_key ` set bs \<subseteq> set (merge_keys known fresh)"
proof -
  let ?f = "filter (\<lambda>b. bm_key b \<notin> set known) bs"
  have "fresh = ?f \<or> star_pages ch token known (Suc page) n ?f t = (s', Inr fresh)"
    using assms by (auto simp: and_then_def lift_result_def ret_def Let_def split: if_splits)
  then have "set ?f \<subseteq> set fresh" using star_pages_fresh by fastforce
  then show ?thesis by (auto simp: merge_keys_def)
qed

lemma known_first_page:
  assumes "request_json ch (star_request token page) s = (t, Inr payload)"
    and "parse_github_stars (ch_parse ch) payload = Inr bs" and "bm_key ` set bs \<subseteq> set known"
  shows "star_pages ch token known page (Suc n) [] s = (t, Inr [])"
proof -
  have "filter (\<lambda>b. bm_key b \<notin> set known) bs = []" using assms(3) by (auto simp: filter_empty_conv)
  then show ?thesis using assms(1,2) by (simp add: and_then_def lift_result_def ret_def)
qed

text \<open>C35: No star is handed out twice: a collection hands out only stars that the stored keys do not
  name, and when its keys are stored and the stars are collected again, from the same first page, the
  second collection hands out nothing after a single request.\<close>

theorem stars_are_collected_once:
  assumes "collect_github_stars ch s = (s', Inr r)"
    and "cl_state_updates r = [(''baseline:github_stars'', v)]"
    and "\<And>token t. request_json ch (star_request token 1) t = (t, Inr (front token))"
  shows "(\<exists>t t' w (fresh :: bookmark list). ch_get_state ch ''baseline:github_stars'' t = (t', Inr w)
        \<and> cl_items r = map (\<lambda>b. link_to [''github''] (bm_title b) (bm_url b)) fresh
        \<and> (\<forall>b\<in>set fresh. bm_key b \<notin> set (read_string_array w ''knownKeys'')))
    \<and> (\<exists>r'. collect_github_stars (ch\<lparr>ch_get_state := (\<lambda>_. ret v)\<rparr>) u = (u, Inr r') \<and> cl_items r' = [])"
proof -
  let ?ch = "ch\<lparr>ch_get_state := (\<lambda>_. ret v)\<rparr>"
  from assms(1) obtain config token t t1 t2 w fresh where
      config: "source_config ch Github_Stars s = (t, Inr config)"
    and token: "required config ''token'' ''github_stars'' = Inr token"
    and w: "ch_get_state ch ''baseline:github_stars'' t = (t1, Inr w)"
    and pages: "star_pages ch token (js_set (read_string_array w ''knownKeys'')) 1 100 [] t1 = (t2, Inr fresh)"
    and r: "r = bookmark_result Github_Stars fresh (merge_keys (js_set (read_string_array w ''knownKeys'')) fresh) [''github'']"
    by (auto simp: collect_github_stars_def known_keys_def action_results lifted_Inr)
  let ?known = "js_set (read_string_array w ''knownKeys'')"
  have v: "read_string_array v ''knownKeys'' = merge_keys ?known fresh"
    using assms(2) unfolding r bookmark_result_def by (auto simp: read_knownKeys)
  obtain bs where bs: "parse_github_stars (ch_parse ch) (front token) = Inr bs"
    using pages assms(3) [of token]
    by (cases "parse_github_stars (ch_parse ch) (front token)")
      (auto simp: eval_nat_numeral and_then_def lift_result_def throw_def)
  have "bm_key ` set bs \<subseteq> set (merge_keys ?known fresh)"
    by (rule first_page_known [of ch token ?known 1 99 t1 t2]) (use pages assms(3) bs in \<open>simp_all add: eval_nat_numeral\<close>)
  then have "star_pages ?ch token (js_set (merge_keys ?known fresh)) 1 (Suc 99) [] u = (u, Inr [])"
    by (intro known_first_page [where payload = "front token" and bs = bs])
      (use assms(3) [of token u] bs in \<open>simp_all add: request_json_def\<close>)
  moreover have "source_config ?ch Github_Stars u = (u, Inr config)"
    using config by (auto simp: source_config_def ret_def throw_def split: option.splits if_splits)
  ultimately have "\<exists>r'. collect_github_stars ?ch u = (u, Inr r') \<and> cl_items r' = []"
    using token v
    by (simp add: collect_github_stars_def known_keys_def and_then_def lift_result_def ret_def bookmark_result_def)
  moreover have "\<forall>b\<in>set fresh. bm_key b \<notin> set (read_string_array w ''knownKeys'')"
    using star_pages_fresh [OF pages] by auto
  moreover have "cl_items r = map (\<lambda>b. link_to [''github''] (bm_title b) (bm_url b)) fresh"
    by (simp add: r bookmark_result_def)
  ultimately show ?thesis using w by blast
qed

section \<open>Samples\<close>

definition sample_host :: "json \<Rightarrow> 's collector_host" where
  "sample_host payload = \<lparr>ch_sources =
       [(''telegram'', \<lparr>se_config = [(''bot_token'', JStr ''b'')], se_enabled = True\<rparr>),
        (''github_stars'', \<lparr>se_config = [(''token'', JStr ''g'')], se_enabled = True\<rparr>)],
     ch_get_state = (\<lambda>_. ret JNull), ch_fetch = (\<lambda>_. ret \<lparr>ha_status = 200, ha_json = Some payload, ha_bytes = []\<rparr>),
     ch_upload = None, ch_mkdir = (\<lambda>_. ret ()), ch_write_file = (\<lambda>_ _. ret ()), ch_uuid = ret ''u'',
     ch_join = (\<lambda>d n. d @ n), ch_fingerprint = id, ch_staging_dir = ''s'', ch_parse = sample_parse\<rparr>"

definition sample_updates :: json where
  "sample_updates = JObj [(''result'', JArr [JObj [(''update_id'', JNum 5),
     (''message'', JObj [(''text'', JStr ''hi'')])]])]"

lemma sample_text: "text_items pe ''hi'' = [Text_Item \<lparr>text_content = ''hi'', text_tags = None\<rparr>]"
  by (simp add: text_items_def extract_url_title_pairs_def match_all_code markdown_link_def bare_link_def
      web_scheme_def strip_prefix_def starts_with_def)

lemma sample_collection:
  "collect_telegram (sample_host sample_updates :: unit collector_host) () = ((), Inr
     \<lparr>cl_after_commit = None, cl_items = [Text_Item \<lparr>text_content = ''hi'', text_tags = None\<rparr>],
      cl_login_session = None, cl_state_updates = [(''telegram:offset:b'', JObj [(''offset'', JNum 5)])]\<rparr>)"
proof -
  have "update_message (JObj [(''update_id'', JNum 5), (''message'', JObj [(''text'', JStr ''hi'')])])
      = [(''text'', JStr ''hi'')]"
    by (simp add: update_message_def json_get_def record_or_empty_def)
  moreover have "telegram_file sample_parse [(''text'', JStr ''hi'')] = None"
    by (simp add: telegram_file_def json_get_def array_or_empty_def file_fields_def)
  moreover have "message_text [(''text'', JStr ''hi'')] = ''hi''"
    by (simp add: message_text_def json_get_def Js_Text.js_trim_def is_space_def)
  ultimately have "parse_telegram_updates sample_parse sample_updates 0 =
      \<lparr>tu_files = [], tu_items = [Text_Item \<lparr>text_content = ''hi'', text_tags = None\<rparr>], tu_offset = 5\<rparr>"
    by (simp add: parsed_updates sample_updates_def record_or_empty_def array_or_empty_def json_get_def
        update_files_def update_items_def update_ids_def sample_text)
  then show ?thesis
    by (simp add: collect_telegram_def source_config_def sample_host_def and_then_def ret_def lift_result_def
        required_def read_optional_string_def json_get_def read_number_def request_json_def answer_ok_def)
qed


definition sample_stars :: json where
  "sample_stars = JArr [JObj [(''html_url'', JStr ''https://g/a'')]]"

lemma sample_star_run:
  obtains r v where "collect_github_stars (sample_host sample_stars) () = ((), Inr r)"
    and "cl_state_updates r = [(''baseline:github_stars'', v)]" and "cl_items r \<noteq> []"
proof -
  have "parse_github_stars sample_parse sample_stars = Inr [\<lparr>bm_key = ''https://g/a'', bm_title = ''https://g/a'', bm_url = ''https://g/a''\<rparr>]"
    by (simp add: parse_github_stars_def sample_stars_def flat_map_def github_star_def string_value_def json_get_def
        Js_Text.js_trim_def is_space_def is_http_url_def sample_parse_def starts_with_def titled_def Let_def)
  then have "\<exists>r v. collect_github_stars (sample_host sample_stars) () = ((), Inr r)
      \<and> cl_state_updates r = [(''baseline:github_stars'', v)] \<and> cl_items r \<noteq> []"
    by (simp add: collect_github_stars_def source_config_def sample_host_def and_then_def ret_def lift_result_def
        required_def read_optional_string_def json_get_def known_keys_def read_string_array_def js_set_def
        eval_nat_numeral request_json_def answer_ok_def bookmark_result_def)
  then show ?thesis using that by blast
qed

theorem stars_are_collected_once_witness:
  "\<exists>r v r'. collect_github_stars (sample_host sample_stars) () = ((), Inr r) \<and> cl_items r \<noteq> []
     \<and> collect_github_stars ((sample_host sample_stars)\<lparr>ch_get_state := (\<lambda>_. ret v)\<rparr>) () = ((), Inr r')
     \<and> cl_items r' = []"
proof -
  obtain r v where run: "collect_github_stars (sample_host sample_stars) () = ((), Inr r)"
    and v: "cl_state_updates r = [(''baseline:github_stars'', v)]" and "cl_items r \<noteq> []"
    by (rule sample_star_run)
  moreover have "request_json (sample_host sample_stars) (star_request token 1) t = (t, Inr sample_stars)" for token t
    by (simp add: request_json_def sample_host_def and_then_def ret_def answer_ok_def)
  ultimately show ?thesis using stars_are_collected_once [OF run v, where front = "\<lambda>_. sample_stars"] by blast
qed

end
