(* ===== verification/Browser_Collectors.thy ===== *)
theory Browser_Collectors
  imports Http_Collectors
begin

text \<open>
  The collectors that read a source in the browser, \<open>apps/worker/src/browser-collectors.ts\<close>, and the
  choice between them and the HTTP collectors, \<open>collectors.ts\<close>. The browser is the record of operations
  \<open>browser_host\<close>; what its page scripts extract from a document is an answer of the page. The timer of
  \<open>runBrowserOperationWithTimeout\<close> is a function that tells in which state of the operation, if any, it
  fires; what the operation does after that reaches nobody.
\<close>

section \<open>The browser\<close>

datatype extractor = Extract_Inoreader | Extract_Youtube | Extract_X

record page_answer =
  pa_status :: nat
  pa_json :: "json option"

record cookie =
  ck_domain :: string
  ck_name :: string
  ck_value :: string

record ('s, 'c, 'p) browser_host =
  bh_host :: "'s collector_host"
  bh_get_credential :: "string \<Rightarrow> ('s, json) action"
  bh_new_context :: "json_record option \<Rightarrow> ('s, 'c) action"
  bh_add_cookie :: "'c \<Rightarrow> cookie \<Rightarrow> ('s, unit) action"
  bh_close_context :: "'c \<Rightarrow> ('s, unit) action"
  bh_storage_state :: "'c \<Rightarrow> ('s, json) action"
  bh_new_page :: "'c \<Rightarrow> ('s, 'p) action"
  bh_goto :: "'p \<Rightarrow> string \<Rightarrow> ('s, unit) action"
  bh_wait_body :: "'p \<Rightarrow> ('s, unit) action"
  bh_wait_selector :: "'p \<Rightarrow> extractor \<Rightarrow> ('s, unit) action"
  bh_page_url :: "'p \<Rightarrow> ('s, string) action"
  bh_page_fetch :: "'p \<Rightarrow> string \<Rightarrow> ('s, page_answer) action"
  bh_extract :: "'p \<Rightarrow> extractor \<Rightarrow> ('s, json list) action"
  bh_scroll :: "'p \<Rightarrow> ('s, unit) action"
  bh_pause :: "'p \<Rightarrow> nat \<Rightarrow> ('s, unit) action"
  bh_close_page :: "'p \<Rightarrow> ('s, unit) action"
  bh_timer :: "'s \<Rightarrow> 's option"
  bh_expires_at :: "('s, string) action"

abbreviation parse_of :: "('s, 'c, 'p) browser_host \<Rightarrow> parse_env" where
  "parse_of b \<equiv> ch_parse (bh_host b)"

fun contains_text :: "string \<Rightarrow> string \<Rightarrow> bool" where
  "contains_text p [] = (p = [])"
| "contains_text p (c # cs) = (starts_with p (c # cs) \<or> contains_text p cs)"

definition is_inoreader_login_url :: "string \<Rightarrow> bool" where
  "is_inoreader_login_url u = (contains_text ''/login'' u \<or> contains_text ''/signin'' u)"

definition is_x_login_url :: "string \<Rightarrow> bool" where
  "is_x_login_url u =
     (contains_text ''/login'' u \<or> contains_text ''/i/flow/login'' u \<or> contains_text ''/account/access'' u)"

definition page_json :: "('s, 'c, 'p) browser_host \<Rightarrow> 'p \<Rightarrow> string \<Rightarrow> ('s, json) action" where
  "page_json b page url =
     and_then (bh_page_fetch b page url) (\<lambda>response.
       if pa_status response = 401 \<or> pa_status response = 403 then throw (Thrown_Error ''browser login expired'')
       else if pa_status response < 200 \<or> pa_status response \<ge> 300
       then throw (Thrown_Error (''browser collector request failed: '' @ decimal (pa_status response)))
       else case pa_json response of
           None \<Rightarrow> throw (Thrown_Error ''browser collector response is invalid JSON'')
         | Some v \<Rightarrow> ret v)"

definition baseline :: "('s, 'c, 'p) browser_host \<Rightarrow> string \<Rightarrow> ('s, string list) action" where
  "baseline b source = known_keys (bh_host b) (''baseline:'' @ source)"

definition with_page :: "('s, 'c, 'p) browser_host \<Rightarrow> 'c \<Rightarrow> ('p \<Rightarrow> ('s, 'a) action) \<Rightarrow> ('s, 'a) action" where
  "with_page b context f =
     and_then (bh_new_page b context) (\<lambda>page. finally_do (f page) (bh_close_page b page))"

definition remembered :: "source_name \<Rightarrow> bookmark list \<Rightarrow> string list \<Rightarrow> 's collection_result" where
  "remembered source fresh known = bookmark_result source fresh (merge_keys known fresh) []"

definition fresh_of :: "string list \<Rightarrow> bookmark list \<Rightarrow> bookmark list" where
  "fresh_of known bs = filter (\<lambda>x. bm_key x \<notin> set known) bs"

section \<open>Zhihu and Bilibili\<close>

fun zhihu_pages ::
  "('s, 'c, 'p) browser_host \<Rightarrow> 'p \<Rightarrow> string \<Rightarrow> string list \<Rightarrow> nat \<Rightarrow> nat \<Rightarrow> bookmark list
   \<Rightarrow> ('s, bookmark list) action" where
  "zhihu_pages b page collectionId known offset 0 fresh = ret fresh"
| "zhihu_pages b page collectionId known offset (Suc n) fresh =
     and_then (page_json b page (''https://www.zhihu.com/api/v4/collections/'' @ encode_component collectionId
         @ ''/items?offset='' @ decimal offset @ ''&limit=20'')) (\<lambda>payload.
       (let (isEnd, items) = parse_zhihu_collection (parse_of b) payload;
            pageFresh = fresh_of known items
        in if items = [] \<or> pageFresh = [] \<or> isEnd then ret (fresh @ pageFresh)
           else zhihu_pages b page collectionId known (offset + 20) n (fresh @ pageFresh)))"

definition collect_zhihu :: "('s, 'c, 'p) browser_host \<Rightarrow> json_record \<Rightarrow> 'c \<Rightarrow> ('s, 's collection_result) action" where
  "collect_zhihu b config context =
     and_then (lift_result (required config ''collection_id'' ''zhihu'')) (\<lambda>collectionId.
     and_then (baseline b ''zhihu'') (\<lambda>known.
     and_then (with_page b context (\<lambda>page.
         and_then (bh_goto b page ''https://www.zhihu.com/'') (\<lambda>_.
           zhihu_pages b page collectionId known 0 200 []))) (\<lambda>fresh.
       ret (remembered Zhihu fresh known))))"

fun bilibili_pages ::
  "('s, 'c, 'p) browser_host \<Rightarrow> 'p \<Rightarrow> string \<Rightarrow> string list \<Rightarrow> nat \<Rightarrow> nat \<Rightarrow> bookmark list
   \<Rightarrow> ('s, bookmark list) action" where
  "bilibili_pages b page mediaId known pageNumber 0 fresh = ret fresh"
| "bilibili_pages b page mediaId known pageNumber (Suc n) fresh =
     and_then (page_json b page (''https://api.bilibili.com/x/v3/fav/resource/list?media_id=''
         @ encode_component mediaId @ ''&pn='' @ decimal pageNumber @ ''&ps=20'')) (\<lambda>payload.
       (let batch = parse_bilibili_favorites (parse_of b) payload;
            pageFresh = fresh_of known batch
        in if batch = [] \<or> pageFresh = [] then ret (fresh @ pageFresh)
           else bilibili_pages b page mediaId known (Suc pageNumber) n (fresh @ pageFresh)))"

definition collect_bilibili :: "('s, 'c, 'p) browser_host \<Rightarrow> json_record \<Rightarrow> 'c \<Rightarrow> ('s, 's collection_result) action" where
  "collect_bilibili b config context =
     and_then (lift_result (required config ''media_id'' ''bilibili'')) (\<lambda>mediaId.
     and_then (baseline b ''bilibili'') (\<lambda>known.
     and_then (with_page b context (\<lambda>page.
         and_then (bh_goto b page ''https://www.bilibili.com/'') (\<lambda>_.
           bilibili_pages b page mediaId known 1 200 []))) (\<lambda>fresh.
       ret (remembered Bilibili fresh known))))"

definition collect_bilibili_toview :: "('s, 'c, 'p) browser_host \<Rightarrow> 'c \<Rightarrow> ('s, 's collection_result) action" where
  "collect_bilibili_toview b context =
     and_then (baseline b ''bilibili_toview'') (\<lambda>known.
       with_page b context (\<lambda>page.
         and_then (bh_goto b page ''https://www.bilibili.com/'') (\<lambda>_.
         and_then (page_json b page ''https://api.bilibili.com/x/v2/history/toview/web'') (\<lambda>payload.
           ret (remembered Bilibili_Toview
             (fresh_of known (parse_bilibili_toview (parse_of b) payload)) known)))))"

section \<open>Pages that grow while they are scrolled\<close>

fun add_keyed :: "('i \<Rightarrow> string) \<Rightarrow> 'i list \<Rightarrow> 'i list \<Rightarrow> 'i list" where
  "add_keyed key [] acc = acc"
| "add_keyed key (x # xs) acc =
     add_keyed key xs (if key x \<in> key ` set acc then acc else acc @ [x])"

text \<open>\<open>scrollExtract\<close> with a stable key keeps every item it saw, and without one the items of the last
  extraction; at most as many rounds as given.\<close>

fun scroll_keyed ::
  "('s, 'c, 'p) browser_host \<Rightarrow> 'p \<Rightarrow> extractor \<Rightarrow> (json list \<Rightarrow> 'i list) \<Rightarrow> ('i \<Rightarrow> string) \<Rightarrow> nat \<Rightarrow> 'i list
   \<Rightarrow> ('s, 'i list) action" where
  "scroll_keyed b page ex parse key 0 acc = ret acc"
| "scroll_keyed b page ex parse key (Suc n) acc =
     and_then (bh_extract b page ex) (\<lambda>raw.
       (let acc' = add_keyed key (parse raw) acc
        in if length acc' = length acc then ret acc
           else and_then (bh_scroll b page) (\<lambda>_. and_then (bh_pause b page 1500) (\<lambda>_.
             scroll_keyed b page ex parse key n acc'))))"

fun scroll_last ::
  "('s, 'c, 'p) browser_host \<Rightarrow> 'p \<Rightarrow> extractor \<Rightarrow> (json list \<Rightarrow> 'i list) \<Rightarrow> ('i list \<Rightarrow> bool) \<Rightarrow> nat
   \<Rightarrow> nat option \<Rightarrow> 'i list \<Rightarrow> ('s, 'i list) action" where
  "scroll_last b page ex parse stop 0 previousCount acc = ret acc"
| "scroll_last b page ex parse stop (Suc n) previousCount acc =
     and_then (bh_extract b page ex) (\<lambda>raw.
       (let current = parse raw
        in if Some (length current) = previousCount then ret acc
           else if stop current then ret current
           else and_then (bh_scroll b page) (\<lambda>_. and_then (bh_pause b page 1500) (\<lambda>_.
             scroll_last b page ex parse stop n (Some (length current)) current))))"

definition wait_for_inoreader_content :: "('s, 'c, 'p) browser_host \<Rightarrow> 'p \<Rightarrow> ('s, unit) action" where
  "wait_for_inoreader_content b page =
     catching (bh_wait_selector b page Extract_Inoreader) (\<lambda>_.
       and_then (bh_page_url b page) (\<lambda>url.
         throw (Thrown_Error (if is_inoreader_login_url url then ''inoreader login expired''
                              else ''inoreader content not ready: timeout''))))"

definition collect_inoreader :: "('s, 'c, 'p) browser_host \<Rightarrow> 'c \<Rightarrow> ('s, 's collection_result) action" where
  "collect_inoreader b context =
     and_then (baseline b ''inoreader'') (\<lambda>known.
       with_page b context (\<lambda>page.
         and_then (bh_goto b page ''https://www.inoreader.com/starred'') (\<lambda>_.
         and_then (bh_wait_body b page) (\<lambda>_.
         and_then (bh_page_url b page) (\<lambda>url.
         and_then (when_then (is_inoreader_login_url url) (Thrown_Error ''inoreader login expired'')) (\<lambda>_.
         and_then (wait_for_inoreader_content b page) (\<lambda>_.
         and_then (scroll_keyed b page Extract_Inoreader (parse_inoreader_items (parse_of b)) bm_key 20 []) (\<lambda>items.
           ret (remembered Inoreader (fresh_of known items) known)))))))))"

definition collect_youtube :: "('s, 'c, 'p) browser_host \<Rightarrow> 'c \<Rightarrow> ('s, 's collection_result) action" where
  "collect_youtube b context =
     and_then (baseline b ''youtube'') (\<lambda>known.
       with_page b context (\<lambda>page.
         and_then (bh_goto b page ''https://www.youtube.com/playlist?list=WL'') (\<lambda>_.
         and_then (bh_wait_body b page) (\<lambda>_.
         and_then (catching (bh_wait_selector b page Extract_Youtube) (\<lambda>_. ret ())) (\<lambda>_.
         and_then (scroll_last b page Extract_Youtube (parse_youtube_items (parse_of b))
             (\<lambda>current. \<exists>x\<in>set current. bm_key x \<in> set known) 20 None []) (\<lambda>items.
           ret (remembered Youtube (fresh_of known items) known)))))))"

section \<open>X\<close>

definition x_item :: "x_tweet \<Rightarrow> string \<Rightarrow> dispatch_item" where
  "x_item tweet tag =
     (let t = take 140 (xt_text tweet)
      in link_to [''x'', tag]
           (if xt_author tweet \<noteq> [] \<and> t \<noteq> [] then xt_author tweet @ '': '' @ t
            else if xt_author tweet \<noteq> [] then xt_author tweet else if t \<noteq> [] then t else xt_url tweet)
           (xt_url tweet))"

definition known_state :: "string \<Rightarrow> string list \<Rightarrow> string \<times> json" where
  "known_state source keys = (''baseline:'' @ source, JObj [(''knownKeys'', JArr (map JStr keys))])"

definition x_result :: "source_name \<Rightarrow> string list \<Rightarrow> string list \<Rightarrow> x_tweet list \<Rightarrow> 's collection_result" where
  "x_result source globalKnown sourceKnown tweets =
     \<lparr>cl_after_commit = None,
      cl_items = map (\<lambda>t. x_item t (if source = X_Bookmarks then ''x-bookmarks'' else ''x-likes''))
        (filter (\<lambda>t. xt_id t \<notin> set globalKnown) tweets),
      cl_login_session = None,
      cl_state_updates =
        [known_state ''x'' (js_set (globalKnown @ map xt_id tweets)),
         known_state (source_string source) (js_set (sourceKnown @ map xt_id tweets))]\<rparr>"

definition collect_x ::
  "('s, 'c, 'p) browser_host \<Rightarrow> source_name \<Rightarrow> json_record \<Rightarrow> 'c \<Rightarrow> ('s, 's collection_result) action" where
  "collect_x b source config context =
     and_then (baseline b ''x'') (\<lambda>globalKnown.
     and_then (baseline b (source_string source)) (\<lambda>sourceKnown.
       (let username = read_optional_string config ''username''
        in and_then (when_then (source = X_Likes \<and> username = None)
             (Thrown_Error ''x_likes requires username'')) (\<lambda>_.
           with_page b context (\<lambda>page.
             and_then (bh_goto b page (if source = X_Bookmarks then ''https://x.com/i/bookmarks''
                 else ''https://x.com/'' @ encode_component (nullish username []) @ ''/likes'')) (\<lambda>_.
             and_then (bh_wait_body b page) (\<lambda>_.
             and_then (bh_page_url b page) (\<lambda>url.
             and_then (when_then (is_x_login_url url) (Thrown_Error ''x login expired'')) (\<lambda>_.
             and_then (scroll_last b page Extract_X (parse_x_tweets (parse_of b)) (\<lambda>_. False) 20 None []) (\<lambda>tweets.
               ret (x_result source globalKnown sourceKnown tweets)))))))))))"

section \<open>One source\<close>

definition collect_with_context ::
  "('s, 'c, 'p) browser_host \<Rightarrow> source_name \<Rightarrow> json_record \<Rightarrow> 'c \<Rightarrow> ('s, 's collection_result) action" where
  "collect_with_context b source config context =
     (case source of
        Zhihu \<Rightarrow> collect_zhihu b config context
      | Bilibili \<Rightarrow> collect_bilibili b config context
      | Bilibili_Toview \<Rightarrow> collect_bilibili_toview b context
      | Inoreader \<Rightarrow> collect_inoreader b context
      | Youtube \<Rightarrow> collect_youtube b context
      | _ \<Rightarrow> collect_x b source config context)"

definition is_array :: "json option \<Rightarrow> bool" where
  "is_array v = (case v of Some (JArr _) \<Rightarrow> True | _ \<Rightarrow> False)"

definition cookie_of :: "string \<Rightarrow> json_record \<Rightarrow> cookie option" where
  "cookie_of platform entry =
     (case (if platform = ''zhihu'' then json_get entry ''z_c0'' else None) of
        Some (JStr v) \<Rightarrow> Some \<lparr>ck_domain = ''.zhihu.com'', ck_name = ''z_c0'', ck_value = v\<rparr>
      | _ \<Rightarrow>
          (case (if platform = ''bilibili'' then json_get entry ''sessdata'' else None) of
             Some (JStr v) \<Rightarrow> Some \<lparr>ck_domain = ''.bilibili.com'', ck_name = ''SESSDATA'', ck_value = v\<rparr>
           | _ \<Rightarrow> None))"

definition authenticated_context :: "('s, 'c, 'p) browser_host \<Rightarrow> string \<Rightarrow> json \<Rightarrow> ('s, 'c) action" where
  "authenticated_context b platform credential =
     (let entry = record_or_empty (Some credential);
          storageState = (case json_get entry ''storage_state'' of Some (JObj es) \<Rightarrow> es | _ \<Rightarrow> entry)
      in if is_array (json_get storageState ''cookies'') \<or> is_array (json_get storageState ''origins'')
         then bh_new_context b (Some storageState)
         else and_then (bh_new_context b None) (\<lambda>context.
           (case cookie_of platform entry of
              Some ck \<Rightarrow> and_then (bh_add_cookie b context ck) (\<lambda>_. ret context)
            | None \<Rightarrow> and_then (bh_close_context b context) (\<lambda>_.
                throw (Thrown_Error (''unsupported browser credential: '' @ platform))))))"

definition platform_of :: "source_name \<Rightarrow> string" where
  "platform_of source =
     (if starts_with ''bilibili'' (source_string source) then ''bilibili''
      else if starts_with ''x_'' (source_string source) then ''x'' else source_string source)"

definition collect_and_save_session ::
  "('s, 'c, 'p) browser_host \<Rightarrow> source_name \<Rightarrow> json_record \<Rightarrow> 'c \<Rightarrow> ('s, 's collection_result) action" where
  "collect_and_save_session b source config context =
     and_then (collect_with_context b source config context) (\<lambda>result.
     and_then (bh_expires_at b) (\<lambda>expiresAt.
     and_then (bh_storage_state b context) (\<lambda>state.
       ret (result\<lparr>cl_login_session := Some (platform_of source,
         \<lparr>li_expires_at = expiresAt, li_last_error = None, li_state = state, li_status = ''active''\<rparr>)\<rparr>))))"

text \<open>When the timer fires, the context is closed without waiting and its error is dropped; otherwise the
  context is closed in the \<open>finally\<close>.\<close>

definition run_in_context ::
  "('s, 'c, 'p) browser_host \<Rightarrow> 'c \<Rightarrow> ('s, 'a) action \<Rightarrow> ('s, 'a) action" where
  "run_in_context b context operation s =
     (case bh_timer b s of
        Some t \<Rightarrow> (fst (bh_close_context b context t), Inl (Thrown_Error ''browser source timeout''))
      | None \<Rightarrow> finally_do operation (bh_close_context b context) s)"

definition collect_authenticated ::
  "('s, 'c, 'p) browser_host \<Rightarrow> source_name \<Rightarrow> json_record \<Rightarrow> json \<Rightarrow> ('s, 's collection_result) action" where
  "collect_authenticated b source config credential =
     and_then (authenticated_context b (platform_of source) credential) (\<lambda>context.
       run_in_context b context (collect_and_save_session b source config context))"

definition collect_browser_source ::
  "('s, 'c, 'p) browser_host \<Rightarrow> source_name \<Rightarrow> ('s, 's collection_result) action" where
  "collect_browser_source b source =
     and_then (source_config (bh_host b) source) (\<lambda>config.
     and_then (lift_result (required config ''credential_name'' (source_string source))) (\<lambda>credentialName.
     and_then (bh_get_credential b credentialName) (\<lambda>credential.
     and_then (when_then (credential = JNull)
         (Thrown_Error (''credential not found: '' @ credentialName))) (\<lambda>_.
       collect_authenticated b source config credential))))"

definition collect_http_source :: "'s collector_host \<Rightarrow> source_name \<Rightarrow> ('s, 's collection_result) action" where
  "collect_http_source ch source =
     (if source = Telegram then collect_telegram ch
      else if source = Dida then collect_dida ch else collect_github_stars ch)"

definition collect_source :: "('s, 'c, 'p) browser_host \<Rightarrow> source_name \<Rightarrow> ('s, 's collection_result) action" where
  "collect_source b source =
     (if source \<in> {Telegram, Dida, Github_Stars} then collect_http_source (bh_host b) source
      else collect_browser_source b source)"

section \<open>Every context is closed\<close>

text \<open>A count of the open contexts: opening one adds to it, closing one takes from it whether it throws or
  not, and nothing else touches it.\<close>

abbreviation keeps_count :: "('s \<Rightarrow> nat) \<Rightarrow> ('s, 'a) action \<Rightarrow> bool" where
  "keeps_count f act \<equiv> \<forall>n. keeps (\<lambda>s. f s = n) act"

definition counts_contexts :: "('s \<Rightarrow> nat) \<Rightarrow> ('s, 'c, 'p) browser_host \<Rightarrow> bool" where
  "counts_contexts f b \<longleftrightarrow>
     (\<forall>st s s' r. bh_new_context b st s = (s', r) \<longrightarrow> f s' = f s + (case r of Inl _ \<Rightarrow> 0 | Inr _ \<Rightarrow> 1))
     \<and> (\<forall>c s. f (fst (bh_close_context b c s)) = f s - 1)
     \<and> (\<forall>s t. bh_timer b s = Some t \<longrightarrow> f t = f s)
     \<and> (\<forall>k. keeps_count f (ch_get_state (bh_host b) k)) \<and> (\<forall>n. keeps_count f (bh_get_credential b n))
     \<and> (\<forall>c k. keeps_count f (bh_add_cookie b c k)) \<and> (\<forall>c. keeps_count f (bh_storage_state b c))
     \<and> (\<forall>c. keeps_count f (bh_new_page b c)) \<and> (\<forall>p u. keeps_count f (bh_goto b p u))
     \<and> (\<forall>p. keeps_count f (bh_wait_body b p)) \<and> (\<forall>p e. keeps_count f (bh_wait_selector b p e))
     \<and> (\<forall>p. keeps_count f (bh_page_url b p)) \<and> (\<forall>p u. keeps_count f (bh_page_fetch b p u))
     \<and> (\<forall>p e. keeps_count f (bh_extract b p e)) \<and> (\<forall>p. keeps_count f (bh_scroll b p))
     \<and> (\<forall>p n. keeps_count f (bh_pause b p n)) \<and> (\<forall>p. keeps_count f (bh_close_page b p))
     \<and> keeps_count f (bh_expires_at b)"

lemma page_json_count:
  assumes "counts_contexts f b"
  shows "keeps (\<lambda>s. f s = n) (page_json b page url)"
  using assms unfolding page_json_def counts_contexts_def
  by (intro keeps_intros) (auto intro!: keeps_intros split: option.split)

lemma pages_count:
  assumes "counts_contexts f b"
  shows "keeps (\<lambda>s. f s = n) (zhihu_pages b page i known offset k fresh)"
    and "keeps (\<lambda>s. f s = n) (bilibili_pages b page m known pageNumber k fresh)"
proof -
  show "keeps (\<lambda>s. f s = n) (zhihu_pages b page i known offset k fresh)"
    by (induction k arbitrary: offset fresh)
      (auto simp: Let_def intro!: keeps_intros page_json_count [OF assms] split: prod.split)
  show "keeps (\<lambda>s. f s = n) (bilibili_pages b page m known pageNumber k fresh)"
    by (induction k arbitrary: pageNumber fresh)
      (auto simp: Let_def intro!: keeps_intros page_json_count [OF assms])
qed

lemma scroll_count:
  assumes "counts_contexts f b"
  shows "keeps (\<lambda>s. f s = n) (scroll_keyed b page ex parse key k acc)"
    and "keeps (\<lambda>s. f s = n) (scroll_last b page ex parse' stop k previous acc')"
proof -
  have steps: "keeps (\<lambda>s. f s = n) (bh_extract b page ex)" "keeps (\<lambda>s. f s = n) (bh_scroll b page)"
      "keeps (\<lambda>s. f s = n) (bh_pause b page t)" for t
    using assms by (auto simp: counts_contexts_def)
  show "keeps (\<lambda>s. f s = n) (scroll_keyed b page ex parse key k acc)"
    by (induction k arbitrary: acc) (auto simp: Let_def intro!: keeps_intros steps)
  show "keeps (\<lambda>s. f s = n) (scroll_last b page ex parse' stop k previous acc')"
    by (induction k arbitrary: previous acc') (auto simp: Let_def intro!: keeps_intros steps)
qed

lemma baseline_count:
  assumes "counts_contexts f b"
  shows "keeps (\<lambda>s. f s = n) (baseline b source)"
  using assms unfolding baseline_def known_keys_def counts_contexts_def by (intro keeps_intros) auto

lemma with_page_count:
  assumes "counts_contexts f b" and "\<And>page. keeps (\<lambda>s. f s = n) (g page)"
  shows "keeps (\<lambda>s. f s = n) (with_page b context g)"
  using assms unfolding with_page_def counts_contexts_def by (intro keeps_intros) auto

lemma collect_with_context_count:
  assumes "counts_contexts f b"
  shows "keeps (\<lambda>s. f s = n) (collect_with_context b source config context)"
proof -
  have steps: "keeps (\<lambda>s. f s = n) (bh_goto b page u)" "keeps (\<lambda>s. f s = n) (bh_wait_body b page)"
      "keeps (\<lambda>s. f s = n) (bh_page_url b page)" "keeps (\<lambda>s. f s = n) (bh_wait_selector b page e)" for page u e
    using assms by (auto simp: counts_contexts_def)
  note rules = keeps_intros steps page_json_count [OF assms] pages_count [OF assms] scroll_count [OF assms]
    baseline_count [OF assms] with_page_count [OF assms]
  have "keeps (\<lambda>s. f s = n) (collect_zhihu b config context)"
    unfolding collect_zhihu_def by (intro rules)
  moreover have "keeps (\<lambda>s. f s = n) (collect_bilibili b config context)"
    unfolding collect_bilibili_def by (intro rules)
  moreover have "keeps (\<lambda>s. f s = n) (collect_bilibili_toview b context)"
    unfolding collect_bilibili_toview_def by (intro rules)
  moreover have "keeps (\<lambda>s. f s = n) (collect_inoreader b context)"
    unfolding collect_inoreader_def wait_for_inoreader_content_def by (intro rules)
  moreover have "keeps (\<lambda>s. f s = n) (collect_youtube b context)"
    unfolding collect_youtube_def by (intro rules)
  moreover have "keeps (\<lambda>s. f s = n) (collect_x b source config context)"
    unfolding collect_x_def Let_def by (intro rules)
  ultimately show ?thesis by (cases source) (simp_all add: collect_with_context_def)
qed

lemma authenticated_context_count:
  assumes "counts_contexts f b" and "\<And>c k s. \<exists>s'. bh_add_cookie b c k s = (s', Inr ())"
    and "authenticated_context b platform credential s = (s', r)"
  shows "f s' = f s + (case r of Inl _ \<Rightarrow> 0 | Inr _ \<Rightarrow> 1)"
proof -
  have opened: "bh_new_context b st s = (t, q) \<Longrightarrow> f t = f s + (case q of Inl _ \<Rightarrow> 0 | Inr _ \<Rightarrow> 1)" for st t q s
    using assms(1) by (simp add: counts_contexts_def)
  have closed: "f (fst (bh_close_context b c s)) = f s - 1" for c s
    using assms(1) by (simp add: counts_contexts_def)
  have cookie: "\<exists>t. bh_add_cookie b c k s = (t, Inr ()) \<and> f t = f s" for c k s
  proof -
    obtain t where t: "bh_add_cookie b c k s = (t, Inr ())" using assms(2) by blast
    have "keeps (\<lambda>v. f v = f s) (bh_add_cookie b c k)" using assms(1) by (simp add: counts_contexts_def)
    from keepsD [OF this, of s] t show ?thesis by simp
  qed
  define entry where "entry = record_or_empty (Some credential)"
  define storage where "storage = (case json_get entry ''storage_state'' of Some (JObj es) \<Rightarrow> es | _ \<Rightarrow> entry)"
  show ?thesis
  proof (cases "is_array (json_get storage ''cookies'') \<or> is_array (json_get storage ''origins'')")
    case True
    then have "bh_new_context b (Some storage) s = (s', r)"
      using assms(3) by (simp add: authenticated_context_def entry_def [symmetric] storage_def [symmetric] Let_def)
    then show ?thesis by (rule opened)
  next
    case False
    then have run: "and_then (bh_new_context b None) (\<lambda>context.
           (case cookie_of platform entry of
              Some ck \<Rightarrow> and_then (bh_add_cookie b context ck) (\<lambda>_. ret context)
            | None \<Rightarrow> and_then (bh_close_context b context) (\<lambda>_.
                throw (Thrown_Error (''unsupported browser credential: '' @ platform))))) s = (s', r)"
      using assms(3) by (simp add: authenticated_context_def entry_def [symmetric] storage_def [symmetric] Let_def)
    obtain t q where new: "bh_new_context b None s = (t, q)" by force
    show ?thesis
    proof (cases q)
      case (Inl e)
      then show ?thesis using run new opened [OF new] by (auto simp: and_then_def)
    next
      case (Inr c)
      then have t: "f t = Suc (f s)" using opened [OF new] by simp
      show ?thesis
      proof (cases "cookie_of platform entry")
        case None
        then show ?thesis using run new Inr t closed [of c t]
          by (cases "bh_close_context b c t") (auto simp: and_then_def throw_def split: sum.splits)
      next
        case (Some ck)
        obtain u where "bh_add_cookie b c ck t = (u, Inr ())" "f u = f t" using cookie by blast
        then show ?thesis using run new Inr t Some by (auto simp: and_then_def ret_def)
      qed
    qed
  qed
qed

lemma source_config_state: "fst (source_config ch source s) = s"
  by (auto simp: source_config_def ret_def throw_def split: option.split)

text \<open>C36: No browser context is left open by a collection: as long as setting a cookie does not throw, and
  whatever any other operation of the browser or of the control plane does, with the timer firing at any
  point, there are as many open contexts after the collection as before it.\<close>

theorem browser_contexts_are_closed:
  assumes "counts_contexts f b" and "\<And>c k s. \<exists>s'. bh_add_cookie b c k s = (s', Inr ())"
  shows "f (fst (collect_browser_source b source s)) = f s"
proof -
  have run: "f (fst (run_in_context b c (collect_and_save_session b source config c) u)) = f u - 1" for c config u
  proof (cases "bh_timer b u")
    case (Some t)
    then show ?thesis using assms(1) by (simp add: run_in_context_def counts_contexts_def)
  next
    case None
    have "keeps (\<lambda>v. f v = f u) (collect_and_save_session b source config c)"
      using assms(1) unfolding collect_and_save_session_def counts_contexts_def
      by (intro keeps_intros collect_with_context_count [OF assms(1)]) auto
    from keepsD [OF this, of u] None assms(1) show ?thesis
      by (cases "collect_and_save_session b source config c u")
        (auto simp: run_in_context_def finally_do_def counts_contexts_def split: prod.split, metis fst_conv)
  qed
  have inner: "f (fst (collect_authenticated b source config credential u)) = f u" for credential config u
  proof (cases "authenticated_context b (platform_of source) credential u")
    case (Pair t r)
    with authenticated_context_count [OF assms(1) assms(2) Pair] run show ?thesis
      by (auto simp: collect_authenticated_def and_then_def split: sum.split)
  qed
  have "keeps (\<lambda>v. f v = n) (collect_authenticated b source config credential)" for n credential config
    using inner by (simp add: keeps_def)
  moreover have "keeps (\<lambda>v. f v = n) (bh_get_credential b name)" for n name
    using assms(1) by (simp add: counts_contexts_def)
  moreover have "keeps (\<lambda>v. f v = n) (source_config (bh_host b) source)" for n
    by (simp add: keeps_def source_config_state)
  ultimately have "keeps (\<lambda>v. f v = f s) (collect_browser_source b source)"
    unfolding collect_browser_source_def by (intro keeps_intros)
  from keepsD [OF this, of s] show ?thesis by simp
qed

text \<open>A cookie that cannot be set leaves the context open that was opened for it.\<close>

lemma failed_cookie_leaks_the_context:
  assumes "counts_contexts f b" and "cookie_of platform entry = Some ck"
    and "\<not> is_array (json_get entry ''cookies'')" "\<not> is_array (json_get entry ''origins'')"
      "json_get entry ''storage_state'' = None"
    and "bh_new_context b None s = (t, Inr c)" and "bh_add_cookie b c ck t = (u, Inl e)"
  shows "authenticated_context b platform (JObj entry) s = (u, Inl e) \<and> f u = Suc (f s)"
proof -
  have "f t = Suc (f s)" using assms(1,6) by (auto simp: counts_contexts_def)
  moreover have "keeps (\<lambda>v. f v = f t) (bh_add_cookie b c ck)" using assms(1) by (simp add: counts_contexts_def)
  ultimately have "f u = Suc (f s)" using keepsD [of "\<lambda>v. f v = f t" "bh_add_cookie b c ck" t] assms(7) by simp
  then show ?thesis using assms by (simp add: authenticated_context_def record_or_empty_def Let_def and_then_def)
qed

section \<open>What is handed out is new\<close>

definition collected_new :: "source_name \<Rightarrow> string list \<Rightarrow> 's collection_result \<Rightarrow> bool" where
  "collected_new source known r \<longleftrightarrow>
     (\<exists>fresh :: bookmark list. cl_items r = map (\<lambda>x. link_to [] (bm_title x) (bm_url x)) fresh
        \<and> (\<forall>x\<in>set fresh. bm_key x \<notin> set known)
        \<and> cl_state_updates r = [known_state (source_string source) (merge_keys known fresh)])"

lemma remembered_new: "(\<forall>x\<in>set fresh. bm_key x \<notin> set known) \<Longrightarrow> collected_new source known (remembered source fresh known)"
  by (auto simp: collected_new_def remembered_def bookmark_result_def known_state_def)

lemma remembered_fresh: "collected_new source known (remembered source (fresh_of known items) known)"
  by (rule remembered_new) (simp add: fresh_of_def)

lemma pages_fresh:
  "zhihu_pages b page i known offset k fresh s = (s', Inr r) \<Longrightarrow>
     set r \<subseteq> set fresh \<union> {x. bm_key x \<notin> set known}"
  "bilibili_pages b page m known pageNumber k fresh s = (s', Inr r) \<Longrightarrow>
     set r \<subseteq> set fresh \<union> {x. bm_key x \<notin> set known}"
proof -
  show "zhihu_pages b page i known offset k fresh s = (s', Inr r) \<Longrightarrow>
     set r \<subseteq> set fresh \<union> {x. bm_key x \<notin> set known}"
  proof (induction k arbitrary: offset fresh s)
    case (Suc k)
    from Suc.prems obtain t payload where step: "(let (isEnd, items) = parse_zhihu_collection (parse_of b) payload;
            pageFresh = fresh_of known items
        in if items = [] \<or> pageFresh = [] \<or> isEnd then ret (fresh @ pageFresh)
           else zhihu_pages b page i known (offset + 20) k (fresh @ pageFresh)) t = (s', Inr r)"
      unfolding zhihu_pages.simps and_then_Inr by blast
    obtain isEnd items where "parse_zhihu_collection (parse_of b) payload = (isEnd, items)" by force
    with step have "r = fresh @ fresh_of known items
         \<or> zhihu_pages b page i known (offset + 20) k (fresh @ fresh_of known items) t = (s', Inr r)"
      by (auto simp: Let_def ret_result split: if_splits)
    then show ?case
    proof
      assume "zhihu_pages b page i known (offset + 20) k (fresh @ fresh_of known items) t = (s', Inr r)"
      from Suc.IH [OF this] show ?thesis by (auto simp: fresh_of_def)
    qed (auto simp: fresh_of_def)
  qed (simp add: ret_def)
  show "bilibili_pages b page m known pageNumber k fresh s = (s', Inr r) \<Longrightarrow>
     set r \<subseteq> set fresh \<union> {x. bm_key x \<notin> set known}"
  proof (induction k arbitrary: pageNumber fresh s)
    case (Suc k)
    from Suc.prems obtain t items where
        "r = fresh @ fresh_of known items
         \<or> bilibili_pages b page m known (Suc pageNumber) k (fresh @ fresh_of known items) t = (s', Inr r)"
      by (auto simp: action_results Let_def split: if_splits)
    then show ?case
    proof
      assume "bilibili_pages b page m known (Suc pageNumber) k (fresh @ fresh_of known items) t = (s', Inr r)"
      from Suc.IH [OF this] show ?thesis by (auto simp: fresh_of_def)
    qed (auto simp: fresh_of_def)
  qed (simp add: ret_def)
qed

lemma with_page_Inr: "with_page b context g s = (s', Inr x) \<Longrightarrow> \<exists>page t t'. g page t = (t', Inr x)"
  by (auto simp: with_page_def action_results dest!: finally_do_Inr)

lemma baseline_Inr:
  "baseline b source s = (s', Inr known) \<Longrightarrow>
   \<exists>w. ch_get_state (bh_host b) (''baseline:'' @ source) s = (s', Inr w)
      \<and> known = js_set (read_string_array w ''knownKeys'')"
  by (auto simp: baseline_def known_keys_def action_results)

lemma pages_new:
  "zhihu_pages b page i known offset k [] s = (s', Inr r) \<Longrightarrow> collected_new source known (remembered source r known)"
  "bilibili_pages b page m known pageNumber k [] s = (s', Inr r) \<Longrightarrow> collected_new source known (remembered source r known)"
  by (rule remembered_new; drule pages_fresh; auto)+

definition new_for :: "('s, 'c, 'p) browser_host \<Rightarrow> source_name \<Rightarrow> 's collection_result \<Rightarrow> bool" where
  "new_for b source r \<longleftrightarrow>
     (\<exists>t t' w. ch_get_state (bh_host b) (''baseline:'' @ source_string source) t = (t', Inr w)
        \<and> collected_new source (js_set (read_string_array w ''knownKeys'')) r)"

lemma bookmarks_new:
  "collect_zhihu b config context s = (s', Inr r) \<Longrightarrow> new_for b Zhihu r"
  "collect_bilibili b config context s = (s', Inr r) \<Longrightarrow> new_for b Bilibili r"
  "collect_bilibili_toview b context s = (s', Inr r) \<Longrightarrow> new_for b Bilibili_Toview r"
  "collect_inoreader b context s = (s', Inr r) \<Longrightarrow> new_for b Inoreader r"
  "collect_youtube b context s = (s', Inr r) \<Longrightarrow> new_for b Youtube r"
  unfolding collect_zhihu_def collect_bilibili_def collect_bilibili_toview_def collect_inoreader_def
    collect_youtube_def new_for_def
  by (force simp: action_results lifted_Inr dest!: baseline_Inr with_page_Inr intro: pages_new remembered_fresh)+


section \<open>Samples\<close>

text \<open>A browser whose state is the number of its open contexts.\<close>

definition sample_browser :: "(nat, unit, unit) browser_host" where
  "sample_browser = \<lparr>bh_host = (sample_host JNull)\<lparr>ch_sources :=
       [(''bilibili_toview'', \<lparr>se_config = [(''credential_name'', JStr ''n'')], se_enabled = True\<rparr>)]\<rparr>,
     bh_get_credential = (\<lambda>_. ret (JObj [(''sessdata'', JStr ''d'')])),
     bh_new_context = (\<lambda>_ n. (Suc n, Inr ())), bh_add_cookie = (\<lambda>_ _. ret ()),
     bh_close_context = (\<lambda>_ n. (n - 1, Inr ())), bh_storage_state = (\<lambda>_. ret JNull), bh_new_page = (\<lambda>_. ret ()),
     bh_goto = (\<lambda>_ _. ret ()), bh_wait_body = (\<lambda>_. ret ()), bh_wait_selector = (\<lambda>_ _. ret ()),
     bh_page_url = (\<lambda>_. ret []),
     bh_page_fetch = (\<lambda>_ _. ret \<lparr>pa_status = 200, pa_json = Some (JObj [(''data'', JObj [(''list'',
       JArr [JObj [(''bvid'', JStr ''B'')]])])])\<rparr>),
     bh_extract = (\<lambda>_ _. ret []), bh_scroll = (\<lambda>_. ret ()), bh_pause = (\<lambda>_ _. ret ()),
     bh_close_page = (\<lambda>_. ret ()), bh_timer = (\<lambda>_. None), bh_expires_at = ret ''t''\<rparr>"

lemma sample_browser_counts: "counts_contexts id sample_browser"
  by (auto simp: counts_contexts_def sample_browser_def sample_host_def keeps_def ret_def)

theorem browser_contexts_are_closed_witness:
  "fst (collect_browser_source sample_browser Bilibili_Toview 3) = 3"
  using browser_contexts_are_closed [OF sample_browser_counts, of Bilibili_Toview 3]
  by (simp add: sample_browser_def ret_def)

lemma sample_toview:
  "collect_with_context sample_browser Bilibili_Toview [] () 0 = (0, Inr (remembered Bilibili_Toview
     [\<lparr>bm_key = ''https://www.bilibili.com/video/B'', bm_title = ''B'',
       bm_url = ''https://www.bilibili.com/video/B''\<rparr>] []))"
proof -
  have "parse_bilibili_toview sample_parse (JObj [(''data'', JObj [(''list'', JArr [JObj [(''bvid'', JStr ''B'')]])])])
      = [\<lparr>bm_key = ''https://www.bilibili.com/video/B'', bm_title = ''B'', bm_url = ''https://www.bilibili.com/video/B''\<rparr>]"
    by (simp add: parse_bilibili_toview_def bilibili_list_def record_or_empty_def array_or_empty_def json_get_def
        flat_map_def bilibili_video_def string_value_def Js_Text.js_trim_def is_space_def unique_bookmarks_def Let_def)
  then show ?thesis
    by (simp add: collect_with_context_def collect_bilibili_toview_def baseline_def known_keys_def with_page_def
        page_json_def and_then_def ret_def finally_do_def sample_browser_def sample_host_def read_string_array_def
        js_set_def fresh_of_def)
qed


end
