(* ===== verification/Legacy_Migration.thy ===== *)
theory Legacy_Migration
  imports Queue_Producer Credential_Crypto Pg_Pool
begin

text \<open>
  The import of the state of the Python service into D1, \<open>apps/api/src/legacy-migration.ts\<close>: the schema
  of the snapshot, its statements in batches of a hundred, and the pending jobs, which are published
  once and remembered in the state store. A batch is one transaction of D1. As in \<open>Pg_Pool\<close> a request
  may be refused, or served and its answer be lost. Times stay the texts that they are in the snapshot.
\<close>

section \<open>The snapshot\<close>

record telegram_offset =
  tg_token_hash :: string
  tg_update_id :: int
  tg_updated_at :: "string option"

record dida_sync_state =
  dy_token_hash :: string
  dy_saved_titles :: "string list"
  dy_last_sync :: "string option"
  dy_updated_at :: "string option"

record legacy_baseline =
  lb_source :: string
  lb_known_keys :: "string list"

text \<open>A value that may be anything is also allowed to be missing.\<close>

record legacy_credential =
  lc_name :: string
  lc_platform :: string
  lc_kind :: string
  lc_payload :: "json option"

record legacy_login =
  ll_platform :: string
  ll_state :: "json option"
  ll_status :: string
  ll_expires_at :: string
  ll_last_used_at :: "string option"
  ll_last_error :: "string option"

record legacy_subscription =
  lu_id :: int
  lu_plan :: "string option"
  lu_status :: "string option"
  lu_seats :: int
  lu_current_period_end :: "string option"
  lu_created_at :: string

record legacy_sync =
  ls_id :: string
  ls_triggered_by :: string
  ls_status :: string
  ls_stats :: json_record
  ls_started_at :: string
  ls_finished_at :: "string option"
  ls_error :: "string option"

record legacy_event =
  le_source_url :: string
  le_url_fingerprint :: string
  le_title :: string
  le_status :: string
  le_reason :: "string option"
  le_filename :: "string option"
  le_occurred_at :: string

record legacy_letter =
  lt_message_id :: string
  lt_item_kind :: string
  lt_attempts :: int
  lt_error_class :: string
  lt_error_message :: string
  lt_payload_digest :: string
  lt_created_at :: string

record legacy_done =
  lj_dedupe_key :: string
  lj_job_id :: string
  lj_item_kind :: string
  lj_completed_at :: string

record legacy_limit =
  lr_scope :: string
  lr_bucket_key :: string
  lr_count :: int
  lr_expires_at :: string

record legacy_snapshot =
  sn_exported_at :: string
  sn_offsets :: "telegram_offset list"
  sn_dida :: "dida_sync_state list"
  sn_baselines :: "legacy_baseline list"
  sn_credentials :: "legacy_credential list"
  sn_logins :: "legacy_login list"
  sn_subscriptions :: "legacy_subscription list"
  sn_syncs :: "legacy_sync list"
  sn_events :: "legacy_event list"
  sn_letters :: "legacy_letter list"
  sn_done :: "legacy_done list"
  sn_pending :: "queue_job list"
  sn_limits :: "legacy_limit list"

section \<open>The schema\<close>

definition get_text :: "json_record \<Rightarrow> string \<Rightarrow> string option" where
  "get_text es k = (case json_get es k of Some (JStr s) \<Rightarrow> Some s | _ \<Rightarrow> None)"

definition get_nullable :: "(string \<Rightarrow> bool) \<Rightarrow> json_record \<Rightarrow> string \<Rightarrow> string option option" where
  "get_nullable ok es k =
     (case json_get es k of
        Some JNull \<Rightarrow> Some None
      | Some (JStr s) \<Rightarrow> if ok s then Some (Some s) else None
      | _ \<Rightarrow> None)"

definition get_time :: "formats \<Rightarrow> json_record \<Rightarrow> string \<Rightarrow> string option" where
  "get_time fmt es k =
     Option.bind (get_text es k) (\<lambda>s. if fmt_datetime fmt s then Some s else None)"

definition get_int :: "json_record \<Rightarrow> string \<Rightarrow> int option" where
  "get_int es k = json_int es k (- max_safe_integer) max_safe_integer"

definition get_count :: "json_record \<Rightarrow> string \<Rightarrow> int option" where
  "get_count es k = json_int es k 0 max_safe_integer"

definition text_of_json :: "json \<Rightarrow> string option" where
  "text_of_json v = (case v of JStr s \<Rightarrow> Some s | _ \<Rightarrow> None)"

definition get_texts :: "json_record \<Rightarrow> string \<Rightarrow> string list option" where
  "get_texts es k = Option.bind (json_list (json_get es k)) (check_each text_of_json)"

definition get_rows :: "(json_record \<Rightarrow> 'r option) \<Rightarrow> json_record \<Rightarrow> string \<Rightarrow> 'r list option" where
  "get_rows f es k =
     Option.bind (json_list (json_get es k)) (check_each (\<lambda>v. Option.bind (json_object v) f))"

definition get_item_kind :: "json_record \<Rightarrow> string \<Rightarrow> string option" where
  "get_item_kind es k =
     Option.bind (get_text es k) (\<lambda>s. if s \<in> {''link'', ''text'', ''file'', ''article''} then Some s else None)"

abbreviation any_text :: "string \<Rightarrow> bool" where "any_text \<equiv> \<lambda>_. True"

definition parse_offset :: "formats \<Rightarrow> json_record \<Rightarrow> telegram_offset option" where
  "parse_offset fmt es =
     do { h \<leftarrow> get_text es ''tokenHash''; i \<leftarrow> get_int es ''updateId'';
          t \<leftarrow> get_nullable (fmt_datetime fmt) es ''updatedAt'';
          Some \<lparr>tg_token_hash = h, tg_update_id = i, tg_updated_at = t\<rparr> }"

definition parse_dida_state :: "formats \<Rightarrow> json_record \<Rightarrow> dida_sync_state option" where
  "parse_dida_state fmt es =
     do { l \<leftarrow> get_nullable (fmt_datetime fmt) es ''lastSync''; ts \<leftarrow> get_texts es ''savedTitles'';
          h \<leftarrow> get_text es ''tokenHash''; t \<leftarrow> get_nullable (fmt_datetime fmt) es ''updatedAt'';
          Some \<lparr>dy_token_hash = h, dy_saved_titles = ts, dy_last_sync = l, dy_updated_at = t\<rparr> }"

definition parse_baseline :: "json_record \<Rightarrow> legacy_baseline option" where
  "parse_baseline es =
     do { ks \<leftarrow> get_texts es ''knownKeys''; s \<leftarrow> get_text es ''source'';
          Some \<lparr>lb_source = s, lb_known_keys = ks\<rparr> }"

definition parse_credential :: "json_record \<Rightarrow> legacy_credential option" where
  "parse_credential es =
     do { k \<leftarrow> get_text es ''kind''; n \<leftarrow> get_text es ''name''; p \<leftarrow> get_text es ''platform'';
          Some \<lparr>lc_name = n, lc_platform = p, lc_kind = k, lc_payload = json_get es ''payload''\<rparr> }"

definition parse_login :: "formats \<Rightarrow> json_record \<Rightarrow> legacy_login option" where
  "parse_login fmt es =
     do { x \<leftarrow> get_time fmt es ''expiresAt''; e \<leftarrow> get_nullable any_text es ''lastError'';
          u \<leftarrow> get_nullable (fmt_datetime fmt) es ''lastUsedAt''; p \<leftarrow> get_text es ''platform'';
          s \<leftarrow> get_text es ''status'';
          Some \<lparr>ll_platform = p, ll_state = json_get es ''state'', ll_status = s, ll_expires_at = x,
                ll_last_used_at = u, ll_last_error = e\<rparr> }"

definition parse_subscription :: "formats \<Rightarrow> json_record \<Rightarrow> legacy_subscription option" where
  "parse_subscription fmt es =
     do { c \<leftarrow> get_time fmt es ''createdAt''; e \<leftarrow> get_nullable (fmt_datetime fmt) es ''currentPeriodEnd'';
          i \<leftarrow> get_int es ''id''; p \<leftarrow> get_nullable any_text es ''plan''; n \<leftarrow> get_int es ''seats'';
          s \<leftarrow> get_nullable any_text es ''status'';
          Some \<lparr>lu_id = i, lu_plan = p, lu_status = s, lu_seats = n, lu_current_period_end = e,
                lu_created_at = c\<rparr> }"

definition parse_sync :: "formats \<Rightarrow> json_record \<Rightarrow> legacy_sync option" where
  "parse_sync fmt es =
     do { e \<leftarrow> get_nullable any_text es ''error''; f \<leftarrow> get_nullable (fmt_datetime fmt) es ''finishedAt'';
          i \<leftarrow> get_text es ''id''; a \<leftarrow> get_time fmt es ''startedAt'';
          st \<leftarrow> Option.bind (json_get es ''stats'') json_object; s \<leftarrow> get_text es ''status'';
          b \<leftarrow> get_text es ''triggeredBy'';
          Some \<lparr>ls_id = i, ls_triggered_by = b, ls_status = s, ls_stats = st, ls_started_at = a,
                ls_finished_at = f, ls_error = e\<rparr> }"

definition parse_event :: "formats \<Rightarrow> json_record \<Rightarrow> legacy_event option" where
  "parse_event fmt es =
     do { f \<leftarrow> get_nullable any_text es ''filename''; t \<leftarrow> get_time fmt es ''occurredAt'';
          r \<leftarrow> get_nullable any_text es ''reason''; u \<leftarrow> get_text es ''sourceUrl'';
          s \<leftarrow> get_text es ''status''; h \<leftarrow> get_text es ''title''; p \<leftarrow> get_text es ''urlFingerprint'';
          Some \<lparr>le_source_url = u, le_url_fingerprint = p, le_title = h, le_status = s, le_reason = r,
                le_filename = f, le_occurred_at = t\<rparr> }"

definition parse_letter :: "formats \<Rightarrow> json_record \<Rightarrow> legacy_letter option" where
  "parse_letter fmt es =
     do { n \<leftarrow> get_count es ''attempts''; t \<leftarrow> get_time fmt es ''createdAt''; c \<leftarrow> get_text es ''errorClass'';
          m \<leftarrow> get_text es ''errorMessage''; k \<leftarrow> get_item_kind es ''itemKind''; i \<leftarrow> get_text es ''messageId'';
          d \<leftarrow> get_text es ''payloadDigest'';
          Some \<lparr>lt_message_id = i, lt_item_kind = k, lt_attempts = n, lt_error_class = c,
                lt_error_message = m, lt_payload_digest = d, lt_created_at = t\<rparr> }"

definition parse_done :: "formats \<Rightarrow> json_record \<Rightarrow> legacy_done option" where
  "parse_done fmt es =
     do { t \<leftarrow> get_time fmt es ''completedAt''; d \<leftarrow> get_text es ''dedupeKey''; k \<leftarrow> get_item_kind es ''itemKind'';
          i \<leftarrow> get_text es ''jobId'';
          Some \<lparr>lj_dedupe_key = d, lj_job_id = i, lj_item_kind = k, lj_completed_at = t\<rparr> }"

definition parse_limit :: "formats \<Rightarrow> json_record \<Rightarrow> legacy_limit option" where
  "parse_limit fmt es =
     do { b \<leftarrow> get_text es ''bucketKey''; n \<leftarrow> get_count es ''count''; x \<leftarrow> get_time fmt es ''expiresAt'';
          s \<leftarrow> get_text es ''scope'';
          Some \<lparr>lr_scope = s, lr_bucket_key = b, lr_count = n, lr_expires_at = x\<rparr> }"

definition parse_legacy_snapshot :: "formats \<Rightarrow> json \<Rightarrow> legacy_snapshot option" where
  "parse_legacy_snapshot fmt v =
     do { es \<leftarrow> json_object v; t \<leftarrow> get_time fmt es ''exportedAt'';
          pg \<leftarrow> Option.bind (json_get es ''postgres'') json_object;
          evs \<leftarrow> get_rows (parse_event fmt) pg ''articleEvents'';
          bls \<leftarrow> get_rows parse_baseline pg ''baselines'';
          crs \<leftarrow> get_rows parse_credential pg ''credentials'';
          dis \<leftarrow> get_rows (parse_dida_state fmt) pg ''didaSyncStates'';
          los \<leftarrow> get_rows (parse_login fmt) pg ''loginSessions'';
          sus \<leftarrow> get_rows (parse_subscription fmt) pg ''subscriptions'';
          sys \<leftarrow> get_rows (parse_sync fmt) pg ''syncJobs'';
          tgs \<leftarrow> get_rows (parse_offset fmt) pg ''telegramOffsets'';
          rd \<leftarrow> Option.bind (json_get es ''redis'') json_object;
          lts \<leftarrow> get_rows (parse_letter fmt) rd ''deadLetters'';
          djs \<leftarrow> get_rows (parse_done fmt) rd ''doneJobs'';
          pjs \<leftarrow> Option.bind (json_list (json_get rd ''pendingJobs'')) (check_each (parse_queue_job fmt));
          lis \<leftarrow> get_rows (parse_limit fmt) rd ''rateLimits'';
          (if json_get es ''schemaVersion'' = Some (JNum 1) then
             Some \<lparr>sn_exported_at = t, sn_offsets = tgs, sn_dida = dis, sn_baselines = bls,
                   sn_credentials = crs, sn_logins = los, sn_subscriptions = sus, sn_syncs = sys,
                   sn_events = evs, sn_letters = lts, sn_done = djs, sn_pending = pjs, sn_limits = lis\<rparr>
           else None) }"

section \<open>The tables\<close>

text \<open>
  The columns that the import writes; a column of JSON text holds the value of the text. A row is
  inserted, ignored or merged by the key of its table. The subscriptions, syncs and events of the
  snapshot are the rows of their tables.
\<close>

record 'v keyed_row =
  kr_key :: string
  kr_value :: 'v
  kr_updated_at :: string

record dida_row =
  dr_token_hash :: string
  dr_saved_titles :: json
  dr_last_sync :: "string option"
  dr_updated_at :: string

record credential_row =
  cr_name :: string
  cr_platform :: string
  cr_kind :: string
  cr_payload_encrypted :: bytes
  cr_created_at :: string
  cr_updated_at :: string

record login_row =
  lw_platform :: string
  lw_storage_state_encrypted :: bytes
  lw_status :: string
  lw_expires_at :: string
  lw_last_used_at :: "string option"
  lw_last_error :: "string option"
  lw_created_at :: string
  lw_updated_at :: string

record done_row =
  nr_dedupe_key :: string
  nr_job_id :: string
  nr_kind :: string
  nr_item_kind :: string
  nr_status :: string
  nr_attempts :: int
  nr_summary :: json
  nr_created_at :: string
  nr_updated_at :: string
  nr_finished_at :: "string option"

record letter_row =
  tr_job_id :: string
  tr_dedupe_key :: string
  tr_kind :: string
  tr_item_kind :: string
  tr_attempts :: int
  tr_error_class :: string
  tr_error_message :: string
  tr_payload_digest :: string
  tr_created_at :: string

record limit_row =
  mr_scope :: string
  mr_bucket_key :: string
  mr_count :: int
  mr_expires_at :: string
  mr_updated_at :: string

record legacy_db =
  lg_events :: "legacy_event list"
  lg_credentials :: "credential_row list"
  lg_dida :: "dida_row list"
  lg_baselines :: "json keyed_row list"
  lg_logins :: "login_row list"
  lg_subscriptions :: "legacy_subscription list"
  lg_syncs :: "legacy_sync list"
  lg_offsets :: "int keyed_row list"
  lg_letters :: "letter_row list"
  lg_inbox :: nat
  lg_jobs :: "done_row list"
  lg_limits :: "limit_row list"
  lg_state :: "json keyed_row list"

text \<open>What \<open>ON CONFLICT ... DO UPDATE SET\<close> leaves of the row that is there.\<close>

definition merge_replace :: "'r \<Rightarrow> 'r \<Rightarrow> 'r" where
  "merge_replace old r = r"

definition merge_legacy_credential :: "credential_row \<Rightarrow> credential_row \<Rightarrow> credential_row" where
  "merge_legacy_credential old r = r\<lparr>cr_name := cr_name old, cr_created_at := cr_created_at old\<rparr>"

definition merge_legacy_login :: "login_row \<Rightarrow> login_row \<Rightarrow> login_row" where
  "merge_legacy_login old r = r\<lparr>lw_platform := lw_platform old, lw_created_at := lw_created_at old\<rparr>"

definition merge_legacy_sync :: "legacy_sync \<Rightarrow> legacy_sync \<Rightarrow> legacy_sync" where
  "merge_legacy_sync old r = old\<lparr>ls_status := ls_status r, ls_stats := ls_stats r,
     ls_finished_at := ls_finished_at r, ls_error := ls_error r\<rparr>"

definition merge_legacy_subscription :: "legacy_subscription \<Rightarrow> legacy_subscription \<Rightarrow> legacy_subscription" where
  "merge_legacy_subscription old r = old\<lparr>lu_plan := lu_plan r, lu_status := lu_status r, lu_seats := lu_seats r,
     lu_current_period_end := lu_current_period_end r\<rparr>"

definition event_key :: "legacy_event \<Rightarrow> string \<times> string \<times> string" where
  "event_key r = (le_url_fingerprint r, le_status r, le_occurred_at r)"

definition limit_key :: "limit_row \<Rightarrow> string \<times> string" where
  "limit_key r = (mr_scope r, mr_bucket_key r)"

section \<open>The statements\<close>

datatype legacy_statement =
    Put_Offset "int keyed_row"
  | Put_State "json keyed_row"
  | Put_Dida dida_row
  | Put_Baseline "json keyed_row"
  | Put_Credential credential_row
  | Put_Login login_row
  | Put_Sync legacy_sync
  | Add_Event legacy_event
  | Put_Subscription legacy_subscription
  | Add_Done done_row
  | Add_Letter letter_row
  | Put_Limit limit_row
  | Add_Mark "json keyed_row"

text \<open>
  The identifier of a job is unique in its table as well; \<open>ON CONFLICT(dedupe_key)\<close> is looked at
  first and says nothing of it, so a second job of the same identifier fails.
\<close>

fun run_statement :: "legacy_statement \<Rightarrow> legacy_db \<Rightarrow> legacy_db option" where
  "run_statement (Put_Offset r) db =
     Some (db\<lparr>lg_offsets := tab_upsert kr_key merge_replace r (lg_offsets db)\<rparr>)"
| "run_statement (Put_State r) db =
     Some (db\<lparr>lg_state := tab_upsert kr_key merge_replace r (lg_state db)\<rparr>)"
| "run_statement (Put_Dida r) db =
     Some (db\<lparr>lg_dida := tab_upsert dr_token_hash merge_replace r (lg_dida db)\<rparr>)"
| "run_statement (Put_Baseline r) db =
     Some (db\<lparr>lg_baselines := tab_upsert kr_key merge_replace r (lg_baselines db)\<rparr>)"
| "run_statement (Put_Credential r) db =
     Some (db\<lparr>lg_credentials := tab_upsert cr_name merge_legacy_credential r (lg_credentials db)\<rparr>)"
| "run_statement (Put_Login r) db =
     Some (db\<lparr>lg_logins := tab_upsert lw_platform merge_legacy_login r (lg_logins db)\<rparr>)"
| "run_statement (Put_Sync r) db =
     Some (db\<lparr>lg_syncs := tab_upsert ls_id merge_legacy_sync r (lg_syncs db)\<rparr>)"
| "run_statement (Add_Event r) db =
     Some (db\<lparr>lg_events := tab_insert_ignore event_key r (lg_events db)\<rparr>)"
| "run_statement (Put_Subscription r) db =
     Some (db\<lparr>lg_subscriptions := tab_upsert lu_id merge_legacy_subscription r (lg_subscriptions db)\<rparr>)"
| "run_statement (Add_Done r) db =
     (if nr_dedupe_key r \<in> nr_dedupe_key ` set (lg_jobs db) then Some db
      else map_option (\<lambda>rows. db\<lparr>lg_jobs := rows\<rparr>) (tab_insert nr_job_id r (lg_jobs db)))"
| "run_statement (Add_Letter r) db =
     Some (db\<lparr>lg_letters := tab_insert_ignore tr_job_id r (lg_letters db)\<rparr>)"
| "run_statement (Put_Limit r) db =
     Some (db\<lparr>lg_limits := tab_upsert limit_key merge_replace r (lg_limits db)\<rparr>)"
| "run_statement (Add_Mark r) db =
     Some (db\<lparr>lg_state := tab_insert_ignore kr_key r (lg_state db)\<rparr>)"

fun run_all :: "legacy_statement list \<Rightarrow> legacy_db \<Rightarrow> legacy_db option" where
  "run_all [] db = Some db"
| "run_all (s # ss) db = Option.bind (run_statement s db) (run_all ss)"

text \<open>What the platform gives the import, and its bindings. Each encryption draws its own
  initialisation vector: the \<open>k\<close>-th one draws \<open>mc_iv k\<close>.\<close>

record migration_context =
  mc_formats :: formats
  mc_schema_error :: "json \<Rightarrow> string"
  mc_vault :: vault
  mc_iv :: "nat \<Rightarrow> bytes"
  mc_encryption_key :: string
  mc_byte_length :: "queue_job \<Rightarrow> nat"
  mc_accepts :: "queue_job list \<Rightarrow> bool"

text \<open>The text of a value that is missing is \<open>undefined\<close>, which \<open>TextEncoder\<close> encodes as no bytes.\<close>

definition encrypt_unknown :: "migration_context \<Rightarrow> nat \<Rightarrow> json option \<Rightarrow> crypto_error + bytes" where
  "encrypt_unknown ctx k v =
     (let va = (mc_vault ctx)\<lparr>va_random_iv := mc_iv ctx k\<rparr> in
      case v of
        Some x \<Rightarrow> encrypt_json va x (mc_encryption_key ctx)
      | None \<Rightarrow> encrypt_json (va\<lparr>va_print := \<lambda>_. []\<rparr>) JNull (mc_encryption_key ctx))"

definition json_texts :: "string list \<Rightarrow> json" where
  "json_texts ts = JArr (map JStr ts)"

definition offset_statements :: "string \<Rightarrow> telegram_offset \<Rightarrow> legacy_statement list" where
  "offset_statements t r =
     (let u = nullish (tg_updated_at r) t in
      [Put_Offset \<lparr>kr_key = tg_token_hash r, kr_value = tg_update_id r, kr_updated_at = u\<rparr>,
       Put_State \<lparr>kr_key = ''telegram:offset:'' @ take 16 (tg_token_hash r),
                  kr_value = JObj [(''offset'', JNum (of_int (tg_update_id r)))], kr_updated_at = u\<rparr>])"

definition dida_statements :: "string \<Rightarrow> dida_sync_state \<Rightarrow> legacy_statement list" where
  "dida_statements t r =
     (let u = nullish (dy_updated_at r) t in
      [Put_Dida \<lparr>dr_token_hash = dy_token_hash r, dr_saved_titles = json_texts (dy_saved_titles r),
                 dr_last_sync = dy_last_sync r, dr_updated_at = u\<rparr>,
       Put_State \<lparr>kr_key = ''dida:saved:'' @ take 16 (dy_token_hash r),
                  kr_value = JObj [(''savedTitles'', json_texts (dy_saved_titles r))], kr_updated_at = u\<rparr>])"

definition baseline_statements :: "string \<Rightarrow> legacy_baseline \<Rightarrow> legacy_statement list" where
  "baseline_statements t r =
     [Put_Baseline \<lparr>kr_key = lb_source r, kr_value = json_texts (lb_known_keys r), kr_updated_at = t\<rparr>,
      Put_State \<lparr>kr_key = ''baseline:'' @ lb_source r,
                 kr_value = JObj [(''knownKeys'', json_texts (lb_known_keys r))], kr_updated_at = t\<rparr>]"

fun credential_statements ::
  "migration_context \<Rightarrow> string \<Rightarrow> nat \<Rightarrow> legacy_credential list \<Rightarrow> crypto_error + legacy_statement list" where
  "credential_statements ctx t k [] = Inr []"
| "credential_statements ctx t k (r # rs) =
     (case encrypt_unknown ctx k (lc_payload r) of
        Inl e \<Rightarrow> Inl e
      | Inr c \<Rightarrow>
          (case credential_statements ctx t (Suc k) rs of
             Inl e \<Rightarrow> Inl e
           | Inr ss \<Rightarrow> Inr (Put_Credential \<lparr>cr_name = lc_name r, cr_platform = lc_platform r, cr_kind = lc_kind r,
               cr_payload_encrypted = c, cr_created_at = t, cr_updated_at = t\<rparr> # ss)))"

fun login_statements ::
  "migration_context \<Rightarrow> string \<Rightarrow> nat \<Rightarrow> legacy_login list \<Rightarrow> crypto_error + legacy_statement list" where
  "login_statements ctx t k [] = Inr []"
| "login_statements ctx t k (r # rs) =
     (case encrypt_unknown ctx k (ll_state r) of
        Inl e \<Rightarrow> Inl e
      | Inr c \<Rightarrow>
          (case login_statements ctx t (Suc k) rs of
             Inl e \<Rightarrow> Inl e
           | Inr ss \<Rightarrow> Inr (Put_Login \<lparr>lw_platform = ll_platform r, lw_storage_state_encrypted = c,
               lw_status = ll_status r, lw_expires_at = ll_expires_at r, lw_last_used_at = ll_last_used_at r,
               lw_last_error = ll_last_error r, lw_created_at = t, lw_updated_at = t\<rparr> # ss)))"

definition done_statement :: "legacy_done \<Rightarrow> legacy_statement" where
  "done_statement r = Add_Done \<lparr>nr_dedupe_key = lj_dedupe_key r, nr_job_id = lj_job_id r,
     nr_kind = ''dispatch-item'', nr_item_kind = lj_item_kind r, nr_status = ''done'', nr_attempts = 1,
     nr_summary = JObj [], nr_created_at = lj_completed_at r, nr_updated_at = lj_completed_at r,
     nr_finished_at = Some (lj_completed_at r)\<rparr>"

definition letter_statement :: "legacy_letter \<Rightarrow> legacy_statement" where
  "letter_statement r = Add_Letter \<lparr>tr_job_id = lt_message_id r,
     tr_dedupe_key = ''legacy-dead:'' @ lt_message_id r, tr_kind = ''dispatch-item'',
     tr_item_kind = lt_item_kind r, tr_attempts = lt_attempts r, tr_error_class = lt_error_class r,
     tr_error_message = lt_error_message r, tr_payload_digest = lt_payload_digest r,
     tr_created_at = lt_created_at r\<rparr>"

definition limit_statement :: "string \<Rightarrow> legacy_limit \<Rightarrow> legacy_statement" where
  "limit_statement t r = Put_Limit \<lparr>mr_scope = lr_scope r, mr_bucket_key = lr_bucket_key r,
     mr_count = lr_count r, mr_expires_at = lr_expires_at r, mr_updated_at = t\<rparr>"

definition snapshot_statements ::
  "migration_context \<Rightarrow> legacy_snapshot \<Rightarrow> crypto_error + legacy_statement list" where
  "snapshot_statements ctx sn =
     (let t = sn_exported_at sn in
      case credential_statements ctx t 0 (sn_credentials sn) of
        Inl e \<Rightarrow> Inl e
      | Inr cs \<Rightarrow>
          (case login_statements ctx t (length (sn_credentials sn)) (sn_logins sn) of
             Inl e \<Rightarrow> Inl e
           | Inr ls \<Rightarrow> Inr (concat (map (offset_statements t) (sn_offsets sn))
               @ concat (map (dida_statements t) (sn_dida sn))
               @ concat (map (baseline_statements t) (sn_baselines sn))
               @ cs @ ls @ map Put_Sync (sn_syncs sn) @ map Add_Event (sn_events sn)
               @ map Put_Subscription (sn_subscriptions sn) @ map done_statement (sn_done sn)
               @ map letter_statement (sn_letters sn) @ map (limit_statement t) (sn_limits sn))))"

section \<open>The import\<close>

text \<open>The database, what becomes of the coming requests, and the batches that went to the queue.\<close>

record migration_world =
  mw_db :: legacy_db
  mw_faults :: "pg_fault list"
  mw_sent :: "queue_job list list"

definition next_fault :: "migration_world \<Rightarrow> pg_fault" where
  "next_fault w = (case mw_faults w of [] \<Rightarrow> No_Fault | f # _ \<Rightarrow> f)"

definition after_fault :: "migration_world \<Rightarrow> migration_world" where
  "after_fault w = w\<lparr>mw_faults := tl (mw_faults w)\<rparr>"

definition d1_failed :: thrown where
  "d1_failed = Thrown_Error ''D1_ERROR''"

definition d1_batch :: "legacy_statement list \<Rightarrow> (migration_world, unit) action" where
  "d1_batch ss w =
     (case run_all ss (mw_db w) of
        None \<Rightarrow> (after_fault w, Inl d1_failed)
      | Some db \<Rightarrow>
          (case next_fault w of
             No_Fault \<Rightarrow> (after_fault w\<lparr>mw_db := db\<rparr>, Inr ())
           | Refused \<Rightarrow> (after_fault w, Inl d1_failed)
           | Answer_Lost \<Rightarrow> (after_fault w\<lparr>mw_db := db\<rparr>, Inl d1_failed)))"

definition d1_read :: "(legacy_db \<Rightarrow> 'a) \<Rightarrow> (migration_world, 'a) action" where
  "d1_read f w =
     (after_fault w, if next_fault w = No_Fault then Inr (f (mw_db w)) else Inl d1_failed)"

function batch_statements :: "legacy_statement list \<Rightarrow> (migration_world, unit) action" where
  "batch_statements ss =
     (if ss = [] then ret ()
      else and_then (d1_batch (take 100 ss)) (\<lambda>_. batch_statements (drop 100 ss)))"
  by auto

termination
  by (relation "measure length") auto

declare batch_statements.simps [simp del]

definition pending_key :: "queue_job \<Rightarrow> string" where
  "pending_key job = ''migration:pending:'' @ qj_job_id job"

definition pending_marked :: "legacy_db \<Rightarrow> queue_job \<Rightarrow> bool" where
  "pending_marked db job = (tab_first (\<lambda>r. kr_key r = pending_key job) (lg_state db) \<noteq> None)"

fun find_pending :: "queue_job list \<Rightarrow> (migration_world, queue_job list) action" where
  "find_pending [] = ret []"
| "find_pending (job # jobs) =
     and_then (d1_read (\<lambda>db. pending_marked db job)) (\<lambda>found.
     and_then (find_pending jobs) (\<lambda>js. ret (if found then js else job # js)))"

definition pending_mark :: "string \<Rightarrow> queue_job \<Rightarrow> legacy_statement" where
  "pending_mark t job = Add_Mark \<lparr>kr_key = pending_key job, kr_value = JObj [], kr_updated_at = t\<rparr>"

fun producer_thrown :: "producer_error \<Rightarrow> thrown" where
  "producer_thrown Invalid_Job = Thrown_Error ''Invalid queue job''"
| "producer_thrown Message_Too_Large = Thrown_Error ''Queue message exceeds 128 KB''"
| "producer_thrown Send_Failed = Thrown_Error ''Queue send failed''"

definition producer_batch :: "migration_context \<Rightarrow> queue_job list \<Rightarrow> (migration_world, unit) action" where
  "producer_batch ctx jobs w =
     (case send_batch (mc_formats ctx) (mc_byte_length ctx) (mc_accepts ctx) (map json_of_job jobs) of
        (sent, e) \<Rightarrow>
          (w\<lparr>mw_sent := mw_sent w @ sent\<rparr>, case e of None \<Rightarrow> Inr () | Some x \<Rightarrow> Inl (producer_thrown x)))"

definition publish_pending_once ::
  "migration_context \<Rightarrow> queue_job list \<Rightarrow> string \<Rightarrow> (migration_world, nat) action" where
  "publish_pending_once ctx jobs t =
     and_then (find_pending jobs) (\<lambda>pending.
       if pending = [] then ret 0
       else and_then (producer_batch ctx pending) (\<lambda>_.
            and_then (batch_statements (map (pending_mark t) pending)) (\<lambda>_.
            ret (length pending))))"

definition snapshot_counts :: "legacy_snapshot \<Rightarrow> (string \<times> nat) list" where
  "snapshot_counts sn =
     [(''articleEvents'', length (sn_events sn)), (''baselines'', length (sn_baselines sn)),
      (''credentials'', length (sn_credentials sn)), (''deadLetters'', length (sn_letters sn)),
      (''didaSyncStates'', length (sn_dida sn)), (''doneJobs'', length (sn_done sn)),
      (''loginSessions'', length (sn_logins sn)), (''pendingJobs'', length (sn_pending sn)),
      (''rateLimits'', length (sn_limits sn)), (''subscriptions'', length (sn_subscriptions sn)),
      (''syncJobs'', length (sn_syncs sn)), (''telegramOffsets'', length (sn_offsets sn))]"

definition counted_tables :: "(string \<times> (legacy_db \<Rightarrow> nat)) list" where
  "counted_tables =
     [(''article_archive_events'', length \<circ> lg_events), (''credentials'', length \<circ> lg_credentials),
      (''dida_sync_states'', length \<circ> lg_dida), (''incremental_baselines'', length \<circ> lg_baselines),
      (''login_sessions'', length \<circ> lg_logins), (''subscriptions'', length \<circ> lg_subscriptions),
      (''sync_jobs'', length \<circ> lg_syncs), (''telegram_offsets'', length \<circ> lg_offsets),
      (''worker_dead_letters'', length \<circ> lg_letters), (''worker_inbox'', lg_inbox),
      (''worker_jobs'', length \<circ> lg_jobs), (''worker_rate_limits'', length \<circ> lg_limits),
      (''worker_state'', length \<circ> lg_state)]"

definition count_table :: "string \<times> (legacy_db \<Rightarrow> nat) \<Rightarrow> (migration_world, string \<times> nat) action" where
  "count_table x = d1_read (\<lambda>db. (fst x, snd x db))"

definition database_counts :: "(migration_world, (string \<times> nat) list) action" where
  "database_counts = collect count_table counted_tables"

record import_report =
  im_imported :: "(string \<times> nat) list"
  im_published_pending_jobs :: nat
  im_totals :: "(string \<times> nat) list"

definition key_thrown :: thrown where
  "key_thrown = Thrown_Error ''STATE_ENCRYPTION_KEY must be a base64-encoded 32-byte key''"

definition import_snapshot :: "migration_context \<Rightarrow> json \<Rightarrow> (migration_world, import_report) action" where
  "import_snapshot ctx input =
     (case parse_legacy_snapshot (mc_formats ctx) input of
        None \<Rightarrow> throw (Thrown_Error (mc_schema_error ctx input))
      | Some sn \<Rightarrow>
          (case snapshot_statements ctx sn of
             Inl e \<Rightarrow> throw key_thrown
           | Inr ss \<Rightarrow>
               and_then (batch_statements ss) (\<lambda>_.
               and_then (publish_pending_once ctx (sn_pending sn) (sn_exported_at sn)) (\<lambda>n.
               and_then database_counts (\<lambda>totals.
               ret \<lparr>im_imported = snapshot_counts sn, im_published_pending_jobs = n,
                    im_totals = totals\<rparr>)))))"

section \<open>Rows that are written twice\<close>

text \<open>
  A table whose rows are merged by key, where the last row that was merged into a row decides it: writing
  the same rows a second time changes nothing.
\<close>

locale merging_table =
  fixes key :: "'r \<Rightarrow> 'k" and merge :: "'r \<Rightarrow> 'r \<Rightarrow> 'r"
  assumes key_merge: "key a = key b \<Longrightarrow> key (merge a b) = key b"
    and merge_merge: "key a = key b \<Longrightarrow> key b = key c \<Longrightarrow> merge (merge a b) c = merge a c"
    and merge_self: "merge a a = a"
begin

lemma keys_written: "key ` set (tab_upsert key merge r rows) = insert (key r) (key ` set rows)"
proof (cases "key r \<in> key ` set rows")
  case True
  have "key ` (\<lambda>old. if key old = key r then merge old r else old) ` set rows = key ` set rows"
    unfolding image_image by (rule image_cong) (simp_all add: key_merge)
  with True show ?thesis by (simp add: tab_upsert_def set_tab_update insert_absorb)
qed (simp add: tab_upsert_def)

lemma written_row:
  assumes "r \<in> set (tab_upsert key merge x rows)"
  obtains "r = x"
    | "r \<in> set rows" "key r \<noteq> key x"
    | old where "old \<in> set rows" "key old = key x" "r = merge old x"
  using assms by (cases "key x \<in> key ` set rows") (auto simp: tab_upsert_def set_tab_update image_iff split: if_splits)

lemma keys_all_written: "key ` set (fold (tab_upsert key merge) rs rows) = key ` set rs \<union> key ` set rows"
  by (induction rs arbitrary: rows) (simp_all add: keys_written)

lemma last_write_decides:
  assumes "r \<in> set (fold (tab_upsert key merge) rs rows)"
    and "tab_first (\<lambda>x. key x = key r) (rev rs) = Some v"
  shows "merge r v = r"
  using assms
proof (induction rs arbitrary: r v rule: rev_induct)
  case (snoc x rs)
  from snoc.prems(1) have "r \<in> set (tab_upsert key merge x (fold (tab_upsert key merge) rs rows))" by simp
  then show ?case
  proof (cases rule: written_row)
    case 1
    with snoc.prems(2) show ?thesis by (simp add: merge_self)
  next
    case 2
    with snoc show ?thesis by simp
  next
    case (3 old)
    with snoc.prems(2) show ?thesis by (simp add: merge_merge key_merge)
  qed
qed simp

lemma present_rows_are_merged:
  assumes "key ` set rs \<subseteq> key ` set rows"
  shows "fold (tab_upsert key merge) rs rows
    = map (\<lambda>r. case tab_first (\<lambda>x. key x = key r) (rev rs) of None \<Rightarrow> r | Some v \<Rightarrow> merge r v) rows"
  using assms
proof (induction rs rule: rev_induct)
  case (snoc x rs)
  define g where "g r = (case tab_first (\<lambda>x. key x = key r) (rev rs) of None \<Rightarrow> r | Some v \<Rightarrow> merge r v)" for r
  have key_g: "key (g r) = key r" for r
    by (auto simp: g_def key_merge split: option.split dest: tab_first_SomeD)
  have same: "merge (g r) x = merge r x" if "key r = key x" for r
    using that by (auto simp: g_def merge_merge split: option.split dest!: tab_first_SomeD)
  from snoc have rows: "fold (tab_upsert key merge) rs rows = map g rows" by (simp add: g_def [abs_def])
  have "key x \<in> key ` set (map g rows)"
    using snoc.prems by (force simp: key_g image_iff)
  then have "fold (tab_upsert key merge) (rs @ [x]) rows
      = tab_update (\<lambda>r. key r = key x) (\<lambda>r. merge r x) (map g rows)"
    by (simp add: rows tab_upsert_def)
  also have "\<dots> = map (\<lambda>r. if key r = key x then merge r x else g r) rows"
    using same by (simp add: tab_update_def key_g)
  finally show ?case by (auto simp: g_def)
qed simp

lemma written_twice:
  "fold (tab_upsert key merge) rs (fold (tab_upsert key merge) rs rows) = fold (tab_upsert key merge) rs rows"
proof -
  have "key ` set rs \<subseteq> key ` set (fold (tab_upsert key merge) rs rows)" by (simp add: keys_all_written)
  from present_rows_are_merged [OF this] show ?thesis
    by (simp, intro map_idI) (auto split: option.split dest: last_write_decides)
qed

end

text \<open>A table that only grows, where a row that is present stays present.\<close>

locale growing_table =
  fixes present :: "'r \<Rightarrow> 'r list \<Rightarrow> bool"
  assumes present_stays: "present r rows \<Longrightarrow> present r (rows @ [x])"
    and present_new: "present r (rows @ [r])"
begin

definition grow :: "'r \<Rightarrow> 'r list \<Rightarrow> 'r list" where
  "grow r rows = (if present r rows then rows else rows @ [r])"

lemma present_grow: "present r (grow r rows)"
  by (simp add: grow_def present_new)

lemma present_fold: "present r rows \<Longrightarrow> present r (fold grow rs rows)"
  by (induction rs arbitrary: rows) (simp_all add: grow_def present_stays)

lemma all_present: "r \<in> set rs \<Longrightarrow> present r (fold grow rs rows)"
  by (induction rs arbitrary: rows) (auto simp: present_fold present_grow)

lemma fold_present: "(\<And>r. r \<in> set rs \<Longrightarrow> present r rows) \<Longrightarrow> fold grow rs rows = rows"
  by (induction rs) (simp_all add: grow_def)

lemma grown_twice: "fold grow rs (fold grow rs rows) = fold grow rs rows"
  by (rule fold_present) (rule all_present)

end

interpretation keyed_rows: merging_table kr_key merge_replace
  by unfold_locales (simp_all add: merge_replace_def)

interpretation dida_rows: merging_table dr_token_hash merge_replace
  by unfold_locales (simp_all add: merge_replace_def)

interpretation limit_rows: merging_table limit_key merge_replace
  by unfold_locales (simp_all add: merge_replace_def)

interpretation credential_rows: merging_table cr_name merge_legacy_credential
  by unfold_locales (simp_all add: merge_legacy_credential_def)

interpretation login_rows: merging_table lw_platform merge_legacy_login
  by unfold_locales (simp_all add: merge_legacy_login_def)

interpretation sync_rows: merging_table ls_id merge_legacy_sync
  by unfold_locales (simp_all add: merge_legacy_sync_def)

interpretation subscription_rows: merging_table lu_id merge_legacy_subscription
  by unfold_locales (simp_all add: merge_legacy_subscription_def)

interpretation event_rows: growing_table "\<lambda>r rows. event_key r \<in> event_key ` set rows"
  by unfold_locales auto

interpretation letter_rows: growing_table "\<lambda>r rows. tr_job_id r \<in> tr_job_id ` set rows"
  by unfold_locales auto

interpretation job_rows: growing_table
  "\<lambda>r rows. nr_dedupe_key r \<in> nr_dedupe_key ` set rows \<or> nr_job_id r \<in> nr_job_id ` set rows"
  by unfold_locales auto

section \<open>Statements that run twice\<close>

text \<open>What the import writes apart from the marks of the jobs that were published.\<close>

definition is_mark_key :: "string \<Rightarrow> bool" where
  "is_mark_key k = (take 18 k = ''migration:pending:'')"

fun plain_statement :: "legacy_statement \<Rightarrow> bool" where
  "plain_statement (Put_State r) = (\<not> is_mark_key (kr_key r))"
| "plain_statement (Add_Mark r) = False"
| "plain_statement _ = True"

lemma run_all_append: "run_all (ss @ ts) db = Option.bind (run_all ss db) (run_all ts)"
  proof (induction ss arbitrary: db)
  case (Cons s ss)
  then show ?case by (cases "run_statement s db") simp_all
qed simp

lemma run_all_table:
  assumes step: "\<And>s db db'. s \<in> set ss \<Longrightarrow> run_statement s db = Some db'
      \<Longrightarrow> T db' = (case sel s of None \<Rightarrow> T db | Some r \<Rightarrow> put r (T db))"
    and "run_all ss db = Some db'"
  shows "T db' = fold put (List.map_filter sel ss) (T db)"
  using assms
proof (induction ss arbitrary: db)
  case (Cons s ss)
  from Cons.prems(2) obtain d where d: "run_statement s db = Some d" "run_all ss d = Some db'"
    by (auto simp: bind_eq_Some_conv)
  have "T db' = fold put (List.map_filter sel ss) (T d)"
    using Cons.IH d(2) Cons.prems(1) by (metis list.set_intros(2))
  then show ?case
    using Cons.prems(1) [OF _ d(1)] by (auto simp: map_filter_simps split: option.split)
qed (simp add: map_filter_simps)

lemma table_settles:
  assumes "\<And>s db db'. s \<in> set ss \<Longrightarrow> run_statement s db = Some db'
      \<Longrightarrow> T db' = (case sel s of None \<Rightarrow> T db | Some r \<Rightarrow> put r (T db))"
    and "\<And>rs rows. fold put rs (fold put rs rows) = fold put rs rows"
    and "run_all ss db = Some d1" and "run_all ss d1 = Some d2"
  shows "T d2 = T d1"
  using run_all_table [of ss T put sel, OF assms(1,3)] run_all_table [of ss T put sel, OF assms(1,4)]
  by (simp add: assms(2))

lemma done_jobs_are_present:
  assumes "run_all ss db = Some d" and "Add_Done r \<in> set ss"
  shows "nr_dedupe_key r \<in> nr_dedupe_key ` set (lg_jobs d)"
proof -
  have grows: "nr_dedupe_key ` set (lg_jobs db) \<subseteq> nr_dedupe_key ` set (lg_jobs d)"
    if "run_all ss db = Some d" for ss db
    using that
  proof (induction ss arbitrary: db)
    case (Cons s ss)
    then obtain e where e: "run_statement s db = Some e" "run_all ss e = Some d"
      by (auto simp: bind_eq_Some_conv)
    then have "nr_dedupe_key ` set (lg_jobs db) \<subseteq> nr_dedupe_key ` set (lg_jobs e)"
      by (cases s) (auto simp: tab_insert_def split: if_splits)
    with Cons.IH [OF e(2)] show ?case by blast
  qed simp
  from split_list [OF assms(2)] obtain p q where ss: "ss = p @ Add_Done r # q" by blast
  with assms(1) obtain e f where "run_statement (Add_Done r) e = Some f" "run_all q f = Some d"
    by (auto simp: run_all_append bind_eq_Some_conv simp del: run_statement.simps)
  then show ?thesis
    using grows [of q f] by (auto simp: tab_insert_def split: if_splits)
qed

lemma present_jobs_never_fail:
  assumes "\<And>r. Add_Done r \<in> set ss \<Longrightarrow> nr_dedupe_key r \<in> nr_dedupe_key ` set (lg_jobs db)"
  shows "\<exists>d. run_all ss db = Some d"
  using assms
proof (induction ss arbitrary: db)
  case (Cons s ss)
  obtain e where e: "run_statement s db = Some e" "lg_jobs e = lg_jobs db"
    using Cons.prems by (cases s) auto
  then have "\<exists>d. run_all ss e = Some d"
    using Cons.prems by (intro Cons.IH) simp
  with e show ?case by simp
qed simp

lemmas grow_defs = event_rows.grow_def letter_rows.grow_def job_rows.grow_def

lemma run_statement_grows:
  "run_statement (Add_Event r) db = Some (db\<lparr>lg_events := event_rows.grow r (lg_events db)\<rparr>)"
  "run_statement (Add_Letter l) db = Some (db\<lparr>lg_letters := letter_rows.grow l (lg_letters db)\<rparr>)"
  "run_statement (Add_Done j) db = Some d \<longleftrightarrow>
     (nr_dedupe_key j \<in> nr_dedupe_key ` set (lg_jobs db) \<or> nr_job_id j \<notin> nr_job_id ` set (lg_jobs db))
     \<and> d = db\<lparr>lg_jobs := job_rows.grow j (lg_jobs db)\<rparr>"
  by (auto simp: grow_defs tab_insert_ignore_def tab_insert_def split: if_splits)

lemma table_steps:
  assumes "run_statement s db = Some d"
  shows "lg_offsets d = (case (case s of Put_Offset r \<Rightarrow> Some r | _ \<Rightarrow> None) of
      None \<Rightarrow> lg_offsets db | Some r \<Rightarrow> tab_upsert kr_key merge_replace r (lg_offsets db))"
    and "lg_dida d = (case (case s of Put_Dida r \<Rightarrow> Some r | _ \<Rightarrow> None) of
      None \<Rightarrow> lg_dida db | Some r \<Rightarrow> tab_upsert dr_token_hash merge_replace r (lg_dida db))"
    and "lg_baselines d = (case (case s of Put_Baseline r \<Rightarrow> Some r | _ \<Rightarrow> None) of
      None \<Rightarrow> lg_baselines db | Some r \<Rightarrow> tab_upsert kr_key merge_replace r (lg_baselines db))"
    and "lg_credentials d = (case (case s of Put_Credential r \<Rightarrow> Some r | _ \<Rightarrow> None) of
      None \<Rightarrow> lg_credentials db | Some r \<Rightarrow> tab_upsert cr_name merge_legacy_credential r (lg_credentials db))"
    and "lg_logins d = (case (case s of Put_Login r \<Rightarrow> Some r | _ \<Rightarrow> None) of
      None \<Rightarrow> lg_logins db | Some r \<Rightarrow> tab_upsert lw_platform merge_legacy_login r (lg_logins db))"
    and "lg_syncs d = (case (case s of Put_Sync r \<Rightarrow> Some r | _ \<Rightarrow> None) of
      None \<Rightarrow> lg_syncs db | Some r \<Rightarrow> tab_upsert ls_id merge_legacy_sync r (lg_syncs db))"
    and "lg_subscriptions d = (case (case s of Put_Subscription r \<Rightarrow> Some r | _ \<Rightarrow> None) of
      None \<Rightarrow> lg_subscriptions db | Some r \<Rightarrow> tab_upsert lu_id merge_legacy_subscription r (lg_subscriptions db))"
    and "lg_limits d = (case (case s of Put_Limit r \<Rightarrow> Some r | _ \<Rightarrow> None) of
      None \<Rightarrow> lg_limits db | Some r \<Rightarrow> tab_upsert limit_key merge_replace r (lg_limits db))"
    and "lg_events d = (case (case s of Add_Event r \<Rightarrow> Some r | _ \<Rightarrow> None) of
      None \<Rightarrow> lg_events db | Some r \<Rightarrow> event_rows.grow r (lg_events db))"
    and "lg_letters d = (case (case s of Add_Letter r \<Rightarrow> Some r | _ \<Rightarrow> None) of
      None \<Rightarrow> lg_letters db | Some r \<Rightarrow> letter_rows.grow r (lg_letters db))"
    and "lg_jobs d = (case (case s of Add_Done r \<Rightarrow> Some r | _ \<Rightarrow> None) of
      None \<Rightarrow> lg_jobs db | Some r \<Rightarrow> job_rows.grow r (lg_jobs db))"
    and "lg_inbox d = lg_inbox db"
  using assms
  by (cases s; simp add: run_statement_grows del: run_statement.simps(8,10,11); clarsimp)+

lemma state_step:
  assumes "run_statement s db = Some d" and "plain_statement s"
  shows "lg_state d = (case (case s of Put_State r \<Rightarrow> Some r | _ \<Rightarrow> None) of
      None \<Rightarrow> lg_state db | Some r \<Rightarrow> tab_upsert kr_key merge_replace r (lg_state db))"
  using assms
  by (cases s; simp add: run_statement_grows del: run_statement.simps(8,10,11); clarsimp)

lemma inbox_stays: "run_all ss db = Some d \<Longrightarrow> lg_inbox d = lg_inbox db"
  by (induction ss arbitrary: db) (auto simp: bind_eq_Some_conv dest: table_steps(12))

text \<open>The statements of the import leave what they left the first time.\<close>

lemma settled_tables:
  assumes plain: "\<forall>s\<in>set ss. plain_statement s" and ss: "run_all ss db = Some d1" "run_all ss d1 = Some d2"
  shows "d2 = d1"
proof -
  have "lg_offsets d2 = lg_offsets d1"
    by (rule table_settles [OF table_steps(1) keyed_rows.written_twice ss])
  moreover have "lg_dida d2 = lg_dida d1"
    by (rule table_settles [OF table_steps(2) dida_rows.written_twice ss])
  moreover have "lg_baselines d2 = lg_baselines d1"
    by (rule table_settles [OF table_steps(3) keyed_rows.written_twice ss])
  moreover have "lg_credentials d2 = lg_credentials d1"
    by (rule table_settles [OF table_steps(4) credential_rows.written_twice ss])
  moreover have "lg_logins d2 = lg_logins d1"
    by (rule table_settles [OF table_steps(5) login_rows.written_twice ss])
  moreover have "lg_syncs d2 = lg_syncs d1"
    by (rule table_settles [OF table_steps(6) sync_rows.written_twice ss])
  moreover have "lg_subscriptions d2 = lg_subscriptions d1"
    by (rule table_settles [OF table_steps(7) subscription_rows.written_twice ss])
  moreover have "lg_limits d2 = lg_limits d1"
    by (rule table_settles [OF table_steps(8) limit_rows.written_twice ss])
  moreover have "lg_events d2 = lg_events d1"
    by (rule table_settles [OF table_steps(9) event_rows.grown_twice ss])
  moreover have "lg_letters d2 = lg_letters d1"
    by (rule table_settles [OF table_steps(10) letter_rows.grown_twice ss])
  moreover have "lg_jobs d2 = lg_jobs d1"
    by (rule table_settles [OF table_steps(11) job_rows.grown_twice ss])
  moreover have "lg_state d2 = lg_state d1"
    using plain by (intro table_settles [OF state_step keyed_rows.written_twice ss]) auto
  moreover have "lg_inbox d2 = lg_inbox d1" by (rule inbox_stays [OF ss(2)])
  ultimately show ?thesis by simp
qed

lemma run_all_twice:
  assumes "\<forall>s\<in>set ss. plain_statement s" and "run_all ss db = Some d"
  shows "run_all ss d = Some d"
  using present_jobs_never_fail [of ss d] done_jobs_are_present [OF assms(2)] settled_tables [OF assms]
  by blast

text \<open>An import that stopped after some of its statements starts over.\<close>

lemma run_all_starts_over:
  assumes "\<forall>s\<in>set (p @ q). plain_statement s" and "run_all p db = Some d"
  shows "run_all (p @ q) d = run_all (p @ q) db"
  using run_all_twice [of p db d] assms by (simp add: run_all_append)

section \<open>What does not depend on the initialisation vectors\<close>

definition unsealed_credential :: "credential_row \<Rightarrow> credential_row" where
  "unsealed_credential r = r\<lparr>cr_payload_encrypted := []\<rparr>"

definition unsealed_login :: "login_row \<Rightarrow> login_row" where
  "unsealed_login r = r\<lparr>lw_storage_state_encrypted := []\<rparr>"

fun unsealed_statement :: "legacy_statement \<Rightarrow> legacy_statement" where
  "unsealed_statement (Put_Credential r) = Put_Credential (unsealed_credential r)"
| "unsealed_statement (Put_Login r) = Put_Login (unsealed_login r)"
| "unsealed_statement s = s"

text \<open>The contents of the database without the ciphertexts and without the marks of published jobs.\<close>

definition settled :: "legacy_db \<Rightarrow> legacy_db" where
  "settled db = db\<lparr>lg_credentials := map unsealed_credential (lg_credentials db),
     lg_logins := map unsealed_login (lg_logins db),
     lg_state := filter (\<lambda>r. \<not> is_mark_key (kr_key r)) (lg_state db)\<rparr>"

lemma map_upsert:
  assumes "\<And>r. key (f r) = key r" and "\<And>a b. f (merge a b) = merge (f a) (f b)"
  shows "map f (tab_upsert key merge r rows) = tab_upsert key merge (f r) (map f rows)"
proof -
  have "key ` set (map f rows) = key ` set rows" using assms(1) by (simp add: image_image)
  then show ?thesis using assms by (simp add: tab_upsert_def tab_update_def)
qed

lemma filter_upsert:
  assumes "P (key r)"
  shows "filter (\<lambda>r. P (key r)) (tab_upsert key merge_replace r rows)
    = tab_upsert key merge_replace r (filter (\<lambda>r. P (key r)) rows)"
proof -
  have "key r \<in> key ` set (filter (\<lambda>r. P (key r)) rows) \<longleftrightarrow> key r \<in> key ` set rows"
    using assms by force
  moreover have "filter (\<lambda>r. P (key r)) (tab_update (\<lambda>x. key x = key r) (\<lambda>_. r) rows)
      = tab_update (\<lambda>x. key x = key r) (\<lambda>_. r) (filter (\<lambda>r. P (key r)) rows)"
    using assms by (induction rows) auto
  ultimately show ?thesis using assms by (simp add: tab_upsert_def merge_replace_def)
qed

lemma filter_insert_ignore:
  "\<not> P r \<Longrightarrow> filter P (tab_insert_ignore key r rows) = filter P rows"
  by (simp add: tab_insert_ignore_def)

lemma unsealed_upserts:
  "map unsealed_credential (tab_upsert cr_name merge_legacy_credential c rows)
    = tab_upsert cr_name merge_legacy_credential (unsealed_credential c) (map unsealed_credential rows)"
  "map unsealed_login (tab_upsert lw_platform merge_legacy_login l rows')
    = tab_upsert lw_platform merge_legacy_login (unsealed_login l) (map unsealed_login rows')"
  by (rule map_upsert; simp add: unsealed_credential_def unsealed_login_def merge_legacy_credential_def
      merge_legacy_login_def)+

lemma run_settled:
  assumes "plain_statement s"
  shows "run_statement (unsealed_statement s) (settled db) = map_option settled (run_statement s db)"
  using assms
  by (cases s) (simp_all add: settled_def unsealed_upserts tab_insert_def
      filter_upsert [where key = kr_key and P = "\<lambda>k. \<not> is_mark_key k"])

lemma run_all_settled:
  assumes "\<forall>s\<in>set ss. plain_statement s"
  shows "run_all (map unsealed_statement ss) (settled db) = map_option settled (run_all ss db)"
  using assms
proof (induction ss arbitrary: db)
  case (Cons s ss)
  then show ?case by (cases "run_statement s db") (simp_all add: run_settled)
qed simp

lemma plain_unsealed: "plain_statement s \<Longrightarrow> plain_statement (unsealed_statement s)"
  by (cases s) simp_all

lemma encrypt_unknown_key:
  "(\<exists>c. encrypt_unknown ctx k v = Inr c) \<longleftrightarrow> (\<exists>key. import_key (mc_vault ctx) (mc_encryption_key ctx) = Inr key)"
  by (auto simp: encrypt_unknown_def encrypt_json_def import_key_def Let_def
      split: option.splits sum.splits if_splits)

lemma credential_statements_unsealed:
  assumes "credential_statements ctx t k rs = Inr ss"
  shows "map unsealed_statement ss = map (\<lambda>r. Put_Credential \<lparr>cr_name = lc_name r,
      cr_platform = lc_platform r, cr_kind = lc_kind r, cr_payload_encrypted = [], cr_created_at = t,
      cr_updated_at = t\<rparr>) rs \<and> (\<forall>s\<in>set ss. plain_statement s)"
  using assms by (induction rs arbitrary: k ss) (auto simp: unsealed_credential_def split: sum.splits)

lemma login_statements_unsealed:
  assumes "login_statements ctx t k rs = Inr ss"
  shows "map unsealed_statement ss = map (\<lambda>r. Put_Login \<lparr>lw_platform = ll_platform r,
      lw_storage_state_encrypted = [], lw_status = ll_status r, lw_expires_at = ll_expires_at r,
      lw_last_used_at = ll_last_used_at r, lw_last_error = ll_last_error r, lw_created_at = t,
      lw_updated_at = t\<rparr>) rs \<and> (\<forall>s\<in>set ss. plain_statement s)"
  using assms by (induction rs arbitrary: k ss) (auto simp: unsealed_login_def split: sum.splits)

lemma plain_rows:
  "s \<in> set (offset_statements t a) \<Longrightarrow> plain_statement s \<and> unsealed_statement s = s"
  "s \<in> set (dida_statements t b) \<Longrightarrow> plain_statement s \<and> unsealed_statement s = s"
  "s \<in> set (baseline_statements t c) \<Longrightarrow> plain_statement s \<and> unsealed_statement s = s"
  "plain_statement (done_statement d) \<and> unsealed_statement (done_statement d) = done_statement d"
  "plain_statement (letter_statement e) \<and> unsealed_statement (letter_statement e) = letter_statement e"
  "plain_statement (limit_statement t f) \<and> unsealed_statement (limit_statement t f) = limit_statement t f"
  by (auto simp: offset_statements_def dida_statements_def baseline_statements_def done_statement_def
      letter_statement_def limit_statement_def Let_def is_mark_key_def)

lemma unsealed_same: "(\<And>s. s \<in> set ss \<Longrightarrow> unsealed_statement s = s) \<Longrightarrow> map unsealed_statement ss = ss"
  by (simp add: map_idI)

lemma snapshot_statements_plain:
  assumes "snapshot_statements ctx sn = Inr ss"
  shows "\<forall>s\<in>set ss. plain_statement s"
  using assms
  by (auto simp: snapshot_statements_def Let_def plain_rows split: sum.splits
      dest!: credential_statements_unsealed login_statements_unsealed dest: plain_rows(1-3))

lemma snapshot_statements_same:
  assumes "snapshot_statements ctx sn = Inr ss" and "snapshot_statements ctx' sn = Inr ss'"
  shows "map unsealed_statement ss = map unsealed_statement ss'"
  using assms
  by (auto simp: snapshot_statements_def Let_def split: sum.splits
      dest!: credential_statements_unsealed login_statements_unsealed)

section \<open>Batches and faults\<close>

lemma batch_statements_result:
  "batch_statements ss w = (w', r) \<Longrightarrow>
     \<exists>p q. ss = p @ q \<and> run_all p (mw_db w) = Some (mw_db w') \<and> mw_sent w' = mw_sent w
       \<and> (r = Inr () \<longrightarrow> q = [])"
proof (induction ss arbitrary: w rule: batch_statements.induct)
  case (1 ss)
  show ?case
  proof (cases "ss = []")
    case True
    then show ?thesis using "1.prems" by (simp add: batch_statements.simps [of "[]"] ret_def)
  next
    case False
    obtain v b where v: "d1_batch (take 100 ss) w = (v, b)" by fastforce
    have sent: "mw_sent v = mw_sent w"
      using v by (auto simp: d1_batch_def after_fault_def split: option.splits pg_fault.splits)
    have res: "batch_statements ss w = and_then (\<lambda>w. (v, b)) (\<lambda>_. batch_statements (drop 100 ss)) w"
      using False v by (subst batch_statements.simps) (simp add: and_then_def)
    show ?thesis
    proof (cases b)
      case (Inl e)
      then have "w' = v" "r = Inl e" using res "1.prems" by (simp_all add: and_then_def)
      moreover have "mw_db v = mw_db w \<or> run_all (take 100 ss) (mw_db w) = Some (mw_db v)"
        using v by (auto simp: d1_batch_def after_fault_def split: option.splits pg_fault.splits)
      moreover have "ss = [] @ ss" "ss = take 100 ss @ drop 100 ss" "run_all [] (mw_db w) = Some (mw_db w)"
        by simp_all
      ultimately show ?thesis using sent by (metis Inl_Inr_False)
    next
      case (Inr u)
      then have "run_all (take 100 ss) (mw_db w) = Some (mw_db v)"
        using v by (auto simp: d1_batch_def split: option.splits pg_fault.splits)
      moreover have "batch_statements (drop 100 ss) v = (w', r)"
        using res "1.prems" Inr by (simp add: and_then_def)
      from "1.IH" [OF False this] obtain p q where "drop 100 ss = p @ q"
        "run_all p (mw_db v) = Some (mw_db w')" "mw_sent w' = mw_sent v" "r = Inr () \<longrightarrow> q = []"
        by blast
      ultimately have "ss = (take 100 ss @ p) @ q" "run_all (take 100 ss @ p) (mw_db w) = Some (mw_db w')"
        "r = Inr () \<longrightarrow> q = []"
        by (simp_all add: run_all_append) (metis append_take_drop_id)
      then show ?thesis using sent \<open>mw_sent w' = mw_sent v\<close> by metis
    qed
  qed
qed

lemma batch_statements_calm:
  assumes "mw_faults w = []" and "run_all ss (mw_db w) = Some db"
  shows "batch_statements ss w = (w\<lparr>mw_db := db\<rparr>, Inr ())"
  using assms
proof (induction ss arbitrary: w rule: batch_statements.induct)
  case (1 ss)
  show ?case
  proof (cases "ss = []")
    case True
    then show ?thesis using 1 by (simp add: batch_statements.simps [of "[]"] ret_def)
  next
    case False
    have "run_all (take 100 ss @ drop 100 ss) (mw_db w) = Some db" using "1.prems" by simp
    then obtain d where d: "run_all (take 100 ss) (mw_db w) = Some d" "run_all (drop 100 ss) d = Some db"
      unfolding run_all_append by (auto simp: bind_eq_Some_conv)
    then have "d1_batch (take 100 ss) w = (w\<lparr>mw_db := d\<rparr>, Inr ())"
      using "1.prems" by (simp add: d1_batch_def next_fault_def after_fault_def)
    moreover have "batch_statements (drop 100 ss) (w\<lparr>mw_db := d\<rparr>) = (w\<lparr>mw_db := db\<rparr>, Inr ())"
      using "1.IH" [OF False, of "w\<lparr>mw_db := d\<rparr>"] d "1.prems" by simp
    ultimately show ?thesis using False by (subst batch_statements.simps) (simp add: and_then_def)
  qed
qed

section \<open>The pending jobs\<close>

lemma after_no_fault: "mw_faults w = [] \<Longrightarrow> after_fault w = w \<and> next_fault w = No_Fault"
  by (cases w) (simp add: after_fault_def next_fault_def)

lemma pending_marked_key: "pending_marked db job \<longleftrightarrow> pending_key job \<in> kr_key ` set (lg_state db)"
  by (auto simp: pending_marked_def tab_first_None image_iff) metis

lemma pending_is_mark: "is_mark_key (pending_key job)"
  by (simp add: is_mark_key_def pending_key_def)

lemma find_pending_result:
  "find_pending jobs w = (w', r) \<Longrightarrow> mw_db w' = mw_db w \<and> mw_sent w' = mw_sent w
     \<and> (\<forall>js. r = Inr js \<longrightarrow> js = filter (\<lambda>j. \<not> pending_marked (mw_db w) j) jobs)"
proof (induction jobs arbitrary: w w' r)
  case (Cons job jobs)
  have fault: "mw_db (after_fault w) = mw_db w" "mw_sent (after_fault w) = mw_sent w"
    by (simp_all add: after_fault_def)
  show ?case
  proof (cases "next_fault w = No_Fault")
    case True
    obtain v s where v: "find_pending jobs (after_fault w) = (v, s)" by fastforce
    then show ?thesis using Cons.IH [OF v] Cons.prems True fault
      by (auto simp: and_then_def d1_read_def ret_def split: sum.splits)
  qed (use Cons.prems fault in \<open>auto simp: and_then_def d1_read_def\<close>)
qed (simp add: ret_def)

lemma find_pending_calm:
  "mw_faults w = [] \<Longrightarrow> find_pending jobs w = (w, Inr (filter (\<lambda>j. \<not> pending_marked (mw_db w) j) jobs))"
  by (induction jobs) (simp_all add: ret_def and_then_def d1_read_def after_no_fault)

lemma marks_only_mark:
  "run_all (map (pending_mark t) js) db = Some d \<Longrightarrow>
     settled d = settled db \<and> lg_jobs d = lg_jobs db
     \<and> kr_key ` set (lg_state d) = kr_key ` set (lg_state db) \<union> pending_key ` set js"
proof (induction js arbitrary: db)
  case (Cons j js)
  let ?db = "db\<lparr>lg_state := tab_insert_ignore kr_key
    \<lparr>kr_key = pending_key j, kr_value = JObj [], kr_updated_at = t\<rparr> (lg_state db)\<rparr>"
  have "run_all (map (pending_mark t) js) ?db = Some d"
    using Cons.prems by (simp add: pending_mark_def [of t j])
  moreover have "settled ?db = settled db"
    by (simp add: settled_def filter_insert_ignore pending_is_mark)
  ultimately show ?case using Cons.IH [of ?db] by (auto simp: set_tab_insert_ignore split: if_splits)
qed simp

lemma marks_never_fail: "\<exists>d. run_all (map (pending_mark t) js) db = Some d"
  by (rule present_jobs_never_fail) (auto simp: pending_mark_def)

lemma plain_leaves_marks:
  assumes "\<forall>s\<in>set ss. plain_statement s" and "run_all ss db = Some d"
  shows "pending_marked d job = pending_marked db job"
  using assms
proof (induction ss arbitrary: db)
  case (Cons s ss)
  then obtain e where e: "run_statement s db = Some e" "run_all ss e = Some d"
    by (auto simp: bind_eq_Some_conv)
  have "pending_marked e job = pending_marked db job"
  proof (cases s)
    case (Put_State r)
    with Cons.prems(1) have "kr_key r \<noteq> pending_key job" using pending_is_mark by auto
    moreover have "kr_key ` set (lg_state e) = insert (kr_key r) (kr_key ` set (lg_state db))"
      using Put_State e(1) keyed_rows.keys_written [of r "lg_state db"] by auto
    ultimately show ?thesis by (metis insert_iff pending_marked_key)
  qed (use Cons.prems(1) state_step [OF e(1)] in \<open>simp_all add: pending_marked_key\<close>)
  with Cons.IH [OF _ e(2)] Cons.prems(1) show ?case by simp
qed simp

lemma whole_input_is_sent:
  assumes "send_batch fmt len accepts (map json_of_job jobs) = (sent, None)" and "\<forall>j\<in>set jobs. job_ok fmt j"
  shows "concat sent = jobs"
proof -
  obtain ms where ms: "measure_messages fmt len (map json_of_job jobs) = Inr ms"
    "send_batches accepts (cut_batches ms [] 0) = (sent, None)"
    using assms(1) by (auto simp: send_batch_def split: sum.splits)
  then have "concat sent = map fst ms"
    using send_batches_prefix [OF ms(2)] concat_cut_batches [of ms "[]" 0] by auto
  moreover have "map Some jobs = map Some (map fst ms)"
    using measure_messages_jobs [OF ms(1)] assms(2) by (simp add: parse_json_of_job cong: map_cong)
  ultimately show ?thesis by (metis inj_Some list.inj_map inj_eq)
qed

text \<open>What a call leaves, whether it returned or threw, and what it says when it returned.\<close>

lemma producer_batch_result:
  "producer_batch ctx jobs w = (w', r) \<Longrightarrow> mw_db w' = mw_db w \<and> mw_faults w' = mw_faults w
     \<and> (\<exists>sent. mw_sent w' = mw_sent w @ sent
          \<and> (r = Inr () \<and> (\<forall>j\<in>set jobs. job_ok (mc_formats ctx) j) \<longrightarrow> concat sent = jobs))"
  by (auto simp: producer_batch_def split: prod.splits option.splits intro: whole_input_is_sent)

lemma publish_pending_result:
  assumes "publish_pending_once ctx jobs t w = (w', r)"
  shows "settled (mw_db w') = settled (mw_db w)" and "lg_jobs (mw_db w') = lg_jobs (mw_db w)"
    and "kr_key ` set (lg_state (mw_db w)) \<subseteq> kr_key ` set (lg_state (mw_db w'))"
    and "\<exists>sent. mw_sent w' = mw_sent w @ sent
      \<and> (\<forall>n. r = Inr n \<longrightarrow> (\<forall>j\<in>set jobs. pending_marked (mw_db w') j)
           \<and> ((\<forall>j\<in>set jobs. job_ok (mc_formats ctx) j)
              \<longrightarrow> concat sent = filter (\<lambda>j. \<not> pending_marked (mw_db w) j) jobs))"
proof -
  obtain v s where v: "find_pending jobs w = (v, s)" by fastforce
  note f = find_pending_result [OF v]
  have "settled (mw_db w') = settled (mw_db w) \<and> lg_jobs (mw_db w') = lg_jobs (mw_db w)
    \<and> kr_key ` set (lg_state (mw_db w)) \<subseteq> kr_key ` set (lg_state (mw_db w'))
    \<and> (\<exists>sent. mw_sent w' = mw_sent w @ sent
      \<and> (\<forall>n. r = Inr n \<longrightarrow> (\<forall>j\<in>set jobs. pending_marked (mw_db w') j)
           \<and> ((\<forall>j\<in>set jobs. job_ok (mc_formats ctx) j)
              \<longrightarrow> concat sent = filter (\<lambda>j. \<not> pending_marked (mw_db w) j) jobs)))"
  proof (cases s)
    case (Inl e)
    with assms v f show ?thesis by (simp add: publish_pending_once_def and_then_def) blast
  next
    case (Inr js)
    note js = f [unfolded Inr, simplified]
    show ?thesis
    proof (cases "js = []")
      case True
      with assms v Inr have "w' = v" by (simp add: publish_pending_once_def and_then_def ret_def)
      moreover have "filter (\<lambda>j. \<not> pending_marked (mw_db w) j) jobs = []" using js True by simp
      ultimately show ?thesis using js by (auto simp: filter_empty_conv)
    next
      case False
      obtain u b where u: "producer_batch ctx js v = (u, b)" by fastforce
      from producer_batch_result [OF u] obtain sent where sent: "mw_db u = mw_db v"
        "mw_sent u = mw_sent v @ sent"
        "b = Inr () \<Longrightarrow> \<forall>j\<in>set js. job_ok (mc_formats ctx) j \<Longrightarrow> concat sent = js" by blast
      show ?thesis
      proof (cases b)
        case (Inl e)
        with assms v Inr u False have "w' = u \<and> r = Inl e"
          by (simp add: publish_pending_once_def and_then_def)
        with sent js show ?thesis by auto
      next
        case b: (Inr x)
        obtain z c where z: "batch_statements (map (pending_mark t) js) u = (z, c)" by fastforce
        have wz: "w' = z" and rc: "r = Inr n \<Longrightarrow> c = Inr ()" for n
          using assms v Inr u b z False
          by (auto simp: publish_pending_once_def and_then_def ret_def split: sum.splits)
        from batch_statements_result [OF z] obtain p q where pq: "map (pending_mark t) js = p @ q"
          "run_all p (mw_db u) = Some (mw_db z)" "mw_sent z = mw_sent u" "c = Inr () \<Longrightarrow> q = []" by blast
        from pq(1) obtain p' q' where p': "js = p' @ q'" "p = map (pending_mark t) p'" "q = map (pending_mark t) q'"
          by (auto simp: map_eq_append_conv)
        note m = marks_only_mark [OF pq(2) [unfolded p'(2)]]
        have "\<forall>j\<in>set jobs. pending_marked (mw_db w') j" if "r = Inr n" for n
        proof -
          have "q' = []" using pq(4) rc [OF that] p'(3) by simp
          then have "set js = set p'" using p'(1) by simp
          then show ?thesis
            using m js sent(1) wz by (auto simp: pending_marked_key)
        qed
        moreover have "concat sent = filter (\<lambda>j. \<not> pending_marked (mw_db w) j) jobs"
          if "\<forall>j\<in>set jobs. job_ok (mc_formats ctx) j"
        proof -
          have "concat sent = js" using sent(3) b that js by auto
          then show ?thesis using js by simp
        qed
        ultimately show ?thesis using m js sent pq(3) wz by auto
      qed
    qed
  qed
  then show "settled (mw_db w') = settled (mw_db w)" "lg_jobs (mw_db w') = lg_jobs (mw_db w)"
    "kr_key ` set (lg_state (mw_db w)) \<subseteq> kr_key ` set (lg_state (mw_db w'))"
    "\<exists>sent. mw_sent w' = mw_sent w @ sent
      \<and> (\<forall>n. r = Inr n \<longrightarrow> (\<forall>j\<in>set jobs. pending_marked (mw_db w') j)
           \<and> ((\<forall>j\<in>set jobs. job_ok (mc_formats ctx) j)
              \<longrightarrow> concat sent = filter (\<lambda>j. \<not> pending_marked (mw_db w) j) jobs))"
    by blast+
qed

lemma publish_nothing_calm:
  assumes "mw_faults w = []" and "\<forall>j\<in>set jobs. pending_marked (mw_db w) j"
  shows "publish_pending_once ctx jobs t w = (w, Inr 0)"
proof -
  have "filter (\<lambda>j. \<not> pending_marked (mw_db w) j) jobs = []" using assms(2) by (simp add: filter_empty_conv)
  then show ?thesis
    using find_pending_calm [OF assms(1), of jobs] by (simp add: publish_pending_once_def and_then_def ret_def)
qed

section \<open>The whole import\<close>

lemma count_table_applied:
  "count_table x w = (after_fault w, if next_fault w = No_Fault then Inr (fst x, snd x (mw_db w)) else Inl d1_failed)"
  by (simp add: count_table_def d1_read_def)

lemma collect_reads:
  "collect count_table ts w = (w', r) \<Longrightarrow>
     mw_db w' = mw_db w \<and> mw_sent w' = mw_sent w
     \<and> (\<forall>totals. r = Inr totals \<longrightarrow> totals = map (\<lambda>x. (fst x, snd x (mw_db w))) ts)"
proof (induction ts arbitrary: w w' r)
  case (Cons x ts)
  have fault: "mw_db (after_fault w) = mw_db w" "mw_sent (after_fault w) = mw_sent w"
    by (simp_all add: after_fault_def)
  obtain v s where v: "collect count_table ts (after_fault w) = (v, s)"
    by fastforce
  with Cons.IH [OF v] Cons.prems show ?case
    by (auto simp: and_then_def count_table_applied [of x w] ret_def fault split: if_splits sum.splits)
qed (simp add: ret_def)

lemma collect_reads_calm:
  "mw_faults w = [] \<Longrightarrow> collect count_table ts w
     = (w, Inr (map (\<lambda>x. (fst x, snd x (mw_db w))) ts))"
proof (induction ts)
  case (Cons x ts)
  then show ?case by (simp add: ret_def and_then_def count_table_applied [of x w] after_no_fault)
qed (simp add: ret_def)

text \<open>Whatever becomes of an import, it ran the first of its statements, apart from marks.\<close>

lemma import_runs_a_prefix:
  assumes "import_snapshot ctx input w = (w', r)" and "parse_legacy_snapshot (mc_formats ctx) input = Some sn"
  shows "mw_db w' = mw_db w
    \<or> (\<exists>ss p q d. snapshot_statements ctx sn = Inr ss \<and> ss = p @ q \<and> run_all p (mw_db w) = Some d
         \<and> settled (mw_db w') = settled d)"
proof (cases "snapshot_statements ctx sn")
  case (Inl e)
  with assms show ?thesis by (simp add: import_snapshot_def throw_def)
next
  case (Inr ss)
  obtain v b where v: "batch_statements ss w = (v, b)" by fastforce
  from batch_statements_result [OF v] obtain p q where p: "ss = p @ q"
    "run_all p (mw_db w) = Some (mw_db v)" by blast
  have "settled (mw_db w') = settled (mw_db v)"
  proof (cases b)
    case b: (Inl e)
    with assms v Inr show ?thesis by (simp add: import_snapshot_def and_then_def)
  next
    case b: (Inr x)
    obtain u c where u: "publish_pending_once ctx (sn_pending sn) (sn_exported_at sn) v = (u, c)" by fastforce
    obtain z d where z: "database_counts u = (z, d)" by fastforce
    have "w' = u \<or> w' = z"
      using assms v Inr b u z by (auto simp: import_snapshot_def and_then_def ret_def split: sum.splits)
    moreover have "mw_db z = mw_db u" using collect_reads z by (simp add: database_counts_def)
    ultimately show ?thesis using publish_pending_result(1) [OF u] by auto
  qed
  with p Inr show ?thesis by blast
qed

lemma import_returns:
  assumes "import_snapshot ctx input w = (w', Inr report)"
  obtains sn ss v u n where
    "parse_legacy_snapshot (mc_formats ctx) input = Some sn" "snapshot_statements ctx sn = Inr ss"
    "run_all ss (mw_db w) = Some (mw_db v)" "mw_sent v = mw_sent w"
    "publish_pending_once ctx (sn_pending sn) (sn_exported_at sn) v = (u, Inr n)"
    "mw_db w' = mw_db u" "mw_sent w' = mw_sent u"
    "report = \<lparr>im_imported = snapshot_counts sn, im_published_pending_jobs = n,
       im_totals = map (\<lambda>x. (fst x, snd x (mw_db w'))) counted_tables\<rparr>"
proof -
  obtain sn ss where sn: "parse_legacy_snapshot (mc_formats ctx) input = Some sn"
    and ss: "snapshot_statements ctx sn = Inr ss"
    using assms by (auto simp: import_snapshot_def throw_def split: option.splits sum.splits)
  obtain v where v: "batch_statements ss w = (v, Inr ())"
    using assms sn ss by (auto simp: import_snapshot_def and_then_def split: prod.splits sum.splits)
  obtain u n where u: "publish_pending_once ctx (sn_pending sn) (sn_exported_at sn) v = (u, Inr n)"
    using assms sn ss v by (auto simp: import_snapshot_def and_then_def split: prod.splits sum.splits)
  obtain z c where z: "database_counts u = (z, c)" by fastforce
  from batch_statements_result [OF v] have "run_all ss (mw_db w) = Some (mw_db v)" "mw_sent v = mw_sent w"
    by auto
  moreover have "w' = z" "\<exists>totals. c = Inr totals \<and> report = \<lparr>im_imported = snapshot_counts sn,
      im_published_pending_jobs = n, im_totals = totals\<rparr>"
    using assms sn ss v u z by (auto simp: import_snapshot_def and_then_def ret_def split: sum.splits)
  moreover note collect_reads [OF z [unfolded database_counts_def]]
  ultimately show ?thesis using that [OF sn ss _ _ u] by auto
qed

lemma import_settles:
  assumes "import_snapshot ctx input w = (w', Inr report)"
    and "parse_legacy_snapshot (mc_formats ctx) input = Some sn" and "snapshot_statements ctx' sn = Inr ss"
  shows "run_all (map unsealed_statement ss) (settled (mw_db w)) = Some (settled (mw_db w'))"
proof -
  from import_returns [OF assms(1)] assms(2) obtain ts v u n where
    ts: "snapshot_statements ctx sn = Inr ts" "run_all ts (mw_db w) = Some (mw_db v)"
    "publish_pending_once ctx (sn_pending sn) (sn_exported_at sn) v = (u, Inr n)" "mw_db w' = mw_db u"
    by (metis option.inject)
  then have "settled (mw_db w') = settled (mw_db v)" using publish_pending_result(1) by simp
  then show ?thesis
    using run_all_settled [OF snapshot_statements_plain [OF ts(1)], of "mw_db w"] ts
    by (simp add: snapshot_statements_same [OF assms(3) ts(1)])
qed

lemma encrypt_other_iv:
  "encrypt_unknown ctx k v = Inr c \<Longrightarrow> \<exists>c'. encrypt_unknown (ctx\<lparr>mc_iv := iv\<rparr>) k v = Inr c'"
  using encrypt_unknown_key [of ctx k v] encrypt_unknown_key [of "ctx\<lparr>mc_iv := iv\<rparr>" k v] by auto

lemma statements_other_iv:
  assumes "snapshot_statements ctx sn = Inr ss"
  shows "\<exists>ss'. snapshot_statements (ctx\<lparr>mc_iv := iv\<rparr>) sn = Inr ss'"
proof -
  have "\<exists>ss'. credential_statements (ctx\<lparr>mc_iv := iv\<rparr>) t k rs = Inr ss'"
    if "credential_statements ctx t k rs = Inr cs" for t k rs cs
    using that
  proof (induction rs arbitrary: k cs)
    case (Cons r rs)
    then obtain c cs' where "encrypt_unknown ctx k (lc_payload r) = Inr c"
      "credential_statements ctx t (Suc k) rs = Inr cs'" by (auto split: sum.splits)
    with Cons.IH encrypt_other_iv [of ctx k "lc_payload r" c iv] show ?case by fastforce
  qed simp
  moreover have "\<exists>ss'. login_statements (ctx\<lparr>mc_iv := iv\<rparr>) t k rs = Inr ss'"
    if "login_statements ctx t k rs = Inr cs" for t k rs cs
    using that
  proof (induction rs arbitrary: k cs)
    case (Cons r rs)
    then obtain c cs' where "encrypt_unknown ctx k (ll_state r) = Inr c"
      "login_statements ctx t (Suc k) rs = Inr cs'" by (auto split: sum.splits)
    with Cons.IH encrypt_other_iv [of ctx k "ll_state r" c iv] show ?case by fastforce
  qed simp
  ultimately show ?thesis
    using assms by (fastforce simp: snapshot_statements_def Let_def split: sum.splits)
qed

text \<open>The second import of the same snapshot finds every key of the state store.\<close>

definition state_rows :: "legacy_statement list \<Rightarrow> json keyed_row list" where
  "state_rows = List.map_filter (\<lambda>s. case s of Put_State r \<Rightarrow> Some r | _ \<Rightarrow> None)"

lemma state_rows_unsealed: "state_rows (map unsealed_statement ss) = state_rows ss"
proof (induction ss)
  case (Cons s ss)
  then show ?case by (cases s) (simp_all add: state_rows_def map_filter_simps)
qed simp

lemma state_after:
  assumes "\<forall>s\<in>set ss. plain_statement s" and "run_all ss db = Some d"
  shows "lg_state d = fold (tab_upsert kr_key merge_replace) (state_rows ss) (lg_state db)"
  unfolding state_rows_def
proof (rule run_all_table [OF _ assms(2)])
  fix s db db' assume "s \<in> set ss" "run_statement s db = Some db'"
  with assms(1) show "lg_state db' = (case (case s of Put_State r \<Rightarrow> Some r | _ \<Rightarrow> None) of
      None \<Rightarrow> lg_state db | Some r \<Rightarrow> tab_upsert kr_key merge_replace r (lg_state db))"
    by (intro state_step) auto
qed

lemma state_does_not_grow:
  assumes "\<forall>s\<in>set ss. plain_statement s" and "run_all ss db = Some d"
    and "kr_key ` set (state_rows ss) \<subseteq> kr_key ` set (lg_state db)"
  shows "length (lg_state d) = length (lg_state db)
    \<and> kr_key ` set (lg_state d) = kr_key ` set (lg_state db)"
  using state_after [OF assms(1,2)] keyed_rows.present_rows_are_merged [OF assms(3)]
    keyed_rows.keys_all_written [of "state_rows ss" "lg_state db"] assms(3) by auto

lemma settled_counts:
  assumes "settled db = settled d" and "length (lg_state db) = length (lg_state d)"
  shows "map (\<lambda>x. (fst x, snd x db)) counted_tables = map (\<lambda>x. (fst x, snd x d)) counted_tables"
  using assms by (cases db; cases d) (auto simp: settled_def counted_tables_def dest: map_eq_imp_length_eq)

lemma parsed_pending_ok:
  assumes "parse_legacy_snapshot fmt input = Some sn"
  shows "\<forall>j\<in>set (sn_pending sn). job_ok fmt j"
proof -
  have each: "\<forall>j\<in>set js. job_ok fmt j" if "check_each (parse_queue_job fmt) vs = Some js" for vs js
    using that by (induction vs arbitrary: js) (auto split: option.splits dest: parsed_job_ok)
  obtain vs where "check_each (parse_queue_job fmt) vs = Some (sn_pending sn)"
    using assms by (auto simp: parse_legacy_snapshot_def bind_eq_Some_conv split: if_splits)
  then show ?thesis by (rule each)
qed

text \<open>An import that meets no fault and whose jobs the queue takes returns.\<close>

lemma publish_pending_calm:
  assumes "mw_faults w = []"
    and send: "\<And>js. set js \<subseteq> set jobs \<Longrightarrow> \<exists>sent. send_batch (mc_formats ctx) (mc_byte_length ctx)
      (mc_accepts ctx) (map json_of_job js) = (sent, None)"
  shows "\<exists>u n. publish_pending_once ctx jobs t w = (u, Inr n) \<and> mw_faults u = []"
proof -
  let ?js = "filter (\<lambda>j. \<not> pending_marked (mw_db w) j) jobs"
  obtain sent where "send_batch (mc_formats ctx) (mc_byte_length ctx) (mc_accepts ctx)
      (map json_of_job ?js) = (sent, None)"
    using send [of ?js] by auto
  then have v: "producer_batch ctx ?js w = (w\<lparr>mw_sent := mw_sent w @ sent\<rparr>, Inr ())"
    by (simp add: producer_batch_def)
  obtain d where d: "run_all (map (pending_mark t) ?js) (mw_db (w\<lparr>mw_sent := mw_sent w @ sent\<rparr>)) = Some d"
    using marks_never_fail by blast
  show ?thesis
    using v batch_statements_calm [OF _ d] find_pending_calm [OF assms(1), of jobs] assms(1)
    by (simp add: publish_pending_once_def and_then_def ret_def)
qed

lemma import_calm:
  assumes "mw_faults w = []" and "parse_legacy_snapshot (mc_formats ctx) input = Some sn"
    and "snapshot_statements ctx sn = Inr ss" and "run_all ss (mw_db w) = Some d"
    and "\<And>js. set js \<subseteq> set (sn_pending sn) \<Longrightarrow> \<exists>sent. send_batch (mc_formats ctx) (mc_byte_length ctx)
      (mc_accepts ctx) (map json_of_job js) = (sent, None)"
  shows "\<exists>w' report. import_snapshot ctx input w = (w', Inr report) \<and> mw_faults w' = []"
proof -
  obtain u n where u: "publish_pending_once ctx (sn_pending sn) (sn_exported_at sn) (w\<lparr>mw_db := d\<rparr>) = (u, Inr n)"
    "mw_faults u = []"
    using publish_pending_calm [of "w\<lparr>mw_db := d\<rparr>" "sn_pending sn" ctx "sn_exported_at sn"] assms(1,5)
    by auto
  show ?thesis
    using assms(2,3) batch_statements_calm [OF assms(1,4)] u
    by (simp add: import_snapshot_def and_then_def ret_def database_counts_def collect_reads_calm)
qed

section \<open>A sample\<close>

definition sample_migration :: migration_context where
  "sample_migration = \<lparr>mc_formats = sample_formats, mc_schema_error = (\<lambda>_. ''schema''),
     mc_vault = sample_vault JNull, mc_iv = (\<lambda>k. replicate 12 (of_nat k)), mc_encryption_key = '' key'',
     mc_byte_length = (\<lambda>_. 10), mc_accepts = (\<lambda>_. True)\<rparr>"

definition sample_import :: json where
  "sample_import = JObj
     [(''exportedAt'', JStr ''2026-01-02T00:00:00Z''),
      (''postgres'', JObj
        [(''articleEvents'', JArr []), (''baselines'', JArr []),
         (''credentials'', JArr [JObj [(''kind'', JStr ''token''), (''name'', JStr ''dida''),
                                       (''payload'', JNull), (''platform'', JStr ''dida'')]]),
         (''didaSyncStates'', JArr []), (''loginSessions'', JArr []), (''subscriptions'', JArr []),
         (''syncJobs'', JArr []),
         (''telegramOffsets'', JArr [JObj [(''tokenHash'', JStr ''0123456789abcdef0123''),
                                           (''updateId'', JNum 7), (''updatedAt'', JNull)]])]),
      (''redis'', JObj
        [(''deadLetters'', JArr []), (''doneJobs'', JArr []), (''pendingJobs'', JArr [json_of_job sample_job]),
         (''rateLimits'', JArr [])]),
      (''schemaVersion'', JNum 1)]"

definition sample_snapshot :: legacy_snapshot where
  "sample_snapshot = \<lparr>sn_exported_at = ''2026-01-02T00:00:00Z'',
     sn_offsets = [\<lparr>tg_token_hash = ''0123456789abcdef0123'', tg_update_id = 7, tg_updated_at = None\<rparr>],
     sn_dida = [], sn_baselines = [],
     sn_credentials = [\<lparr>lc_name = ''dida'', lc_platform = ''dida'', lc_kind = ''token'', lc_payload = Some JNull\<rparr>],
     sn_logins = [], sn_subscriptions = [], sn_syncs = [], sn_events = [], sn_letters = [], sn_done = [],
     sn_pending = [sample_job], sn_limits = []\<rparr>"

lemma sample_job_parses: "parse_queue_job sample_formats (json_of_job sample_job) = Some sample_job"
  by (rule parse_json_of_job) (simp add: job_ok_def sample_job_def sample_formats_def tags_ok_def)

lemma sample_dates: "fmt_datetime sample_formats = non_empty"
  by (simp add: sample_formats_def)

lemma sample_parses: "parse_legacy_snapshot sample_formats sample_import = Some sample_snapshot"
  by (simp add: parse_legacy_snapshot_def sample_import_def sample_snapshot_def get_rows_def json_get_def
      json_list_def parse_credential_def parse_offset_def get_text_def get_nullable_def get_time_def
      get_int_def json_int_def json_object_def max_safe_integer_def is_integer_def sample_job_parses sample_dates)

lemma sample_statements: "\<exists>ss. snapshot_statements sample_migration sample_snapshot = Inr ss"
  by (simp add: snapshot_statements_def sample_snapshot_def sample_migration_def encrypt_unknown_def
      encrypt_json_def import_key_def sample_vault_def key_length_def js_trim_def is_js_space_def Let_def)

definition empty_legacy :: legacy_db where
  "empty_legacy = \<lparr>lg_events = [], lg_credentials = [], lg_dida = [], lg_baselines = [], lg_logins = [],
     lg_subscriptions = [], lg_syncs = [], lg_offsets = [], lg_letters = [], lg_inbox = 0, lg_jobs = [],
     lg_limits = [], lg_state = []\<rparr>"

lemma sample_pending_send:
  "set js \<subseteq> {sample_job} \<Longrightarrow> \<exists>sent. send_batch sample_formats (\<lambda>_. 10) (\<lambda>_. True) (map json_of_job js)
     = (sent, None)"
proof -
  assume "set js \<subseteq> {sample_job}"
  then have "\<exists>ms. measure_messages sample_formats (\<lambda>_. 10) (map json_of_job js) = Inr ms"
    by (induction js) (auto simp: sample_job_parses)
  then show ?thesis by (auto simp: send_batch_def send_batches_all)
qed

lemma sample_import_returns:
  assumes "mw_faults w = []"
  shows "\<exists>w' report. import_snapshot sample_migration sample_import w = (w', Inr report) \<and> mw_faults w' = []"
proof -
  obtain ss where ss: "snapshot_statements sample_migration sample_snapshot = Inr ss"
    using sample_statements by blast
  have "\<exists>d. run_all ss (mw_db w) = Some d"
    using ss by (intro present_jobs_never_fail)
      (auto simp: snapshot_statements_def sample_snapshot_def Let_def offset_statements_def split: sum.splits)
  then show ?thesis
    using import_calm [OF assms _ ss] sample_pending_send
    by (auto simp: sample_migration_def sample_parses sample_snapshot_def)
qed

section \<open>Properties\<close>


lemma lost_answer:
  assumes "ss \<noteq> []" and "mw_faults w = [Answer_Lost]"
  shows "\<exists>db. batch_statements ss w = (w\<lparr>mw_db := db, mw_faults := []\<rparr>, Inl d1_failed)"
proof -
  have "\<exists>db. d1_batch (take 100 ss) w = (w\<lparr>mw_db := db, mw_faults := []\<rparr>, Inl d1_failed)"
    using assms(2) by (cases "run_all (take 100 ss) (mw_db w)"; cases w)
      (simp_all add: d1_batch_def after_fault_def next_fault_def)
  with assms(1) show ?thesis by (subst batch_statements.simps) (auto simp: and_then_def)
qed


text \<open>C33: An import that returns has sent every pending job of the snapshot that was not marked before, in
  the order of the snapshot. The same import run again, with other initialisation vectors, returns, sends
  nothing, reports the same totals and leaves the rows as they are.\<close>

theorem finished_import_repeats_nothing:
  assumes "import_snapshot ctx input w = (w1, Inr report)" and "mw_faults w1 = []"
    and "parse_legacy_snapshot (mc_formats ctx) input = Some sn"
  shows "(\<exists>sent. mw_sent w1 = mw_sent w @ sent
           \<and> concat sent = filter (\<lambda>j. \<not> pending_marked (mw_db w) j) (sn_pending sn))
    \<and> (\<exists>w2. import_snapshot (ctx\<lparr>mc_iv := iv\<rparr>) input w1
             = (w2, Inr (report\<lparr>im_published_pending_jobs := 0\<rparr>))
           \<and> mw_sent w2 = mw_sent w1 \<and> settled (mw_db w2) = settled (mw_db w1))"
proof -
  let ?ctx = "ctx\<lparr>mc_iv := iv\<rparr>"
  obtain sn' ss v u n where all: "parse_legacy_snapshot (mc_formats ctx) input = Some sn'"
    "snapshot_statements ctx sn' = Inr ss" "run_all ss (mw_db w) = Some (mw_db v)" "mw_sent v = mw_sent w"
    "publish_pending_once ctx (sn_pending sn') (sn_exported_at sn') v = (u, Inr n)"
    "mw_db w1 = mw_db u" "mw_sent w1 = mw_sent u"
    "report = \<lparr>im_imported = snapshot_counts sn', im_published_pending_jobs = n,
       im_totals = map (\<lambda>x. (fst x, snd x (mw_db w1))) counted_tables\<rparr>"
    by (rule import_returns [OF assms(1)])
  have "sn' = sn" using all(1) assms(3) by simp
  note ss = all(2) [unfolded this] and run = all(3) and v = all(4) and u = all(5) [unfolded this]
    and w1 = all(6,7) and report = all(8) [unfolded this]
  note plain = snapshot_statements_plain [OF ss] and p = publish_pending_result [OF u]
  obtain ts where ts: "snapshot_statements ?ctx sn = Inr ts" using statements_other_iv [OF ss] by blast
  note same = snapshot_statements_same [OF ss ts] and plain' = snapshot_statements_plain [OF ts]
  have "nr_dedupe_key r \<in> nr_dedupe_key ` set (lg_jobs (mw_db w1))" if "Add_Done r \<in> set ts" for r
  proof -
    have "Add_Done r \<in> set (map unsealed_statement ss)" unfolding same using that by force
    then obtain s where "s \<in> set ss" "unsealed_statement s = Add_Done r" by auto
    moreover have "s = Add_Done r" using \<open>unsealed_statement s = Add_Done r\<close> by (cases s) auto
    ultimately have "Add_Done r \<in> set ss" by simp
    from done_jobs_are_present [OF run this] show ?thesis using p(2) w1 by simp
  qed
  then obtain d where d: "run_all ts (mw_db w1) = Some d" using present_jobs_never_fail by blast
  have "kr_key ` set (state_rows ts) \<subseteq> kr_key ` set (lg_state (mw_db v))"
    unfolding state_after [OF plain run] keyed_rows.keys_all_written
    using same state_rows_unsealed by (metis Un_upper1)
  with p(3) w1 state_does_not_grow [OF plain' d]
  have len: "length (lg_state d) = length (lg_state (mw_db w1))"
    and keys: "kr_key ` set (lg_state d) = kr_key ` set (lg_state (mw_db w1))" by auto
  have "run_all (map unsealed_statement ss) (settled (mw_db w)) = Some (settled (mw_db w1))"
    using import_settles [OF assms(1,3) ss] .
  then have "run_all (map unsealed_statement ts) (settled (mw_db w1)) = Some (settled (mw_db w1))"
    using plain unfolding same [symmetric] by (intro run_all_twice) (auto simp: plain_unsealed)
  then have settled: "settled d = settled (mw_db w1)"
    using run_all_settled [OF plain', of "mw_db w1"] d by simp
  let ?w2 = "w1\<lparr>mw_db := d\<rparr>"
  have "\<forall>j\<in>set (sn_pending sn). pending_marked (mw_db ?w2) j"
    using p(4) keys w1 by (auto simp: pending_marked_key)
  then have "publish_pending_once ?ctx (sn_pending sn) (sn_exported_at sn) ?w2 = (?w2, Inr 0)"
    using assms(2) by (intro publish_nothing_calm) simp_all
  moreover have "database_counts ?w2 = (?w2, Inr (im_totals report))"
    using settled_counts [OF settled len] assms(2) by (simp add: database_counts_def collect_reads_calm report)
  ultimately have "import_snapshot ?ctx input w1 = (?w2, Inr (report\<lparr>im_published_pending_jobs := 0\<rparr>))"
    using assms(3) ts batch_statements_calm [OF assms(2) d]
    by (simp add: import_snapshot_def and_then_def ret_def report)
  moreover have "\<exists>sent. mw_sent w1 = mw_sent w @ sent
      \<and> concat sent = filter (\<lambda>j. \<not> pending_marked (mw_db w) j) (sn_pending sn)"
    using p(4) parsed_pending_ok [OF assms(3)] w1 v plain_leaves_marks [OF plain run] by auto
  ultimately show ?thesis using settled by auto
qed

theorem finished_import_repeats_nothing_witness:
  "\<exists>w1 report w2.
     import_snapshot sample_migration sample_import
       \<lparr>mw_db = empty_legacy, mw_faults = [], mw_sent = []\<rparr> = (w1, Inr report)
     \<and> concat (mw_sent w1) = [sample_job]
     \<and> import_snapshot (sample_migration\<lparr>mc_iv := \<lambda>_. []\<rparr>) sample_import w1
         = (w2, Inr (report\<lparr>im_published_pending_jobs := 0\<rparr>))
     \<and> mw_sent w2 = mw_sent w1"
proof -
  let ?w = "\<lparr>mw_db = empty_legacy, mw_faults = [], mw_sent = []\<rparr>"
  obtain w1 report where first: "import_snapshot sample_migration sample_import ?w = (w1, Inr report)"
    "mw_faults w1 = []"
    using sample_import_returns [of ?w] by auto
  have "parse_legacy_snapshot (mc_formats sample_migration) sample_import = Some sample_snapshot"
    using sample_parses by (simp add: sample_migration_def)
  from finished_import_repeats_nothing [OF first this, of "\<lambda>_. []"] first show ?thesis
    by (auto simp: sample_snapshot_def pending_marked_def empty_legacy_def)
qed

end
