(* ===== verification/Spec2Isabelle.thy ===== *)
theory Spec2Isabelle
  imports Job_Failure Queue_Producer Operations Control_Plane Control_Data Heartbeats Job_Handler
    State_Restore Legacy_Rehearsal Readiness_Capture Replay_Routes Control_Data_Pg Operations_Pg
    Outbound_Proxy Article_Archive Article_Repository Ima_Mirror
    Browser_Collectors Legacy_Migration
begin

text \<open>
  A verification development for the inbox server: an API on a serverless platform (\<open>apps/api\<close>)
  that keeps the ledgers of jobs and of external effects in a D1 or PostgreSQL database, a worker
  (\<open>apps/worker\<close>) that pulls jobs from the API's inbox, collects from sources and delivers to
  destinations, the shared domain package (\<open>packages/domain\<close>) and the release tools
  (\<open>packages/release-operations\<close>).

  \<^bold>\<open>How the parts interact.\<close> The cron or an operator asks the operations service for a
  synchronisation (Operations), whose jobs go through the producer (Queue_Producer) and the
  platform's queue into the inbox table (Queue_Inbox). The worker pulls a batch, claims each job in
  the job ledger (Job_Ledger), runs the handler (Job_Handler), which asks the rate limits
  (Rate_Limits) and the effect ledger (Effect_Ledger) before it delivers, reports the result to the
  ledger and settles the lease (Queue_Processor). Articles are archived as pages of a git repository
  (Article_Archive, Article_Repository) and mirrored to a knowledge base (Ima_Mirror); the browser's
  traffic leaves through the outbound proxy (Outbound_Proxy). A job that dies leaves a dead letter and an
  encrypted envelope (Credential_Crypto); an operator plans and executes its replay (Replay,
  Replay_Routes). Health, heartbeats and metrics (Worker_Health, Heartbeats, Readiness,
  Readiness_Capture) tell the operator how things stand.

  \<^bold>\<open>Which theory models what.\<close>
  \<^item> Inbox_Prelude: tables as lists of rows, with the statements of the databases: select first,
    update, delete, insert or ignore, upsert, and the locale of a write that keeps the key.
    Json, Js_Text, Actions, Manifest_Checks: JSON values, strings of JavaScript, programs that thread
    a state and may throw, checks of manifests.
  \<^item> Retry_Policy (\<open>job-retry-policy.ts\<close>, \<open>control-plane-contract.ts\<close>), Job_Failure
    (\<open>domain/src/job-failure.ts\<close>), Queue_Job (\<open>domain/src/queue-job.ts\<close>), Queue_Producer
    (\<open>queue-producer.ts\<close>), Queue_Inbox (\<open>queue-inbox.ts\<close>, \<open>queue-inbox-postgres.ts\<close>), Operations
    (\<open>operations.ts\<close>), Credential_Crypto (\<open>credential-crypto.ts\<close>).
  \<^item> Job_Ledger, Effect_Ledger, Rate_Limits, Replay, Control_Data: the operations of
    \<open>control-plane.ts\<close> and of its PostgreSQL twins \<open>control-plane-postgres*.ts\<close>; Control_Plane:
    their steps as a transition system over one database.
  \<^item> Heartbeats (\<open>heartbeat-cache.ts\<close>), Worker_Health (\<open>worker/src/health.ts\<close>,
    \<open>health-server.ts\<close>), Queue_Processor (\<open>queue-processor.ts\<close>, \<open>cloudflare-queue-client.ts\<close>),
    Job_Handler (\<open>job-handler.ts\<close>, \<open>channels.ts\<close>).
  \<^item> Readiness and Readiness_Capture: \<open>operations-readiness.ts\<close> and its PostgreSQL twins.
  \<^item> Pg_Pool: the pool of connections to PostgreSQL with its faults, \<open>withClient\<close> and
    \<open>withTransaction\<close>; Control_Data_Pg (\<open>control-plane-postgres-data.ts\<close>) and Operations_Pg
    (\<open>operations-postgres.ts\<close>) over it.
  \<^item> Collector_Parsers, Http_Collectors, Browser_Collectors: \<open>collector-parsers.ts\<close>,
    \<open>http-collectors.ts\<close>, \<open>browser-collectors.ts\<close> and \<open>collectors.ts\<close>.
  \<^item> Web_Url, Socks_Protocol, Outbound_Proxy: \<open>worker/src/outbound-proxy.ts\<close>. Article_Text,
    Article_Archive, Article_Repository: \<open>article-archive.ts\<close>, from the text of a page to the git
    processes; Ima_Mirror: \<open>ima-article-mirror.ts\<close>.
  \<^item> Api_Access, Api_Routes, Replay_Routes: \<open>auth.ts\<close>, \<open>cors.ts\<close>, \<open>app.ts\<close>, \<open>index.ts\<close>.
  \<^item> Legacy_Migration: \<open>legacy-migration.ts\<close>, the import of the state of the Python service.
  \<^item> Release_Plan, Release_Executor, State_Restore_Plan, State_Restore, Legacy_Rehearsal_Plan,
    Legacy_Rehearsal: the modules of \<open>release-operations/src\<close> of the same names.

  \<^bold>\<open>State and time.\<close> A table is a list of records; an instant is an integer of milliseconds. A
  statement or a batch of a database is atomic; what other clients do between two statements is an
  argument (the functions \<open>others\<close> of Rate_Limits and Replay) or a step of another agent
  (Control_Plane, Effect_Ledger). An operation that may throw returns a sum. Third-party code
  (the cipher, SHA-256, the checks of formats, \<open>new URL\<close>, \<open>JSON.parse\<close>, processes, files, the
  network) is an argument; what the theorems need of it is a hypothesis, and each theorem with a
  hypothesis has a witness.

  \<^bold>\<open>What the lemmas show.\<close> For each ledger an invariant and that every operation keeps it
  (Control_Plane joins them); for each operation with two backends that they agree; for each
  component its contract: spaced claims, at most one delivery per effect, capped windows,
  exclusive leases, batches settled whole, results that match the effects, alerts that follow their
  breaches, captures that can be completed, releases in order with compensation in reverse,
  rehearsals that clean up and do not claim more than they checked, routes that nobody reaches
  without a key, replays that are the ones planned, addresses
  that are fresh and the only ones a tunnel names, articles that are saved and mirrored once, runs
  that are stored before they are sent, sources whose items are new, acknowledged and deleted only once
  they were collected, an import that starts over after any fault and repeats nothing once it returned.
  Some theorems show what the code does where it
  falls short of what it means to do; the manifest lists them as findings.

  \<^bold>\<open>Bounds.\<close> The optimistic loop of the rate limits has the five attempts of the code as its fuel.
  The recursion of a parsed text ends because the text it holds is shorter. The drain of the
  webhook is a loop over the rounds that it is given, and Worker_Health shows when it ends. The wait
  for a WARP connection has one round for every second of its timeout, which Outbound_Proxy shows to
  be enough; the searches of Ima_Mirror follow the pages that they are given and answer \<open>None\<close> when
  those do not suffice; saving a page takes at most 36 git processes (Article_Repository).
  Everything else is structural recursion.

  \<^bold>\<open>Not modelled.\<close> The object store of attachments, the start of the browser, the worker's
  main program, the console, the command lines (the export of the legacy state among them) and the
  deployment scripts. Strings are lists of 8-bit characters; numbers of JSON are rationals; the rounding of doubles is left out.
\<close>

end
